(* ===== verification/Prelude.thy ===== *)
theory Prelude
  imports Main
begin

section \<open>Shared vocabulary of the development\<close>

text \<open>
  What every component theory builds on: the names of the model's scalar types, the Python
  string and truthiness operations the sources use, relational tables as lists of rows
  (selection, column update, unique insertion), results with the platform's errors on the
  left, and the generic lemmas about them. Rewrite rules that describe how a table operation
  changes a table are collected in \<open>table_simps\<close>.

  Conventions of the whole development:
  \<^item> a UUID is an opaque natural number; a value drawn by \<open>uuid.uuid4()\<close> is an argument of
    the operation that draws it;
  \<^item> a timestamp is an integer (microseconds since the epoch, UTC); an operation that reads
    the clock takes the value it reads as the argument \<open>now\<close>;
  \<^item> money is an integer of minor units, as in the sources (Python integers do not overflow);
  \<^item> strings are lists of characters; the case operations follow Python on ASCII;
  \<^item> log calls and metrics are left out.
\<close>

named_theorems table_simps \<open>how table operations change tables\<close>

type_synonym uuid = nat
type_synonym timestamp = int
type_synonym money = int

subsection \<open>Python truthiness of optional values\<close>

definition or_str :: "string option \<Rightarrow> string \<Rightarrow> string" where
  "or_str x d = (case x of None \<Rightarrow> d | Some s \<Rightarrow> if s = [] then d else s)"

definition or_opt :: "string option \<Rightarrow> string option \<Rightarrow> string option" where
  "or_opt x d = (case x of None \<Rightarrow> d | Some s \<Rightarrow> if s = [] then d else Some s)"

definition truthy :: "string option \<Rightarrow> bool" where
  "truthy x = (case x of None \<Rightarrow> False | Some s \<Rightarrow> s \<noteq> [])"

definition opt_default :: "'a option \<Rightarrow> 'a \<Rightarrow> 'a" where
  "opt_default x d = (case x of None \<Rightarrow> d | Some v \<Rightarrow> v)"

subsection \<open>Python string operations\<close>

definition lower_letters :: string where
  "lower_letters = ''abcdefghijklmnopqrstuvwxyz''"

definition upper_letters :: string where
  "upper_letters = ''ABCDEFGHIJKLMNOPQRSTUVWXYZ''"

definition translate_char :: "string \<Rightarrow> string \<Rightarrow> char \<Rightarrow> char" where
  "translate_char src dst c = (case map_of (zip src dst) c of None \<Rightarrow> c | Some d \<Rightarrow> d)"

definition str_upper :: "string \<Rightarrow> string" where
  "str_upper s = map (translate_char lower_letters upper_letters) s"

definition str_lower :: "string \<Rightarrow> string" where
  "str_lower s = map (translate_char upper_letters lower_letters) s"

definition is_space :: "char \<Rightarrow> bool" where
  "is_space c = (c \<in> set [CHR '' '', CHR 0x09, CHR 0x0A, CHR 0x0B, CHR 0x0C, CHR 0x0D,
                          CHR 0x1C, CHR 0x1D, CHR 0x1E, CHR 0x1F])"

definition str_lstrip :: "string \<Rightarrow> string" where
  "str_lstrip s = dropWhile is_space s"

definition str_strip :: "string \<Rightarrow> string" where
  "str_strip s = rev (str_lstrip (rev (str_lstrip s)))"

definition str_startswith :: "string \<Rightarrow> string \<Rightarrow> bool" where
  "str_startswith s p = (take (length p) s = p)"

fun str_contains :: "string \<Rightarrow> string \<Rightarrow> bool" where
  "str_contains p [] = (p = [])"
| "str_contains p (c # s) = (str_startswith (c # s) p \<or> str_contains p s)"

text \<open>\<open>s.split(c)\<close> on one character, and \<open>c.join(parts)\<close>.\<close>

fun str_split :: "char \<Rightarrow> string \<Rightarrow> string list" where
  "str_split sep [] = [[]]"
| "str_split sep (c # s) =
     (if c = sep then [] # str_split sep s
      else case str_split sep s of [] \<Rightarrow> [[c]] | p # ps \<Rightarrow> (c # p) # ps)"

fun str_join :: "string \<Rightarrow> string list \<Rightarrow> string" where
  "str_join sep [] = []"
| "str_join sep [p] = p"
| "str_join sep (p # ps) = p @ sep @ str_join sep ps"

text \<open>\<open>str(n)\<close> on a natural number, and the zero-padded \<open>f"{n:06d}"\<close>.\<close>

definition digit_char :: "nat \<Rightarrow> char" where
  "digit_char d = ''0123456789'' ! d"

fun str_nat :: "nat \<Rightarrow> string" where
  "str_nat n = (if n < 10 then [digit_char n] else str_nat (n div 10) @ [digit_char (n mod 10)])"

declare str_nat.simps [simp del]

definition zero_pad :: "nat \<Rightarrow> string \<Rightarrow> string" where
  "zero_pad w s = replicate (w - length s) (CHR ''0'') @ s"

subsection \<open>Tables\<close>

text \<open>
  A table is the list of its rows in insertion order. \<open>first_row\<close> is
  \<open>.scalars().one_or_none()\<close> on a predicate at most one row satisfies (and \<open>session.get\<close>
  on a key); \<open>update_rows\<close> is \<open>UPDATE ... WHERE\<close>, and also the flush of an object's
  changed columns; \<open>insert_unique\<close> is a flushed \<open>INSERT\<close> under a unique constraint, with
  \<open>None\<close> for the \<open>IntegrityError\<close>.
\<close>

definition first_row :: "('r \<Rightarrow> bool) \<Rightarrow> 'r list \<Rightarrow> 'r option" where
  "first_row P t = find P t"

definition update_rows :: "('r \<Rightarrow> bool) \<Rightarrow> ('r \<Rightarrow> 'r) \<Rightarrow> 'r list \<Rightarrow> 'r list" where
  "update_rows P f t = map (\<lambda>r. if P r then f r else r) t"

definition count_rows :: "('r \<Rightarrow> bool) \<Rightarrow> 'r list \<Rightarrow> nat" where
  "count_rows P t = length (filter P t)"

definition insert_unique :: "('r \<Rightarrow> 'r \<Rightarrow> bool) \<Rightarrow> 'r \<Rightarrow> 'r list \<Rightarrow> 'r list option" where
  "insert_unique clash r t = (if (\<exists>x \<in> set t. clash r x) then None else Some (t @ [r]))"

definition delete_rows :: "('r \<Rightarrow> bool) \<Rightarrow> 'r list \<Rightarrow> 'r list" where
  "delete_rows P t = filter (\<lambda>r. \<not> P r) t"

text \<open>
  \<open>ORDER BY key DESC LIMIT 1\<close>: the row with the greatest key, the first of them in table
  order when several share it.
\<close>

fun max_row :: "('r \<Rightarrow> 'k::linorder) \<Rightarrow> 'r list \<Rightarrow> 'r option" where
  "max_row key [] = None"
| "max_row key (r # t) =
     (case max_row key t of None \<Rightarrow> Some r | Some m \<Rightarrow> if key r < key m then Some m else Some r)"

text \<open>\<open>ORDER BY key DESC\<close> (rows with equal keys in table order) and \<open>LIMIT\<close>/\<open>OFFSET\<close>.\<close>

definition order_by_desc :: "('r \<Rightarrow> int) \<Rightarrow> 'r list \<Rightarrow> 'r list" where
  "order_by_desc key t = sort_key (\<lambda>r. - key r) t"

definition page_rows :: "nat \<Rightarrow> nat \<Rightarrow> 'r list \<Rightarrow> 'r list" where
  "page_rows limit offset t = take limit (drop offset t)"

subsection \<open>Lemmas: strings\<close>

lemma map_of_zip_set: "map_of (zip xs ys) c = Some d \<Longrightarrow> c \<in> set xs \<and> d \<in> set ys"
  by (meson map_of_SomeD set_zip_leftD set_zip_rightD)

lemma translate_char_idem:
  assumes "set src \<inter> set dst = {}"
  shows "translate_char src dst (translate_char src dst c) = translate_char src dst c"
proof (cases "map_of (zip src dst) c")
  case None
  then show ?thesis by (simp add: translate_char_def)
next
  case (Some d)
  then have "d \<notin> set src" using assms map_of_zip_set by fastforce
  then have "map_of (zip src dst) d = None" by (metis map_of_zip_set option.exhaust)
  with Some show ?thesis by (simp add: translate_char_def)
qed

lemma str_upper_idem [simp]: "str_upper (str_upper s) = str_upper s"
  unfolding str_upper_def map_map o_def
  by (subst translate_char_idem) (simp_all add: lower_letters_def upper_letters_def)

lemma str_lower_idem [simp]: "str_lower (str_lower s) = str_lower s"
  unfolding str_lower_def map_map o_def
  by (subst translate_char_idem) (simp_all add: lower_letters_def upper_letters_def)

lemma str_upper_Nil_iff [simp]: "str_upper s = [] \<longleftrightarrow> s = []"
  by (simp add: str_upper_def)

lemma dropWhile_absent: "(\<And>c. c \<in> set s \<Longrightarrow> \<not> P c) \<Longrightarrow> dropWhile P s = s"
  by (cases s) auto

lemma str_strip_plain:
  assumes "\<And>c. c \<in> set s \<Longrightarrow> \<not> is_space c"
  shows "str_strip s = s"
proof -
  have "str_lstrip s = s" "str_lstrip (rev s) = rev s"
    unfolding str_lstrip_def by (rule dropWhile_absent; simp add: assms)+
  then show ?thesis by (simp add: str_strip_def)
qed

lemma str_split_plain: "c \<notin> set s \<Longrightarrow> str_split c s = [s]"
  by (induction s) auto

lemma str_split_at: "c \<notin> set s \<Longrightarrow> str_split c (s @ c # t) = s # str_split c t"
  by (induction s) auto

lemma digit_char_inj: "a < 10 \<Longrightarrow> b < 10 \<Longrightarrow> digit_char a = digit_char b \<Longrightarrow> a = b"
  unfolding digit_char_def
  by (subst (asm) nth_eq_iff_index_eq) simp_all

lemma str_nat_neq_Nil [simp]: "str_nat n \<noteq> []" "[] \<noteq> str_nat n"
  by (subst str_nat.simps, simp)+

lemma str_nat_inj: "str_nat a = str_nat b \<Longrightarrow> a = b"
proof (induction a arbitrary: b rule: str_nat.induct)
  case (1 a)
  show ?case
  proof (cases "a < 10 \<or> b < 10")
    case True
    with "1.prems" show ?thesis
      by (auto simp: str_nat.simps [of a] str_nat.simps [of b] digit_char_inj split: if_splits)
  next
    case False
    with "1.prems" have "str_nat (a div 10) = str_nat (b div 10)"
      and "digit_char (a mod 10) = digit_char (b mod 10)"
      by (simp_all add: str_nat.simps [of a] str_nat.simps [of b])
    moreover from this have "a div 10 = b div 10" using "1.IH" False by simp
    ultimately show ?thesis by (metis digit_char_inj div_mult_mod_eq mod_less_divisor zero_less_numeral)
  qed
qed

subsection \<open>Lemmas: tables\<close>

lemma first_row_Some: "first_row P t = Some r \<Longrightarrow> r \<in> set t \<and> P r"
  by (auto simp: first_row_def find_Some_iff)

lemma first_row_None: "first_row P t = None \<longleftrightarrow> (\<forall>r \<in> set t. \<not> P r)"
  by (auto simp: first_row_def find_None_iff)

lemma first_row_append [table_simps]:
  "first_row P (t @ u) = (case first_row P t of None \<Rightarrow> first_row P u | Some r \<Rightarrow> Some r)"
  by (induction t) (auto simp: first_row_def)

lemma first_row_simps [simp]:
  "first_row P [] = None"
  "first_row P (r # t) = (if P r then Some r else first_row P t)"
  by (simp_all add: first_row_def)

lemma update_rows_simps [simp]:
  "update_rows P f [] = []"
  "update_rows P f (r # t) = (if P r then f r else r) # update_rows P f t"
  by (simp_all add: update_rows_def)

lemma update_rows_append [table_simps]:
  "update_rows P f (t @ u) = update_rows P f t @ update_rows P f u"
  by (simp add: update_rows_def)

lemma length_update_rows [simp]: "length (update_rows P f t) = length t"
  by (simp add: update_rows_def)

lemma set_update_rows: "set (update_rows P f t) = (\<lambda>r. if P r then f r else r) ` set t"
  by (simp add: update_rows_def)

lemma update_rows_none: "(\<And>r. r \<in> set t \<Longrightarrow> \<not> P r) \<Longrightarrow> update_rows P f t = t"
  by (simp add: update_rows_def map_idI)

lemma update_rows_id: "(\<And>r. r \<in> set t \<Longrightarrow> P r \<Longrightarrow> f r = r) \<Longrightarrow> update_rows P f t = t"
  by (simp add: update_rows_def map_idI)

lemma map_update_rows: "(\<And>r. k (f r) = k r) \<Longrightarrow> map k (update_rows P f t) = map k t"
  by (simp add: update_rows_def)

lemma first_row_update_rows [table_simps]:
  "(\<And>r. Q (f r) = Q r) \<Longrightarrow>
     first_row Q (update_rows P f t) = map_option (\<lambda>r. if P r then f r else r) (first_row Q t)"
  by (induction t) auto

lemma count_rows_simps [simp]:
  "count_rows P [] = 0"
  "count_rows P (r # t) = (if P r then Suc (count_rows P t) else count_rows P t)"
  by (simp_all add: count_rows_def)

lemma count_rows_append [table_simps]: "count_rows P (t @ u) = count_rows P t + count_rows P u"
  by (simp add: count_rows_def)

lemma count_rows_update_rows [table_simps]:
  "(\<And>r. Q (f r) = Q r) \<Longrightarrow> count_rows Q (update_rows P f t) = count_rows Q t"
  by (induction t) auto

lemma count_rows_zero: "count_rows P t = 0 \<longleftrightarrow> (\<forall>r \<in> set t. \<not> P r)"
  by (auto simp: count_rows_def filter_empty_conv)

lemma count_rows_delete [table_simps]:
  "count_rows P (delete_rows Q t) = count_rows (\<lambda>r. P r \<and> \<not> Q r) t"
  by (induction t) (auto simp: count_rows_def delete_rows_def)

lemma insert_unique_Some:
  "insert_unique clash r t = Some t' \<longleftrightarrow> t' = t @ [r] \<and> (\<forall>x \<in> set t. \<not> clash r x)"
  by (auto simp: insert_unique_def)

lemma insert_unique_None: "insert_unique clash r t = None \<longleftrightarrow> (\<exists>x \<in> set t. clash r x)"
  by (auto simp: insert_unique_def)

lemma max_row_None [simp]: "max_row key t = None \<longleftrightarrow> t = []"
  by (cases t) (auto split: option.splits)

lemma max_row_Some: "max_row key t = Some m \<Longrightarrow> m \<in> set t \<and> (\<forall>r \<in> set t. key r \<le> key m)"
  by (induction t arbitrary: m) (fastforce split: option.splits if_splits)+

lemma sum_list_update_rows_other:
  "(\<And>r. r \<in> set t \<Longrightarrow> P r \<Longrightarrow> g (f r) = g r) \<Longrightarrow>
     sum_list (map g (update_rows P f t)) = sum_list (map g t)"
  by (induction t) auto

subsection \<open>Interface of a uniquely keyed table\<close>

text \<open>
  What a table with a unique constraint promises to the code that uses it: insertion keeps
  keys distinct and is refused exactly when the key is taken; a lookup by key after a
  successful insertion finds the new row and every old one; and updating columns other than
  the key changes no key. The clients' lemmas are proved once here, and the
  interpretations of the component theories instantiate them with the key columns of
  their tables.
\<close>

locale keyed_table =
  fixes key :: "'r \<Rightarrow> 'k"
    and keyed :: "'r \<Rightarrow> bool"
    and clash :: "'r \<Rightarrow> 'r \<Rightarrow> bool"
  assumes clash_iff: "clash r x \<longleftrightarrow> keyed r \<and> keyed x \<and> key r = key x"
begin

definition unique_keys :: "'r list \<Rightarrow> bool" where
  "unique_keys t = distinct (map key (filter keyed t))"

lemma unique_keys_Nil [simp]: "unique_keys []"
  by (simp add: unique_keys_def)

lemma insert_keeps_unique:
  assumes "unique_keys t" and "insert_unique clash r t = Some t'"
  shows "unique_keys t'"
  using assms by (auto simp: unique_keys_def insert_unique_Some clash_iff)

lemma insert_refused:
  assumes "keyed r"
  shows "insert_unique clash r t = None \<longleftrightarrow> key r \<in> key ` set (filter keyed t)"
  using assms by (auto simp: insert_unique_None clash_iff image_iff)

lemma lookup_inserted:
  assumes "insert_unique clash r t = Some t'" and "keyed r"
  shows "first_row (\<lambda>x. keyed x \<and> key x = key r) t' = Some r"
proof -
  from assms have "first_row (\<lambda>x. keyed x \<and> key x = key r) t = None"
    by (auto simp: insert_unique_Some clash_iff first_row_None)
  with assms show ?thesis by (auto simp: insert_unique_Some table_simps)
qed

lemma lookup_other:
  assumes "insert_unique clash r t = Some t'" and "first_row P t = Some x"
  shows "first_row P t' = Some x"
  using assms by (simp add: insert_unique_Some table_simps)

lemma update_keeps_unique:
  assumes "unique_keys t" and "\<And>r. keyed (f r) = keyed r" and "\<And>r. key (f r) = key r"
  shows "unique_keys (update_rows P f t)"
proof -
  have "map key (filter keyed (update_rows P f t)) = map key (filter keyed t)"
    using assms(2,3) by (induction t) auto
  with assms(1) show ?thesis by (simp add: unique_keys_def)
qed

lemma delete_keeps_unique:
  assumes "unique_keys t"
  shows "unique_keys (delete_rows P t)"
proof -
  have "distinct (map key (filter keyed (delete_rows P t)))"
    using assms unfolding unique_keys_def
    by (induction t) (auto simp: delete_rows_def)
  then show ?thesis by (simp add: unique_keys_def)
qed

lemma unique_key_eq:
  assumes "unique_keys t" and "x \<in> set t" and "y \<in> set t"
    and "keyed x" and "keyed y" and "key x = key y"
  shows "x = y"
proof -
  have "inj_on key (set (filter keyed t))"
    using assms(1) by (simp add: unique_keys_def distinct_map)
  with assms(2-) show ?thesis by (auto simp: inj_on_def)
qed

end

end
