(* ===== verification/Core_Errors.thy ===== *)
theory Core_Errors
  imports Prelude
begin

section \<open>The platform error model and the shared enums\<close>

text \<open>
  \<open>packages/core-py/knowledgeos_core/errors.py\<close>: the classes of deliberate failures with
  their HTTP status and default code, the constructor's fall-back to the class attributes,
  and the exception handlers that turn any exception into a status and a machine-readable
  code. \<open>packages/core-py/knowledgeos_core/schemas.py\<close>: the enums several services share.
  The human-facing \<open>message\<close> and \<open>details\<close> of an error are left out: no code of the
  platform branches on them.
\<close>

subsection \<open>Error classes\<close>

datatype error_class =
    PlainAppError
  | BadRequestError
  | ValidationError
  | UnauthorizedError
  | ForbiddenError
  | NotFoundError
  | ConflictError
  | PayloadTooLargeError
  | UnsupportedMediaTypeError
  | RateLimitedError
  | PaymentRequiredError
  | ServiceUnavailableError
  | UpstreamError

fun class_status_code :: "error_class \<Rightarrow> nat" where
  "class_status_code PlainAppError = 500"
| "class_status_code BadRequestError = 400"
| "class_status_code ValidationError = 422"
| "class_status_code UnauthorizedError = 401"
| "class_status_code ForbiddenError = 403"
| "class_status_code NotFoundError = 404"
| "class_status_code ConflictError = 409"
| "class_status_code PayloadTooLargeError = 413"
| "class_status_code UnsupportedMediaTypeError = 415"
| "class_status_code RateLimitedError = 429"
| "class_status_code PaymentRequiredError = 402"
| "class_status_code ServiceUnavailableError = 503"
| "class_status_code UpstreamError = 502"

fun class_code :: "error_class \<Rightarrow> string" where
  "class_code PlainAppError = ''internal_error''"
| "class_code BadRequestError = ''bad_request''"
| "class_code ValidationError = ''validation_error''"
| "class_code UnauthorizedError = ''unauthorized''"
| "class_code ForbiddenError = ''forbidden''"
| "class_code NotFoundError = ''resource_not_found''"
| "class_code ConflictError = ''conflict''"
| "class_code PayloadTooLargeError = ''payload_too_large''"
| "class_code UnsupportedMediaTypeError = ''unsupported_media_type''"
| "class_code RateLimitedError = ''rate_limited''"
| "class_code PaymentRequiredError = ''payment_required''"
| "class_code ServiceUnavailableError = ''service_unavailable''"
| "class_code UpstreamError = ''upstream_error''"

text \<open>
  An exception that reaches the framework: an \<open>AppError\<close> with its class, code and status;
  pydantic's request validation failure; Starlette's own HTTP error; or any other Python
  exception, named by its type.
\<close>

datatype exn =
    AppExn error_class string nat
  | RequestValidationExn
  | StarletteHttpExn nat
  | PyExn string

type_synonym 'a result = "exn + 'a"

text \<open>SQLAlchemy's \<open>scalar_one_or_none\<close>: more than one matching row raises.\<close>

definition one_or_none :: "('r \<Rightarrow> bool) \<Rightarrow> 'r list \<Rightarrow> 'r option result" where
  "one_or_none P t =
     (case filter P t of [] \<Rightarrow> Inr None | [r] \<Rightarrow> Inr (Some r)
      | _ \<Rightarrow> Inl (PyExn ''MultipleResultsFound''))"

definition app_error :: "error_class \<Rightarrow> string option \<Rightarrow> nat option \<Rightarrow> exn" where
  "app_error cls code st =
     AppExn cls (or_str code (class_code cls))
       (case st of None \<Rightarrow> class_status_code cls
        | Some n \<Rightarrow> if n = 0 then class_status_code cls else n)"

abbreviation raise_default :: "error_class \<Rightarrow> exn" where
  "raise_default cls \<equiv> app_error cls None None"

abbreviation raise_code :: "error_class \<Rightarrow> string \<Rightarrow> exn" where
  "raise_code cls c \<equiv> app_error cls (Some c) None"

subsection \<open>Exception handlers\<close>

definition code_by_status :: "(nat \<times> string) list" where
  "code_by_status =
     [(400, ''bad_request''), (401, ''unauthorized''), (403, ''forbidden''),
      (404, ''resource_not_found''), (405, ''method_not_allowed''), (409, ''conflict''),
      (413, ''payload_too_large''), (415, ''unsupported_media_type''),
      (422, ''validation_error''), (429, ''rate_limited''), (500, ''internal_error''),
      (502, ''upstream_error''), (503, ''service_unavailable''), (504, ''upstream_timeout'')]"

text \<open>The response an exception becomes: its status code and the envelope's \<open>code\<close>.\<close>

fun handle_exception :: "exn \<Rightarrow> nat \<times> string" where
  "handle_exception (AppExn cls code st) = (st, code)"
| "handle_exception RequestValidationExn =
     (class_status_code ValidationError, class_code ValidationError)"
| "handle_exception (StarletteHttpExn n) =
     (case app_error PlainAppError
             (Some (case map_of code_by_status n of None \<Rightarrow> ''http_error'' | Some c \<Rightarrow> c)) (Some n)
      of AppExn cls code st \<Rightarrow> (st, code) | _ \<Rightarrow> (500, ''internal_error''))"
| "handle_exception (PyExn _) = (500, class_code PlainAppError)"

subsection \<open>Shared enums\<close>

datatype OrderStatus =
    Pending | AwaitingPayment | Paid | Failed | Cancelled | Refunded | PartiallyRefunded

datatype PaymentProvider = Razorpay | Stripe | Manual

definition provider_value :: "PaymentProvider \<Rightarrow> string" where
  "provider_value p =
     (case p of Razorpay \<Rightarrow> ''razorpay'' | Stripe \<Rightarrow> ''stripe'' | Manual \<Rightarrow> ''manual'')"

definition provider_of_value :: "string \<Rightarrow> PaymentProvider option" where
  "provider_of_value s =
     (if s = ''razorpay'' then Some Razorpay else if s = ''stripe'' then Some Stripe
      else if s = ''manual'' then Some Manual else None)"

subsection \<open>Lemmas\<close>

lemma provider_of_value_value [simp]: "provider_of_value (provider_value p) = Some p"
  by (cases p) (simp_all add: provider_of_value_def provider_value_def)

lemma handle_default [simp]:
  "handle_exception (raise_default cls) = (class_status_code cls, class_code cls)"
  by (cases cls) (simp_all add: app_error_def or_str_def)

lemma handle_code:
  "c \<noteq> [] \<Longrightarrow> handle_exception (raise_code cls c) = (class_status_code cls, c)"
  by (simp add: app_error_def or_str_def)

end
