(* ===== verification/Json.thy ===== *)
theory Json
  imports Prelude
begin

section \<open>JSON documents\<close>

text \<open>
  The values \<open>orjson.loads\<close> produces, as far as the services handle them: an object is its
  list of fields in document order, as a Python \<open>dict\<close> is. Numbers are integers: every
  amount on the platform's wire is an integer of minor units. The operations are the ones
  the sources apply to such values: \<open>dict.get\<close>, \<open>dict.update\<close>, truthiness, \<open>str\<close> and
  \<open>int\<close> conversion.
\<close>

datatype json =
    JNull
  | JBool bool
  | JInt int
  | JStr string
  | JArr "json list"
  | JObj "(string \<times> json) list"

type_synonym jobj = "(string \<times> json) list"

definition jget :: "jobj \<Rightarrow> string \<Rightarrow> json option" where
  "jget d k = map_of d k"

text \<open>\<open>d.get(k)\<close> with the default \<open>None\<close>, which JSON's \<open>null\<close> also is.\<close>

definition jget_null :: "jobj \<Rightarrow> string \<Rightarrow> json" where
  "jget_null d k = (case map_of d k of None \<Rightarrow> JNull | Some v \<Rightarrow> v)"

fun jtruthy :: "json \<Rightarrow> bool" where
  "jtruthy JNull = False"
| "jtruthy (JBool b) = b"
| "jtruthy (JInt n) = (n \<noteq> 0)"
| "jtruthy (JStr s) = (s \<noteq> [])"
| "jtruthy (JArr xs) = (xs \<noteq> [])"
| "jtruthy (JObj d) = (d \<noteq> [])"

definition jor :: "json \<Rightarrow> json \<Rightarrow> json" where
  "jor a b = (if jtruthy a then a else b)"

text \<open>
  Assignment to a key of a \<open>dict\<close> keeps the key's position; a new key goes last.
\<close>

fun dict_set :: "('k \<times> 'v) list \<Rightarrow> 'k \<Rightarrow> 'v \<Rightarrow> ('k \<times> 'v) list" where
  "dict_set [] k v = [(k, v)]"
| "dict_set ((k', v') # d) k v = (if k' = k then (k, v) # d else (k', v') # dict_set d k v)"

definition dict_update :: "('k \<times> 'v) list \<Rightarrow> ('k \<times> 'v) list \<Rightarrow> ('k \<times> 'v) list" where
  "dict_update d e = foldl (\<lambda>acc (k, v). dict_set acc k v) d e"

definition str_int :: "int \<Rightarrow> string" where
  "str_int n = (if n < 0 then CHR ''-'' # str_nat (nat (- n)) else str_nat (nat n))"

text \<open>
  \<open>int(s)\<close> on a string: optional surrounding white space and sign, then decimal digits
  (Python's digit-group underscores are not accepted here); \<open>None\<close> for the \<open>ValueError\<close>.
\<close>

definition digit_value :: "char \<Rightarrow> nat option" where
  "digit_value c = map_of (zip ''0123456789'' [0, 1, 2, 3, 4, 5, 6, 7, 8, 9]) c"

fun digits_value :: "nat \<Rightarrow> string \<Rightarrow> nat option" where
  "digits_value acc [] = Some acc"
| "digits_value acc (c # s) =
     (case digit_value c of None \<Rightarrow> None | Some d \<Rightarrow> digits_value (10 * acc + d) s)"

definition py_int :: "string \<Rightarrow> int option" where
  "py_int s =
     (let t = str_strip s in
      case t of [] \<Rightarrow> None
      | c # ds \<Rightarrow>
          if c = CHR ''-'' then (if ds = [] then None else map_option (\<lambda>n. - int n) (digits_value 0 ds))
          else if c = CHR ''+'' then (if ds = [] then None else map_option int (digits_value 0 ds))
          else map_option int (digits_value 0 t))"

fun json_str :: "json \<Rightarrow> string" where
  "json_str JNull = ''None''"
| "json_str (JBool b) = (if b then ''True'' else ''False'')"
| "json_str (JInt n) = str_int n"
| "json_str (JStr s) = s"
| "json_str (JArr _) = ''[...]''"
| "json_str (JObj _) = ''{...}''"

definition get_or :: "jobj \<Rightarrow> string \<Rightarrow> json \<Rightarrow> json" where
  "get_or d k v = (case jget d k of None \<Rightarrow> v | Some w \<Rightarrow> w)"

subsection \<open>Lemmas\<close>

lemma map_of_dict_set [simp]: "map_of (dict_set d k v) = (map_of d)(k \<mapsto> v)"
  by (induction d) (auto simp: fun_eq_iff)

lemma dict_set_new: "k \<notin> fst ` set d \<Longrightarrow> dict_set d k v = d @ [(k, v)]"
  by (induction d k v rule: dict_set.induct) auto

lemma keys_dict_set: "fst ` set (dict_set d k v) = insert k (fst ` set d)"
  by (induction d k v rule: dict_set.induct) (auto simp: insert_commute)

lemma distinct_keys_dict_set: "distinct (map fst d) \<Longrightarrow> distinct (map fst (dict_set d k v))"
proof (induction d)
  case Nil
  then show ?case by simp
next
  case (Cons e d)
  obtain k' v' where e: "e = (k', v')" by (cases e)
  from Cons have IH: "distinct (map fst (dict_set d k v))" and k': "k' \<notin> fst ` set d"
    by (simp_all add: e)
  show ?case
  proof (cases "k' = k")
    case True
    with Cons.prems show ?thesis by (simp add: e)
  next
    case False
    then have "k' \<notin> fst ` set (dict_set d k v)" using k' by (simp add: keys_dict_set)
    with IH False show ?thesis by (simp add: e)
  qed
qed

lemma dict_update_keys_distinct:
  "distinct (map fst d) \<Longrightarrow> distinct (map fst (dict_update d e))"
  unfolding dict_update_def
  by (induction e arbitrary: d) (auto simp: distinct_keys_dict_set)

lemma map_of_dict_update:
  "map_of (dict_update d e) k =
     (case map_of (rev e) k of None \<Rightarrow> map_of d k | Some v \<Rightarrow> Some v)"
  unfolding dict_update_def
  by (induction e arbitrary: d rule: rev_induct) auto

lemma digit_char_table: "list_all (\<lambda>d. digit_value (digit_char d) = Some d) [0..<10]"
  by code_simp

lemma digits_value_digit_char: "d < 10 \<Longrightarrow> digit_value (digit_char d) = Some d"
  using digit_char_table by (simp add: list_all_iff)

lemma digits_value_append:
  "digits_value acc (s @ t) = Option.bind (digits_value acc s) (\<lambda>a. digits_value a t)"
  by (induction s arbitrary: acc) (auto split: option.splits)

lemma digits_value_str_nat: "digits_value 0 (str_nat n) = Some n"
proof (induction n rule: str_nat.induct)
  case (1 n)
  show ?case
  proof (cases "n < 10")
    case True
    then show ?thesis by (simp add: str_nat.simps [of n] digits_value_digit_char)
  next
    case False
    with 1 show ?thesis
      by (simp add: str_nat.simps [of n] digits_value_append digits_value_digit_char)
  qed
qed

lemma digits_value_zeros: "digits_value 0 (replicate k (CHR ''0'') @ s) = digits_value 0 s"
  by (induction k) (simp_all add: digit_value_def)

text \<open>A zero-padded serial reads back as its number, so two serials never coincide.\<close>

lemma digits_value_zero_pad: "digits_value 0 (zero_pad w (str_nat n)) = Some n"
  by (simp add: zero_pad_def digits_value_zeros digits_value_str_nat)

lemma zero_pad_inj: "zero_pad w (str_nat a) = zero_pad w (str_nat b) \<Longrightarrow> a = b"
  by (metis digits_value_zero_pad option.inject)

definition digit_chars :: string where
  "digit_chars = ''0123456789''"

lemma set_str_nat: "set (str_nat n) \<subseteq> set digit_chars"
proof (induction n rule: str_nat.induct)
  case (1 n)
  have "digit_char d \<in> set digit_chars" if "d < 10" for d
    using that unfolding digit_char_def digit_chars_def by (intro nth_mem) simp
  with 1 show ?case by (auto simp: str_nat.simps [of n])
qed

lemma digit_plain: "c \<in> set digit_chars \<Longrightarrow> \<not> is_space c \<and> c \<noteq> CHR '','' \<and> c \<noteq> CHR ''-'' \<and> c \<noteq> CHR ''+''"
  by (auto simp: digit_chars_def is_space_def)

lemma py_int_str_nat: "py_int (str_nat n) = Some (int n)"
proof -
  have "str_strip (str_nat n) = str_nat n"
    using set_str_nat [of n] digit_plain by (intro str_strip_plain) blast
  moreover obtain c ds where c: "str_nat n = c # ds" by (cases "str_nat n") auto
  moreover have "c \<noteq> CHR ''-'' \<and> c \<noteq> CHR ''+''" using set_str_nat [of n] digit_plain c by auto
  ultimately show ?thesis using digits_value_str_nat [of n] by (simp add: py_int_def)
qed

lemma py_int_str_int: "py_int (str_int n) = Some n"
proof (cases "n < 0")
  case True
  let ?s = "CHR ''-'' # str_nat (nat (- n))"
  have "\<not> is_space c" if "c \<in> set ?s" for c
    using that set_str_nat [of "nat (- n)"] digit_plain by (auto simp: is_space_def)
  then have "str_strip ?s = ?s" by (rule str_strip_plain)
  with True digits_value_str_nat [of "nat (- n)"] show ?thesis by (simp add: py_int_def str_int_def)
next
  case False
  then show ?thesis by (simp add: str_int_def py_int_str_nat)
qed

lemma set_str_int: "set (str_int n) \<subseteq> insert (CHR ''-'') (set digit_chars)"
  using set_str_nat by (auto simp: str_int_def)

end
