(* ===== verification/Payment_Models.thy ===== *)
theory Payment_Models
  imports Core_Errors Json
begin

section \<open>Rows and tables of the payment service\<close>

text \<open>
  \<open>apps/payment/models.py\<close> and the enums of \<open>apps/payment/schemas.py\<close>: one record per
  table, one field per column the service reads or writes, and the database of the service
  as the record of its tables. \<open>created_at\<close> is kept (the queries order by it);
  \<open>updated_at\<close> is not (nothing reads it). An order carries its items, as the loaded
  relationship does.
\<close>

datatype PaymentStatus =
    PayPending | PayAuthorized | PayCaptured | PayFailed | PayRefunded | PayPartiallyRefunded
  | PayDisputed

datatype RefundStatus = RefPending | RefProcessing | RefSucceeded | RefFailed

datatype CouponType = Percent | Fixed

datatype SubscriptionStatus =
    SubPending | SubTrialing | SubActive | SubPastDue | SubCancelled | SubExpired

datatype AffiliateConversionStatus = ConvPending | ConvApproved | ConvPaid | ConvReversed

record order_item =
  oi_book_id :: uuid
  oi_title :: string
  oi_slug :: "string option"
  oi_quantity :: int
  oi_unit_price_minor :: money
  oi_line_total_minor :: money

record order =
  o_id :: uuid
  o_user_id :: uuid
  o_order_number :: string
  o_status :: OrderStatus
  o_subtotal_minor :: money
  o_discount_minor :: money
  o_tax_minor :: money
  o_total_minor :: money
  o_refunded_minor :: money
  o_currency :: string
  o_cgst_minor :: money
  o_sgst_minor :: money
  o_igst_minor :: money
  o_tax_percent :: int
  o_place_of_supply :: "string option"
  o_provider :: "PaymentProvider option"
  o_provider_order_id :: "string option"
  o_checkout_url :: "string option"
  o_coupon_id :: "uuid option"
  o_coupon_code :: "string option"
  o_affiliate_code :: "string option"
  o_idempotency_key :: "string option"
  o_billing_name :: "string option"
  o_billing_email :: "string option"
  o_billing_address :: jobj
  o_paid_at :: "timestamp option"
  o_cancelled_at :: "timestamp option"
  o_expires_at :: "timestamp option"
  o_failure_reason :: "string option"
  o_created_at :: timestamp
  o_items :: "order_item list"

record payment =
  p_id :: uuid
  p_order_id :: uuid
  p_user_id :: uuid
  p_provider :: PaymentProvider
  p_provider_payment_id :: string
  p_status :: PaymentStatus
  p_amount_minor :: money
  p_currency :: string
  p_method :: "string option"
  p_raw_payload :: jobj
  p_failure_code :: "string option"
  p_failure_message :: "string option"
  p_captured_at :: "timestamp option"
  p_created_at :: timestamp

record refund =
  r_id :: uuid
  r_order_id :: uuid
  r_payment_id :: "uuid option"
  r_provider :: PaymentProvider
  r_provider_refund_id :: "string option"
  r_amount_minor :: money
  r_currency :: string
  r_status :: RefundStatus
  r_reason :: "string option"
  r_actor_id :: "uuid option"
  r_processed_at :: "timestamp option"
  r_raw_payload :: jobj
  r_created_at :: timestamp

record coupon =
  c_id :: uuid
  c_code :: string
  c_description :: "string option"
  c_coupon_type :: CouponType
  c_value :: int
  c_max_discount_minor :: "money option"
  c_min_order_minor :: money
  c_currency :: "string option"
  c_usage_limit :: "int option"
  c_usage_count :: int
  c_per_user_limit :: int
  c_valid_from :: "timestamp option"
  c_valid_until :: "timestamp option"
  c_is_active :: bool
  c_applicable_book_ids :: "uuid list"
  c_applicable_category_ids :: "uuid list"
  c_created_at :: timestamp

record coupon_redemption =
  cr_id :: uuid
  cr_coupon_id :: uuid
  cr_order_id :: uuid
  cr_user_id :: uuid
  cr_discount_minor :: money

record subscription_plan =
  sp_id :: uuid
  sp_code :: string
  sp_name :: string
  sp_description :: "string option"
  sp_price_minor :: money
  sp_currency :: string
  sp_interval :: string
  sp_trial_days :: int
  sp_is_active :: bool
  sp_provider_plan_ids :: jobj

record subscription =
  s_id :: uuid
  s_user_id :: uuid
  s_plan_id :: uuid
  s_provider :: PaymentProvider
  s_provider_subscription_id :: "string option"
  s_status :: SubscriptionStatus
  s_current_period_start :: "timestamp option"
  s_current_period_end :: "timestamp option"
  s_cancel_at_period_end :: bool
  s_cancelled_at :: "timestamp option"
  s_trial_ends_at :: "timestamp option"
  s_created_at :: timestamp

record invoice =
  i_id :: uuid
  i_order_id :: uuid
  i_user_id :: uuid
  i_invoice_number :: string
  i_subtotal_minor :: money
  i_discount_minor :: money
  i_tax_minor :: money
  i_total_minor :: money
  i_currency :: string
  i_cgst_minor :: money
  i_sgst_minor :: money
  i_igst_minor :: money
  i_tax_percent :: int
  i_place_of_supply :: "string option"
  i_billing_snapshot :: jobj
  i_line_items :: "jobj list"
  i_issued_at :: timestamp

record affiliate_account =
  a_id :: uuid
  a_user_id :: uuid
  a_code :: string
  a_commission_bps :: int
  a_is_active :: bool
  a_total_earned_minor :: money
  a_total_paid_minor :: money

record affiliate_conversion =
  ac_id :: uuid
  ac_account_id :: uuid
  ac_order_id :: uuid
  ac_order_total_minor :: money
  ac_commission_minor :: money
  ac_currency :: string
  ac_status :: AffiliateConversionStatus
  ac_reversed_at :: "timestamp option"
  ac_created_at :: timestamp

record webhook_event =
  w_id :: uuid
  w_provider :: PaymentProvider
  w_event_id :: string
  w_event_type :: string
  w_signature_valid :: bool
  w_processed :: bool
  w_processed_at :: "timestamp option"
  w_error :: "string option"
  w_payload :: jobj
  w_created_at :: timestamp

text \<open>The database of the service.\<close>

record payment_db =
  orders :: "order list"
  payments :: "payment list"
  refunds :: "refund list"
  coupons :: "coupon list"
  redemptions :: "coupon_redemption list"
  plans :: "subscription_plan list"
  subscriptions :: "subscription list"
  invoices :: "invoice list"
  webhook_events :: "webhook_event list"
  affiliates :: "affiliate_account list"
  conversions :: "affiliate_conversion list"

definition empty_db :: payment_db where
  "empty_db = \<lparr>orders = [], payments = [], refunds = [], coupons = [], redemptions = [],
     plans = [], subscriptions = [], invoices = [], webhook_events = [], affiliates = [],
     conversions = []\<rparr>"

subsection \<open>Properties of the \<open>Order\<close> model\<close>

definition is_paid :: "order \<Rightarrow> bool" where
  "is_paid ord = (o_status ord \<in> {Paid, PartiallyRefunded})"

definition refundable_minor :: "order \<Rightarrow> money" where
  "refundable_minor ord = max 0 (o_total_minor ord - o_refunded_minor ord)"

subsection \<open>Constraints the tables declare\<close>

text \<open>The \<open>CHECK\<close> constraints of \<open>orders\<close>.\<close>

definition order_checks :: "order \<Rightarrow> bool" where
  "order_checks ord \<longleftrightarrow>
     0 \<le> o_subtotal_minor ord \<and> 0 \<le> o_discount_minor ord \<and> 0 \<le> o_tax_minor ord \<and>
     0 \<le> o_total_minor ord \<and> 0 \<le> o_refunded_minor ord \<and> o_refunded_minor ord \<le> o_total_minor ord"

text \<open>The unique constraints: two rows that may not stand in one table.\<close>

definition order_clash :: "order \<Rightarrow> order \<Rightarrow> bool" where
  "order_clash a b \<longleftrightarrow>
     o_order_number a = o_order_number b \<or>
     (o_idempotency_key a \<noteq> None \<and> o_idempotency_key a = o_idempotency_key b)"

definition payment_clash :: "payment \<Rightarrow> payment \<Rightarrow> bool" where
  "payment_clash a b \<longleftrightarrow>
     p_provider a = p_provider b \<and> p_provider_payment_id a = p_provider_payment_id b"

definition redemption_clash :: "coupon_redemption \<Rightarrow> coupon_redemption \<Rightarrow> bool" where
  "redemption_clash a b \<longleftrightarrow> cr_coupon_id a = cr_coupon_id b \<and> cr_order_id a = cr_order_id b"

definition invoice_clash :: "invoice \<Rightarrow> invoice \<Rightarrow> bool" where
  "invoice_clash a b \<longleftrightarrow> i_invoice_number a = i_invoice_number b"

definition webhook_clash :: "webhook_event \<Rightarrow> webhook_event \<Rightarrow> bool" where
  "webhook_clash a b \<longleftrightarrow> w_provider a = w_provider b \<and> w_event_id a = w_event_id b"

definition conversion_clash :: "affiliate_conversion \<Rightarrow> affiliate_conversion \<Rightarrow> bool" where
  "conversion_clash a b \<longleftrightarrow> ac_order_id a = ac_order_id b"

subsection \<open>The uniquely keyed tables\<close>

interpretation payments_tbl: keyed_table
  "\<lambda>p. (p_provider p, p_provider_payment_id p)" "\<lambda>_. True" payment_clash
  by unfold_locales (simp add: payment_clash_def)

interpretation redemptions_tbl: keyed_table
  "\<lambda>r. (cr_coupon_id r, cr_order_id r)" "\<lambda>_. True" redemption_clash
  by unfold_locales (simp add: redemption_clash_def)

interpretation invoices_tbl: keyed_table i_invoice_number "\<lambda>_. True" invoice_clash
  by unfold_locales (simp add: invoice_clash_def)

interpretation webhooks_tbl: keyed_table
  "\<lambda>w. (w_provider w, w_event_id w)" "\<lambda>_. True" webhook_clash
  by unfold_locales (simp add: webhook_clash_def)

interpretation conversions_tbl: keyed_table ac_order_id "\<lambda>_. True" conversion_clash
  by unfold_locales (simp add: conversion_clash_def)

end
