(* ===== verification/Payment_Settings.thy ===== *)
theory Payment_Settings
  imports Payment_Models
begin

section \<open>Configuration of the payment service\<close>

text \<open>
  \<open>apps/payment/settings.py\<close>: the fields the modelled code reads, their defaults, and the
  computed properties that decide which gateways are configured. A deployment may set any
  field, so the operations take the settings as an argument.
\<close>

record settings =
  default_currency :: string
  gst_percent :: int
  seller_state_code :: string
  prices_include_tax :: bool
  invoice_prefix :: string
  seller_legal_name :: string
  seller_gstin :: "string option"
  razorpay_key_id :: "string option"
  razorpay_key_secret :: "string option"
  razorpay_webhook_secret :: "string option"
  stripe_secret_key :: "string option"
  stripe_publishable_key :: "string option"
  stripe_webhook_secret :: "string option"
  stripe_signature_tolerance :: int
  order_ttl_seconds :: int
  max_order_items :: nat
  affiliate_commission_bps :: int
  affiliate_hold_days :: int
  allowed_return_origins :: "string list"
  frontend_url :: string
  max_webhook_body_bytes :: nat

definition default_settings :: settings where
  "default_settings = \<lparr>default_currency = ''INR'', gst_percent = 18, seller_state_code = ''GJ'',
     prices_include_tax = True, invoice_prefix = ''KOS'', seller_legal_name = ''KnowledgeOS'',
     seller_gstin = None, razorpay_key_id = None, razorpay_key_secret = None,
     razorpay_webhook_secret = None, stripe_secret_key = None, stripe_publishable_key = None,
     stripe_webhook_secret = None, stripe_signature_tolerance = 300, order_ttl_seconds = 3600,
     max_order_items = 50, affiliate_commission_bps = 500, affiliate_hold_days = 14,
     allowed_return_origins = [''http://localhost:3000''],
     frontend_url = ''http://localhost:3000'', max_webhook_body_bytes = 1048576\<rparr>"

definition razorpay_enabled :: "settings \<Rightarrow> bool" where
  "razorpay_enabled st \<longleftrightarrow> truthy (razorpay_key_id st) \<and> truthy (razorpay_key_secret st)"

definition stripe_enabled :: "settings \<Rightarrow> bool" where
  "stripe_enabled st \<longleftrightarrow> truthy (stripe_secret_key st)"

definition enabled_providers :: "settings \<Rightarrow> string list" where
  "enabled_providers st =
     (if razorpay_enabled st then [''razorpay''] else []) @
     (if stripe_enabled st then [''stripe''] else [])"

definition default_provider :: "settings \<Rightarrow> string option" where
  "default_provider st = (case enabled_providers st of [] \<Rightarrow> None | p # _ \<Rightarrow> Some p)"

definition microseconds :: "int \<Rightarrow> int" where
  "microseconds seconds = seconds * 1000000"

end
