(* ===== verification/Tax.thy ===== *)
theory Tax
  imports Payment_Settings
begin

section \<open>GST computation\<close>

text \<open>
  \<open>apps/payment/services/tax.py\<close>: \<open>_split\<close> and \<open>compute_tax\<close>. Python's \<open>//\<close> rounds
  towards minus infinity, as \<open>div\<close> does here. The lemmas show that base and tax always
  reconcile with the gross amount, that the split into CGST, SGST and IGST is exact and
  decided by the place of supply alone, and that the extracted base is the correctly
  rounded quotient.
\<close>

definition INDIA :: string where
  "INDIA = ''IN''"

record TaxResult =
  tr_percent :: int
  tr_taxable_minor :: money
  tr_cgst_minor :: money
  tr_sgst_minor :: money
  tr_igst_minor :: money
  tr_total_minor :: money
  tr_place_of_supply :: "string option"
  tr_intra_state :: bool

definition gross_minor :: "TaxResult \<Rightarrow> money" where
  "gross_minor t = tr_taxable_minor t + tr_total_minor t"

definition split_tax :: "money \<Rightarrow> bool \<Rightarrow> money \<times> money \<times> money" where
  "split_tax tax_minor intra_state =
     (if \<not> intra_state then (0, 0, tax_minor)
      else let cgst = tax_minor div 2 in (cgst, tax_minor - cgst, 0))"

definition compute_tax ::
  "money \<Rightarrow> int \<Rightarrow> string \<Rightarrow> string option \<Rightarrow> string option \<Rightarrow> bool \<Rightarrow> TaxResult" where
  "compute_tax amount_minor percent seller_state place_of_supply country inclusive =
     (if amount_minor \<le> 0 \<or> percent \<le> 0 \<or> str_upper (or_str country INDIA) \<noteq> INDIA
      then \<lparr>tr_percent = 0, tr_taxable_minor = max 0 amount_minor, tr_cgst_minor = 0,
            tr_sgst_minor = 0, tr_igst_minor = 0, tr_total_minor = 0,
            tr_place_of_supply = place_of_supply, tr_intra_state = False\<rparr>
      else
        let supply_state = str_upper (or_str place_of_supply seller_state);
            intra_state = (supply_state = str_upper seller_state);
            (taxable, tax) =
              (if inclusive
               then let taxable = (amount_minor * 100 + (100 + percent) div 2) div (100 + percent)
                    in (taxable, amount_minor - taxable)
               else (amount_minor, (amount_minor * percent + 50) div 100));
            (cgst, sgst, igst) = split_tax tax intra_state
        in \<lparr>tr_percent = percent, tr_taxable_minor = taxable, tr_cgst_minor = cgst,
            tr_sgst_minor = sgst, tr_igst_minor = igst, tr_total_minor = tax,
            tr_place_of_supply = Some supply_state, tr_intra_state = intra_state\<rparr>)"

subsection \<open>Arithmetic of rounding\<close>

text \<open>Half-up division by a positive number lands within half a divisor of the quotient.\<close>

lemma half_up_div_bounds:
  fixes a b :: int
  assumes "0 < b"
  shows "2 * (b * ((a + b div 2) div b)) \<le> 2 * a + b"
    and "2 * a - b < 2 * (b * ((a + b div 2) div b)) + 1"
proof -
  let ?q = "(a + b div 2) div b" and ?m = "(a + b div 2) mod b"
  have eq: "b * ?q + ?m = a + b div 2" by (rule mult_div_mod_eq)
  have m: "0 \<le> ?m" "?m < b" using assms by simp_all
  have half: "2 * (b div 2) \<le> b" "b - 1 \<le> 2 * (b div 2)" by linarith+
  show "2 * (b * ?q) \<le> 2 * a + b" using eq m half by linarith
  show "2 * a - b < 2 * (b * ?q) + 1" using eq m half by linarith
qed

lemma hundredth_ties_up: "2 * x + 100 < 2 * (100 * ((x + 50) div 100 + 1))" for x :: int
  by presburger

lemma inclusive_base_bounds:
  fixes a p :: int
  assumes "0 < a" and "0 < p"
  shows "0 \<le> (a * 100 + (100 + p) div 2) div (100 + p)"
    and "(a * 100 + (100 + p) div 2) div (100 + p) \<le> a"
proof -
  have "0 \<le> a * 100 + (100 + p) div 2" using assms by linarith
  then show "0 \<le> (a * 100 + (100 + p) div 2) div (100 + p)"
    using assms by (simp add: pos_imp_zdiv_nonneg_iff)
  let ?q = "(a * 100 + (100 + p) div 2) div (100 + p)"
  have "0 \<le> a * p" using assms by simp
  moreover have "2 * ((100 + p) * ?q) \<le> 2 * (a * 100) + (100 + p)"
    using half_up_div_bounds(1) [of "100 + p" "a * 100"] assms by simp
  moreover have "2 * ((100 + p) * (a + 1)) = 200 * a + 2 * (a * p) + 200 + 2 * p"
    by (simp add: algebra_simps)
  ultimately have "2 * ((100 + p) * ?q) < 2 * ((100 + p) * (a + 1))"
    using assms by linarith
  then have "?q < a + 1" using assms by (simp add: mult_less_cancel_left)
  then show "?q \<le> a" by simp
qed

subsection \<open>The split\<close>

lemma split_tax_sum: "split_tax t b = (c, s, i) \<Longrightarrow> c + s + i = t"
  by (auto simp: split_tax_def Let_def split: if_splits)

lemma split_tax_nonneg: "split_tax t b = (c, s, i) \<Longrightarrow> 0 \<le> t \<Longrightarrow> 0 \<le> c \<and> 0 \<le> s \<and> 0 \<le> i"
proof -
  assume "split_tax t b = (c, s, i)" and "0 \<le> t"
  moreover have "0 \<le> t \<Longrightarrow> 0 \<le> t div 2 \<and> t div 2 \<le> t" by linarith
  ultimately show ?thesis by (auto simp: split_tax_def Let_def split: if_splits)
qed

lemma split_tax_shape:
  "split_tax t b = (c, s, i) \<Longrightarrow>
     (if b then i = 0 \<and> c \<le> s \<and> s \<le> c + 1 else c = 0 \<and> s = 0 \<and> i = t)"
  by (auto simp: split_tax_def Let_def split: if_splits)

subsection \<open>Facts about \<open>compute_tax\<close>\<close>

lemma compute_tax_exempt:
  "amount \<le> 0 \<or> percent \<le> 0 \<or> str_upper (or_str country INDIA) \<noteq> INDIA \<Longrightarrow>
   compute_tax amount percent seller pos country inclusive =
     \<lparr>tr_percent = 0, tr_taxable_minor = max 0 amount, tr_cgst_minor = 0, tr_sgst_minor = 0,
      tr_igst_minor = 0, tr_total_minor = 0, tr_place_of_supply = pos, tr_intra_state = False\<rparr>"
  unfolding compute_tax_def by (rule if_P)

definition base_of :: "money \<Rightarrow> int \<Rightarrow> bool \<Rightarrow> money" where
  "base_of amount percent inclusive =
     (if inclusive then (amount * 100 + (100 + percent) div 2) div (100 + percent) else amount)"

definition tax_of :: "money \<Rightarrow> int \<Rightarrow> bool \<Rightarrow> money" where
  "tax_of amount percent inclusive =
     (if inclusive then amount - base_of amount percent True else (amount * percent + 50) div 100)"

lemma compute_tax_taxed:
  assumes "0 < amount" and "0 < percent" and "str_upper (or_str country INDIA) = INDIA"
  shows "compute_tax amount percent seller pos country inclusive =
    (let intra = (str_upper (or_str pos seller) = str_upper seller);
         tax = tax_of amount percent inclusive
     in \<lparr>tr_percent = percent, tr_taxable_minor = base_of amount percent inclusive,
         tr_cgst_minor = fst (split_tax tax intra), tr_sgst_minor = fst (snd (split_tax tax intra)),
         tr_igst_minor = snd (snd (split_tax tax intra)), tr_total_minor = tax,
         tr_place_of_supply = Some (str_upper (or_str pos seller)), tr_intra_state = intra\<rparr>)"
  using assms unfolding compute_tax_def
  by (simp add: Let_def split_beta base_of_def tax_of_def)

lemma compute_tax_cases [case_names exempt taxed]:
  obtains
    (exempt) "compute_tax amount percent seller pos country inclusive =
       \<lparr>tr_percent = 0, tr_taxable_minor = max 0 amount, tr_cgst_minor = 0, tr_sgst_minor = 0,
        tr_igst_minor = 0, tr_total_minor = 0, tr_place_of_supply = pos, tr_intra_state = False\<rparr>"
  | (taxed) "0 < amount" and "0 < percent"
      and "str_upper (or_str country INDIA) = INDIA"
  by (meson compute_tax_exempt linorder_not_le)

lemma tax_of_nonneg: "0 < a \<Longrightarrow> 0 < p \<Longrightarrow> 0 \<le> tax_of a p inc"
  using inclusive_base_bounds [of a p]
  by (simp add: tax_of_def base_of_def pos_imp_zdiv_nonneg_iff)

lemma base_of_nonneg: "0 < a \<Longrightarrow> 0 < p \<Longrightarrow> 0 \<le> base_of a p inc"
  using inclusive_base_bounds [of a p] by (simp add: base_of_def)

lemma compute_tax_gross:
  "gross_minor (compute_tax a p s pos c inc) =
     max 0 a + (if inc then 0 else tr_total_minor (compute_tax a p s pos c inc))"
  by (cases inc; rule compute_tax_cases [of a p s pos c inc])
    (simp_all add: gross_minor_def compute_tax_taxed Let_def tax_of_def base_of_def)

lemma compute_tax_nonneg:
  "0 \<le> tr_total_minor (compute_tax a p s pos c inc)"
  "0 \<le> tr_taxable_minor (compute_tax a p s pos c inc)"
  by (rule compute_tax_cases [of a p s pos c inc];
      simp add: compute_tax_taxed Let_def tax_of_nonneg base_of_nonneg)+

lemma compute_tax_inclusive_le:
  "tr_total_minor (compute_tax a p s pos c True) \<le> max 0 a"
  by (rule compute_tax_cases [of a p s pos c True])
    (simp_all add: compute_tax_taxed Let_def tax_of_def base_of_nonneg)

lemma compute_tax_exclusive_taxable:
  "tr_taxable_minor (compute_tax a p s pos c False) = max 0 a"
  by (rule compute_tax_cases [of a p s pos c False])
    (simp_all add: compute_tax_taxed Let_def base_of_def)

lemma compute_tax_split:
  "\<exists>b. split_tax (tr_total_minor (compute_tax a p s pos c inc)) b =
     (tr_cgst_minor (compute_tax a p s pos c inc), tr_sgst_minor (compute_tax a p s pos c inc),
      tr_igst_minor (compute_tax a p s pos c inc))"
  by (rule compute_tax_cases [of a p s pos c inc])
    (auto simp: compute_tax_taxed Let_def split_tax_def)

lemma compute_tax_components:
  "tr_cgst_minor (compute_tax a p s pos c inc) + tr_sgst_minor (compute_tax a p s pos c inc)
     + tr_igst_minor (compute_tax a p s pos c inc) = tr_total_minor (compute_tax a p s pos c inc)"
  "0 \<le> tr_cgst_minor (compute_tax a p s pos c inc)"
  "0 \<le> tr_sgst_minor (compute_tax a p s pos c inc)"
  "0 \<le> tr_igst_minor (compute_tax a p s pos c inc)"
  using compute_tax_split [of a p s pos c inc] split_tax_sum split_tax_nonneg compute_tax_nonneg(1)
  by blast+

subsection \<open>Properties\<close>

text \<open>
  the reconciliation invariant the module promises. Whatever the amount, rate, buyer
  location and direction, base plus tax is the gross amount (the amount itself when prices
  are inclusive, the amount plus the tax when they are not), the three components of the
  split add up to the tax exactly, none of them is negative, and an inclusive price never
  yields more tax than it contains.
\<close>

lemma tax_reconciles:
  "let t = compute_tax amount percent seller pos country inclusive in
     gross_minor t = max 0 amount + (if inclusive then 0 else tr_total_minor t)
     \<and> tr_cgst_minor t + tr_sgst_minor t + tr_igst_minor t = tr_total_minor t
     \<and> 0 \<le> tr_cgst_minor t \<and> 0 \<le> tr_sgst_minor t \<and> 0 \<le> tr_igst_minor t
     \<and> 0 \<le> tr_taxable_minor t
     \<and> tr_total_minor t \<le> (if inclusive then max 0 amount else tr_total_minor t)"
  unfolding Let_def
  using compute_tax_gross compute_tax_components compute_tax_nonneg compute_tax_inclusive_le
  by (cases inclusive) auto

text \<open>
  which government is paid is decided by the place of supply alone, and the amount is
  not. For a taxable domestic sale the total tax and the taxable base are the same for
  every place of supply; a sale within the seller's state (or with an unknown place of
  supply) has no IGST and halves that differ by at most one paisa with the odd one on SGST;
  any other sale is IGST only.
\<close>

lemma tax_split_by_place_of_supply:
  assumes "0 < amount" and "0 < percent" and "str_upper (or_str country INDIA) = INDIA"
  shows "let t = compute_tax amount percent seller pos country inclusive;
             u = compute_tax amount percent seller None country inclusive
         in tr_total_minor t = tr_total_minor u \<and> tr_taxable_minor t = tr_taxable_minor u \<and>
            (if str_upper (or_str pos seller) = str_upper seller
             then tr_igst_minor t = 0 \<and> tr_cgst_minor t \<le> tr_sgst_minor t
                  \<and> tr_sgst_minor t \<le> tr_cgst_minor t + 1
             else tr_cgst_minor t = 0 \<and> tr_sgst_minor t = 0
                  \<and> tr_igst_minor t = tr_total_minor t)"
  using assms by (auto simp: compute_tax_taxed split_tax_def Let_def)

text \<open>
  rounding is half-up and happens once. The base extracted from an inclusive price is
  an integer within half a unit of \<open>amount * 100 / (100 + percent)\<close>, and the tax added to
  an exclusive price is within half a unit of \<open>amount * percent / 100\<close>, ties going up in
  both (multiplied out, so that the bounds are exact in integers).
\<close>

lemma tax_rounds_half_up:
  assumes "0 < amount" and "0 < percent" and "str_upper (or_str country INDIA) = INDIA"
  shows "let base = tr_taxable_minor (compute_tax amount percent seller pos country True);
             tax = tr_total_minor (compute_tax amount percent seller pos country False)
         in \<bar>2 * ((100 + percent) * base - amount * 100)\<bar> \<le> 100 + percent
            \<and> \<bar>2 * (100 * tax - amount * percent)\<bar> \<le> 100
            \<and> 2 * (amount * percent) + 100 < 2 * (100 * (tax + 1))"
proof -
  have inc: "tr_taxable_minor (compute_tax amount percent seller pos country True)
      = (amount * 100 + (100 + percent) div 2) div (100 + percent)"
    using assms by (simp add: compute_tax_taxed Let_def base_of_def)
  have exc: "tr_total_minor (compute_tax amount percent seller pos country False)
      = (amount * percent + 50) div 100"
    using assms by (simp add: compute_tax_taxed Let_def tax_of_def)
  have "\<bar>2 * ((100 + percent) * ((amount * 100 + (100 + percent) div 2) div (100 + percent))
            - amount * 100)\<bar> \<le> 100 + percent"
    using half_up_div_bounds [of "100 + percent" "amount * 100"] assms
    by (simp add: abs_le_iff algebra_simps)
  moreover have "\<bar>2 * (100 * ((amount * percent + 50) div 100) - amount * percent)\<bar> \<le> 100"
    using half_up_div_bounds [of 100 "amount * percent"] by simp
  moreover have "2 * (amount * percent) + 100
      < 2 * (100 * ((amount * percent + 50) div 100 + 1))"
    by (rule hundredth_ties_up)
  ultimately show ?thesis unfolding inc exc Let_def by blast
qed

end
