(* ===== verification/Uuid.thy ===== *)
theory Uuid
  imports Json
begin

section \<open>UUIDs as text\<close>

text \<open>
  The services exchange identifiers as text: \<open>str(uuid)\<close> writes 32 lower-case hexadecimal
  digits in groups of 8-4-4-4-12, and \<open>uuid.UUID(text)\<close> reads them back after dropping
  hyphens, braces and the \<open>urn:\<close> and \<open>uuid:\<close> prefixes (Python's standard library).
  A UUID is a number below \<open>2 ^ 128\<close>. The round trip is what lets a row created by one
  service be found again by another.
\<close>

definition hex_char :: "nat \<Rightarrow> char" where
  "hex_char d = ''0123456789abcdef'' ! d"

fun hex_digits :: "nat \<Rightarrow> nat \<Rightarrow> string" where
  "hex_digits 0 n = []"
| "hex_digits (Suc w) n = hex_digits w (n div 16) @ [hex_char (n mod 16)]"

definition str_uuid :: "uuid \<Rightarrow> string" where
  "str_uuid u =
     (let h = hex_digits 32 u in
      take 8 h @ ''-'' @ take 4 (drop 8 h) @ ''-'' @ take 4 (drop 12 h) @ ''-''
      @ take 4 (drop 16 h) @ ''-'' @ drop 20 h)"

definition hex_value :: "char \<Rightarrow> nat option" where
  "hex_value c =
     map_of (zip ''0123456789abcdefABCDEF''
       [0, 1, 2, 3, 4, 5, 6, 7, 8, 9, 10, 11, 12, 13, 14, 15, 10, 11, 12, 13, 14, 15]) c"

fun hex_number :: "nat \<Rightarrow> string \<Rightarrow> nat option" where
  "hex_number acc [] = Some acc"
| "hex_number acc (c # s) =
     (case hex_value c of None \<Rightarrow> None | Some d \<Rightarrow> hex_number (16 * acc + d) s)"

text \<open>\<open>s.replace(p, "")\<close> for a non-empty \<open>p\<close>, scanning from the left.\<close>

function str_remove :: "string \<Rightarrow> string \<Rightarrow> string" where
  "str_remove p s =
     (case s of [] \<Rightarrow> []
      | c # t \<Rightarrow> if p \<noteq> [] \<and> str_startswith s p then str_remove p (drop (length p) s)
                else c # str_remove p t)"
  by pat_completeness auto
termination
  by (relation "measure (\<lambda>(p, s). length s)") auto

declare str_remove.simps [simp del]

definition strip_braces :: "string \<Rightarrow> string" where
  "strip_braces s =
     (let f = dropWhile (\<lambda>c. c = CHR 0x7B \<or> c = CHR 0x7D) in rev (f (rev (f s))))"

definition parse_uuid :: "string \<Rightarrow> uuid option" where
  "parse_uuid s =
     (let t = str_remove ''uuid:'' (str_remove ''urn:'' s);
          h = filter (\<lambda>c. c \<noteq> CHR ''-'') (strip_braces t)
      in if length h = 32 then hex_number 0 h else None)"

definition valid_uuid :: "uuid \<Rightarrow> bool" where
  "valid_uuid u \<longleftrightarrow> u < 2 ^ 128"

subsection \<open>Reading back the digits\<close>

definition hex_alphabet :: string where
  "hex_alphabet = ''0123456789abcdef''"

lemma length_hex_digits [simp]: "length (hex_digits w n) = w"
  by (induction w arbitrary: n) auto

lemma hex_char_table:
  "list_all (\<lambda>d. hex_value (hex_char d) = Some d \<and> hex_char d \<in> set hex_alphabet) [0..<16]"
  by code_simp

lemma hex_char_props:
  "d < 16 \<Longrightarrow> hex_value (hex_char d) = Some d \<and> hex_char d \<in> set hex_alphabet"
  using hex_char_table by (simp add: list_all_iff)

lemma set_hex_digits: "set (hex_digits w n) \<subseteq> set hex_alphabet"
  by (induction w arbitrary: n) (auto simp: hex_char_props)

lemma hex_number_append:
  "hex_number acc (s @ t) = Option.bind (hex_number acc s) (\<lambda>a. hex_number a t)"
  by (induction s arbitrary: acc) (auto split: option.splits)

lemma hex_number_hex_digits:
  "n < 16 ^ w \<Longrightarrow> hex_number acc (hex_digits w n) = Some (acc * 16 ^ w + n)"
proof (induction w arbitrary: n)
  case 0
  then show ?case by simp
next
  case (Suc w)
  then have "n div 16 < 16 ^ w" by (simp add: less_mult_imp_div_less mult.commute)
  with Suc.IH have "hex_number acc (hex_digits w (n div 16)) = Some (acc * 16 ^ w + n div 16)" .
  then show ?case by (simp add: hex_number_append hex_char_props algebra_simps)
qed

subsection \<open>Nothing of the prefix stripping applies to \<open>str(uuid)\<close>\<close>

definition uuid_alphabet :: string where
  "uuid_alphabet = hex_alphabet @ ''-''"

lemma set_str_uuid: "set (str_uuid u) \<subseteq> set uuid_alphabet"
proof -
  have "set (hex_digits 32 u) \<subseteq> set hex_alphabet" by (rule set_hex_digits)
  then show ?thesis
    unfolding str_uuid_def uuid_alphabet_def Let_def
    by (auto dest: in_set_takeD in_set_dropD)
qed

lemma str_remove_absent:
  assumes "c \<in> set p" and "c \<notin> set s"
  shows "str_remove p s = s"
  using assms
proof (induction s)
  case Nil
  then show ?case by (simp add: str_remove.simps)
next
  case (Cons x s)
  have "\<not> str_startswith (x # s) p"
    using Cons.prems unfolding str_startswith_def by (metis in_set_takeD)
  with Cons show ?case by (simp add: str_remove.simps [of p "x # s"])
qed

lemma strip_braces_absent:
  assumes "CHR 0x7B \<notin> set s" and "CHR 0x7D \<notin> set s"
  shows "strip_braces s = s"
proof -
  have "dropWhile (\<lambda>c. c = CHR 0x7B \<or> c = CHR 0x7D) t = t" if "set t = set s" for t
    using assms that by (intro dropWhile_absent) auto
  from this [of s] this [of "rev s"] show ?thesis by (simp add: strip_braces_def Let_def)
qed

lemma str_uuid_no_hyphens: "filter (\<lambda>c. c \<noteq> CHR ''-'') (str_uuid u) = hex_digits 32 u"
proof -
  let ?h = "hex_digits 32 u"
  have keep: "filter (\<lambda>c. c \<noteq> CHR ''-'') t = t" if "set t \<subseteq> set ?h" for t
    using that set_hex_digits [of 32 u] by (auto simp: filter_id_conv hex_alphabet_def)
  have "take 8 ?h @ take 4 (drop 8 ?h) @ take 4 (drop 12 ?h) @ take 4 (drop 16 ?h) @ drop 20 ?h
      = ?h"
  proof -
    have "take 4 (drop k ?h) @ drop (k + 4) ?h = drop k ?h" for k
      by (metis add.commute append_take_drop_id drop_drop)
    from this [of 16] this [of 12] this [of 8] show ?thesis by simp
  qed
  moreover have "set (take k (drop j ?h)) \<subseteq> set ?h" "set (drop k ?h) \<subseteq> set ?h"
    "set (take k ?h) \<subseteq> set ?h" for k j
    by (auto dest: in_set_takeD in_set_dropD)
  ultimately show ?thesis unfolding str_uuid_def Let_def by (simp add: keep)
qed

lemma parse_str_uuid:
  assumes "valid_uuid u"
  shows "parse_uuid (str_uuid u) = Some u"
proof -
  have "c \<notin> set (str_uuid u)" if "c \<notin> set uuid_alphabet" for c
    using that set_str_uuid by blast
  moreover have "CHR ''r'' \<notin> set uuid_alphabet" and "CHR ''i'' \<notin> set uuid_alphabet"
    and "CHR 0x7B \<notin> set uuid_alphabet" and "CHR 0x7D \<notin> set uuid_alphabet"
    by (simp_all add: uuid_alphabet_def hex_alphabet_def)
  ultimately have "str_remove ''urn:'' (str_uuid u) = str_uuid u"
    and "str_remove ''uuid:'' (str_uuid u) = str_uuid u"
    and "strip_braces (str_uuid u) = str_uuid u"
    by (simp_all add: str_remove_absent [where c = "CHR ''r''"]
        str_remove_absent [where c = "CHR ''i''"] strip_braces_absent)
  moreover have "(16::nat) ^ 32 = 2 ^ 128" by simp
  ultimately show ?thesis
    using assms hex_number_hex_digits [of u 32 0]
    by (simp add: parse_uuid_def str_uuid_no_hyphens valid_uuid_def)
qed

lemma str_uuid_inj: "valid_uuid a \<Longrightarrow> valid_uuid b \<Longrightarrow> str_uuid a = str_uuid b \<Longrightarrow> a = b"
  by (metis option.inject parse_str_uuid)

lemma str_uuid_neq_Nil [simp]: "str_uuid u \<noteq> []"
  by (simp add: str_uuid_def Let_def)

end
