(* ===== verification/Catalogue.thy ===== *)
theory Catalogue
  imports Payment_Settings Uuid
begin

section \<open>Reading the catalogue from the payment service\<close>

text \<open>
  \<open>apps/payment/services/catalogue.py\<close>: the slice of a book pricing uses, its JSON form,
  the short-lived price cache and the calls to the books service. Redis and the books
  service are parameters (\<open>catalogue_env\<close>): functions from the request to an exception or
  a reply. A cached value is absent, undecodable (\<open>Some (Inl e)\<close>, the exception of
  \<open>orjson.loads\<close>) or a JSON document. \<open>fetch\<close> returns the resolved books together with
  the cache entries it writes. \<open>str\<close> of a JSON array or object is one fixed text: no
  code path accepts either as an identifier, a status or a currency.
\<close>

record CatalogueBook =
  cb_id :: uuid
  cb_slug :: string
  cb_title :: string
  cb_price_minor :: money
  cb_currency :: string
  cb_status :: string
  cb_category_ids :: "uuid list"

definition is_purchasable :: "CatalogueBook \<Rightarrow> bool" where
  "is_purchasable b = (cb_status b = ''published'')"

subsection \<open>JSON conversions\<close>

fun json_int :: "json \<Rightarrow> int result" where
  "json_int (JInt n) = Inr n"
| "json_int (JBool b) = Inr (if b then 1 else 0)"
| "json_int (JStr s) = (case py_int s of None \<Rightarrow> Inl (PyExn ''ValueError'') | Some n \<Rightarrow> Inr n)"
| "json_int _ = Inl (PyExn ''TypeError'')"

definition json_uuid :: "json \<Rightarrow> uuid result" where
  "json_uuid v =
     (case parse_uuid (json_str v) of None \<Rightarrow> Inl (PyExn ''ValueError'') | Some u \<Rightarrow> Inr u)"

fun parse_categories :: "json list \<Rightarrow> uuid list result" where
  "parse_categories [] = Inr []"
| "parse_categories (JObj d # cs) =
     (if jtruthy (jget_null d ''id'')
      then (case json_uuid (jget_null d ''id'') of Inl e \<Rightarrow> Inl e
            | Inr u \<Rightarrow> (case parse_categories cs of Inl e \<Rightarrow> Inl e | Inr us \<Rightarrow> Inr (u # us)))
      else parse_categories cs)"
| "parse_categories (_ # cs) = Inl (PyExn ''AttributeError'')"

definition parse_book :: "jobj \<Rightarrow> CatalogueBook result" where
  "parse_book item =
     (let price = (if jget_null item ''effective_price_minor'' = JNull
                   then get_or item ''price_minor'' (JInt 0)
                   else jget_null item ''effective_price_minor'')
      in case jget item ''id'' of None \<Rightarrow> Inl (PyExn ''KeyError'')
         | Some idv \<Rightarrow>
             (case json_uuid idv of Inl e \<Rightarrow> Inl e
              | Inr u \<Rightarrow>
                  (case json_int price of Inl e \<Rightarrow> Inl e
                   | Inr p \<Rightarrow>
                       (case get_or item ''categories'' (JArr []) of
                          JArr cs \<Rightarrow>
                            (case parse_categories cs of Inl e \<Rightarrow> Inl e
                             | Inr us \<Rightarrow>
                                 Inr \<lparr>cb_id = u, cb_slug = json_str (get_or item ''slug'' (JStr '''')),
                                      cb_title = json_str (get_or item ''title'' (JStr '''')),
                                      cb_price_minor = p,
                                      cb_currency = json_str (get_or item ''currency'' (JStr ''INR'')),
                                      cb_status = json_str (get_or item ''status'' (JStr '''')),
                                      cb_category_ids = us\<rparr>)
                        | _ \<Rightarrow> Inl (PyExn ''TypeError'')))))"

fun parse_books :: "json list \<Rightarrow> CatalogueBook list result" where
  "parse_books [] = Inr []"
| "parse_books (JObj d # is) =
     (case parse_book d of Inl e \<Rightarrow> Inl e
      | Inr b \<Rightarrow> (case parse_books is of Inl e \<Rightarrow> Inl e | Inr bs \<Rightarrow> Inr (b # bs)))"
| "parse_books (_ # is) = Inl (PyExn ''AttributeError'')"

subsection \<open>The price cache\<close>

definition PRICE_CACHE_TTL :: nat where
  "PRICE_CACHE_TTL = 30"

record catalogue_env =
  redis_mget :: "(string list \<Rightarrow> (exn + json) option list result) option"
  books_service :: "(string \<Rightarrow> jobj \<Rightarrow> json result) option"

definition cache_key :: "uuid \<Rightarrow> string" where
  "cache_key b = ''kos:payment:book:'' @ str_uuid b"

definition book_blob :: "CatalogueBook \<Rightarrow> jobj" where
  "book_blob b =
     [(''id'', JStr (str_uuid (cb_id b))), (''slug'', JStr (cb_slug b)),
      (''title'', JStr (cb_title b)), (''price_minor'', JInt (cb_price_minor b)),
      (''effective_price_minor'', JInt (cb_price_minor b)), (''currency'', JStr (cb_currency b)),
      (''status'', JStr (cb_status b)),
      (''categories'', JArr (map (\<lambda>c. JObj [(''id'', JStr (str_uuid c))]) (cb_category_ids b)))]"

type_synonym cache_write = "string \<times> jobj \<times> nat"

definition store_books :: "catalogue_env \<Rightarrow> CatalogueBook list \<Rightarrow> cache_write list" where
  "store_books env books =
     (if redis_mget env = None \<or> books = [] then []
      else map (\<lambda>b. (cache_key (cb_id b), book_blob b, PRICE_CACHE_TTL)) books)"

fun cached_entries ::
  "(uuid \<times> (exn + json) option) list \<Rightarrow> (uuid \<times> CatalogueBook) list" where
  "cached_entries [] = []"
| "cached_entries ((u, v) # es) =
     (case v of
        Some (Inr (JObj d)) \<Rightarrow>
          (case parse_book d of Inl _ \<Rightarrow> cached_entries es | Inr b \<Rightarrow> (u, b) # cached_entries es)
      | _ \<Rightarrow> cached_entries es)"

definition cached_books :: "catalogue_env \<Rightarrow> uuid list \<Rightarrow> (uuid \<times> CatalogueBook) list result" where
  "cached_books env book_ids =
     (case redis_mget env of None \<Rightarrow> Inr []
      | Some mget \<Rightarrow>
          if book_ids = [] then Inr []
          else (case mget (map cache_key book_ids) of Inl _ \<Rightarrow> Inr []
                | Inr raw \<Rightarrow>
                    if length raw \<noteq> length book_ids then Inl (PyExn ''ValueError'')
                    else Inr (cached_entries (zip book_ids raw))))"

subsection \<open>Lookups\<close>

text \<open>\<open>list(dict.fromkeys(xs))\<close>: the distinct elements in order of first appearance.\<close>

fun dict_fromkeys :: "'a list \<Rightarrow> 'a list" where
  "dict_fromkeys [] = []"
| "dict_fromkeys (x # xs) = x # filter (\<lambda>y. y \<noteq> x) (dict_fromkeys xs)"

text \<open>\<open>(payload or {}).get(k, [])\<close> for a reply of the books service.\<close>

definition reply_list :: "json \<Rightarrow> string \<Rightarrow> json list result" where
  "reply_list payload k =
     (case (if jtruthy payload then payload else JObj []) of
        JObj d \<Rightarrow> (case get_or d k (JArr []) of JArr xs \<Rightarrow> Inr xs | _ \<Rightarrow> Inl (PyExn ''TypeError''))
      | _ \<Rightarrow> Inl (PyExn ''AttributeError''))"

definition fetch ::
  "catalogue_env \<Rightarrow> uuid list \<Rightarrow> ((uuid \<times> CatalogueBook) list \<times> cache_write list) result" where
  "fetch env book_ids =
     (if book_ids = [] then Inr ([], [])
      else
        let unique = dict_fromkeys book_ids in
        case cached_books env unique of Inl e \<Rightarrow> Inl e
        | Inr resolved \<Rightarrow>
            (let missing = filter (\<lambda>b. b \<notin> fst ` set resolved) unique in
             if missing = [] then Inr (resolved, [])
             else case books_service env of None \<Rightarrow> Inl (raise_default NotFoundError)
               | Some post \<Rightarrow>
                   (case post ''/internal/books/batch''
                           [(''book_ids'', JArr (map (\<lambda>b. JStr (str_uuid b)) missing)),
                            (''include_unpublished'', JBool True)] of
                      Inl e \<Rightarrow> Inl e
                    | Inr payload \<Rightarrow>
                        (case reply_list payload ''items'' of Inl e \<Rightarrow> Inl e
                         | Inr items \<Rightarrow>
                             (case parse_books items of Inl e \<Rightarrow> Inl e
                              | Inr fetched \<Rightarrow>
                                  let all = dict_update resolved (map (\<lambda>b. (cb_id b, b)) fetched) in
                                  if filter (\<lambda>b. b \<notin> fst ` set all) unique \<noteq> []
                                  then Inl (raise_default NotFoundError)
                                  else Inr (all, store_books env fetched))))))"

definition require_purchasable ::
  "catalogue_env \<Rightarrow> uuid list \<Rightarrow> ((uuid \<times> CatalogueBook) list \<times> cache_write list) result" where
  "require_purchasable env book_ids =
     (case fetch env book_ids of Inl e \<Rightarrow> Inl e
      | Inr (books, writes) \<Rightarrow>
          if filter (\<lambda>(u, b). \<not> is_purchasable b) books \<noteq> []
          then Inl (raise_code BadRequestError ''book_not_purchasable'')
          else Inr (books, writes))"

fun parse_uuids :: "json list \<Rightarrow> uuid list result" where
  "parse_uuids [] = Inr []"
| "parse_uuids (v # vs) =
     (case json_uuid v of Inl e \<Rightarrow> Inl e
      | Inr u \<Rightarrow> (case parse_uuids vs of Inl e \<Rightarrow> Inl e | Inr us \<Rightarrow> Inr (u # us)))"

definition owned_book_ids :: "catalogue_env \<Rightarrow> uuid \<Rightarrow> uuid list \<Rightarrow> uuid set result" where
  "owned_book_ids env user_id book_ids =
     (case books_service env of None \<Rightarrow> Inr {}
      | Some post \<Rightarrow>
          if book_ids = [] then Inr {}
          else (case post ''/internal/entitlements/check''
                       [(''user_id'', JStr (str_uuid user_id)),
                        (''book_ids'', JArr (map (\<lambda>b. JStr (str_uuid b)) book_ids))] of
                  Inl _ \<Rightarrow> Inr {}
                | Inr payload \<Rightarrow>
                    (case reply_list payload ''owned_book_ids'' of Inl e \<Rightarrow> Inl e
                     | Inr vs \<Rightarrow> (case parse_uuids vs of Inl e \<Rightarrow> Inl e | Inr us \<Rightarrow> Inr (set us)))))"

subsection \<open>Lemmas\<close>

lemma set_dict_fromkeys [simp]: "set (dict_fromkeys xs) = set xs"
  by (induction xs) auto

lemma distinct_dict_fromkeys [simp]: "distinct (dict_fromkeys xs)"
  by (induction xs) auto

lemma dict_fromkeys_distinct: "distinct xs \<Longrightarrow> dict_fromkeys xs = xs"
  by (induction xs) (auto simp: filter_id_conv)

lemma parse_categories_blob:
  "list_all valid_uuid us \<Longrightarrow>
     parse_categories (map (\<lambda>c. JObj [(''id'', JStr (str_uuid c))]) us) = Inr us"
  by (induction us) (auto simp: jget_null_def json_uuid_def parse_str_uuid)

lemma parse_book_blob:
  assumes "valid_uuid (cb_id b)" and "list_all valid_uuid (cb_category_ids b)"
  shows "parse_book (book_blob b) = Inr b"
  using assms
  by (simp add: parse_book_def book_blob_def jget_null_def jget_def get_or_def json_uuid_def
      parse_str_uuid parse_categories_blob)

definition blob_ids_valid :: "CatalogueBook \<Rightarrow> bool" where
  "blob_ids_valid b \<longleftrightarrow> valid_uuid (cb_id b) \<and> list_all valid_uuid (cb_category_ids b)"

lemma cached_entries_blobs:
  "list_all blob_ids_valid books \<Longrightarrow>
     cached_entries (zip (map cb_id books) (map (\<lambda>b. Some (Inr (JObj (book_blob b)))) books))
       = map (\<lambda>b. (cb_id b, b)) books"
  by (induction books) (auto simp: parse_book_blob blob_ids_valid_def)

lemma cache_key_inj: "valid_uuid a \<Longrightarrow> valid_uuid b \<Longrightarrow> cache_key a = cache_key b \<Longrightarrow> a = b"
  by (simp add: cache_key_def str_uuid_inj)

lemma map_of_stored_blob:
  assumes "list_all blob_ids_valid books" and "distinct (map cb_id books)" and "b \<in> set books"
  shows "map_of (map (\<lambda>b. (cache_key (cb_id b), book_blob b)) books) (cache_key (cb_id b))
           = Some (book_blob b)"
proof (rule map_of_is_SomeI)
  have "inj_on cache_key (set (map cb_id books))"
    using assms(1) by (auto simp: inj_on_def list_all_iff blob_ids_valid_def intro: cache_key_inj)
  moreover have "map fst (map (\<lambda>b. (cache_key (cb_id b), book_blob b)) books)
      = map cache_key (map cb_id books)" by simp
  ultimately show "distinct (map fst (map (\<lambda>b. (cache_key (cb_id b), book_blob b)) books))"
    using assms(2) by (simp only: distinct_map [of cache_key "map cb_id books"])
  show "(cache_key (cb_id b), book_blob b)
      \<in> set (map (\<lambda>b. (cache_key (cb_id b), book_blob b)) books)"
    using assms(3) by auto
qed

text \<open>A Redis that answers \<open>MGET\<close> from a list of stored entries.\<close>

definition mget_of :: "cache_write list \<Rightarrow> string list \<Rightarrow> (exn + json) option list result" where
  "mget_of ws keys =
     Inr (map (\<lambda>k. map_option (\<lambda>blob. Inr (JObj blob)) (map_of (map (\<lambda>(k, blob, ttl). (k, blob)) ws) k)) keys)"

lemma fetch_total:
  assumes "fetch env ids = Inr (books, writes)"
  shows "set ids \<subseteq> fst ` set books"
proof (cases "ids = []")
  case True
  then show ?thesis by simp
next
  case False
  from assms show ?thesis
    unfolding fetch_def
    by (auto simp: False Let_def filter_empty_conv split: sum.splits if_splits option.splits)
qed

lemma require_purchasable_fetch:
  assumes "require_purchasable env ids = Inr (books, writes)"
  shows "fetch env ids = Inr (books, writes)" and "\<forall>(u, b) \<in> set books. is_purchasable b"
  using assms by (auto simp: require_purchasable_def filter_empty_conv split: sum.splits if_splits)

subsection \<open>Properties\<close>

text \<open>
  what the price cache stores reads back as the same book. When Redis holds for every
  requested id the document \<open>_store\<close> wrote for that book, the cache lookup returns exactly
  those books with their price, currency, status and categories, so a cache hit prices a
  cart like a fresh call to the catalogue.
\<close>

lemma cached_book_roundtrip:
  assumes "list_all blob_ids_valid books" and "distinct (map cb_id books)" and "books \<noteq> []"
    and "redis_mget env = Some (mget_of (store_books env books))"
  shows "cached_books env (map cb_id books) = Inr (map (\<lambda>b. (cb_id b, b)) books)"
proof -
  have stored: "map (\<lambda>(k, blob, ttl). (k, blob)) (store_books env books)
      = map (\<lambda>b. (cache_key (cb_id b), book_blob b)) books"
  proof -
    have "redis_mget env \<noteq> None" by (simp add: assms(4))
    with assms(3) show ?thesis by (simp add: store_books_def)
  qed
  have "mget_of (store_books env books) (map cache_key (map cb_id books))
      = Inr (map (\<lambda>b. Some (Inr (JObj (book_blob b)))) books)"
    unfolding mget_of_def stored
    by (simp add: map_of_stored_blob [OF assms(1,2)])
  then show ?thesis
    using assms by (simp add: cached_books_def cached_entries_blobs)
qed

definition sample_book :: CatalogueBook where
  "sample_book = \<lparr>cb_id = 7, cb_slug = ''dune'', cb_title = ''Dune'', cb_price_minor = 49900,
     cb_currency = ''INR'', cb_status = ''published'', cb_category_ids = [3]\<rparr>"

definition cache_env :: catalogue_env where
  "cache_env = \<lparr>redis_mget = Some (mget_of (store_books \<lparr>redis_mget = Some (\<lambda>_. Inr []),
     books_service = None\<rparr> [sample_book])), books_service = None\<rparr>"

text \<open>
  a cart is never priced against a partial catalogue. When the lookup used by checkout
  succeeds, every requested book is in the result and every book in the result is
  published; a book the catalogue does not return makes the whole lookup fail with 404 and
  an unpublished one with \<open>book_not_purchasable\<close>.
\<close>

lemma require_purchasable_complete:
  assumes "require_purchasable env ids = Inr (books, writes)"
  shows "set ids \<subseteq> fst ` set books \<and> (\<forall>(u, b) \<in> set books. cb_status b = ''published'')"
  using require_purchasable_fetch [OF assms] fetch_total by (auto simp: is_purchasable_def)

definition sample_env :: catalogue_env where
  "sample_env = \<lparr>redis_mget = None,
     books_service = Some (\<lambda>path body. Inr (JObj [(''items'', JArr [JObj (book_blob sample_book)])]))\<rparr>"

lemma sample_purchasable:
  "require_purchasable sample_env [7] = Inr ([(7, sample_book)], [])"
proof -
  have parse: "parse_book (book_blob sample_book) = Inr sample_book"
    by (rule parse_book_blob) (simp_all add: sample_book_def valid_uuid_def)
  have "cb_id sample_book = 7" and "cb_status sample_book = ''published''"
    by (simp_all add: sample_book_def)
  then show ?thesis
    by (simp add: require_purchasable_def fetch_def sample_env_def cached_books_def reply_list_def
        get_or_def jget_def parse dict_update_def store_books_def is_purchasable_def)
qed

end
