(* ===== verification/Coupons.thy ===== *)
theory Coupons
  imports Catalogue
begin

section \<open>Coupons: validation and redemption\<close>

text \<open>
  \<open>apps/payment/services/coupons.py\<close>. Evaluation decides whether a code applies and for how
  much; redemption consumes one use with a conditional \<open>UPDATE\<close> and records a row that is
  unique per coupon and order; release gives the use back. The customer-facing reasons are
  the constructors of \<open>coupon_reason\<close>. Redemption takes the coupon object the checkout
  loaded earlier, which may be stale: only its id, code and limit are used, and the counter
  is read in the database by the \<open>UPDATE\<close> itself, as in the source.
\<close>

datatype coupon_reason =
    NotRecognised
  | NoLongerActive
  | NotActiveYet
  | Expired
  | OtherCurrency string
  | FullyRedeemed
  | AlreadyUsed
  | MinimumOrder money string
  | NothingEligible
  | NoDiscount

record CouponEvaluation =
  ce_valid :: bool
  ce_discount_minor :: money
  ce_coupon :: "coupon option"
  ce_reason :: "coupon_reason option"

definition refuse :: "coupon option \<Rightarrow> coupon_reason option \<Rightarrow> CouponEvaluation" where
  "refuse c why = \<lparr>ce_valid = False, ce_discount_minor = 0, ce_coupon = c, ce_reason = why\<rparr>"

subsection \<open>Lookup\<close>

definition normalise_code :: "string \<Rightarrow> string" where
  "normalise_code code = str_upper (str_strip code)"

definition find_coupon :: "payment_db \<Rightarrow> string \<Rightarrow> coupon option" where
  "find_coupon db code = first_row (\<lambda>c. c_code c = normalise_code code) (coupons db)"

definition get_coupon :: "payment_db \<Rightarrow> uuid \<Rightarrow> coupon result" where
  "get_coupon db coupon_id =
     (case first_row (\<lambda>c. c_id c = coupon_id) (coupons db) of
        None \<Rightarrow> Inl (raise_default NotFoundError) | Some c \<Rightarrow> Inr c)"

subsection \<open>Evaluation\<close>

type_synonym line_totals = "(uuid \<times> money) list"

definition line_sum :: "line_totals \<Rightarrow> money" where
  "line_sum lines = sum_list (map snd lines)"

definition line_eligible :: "coupon \<Rightarrow> (uuid \<times> CatalogueBook) list \<Rightarrow> uuid \<Rightarrow> bool" where
  "line_eligible c books book_id \<longleftrightarrow>
     book_id \<in> set (c_applicable_book_ids c) \<or>
     (case map_of books book_id of None \<Rightarrow> False
      | Some b \<Rightarrow> set (c_applicable_category_ids c) \<inter> set (cb_category_ids b) \<noteq> {})"

definition eligible_subtotal :: "coupon \<Rightarrow> line_totals \<Rightarrow> (uuid \<times> CatalogueBook) list \<Rightarrow> money" where
  "eligible_subtotal c lines books =
     (if c_applicable_book_ids c = [] \<and> c_applicable_category_ids c = [] then line_sum lines
      else foldl (\<lambda>total (book_id, line_total).
             if line_eligible c books book_id then total + line_total else total) 0 lines)"

definition discount_for :: "coupon \<Rightarrow> money \<Rightarrow> money" where
  "discount_for c eligible_minor =
     (if eligible_minor \<le> 0 then 0
      else
        let discount =
          (case c_coupon_type c of
             Percent \<Rightarrow>
               (let d = eligible_minor * c_value c div 100
                in case c_max_discount_minor c of None \<Rightarrow> d | Some m \<Rightarrow> min d m)
           | Fixed \<Rightarrow> c_value c)
        in max 0 (min discount eligible_minor))"

definition user_redemptions :: "payment_db \<Rightarrow> uuid \<Rightarrow> uuid \<Rightarrow> nat" where
  "user_redemptions db coupon_id user_id =
     count_rows (\<lambda>r. cr_coupon_id r = coupon_id \<and> cr_user_id r = user_id) (redemptions db)"

definition evaluate ::
  "payment_db \<Rightarrow> timestamp \<Rightarrow> string option \<Rightarrow> uuid option \<Rightarrow> line_totals \<Rightarrow>
   (uuid \<times> CatalogueBook) list \<Rightarrow> string \<Rightarrow> CouponEvaluation" where
  "evaluate db now code user_id lines books currency =
     (if \<not> truthy code then refuse None None
      else case find_coupon db (opt_default code '''') of
        None \<Rightarrow> refuse None (Some NotRecognised)
      | Some c \<Rightarrow>
          if \<not> c_is_active c then refuse (Some c) (Some NoLongerActive)
          else if (case c_valid_from c of None \<Rightarrow> False | Some t \<Rightarrow> now < t)
            then refuse (Some c) (Some NotActiveYet)
          else if (case c_valid_until c of None \<Rightarrow> False | Some t \<Rightarrow> now > t)
            then refuse (Some c) (Some Expired)
          else if truthy (c_currency c)
                  \<and> str_upper (opt_default (c_currency c) '''') \<noteq> str_upper currency
            then refuse (Some c) (Some (OtherCurrency (opt_default (c_currency c) '''')))
          else if (case c_usage_limit c of None \<Rightarrow> False | Some l \<Rightarrow> c_usage_count c \<ge> l)
            then refuse (Some c) (Some FullyRedeemed)
          else if (case user_id of None \<Rightarrow> False
                   | Some u \<Rightarrow> c_per_user_limit c \<noteq> 0
                       \<and> int (user_redemptions db (c_id c) u) \<ge> c_per_user_limit c)
            then refuse (Some c) (Some AlreadyUsed)
          else if line_sum lines < c_min_order_minor c
            then refuse (Some c) (Some (MinimumOrder (c_min_order_minor c) currency))
          else
            let eligible = eligible_subtotal c lines books in
            if eligible \<le> 0 then refuse (Some c) (Some NothingEligible)
            else let discount = discount_for c eligible in
              if discount \<le> 0 then refuse (Some c) (Some NoDiscount)
              else \<lparr>ce_valid = True, ce_discount_minor = discount, ce_coupon = Some c,
                    ce_reason = None\<rparr>)"

subsection \<open>Redemption and release\<close>

definition bump_usage :: "int \<Rightarrow> coupon \<Rightarrow> coupon" where
  "bump_usage d c = c\<lparr>c_usage_count := c_usage_count c + d\<rparr>"

definition consume_use :: "payment_db \<Rightarrow> coupon \<Rightarrow> payment_db result" where
  "consume_use db coupon =
     (case c_usage_limit coupon of
        Some limit \<Rightarrow>
          (let hit = (\<lambda>c. c_id c = c_id coupon \<and> c_usage_count c < limit) in
           if count_rows hit (coupons db) = 0
           then Inl (raise_code ConflictError ''coupon_exhausted'')
           else Inr (db\<lparr>coupons := update_rows hit (bump_usage 1) (coupons db)\<rparr>))
      | None \<Rightarrow>
          Inr (db\<lparr>coupons := update_rows (\<lambda>c. c_id c = c_id coupon) (bump_usage 1) (coupons db)\<rparr>))"

definition redeem ::
  "payment_db \<Rightarrow> coupon \<Rightarrow> uuid \<Rightarrow> uuid \<Rightarrow> money \<Rightarrow> uuid \<Rightarrow> (payment_db \<times> coupon_redemption) result" where
  "redeem db coupon order_id user_id discount_minor new_id =
     (case consume_use db coupon of Inl e \<Rightarrow> Inl e
      | Inr db1 \<Rightarrow>
          (let redemption = \<lparr>cr_id = new_id, cr_coupon_id = c_id coupon, cr_order_id = order_id,
                cr_user_id = user_id, cr_discount_minor = discount_minor\<rparr>
           in case insert_unique redemption_clash redemption (redemptions db1) of
                None \<Rightarrow> Inl (raise_code ConflictError ''coupon_already_redeemed'')
              | Some t \<Rightarrow> Inr (db1\<lparr>redemptions := t\<rparr>, redemption)))"

definition release_one :: "coupon_redemption \<Rightarrow> payment_db \<Rightarrow> payment_db" where
  "release_one r db =
     db\<lparr>coupons := update_rows (\<lambda>c. c_id c = cr_coupon_id r \<and> c_usage_count c > 0)
                     (bump_usage (- 1)) (coupons db),
        redemptions := delete_rows (\<lambda>x. cr_id x = cr_id r) (redemptions db)\<rparr>"

text \<open>
  \<open>release\<close> first reads the redemptions of the order and then gives them back one by one; what
  other transactions do between the read and the work is considered below.
\<close>

definition release_rows :: "payment_db \<Rightarrow> uuid \<Rightarrow> coupon_redemption list" where
  "release_rows db order_id = filter (\<lambda>r. cr_order_id r = order_id) (redemptions db)"

definition release :: "payment_db \<Rightarrow> uuid \<Rightarrow> payment_db" where
  "release db order_id = fold release_one (release_rows db order_id) db"

subsection \<open>Administration\<close>

record coupon_create =
  ccr_code :: string
  ccr_description :: "string option"
  ccr_coupon_type :: CouponType
  ccr_value :: int
  ccr_max_discount_minor :: "money option"
  ccr_min_order_minor :: money
  ccr_currency :: "string option"
  ccr_usage_limit :: "int option"
  ccr_per_user_limit :: int
  ccr_valid_from :: "timestamp option"
  ccr_valid_until :: "timestamp option"
  ccr_is_active :: bool
  ccr_applicable_book_ids :: "uuid list"
  ccr_applicable_category_ids :: "uuid list"

definition is_alnum :: "char \<Rightarrow> bool" where
  "is_alnum c \<longleftrightarrow> c \<in> set (lower_letters @ upper_letters @ ''0123456789'')"

text \<open>
  The request schema's validators: \<open>_normalise_code\<close>, the field bounds and \<open>_check_value\<close>.
\<close>

definition validate_coupon_create :: "coupon_create \<Rightarrow> coupon_create result" where
  "validate_coupon_create p =
     (let code = normalise_code (ccr_code p);
          bare = filter (\<lambda>c. c \<noteq> CHR ''-'' \<and> c \<noteq> CHR ''_'') code
      in if length (str_strip (ccr_code p)) < 3 \<or> length (str_strip (ccr_code p)) > 64
            \<or> bare = [] \<or> \<not> list_all is_alnum bare
            \<or> ccr_value p < 0
            \<or> (case ccr_max_discount_minor p of None \<Rightarrow> False | Some m \<Rightarrow> m < 0)
            \<or> ccr_min_order_minor p < 0
            \<or> (case ccr_usage_limit p of None \<Rightarrow> False | Some l \<Rightarrow> l < 1)
            \<or> ccr_per_user_limit p < 1
            \<or> length (ccr_applicable_book_ids p) > 500
            \<or> length (ccr_applicable_category_ids p) > 200
            \<or> (ccr_coupon_type p = Percent \<and> \<not> (0 \<le> ccr_value p \<and> ccr_value p \<le> 100))
            \<or> (case (ccr_valid_from p, ccr_valid_until p) of
                  (Some a, Some b) \<Rightarrow> b \<le> a | _ \<Rightarrow> False)
         then Inl RequestValidationExn
         else Inr (p\<lparr>ccr_code := code\<rparr>))"

definition create_coupon ::
  "payment_db \<Rightarrow> timestamp \<Rightarrow> uuid \<Rightarrow> coupon_create \<Rightarrow> (payment_db \<times> coupon) result" where
  "create_coupon db now new_id payload =
     (case find_coupon db (ccr_code payload) of
        Some _ \<Rightarrow> Inl (raise_default ConflictError)
      | None \<Rightarrow>
          (let c = \<lparr>c_id = new_id, c_code = ccr_code payload, c_description = ccr_description payload,
                c_coupon_type = ccr_coupon_type payload, c_value = ccr_value payload,
                c_max_discount_minor = ccr_max_discount_minor payload,
                c_min_order_minor = ccr_min_order_minor payload,
                c_currency = (if truthy (ccr_currency payload) then ccr_currency payload else None),
                c_usage_limit = ccr_usage_limit payload, c_usage_count = 0,
                c_per_user_limit = ccr_per_user_limit payload,
                c_valid_from = ccr_valid_from payload, c_valid_until = ccr_valid_until payload,
                c_is_active = ccr_is_active payload,
                c_applicable_book_ids = ccr_applicable_book_ids payload,
                c_applicable_category_ids = ccr_applicable_category_ids payload,
                c_created_at = now\<rparr>
           in case insert_unique (\<lambda>a b. c_code a = c_code b) c (coupons db) of
                None \<Rightarrow> Inl (PyExn ''IntegrityError'')
              | Some t \<Rightarrow> Inr (db\<lparr>coupons := t\<rparr>, c)))"

text \<open>
  One field of \<open>CouponUpdate\<close> that the request set; a required column set to \<open>null\<close> fails
  at commit.
\<close>

datatype coupon_change =
    SetDescription "string option"
  | SetValue "int option"
  | SetMaxDiscount "money option"
  | SetMinOrder "money option"
  | SetUsageLimit "int option"
  | SetPerUserLimit "int option"
  | SetValidFrom "timestamp option"
  | SetValidUntil "timestamp option"
  | SetActive "bool option"
  | SetBooks "uuid list option"
  | SetCategories "uuid list option"

fun apply_change :: "coupon_change \<Rightarrow> coupon \<Rightarrow> coupon option" where
  "apply_change (SetDescription v) c = Some (c\<lparr>c_description := v\<rparr>)"
| "apply_change (SetValue v) c = map_option (\<lambda>n. c\<lparr>c_value := n\<rparr>) v"
| "apply_change (SetMaxDiscount v) c = Some (c\<lparr>c_max_discount_minor := v\<rparr>)"
| "apply_change (SetMinOrder v) c = map_option (\<lambda>n. c\<lparr>c_min_order_minor := n\<rparr>) v"
| "apply_change (SetUsageLimit v) c = Some (c\<lparr>c_usage_limit := v\<rparr>)"
| "apply_change (SetPerUserLimit v) c = map_option (\<lambda>n. c\<lparr>c_per_user_limit := n\<rparr>) v"
| "apply_change (SetValidFrom v) c = Some (c\<lparr>c_valid_from := v\<rparr>)"
| "apply_change (SetValidUntil v) c = Some (c\<lparr>c_valid_until := v\<rparr>)"
| "apply_change (SetActive v) c = map_option (\<lambda>b. c\<lparr>c_is_active := b\<rparr>) v"
| "apply_change (SetBooks v) c = map_option (\<lambda>us. c\<lparr>c_applicable_book_ids := us\<rparr>) v"
| "apply_change (SetCategories v) c = map_option (\<lambda>us. c\<lparr>c_applicable_category_ids := us\<rparr>) v"

fun apply_changes :: "coupon_change list \<Rightarrow> coupon \<Rightarrow> coupon option" where
  "apply_changes [] c = Some c"
| "apply_changes (x # xs) c =
     (case apply_change x c of None \<Rightarrow> None | Some d \<Rightarrow> apply_changes xs d)"

definition update_coupon ::
  "payment_db \<Rightarrow> coupon \<Rightarrow> coupon_change list \<Rightarrow> (payment_db \<times> coupon) result" where
  "update_coupon db coupon changes =
     (case apply_changes changes coupon of None \<Rightarrow> Inl (PyExn ''IntegrityError'')
      | Some d \<Rightarrow>
          Inr (db\<lparr>coupons := update_rows (\<lambda>c. c_id c = c_id coupon)
                    (\<lambda>c. opt_default (apply_changes changes c) c) (coupons db)\<rparr>, d))"

definition list_coupons :: "payment_db \<Rightarrow> bool \<Rightarrow> nat \<Rightarrow> nat \<Rightarrow> coupon list \<times> nat" where
  "list_coupons db active_only limit offset =
     (let rows = filter (\<lambda>c. \<not> active_only \<or> c_is_active c) (coupons db)
      in (page_rows limit offset (order_by_desc c_created_at rows), length rows))"

definition deactivate :: "payment_db \<Rightarrow> coupon \<Rightarrow> payment_db \<times> coupon" where
  "deactivate db coupon =
     (db\<lparr>coupons := update_rows (\<lambda>c. c_id c = c_id coupon) (\<lambda>c. c\<lparr>c_is_active := False\<rparr>) (coupons db)\<rparr>,
      coupon\<lparr>c_is_active := False\<rparr>)"

subsection \<open>Lemmas: amounts\<close>

lemma eligible_as_sum:
  "eligible_subtotal c lines books =
     sum_list (map snd (filter (\<lambda>l. (c_applicable_book_ids c = [] \<and> c_applicable_category_ids c = [])
        \<or> line_eligible c books (fst l)) lines))"
proof -
  have "foldl (\<lambda>total (book_id, line_total).
          if line_eligible c books book_id then total + line_total else total) acc lines
      = acc + sum_list (map snd (filter (\<lambda>l. line_eligible c books (fst l)) lines))" for acc
    by (induction lines arbitrary: acc) (auto split: prod.splits)
  then show ?thesis
    by (cases "c_applicable_book_ids c = [] \<and> c_applicable_category_ids c = []")
      (auto simp: eligible_subtotal_def line_sum_def)
qed

lemma sum_filter_le:
  "(\<And>x. x \<in> set xs \<Longrightarrow> (0::int) \<le> f x) \<Longrightarrow> sum_list (map f (filter P xs)) \<le> sum_list (map f xs)"
  by (induction xs) (auto intro: add_mono add_increasing)

lemma eligible_le_subtotal:
  "(\<And>l. l \<in> set lines \<Longrightarrow> 0 \<le> snd l) \<Longrightarrow> eligible_subtotal c lines books \<le> line_sum lines"
  by (simp add: eligible_as_sum line_sum_def sum_filter_le)

lemma discount_for_bounds:
  "0 \<le> discount_for c e" "0 \<le> e \<Longrightarrow> discount_for c e \<le> e"
  by (auto simp: discount_for_def Let_def)

lemma discount_for_capped:
  assumes "c_coupon_type c = Percent" and "c_max_discount_minor c = Some m" and "0 \<le> m"
  shows "discount_for c e \<le> m"
  using assms by (auto simp: discount_for_def Let_def)

lemma refuse_not_valid [simp]: "\<not> ce_valid (refuse a b)"
  by (simp add: refuse_def)

text \<open>What a positive answer to "may this cart use this code?" means.\<close>

definition coupon_applies ::
  "payment_db \<Rightarrow> timestamp \<Rightarrow> coupon \<Rightarrow> uuid option \<Rightarrow> line_totals \<Rightarrow>
   (uuid \<times> CatalogueBook) list \<Rightarrow> string \<Rightarrow> bool" where
  "coupon_applies db now c user lines books currency \<longleftrightarrow>
     c_is_active c
     \<and> (case c_valid_from c of None \<Rightarrow> True | Some t \<Rightarrow> t \<le> now)
     \<and> (case c_valid_until c of None \<Rightarrow> True | Some t \<Rightarrow> now \<le> t)
     \<and> (truthy (c_currency c) \<longrightarrow>
          str_upper (opt_default (c_currency c) '''') = str_upper currency)
     \<and> (case c_usage_limit c of None \<Rightarrow> True | Some l \<Rightarrow> c_usage_count c < l)
     \<and> (case user of None \<Rightarrow> True
        | Some u \<Rightarrow> c_per_user_limit c = 0
            \<or> int (user_redemptions db (c_id c) u) < c_per_user_limit c)
     \<and> c_min_order_minor c \<le> line_sum lines
     \<and> 0 < discount_for c (eligible_subtotal c lines books)"

lemma evaluate_valid_iff:
  assumes "find_coupon db code = Some c" and "code \<noteq> []"
  shows "ce_valid (evaluate db now (Some code) user lines books currency)
           \<longleftrightarrow> coupon_applies db now c user lines books currency"
proof -
  have pos: "0 < eligible_subtotal c lines books"
    if "0 < discount_for c (eligible_subtotal c lines books)"
    using that by (auto simp: discount_for_def split: if_splits)
  show ?thesis
    using assms pos unfolding evaluate_def coupon_applies_def
    by (auto simp: truthy_def [of "Some code"] opt_default_def [of "Some code"] Let_def
        split: option.splits if_splits)
qed

lemma evaluate_valid_eq:
  assumes "ce_valid (evaluate db now code user lines books currency)"
  obtains s c where "code = Some s" and "s \<noteq> []" and "find_coupon db s = Some c"
    and "evaluate db now code user lines books currency =
      \<lparr>ce_valid = True, ce_discount_minor = discount_for c (eligible_subtotal c lines books),
       ce_coupon = Some c, ce_reason = None\<rparr>"
proof -
  from assms obtain s where s: "code = Some s" "s \<noteq> []"
    by (cases code) (auto simp: evaluate_def truthy_def split: if_splits)
  with assms obtain c where c: "find_coupon db s = Some c"
    by (cases "find_coupon db s") (auto simp: evaluate_def truthy_def opt_default_def)
  show thesis
    by (rule that [OF s c])
      (use assms s c in \<open>auto simp: evaluate_def truthy_def [of "Some s"] opt_default_def [of "Some s"]
        Let_def split: if_splits\<close>)
qed

subsection \<open>Lemmas: the counter and the redemption rows\<close>

text \<open>
  The bookkeeping invariant: coupon ids and redemption ids are keys, every redemption names
  a coupon, and every coupon's counter is the number of its redemption rows and within its
  limit.
\<close>

definition coupon_books_balance :: "payment_db \<Rightarrow> bool" where
  "coupon_books_balance db \<longleftrightarrow>
     distinct (map c_id (coupons db)) \<and> distinct (map cr_id (redemptions db)) \<and>
     (\<forall>r \<in> set (redemptions db). cr_coupon_id r \<in> c_id ` set (coupons db)) \<and>
     (\<forall>c \<in> set (coupons db).
        c_usage_count c = int (count_rows (\<lambda>r. cr_coupon_id r = c_id c) (redemptions db)) \<and>
        (case c_usage_limit c of None \<Rightarrow> True | Some l \<Rightarrow> c_usage_count c \<le> l))"

lemma bump_usage_fields [simp]:
  "c_id (bump_usage d c) = c_id c" "c_usage_limit (bump_usage d c) = c_usage_limit c"
  "c_usage_count (bump_usage d c) = c_usage_count c + d"
  by (simp_all add: bump_usage_def)

lemma bump_usage_undo [simp]: "bump_usage (- 1) (bump_usage 1 c) = c"
  by (simp add: bump_usage_def)

text \<open>A redemption that went through, as its effect on the two tables.\<close>

lemma redeem_effect:
  assumes "redeem db coupon order_id user_id discount new_id = Inr (db', r)"
  shows "db' = db\<lparr>coupons := update_rows (\<lambda>c. c_id c = c_id coupon \<and>
             (case c_usage_limit coupon of None \<Rightarrow> True | Some l \<Rightarrow> c_usage_count c < l))
             (bump_usage 1) (coupons db),
           redemptions := redemptions db @ [r]\<rparr>"
    and "r = \<lparr>cr_id = new_id, cr_coupon_id = c_id coupon, cr_order_id = order_id,
                cr_user_id = user_id, cr_discount_minor = discount\<rparr>"
    and "case c_usage_limit coupon of None \<Rightarrow> True
         | Some l \<Rightarrow> \<exists>c \<in> set (coupons db). c_id c = c_id coupon \<and> c_usage_count c < l"
    and "\<forall>x \<in> set (redemptions db). c_id coupon = cr_coupon_id x \<longrightarrow> order_id \<noteq> cr_order_id x"
  using assms unfolding redeem_def consume_use_def
  by (auto simp: Let_def insert_unique_Some count_rows_zero redemption_clash_def
      split: option.splits sum.splits if_splits)

text \<open>One redeemed or released use, applied to the row of its coupon.\<close>

definition is_snapshot :: "payment_db \<Rightarrow> coupon \<Rightarrow> bool" where
  "is_snapshot db coupon \<longleftrightarrow>
     (\<exists>c \<in> set (coupons db). c_id c = c_id coupon \<and> c_usage_limit c = c_usage_limit coupon)"

lemma redeem_balance:
  assumes inv: "coupon_books_balance db" and snap: "is_snapshot db coupon"
    and fresh: "new_id \<notin> cr_id ` set (redemptions db)"
    and ok: "redeem db coupon order_id user_id discount new_id = Inr (db', r)"
  shows "coupon_books_balance db'"
proof -
  note eff = redeem_effect [OF ok]
  let ?hit = "\<lambda>c. c_id c = c_id coupon \<and>
    (case c_usage_limit coupon of None \<Rightarrow> True | Some l \<Rightarrow> c_usage_count c < l)"
  have uniq: "c = d" if "c \<in> set (coupons db)" "d \<in> set (coupons db)" "c_id c = c_id d" for c d
    using inv that unfolding coupon_books_balance_def by (metis distinct_map inj_onD)
  have hit: "?hit c \<longleftrightarrow> c_id c = c_id coupon" if "c \<in> set (coupons db)" for c
  proof (cases "c_usage_limit coupon")
    case (Some l)
    with eff(3) obtain d where "d \<in> set (coupons db)" "c_id d = c_id coupon" "c_usage_count d < l"
      by auto
    with uniq [of c d] that Some show ?thesis by auto
  qed simp
  have lim: "c_usage_limit c = c_usage_limit coupon" if "c \<in> set (coupons db)" "c_id c = c_id coupon" for c
    using snap that uniq unfolding is_snapshot_def by metis
  have ids: "map c_id (coupons db') = map c_id (coupons db)"
    unfolding eff(1) by (simp add: map_update_rows)
  have rows: "c_usage_count c = int (count_rows (\<lambda>x. cr_coupon_id x = c_id c) (redemptions db')) \<and>
      (case c_usage_limit c of None \<Rightarrow> True | Some l \<Rightarrow> c_usage_count c \<le> l)"
    if c: "c \<in> set (coupons db')" for c
  proof -
    from c obtain d where d: "d \<in> set (coupons db)" and cd: "c = (if ?hit d then bump_usage 1 d else d)"
      unfolding eff(1) by (auto simp: set_update_rows)
    have bal: "c_usage_count d = int (count_rows (\<lambda>x. cr_coupon_id x = c_id d) (redemptions db))"
      and cap: "case c_usage_limit d of None \<Rightarrow> True | Some l \<Rightarrow> c_usage_count d \<le> l"
      using inv d by (auto simp: coupon_books_balance_def)
    show ?thesis
    proof (cases "c_id d = c_id coupon")
      case True
      with hit [OF d] have h: "?hit d" by simp
      with cd have "c = bump_usage 1 d" by simp
      moreover have "case c_usage_limit d of None \<Rightarrow> True | Some l \<Rightarrow> c_usage_count d < l"
        using h lim [OF d True] by simp
      ultimately show ?thesis
        using bal True by (auto simp: eff(1,2) table_simps split: option.splits)
    next
      case False
      with cd have "c = d" by simp
      with bal cap False show ?thesis by (auto simp: eff(1,2) table_simps)
    qed
  qed
  have "cr_coupon_id x \<in> c_id ` set (coupons db')" if "x \<in> set (redemptions db')" for x
  proof -
    have "set (map c_id (coupons db')) = set (map c_id (coupons db))" by (simp only: ids)
    moreover have "cr_coupon_id x \<in> set (map c_id (coupons db))"
      using that inv snap
      by (auto simp: eff(1,2) coupon_books_balance_def is_snapshot_def image_iff eq_commute [of "c_id coupon"])
    ultimately show ?thesis by (simp only: list.set_map)
  qed
  moreover have "distinct (map cr_id (redemptions db'))"
    using inv fresh by (simp add: eff(1,2) coupon_books_balance_def)
  ultimately show ?thesis
    using inv rows ids unfolding coupon_books_balance_def by simp
qed

lemma count_rows_remove:
  assumes "distinct (map k t)" and "r \<in> set t"
  shows "count_rows P (delete_rows (\<lambda>x. k x = k r) t) = count_rows P t - (if P r then 1 else 0)"
  using assms
proof (induction t)
  case (Cons a t)
  show ?case
  proof (cases "a = r")
    case True
    with Cons.prems have "delete_rows (\<lambda>x. k x = k r) t = t"
      by (fastforce simp: delete_rows_def filter_id_conv image_iff)
    with True show ?thesis by (simp add: delete_rows_def)
  next
    case False
    with Cons.prems have "k a \<noteq> k r" "r \<in> set t" by auto
    moreover have "P r \<Longrightarrow> count_rows P t \<noteq> 0" using calculation by (auto simp: count_rows_zero)
    ultimately show ?thesis using Cons by (auto simp: delete_rows_def)
  qed
qed simp

lemma count_rows_pos: "r \<in> set t \<Longrightarrow> P r \<Longrightarrow> 0 < count_rows P t"
  by (metis count_rows_zero neq0_conv)

lemma release_one_balance:
  assumes inv: "coupon_books_balance db" and r: "r \<in> set (redemptions db)"
  shows "coupon_books_balance (release_one r db)"
proof -
  let ?hit = "\<lambda>c. c_id c = cr_coupon_id r \<and> c_usage_count c > 0"
  have rows: "c_usage_count c = int (count_rows (\<lambda>x. cr_coupon_id x = c_id c) (redemptions (release_one r db))) \<and>
      (case c_usage_limit c of None \<Rightarrow> True | Some l \<Rightarrow> c_usage_count c \<le> l)"
    if c: "c \<in> set (coupons (release_one r db))" for c
  proof -
    from c obtain d where d: "d \<in> set (coupons db)" and cd: "c = (if ?hit d then bump_usage (- 1) d else d)"
      by (auto simp: release_one_def set_update_rows)
    have bal: "c_usage_count d = int (count_rows (\<lambda>x. cr_coupon_id x = c_id d) (redemptions db))"
      and cap: "case c_usage_limit d of None \<Rightarrow> True | Some l \<Rightarrow> c_usage_count d \<le> l"
      and dist: "distinct (map cr_id (redemptions db))"
      using inv d by (auto simp: coupon_books_balance_def)
    have del: "count_rows (\<lambda>x. cr_coupon_id x = c_id d) (redemptions (release_one r db)) =
        count_rows (\<lambda>x. cr_coupon_id x = c_id d) (redemptions db) - (if cr_coupon_id r = c_id d then 1 else 0)"
      using count_rows_remove [OF dist r] by (simp add: release_one_def)
    show ?thesis
    proof (cases "c_id d = cr_coupon_id r")
      case True
      with r have "0 < count_rows (\<lambda>x. cr_coupon_id x = c_id d) (redemptions db)"
        by (intro count_rows_pos) auto
      with bal cd True have "c = bump_usage (- 1) d" by simp
      with True bal cap del \<open>0 < _\<close> show ?thesis by (auto split: option.splits)
    next
      case False
      with cd have "c = d" by simp
      with False bal cap del show ?thesis by auto
    qed
  qed
  have ids: "map c_id (coupons (release_one r db)) = map c_id (coupons db)"
    by (simp add: release_one_def map_update_rows)
  have "set (map c_id (coupons (release_one r db))) = set (map c_id (coupons db))"
    by (simp only: ids)
  then have "\<forall>x \<in> set (redemptions (release_one r db)).
      cr_coupon_id x \<in> c_id ` set (coupons (release_one r db))"
    using inv by (auto simp: coupon_books_balance_def release_one_def delete_rows_def)
  moreover have "distinct (map cr_id (redemptions (release_one r db)))"
    using inv by (auto simp: coupon_books_balance_def release_one_def delete_rows_def distinct_map
        intro: inj_on_subset)
  ultimately show ?thesis
    using inv rows ids by (simp add: coupon_books_balance_def)
qed

lemma fold_release_balance:
  assumes "coupon_books_balance db" and "set rs \<subseteq> set (redemptions db)"
    and "distinct (map cr_id rs)"
  shows "coupon_books_balance (fold release_one rs db)"
  using assms
proof (induction rs arbitrary: db)
  case (Cons r rs)
  have "set rs \<subseteq> set (redemptions (release_one r db))"
    using Cons.prems by (auto simp: release_one_def delete_rows_def image_iff)
  with Cons release_one_balance [of db r] show ?case by simp
qed simp

lemma release_balance:
  assumes "coupon_books_balance db"
  shows "coupon_books_balance (release db order_id)"
  unfolding release_def release_rows_def
  by (rule fold_release_balance [OF assms])
    (use assms in \<open>auto simp: coupon_books_balance_def distinct_map intro: inj_on_subset\<close>)

subsection \<open>The life of a coupon\<close>

text \<open>
  What happens to the two tables over the life of a coupon: concurrent checkouts redeem it,
  each with the copy of the row it loaded at some earlier time (so with any stale counter),
  and cancelled, failed and expired orders release it. A release under way is the list of rows
  it has read and not yet given back; checkouts and releases of other orders may come between
  any two of its steps. One order is not released twice at the same time: that case is the
  lemma after the theorem. A redemption that raises rolls its transaction back, so it is no
  step.
\<close>

type_synonym releases = "(uuid \<times> coupon_redemption list) list"

inductive coupon_step :: "payment_db \<times> releases \<Rightarrow> payment_db \<times> releases \<Rightarrow> bool" where
  redeem_step: "is_snapshot db coupon \<Longrightarrow> new_id \<notin> cr_id ` set (redemptions db) \<Longrightarrow>
    redeem db coupon order_id user_id discount new_id = Inr (db', r) \<Longrightarrow> coupon_step (db, pend) (db', pend)"
| release_reads: "order_id \<notin> fst ` set pend \<Longrightarrow> coupon_step (db, pend) (db, (order_id, release_rows db order_id) # pend)"
| release_works: "coupon_step (db, xs @ (order_id, r # rs) # ys) (release_one r db, xs @ (order_id, rs) # ys)"
| release_ends: "coupon_step (db, xs @ (order_id, []) # ys) (db, xs @ ys)"

definition releases_ok :: "payment_db \<Rightarrow> releases \<Rightarrow> bool" where
  "releases_ok db pend \<longleftrightarrow> distinct (map cr_id (concat (map snd pend))) \<and> set (concat (map snd pend)) \<subseteq> set (redemptions db)
     \<and> (\<forall>(order_id, rs) \<in> set pend. \<forall>r \<in> set rs. cr_order_id r = order_id)"

lemma release_reads_ok:
  assumes "coupon_books_balance db" and "releases_ok db pend" and "order_id \<notin> fst ` set pend"
  shows "releases_ok db ((order_id, release_rows db order_id) # pend)"
proof -
  have ids: "distinct (map cr_id (redemptions db))" using assms(1) by (simp add: coupon_books_balance_def)
  have "cr_id r \<noteq> cr_id x" if r: "r \<in> set (release_rows db order_id)" and x: "x \<in> set (concat (map snd pend))" for r x
  proof
    assume "cr_id r = cr_id x"
    moreover have "r \<in> set (redemptions db)" "x \<in> set (redemptions db)"
      using r x assms(2) by (auto simp: release_rows_def releases_ok_def)
    ultimately have "r = x" using ids by (auto simp: distinct_map dest: inj_onD)
    moreover obtain o1 rs where "(o1, rs) \<in> set pend" "x \<in> set rs" using x by auto
    moreover from this have "cr_order_id x = o1" using assms(2) by (auto simp: releases_ok_def)
    ultimately show False using r assms(3) by (force simp: release_rows_def)
  qed
  moreover have "distinct (map cr_id (release_rows db order_id))" using ids by (simp add: release_rows_def distinct_map_filter)
  ultimately show ?thesis using assms(2) by (fastforce simp: releases_ok_def release_rows_def)
qed

lemma released_others:
  "A \<subseteq> set (redemptions db) \<Longrightarrow> cr_id r \<notin> cr_id ` A \<Longrightarrow> A \<subseteq> set (redemptions (release_one r db))"
  by (auto simp: release_one_def delete_rows_def image_iff)

lemma coupon_step_balance:
  "coupon_step c c' \<Longrightarrow> coupon_books_balance (fst c) \<and> releases_ok (fst c) (snd c)
     \<Longrightarrow> coupon_books_balance (fst c') \<and> releases_ok (fst c') (snd c')"
proof (induction rule: coupon_step.induct)
  case (redeem_step db coupon new_id order_id user_id discount db' r pend)
  have "coupon_books_balance db'" using redeem_balance redeem_step by simp blast
  moreover have "set (redemptions db) \<subseteq> set (redemptions db')" using redeem_effect(1) [OF redeem_step(3)] by auto
  ultimately show ?case using redeem_step.prems by (auto simp: releases_ok_def)
next
  case (release_reads order_id pend db)
  then show ?case using release_reads_ok by simp
next
  case (release_works db xs order_id r rs ys)
  let ?rest = "concat (map snd xs) @ rs @ concat (map snd ys)"
  have d: "distinct (map cr_id (concat (map snd xs) @ r # rs @ concat (map snd ys)))"
    and sub: "set (concat (map snd xs) @ r # rs @ concat (map snd ys)) \<subseteq> set (redemptions db)"
    and own: "\<forall>(order_id, rs) \<in> set (xs @ (order_id, rs) # ys). \<forall>r \<in> set rs. cr_order_id r = order_id"
    using release_works by (auto simp: releases_ok_def)
  have "cr_id r \<notin> cr_id ` set ?rest" using d by auto
  then have "set ?rest \<subseteq> set (redemptions (release_one r db))"
    using sub by (intro released_others) auto
  moreover have "distinct (map cr_id ?rest)" using d by auto
  ultimately have "releases_ok (release_one r db) (xs @ (order_id, rs) # ys)" using own by (simp add: releases_ok_def)
  moreover have "coupon_books_balance (release_one r db)" using release_works sub by (intro release_one_balance) auto
  ultimately show ?case by simp
next
  case (release_ends db xs order_id ys)
  then show ?case by (auto simp: releases_ok_def)
qed

text \<open>
  C10: However checkouts and releases of different orders interleave, with however stale a
  copy of the coupon each checkout holds and at whatever point between a release's read and
  its writes, the usage counter of every coupon stays equal to the number of its redemption
  rows and never exceeds its usage limit: a limited coupon is never oversold and a released
  use is never lost. (One order must not be released twice at the same time.)
\<close>

theorem coupon_never_oversold:
  assumes "coupon_step\<^sup>*\<^sup>* (db, []) (db', pend)" and "coupon_books_balance db"
  shows "coupon_books_balance db'"
proof -
  have "coupon_books_balance (fst c) \<and> releases_ok (fst c) (snd c)" if "coupon_step\<^sup>*\<^sup>* (db, []) c" for c
    using that assms(2) by (induction rule: rtranclp_induct) (simp add: releases_ok_def, blast dest: coupon_step_balance)
  from this [OF assms(1)] show ?thesis by simp
qed

text \<open>
  Two releases of one order that overlap, such as a cancellation and the sweep of expired
  orders, both read the redemption and both lower the counter: it ends below the number of
  redemption rows, and the coupon can be used once more than its limit.
\<close>

lemma overlapping_releases_drift:
  assumes "coupon_books_balance db" and "r \<in> set (redemptions db)" and "c \<in> set (coupons db)"
    and "c_id c = cr_coupon_id r" and "2 \<le> c_usage_count c"
  shows "\<exists>c' \<in> set (coupons (release_one r (release_one r db))). c_id c' = c_id c
    \<and> c_usage_count c' + 1 = int (count_rows (\<lambda>x. cr_coupon_id x = c_id c) (redemptions (release_one r (release_one r db))))"
proof -
  let ?P = "\<lambda>x. cr_coupon_id x = c_id c"
  have bal: "c_usage_count c = int (count_rows ?P (redemptions db))" "distinct (map cr_id (redemptions db))"
    using assms(1,3) by (auto simp: coupon_books_balance_def)
  have "redemptions (release_one r (release_one r db)) = delete_rows (\<lambda>x. cr_id x = cr_id r) (redemptions db)"
    by (simp add: release_one_def delete_rows_def)
  then have "count_rows ?P (redemptions (release_one r (release_one r db))) = count_rows ?P (redemptions db) - 1"
    using count_rows_remove [OF bal(2) assms(2), of ?P] assms(4) by simp
  moreover have "bump_usage (- 1) (bump_usage (- 1) c) \<in> set (coupons (release_one r (release_one r db)))"
    using assms(3-5) by (force simp: release_one_def set_update_rows image_iff)
  ultimately show ?thesis using bal(1) assms(5) by (intro bexI [of _ "bump_usage (- 1) (bump_usage (- 1) c)"]) auto
qed

text \<open>
  Redeeming a coupon and then releasing the order gives back exactly what was taken: the
  coupon table and the redemption table are what they were.
\<close>

lemma release_undoes_redeem:
  assumes "redeem db coupon order_id user_id discount new_id = Inr (db', r)"
    and "new_id \<notin> cr_id ` set (redemptions db)"
    and "\<forall>x \<in> set (redemptions db). cr_order_id x \<noteq> order_id"
    and "coupon_books_balance db"
  shows "release db' order_id = db"
proof -
  note eff = redeem_effect [OF assms(1)]
  let ?hit = "\<lambda>c. c_id c = c_id coupon \<and>
    (case c_usage_limit coupon of None \<Rightarrow> True | Some l \<Rightarrow> c_usage_count c < l)"
  have "filter (\<lambda>x. cr_order_id x = order_id) (redemptions db') = [r]"
    using assms(3) by (simp add: eff(1,2) filter_empty_conv)
  then have rel: "release db' order_id = release_one r db'" by (simp add: release_def release_rows_def)
  have red: "delete_rows (\<lambda>x. cr_id x = cr_id r) (redemptions db @ [r]) = redemptions db"
    using assms(2) by (auto simp: delete_rows_def eff(2) filter_id_conv image_iff)
  have uniq: "c = d" if "c \<in> set (coupons db)" "d \<in> set (coupons db)" "c_id c = c_id d" for c d
    using assms(4) that unfolding coupon_books_balance_def by (metis distinct_map inj_onD)
  have row: "(let c' = (if ?hit c then bump_usage 1 c else c)
              in if c_id c' = c_id coupon \<and> c_usage_count c' > 0 then bump_usage (- 1) c' else c') = c"
    if c: "c \<in> set (coupons db)" for c
  proof (cases "c_id c = c_id coupon")
    case True
    have "?hit c"
    proof (cases "c_usage_limit coupon")
      case (Some l)
      with eff(3) obtain d where "d \<in> set (coupons db)" "c_id d = c_id coupon" "c_usage_count d < l"
        by auto
      with uniq [of c d] c Some True show ?thesis by auto
    qed (simp add: True)
    moreover have "0 \<le> c_usage_count c" using assms(4) c by (auto simp: coupon_books_balance_def)
    ultimately show ?thesis using True by (auto simp: Let_def)
  qed simp
  have "update_rows (\<lambda>c. c_id c = c_id coupon \<and> c_usage_count c > 0) (bump_usage (- 1))
      (update_rows ?hit (bump_usage 1) (coupons db)) = coupons db"
    using row unfolding update_rows_def map_map comp_def Let_def by (intro map_idI) auto
  with rel red show ?thesis by (simp add: eff(1,2) release_one_def)
qed

definition sample_coupon :: coupon where
  "sample_coupon = \<lparr>c_id = 7, c_code = ''SAVE10'', c_description = None, c_coupon_type = Percent,
     c_value = 10, c_max_discount_minor = Some 5000, c_min_order_minor = 0, c_currency = None,
     c_usage_limit = Some 2, c_usage_count = 0, c_per_user_limit = 1, c_valid_from = None,
     c_valid_until = None, c_is_active = True, c_applicable_book_ids = [],
     c_applicable_category_ids = [], c_created_at = 0\<rparr>"

definition sample_coupon_db :: payment_db where
  "sample_coupon_db = empty_db\<lparr>coupons := [sample_coupon]\<rparr>"

lemma sample_balance: "coupon_books_balance sample_coupon_db"
  by (simp add: coupon_books_balance_def sample_coupon_db_def empty_db_def sample_coupon_def)

lemma sample_redeem:
  "redeem sample_coupon_db sample_coupon 40 9 100 11 =
     Inr (sample_coupon_db\<lparr>coupons := [sample_coupon\<lparr>c_usage_count := 1\<rparr>],
            redemptions := [\<lparr>cr_id = 11, cr_coupon_id = 7, cr_order_id = 40, cr_user_id = 9,
              cr_discount_minor = 100\<rparr>]\<rparr>,
          \<lparr>cr_id = 11, cr_coupon_id = 7, cr_order_id = 40, cr_user_id = 9, cr_discount_minor = 100\<rparr>)"
  by (simp add: redeem_def consume_use_def sample_coupon_db_def sample_coupon_def empty_db_def
      bump_usage_def insert_unique_def Let_def)

theorem coupon_never_oversold_witness:
  "coupon_books_balance (sample_coupon_db\<lparr>coupons := [sample_coupon\<lparr>c_usage_count := 1\<rparr>],
     redemptions := [\<lparr>cr_id = 11, cr_coupon_id = 7, cr_order_id = 40, cr_user_id = 9,
       cr_discount_minor = 100\<rparr>]\<rparr>)"
proof (rule coupon_never_oversold [OF _ sample_balance])
  have "is_snapshot sample_coupon_db sample_coupon"
    by (simp add: is_snapshot_def sample_coupon_db_def)
  from redeem_step [OF this _ sample_redeem]
  show "coupon_step\<^sup>*\<^sup>* (sample_coupon_db, []) (sample_coupon_db\<lparr>coupons := [sample_coupon\<lparr>c_usage_count := 1\<rparr>],
     redemptions := [\<lparr>cr_id = 11, cr_coupon_id = 7, cr_order_id = 40, cr_user_id = 9,
       cr_discount_minor = 100\<rparr>]\<rparr>, [])"
    by (intro r_into_rtranclp) (simp add: sample_coupon_db_def empty_db_def)
qed

subsection \<open>What a positive evaluation means\<close>

text \<open>
  A code is accepted for a cart exactly when some coupon has that code and every gate
  passes (active, inside its validity window, same currency, uses left overall and for this
  customer, minimum order met, a positive discount on the eligible lines); and the discount
  granted is then positive, at most the eligible part of the cart (hence at most the
  subtotal), and at most the cap of a percentage coupon.
\<close>

lemma coupon_evaluation_sound:
  assumes "\<forall>l \<in> set lines. 0 \<le> snd l"
  shows "let ev = evaluate db now (Some code) user lines books currency
         in (ce_valid ev \<longleftrightarrow> code \<noteq> [] \<and> (\<exists>c. find_coupon db code = Some c \<and>
               coupon_applies db now c user lines books currency))
          \<and> (ce_valid ev \<longrightarrow> (\<exists>c. ce_coupon ev = Some c \<and> c_code c = normalise_code code
              \<and> 0 < ce_discount_minor ev
              \<and> ce_discount_minor ev \<le> eligible_subtotal c lines books
              \<and> eligible_subtotal c lines books \<le> line_sum lines
              \<and> (\<forall>m \<ge> 0. c_coupon_type c = Percent \<longrightarrow> c_max_discount_minor c = Some m \<longrightarrow>
                   ce_discount_minor ev \<le> m)))"
proof -
  let ?ev = "evaluate db now (Some code) user lines books currency"
  have "\<exists>c. ce_coupon ?ev = Some c \<and> c_code c = normalise_code code \<and> 0 < ce_discount_minor ?ev
      \<and> ce_discount_minor ?ev \<le> eligible_subtotal c lines books
      \<and> eligible_subtotal c lines books \<le> line_sum lines
      \<and> (\<forall>m \<ge> 0. c_coupon_type c = Percent \<longrightarrow> c_max_discount_minor c = Some m \<longrightarrow>
           ce_discount_minor ?ev \<le> m)"
    if v: "ce_valid ?ev"
  proof -
    from v obtain c where c: "code \<noteq> []" "find_coupon db code = Some c" and ev: "?ev =
        \<lparr>ce_valid = True, ce_discount_minor = discount_for c (eligible_subtotal c lines books),
         ce_coupon = Some c, ce_reason = None\<rparr>"
      by (rule evaluate_valid_eq) auto
    have "coupon_applies db now c user lines books currency"
      using v evaluate_valid_iff [OF c(2,1)] by simp
    then have pos: "0 < discount_for c (eligible_subtotal c lines books)"
      by (simp add: coupon_applies_def)
    then have "0 \<le> eligible_subtotal c lines books"
      by (auto simp: discount_for_def split: if_splits)
    with pos c ev assms show ?thesis
      by (auto simp: find_coupon_def dest: first_row_Some
          intro!: discount_for_bounds discount_for_capped eligible_le_subtotal)
  qed
  moreover have "ce_valid ?ev \<longleftrightarrow> code \<noteq> [] \<and> (\<exists>c. find_coupon db code = Some c \<and>
      coupon_applies db now c user lines books currency)"
    using evaluate_valid_iff [of db code _ now user lines books currency]
    by (metis evaluate_valid_eq option.inject)
  ultimately show ?thesis by (simp add: Let_def)
qed

lemma sample_evaluation:
  "evaluate sample_coupon_db 0 (Some ''SAVE10'') None [(3, 20000)] [] ''INR'' =
     \<lparr>ce_valid = True, ce_discount_minor = 2000, ce_coupon = Some sample_coupon, ce_reason = None\<rparr>"
  by code_simp

end
