(* ===== verification/Pricing.thy ===== *)
theory Pricing
  imports Tax Coupons
begin

section \<open>Turning a cart into an amount\<close>

text \<open>
  \<open>apps/payment/services/pricing.py\<close> and the request fragments of \<open>schemas.py\<close> it reads:
  \<open>PricingService.quote\<close> and \<open>PricedCart.assert_consistent\<close>. The quote takes the catalogue
  environment (price cache and books service), the database (coupons) and the clock; it
  returns the priced cart with the cache entries the lookup wrote. The lemmas show that the
  defensive check of the source never fires on catalogue prices that are not negative, and
  that the amounts of a quote are those of its lines.
\<close>

record billing_address =
  ba_line1 :: "string option"
  ba_line2 :: "string option"
  ba_city :: "string option"
  ba_state :: "string option"
  ba_state_code :: "string option"
  ba_postal_code :: "string option"
  ba_country :: string
  ba_gstin :: "string option"

record order_item_in =
  in_book_id :: uuid
  in_quantity :: int

definition valid_item_in :: "order_item_in \<Rightarrow> bool" where
  "valid_item_in i \<longleftrightarrow> 1 \<le> in_quantity i \<and> in_quantity i \<le> 20"

definition valid_items :: "order_item_in list \<Rightarrow> bool" where
  "valid_items items \<longleftrightarrow>
     1 \<le> length items \<and> length items \<le> 50 \<and> list_all valid_item_in items \<and>
     card (set (map in_book_id items)) = length items"

record quote_line =
  ql_book_id :: uuid
  ql_title :: string
  ql_slug :: "string option"
  ql_quantity :: int
  ql_unit_price_minor :: money
  ql_line_total_minor :: money
  ql_already_owned :: bool

record PricedCart =
  pc_lines :: "quote_line list"
  pc_subtotal_minor :: money
  pc_discount_minor :: money
  pc_taxable_minor :: money
  pc_tax :: TaxResult
  pc_total_minor :: money
  pc_currency :: string
  pc_tax_inclusive :: bool
  pc_coupon_id :: "uuid option"
  pc_coupon_code :: "string option"
  pc_coupon_message :: "coupon_reason option"
  pc_coupon_applied :: bool
  pc_books :: "(uuid \<times> CatalogueBook) list"

definition assert_consistent :: "PricedCart \<Rightarrow> unit result" where
  "assert_consistent cart =
     (let expected = pc_subtotal_minor cart - pc_discount_minor cart
            + (if pc_tax_inclusive cart then 0 else tr_total_minor (pc_tax cart))
      in if expected \<noteq> pc_total_minor cart then Inl (PyExn ''RuntimeError'')
         else if pc_taxable_minor cart + tr_total_minor (pc_tax cart) \<noteq> pc_total_minor cart
         then Inl (PyExn ''RuntimeError'')
         else Inr ())"

text \<open>The loop over the requested items: the quote's lines and \<open>line_totals\<close>.\<close>

fun price_lines ::
  "(uuid \<times> CatalogueBook) list \<Rightarrow> uuid set \<Rightarrow> order_item_in list \<Rightarrow> quote_line list \<Rightarrow> line_totals \<Rightarrow>
   (quote_line list \<times> line_totals) result" where
  "price_lines books owned [] lines totals = Inr (lines, totals)"
| "price_lines books owned (item # items) lines totals =
     (case map_of books (in_book_id item) of None \<Rightarrow> Inl (PyExn ''KeyError'')
      | Some book \<Rightarrow>
          (let line_total = cb_price_minor book * in_quantity item
           in price_lines books owned items
                (lines @ [\<lparr>ql_book_id = cb_id book, ql_title = cb_title book,
                   ql_slug = Some (cb_slug book), ql_quantity = in_quantity item,
                   ql_unit_price_minor = cb_price_minor book, ql_line_total_minor = line_total,
                   ql_already_owned = cb_id book \<in> owned\<rparr>])
                (dict_set totals (cb_id book) line_total)))"

text \<open>From the priced lines to the cart: coupon, tax and totals.\<close>

definition build_cart ::
  "payment_db \<Rightarrow> settings \<Rightarrow> timestamp \<Rightarrow> (uuid \<times> CatalogueBook) list \<Rightarrow> quote_line list \<Rightarrow>
   line_totals \<Rightarrow> uuid option \<Rightarrow> string \<Rightarrow> string option \<Rightarrow> billing_address option \<Rightarrow> PricedCart" where
  "build_cart db st now books lines totals user_id currency coupon_code billing =
     (let subtotal = line_sum totals;
          ev = (if truthy coupon_code then evaluate db now coupon_code user_id totals books currency
                else refuse None None);
          applied = truthy coupon_code \<and> ce_valid ev \<and> ce_coupon ev \<noteq> None;
          discount = (if applied then ce_discount_minor ev else 0);
          payable = max 0 (subtotal - discount);
          tax = compute_tax payable (gst_percent st) (seller_state_code st)
                  (case billing of None \<Rightarrow> None | Some b \<Rightarrow> ba_state_code b)
                  (case billing of None \<Rightarrow> Some ''IN'' | Some b \<Rightarrow> Some (ba_country b))
                  (prices_include_tax st)
      in \<lparr>pc_lines = lines, pc_subtotal_minor = subtotal, pc_discount_minor = discount,
          pc_taxable_minor = (if prices_include_tax st then tr_taxable_minor tax else payable),
          pc_tax = tax,
          pc_total_minor = (if prices_include_tax st then payable else payable + tr_total_minor tax),
          pc_currency = currency, pc_tax_inclusive = prices_include_tax st,
          pc_coupon_id = (if applied then map_option c_id (ce_coupon ev) else None),
          pc_coupon_code = (if truthy coupon_code
                            then Some (str_upper (str_strip (opt_default coupon_code ''''))) else None),
          pc_coupon_message = (if truthy coupon_code \<and> \<not> applied then ce_reason ev else None),
          pc_coupon_applied = applied, pc_books = books\<rparr>)"

definition quote ::
  "payment_db \<Rightarrow> settings \<Rightarrow> catalogue_env \<Rightarrow> timestamp \<Rightarrow> order_item_in list \<Rightarrow> uuid option \<Rightarrow>
   string \<Rightarrow> string option \<Rightarrow> billing_address option \<Rightarrow> bool \<Rightarrow> bool \<Rightarrow>
   (PricedCart \<times> cache_write list) result" where
  "quote db st env now items user_id currency coupon_code billing exclude_owned purchasable_only =
     (if items = [] then Inl (raise_default BadRequestError)
      else if length items > max_order_items st then Inl (raise_default BadRequestError)
      else
        let book_ids = map in_book_id items in
        case (if purchasable_only then require_purchasable env book_ids else fetch env book_ids) of
          Inl e \<Rightarrow> Inl e
        | Inr (books, writes) \<Rightarrow>
            if filter (\<lambda>(u, b). str_upper (cb_currency b) \<noteq> currency) books \<noteq> []
            then Inl (raise_code BadRequestError ''currency_mismatch'')
            else
              case (if exclude_owned \<and> user_id \<noteq> None
                    then owned_book_ids env (opt_default user_id 0) book_ids else Inr {}) of
                Inl e \<Rightarrow> Inl e
              | Inr owned \<Rightarrow>
                  (case price_lines books owned items [] [] of Inl e \<Rightarrow> Inl e
                   | Inr (lines, totals) \<Rightarrow>
                       (let cart = build_cart db st now books lines totals user_id currency
                              coupon_code billing
                        in case assert_consistent cart of Inl e \<Rightarrow> Inl e
                           | Inr _ \<Rightarrow> Inr (cart, writes))))"

subsection \<open>Lemmas: lines\<close>

text \<open>The catalogue keeps every book under its own id.\<close>

definition books_keyed :: "(uuid \<times> CatalogueBook) list \<Rightarrow> bool" where
  "books_keyed books \<longleftrightarrow> (\<forall>(u, b) \<in> set books. cb_id b = u)"

lemma books_keyed_lookup: "books_keyed books \<Longrightarrow> map_of books u = Some b \<Longrightarrow> cb_id b = u"
  by (auto simp: books_keyed_def dest: map_of_SomeD)

lemma price_lines_totals:
  assumes "price_lines books owned items lines totals = Inr (lines', totals')"
    and "books_keyed books" and "distinct (map in_book_id items)"
    and "fst ` set totals \<inter> set (map in_book_id items) = {}"
    and "line_sum totals = sum_list (map ql_line_total_minor lines)"
  shows "line_sum totals' = sum_list (map ql_line_total_minor lines')"
  using assms
proof (induction items arbitrary: lines totals)
  case (Cons item items)
  from Cons.prems(1) obtain b where b: "map_of books (in_book_id item) = Some b"
    by (auto split: option.splits)
  from books_keyed_lookup [OF Cons.prems(2) this] have id: "cb_id b = in_book_id item" .
  with Cons.prems(4) have new: "dict_set totals (cb_id b) v = totals @ [(cb_id b, v)]" for v
    by (intro dict_set_new) auto
  from Cons.prems(1) have step: "price_lines books owned items
      (lines @ [\<lparr>ql_book_id = cb_id b, ql_title = cb_title b, ql_slug = Some (cb_slug b),
        ql_quantity = in_quantity item, ql_unit_price_minor = cb_price_minor b,
        ql_line_total_minor = cb_price_minor b * in_quantity item,
        ql_already_owned = cb_id b \<in> owned\<rparr>])
      (totals @ [(cb_id b, cb_price_minor b * in_quantity item)]) = Inr (lines', totals')"
    by (simp add: b Let_def new)
  from Cons.prems b id show ?case
    by (intro Cons.IH [OF step]) (auto simp: line_sum_def)
qed (auto simp: line_sum_def)

definition line_faithful :: "(uuid \<times> CatalogueBook) list \<Rightarrow> uuid set \<Rightarrow> order_item_in \<Rightarrow> quote_line \<Rightarrow> bool" where
  "line_faithful books owned item line \<longleftrightarrow>
     (case map_of books (in_book_id item) of None \<Rightarrow> False
      | Some b \<Rightarrow> ql_book_id line = cb_id b \<and> ql_title line = cb_title b
          \<and> ql_quantity line = in_quantity item \<and> ql_unit_price_minor line = cb_price_minor b
          \<and> ql_line_total_minor line = cb_price_minor b * in_quantity item
          \<and> (ql_already_owned line \<longleftrightarrow> cb_id b \<in> owned))"

lemma price_lines_faithful:
  assumes "price_lines books owned items lines totals = Inr (lines', totals')"
  shows "\<exists>new. lines' = lines @ new \<and> list_all2 (line_faithful books owned) items new"
  using assms
proof (induction items arbitrary: lines totals)
  case (Cons item items)
  from Cons.prems obtain b where b: "map_of books (in_book_id item) = Some b"
    by (auto split: option.splits)
  from Cons.prems b Cons.IH show ?case
    by (fastforce simp: Let_def line_faithful_def)
qed simp

lemma price_lines_nonneg:
  assumes "price_lines books owned items lines totals = Inr (lines', totals')"
    and "\<forall>(u, b) \<in> set books. 0 \<le> cb_price_minor b" and "\<forall>i \<in> set items. 0 \<le> in_quantity i"
    and "\<forall>l \<in> set totals. 0 \<le> snd l"
  shows "\<forall>l \<in> set totals'. 0 \<le> snd l"
proof -
  have upd: "\<forall>l \<in> set (dict_set d k v). 0 \<le> snd l" if "\<forall>l \<in> set d. 0 \<le> snd l" "0 \<le> v"
    for d :: line_totals and k v
    using that by (induction d k v rule: dict_set.induct) auto
  show ?thesis
    using assms
  proof (induction items arbitrary: lines totals)
    case (Cons item items)
    from Cons.prems obtain b where b: "map_of books (in_book_id item) = Some b"
      by (auto split: option.splits)
    with Cons.prems(2) have "0 \<le> cb_price_minor b" by (auto dest!: map_of_SomeD)
    with Cons.prems(3,4)
    have "\<forall>l \<in> set (dict_set totals (cb_id b) (cb_price_minor b * in_quantity item)). 0 \<le> snd l"
      by (intro upd) auto
    from Cons.IH [OF _ _ _ this] Cons.prems b show ?case by (auto simp: Let_def)
  qed simp
qed

subsection \<open>Lemmas: totals\<close>

lemma evaluate_discount_bounds:
  assumes "\<forall>l \<in> set lines. 0 \<le> snd l" and "ce_valid (evaluate db now code user lines books currency)"
  shows "0 < ce_discount_minor (evaluate db now code user lines books currency)"
    and "ce_discount_minor (evaluate db now code user lines books currency) \<le> line_sum lines"
proof -
  from assms(2) obtain s c where code: "code = Some s" "s \<noteq> []" and c: "find_coupon db s = Some c"
    and ev: "evaluate db now code user lines books currency =
      \<lparr>ce_valid = True, ce_discount_minor = discount_for c (eligible_subtotal c lines books),
       ce_coupon = Some c, ce_reason = None\<rparr>"
    by (rule evaluate_valid_eq)
  have pos: "0 < discount_for c (eligible_subtotal c lines books)"
    using assms(2) evaluate_valid_iff [OF c code(2)] code(1) by (simp add: coupon_applies_def)
  then show "0 < ce_discount_minor (evaluate db now code user lines books currency)" by (simp add: ev)
  from pos have "0 \<le> eligible_subtotal c lines books"
    by (auto simp: discount_for_def split: if_splits)
  then have "discount_for c (eligible_subtotal c lines books) \<le> eligible_subtotal c lines books"
    by (rule discount_for_bounds(2))
  also have "\<dots> \<le> line_sum lines" using assms(1) by (intro eligible_le_subtotal) auto
  finally show "ce_discount_minor (evaluate db now code user lines books currency) \<le> line_sum lines"
    by (simp add: ev)
qed

lemma build_cart_amounts:
  assumes "\<forall>l \<in> set totals. 0 \<le> snd l"
    and cart_def: "cart = build_cart db st now books lines totals user currency code billing"
  shows "pc_subtotal_minor cart = line_sum totals"
    and "0 \<le> pc_discount_minor cart" and "pc_discount_minor cart \<le> pc_subtotal_minor cart"
    and "assert_consistent cart = Inr ()"
proof -
  show sub: "pc_subtotal_minor cart = line_sum totals"
    by (simp add: cart_def build_cart_def Let_def)
  have nonneg: "0 \<le> line_sum totals"
    using assms(1) unfolding line_sum_def by (intro sum_list_nonneg) auto
  show disc: "0 \<le> pc_discount_minor cart" "pc_discount_minor cart \<le> pc_subtotal_minor cart"
    using evaluate_discount_bounds [OF assms(1), of db now code user books currency] nonneg
    by (auto simp: cart_def build_cart_def Let_def sub)
  let ?p = "line_sum totals - pc_discount_minor cart"
  let ?pos = "case billing of None \<Rightarrow> None | Some b \<Rightarrow> ba_state_code b"
  let ?cty = "case billing of None \<Rightarrow> Some ''IN'' | Some b \<Rightarrow> Some (ba_country b)"
  define tax where "tax = compute_tax ?p (gst_percent st) (seller_state_code st) ?pos ?cty (prices_include_tax st)"
  have "max 0 ?p = ?p" using disc sub by simp
  then have "pc_tax cart = tax" and "pc_tax_inclusive cart = prices_include_tax st"
    and "pc_taxable_minor cart = (if prices_include_tax st then tr_taxable_minor tax else ?p)"
    and "pc_total_minor cart = (if prices_include_tax st then ?p else ?p + tr_total_minor tax)"
    by (auto simp: tax_def cart_def build_cart_def Let_def)
  moreover have "tr_taxable_minor tax + tr_total_minor tax =
      ?p + (if prices_include_tax st then 0 else tr_total_minor tax)"
    using compute_tax_gross [of ?p "gst_percent st" "seller_state_code st" ?pos ?cty "prices_include_tax st"]
      \<open>max 0 ?p = ?p\<close> unfolding gross_minor_def tax_def by simp
  ultimately show "assert_consistent cart = Inr ()"
    by (auto simp: assert_consistent_def sub Let_def)
qed

lemma assert_consistent_iff:
  "assert_consistent cart = Inr () \<longleftrightarrow>
     pc_total_minor cart = pc_subtotal_minor cart - pc_discount_minor cart
       + (if pc_tax_inclusive cart then 0 else tr_total_minor (pc_tax cart)) \<and>
     pc_total_minor cart = pc_taxable_minor cart + tr_total_minor (pc_tax cart)"
  by (auto simp: assert_consistent_def Let_def)

text \<open>A quote that was returned, opened up.\<close>

lemma quote_cases:
  assumes "quote db st env now items user currency code billing excl purch = Inr (cart, writes)"
  obtains books owned lines totals where
    "(if purch then require_purchasable env (map in_book_id items)
      else fetch env (map in_book_id items)) = Inr (books, writes)"
    "\<forall>(u, b) \<in> set books. str_upper (cb_currency b) = currency"
    "price_lines books owned items [] [] = Inr (lines, totals)"
    "cart = build_cart db st now books lines totals user currency code billing"
    "assert_consistent cart = Inr ()" "items \<noteq> []" "length items \<le> max_order_items st"
  using assms unfolding quote_def Let_def
  by (force simp: filter_empty_conv split: if_splits sum.splits prod.splits)

subsection \<open>Properties\<close>

text \<open>
  C11: A quote adds up, end to end. For a cart of distinct books with valid quantities
  whose catalogue prices are not negative, a quote that is returned has the catalogue's
  price on every line in the order asked; its subtotal is the sum of the lines; the
  discount is between zero and the subtotal; taxable + tax = total; the total is
  subtotal - discount when catalogue prices include tax and subtotal - discount + tax when
  they exclude it (the module's docstring states the first equation only); no amount is
  negative and every line is in the currency of the order.
\<close>

theorem quote_reconciles:
  assumes "quote db st env now items user currency code billing excl purch = Inr (cart, writes)"
    and "valid_items items" and "books_keyed (pc_books cart)"
    and "\<forall>(u, b) \<in> set (pc_books cart). 0 \<le> cb_price_minor b"
  shows "(\<exists>owned. list_all2 (line_faithful (pc_books cart) owned) items (pc_lines cart))
    \<and> pc_subtotal_minor cart = sum_list (map ql_line_total_minor (pc_lines cart))
    \<and> 0 \<le> pc_discount_minor cart \<and> pc_discount_minor cart \<le> pc_subtotal_minor cart
    \<and> pc_total_minor cart = pc_subtotal_minor cart - pc_discount_minor cart
        + (if pc_tax_inclusive cart then 0 else tr_total_minor (pc_tax cart))
    \<and> pc_total_minor cart = pc_taxable_minor cart + tr_total_minor (pc_tax cart)
    \<and> 0 \<le> pc_total_minor cart
    \<and> (\<forall>(u, b) \<in> set (pc_books cart). str_upper (cb_currency b) = currency)"
proof -
  from assms(1) obtain books owned lines totals where q:
    "\<forall>(u, b) \<in> set books. str_upper (cb_currency b) = currency"
    "price_lines books owned items [] [] = Inr (lines, totals)"
    "cart = build_cart db st now books lines totals user currency code billing"
    "assert_consistent cart = Inr ()"
    by (rule quote_cases)
  have cart: "pc_books cart = books" "pc_lines cart = lines"
    by (simp_all add: q(3) build_cart_def Let_def)
  have items: "distinct (map in_book_id items)" "\<forall>i \<in> set items. 0 \<le> in_quantity i"
    using assms(2) by (auto simp: valid_items_def valid_item_in_def list_all_iff card_distinct)
  have nonneg: "\<forall>l \<in> set totals. 0 \<le> snd l"
    by (rule price_lines_nonneg [OF q(2)]) (use assms(4) items cart in auto)
  note amounts = build_cart_amounts [OF nonneg q(3)]
  have "line_sum totals = sum_list (map ql_line_total_minor lines)"
    by (rule price_lines_totals [OF q(2)]) (use assms(3) items cart in \<open>auto simp: line_sum_def\<close>)
  moreover have "list_all2 (line_faithful books owned) items lines"
    using price_lines_faithful [OF q(2)] by simp
  moreover have "0 \<le> pc_total_minor cart"
    using amounts(2,3) q(4) compute_tax_nonneg(1)
    by (auto simp: assert_consistent_iff q(3) build_cart_def Let_def)
  ultimately show ?thesis
    using amounts q(1,4) cart by (auto simp: assert_consistent_iff)
qed

text \<open>
  \<open>assert_consistent\<close>, the check that "should never fire", never fires: whatever the
  coupon, tax rate and buyer location, once the lines are priced with non-negative totals
  the cart that \<open>quote\<close> builds passes it, so \<open>quote\<close> returns the cart.
\<close>

lemma quote_assertion_never_fires:
  assumes "items \<noteq> []" and "length items \<le> max_order_items st"
    and "(if purch then require_purchasable env (map in_book_id items)
          else fetch env (map in_book_id items)) = Inr (books, writes)"
    and "\<forall>(u, b) \<in> set books. str_upper (cb_currency b) = currency \<and> 0 \<le> cb_price_minor b"
    and "owned_book_ids env (opt_default user 0) (map in_book_id items) = Inr owned"
    and "\<forall>i \<in> set items. 0 \<le> in_quantity i"
  shows "\<exists>cart. quote db st env now items user currency code billing excl purch = Inr (cart, writes)"
proof -
  have "set (map in_book_id items) \<subseteq> fst ` set books"
    using assms(3) fetch_total require_purchasable_fetch(1) by (metis (full_types))
  then have keys: "\<forall>i \<in> set items. in_book_id i \<in> fst ` set books" by auto
  define own where "own = (if excl \<and> user \<noteq> None then owned else {})"
  have "\<exists>lines totals. price_lines books own its ls ts = Inr (lines, totals)"
    if "\<forall>i \<in> set its. in_book_id i \<in> fst ` set books" for its ls ts
    using that
  proof (induction its arbitrary: ls ts)
    case (Cons i its)
    then obtain b where "map_of books (in_book_id i) = Some b"
      by (metis list.set_intros(1) map_of_eq_None_iff not_None_eq)
    with Cons show ?case by (simp add: Let_def)
  qed simp
  from this [OF keys] obtain lines totals where
    lines: "price_lines books own items [] [] = Inr (lines, totals)" by blast
  have "\<forall>l \<in> set totals. 0 \<le> snd l"
    by (rule price_lines_nonneg [OF lines]) (use assms(4,6) in auto)
  from build_cart_amounts(4) [OF this refl]
  have ok: "assert_consistent (build_cart db st now books lines totals user currency code billing) = Inr ()" .
  have cur: "filter (\<lambda>(u, b). str_upper (cb_currency b) \<noteq> currency) books = []"
    using assms(4) by (auto simp: filter_empty_conv)
  have own_eq: "(if excl \<and> user \<noteq> None then owned_book_ids env (opt_default user 0) (map in_book_id items)
       else Inr {}) = Inr own"
    using assms(5) by (auto simp: own_def)
  show ?thesis
    unfolding quote_def Let_def assms(3) own_eq using assms(1,2) cur lines ok by simp
qed

definition sample_items :: "order_item_in list" where
  "sample_items = [\<lparr>in_book_id = 7, in_quantity = 2\<rparr>]"

definition sample_cart :: PricedCart where
  "sample_cart = build_cart empty_db default_settings 0 [(7, sample_book)]
     [\<lparr>ql_book_id = 7, ql_title = ''Dune'', ql_slug = Some ''dune'', ql_quantity = 2,
       ql_unit_price_minor = 49900, ql_line_total_minor = 99800, ql_already_owned = False\<rparr>]
     [(7, 99800)] None ''INR'' None None"

lemma sample_upper: "str_upper ''INR'' = ''INR''"
  by code_simp

lemma sample_quote:
  "quote empty_db default_settings sample_env 0 sample_items None ''INR'' None None True True
     = Inr (sample_cart, [])"
proof -
  have "assert_consistent sample_cart = Inr ()"
    unfolding sample_cart_def by (rule build_cart_amounts(4) [OF _ refl]) simp
  then show ?thesis
    by (simp add: quote_def sample_items_def sample_purchasable sample_cart_def Let_def
        default_settings_def sample_book_def sample_upper)
qed

theorem quote_reconciles_witness:
  "pc_subtotal_minor sample_cart = 99800 \<and> pc_total_minor sample_cart = 99800
     \<and> pc_taxable_minor sample_cart + tr_total_minor (pc_tax sample_cart) = 99800"
proof -
  have b: "pc_books sample_cart = [(7, sample_book)]" "pc_tax_inclusive sample_cart"
    "map ql_line_total_minor (pc_lines sample_cart) = [99800]" "pc_discount_minor sample_cart = 0"
    by (simp_all add: sample_cart_def build_cart_def Let_def truthy_def default_settings_def)
  have "valid_items sample_items"
    by (simp add: valid_items_def sample_items_def valid_item_in_def)
  from quote_reconciles [OF sample_quote this] b show ?thesis
    by (simp add: books_keyed_def sample_book_def)
qed

end
