(* ===== verification/Gateways.thy ===== *)
theory Gateways
  imports Catalogue
begin

section \<open>Payment gateways\<close>

text \<open>
  \<open>apps/payment/services/providers/\<close>: the registry, the manual, Razorpay and Stripe gateways
  with their order, refund, signature and webhook-parsing operations, and Stripe's form
  encoding. Outside the code are: the gateways' HTTP endpoints, an argument \<open>ge_post\<close> that
  answers a request; and HMAC-SHA256, an argument \<open>mac\<close> of the verification functions
  (every theorem holds for whatever function it is). The text a gateway sends in a free
  field is kept as the JSON value it is.
\<close>

subsection \<open>Shapes shared by the gateways\<close>

record ProviderOrder =
  po_provider_order_id :: string
  po_checkout_url :: json
  po_client_secret :: json
  po_raw :: jobj

record ProviderRefund =
  pr_provider_refund_id :: "string option"
  pr_status :: string
  pr_raw :: jobj

datatype event_category = CatPayment | CatRefund | CatSubscription | CatUnknown

record NormalisedEvent =
  ne_event_id :: string
  ne_event_type :: string
  ne_category :: event_category
  ne_provider_order_id :: "string option"
  ne_provider_payment_id :: "string option"
  ne_provider_refund_id :: "string option"
  ne_provider_subscription_id :: "string option"
  ne_order_id :: "uuid option"
  ne_status :: "PaymentStatus option"
  ne_amount_minor :: "int option"
  ne_currency :: json
  ne_method :: json
  ne_failure_code :: json
  ne_failure_message :: json
  ne_raw :: jobj

definition blank_event :: "string \<Rightarrow> string \<Rightarrow> jobj \<Rightarrow> NormalisedEvent" where
  "blank_event event_id event_type raw = \<lparr>ne_event_id = event_id, ne_event_type = event_type,
     ne_category = CatUnknown, ne_provider_order_id = None, ne_provider_payment_id = None,
     ne_provider_refund_id = None, ne_provider_subscription_id = None, ne_order_id = None,
     ne_status = None, ne_amount_minor = None, ne_currency = JNull, ne_method = JNull,
     ne_failure_code = JNull, ne_failure_message = JNull, ne_raw = raw\<rparr>"

definition constant_time_equals :: "string \<Rightarrow> string \<Rightarrow> bool" where
  "constant_time_equals left right \<longleftrightarrow> left = right"

type_synonym headers = "(string \<times> string) list"

definition header_get :: "headers \<Rightarrow> string \<Rightarrow> string" where
  "header_get hs k = (case map_of hs k of None \<Rightarrow> '''' | Some v \<Rightarrow> v)"

definition maybe_uuid :: "json \<Rightarrow> uuid option" where
  "maybe_uuid v = parse_uuid (json_str v)"

definition int_or_none :: "json \<Rightarrow> int option" where
  "int_or_none v = (case json_int v of Inl _ \<Rightarrow> None | Inr n \<Rightarrow> Some n)"

text \<open>\<open>str(v) if v else None\<close>, and \<open>v or {}\<close> used as a \<open>dict\<close>.\<close>

definition str_if_truthy :: "json \<Rightarrow> string option" where
  "str_if_truthy v = (if jtruthy v then Some (json_str v) else None)"

definition as_dict :: "json \<Rightarrow> jobj result" where
  "as_dict v =
     (if jtruthy v then (case v of JObj d \<Rightarrow> Inr d | _ \<Rightarrow> Inl (PyExn ''AttributeError''))
      else Inr [])"

text \<open>
  A JSON value stored in a text column: \<open>null\<close> and strings are stored, the database driver
  refuses anything else.
\<close>

definition text_value :: "json \<Rightarrow> string option result" where
  "text_value v =
     (case v of JNull \<Rightarrow> Inr None | JStr s \<Rightarrow> Inr (Some s) | _ \<Rightarrow> Inl (PyExn ''DataError''))"

subsection \<open>HTTP\<close>

text \<open>
  A gateway's answer: a transport failure, a success, or a rejection; a body that is not
  JSON is \<open>None\<close>.
\<close>

datatype http_reply = HttpUnreachable | HttpOk "json option" | HttpRejected "json option"

record gateway_env =
  ge_post :: "PaymentProvider \<Rightarrow> string \<Rightarrow> jobj \<Rightarrow> string option \<Rightarrow> http_reply"

definition razorpay_error_code :: "json option \<Rightarrow> string" where
  "razorpay_error_code body =
     (case body of
        Some (JObj d) \<Rightarrow>
          (case get_or d ''error'' (JObj []) of
             JObj err \<Rightarrow> json_str (get_or err ''code'' (JStr ''razorpay_error''))
           | _ \<Rightarrow> ''razorpay_error'')
      | _ \<Rightarrow> ''razorpay_error'')"

definition stripe_error_code :: "json option \<Rightarrow> string" where
  "stripe_error_code body =
     (case body of
        Some (JObj d) \<Rightarrow>
          (case get_or d ''error'' (JObj []) of
             JObj err \<Rightarrow> json_str (jor (jget_null err ''code'') (JStr ''stripe_error''))
           | _ \<Rightarrow> ''stripe_error'')
      | _ \<Rightarrow> ''stripe_error'')"

definition reply_body :: "http_reply \<Rightarrow> (json option \<Rightarrow> string) \<Rightarrow> json result" where
  "reply_body rep error_code =
     (case rep of
        HttpUnreachable \<Rightarrow> Inl (raise_default UpstreamError)
      | HttpOk None \<Rightarrow> Inl (PyExn ''JSONDecodeError'')
      | HttpOk (Some v) \<Rightarrow> Inr v
      | HttpRejected body \<Rightarrow> Inl (app_error UpstreamError (Some (str_lower (error_code body))) (Some 502)))"

definition razorpay_post :: "gateway_env \<Rightarrow> string \<Rightarrow> jobj \<Rightarrow> string option \<Rightarrow> json result" where
  "razorpay_post env path body idempotency_key =
     reply_body (ge_post env Razorpay path body idempotency_key) razorpay_error_code"

text \<open>Stripe's bracketed form encoding.\<close>

function flatten_json :: "jobj \<Rightarrow> string \<Rightarrow> (string \<times> string) list" where
  "flatten_json [] prefix = []"
| "flatten_json ((k, v) # rest) prefix =
     (let name = (if prefix \<noteq> [] then prefix @ ''['' @ k @ '']'' else k);
          here = (case v of
                    JObj d \<Rightarrow> flatten_json d name
                  | JArr xs \<Rightarrow>
                      dict_update [] (concat (map (\<lambda>(i, x).
                        case x of JObj d \<Rightarrow> flatten_json d (name @ ''['' @ str_nat i @ '']'')
                        | _ \<Rightarrow> [(name @ ''['' @ str_nat i @ '']'', json_str x)]) (zip [0..<length xs] xs)))
                  | JBool b \<Rightarrow> [(name, if b then ''true'' else ''false'')]
                  | JNull \<Rightarrow> []
                  | _ \<Rightarrow> [(name, json_str v)])
      in dict_update (dict_update [] here) (flatten_json rest prefix))"
  by pat_completeness auto

lemma size_in_array:
  assumes "(i, JObj d) \<in> set (zip [0..<length xs] xs)"
  shows "size (JObj d) \<le> size_list size xs"
  using set_zip_rightD [OF assms] by (metis size_list_estimation' order_refl)

termination flatten_json
  by (relation "measure (\<lambda>(d, _). size (JObj d))") (auto dest!: size_in_array)

definition stripe_post :: "gateway_env \<Rightarrow> string \<Rightarrow> jobj \<Rightarrow> string option \<Rightarrow> json result" where
  "stripe_post env path data idempotency_key =
     reply_body (ge_post env Stripe path (map (\<lambda>(k, v). (k, JStr v)) (flatten_json data ''''))
       idempotency_key) stripe_error_code"

subsection \<open>The registry\<close>

definition gateways :: "settings \<Rightarrow> PaymentProvider list" where
  "gateways st = [Manual] @ (if razorpay_enabled st then [Razorpay] else [])
     @ (if stripe_enabled st then [Stripe] else [])"

definition get_gateway :: "settings \<Rightarrow> PaymentProvider \<Rightarrow> PaymentProvider result" where
  "get_gateway st p =
     (if p \<in> set (gateways st) then Inr p else Inl (raise_default ServiceUnavailableError))"

definition get_gateway_by_value :: "settings \<Rightarrow> string \<Rightarrow> PaymentProvider result" where
  "get_gateway_by_value st v =
     (case provider_of_value v of None \<Rightarrow> Inl (raise_code BadRequestError ''unknown_provider'')
      | Some p \<Rightarrow> get_gateway st p)"

definition resolve_gateway ::
  "settings \<Rightarrow> PaymentProvider option \<Rightarrow> money \<Rightarrow> PaymentProvider result" where
  "resolve_gateway st requested amount_minor =
     (if amount_minor \<le> 0 then Inr Manual
      else case requested of Some p \<Rightarrow> get_gateway st p
        | None \<Rightarrow>
            (case default_provider st of None \<Rightarrow> Inl (raise_default ServiceUnavailableError)
             | Some v \<Rightarrow> get_gateway_by_value st v))"

definition public_providers :: "settings \<Rightarrow> PaymentProvider list" where
  "public_providers st = filter (\<lambda>p. p \<noteq> Manual) (gateways st)"

subsection \<open>Opening an order and refunding\<close>

record order_request =
  or_order_id :: uuid
  or_order_number :: string
  or_amount_minor :: money
  or_currency :: string
  or_customer_email :: "string option"
  or_return_url :: "string option"
  or_description :: string

definition manual_create_order :: "order_request \<Rightarrow> ProviderOrder" where
  "manual_create_order r = \<lparr>po_provider_order_id = ''manual_'' @ str_uuid (or_order_id r),
     po_checkout_url = JNull, po_client_secret = JNull, po_raw = []\<rparr>"

definition razorpay_create_order :: "gateway_env \<Rightarrow> order_request \<Rightarrow> ProviderOrder result" where
  "razorpay_create_order env r =
     (case razorpay_post env ''/orders''
        [(''amount'', JInt (or_amount_minor r)), (''currency'', JStr (str_upper (or_currency r))),
         (''receipt'', JStr (take 40 (or_order_number r))),
         (''notes'', JObj [(''order_id'', JStr (str_uuid (or_order_id r))),
                          (''order_number'', JStr (or_order_number r)),
                          (''description'', JStr (take 250 (or_description r)))])] None of
        Inl e \<Rightarrow> Inl e
      | Inr (JObj d) \<Rightarrow>
          (case jget d ''id'' of None \<Rightarrow> Inl (PyExn ''KeyError'')
           | Some v \<Rightarrow> Inr \<lparr>po_provider_order_id = json_str v, po_checkout_url = JNull,
                            po_client_secret = JNull, po_raw = d\<rparr>)
      | Inr _ \<Rightarrow> Inl (PyExn ''TypeError''))"

definition str_rstrip_char :: "char \<Rightarrow> string \<Rightarrow> string" where
  "str_rstrip_char c s = rev (dropWhile (\<lambda>x. x = c) (rev s))"

definition stripe_order_payload :: "settings \<Rightarrow> order_request \<Rightarrow> jobj" where
  "stripe_order_payload st r =
     (let base = str_rstrip_char (CHR ''/'') (or_str (or_return_url r) (frontend_url st));
          oid = JStr (str_uuid (or_order_id r));
          descr = take 250 (or_description r)
      in [(''mode'', JStr ''payment''), (''client_reference_id'', oid),
          (''success_url'', JStr (base @ ''/checkout/success?order='' @ or_order_number r)),
          (''cancel_url'', JStr (base @ ''/checkout/cancelled?order='' @ or_order_number r)),
          (''metadata'', JObj [(''order_id'', oid), (''order_number'', JStr (or_order_number r))]),
          (''payment_intent_data'', JObj [(''metadata'', JObj [(''order_id'', oid)])]),
          (''line_items'', JArr [JObj [(''quantity'', JInt 1),
             (''price_data'', JObj [(''currency'', JStr (str_lower (or_currency r))),
                (''unit_amount'', JInt (or_amount_minor r)),
                (''product_data'', JObj [(''name'',
                   JStr (if descr = [] then or_order_number r else descr))])])]])]
         @ (if truthy (or_customer_email r)
            then [(''customer_email'', JStr (opt_default (or_customer_email r) ''''))] else []))"

definition stripe_create_order ::
  "settings \<Rightarrow> gateway_env \<Rightarrow> order_request \<Rightarrow> ProviderOrder result" where
  "stripe_create_order st env r =
     (case stripe_post env ''/checkout/sessions'' (stripe_order_payload st r)
             (Some (''order-'' @ str_uuid (or_order_id r))) of
        Inl e \<Rightarrow> Inl e
      | Inr (JObj d) \<Rightarrow>
          (case jget d ''id'' of None \<Rightarrow> Inl (PyExn ''KeyError'')
           | Some v \<Rightarrow> Inr \<lparr>po_provider_order_id = json_str v, po_checkout_url = jget_null d ''url'',
                            po_client_secret = jget_null d ''client_secret'', po_raw = d\<rparr>)
      | Inr _ \<Rightarrow> Inl (PyExn ''TypeError''))"

definition gateway_create_order ::
  "settings \<Rightarrow> gateway_env \<Rightarrow> PaymentProvider \<Rightarrow> order_request \<Rightarrow> ProviderOrder result" where
  "gateway_create_order st env p r =
     (case p of Manual \<Rightarrow> Inr (manual_create_order r)
      | Razorpay \<Rightarrow> razorpay_create_order env r
      | Stripe \<Rightarrow> stripe_create_order st env r)"

record refund_request =
  rr_provider_payment_id :: string
  rr_amount_minor :: money
  rr_currency :: string
  rr_reason :: "string option"
  rr_idempotency_key :: string

definition manual_refund :: "refund_request \<Rightarrow> ProviderRefund" where
  "manual_refund r = \<lparr>pr_provider_refund_id = Some (''manual_rfnd_'' @ rr_idempotency_key r),
     pr_status = ''succeeded'', pr_raw = []\<rparr>"

definition refund_of_reply :: "json \<Rightarrow> ProviderRefund result" where
  "refund_of_reply data =
     (case data of
        JObj d \<Rightarrow> Inr \<lparr>pr_provider_refund_id = str_if_truthy (jget_null d ''id''),
                      pr_status = json_str (get_or d ''status'' (JStr ''pending'')), pr_raw = d\<rparr>
      | _ \<Rightarrow> Inl (PyExn ''AttributeError''))"

definition razorpay_refund :: "gateway_env \<Rightarrow> refund_request \<Rightarrow> ProviderRefund result" where
  "razorpay_refund env r =
     (case razorpay_post env (''/payments/'' @ rr_provider_payment_id r @ ''/refund'')
        [(''amount'', JInt (rr_amount_minor r)), (''speed'', JStr ''optimum''),
         (''notes'', JObj [(''reason'', JStr (take 250 (or_str (rr_reason r) ''''))),
                          (''idempotency_key'', JStr (rr_idempotency_key r))])]
        (Some (rr_idempotency_key r)) of
        Inl e \<Rightarrow> Inl e | Inr data \<Rightarrow> refund_of_reply data)"

definition stripe_refund :: "gateway_env \<Rightarrow> refund_request \<Rightarrow> ProviderRefund result" where
  "stripe_refund env r =
     (case stripe_post env ''/refunds''
        [(''payment_intent'', JStr (rr_provider_payment_id r)), (''amount'', JInt (rr_amount_minor r)),
         (''metadata'', JObj [(''reason'', JStr (take 250 (or_str (rr_reason r) '''')))])]
        (Some (rr_idempotency_key r)) of
        Inl e \<Rightarrow> Inl e | Inr data \<Rightarrow> refund_of_reply data)"

definition gateway_refund ::
  "gateway_env \<Rightarrow> PaymentProvider \<Rightarrow> refund_request \<Rightarrow> ProviderRefund result" where
  "gateway_refund env p r =
     (case p of Manual \<Rightarrow> Inr (manual_refund r)
      | Razorpay \<Rightarrow> razorpay_refund env r
      | Stripe \<Rightarrow> stripe_refund env r)"

subsection \<open>Signatures\<close>

type_synonym mac = "string \<Rightarrow> string \<Rightarrow> string"

definition str_partition :: "char \<Rightarrow> string \<Rightarrow> string \<times> string" where
  "str_partition sep s = (takeWhile (\<lambda>c. c \<noteq> sep) s, drop 1 (dropWhile (\<lambda>c. c \<noteq> sep) s))"

definition razorpay_verify_webhook :: "settings \<Rightarrow> mac \<Rightarrow> string \<Rightarrow> headers \<Rightarrow> bool" where
  "razorpay_verify_webhook st mac body hs =
     (let signature = header_get hs ''x-razorpay-signature''
      in if \<not> truthy (razorpay_webhook_secret st) \<or> signature = [] then False
         else constant_time_equals signature (mac (opt_default (razorpay_webhook_secret st) '''') body))"

definition razorpay_verify_checkout ::
  "settings \<Rightarrow> mac \<Rightarrow> string \<Rightarrow> string \<Rightarrow> string \<Rightarrow> bool" where
  "razorpay_verify_checkout st mac provider_order_id provider_payment_id signature =
     (if \<not> truthy (razorpay_key_secret st) \<or> signature = [] then False
      else constant_time_equals signature
             (mac (opt_default (razorpay_key_secret st) '''')
                (provider_order_id @ ''|'' @ provider_payment_id)))"

text \<open>The \<open>Stripe-Signature\<close> header: the last \<open>t\<close> and every \<open>v1\<close>, in order.\<close>

definition stripe_header :: "string \<Rightarrow> string option \<times> string list" where
  "stripe_header header =
     foldl (\<lambda>(timestamp, signatures) part.
              let (key, value) = str_partition (CHR ''='') (str_strip part)
              in if key = ''t'' then (Some value, signatures)
                 else if key = ''v1'' then (timestamp, signatures @ [value])
                 else (timestamp, signatures))
       (None, []) (str_split (CHR '','') header)"

definition stripe_verify_webhook ::
  "settings \<Rightarrow> mac \<Rightarrow> timestamp \<Rightarrow> string \<Rightarrow> headers \<Rightarrow> bool" where
  "stripe_verify_webhook st mac now body hs =
     (let header = header_get hs ''stripe-signature''
      in if \<not> truthy (stripe_webhook_secret st) \<or> header = [] then False
         else
           let (timestamp, signatures) = stripe_header header
           in if \<not> truthy timestamp \<or> signatures = [] then False
              else case py_int (opt_default timestamp '''') of None \<Rightarrow> False
                | Some t \<Rightarrow>
                    if \<bar>now - microseconds t\<bar> > microseconds (stripe_signature_tolerance st) then False
                    else
                      let expected = mac (opt_default (stripe_webhook_secret st) '''')
                                         (opt_default timestamp '''' @ ''.'' @ body)
                      in list_ex (\<lambda>candidate. constant_time_equals candidate expected) signatures)"

definition verify_webhook ::
  "settings \<Rightarrow> mac \<Rightarrow> timestamp \<Rightarrow> PaymentProvider \<Rightarrow> string \<Rightarrow> headers \<Rightarrow> bool" where
  "verify_webhook st mac now p body hs =
     (case p of Manual \<Rightarrow> False
      | Razorpay \<Rightarrow> razorpay_verify_webhook st mac body hs
      | Stripe \<Rightarrow> stripe_verify_webhook st mac now body hs)"

subsection \<open>Webhook parsing\<close>

definition razorpay_payment_status :: "string \<Rightarrow> PaymentStatus option" where
  "razorpay_payment_status s = map_of
     [(''created'', PayPending), (''authorized'', PayAuthorized), (''captured'', PayCaptured),
      (''refunded'', PayRefunded), (''failed'', PayFailed)] s"

definition entity_of :: "jobj \<Rightarrow> string \<Rightarrow> jobj result" where
  "entity_of entities k =
     (case as_dict (jget_null entities k) of Inl e \<Rightarrow> Inl e
      | Inr d \<Rightarrow> as_dict (jget_null d ''entity''))"

definition razorpay_event ::
  "jobj \<Rightarrow> string \<Rightarrow> string \<Rightarrow> uuid option \<Rightarrow> jobj \<Rightarrow> jobj \<Rightarrow> jobj \<Rightarrow> NormalisedEvent" where
  "razorpay_event payload event_type event_id order_id payment rfd subscr =
     (if str_startswith event_type ''refund.'' then
        (blank_event event_id event_type payload)\<lparr>
          ne_category := CatRefund,
          ne_provider_refund_id := str_if_truthy (jget_null rfd ''id''),
          ne_provider_payment_id := str_if_truthy (jget_null rfd ''payment_id''),
          ne_amount_minor := int_or_none (jget_null rfd ''amount''),
          ne_currency := jget_null rfd ''currency'', ne_order_id := order_id\<rparr>
      else if str_startswith event_type ''subscription.'' then
        (blank_event event_id event_type payload)\<lparr>
          ne_category := CatSubscription,
          ne_provider_subscription_id := str_if_truthy (jget_null subscr ''id'')\<rparr>
      else if str_startswith event_type ''payment.'' \<or> str_startswith event_type ''order.'' then
        (blank_event event_id event_type payload)\<lparr>
          ne_category := CatPayment,
          ne_provider_order_id := str_if_truthy (jget_null payment ''order_id''),
          ne_provider_payment_id := str_if_truthy (jget_null payment ''id''),
          ne_order_id := order_id,
          ne_status := razorpay_payment_status (json_str (get_or payment ''status'' (JStr ''''))),
          ne_amount_minor := int_or_none (jget_null payment ''amount''),
          ne_currency := jget_null payment ''currency'',
          ne_method := jget_null payment ''method'',
          ne_failure_code := jget_null payment ''error_code'',
          ne_failure_message := jget_null payment ''error_description''\<rparr>
      else blank_event event_id event_type payload)"

definition razorpay_parse_webhook :: "jobj \<Rightarrow> headers \<Rightarrow> NormalisedEvent result" where
  "razorpay_parse_webhook payload hs =
     (let event_type = json_str (get_or payload ''event'' (JStr ''unknown'')) in
      case as_dict (jget_null payload ''payload'') of Inl e \<Rightarrow> Inl e
      | Inr entities \<Rightarrow>
        case entity_of entities ''payment'' of Inl e \<Rightarrow> Inl e
      | Inr payment \<Rightarrow>
        case entity_of entities ''refund'' of Inl e \<Rightarrow> Inl e
      | Inr rfd \<Rightarrow>
        case entity_of entities ''subscription'' of Inl e \<Rightarrow> Inl e
      | Inr subscr \<Rightarrow>
          let any_id = jor (jget_null payment ''id'') (jor (jget_null rfd ''id'')
                         (jor (jget_null subscr ''id'') (JStr '''')));
              event_id = (if header_get hs ''x-razorpay-event-id'' \<noteq> []
                          then header_get hs ''x-razorpay-event-id''
                          else event_type @ '':'' @ json_str any_id)
          in case as_dict (jor (jget_null payment ''notes'') (jget_null rfd ''notes'')) of
               Inl e \<Rightarrow> Inl e
             | Inr notes \<Rightarrow>
                 Inr (razorpay_event payload event_type event_id
                        (maybe_uuid (jget_null notes ''order_id'')) payment rfd subscr))"

definition stripe_payment_status :: "string \<Rightarrow> PaymentStatus option" where
  "stripe_payment_status s = map_of
     [(''requires_payment_method'', PayPending), (''requires_confirmation'', PayPending),
      (''requires_action'', PayPending), (''processing'', PayPending),
      (''requires_capture'', PayAuthorized), (''succeeded'', PayCaptured),
      (''canceled'', PayFailed)] s"

text \<open>\<open>(v or [None])[0]\<close>.\<close>

definition first_method :: "json \<Rightarrow> json result" where
  "first_method v =
     (if \<not> jtruthy v then Inr JNull
      else case v of JArr (x # _) \<Rightarrow> Inr x | JStr (c # _) \<Rightarrow> Inr (JStr [c])
        | JObj _ \<Rightarrow> Inl (PyExn ''KeyError'') | _ \<Rightarrow> Inl (PyExn ''TypeError''))"

definition stripe_payment_event ::
  "jobj \<Rightarrow> string \<Rightarrow> string \<Rightarrow> uuid option \<Rightarrow> json \<Rightarrow> jobj \<Rightarrow> NormalisedEvent result" where
  "stripe_payment_event payload event_type event_id order_id currency obj =
     (let payment_id = jor (jget_null obj ''payment_intent'') (jget_null obj ''id'');
          amount = jor (jget_null obj ''amount_total'')
                     (jor (jget_null obj ''amount_received'') (jget_null obj ''amount''));
          status = (if event_type = ''checkout.session.completed''
                    then Some (if jget_null obj ''payment_status'' = JStr ''paid'' then PayCaptured
                               else PayPending)
                    else stripe_payment_status (json_str (get_or obj ''status'' (JStr ''''))))
      in case as_dict (jget_null obj ''last_payment_error'') of Inl e \<Rightarrow> Inl e
         | Inr err \<Rightarrow>
           case first_method (jget_null obj ''payment_method_types'') of Inl e \<Rightarrow> Inl e
         | Inr meth \<Rightarrow>
             Inr ((blank_event event_id event_type payload)\<lparr>
               ne_category := CatPayment,
               ne_provider_order_id := str_if_truthy (jget_null obj ''id''),
               ne_provider_payment_id := str_if_truthy payment_id,
               ne_order_id := order_id, ne_status := status,
               ne_amount_minor := int_or_none amount, ne_currency := currency, ne_method := meth,
               ne_failure_code := jget_null err ''code'',
               ne_failure_message := jget_null err ''message''\<rparr>))"

definition upper_or_null :: "json \<Rightarrow> json result" where
  "upper_or_null v =
     (if \<not> jtruthy v then Inr JNull
      else case v of JStr s \<Rightarrow> Inr (JStr (str_upper s)) | _ \<Rightarrow> Inl (PyExn ''AttributeError''))"

definition stripe_parse_webhook :: "jobj \<Rightarrow> headers \<Rightarrow> NormalisedEvent result" where
  "stripe_parse_webhook payload hs =
     (let event_type = json_str (get_or payload ''type'' (JStr ''unknown''));
          event_id = json_str (get_or payload ''id'' (JStr '''')) in
      case as_dict (jget_null payload ''data'') of Inl e \<Rightarrow> Inl e
      | Inr data \<Rightarrow>
        case as_dict (jget_null data ''object'') of Inl e \<Rightarrow> Inl e
      | Inr obj \<Rightarrow>
        case as_dict (jget_null obj ''metadata'') of Inl e \<Rightarrow> Inl e
      | Inr metadata \<Rightarrow>
        case upper_or_null (jget_null obj ''currency'') of Inl e \<Rightarrow> Inl e
      | Inr currency \<Rightarrow>
          let order_id = maybe_uuid (jor (jget_null metadata ''order_id'')
                                       (jget_null obj ''client_reference_id''))
          in if str_startswith event_type ''charge.refund'' \<or> str_startswith event_type ''refund.'' then
               Inr ((blank_event event_id event_type payload)\<lparr>
                 ne_category := CatRefund,
                 ne_provider_refund_id := str_if_truthy (jget_null obj ''id''),
                 ne_provider_payment_id := str_if_truthy (jget_null obj ''payment_intent''),
                 ne_amount_minor := int_or_none (jget_null obj ''amount''),
                 ne_currency := currency, ne_order_id := order_id\<rparr>)
             else if str_startswith event_type ''customer.subscription'' then
               Inr ((blank_event event_id event_type payload)\<lparr>
                 ne_category := CatSubscription,
                 ne_provider_subscription_id := str_if_truthy (jget_null obj ''id'')\<rparr>)
             else if str_startswith event_type ''checkout.session''
                     \<or> str_startswith event_type ''payment_intent.'' then
               stripe_payment_event payload event_type event_id order_id currency obj
             else Inr (blank_event event_id event_type payload))"

definition manual_parse_webhook :: "jobj \<Rightarrow> NormalisedEvent" where
  "manual_parse_webhook payload =
     (blank_event (json_str (get_or payload ''id'' (JStr ''''))) ''manual.unknown'' payload)\<lparr>
       ne_status := Some PayPending\<rparr>"

definition parse_webhook ::
  "PaymentProvider \<Rightarrow> jobj \<Rightarrow> headers \<Rightarrow> NormalisedEvent result" where
  "parse_webhook p payload hs =
     (case p of Manual \<Rightarrow> Inr (manual_parse_webhook payload)
      | Razorpay \<Rightarrow> razorpay_parse_webhook payload hs
      | Stripe \<Rightarrow> stripe_parse_webhook payload hs)"

subsection \<open>Lemmas\<close>

lemma str_partition_at: "c \<notin> set s \<Longrightarrow> str_partition c (s @ c # t) = (s, t)"
  by (induction s) (auto simp: str_partition_def)

definition stripe_signature_header :: "nat \<Rightarrow> string \<Rightarrow> string" where
  "stripe_signature_header t sig = ''t='' @ str_nat t @ '',v1='' @ sig"

lemma stripe_header_parsed:
  assumes "CHR '','' \<notin> set sig" and "\<And>c. c \<in> set sig \<Longrightarrow> \<not> is_space c"
  shows "stripe_header (stripe_signature_header t sig) = (Some (str_nat t), [sig])"
proof -
  have dig: "\<not> is_space c \<and> c \<noteq> CHR '',''" if "c \<in> set (str_nat t)" for c
    using that set_str_nat [of t] digit_plain by blast
  have eq: "stripe_signature_header t sig = (''t='' @ str_nat t) @ CHR '','' # (''v1='' @ sig)"
    by (simp add: stripe_signature_header_def)
  have "str_split (CHR '','') (stripe_signature_header t sig) = [''t='' @ str_nat t, ''v1='' @ sig]"
    unfolding eq using dig assms(1) by (subst str_split_at) (auto simp: str_split_plain)
  moreover have "str_strip (''t='' @ str_nat t) = ''t'' @ CHR ''='' # str_nat t"
    using dig by (subst str_strip_plain) (auto simp: is_space_def)
  moreover have "str_strip (''v1='' @ sig) = ''v1'' @ CHR ''='' # sig"
    using assms(2) by (subst str_strip_plain) (auto simp: is_space_def)
  ultimately show ?thesis
    by (simp add: stripe_header_def str_partition_at del: append_Cons append_Nil)
qed

lemma resolve_in_registry: "resolve_gateway st req amount = Inr p \<Longrightarrow> p \<in> set (gateways st)"
  by (auto simp: resolve_gateway_def get_gateway_def get_gateway_by_value_def gateways_def
      split: if_splits option.splits)

subsection \<open>Properties\<close>

text \<open>
  Signature verification never soft-fails. A webhook passes only for a provider whose
  webhook secret is configured and not empty, and only when the request carries a signature
  that is the MAC of exactly the raw body under that secret (for Stripe, of the timestamp
  and the body, with the timestamp within the tolerance of the clock); the manual gateway
  verifies nothing.
\<close>

lemma webhook_verification_sound:
  assumes "verify_webhook st mac now p body hs"
  shows "case p of Manual \<Rightarrow> False
     | Razorpay \<Rightarrow> (\<exists>secret. razorpay_webhook_secret st = Some secret \<and> secret \<noteq> [] \<and>
         map_of hs ''x-razorpay-signature'' = Some (mac secret body))
     | Stripe \<Rightarrow> (\<exists>secret header ts t sigs. stripe_webhook_secret st = Some secret \<and> secret \<noteq> [] \<and>
         map_of hs ''stripe-signature'' = Some header \<and> stripe_header header = (Some ts, sigs) \<and>
         py_int ts = Some t \<and> \<bar>now - microseconds t\<bar> \<le> microseconds (stripe_signature_tolerance st) \<and>
         mac secret (ts @ ''.'' @ body) \<in> set sigs)"
proof (cases p)
  case Razorpay
  with assms show ?thesis
    by (auto simp: verify_webhook_def razorpay_verify_webhook_def Let_def truthy_def opt_default_def
        header_get_def constant_time_equals_def split: if_splits option.splits)
next
  case Stripe
  obtain ts sigs where h: "stripe_header (header_get hs ''stripe-signature'') = (ts, sigs)" by fastforce
  show ?thesis
  proof (cases ts)
    case None
    with assms Stripe h show ?thesis
      by (auto simp: verify_webhook_def stripe_verify_webhook_def Let_def truthy_def split: if_splits)
  next
    case (Some v)
    with assms Stripe h show ?thesis
      by (cases "py_int v")
        (auto simp: verify_webhook_def stripe_verify_webhook_def Let_def truthy_def opt_default_def
          header_get_def constant_time_equals_def list_ex_iff split: if_splits option.split_asm)
  qed
next
  case Manual
  with assms show ?thesis by (simp add: verify_webhook_def)
qed

text \<open>
  Stripe's scheme is accepted as documented, and only inside the replay window: for any
  MAC whose values have no comma and no white space (a hexadecimal digest has neither), a
  delivery signed under the configured secret at second \<open>t\<close> verifies exactly while the
  clock is within the tolerance of \<open>t\<close>; a captured request replayed later is refused.
\<close>

lemma stripe_signed_delivery_window:
  assumes "stripe_webhook_secret st = Some secret" and "secret \<noteq> []"
    and "sig = mac secret (str_nat t @ ''.'' @ body)"
    and "\<forall>c \<in> set sig. c \<noteq> CHR '','' \<and> \<not> is_space c"
  shows "verify_webhook st mac now Stripe body [(''stripe-signature'', stripe_signature_header t sig)]
     \<longleftrightarrow> \<bar>now - microseconds (int t)\<bar> \<le> microseconds (stripe_signature_tolerance st)"
proof -
  have "stripe_header (stripe_signature_header t sig) = (Some (str_nat t), [sig])"
    using assms(4) by (intro stripe_header_parsed) auto
  moreover have "stripe_signature_header t sig \<noteq> []" by (simp add: stripe_signature_header_def)
  ultimately show ?thesis
    using assms(1-3)
    by (auto simp: verify_webhook_def stripe_verify_webhook_def header_get_def truthy_def
        opt_default_def py_int_str_nat constant_time_equals_def Let_def)
qed

definition sample_mac :: mac where
  "sample_mac secret message = ''3f'' @ str_nat (length message)"

definition stripe_settings :: settings where
  "stripe_settings = default_settings\<lparr>stripe_secret_key := Some ''sk_test'',
     stripe_webhook_secret := Some ''whsec''\<rparr>"

end
