(* ===== verification/Calendar.thy ===== *)
theory Calendar
  imports Json
begin

section \<open>Dates\<close>

text \<open>
  The part of Python's \<open>datetime\<close> the services use: the UTC year, month and day of an
  instant (an integer of microseconds since 1970-01-01) in the proleptic Gregorian calendar.
  A day is found by counting days from the 1st of March of the year 0, so that the leap day
  is the last day of a computational year.
\<close>

definition DAY :: int where
  "DAY = 86400000000"

definition civil_from_days :: "int \<Rightarrow> int \<times> int \<times> int" where
  "civil_from_days n =
     (let z = n + 719468;
          era = z div 146097;
          doe = z mod 146097;
          yoe = (doe - doe div 1460 + doe div 36524 - doe div 146096) div 365;
          doy = doe - (365 * yoe + yoe div 4 - yoe div 100);
          mp = (5 * doy + 2) div 153;
          d = doy - (153 * mp + 2) div 5 + 1;
          m = (if mp < 10 then mp + 3 else mp - 9);
          y = yoe + era * 400
      in (if m \<le> 2 then y + 1 else y, m, d))"

definition civil :: "timestamp \<Rightarrow> int \<times> int \<times> int" where
  "civil t = civil_from_days (t div DAY)"

definition year_of :: "timestamp \<Rightarrow> int" where
  "year_of t = fst (civil t)"

definition month_of :: "timestamp \<Rightarrow> int" where
  "month_of t = fst (snd (civil t))"

definition day_of :: "timestamp \<Rightarrow> int" where
  "day_of t = snd (snd (civil t))"

text \<open>\<open>f"{moment:%Y%m%d}"\<close>.\<close>

definition yyyymmdd :: "timestamp \<Rightarrow> string" where
  "yyyymmdd t = zero_pad 4 (str_nat (nat (year_of t))) @ zero_pad 2 (str_nat (nat (month_of t)))
     @ zero_pad 2 (str_nat (nat (day_of t)))"

text \<open>\<open>moment.isoformat()\<close> of an aware UTC instant.\<close>

definition two :: "int \<Rightarrow> string" where
  "two n = zero_pad 2 (str_nat (nat n))"

definition isoformat :: "timestamp \<Rightarrow> string" where
  "isoformat t =
     (let s = (t mod DAY) div 1000000; us = t mod 1000000
      in zero_pad 4 (str_nat (nat (year_of t))) @ ''-'' @ two (month_of t) @ ''-'' @ two (day_of t)
         @ ''T'' @ two (s div 3600) @ '':'' @ two (s div 60 mod 60) @ '':'' @ two (s mod 60)
         @ (if us = 0 then '''' else ''.'' @ zero_pad 6 (str_nat (nat us))) @ ''+00:00'')"

end
