(* ===== verification/Keyset.thy ===== *)
theory Keyset
  imports Prelude "HOL-Library.Product_Lexorder"
begin

section \<open>Keyset pagination\<close>

text \<open>
  Every long list of the platform is paged the same way: the rows are ordered by a column and
  the primary key, one row more than a page is fetched to learn whether there is another page,
  and the cursor of the next page is the position of the last row. The locale
  \<open>keyset_feed\<close> states what such an endpoint promises and shows once that a client following the
  cursors reads the whole list; the order history of the payment service, the catalogue and
  the shelves of the books service are its instances.
\<close>

subsection \<open>The query\<close>

text \<open>\<open>ORDER BY column, id LIMIT limit + 1\<close> after the cursor's position, in either direction.\<close>

definition keyset_page ::
  "('c \<Rightarrow> 'r \<Rightarrow> bool) \<Rightarrow> ('r \<Rightarrow> 'c) \<Rightarrow> ('r list \<Rightarrow> 'r list) \<Rightarrow> nat \<Rightarrow> 'r list \<Rightarrow> 'c option
     \<Rightarrow> 'r list \<times> 'c option \<times> bool" where
  "keyset_page after cursor_of arrange limit rows cursor =
     (let hits = filter (\<lambda>r. case cursor of None \<Rightarrow> True | Some c \<Rightarrow> after c r) rows;
          found = take (limit + 1) (arrange hits);
          has_more = length found > limit;
          page = take limit found
      in (page, if has_more \<and> page \<noteq> [] then Some (cursor_of (last page)) else None, has_more))"

definition below_cursor :: "('r \<Rightarrow> 'k :: linorder) \<Rightarrow> ('r \<Rightarrow> uuid) \<Rightarrow> 'k \<times> uuid \<Rightarrow> 'r \<Rightarrow> bool" where
  "below_cursor key ident c r \<longleftrightarrow> key r < fst c \<or> (key r = fst c \<and> ident r < snd c)"

definition above_cursor :: "('r \<Rightarrow> 'k :: linorder) \<Rightarrow> ('r \<Rightarrow> uuid) \<Rightarrow> 'k \<times> uuid \<Rightarrow> 'r \<Rightarrow> bool" where
  "above_cursor key ident c r \<longleftrightarrow> key r > fst c \<or> (key r = fst c \<and> ident r > snd c)"

definition descending :: "('r \<Rightarrow> 'k :: linorder) \<Rightarrow> ('r \<Rightarrow> uuid) \<Rightarrow> 'r list \<Rightarrow> 'r list" where
  "descending key ident rows = rev (sort_key (\<lambda>r. (key r, ident r)) rows)"

definition ascending :: "('r \<Rightarrow> 'k :: linorder) \<Rightarrow> ('r \<Rightarrow> uuid) \<Rightarrow> 'r list \<Rightarrow> 'r list" where
  "ascending key ident rows = sort_key (\<lambda>r. (key r, ident r)) rows"

definition page_down :: "('r \<Rightarrow> 'k :: linorder) \<Rightarrow> ('r \<Rightarrow> uuid) \<Rightarrow> nat \<Rightarrow> 'r list \<Rightarrow> ('k \<times> uuid) option
     \<Rightarrow> 'r list \<times> ('k \<times> uuid) option \<times> bool" where
  "page_down key ident = keyset_page (below_cursor key ident) (\<lambda>r. (key r, ident r)) (descending key ident)"

definition page_up :: "('r \<Rightarrow> 'k :: linorder) \<Rightarrow> ('r \<Rightarrow> uuid) \<Rightarrow> nat \<Rightarrow> 'r list \<Rightarrow> ('k \<times> uuid) option
     \<Rightarrow> 'r list \<times> ('k \<times> uuid) option \<times> bool" where
  "page_up key ident = keyset_page (above_cursor key ident) (\<lambda>r. (key r, ident r)) (ascending key ident)"

text \<open>What a client that follows the cursors reads, in at most \<open>n\<close> requests.\<close>

fun follow_pages :: "nat \<Rightarrow> ('c option \<Rightarrow> 'r list \<times> 'c option \<times> bool) \<Rightarrow> 'c option \<Rightarrow> 'r list option" where
  "follow_pages 0 fetch cursor = None"
| "follow_pages (Suc n) fetch cursor =
     (case fetch cursor of
        (page, None, _) \<Rightarrow> Some page
      | (page, Some c, _) \<Rightarrow> map_option (\<lambda>rest. page @ rest) (follow_pages n fetch (Some c)))"

subsection \<open>The contract\<close>

lemma sorted_wrt_after:
  assumes "sorted_wrt R xs" and "n < length xs" and "\<And>x y. R x y \<Longrightarrow> \<not> R y x"
  shows "filter (R (xs ! n)) xs = drop (Suc n) xs"
proof -
  have lt: "R (xs ! i) (xs ! j)" if "i < j" "j < length xs" for i j
    using assms(1) that by (simp add: sorted_wrt_iff_nth_less)
  have "\<not> R (xs ! n) (xs ! i)" if "i \<le> n" for i
    using that assms(2,3) lt [of i n] by (cases "i = n") auto
  then have "filter (R (xs ! n)) (take (Suc n) xs) = []"
    using assms(2) by (auto simp: filter_empty_conv in_set_conv_nth)
  moreover have "filter (R (xs ! n)) (drop (Suc n) xs) = drop (Suc n) xs"
    unfolding filter_id_conv using assms(2) lt [of n] by (auto simp: in_set_conv_nth)
  ultimately show ?thesis by (metis append_Nil append_take_drop_id filter_append)
qed

locale keyset_feed =
  fixes fetch :: "'c option \<Rightarrow> 'r list \<times> 'c option \<times> bool"
    and feed :: "'r list"
    and before :: "'r \<Rightarrow> 'r \<Rightarrow> bool"
    and after :: "'c \<Rightarrow> 'r \<Rightarrow> bool"
    and cursor_of :: "'r \<Rightarrow> 'c"
    and limit :: nat
  assumes fetch_page: "fetch c =
      (let rows = filter (\<lambda>r. case c of None \<Rightarrow> True | Some c \<Rightarrow> after c r) feed;
           page = take limit rows
       in (page, if limit < length rows \<and> page \<noteq> [] then Some (cursor_of (last page)) else None, limit < length rows))"
    and cursor_position: "after (cursor_of x) r \<longleftrightarrow> before x r"
    and before_asym: "before x y \<Longrightarrow> \<not> before y x"
begin

lemma follow_from:
  assumes "sorted_wrt before feed" and "0 < limit"
    and "filter (\<lambda>r. case c of None \<Rightarrow> True | Some c \<Rightarrow> after c r) feed = drop k feed"
    and "length feed - k < n"
  shows "follow_pages n fetch c = Some (drop k feed)"
  using assms(3,4)
proof (induction n arbitrary: c k)
  case (Suc n)
  show ?case
  proof (cases "limit < length (drop k feed)")
    case False
    then show ?thesis using Suc.prems(1) by (simp add: fetch_page Let_def)
  next
    case True
    let ?x = "feed ! (k + limit - 1)"
    have m: "k + limit - 1 < length feed" "Suc (k + limit - 1) = k + limit" using True assms(2) by auto
    have last: "last (take limit (drop k feed)) = ?x" using True assms(2) by (simp add: last_conv_nth min_def)
    have "filter (before ?x) feed = drop (k + limit) feed"
      using sorted_wrt_after [OF assms(1) m(1) before_asym] m(2) by simp
    then have "follow_pages n fetch (Some (cursor_of ?x)) = Some (drop (k + limit) feed)"
      using Suc.prems(2) m True assms(2) by (intro Suc.IH) (simp_all add: cursor_position)
    moreover have "drop k feed = take limit (drop k feed) @ drop (k + limit) feed"
      by (metis add.commute append_take_drop_id drop_drop)
    moreover have "fetch c = (take limit (drop k feed), Some (cursor_of ?x), True)"
      using True assms(2) last by (subst fetch_page) (simp add: Let_def Suc.prems(1))
    ultimately show ?thesis by simp
  qed
qed simp

lemma follow_reads_feed:
  assumes "sorted_wrt before feed" and "0 < limit" and "length feed < n"
  shows "follow_pages n fetch None = Some feed"
  using follow_from [OF assms(1,2), of None 0 n] assms(3) by simp

end

subsection \<open>The query keeps the contract\<close>

lemma sort_key_filter_commute: "sort_key f (filter P xs) = filter P (sort_key f xs)"
  by (induction xs) (simp_all add: filter_insort_triv filter_insort)

lemma keyset_page_fetch:
  assumes "\<And>P. arrange (filter P rows) = filter P (arrange rows)"
  shows "keyset_page after cursor_of arrange limit rows c =
      (let xs = filter (\<lambda>r. case c of None \<Rightarrow> True | Some c \<Rightarrow> after c r) (arrange rows);
           page = take limit xs
       in (page, if limit < length xs \<and> page \<noteq> [] then Some (cursor_of (last page)) else None, limit < length xs))"
  unfolding keyset_page_def assms Let_def by (auto simp: min_def)

lemma descending_filter: "descending key ident (filter P rows) = filter P (descending key ident rows)"
  by (simp add: descending_def sort_key_filter_commute rev_filter)

lemma ascending_filter: "ascending key ident (filter P rows) = filter P (ascending key ident rows)"
  by (simp add: ascending_def sort_key_filter_commute)

interpretation down_feed: keyset_feed "page_down key ident limit rows" "descending key ident rows"
    "\<lambda>x r. below_cursor key ident (key x, ident x) r" "below_cursor key ident" "\<lambda>r. (key r, ident r)" limit
  for key :: "'r \<Rightarrow> 'k :: linorder" and ident limit rows
  by unfold_locales
     (auto simp: page_down_def keyset_page_fetch [OF descending_filter] below_cursor_def)

interpretation up_feed: keyset_feed "page_up key ident limit rows" "ascending key ident rows"
    "\<lambda>x r. above_cursor key ident (key x, ident x) r" "above_cursor key ident" "\<lambda>r. (key r, ident r)" limit
  for key :: "'r \<Rightarrow> 'k :: linorder" and ident limit rows
  by unfold_locales
     (auto simp: page_up_def keyset_page_fetch [OF ascending_filter] above_cursor_def)

lemma strictly_ascending:
  assumes "distinct (map ident rows)"
  shows "sorted_wrt (\<lambda>x r. above_cursor key ident (key x, ident x) r) (ascending key ident rows)"
proof -
  let ?f = "\<lambda>r. (key r, ident r)"
  have "distinct (map ident (ascending key ident rows))"
    using assms by (simp add: ascending_def distinct_map inj_on_def)
  then have "distinct (map ?f (ascending key ident rows))"
    by (auto simp: distinct_map inj_on_def)
  moreover have "sorted (map ?f (ascending key ident rows))" by (simp add: ascending_def)
  ultimately have "sorted_wrt (\<lambda>x y. ?f x < ?f y) (ascending key ident rows)"
    using strict_sorted_iff [of "map ?f (ascending key ident rows)"] by (simp add: sorted_wrt_map)
  then show ?thesis by (rule sorted_wrt_mono_rel [rotated]) (auto simp: above_cursor_def)
qed

lemma strictly_descending:
  assumes "distinct (map ident rows)"
  shows "sorted_wrt (\<lambda>x r. below_cursor key ident (key x, ident x) r) (descending key ident rows)"
  using strictly_ascending [OF assms, of key]
  unfolding descending_def ascending_def sorted_wrt_rev
  by (rule sorted_wrt_mono_rel [rotated]) (auto simp: above_cursor_def below_cursor_def)

lemma follow_down:
  "distinct (map ident rows) \<Longrightarrow> 0 < limit \<Longrightarrow> length rows < n \<Longrightarrow>
   follow_pages n (page_down key ident limit rows) None = Some (descending key ident rows)"
  by (rule down_feed.follow_reads_feed) (simp_all add: strictly_descending, simp add: descending_def)

lemma follow_up:
  "distinct (map ident rows) \<Longrightarrow> 0 < limit \<Longrightarrow> length rows < n \<Longrightarrow>
   follow_pages n (page_up key ident limit rows) None = Some (ascending key ident rows)"
  by (rule up_feed.follow_reads_feed) (simp_all add: strictly_ascending, simp add: ascending_def)

lemma page_down_rows: "page_down key ident limit xs pos = (rows, next_pos, has_more) \<Longrightarrow> set rows \<subseteq> set xs"
  by (auto simp: page_down_def keyset_page_def Let_def descending_def dest!: in_set_takeD)

text \<open>A cursor may be wrapped: the pages read are the same.\<close>

lemma follow_pages_wrapped:
  assumes "\<And>c. fetch (map_option wrap c) = (case fetch' c of (page, next_pos, has_more) \<Rightarrow> (page, map_option wrap next_pos, has_more))"
  shows "follow_pages n fetch (map_option wrap c) = follow_pages n fetch' c"
proof (induction n arbitrary: c)
  case (Suc n)
  then show ?case using Suc.IH [of "Some _"] by (auto simp: assms split: prod.splits option.splits)
qed simp

end
