(* ===== verification/Orders.thy ===== *)
theory Orders
  imports Pricing Gateways Calendar Keyset "HOL-Library.Multiset"
begin

section \<open>Order lifecycle\<close>

text \<open>
  \<open>apps/payment/services/orders.py\<close>. An operation takes the database and the loaded
  \<open>Order\<close> object, which may be older than the row, and writes the columns it assigns with
  the values it computed from the object, as a flush does. The order number is drawn by
  the caller's random generator, so it is an argument; new row ids likewise. A pagination
  cursor is the pair (\<open>created_at\<close>, \<open>id\<close>) the opaque string encodes. The
  lemmas show which status changes each operation can make, that settled orders never
  become unsettled, and that paging through an order history returns every order once.
\<close>

definition CANCELLABLE :: "OrderStatus set" where
  "CANCELLABLE = {Pending, AwaitingPayment}"

definition SETTLED :: "OrderStatus set" where
  "SETTLED = {Paid, PartiallyRefunded, Refunded}"

definition order_number_alphabet :: string where
  "order_number_alphabet = ''23456789ABCDEFGHJKMNPQRSTVWXYZ''"

definition generate_order_number :: "string \<Rightarrow> timestamp \<Rightarrow> nat list \<Rightarrow> string" where
  "generate_order_number prefix now choices =
     prefix @ ''-'' @ yyyymmdd now @ ''-'' @
     map (\<lambda>n. order_number_alphabet ! (n mod length order_number_alphabet)) (take 8 choices)"

record order_create =
  oc_items :: "order_item_in list"
  oc_coupon_code :: "string option"
  oc_provider :: "PaymentProvider option"
  oc_currency :: string
  oc_billing_name :: "string option"
  oc_billing_email :: "string option"
  oc_billing :: "billing_address option"
  oc_affiliate_code :: "string option"
  oc_return_url :: "string option"

subsection \<open>Reads\<close>

definition get_order :: "payment_db \<Rightarrow> uuid \<Rightarrow> order result" where
  "get_order db order_id =
     (case first_row (\<lambda>r. o_id r = order_id) (orders db) of
        None \<Rightarrow> Inl (raise_default NotFoundError) | Some ord \<Rightarrow> Inr ord)"

definition get_order_for_user :: "payment_db \<Rightarrow> uuid \<Rightarrow> uuid \<Rightarrow> order result" where
  "get_order_for_user db order_id user_id =
     (case get_order db order_id of Inl e \<Rightarrow> Inl e
      | Inr ord \<Rightarrow> if o_user_id ord \<noteq> user_id then Inl (raise_default NotFoundError) else Inr ord)"

definition get_order_by_number :: "payment_db \<Rightarrow> string \<Rightarrow> order result" where
  "get_order_by_number db number =
     (case first_row (\<lambda>r. o_order_number r = number) (orders db) of
        None \<Rightarrow> Inl (raise_default NotFoundError) | Some ord \<Rightarrow> Inr ord)"

definition find_by_provider_reference ::
  "payment_db \<Rightarrow> PaymentProvider \<Rightarrow> string option \<Rightarrow> uuid option \<Rightarrow> order option" where
  "find_by_provider_reference db provider provider_order_id order_id =
     (if order_id = None \<and> \<not> truthy provider_order_id then None
      else max_row o_created_at
             (filter (\<lambda>r. (order_id \<noteq> None \<and> Some (o_id r) = order_id)
                 \<or> (truthy provider_order_id \<and> o_provider_order_id r = provider_order_id)) (orders db)))"

definition find_by_idempotency_key :: "payment_db \<Rightarrow> string \<Rightarrow> uuid \<Rightarrow> order option" where
  "find_by_idempotency_key db k user_id =
     first_row (\<lambda>r. o_idempotency_key r = Some k \<and> o_user_id r = user_id) (orders db)"

text \<open>Keyset pagination on (\<open>created_at\<close>, \<open>id\<close>), newest first.\<close>

type_synonym order_cursor = "timestamp \<times> uuid"

definition before_cursor :: "order_cursor \<Rightarrow> order \<Rightarrow> bool" where
  "before_cursor c r \<longleftrightarrow>
     o_created_at r < fst c \<or> (o_created_at r = fst c \<and> o_id r < snd c)"

definition newest_first :: "order \<Rightarrow> int \<times> int" where
  "newest_first r = (- o_created_at r, - int (o_id r))"

definition list_for_user ::
  "payment_db \<Rightarrow> uuid \<Rightarrow> order_cursor option \<Rightarrow> nat \<Rightarrow> OrderStatus option \<Rightarrow>
   order list \<times> order_cursor option \<times> bool" where
  "list_for_user db user_id cursor limit status =
     (let hits = filter (\<lambda>r. o_user_id r = user_id
             \<and> (case status of None \<Rightarrow> True | Some s \<Rightarrow> o_status r = s)
             \<and> (case cursor of None \<Rightarrow> True | Some c \<Rightarrow> before_cursor c r)) (orders db);
          rows = take (limit + 1) (sort_key newest_first hits);
          has_more = length rows > limit;
          page = take limit rows;
          next_cursor = (if page \<noteq> [] \<and> has_more
                         then Some (o_created_at (last page), o_id (last page)) else None)
      in (page, next_cursor, has_more))"

definition list_all_orders ::
  "payment_db \<Rightarrow> OrderStatus option \<Rightarrow> uuid option \<Rightarrow> timestamp option \<Rightarrow> timestamp option \<Rightarrow>
   nat \<Rightarrow> nat \<Rightarrow> order list \<times> nat" where
  "list_all_orders db status user_id since until limit offset =
     (let hits = filter (\<lambda>r. (case status of None \<Rightarrow> True | Some s \<Rightarrow> o_status r = s)
             \<and> (case user_id of None \<Rightarrow> True | Some u \<Rightarrow> o_user_id r = u)
             \<and> (case since of None \<Rightarrow> True | Some t \<Rightarrow> t \<le> o_created_at r)
             \<and> (case until of None \<Rightarrow> True | Some t \<Rightarrow> o_created_at r \<le> t)) (orders db)
      in (page_rows limit offset (order_by_desc o_created_at hits), length hits))"

subsection \<open>Creation\<close>

definition opt_str_json :: "string option \<Rightarrow> json" where
  "opt_str_json v = (case v of None \<Rightarrow> JNull | Some s \<Rightarrow> JStr s)"

definition dump_billing :: "billing_address option \<Rightarrow> jobj" where
  "dump_billing billing =
     (case billing of None \<Rightarrow> []
      | Some b \<Rightarrow>
          [(''line1'', opt_str_json (ba_line1 b)), (''line2'', opt_str_json (ba_line2 b)),
           (''city'', opt_str_json (ba_city b)), (''state'', opt_str_json (ba_state b)),
           (''state_code'', opt_str_json (ba_state_code b)),
           (''postal_code'', opt_str_json (ba_postal_code b)), (''country'', JStr (ba_country b)),
           (''gstin'', opt_str_json (ba_gstin b))])"

definition order_of_cart ::
  "settings \<Rightarrow> timestamp \<Rightarrow> uuid \<Rightarrow> string \<Rightarrow> uuid \<Rightarrow> order_create \<Rightarrow> PricedCart \<Rightarrow>
   string option \<Rightarrow> string option \<Rightarrow> order" where
  "order_of_cart st now new_id number user_id payload cart idempotency_key billing_email =
     \<lparr>o_id = new_id, o_user_id = user_id, o_order_number = number, o_status = Pending,
      o_subtotal_minor = pc_subtotal_minor cart, o_discount_minor = pc_discount_minor cart,
      o_tax_minor = tr_total_minor (pc_tax cart), o_total_minor = pc_total_minor cart,
      o_refunded_minor = 0, o_currency = pc_currency cart,
      o_cgst_minor = tr_cgst_minor (pc_tax cart), o_sgst_minor = tr_sgst_minor (pc_tax cart),
      o_igst_minor = tr_igst_minor (pc_tax cart), o_tax_percent = tr_percent (pc_tax cart),
      o_place_of_supply = tr_place_of_supply (pc_tax cart), o_provider = None,
      o_provider_order_id = None, o_checkout_url = None, o_coupon_id = pc_coupon_id cart,
      o_coupon_code = (if pc_coupon_applied cart then pc_coupon_code cart else None),
      o_affiliate_code = oc_affiliate_code payload, o_idempotency_key = idempotency_key,
      o_billing_name = oc_billing_name payload,
      o_billing_email = or_opt billing_email (oc_billing_email payload),
      o_billing_address = dump_billing (oc_billing payload), o_paid_at = None,
      o_cancelled_at = None, o_expires_at = Some (now + microseconds (order_ttl_seconds st)),
      o_failure_reason = None, o_created_at = now,
      o_items = map (\<lambda>l. \<lparr>oi_book_id = ql_book_id l, oi_title = ql_title l, oi_slug = ql_slug l,
                    oi_quantity = ql_quantity l, oi_unit_price_minor = ql_unit_price_minor l,
                    oi_line_total_minor = ql_line_total_minor l\<rparr>) (pc_lines cart)\<rparr>"

text \<open>The \<open>CHECK\<close> constraints of \<open>order_items\<close>.\<close>

definition item_checks :: "order_item \<Rightarrow> bool" where
  "item_checks i \<longleftrightarrow> 0 < oi_quantity i \<and> 0 \<le> oi_unit_price_minor i"

definition create_order ::
  "payment_db \<Rightarrow> settings \<Rightarrow> timestamp \<Rightarrow> uuid \<Rightarrow> string \<Rightarrow> uuid \<Rightarrow> uuid \<Rightarrow> order_create \<Rightarrow> PricedCart \<Rightarrow>
   string option \<Rightarrow> string option \<Rightarrow> (payment_db \<times> order) result" where
  "create_order db st now new_id number redemption_id user_id payload cart idempotency_key billing_email =
     (case assert_consistent cart of Inl e \<Rightarrow> Inl e
      | Inr _ \<Rightarrow>
        let ord = order_of_cart st now new_id number user_id payload cart idempotency_key billing_email in
        if \<not> order_checks ord \<or> \<not> list_all item_checks (o_items ord)
        then Inl (raise_code ConflictError ''order_create_conflict'')
        else case insert_unique order_clash ord (orders db) of
          None \<Rightarrow> Inl (raise_code ConflictError ''order_create_conflict'')
        | Some t \<Rightarrow>
            let db1 = db\<lparr>orders := t\<rparr> in
            case (if pc_coupon_applied cart then pc_coupon_id cart else None) of
              None \<Rightarrow> Inr (db1, ord)
            | Some cid \<Rightarrow>
                (case get_coupon db1 cid of Inl e \<Rightarrow> Inl e
                 | Inr c \<Rightarrow>
                     (case redeem db1 c new_id user_id (pc_discount_minor cart) redemption_id of
                        Inl e \<Rightarrow> Inl e
                      | Inr (db2, _) \<Rightarrow> Inr (db2, ord))))"

text \<open>A flush of the columns an operation assigned on the object \<open>ord\<close>.\<close>

definition save_order ::
  "payment_db \<Rightarrow> order \<Rightarrow> (order \<Rightarrow> order) \<Rightarrow> payment_db \<times> order" where
  "save_order db ord assign =
     (db\<lparr>orders := update_rows (\<lambda>r. o_id r = o_id ord) assign (orders db)\<rparr>, assign ord)"

definition join_comma :: "string list \<Rightarrow> string" where
  "join_comma xs = (case xs of [] \<Rightarrow> '''' | y # ys \<Rightarrow> y @ concat (map (\<lambda>s. '', '' @ s) ys))"

definition order_description :: "order \<Rightarrow> string" where
  "order_description ord =
     (let d = take 250 (join_comma (map oi_title (o_items ord)))
      in if d = [] then o_order_number ord else d)"

definition attach_gateway ::
  "payment_db \<Rightarrow> settings \<Rightarrow> gateway_env \<Rightarrow> order \<Rightarrow> PaymentProvider option \<Rightarrow> string option \<Rightarrow>
   (payment_db \<times> order \<times> string option \<times> json) result" where
  "attach_gateway db st env ord requested return_url =
     (case resolve_gateway st requested (o_total_minor ord) of Inl e \<Rightarrow> Inl e
      | Inr g \<Rightarrow>
          (case gateway_create_order st env g
                  \<lparr>or_order_id = o_id ord, or_order_number = o_order_number ord,
                   or_amount_minor = o_total_minor ord, or_currency = o_currency ord,
                   or_customer_email = o_billing_email ord, or_return_url = return_url,
                   or_description = order_description ord\<rparr> of
             Inl e \<Rightarrow> Inl e
           | Inr po \<Rightarrow>
               (case text_value (po_checkout_url po) of Inl e \<Rightarrow> Inl e
                | Inr url \<Rightarrow>
                    (let (db', ord') = save_order db ord (\<lambda>r. r\<lparr>o_provider := Some g,
                           o_provider_order_id := Some (po_provider_order_id po),
                           o_checkout_url := url, o_status := AwaitingPayment\<rparr>)
                     in Inr (db', ord', url, po_client_secret po)))))"

subsection \<open>Transitions\<close>

definition cancel ::
  "payment_db \<Rightarrow> timestamp \<Rightarrow> order \<Rightarrow> string option \<Rightarrow> (payment_db \<times> order) result" where
  "cancel db now ord reason =
     (if o_status ord \<in> SETTLED then Inl (raise_code ConflictError ''order_already_paid'')
      else if o_status ord \<notin> CANCELLABLE then Inl (raise_code ConflictError ''order_not_cancellable'')
      else let (db', ord') = save_order db ord (\<lambda>r. r\<lparr>o_status := Cancelled,
                 o_cancelled_at := Some now, o_failure_reason := reason\<rparr>)
           in Inr (release db' (o_id ord), ord'))"

definition mark_failed :: "payment_db \<Rightarrow> order \<Rightarrow> string option \<Rightarrow> payment_db \<times> order" where
  "mark_failed db ord reason =
     (if o_status ord \<in> SETTLED then (db, ord)
      else save_order db ord (\<lambda>r. r\<lparr>o_status := Failed,
             o_failure_reason := or_opt (Some (take 500 (or_str reason ''''))) None\<rparr>))"

definition mark_paid :: "payment_db \<Rightarrow> timestamp \<Rightarrow> order \<Rightarrow> payment_db \<times> order \<times> bool" where
  "mark_paid db now ord =
     (if o_status ord \<in> SETTLED then (db, ord, False)
      else let (db', ord') = save_order db ord (\<lambda>r. r\<lparr>o_status := Paid, o_paid_at := Some now,
                 o_failure_reason := None\<rparr>)
           in (db', ord', True))"

definition apply_refund :: "payment_db \<Rightarrow> order \<Rightarrow> money \<Rightarrow> (payment_db \<times> order) result" where
  "apply_refund db ord amount_minor =
     (if amount_minor \<le> 0 then Inl (raise_default BadRequestError)
      else if amount_minor > refundable_minor ord
      then Inl (raise_code BadRequestError ''refund_exceeds_remaining'')
      else
        let refunded = o_refunded_minor ord + amount_minor;
            status = (if refunded \<ge> o_total_minor ord then Refunded else PartiallyRefunded);
            (db', ord') = save_order db ord (\<lambda>r. r\<lparr>o_refunded_minor := refunded, o_status := status\<rparr>)
        in if list_all order_checks (orders db') then Inr (db', ord')
           else Inl (PyExn ''IntegrityError''))"

subsection \<open>Housekeeping\<close>

definition stale_order :: "timestamp \<Rightarrow> order \<Rightarrow> bool" where
  "stale_order now r \<longleftrightarrow> o_status r \<in> {Pending, AwaitingPayment} \<and>
     (case o_expires_at r of None \<Rightarrow> False | Some t \<Rightarrow> t < now)"

definition expire_one :: "timestamp \<Rightarrow> order \<Rightarrow> payment_db \<Rightarrow> payment_db" where
  "expire_one now ord db =
     release (fst (save_order db ord (\<lambda>r. r\<lparr>o_status := Cancelled, o_cancelled_at := Some now,
                     o_failure_reason := Some ''Expired before payment.''\<rparr>))) (o_id ord)"

definition expire_stale :: "payment_db \<Rightarrow> timestamp \<Rightarrow> nat \<Rightarrow> payment_db \<times> nat" where
  "expire_stale db now batch =
     (let stale = take batch (filter (stale_order now) (orders db))
      in (fold (expire_one now) stale db, length stale))"

definition require_owner :: "order \<Rightarrow> uuid \<Rightarrow> unit result" where
  "require_owner ord user_id =
     (if o_user_id ord \<noteq> user_id then Inl (raise_default ForbiddenError) else Inr ())"

subsection \<open>Lemmas: what the operations leave alone\<close>

lemma release_one_orders [simp]: "orders (release_one r db) = orders db"
  by (simp add: release_one_def)

lemma release_orders [simp]: "orders (release db order_id) = orders db"
proof -
  have "orders (fold release_one rs d) = orders d" for rs d
    by (induction rs arbitrary: d) auto
  then show ?thesis by (simp add: release_def)
qed

lemma release_empties: "x \<in> set (redemptions (release db order_id)) \<Longrightarrow> cr_order_id x \<noteq> order_id"
proof -
  have sub: "set (redemptions (fold release_one rs d)) \<subseteq> {x \<in> set (redemptions d). cr_id x \<notin> cr_id ` set rs}"
    for rs d
    by (induction rs arbitrary: d) (fastforce simp: release_one_def delete_rows_def)+
  assume "x \<in> set (redemptions (release db order_id))"
  with sub [of "filter (\<lambda>r. cr_order_id r = order_id) (redemptions db)" db] show ?thesis
    by (auto simp: release_def release_rows_def)
qed

lemma redeem_orders: "redeem db c oid uid d nid = Inr (db', r) \<Longrightarrow> orders db' = orders db"
  by (drule redeem_effect(1)) simp

lemma save_order_simps [simp]:
  "orders (fst (save_order db ord f)) = update_rows (\<lambda>r. o_id r = o_id ord) f (orders db)"
  "redemptions (fst (save_order db ord f)) = redemptions db"
  "coupons (fst (save_order db ord f)) = coupons db"
  "snd (save_order db ord f) = f ord"
  by (simp_all add: save_order_def)

lemma save_order_row:
  assumes "first_row (\<lambda>r. o_id r = o_id ord) (orders db) = Some ord" and "\<And>r. o_id (f r) = o_id r"
    and "save_order db ord f = (db', ord')"
  shows "first_row (\<lambda>r. o_id r = o_id ord) (orders db') = Some ord'"
  using assms by (auto simp: save_order_def table_simps)

lemma save_order_other:
  assumes "save_order db ord f = (db', ord')" and "\<And>r. o_id (f r) = o_id r" and "k \<noteq> o_id ord"
  shows "first_row (\<lambda>r. o_id r = k) (orders db') = first_row (\<lambda>r. o_id r = k) (orders db)"
proof -
  have "first_row (\<lambda>r. o_id r = k) (orders db') =
      map_option (\<lambda>r. if o_id r = o_id ord then f r else r) (first_row (\<lambda>r. o_id r = k) (orders db))"
    using assms(1,2) by (auto simp: save_order_def table_simps)
  also have "\<dots> = first_row (\<lambda>r. o_id r = k) (orders db)"
    using assms(3) by (cases "first_row (\<lambda>r. o_id r = k) (orders db)") (auto dest: first_row_Some)
  finally show ?thesis .
qed

subsection \<open>The state machine of an order\<close>

text \<open>
  One step of an order's life, on the row: opening it on a gateway (the checkout does this
  with the order it has just created), a cancellation, a failed attempt, a settlement, a
  refund (which the refund service only issues on a paid order) and the expiry job. The
  object each operation holds is the current row.
\<close>

inductive order_step :: "order \<Rightarrow> order \<Rightarrow> bool" where
  open_step: "o_status ord = Pending \<Longrightarrow>
    attach_gateway db st env ord requested url = Inr (db', ord', u, s) \<Longrightarrow> order_step ord ord'"
| cancel_step: "cancel db now ord reason = Inr (db', ord') \<Longrightarrow> order_step ord ord'"
| fail_step: "mark_failed db ord reason = (db', ord') \<Longrightarrow> order_step ord ord'"
| paid_step: "mark_paid db now ord = (db', ord', newly) \<Longrightarrow> order_step ord ord'"
| refund_step: "is_paid ord \<Longrightarrow> apply_refund db ord amount = Inr (db', ord') \<Longrightarrow> order_step ord ord'"
| expire_step: "stale_order now ord \<Longrightarrow>
    order_step ord (ord\<lparr>o_status := Cancelled, o_cancelled_at := Some now,
      o_failure_reason := Some ''Expired before payment.''\<rparr>)"

inductive_cases order_stepE: "order_step ord ord'"

definition order_ok :: "order \<Rightarrow> bool" where
  "order_ok ord \<longleftrightarrow> order_checks ord
     \<and> (o_status ord \<in> SETTLED \<longrightarrow> o_paid_at ord \<noteq> None)
     \<and> (o_status ord \<notin> {Refunded, PartiallyRefunded} \<longrightarrow> o_refunded_minor ord = 0)
     \<and> (o_status ord = Refunded \<longrightarrow> o_refunded_minor ord = o_total_minor ord)
     \<and> (o_status ord = PartiallyRefunded \<longrightarrow>
          0 < o_refunded_minor ord \<and> o_refunded_minor ord < o_total_minor ord)"

text \<open>The amounts and identity of an order, which no transition touches.\<close>

definition order_terms :: "order \<Rightarrow> uuid \<times> uuid \<times> string \<times> money \<times> money \<times> money \<times> money \<times> order_item list" where
  "order_terms ord = (o_id ord, o_user_id ord, o_order_number ord, o_subtotal_minor ord,
     o_discount_minor ord, o_tax_minor ord, o_total_minor ord, o_items ord)"

lemma apply_refund_result:
  assumes "apply_refund db ord amount = Inr (db', ord')"
  shows "ord' = ord\<lparr>o_refunded_minor := o_refunded_minor ord + amount,
           o_status := (if o_refunded_minor ord + amount \<ge> o_total_minor ord then Refunded
                        else PartiallyRefunded)\<rparr>"
    and "0 < amount" and "amount \<le> refundable_minor ord"
    and "db' = fst (save_order db ord (\<lambda>r. r\<lparr>o_refunded_minor := o_refunded_minor ord + amount,
           o_status := (if o_refunded_minor ord + amount \<ge> o_total_minor ord then Refunded
                        else PartiallyRefunded)\<rparr>))"
  using assms by (auto simp: apply_refund_def Let_def save_order_def split: if_splits)

lemma mark_paid_result:
  "mark_paid db now ord = (db', ord', newly) \<Longrightarrow>
     ord' = (if o_status ord \<in> SETTLED then ord
             else ord\<lparr>o_status := Paid, o_paid_at := Some now, o_failure_reason := None\<rparr>)
     \<and> newly = (o_status ord \<notin> SETTLED)"
  by (auto simp: mark_paid_def save_order_def split: if_splits)

lemma order_step_shape:
  assumes "order_step ord ord'"
  shows "order_terms ord' = order_terms ord"
    and "o_status ord \<in> SETTLED \<Longrightarrow> o_status ord' \<in> SETTLED \<and> o_paid_at ord' = o_paid_at ord"
    and "o_status ord \<notin> SETTLED \<Longrightarrow> o_refunded_minor ord' = o_refunded_minor ord"
  using assms
  by (induction rule: order_step.induct)
    (auto simp: order_terms_def attach_gateway_def cancel_def mark_failed_def mark_paid_def
      save_order_def stale_order_def SETTLED_def is_paid_def dest!: apply_refund_result(1)
      split: if_splits sum.splits prod.splits)

lemma order_step_ok:
  assumes "order_step ord ord'" and "order_ok ord"
  shows "order_ok ord' \<and> o_refunded_minor ord \<le> o_refunded_minor ord'"
  using assms
proof (induction rule: order_step.induct)
  case (refund_step ord db amount db' ord')
  note r = apply_refund_result [OF refund_step(2)]
  from r(3) refund_step(3) have "o_refunded_minor ord + amount \<le> o_total_minor ord"
    by (auto simp: refundable_minor_def order_ok_def order_checks_def)
  with r(1,2) refund_step(1,3) show ?case
    by (auto simp: order_ok_def order_checks_def is_paid_def SETTLED_def)
qed (auto simp: order_ok_def order_checks_def attach_gateway_def cancel_def mark_failed_def
      mark_paid_def save_order_def stale_order_def SETTLED_def CANCELLABLE_def
      split: if_splits sum.splits prod.splits)

definition order_run :: "order \<Rightarrow> order \<Rightarrow> bool" where
  "order_run = order_step\<^sup>*\<^sup>*"

subsection \<open>Properties: the lifecycle\<close>

text \<open>
  C4: State moves in one direction. Over any number of steps a well-formed order stays
  well-formed: its amounts, items and owner never change; once money moved it never becomes
  unpaid, whatever failure webhooks, cancellations or expiry runs follow, and its payment
  time is kept; refunds only accumulate, never past the total, and the status is
  fully refunded exactly when everything was given back.
\<close>

theorem order_lifecycle:
  assumes "order_run ord ord'" and "order_ok ord"
  shows "order_ok ord' \<and> order_terms ord' = order_terms ord
     \<and> (o_status ord \<in> SETTLED \<longrightarrow> o_status ord' \<in> SETTLED \<and> o_paid_at ord' = o_paid_at ord)
     \<and> o_refunded_minor ord \<le> o_refunded_minor ord'
     \<and> (o_status ord' = Refunded \<longrightarrow> o_refunded_minor ord' = o_total_minor ord)"
  using assms unfolding order_run_def
proof (induction rule: rtranclp_induct)
  case base
  then show ?case by (simp add: order_ok_def)
next
  case (step y z)
  note shape = order_step_shape [OF step(2)] and ok = order_step_ok [OF step(2)]
  have "o_total_minor y = o_total_minor ord" "o_total_minor z = o_total_minor y"
    using step(3,4) shape(1) by (auto simp: order_terms_def)
  with step shape ok show ?case by (auto simp: order_ok_def)
qed

definition sample_order :: order where
  "sample_order = \<lparr>o_id = 40, o_user_id = 9, o_order_number = ''KOS-20260804-7QK4M2XA'',
     o_status = AwaitingPayment, o_subtotal_minor = 1000, o_discount_minor = 0, o_tax_minor = 153,
     o_total_minor = 1000, o_refunded_minor = 0, o_currency = ''INR'', o_cgst_minor = 76,
     o_sgst_minor = 77, o_igst_minor = 0, o_tax_percent = 18, o_place_of_supply = Some ''GJ'',
     o_provider = Some Manual, o_provider_order_id = Some ''manual_40'', o_checkout_url = None,
     o_coupon_id = None, o_coupon_code = None, o_affiliate_code = None, o_idempotency_key = None,
     o_billing_name = None, o_billing_email = None, o_billing_address = [], o_paid_at = None,
     o_cancelled_at = None, o_expires_at = Some 3600000000, o_failure_reason = None,
     o_created_at = 0,
     o_items = [\<lparr>oi_book_id = 7, oi_title = ''Dune'', oi_slug = Some ''dune'', oi_quantity = 1,
       oi_unit_price_minor = 1000, oi_line_total_minor = 1000\<rparr>]\<rparr>"

definition sample_order_db :: payment_db where
  "sample_order_db = empty_db\<lparr>orders := [sample_order]\<rparr>"

theorem order_lifecycle_witness:
  "order_run (sample_order\<lparr>o_status := Paid, o_paid_at := Some 5\<rparr>)
     (sample_order\<lparr>o_status := PartiallyRefunded, o_paid_at := Some 5, o_refunded_minor := 400\<rparr>)
   \<and> order_ok (sample_order\<lparr>o_status := PartiallyRefunded, o_paid_at := Some 5, o_refunded_minor := 400\<rparr>)"
proof -
  let ?paid = "sample_order\<lparr>o_status := Paid, o_paid_at := Some 5\<rparr>"
  let ?part = "?paid\<lparr>o_refunded_minor := 400, o_status := PartiallyRefunded\<rparr>"
  have ok: "order_ok ?paid" by (simp add: order_ok_def order_checks_def sample_order_def SETTLED_def)
  have "apply_refund (empty_db\<lparr>orders := [?paid]\<rparr>) ?paid 400 = Inr (empty_db\<lparr>orders := [?part]\<rparr>, ?part)"
    by (simp add: apply_refund_def refundable_minor_def sample_order_def save_order_def Let_def
        empty_db_def order_checks_def)
  then have "order_step ?paid ?part"
    by (rule refund_step [rotated]) (simp add: is_paid_def)
  then have "order_run ?paid ?part" by (simp add: order_run_def)
  moreover have "?part = sample_order\<lparr>o_status := PartiallyRefunded, o_paid_at := Some 5, o_refunded_minor := 400\<rparr>"
    by (simp add: sample_order_def)
  ultimately show ?thesis using order_lifecycle [OF _ ok] by metis
qed

subsection \<open>Paging through an order history\<close>

definition history :: "payment_db \<Rightarrow> uuid \<Rightarrow> OrderStatus option \<Rightarrow> order list" where
  "history db u status = sort_key newest_first
     (filter (\<lambda>r. o_user_id r = u \<and> (case status of None \<Rightarrow> True | Some s \<Rightarrow> o_status r = s)) (orders db))"

lemma newest_first_cursor:
  "before_cursor (o_created_at x, o_id x) r \<longleftrightarrow> newest_first x < newest_first r"
  by (auto simp: before_cursor_def newest_first_def less_prod_def)

lemma list_for_user_history:
  "list_for_user db u cursor limit status =
     (let rows = filter (\<lambda>r. case cursor of None \<Rightarrow> True | Some c \<Rightarrow> before_cursor c r) (history db u status);
          page = take limit rows
      in (page, if page \<noteq> [] \<and> limit < length rows
                then Some (o_created_at (last page), o_id (last page)) else None, limit < length rows))"
proof -
  have "sort_key newest_first (filter (\<lambda>r. o_user_id r = u
          \<and> (case status of None \<Rightarrow> True | Some s \<Rightarrow> o_status r = s)
          \<and> (case cursor of None \<Rightarrow> True | Some c \<Rightarrow> before_cursor c r)) (orders db))
      = filter (\<lambda>r. case cursor of None \<Rightarrow> True | Some c \<Rightarrow> before_cursor c r) (history db u status)"
    unfolding history_def sort_key_filter_commute filter_filter by (rule filter_cong) auto
  then show ?thesis unfolding list_for_user_def Let_def by (simp only:) (auto simp: min_def)
qed

interpretation order_feed: keyset_feed "\<lambda>c. list_for_user db u c limit status" "history db u status"
    "\<lambda>x r. newest_first x < newest_first r" before_cursor "\<lambda>r. (o_created_at r, o_id r)" limit
  for db u limit status
  by unfold_locales (auto simp: list_for_user_history newest_first_cursor Let_def)

lemma history_sorted:
  assumes "distinct (map o_id (orders db))"
  shows "sorted_wrt (\<lambda>x r. newest_first x < newest_first r) (history db u status)"
proof -
  have "distinct (map o_id (history db u status))"
    using assms by (simp add: history_def distinct_map inj_on_def)
  then have "distinct (map newest_first (history db u status))"
    by (auto simp: distinct_map inj_on_def newest_first_def)
  moreover have "sorted (map newest_first (history db u status))" by (simp add: history_def)
  ultimately show ?thesis
    using strict_sorted_iff [of "map newest_first (history db u status)"] by (simp add: sorted_wrt_map)
qed

text \<open>
  Following the cursor reads the whole history. For any page size and status filter, a
  client that starts without a cursor and follows \<open>next_cursor\<close> reaches a last page after
  at most one request per order, and the pages in order are exactly the customer's orders,
  newest first, each once.
\<close>

lemma order_history_paging:
  assumes "distinct (map o_id (orders db))" and "0 < limit"
  shows "follow_pages (Suc (length (orders db))) (\<lambda>c. list_for_user db user c limit status) None = Some (history db user status)
    \<and> mset (history db user status) = mset (filter (\<lambda>r. o_user_id r = user \<and>
          (case status of None \<Rightarrow> True | Some s \<Rightarrow> o_status r = s)) (orders db))
    \<and> sorted (map newest_first (history db user status))"
proof -
  have "length (history db user status) < Suc (length (orders db))"
    by (simp add: history_def le_imp_less_Suc)
  from order_feed.follow_reads_feed [OF history_sorted [OF assms(1)] assms(2) this]
  show ?thesis by (simp add: history_def del: follow_pages.simps)
qed

subsection \<open>Creation and expiry\<close>

lemma create_order_cases:
  assumes "create_order db st now new_id number red_id user payload cart key email = Inr (db', ord)"
  shows "ord = order_of_cart st now new_id number user payload cart key email"
    and "orders db' = orders db @ [ord]" and "order_checks ord" and "assert_consistent cart = Inr ()"
    and "\<forall>r \<in> set (orders db). \<not> order_clash ord r"
    and "case (if pc_coupon_applied cart then pc_coupon_id cart else None) of
           None \<Rightarrow> redemptions db' = redemptions db \<and> coupons db' = coupons db
         | Some cid \<Rightarrow> (\<exists>c r. get_coupon (db\<lparr>orders := orders db @ [ord]\<rparr>) cid = Inr c \<and>
             redeem (db\<lparr>orders := orders db @ [ord]\<rparr>) c new_id user (pc_discount_minor cart) red_id
               = Inr (db', r))"
  using assms unfolding create_order_def Let_def
  by (auto simp: insert_unique_Some dest: redeem_orders
      split: sum.splits option.splits if_splits prod.splits)

text \<open>
  An order is the priced cart, written down. When creation succeeds, the stored order
  can be read back by its id and carries exactly the cart's amounts, whose sum is
  consistent; its lines are the quote's lines with the prices of that moment; no earlier
  order is changed; it is pending, unpaid and expires after the configured time; and the
  coupon is consumed in the same transaction exactly when one was applied: one new
  redemption row for this order with the discount it received.
\<close>

lemma create_order_records_cart:
  assumes "create_order db st now new_id number red_id user payload cart key email = Inr (db', ord)"
    and "new_id \<notin> o_id ` set (orders db)"
  shows "get_order db' new_id = Inr ord \<and> orders db' = orders db @ [ord] \<and> order_ok ord
    \<and> o_subtotal_minor ord = pc_subtotal_minor cart \<and> o_discount_minor ord = pc_discount_minor cart
    \<and> o_total_minor ord = o_subtotal_minor ord - o_discount_minor ord
        + (if pc_tax_inclusive cart then 0 else o_tax_minor ord)
    \<and> map oi_line_total_minor (o_items ord) = map ql_line_total_minor (pc_lines cart)
    \<and> o_status ord = Pending \<and> o_expires_at ord = Some (now + microseconds (order_ttl_seconds st))
    \<and> (if pc_coupon_applied cart \<and> pc_coupon_id cart \<noteq> None
       then redemptions db' = redemptions db @ [\<lparr>cr_id = red_id,
              cr_coupon_id = opt_default (pc_coupon_id cart) 0, cr_order_id = new_id,
              cr_user_id = user, cr_discount_minor = pc_discount_minor cart\<rparr>]
       else redemptions db' = redemptions db \<and> coupons db' = coupons db)"
proof -
  note c = create_order_cases [OF assms(1)]
  have "first_row (\<lambda>r. o_id r = new_id) (orders db) = None"
    using assms(2) by (auto simp: first_row_None)
  then have get: "get_order db' new_id = Inr ord"
    by (simp add: get_order_def c(2) table_simps) (simp add: c(1) order_of_cart_def)
  have red: "if pc_coupon_applied cart \<and> pc_coupon_id cart \<noteq> None
       then redemptions db' = redemptions db @ [\<lparr>cr_id = red_id,
              cr_coupon_id = opt_default (pc_coupon_id cart) 0, cr_order_id = new_id,
              cr_user_id = user, cr_discount_minor = pc_discount_minor cart\<rparr>]
       else redemptions db' = redemptions db \<and> coupons db' = coupons db"
  proof (cases "if pc_coupon_applied cart then pc_coupon_id cart else None")
    case None
    with c(6) show ?thesis by (auto split: if_splits)
  next
    case (Some cid)
    with c(6) obtain cp r where cp: "get_coupon (db\<lparr>orders := orders db @ [ord]\<rparr>) cid = Inr cp"
      and r: "redeem (db\<lparr>orders := orders db @ [ord]\<rparr>) cp new_id user (pc_discount_minor cart) red_id
               = Inr (db', r)" by auto
    have "c_id cp = cid" using cp by (auto simp: get_coupon_def split: option.splits dest: first_row_Some)
    with redeem_effect(1,2) [OF r] Some show ?thesis
      by (auto simp: opt_default_def split: if_splits)
  qed
  show ?thesis
    using get c(2,3) c(4) red
    by (auto simp: c(1) assert_consistent_iff order_of_cart_def order_ok_def SETTLED_def)
qed

definition sample_payload :: order_create where
  "sample_payload = \<lparr>oc_items = sample_items, oc_coupon_code = None, oc_provider = None,
     oc_currency = ''INR'', oc_billing_name = None, oc_billing_email = None, oc_billing = None,
     oc_affiliate_code = None, oc_return_url = None\<rparr>"

definition expired :: "timestamp \<Rightarrow> order \<Rightarrow> order" where
  "expired now r = r\<lparr>o_status := Cancelled, o_cancelled_at := Some now,
     o_failure_reason := Some ''Expired before payment.''\<rparr>"

lemma release_redemptions_subset: "set (redemptions (release db order_id)) \<subseteq> set (redemptions db)"
proof -
  have "set (redemptions (fold release_one rs d)) \<subseteq> set (redemptions d)" for rs d
    by (induction rs arbitrary: d) (fastforce simp: release_one_def delete_rows_def)+
  then show ?thesis by (simp add: release_def)
qed

lemma coupon_books_balance_cong:
  "coupons db' = coupons db \<Longrightarrow> redemptions db' = redemptions db \<Longrightarrow>
     coupon_books_balance db' = coupon_books_balance db"
  by (simp add: coupon_books_balance_def)

lemma expire_fold:
  shows "orders (fold (expire_one now) xs db) =
      map (\<lambda>r. if o_id r \<in> o_id ` set xs then expired now r else r) (orders db)"
    and "set (redemptions (fold (expire_one now) xs db)) \<subseteq>
      {x \<in> set (redemptions db). cr_order_id x \<notin> o_id ` set xs}"
    and "coupon_books_balance db \<Longrightarrow> coupon_books_balance (fold (expire_one now) xs db)"
proof (induction xs arbitrary: db)
  case (Cons x xs)
  { case 1
    show ?case
      using Cons.IH(1) by (simp add: expire_one_def update_rows_def expired_def comp_def)
  next
    case 2
    have "set (redemptions (expire_one now x db)) \<subseteq> {y \<in> set (redemptions db). cr_order_id y \<noteq> o_id x}"
      unfolding expire_one_def using release_redemptions_subset release_empties by fastforce
    with Cons.IH(2) [of "expire_one now x db"] show ?case by auto
  next
    case 3
    then have "coupon_books_balance (expire_one now x db)"
      unfolding expire_one_def by (intro release_balance) (simp add: coupon_books_balance_def)
    with Cons.IH(3) show ?case by simp
  }
qed simp_all

text \<open>
  The expiry job cancels exactly the orders it selected: at most a batch of unpaid orders
  past their expiry time, with their redemptions gone and the coupon counters still equal
  to the remaining redemptions; every other order, in particular every paid one, is left
  as it was.
\<close>

lemma expire_stale_exact:
  assumes "distinct (map o_id (orders db))" and "coupon_books_balance db"
  shows "let stale = take batch (filter (stale_order now) (orders db));
             (db', n) = expire_stale db now batch
         in n = length stale
          \<and> orders db' = map (\<lambda>r. if r \<in> set stale then expired now r else r) (orders db)
          \<and> (\<forall>x \<in> set (redemptions db'). cr_order_id x \<notin> o_id ` set stale)
          \<and> coupon_books_balance db'
          \<and> (\<forall>r \<in> set (orders db). o_status r \<in> SETTLED \<longrightarrow> r \<in> set (orders db'))"
proof -
  let ?stale = "take batch (filter (stale_order now) (orders db))"
  have sub: "set ?stale \<subseteq> {r \<in> set (orders db). stale_order now r}"
    using set_take_subset by fastforce
  have "o_id r \<in> o_id ` set ?stale \<longleftrightarrow> r \<in> set ?stale" if "r \<in> set (orders db)" for r
    using assms(1) that sub by (auto simp: distinct_map inj_on_def)
  then have ord: "orders (fold (expire_one now) ?stale db) =
      map (\<lambda>r. if r \<in> set ?stale then expired now r else r) (orders db)"
    unfolding expire_fold(1) by (intro map_cong) auto
  moreover have "r \<in> set (orders (fold (expire_one now) ?stale db))"
    if "r \<in> set (orders db)" "o_status r \<in> SETTLED" for r
    unfolding ord using that sub by (force simp: SETTLED_def stale_order_def)
  ultimately show ?thesis
    using expire_fold(2) [of now ?stale db] expire_fold(3) [OF assms(2), of now ?stale]
    by (auto simp: expire_stale_def Let_def)
qed

end
