(* ===== verification/Invoices.thy ===== *)
theory Invoices
  imports Orders
begin

section \<open>Invoices: consecutive serials in a financial year\<close>

text \<open>
  \<open>apps/payment/services/invoices.py\<close>. Issuing counts the invoices of the financial year,
  inserts the next serial under a savepoint and retries on a collision, five attempts in
  all. What other transactions commit between the count and the insert of an attempt is
  the argument \<open>others\<close>, a function of the number of attempts left; with \<open>no_others\<close> there
  is no concurrency. The lemmas show that serials stay consecutive without gaps, that issuing
  succeeds when some attempt is undisturbed, and that an order is invoiced once; a final
  theorem shows where that last claim ends: two transactions that settle one order at the
  same time issue two invoices.
\<close>

definition MAX_SERIAL_ATTEMPTS :: nat where
  "MAX_SERIAL_ATTEMPTS = 5"

definition financial_year :: "timestamp \<Rightarrow> int \<times> int" where
  "financial_year moment =
     (if month_of moment \<ge> 4 then (year_of moment, year_of moment + 1)
      else (year_of moment - 1, year_of moment))"

definition last_two :: "string \<Rightarrow> string" where
  "last_two s = drop (length s - 2) s"

definition invoice_prefix_for :: "settings \<Rightarrow> timestamp \<Rightarrow> string" where
  "invoice_prefix_for st moment =
     (let (start, stop) = financial_year moment
      in invoice_prefix st @ ''/'' @ str_int start @ ''-'' @ last_two (str_int stop) @ ''/'')"

text \<open>\<open>LIKE 'prefix%'\<close>, for a prefix without wildcards.\<close>

definition serials_used :: "string \<Rightarrow> invoice list \<Rightarrow> nat" where
  "serials_used prefix t = count_rows (\<lambda>i. str_startswith (i_invoice_number i) prefix) t"

definition serial_number :: "string \<Rightarrow> nat \<Rightarrow> string" where
  "serial_number prefix n = prefix @ zero_pad 6 (str_nat n)"

definition next_number :: "settings \<Rightarrow> invoice list \<Rightarrow> timestamp \<Rightarrow> string" where
  "next_number st t moment =
     (let prefix = invoice_prefix_for st moment in serial_number prefix (serials_used prefix t + 1))"

definition invoice_of_order :: "settings \<Rightarrow> timestamp \<Rightarrow> uuid \<Rightarrow> order \<Rightarrow> string \<Rightarrow> invoice" where
  "invoice_of_order st issued_at new_id ord number =
     \<lparr>i_id = new_id, i_order_id = o_id ord, i_user_id = o_user_id ord, i_invoice_number = number,
      i_subtotal_minor = o_subtotal_minor ord, i_discount_minor = o_discount_minor ord,
      i_tax_minor = o_tax_minor ord, i_total_minor = o_total_minor ord, i_currency = o_currency ord,
      i_cgst_minor = o_cgst_minor ord, i_sgst_minor = o_sgst_minor ord,
      i_igst_minor = o_igst_minor ord, i_tax_percent = o_tax_percent ord,
      i_place_of_supply = o_place_of_supply ord,
      i_billing_snapshot = dict_update (o_billing_address ord)
        [(''name'', opt_str_json (o_billing_name ord)), (''email'', opt_str_json (o_billing_email ord)),
         (''seller_name'', JStr (seller_legal_name st)),
         (''seller_gstin'', opt_str_json (seller_gstin st)),
         (''seller_state_code'', JStr (seller_state_code st))],
      i_line_items = map (\<lambda>i. [(''title'', JStr (oi_title i)), (''quantity'', JInt (oi_quantity i)),
         (''unit_price_minor'', JInt (oi_unit_price_minor i)),
         (''line_total_minor'', JInt (oi_line_total_minor i))]) (o_items ord),
      i_issued_at = issued_at\<rparr>"

text \<open>The retry loop, with \<open>k\<close> attempts left.\<close>

fun issue_attempts ::
  "nat \<Rightarrow> (nat \<Rightarrow> invoice list \<Rightarrow> invoice list) \<Rightarrow> settings \<Rightarrow> timestamp \<Rightarrow> uuid \<Rightarrow> order \<Rightarrow>
   invoice list \<Rightarrow> (invoice list \<times> invoice) result" where
  "issue_attempts 0 others st issued_at new_id ord t = Inl (PyExn ''RuntimeError'')"
| "issue_attempts (Suc k) others st issued_at new_id ord t =
     (let inv = invoice_of_order st issued_at new_id ord (next_number st t issued_at);
          t1 = others (Suc k) t
      in case insert_unique invoice_clash inv t1 of
           Some t2 \<Rightarrow> Inr (t2, inv)
         | None \<Rightarrow> if k = 0 then Inl (PyExn ''IntegrityError'')
                   else issue_attempts k others st issued_at new_id ord t1)"

definition for_order ::
  "payment_db \<Rightarrow> (nat \<Rightarrow> invoice list \<Rightarrow> invoice list) \<Rightarrow> settings \<Rightarrow> timestamp \<Rightarrow> uuid \<Rightarrow> order \<Rightarrow>
   (payment_db \<times> invoice) result" where
  "for_order db others st now new_id ord =
     (case one_or_none (\<lambda>i. i_order_id i = o_id ord) (invoices db) of
        Inl e \<Rightarrow> Inl e
      | Inr (Some i) \<Rightarrow> Inr (db, i)
      | Inr None \<Rightarrow>
          (case issue_attempts MAX_SERIAL_ATTEMPTS others st now new_id ord (invoices db) of
             Inl e \<Rightarrow> Inl e
           | Inr (t, i) \<Rightarrow> Inr (db\<lparr>invoices := t\<rparr>, i)))"

definition no_others :: "nat \<Rightarrow> invoice list \<Rightarrow> invoice list" where
  "no_others k t = t"

definition get_invoice_for_user :: "payment_db \<Rightarrow> uuid \<Rightarrow> uuid \<Rightarrow> invoice result" where
  "get_invoice_for_user db invoice_id user_id =
     (case first_row (\<lambda>i. i_id i = invoice_id) (invoices db) of
        None \<Rightarrow> Inl (raise_default NotFoundError)
      | Some i \<Rightarrow> if i_user_id i \<noteq> user_id then Inl (raise_default NotFoundError) else Inr i)"

definition list_invoices_for_user :: "payment_db \<Rightarrow> uuid \<Rightarrow> nat \<Rightarrow> nat \<Rightarrow> invoice list \<times> nat" where
  "list_invoices_for_user db user_id limit offset =
     (let hits = filter (\<lambda>i. i_user_id i = user_id) (invoices db)
      in (page_rows limit offset (order_by_desc i_issued_at hits), length hits))"

subsection \<open>Lemmas: serials\<close>

text \<open>
  Serials of a financial year are consecutive: the invoices that carry its prefix are
  numbered 1, 2, 3, ... in the order they were issued.
\<close>

definition serials_consecutive :: "string \<Rightarrow> invoice list \<Rightarrow> bool" where
  "serials_consecutive prefix t \<longleftrightarrow>
     filter (\<lambda>s. str_startswith s prefix) (map i_invoice_number t)
       = map (serial_number prefix) [1..<serials_used prefix t + 1]"

lemma serials_used_append:
  "serials_used p (t @ [i]) = serials_used p t + (if str_startswith (i_invoice_number i) p then 1 else 0)"
  by (simp add: serials_used_def table_simps)

lemma serial_number_startswith [simp]: "str_startswith (serial_number p n) p"
  by (simp add: serial_number_def str_startswith_def)

lemma serial_number_inj: "serial_number p a = serial_number p b \<Longrightarrow> a = b"
  by (simp add: serial_number_def zero_pad_inj)

lemma serials_next:
  assumes "serials_consecutive p t" and "i_invoice_number i = serial_number p (serials_used p t + 1)"
  shows "serials_consecutive p (t @ [i])"
  using assms by (simp add: serials_consecutive_def serials_used_append)

lemma next_number_free:
  assumes "serials_consecutive (invoice_prefix_for st now) t"
  shows "next_number st t now \<notin> i_invoice_number ` set t"
proof
  let ?p = "invoice_prefix_for st now"
  assume "next_number st t now \<in> i_invoice_number ` set t"
  then have "next_number st t now \<in> set (filter (\<lambda>s. str_startswith s ?p) (map i_invoice_number t))"
    by (auto simp: next_number_def Let_def)
  with assms have "next_number st t now \<in> set (map (serial_number ?p) [1..<serials_used ?p t + 1])"
    unfolding serials_consecutive_def by (metis (full_types))
  then show False by (auto simp: next_number_def Let_def dest!: serial_number_inj)
qed

lemma invoice_of_order_fields [simp]:
  "i_invoice_number (invoice_of_order st now nid ord n) = n"
  "i_order_id (invoice_of_order st now nid ord n) = o_id ord"
  by (simp_all add: invoice_of_order_def)

lemma undisturbed_attempt:
  assumes "serials_consecutive (invoice_prefix_for st now) t" and "others (Suc k) t = t"
  shows "issue_attempts (Suc k) others st now nid ord t =
     Inr (t @ [invoice_of_order st now nid ord (next_number st t now)],
          invoice_of_order st now nid ord (next_number st t now))"
proof -
  have "insert_unique invoice_clash (invoice_of_order st now nid ord (next_number st t now)) t =
      Some (t @ [invoice_of_order st now nid ord (next_number st t now)])"
    using next_number_free [OF assms(1)] by (auto simp: insert_unique_def invoice_clash_def image_iff)
  with assms(2) show ?thesis by (simp add: Let_def)
qed

text \<open>What concurrent transactions may do: append invoices numbered like ours.\<close>

definition fair_others :: "string \<Rightarrow> (nat \<Rightarrow> invoice list \<Rightarrow> invoice list) \<Rightarrow> bool" where
  "fair_others p others \<longleftrightarrow> (\<forall>k t. serials_consecutive p t \<longrightarrow>
     serials_consecutive p (others k t) \<and> (\<exists>new. others k t = t @ new))"

lemma issue_attempts_sound:
  assumes "fair_others (invoice_prefix_for st now) others"
    and "serials_consecutive (invoice_prefix_for st now) t"
    and "issue_attempts k others st now nid ord t = Inr (t', i)"
  shows "serials_consecutive (invoice_prefix_for st now) t' \<and> (\<exists>mid. t' = mid @ [i])
     \<and> i = invoice_of_order st now nid ord (i_invoice_number i) \<and> (\<exists>new. t' = t @ new)"
  using assms(2,3)
proof (induction k arbitrary: t)
  case (Suc k)
  let ?p = "invoice_prefix_for st now"
  let ?i = "invoice_of_order st now nid ord (next_number st t now)"
  obtain new where t1: "others (Suc k) t = t @ new" and ok: "serials_consecutive ?p (t @ new)"
    using assms(1) Suc.prems(1) unfolding fair_others_def by metis
  show ?case
  proof (cases "insert_unique invoice_clash ?i (t @ new)")
    case None
    with Suc.prems(2) t1 have "issue_attempts k others st now nid ord (t @ new) = Inr (t', i)"
      by (auto simp: Let_def split: if_splits)
    with Suc.IH [OF ok] show ?thesis by fastforce
  next
    case (Some u)
    then have u: "u = t @ new @ [?i]" and free: "next_number st t now \<notin> i_invoice_number ` set (t @ new)"
      by (auto simp: insert_unique_Some invoice_clash_def)
    from Suc.prems(2) t1 Some have res: "t' = u" "i = ?i" by (auto simp: Let_def)
    have "serials_used ?p (t @ new) = serials_used ?p t"
    proof (rule ccontr)
      assume "serials_used ?p (t @ new) \<noteq> serials_used ?p t"
      then have "serials_used ?p t + 1 \<le> serials_used ?p (t @ new)"
        by (simp add: serials_used_def table_simps)
      then have "serials_used ?p t + 1 \<in> set [1..<serials_used ?p (t @ new) + 1]" by auto
      then have "serial_number ?p (serials_used ?p t + 1)
          \<in> set (map (serial_number ?p) [1..<serials_used ?p (t @ new) + 1])"
        by (simp only: list.set_map imageI)
      with ok have "serial_number ?p (serials_used ?p t + 1) \<in> i_invoice_number ` set (t @ new)"
        unfolding serials_consecutive_def by (metis (no_types, lifting) filter_is_subset list.set_map subsetD)
      with free show False by (simp add: next_number_def Let_def)
    qed
    with ok have "serials_consecutive ?p ((t @ new) @ [?i])"
      by (intro serials_next) (simp_all add: next_number_def Let_def)
    with res u show ?thesis by auto
  qed
qed simp

lemma issue_attempts_progress:
  assumes "fair_others (invoice_prefix_for st now) others"
    and "serials_consecutive (invoice_prefix_for st now) t"
    and "j < k" and "\<And>u. others (Suc j) u = u"
  shows "\<exists>t' i. issue_attempts k others st now nid ord t = Inr (t', i)"
  using assms(2,3)
proof (induction k arbitrary: t)
  case (Suc k)
  show ?case
  proof (cases "k = j")
    case True
    with undisturbed_attempt [OF Suc.prems(1)] assms(4) show ?thesis by blast
  next
    case False
    with Suc.prems(2) have "j < k" by simp
    moreover have "serials_consecutive (invoice_prefix_for st now) (others (Suc k) t)"
      using assms(1) Suc.prems(1) unfolding fair_others_def by blast
    ultimately have "\<exists>t' i. issue_attempts k others st now nid ord (others (Suc k) t) = Inr (t', i)"
      using Suc.IH by blast
    with \<open>j < k\<close> show ?thesis by (auto simp: Let_def split: option.splits)
  qed
qed simp

subsection \<open>Properties\<close>

text \<open>
  C37: Invoice serials are consecutive within the financial year, and issuing gets through.
  While concurrent transactions only append invoices that are numbered by the same rule, an
  invoice issued for an order keeps the year's serials exactly 1, 2, 3, ... without gap or
  reuse, is the last row and snapshots the order's amounts; and whenever one of the five
  attempts is undisturbed, an invoice is issued rather than an error raised.
\<close>

theorem invoice_serials_consecutive:
  assumes "fair_others (invoice_prefix_for st now) others"
    and "serials_consecutive (invoice_prefix_for st now) (invoices db)"
    and "\<forall>i \<in> set (invoices db). i_order_id i \<noteq> o_id ord"
  shows "((\<exists>j < MAX_SERIAL_ATTEMPTS. \<forall>t. others (Suc j) t = t) \<longrightarrow>
            (\<exists>db' i. for_order db others st now new_id ord = Inr (db', i)))
    \<and> (\<forall>db' i. for_order db others st now new_id ord = Inr (db', i) \<longrightarrow>
         serials_consecutive (invoice_prefix_for st now) (invoices db')
         \<and> last (invoices db') = i
         \<and> i_order_id i = o_id ord \<and> i_total_minor i = o_total_minor ord
         \<and> i_tax_minor i = o_tax_minor ord \<and> length (i_line_items i) = length (o_items ord)
         \<and> (\<exists>new. invoices db' = invoices db @ new))"
proof (intro conjI impI allI)
  have none: "one_or_none (\<lambda>i. i_order_id i = o_id ord) (invoices db) = Inr None"
    using assms(3) by (auto simp: one_or_none_def filter_empty_conv split: list.splits)
  then have fo: "for_order db others st now new_id ord =
      (case issue_attempts MAX_SERIAL_ATTEMPTS others st now new_id ord (invoices db) of
         Inl e \<Rightarrow> Inl e | Inr (t, i) \<Rightarrow> Inr (db\<lparr>invoices := t\<rparr>, i))"
    by (simp add: for_order_def)
  {
    assume "\<exists>j < MAX_SERIAL_ATTEMPTS. \<forall>t. others (Suc j) t = t"
    then obtain j where "j < MAX_SERIAL_ATTEMPTS" "\<And>t. others (Suc j) t = t" by blast
    from issue_attempts_progress [OF assms(1,2) this, of new_id ord] fo
    show "\<exists>db' i. for_order db others st now new_id ord = Inr (db', i)" by auto
  }
  fix db' i
  assume "for_order db others st now new_id ord = Inr (db', i)"
  with fo obtain t where t: "issue_attempts MAX_SERIAL_ATTEMPTS others st now new_id ord (invoices db) = Inr (t, i)"
    and db': "db' = db\<lparr>invoices := t\<rparr>" by (auto split: sum.splits)
  from issue_attempts_sound [OF assms(1,2) t] have snd: "serials_consecutive (invoice_prefix_for st now) t"
    "\<exists>mid. t = mid @ [i]" "\<exists>new. t = invoices db @ new"
    and i: "i = invoice_of_order st now new_id ord (i_invoice_number i)" by blast+
  from snd(1,3) db' show "serials_consecutive (invoice_prefix_for st now) (invoices db')"
    "\<exists>new. invoices db' = invoices db @ new" by auto
  from snd(2) db' show "last (invoices db') = i" by auto
  show "i_order_id i = o_id ord" "i_total_minor i = o_total_minor ord" "i_tax_minor i = o_tax_minor ord"
    "length (i_line_items i) = length (o_items ord)"
    by (subst i, simp add: invoice_of_order_def)+
qed

theorem invoice_serials_consecutive_witness:
  "\<exists>db' i. for_order empty_db no_others default_settings 0 3 sample_order = Inr (db', i)
     \<and> serials_consecutive (invoice_prefix_for default_settings 0) (invoices db')
     \<and> i_total_minor i = 1000"
proof -
  have "fair_others p no_others" for p by (simp add: fair_others_def no_others_def)
  moreover have "serials_consecutive p (invoices empty_db)" for p
    by (simp add: serials_consecutive_def serials_used_def empty_db_def)
  moreover have "\<exists>j < MAX_SERIAL_ATTEMPTS. \<forall>t. no_others (Suc j) t = t"
    by (auto simp: MAX_SERIAL_ATTEMPTS_def no_others_def intro: exI [of _ 0])
  ultimately show ?thesis
    using invoice_serials_consecutive [of default_settings 0 no_others empty_db sample_order 3]
    by (auto simp: empty_db_def sample_order_def)
qed

text \<open>
  A second request for the invoice of an order returns the one already issued and issues
  nothing, at any later time, whatever happens concurrently.
\<close>

lemma for_order_idempotent:
  assumes "for_order db others st now new_id ord = Inr (db', i)"
    and "\<forall>k t. filter (\<lambda>x. i_order_id x = o_id ord) (others k t)
                 = filter (\<lambda>x. i_order_id x = o_id ord) t"
  shows "for_order db' others' st' now' new_id' ord = Inr (db', i)"
proof (cases "one_or_none (\<lambda>x. i_order_id x = o_id ord) (invoices db)")
  case (Inl e)
  with assms(1) show ?thesis by (simp add: for_order_def)
next
  case (Inr found)
  show ?thesis
  proof (cases found)
    case (Some x)
    with Inr assms(1) show ?thesis by (auto simp: for_order_def)
  next
    case None
    have step: "filter (\<lambda>x. i_order_id x = o_id ord) t' = filter (\<lambda>x. i_order_id x = o_id ord) t @ [i]"
      if "issue_attempts k others st now new_id ord t = Inr (t', i)" for k t t'
      using that
    proof (induction k arbitrary: t)
      case (Suc k)
      show ?case
      proof (cases "insert_unique invoice_clash
            (invoice_of_order st now new_id ord (next_number st t now)) (others (Suc k) t)")
        case (Some u)
        with Suc.prems assms(2) show ?thesis by (auto simp: Let_def insert_unique_Some)
      next
        case None
        with Suc.prems have "issue_attempts k others st now new_id ord (others (Suc k) t) = Inr (t', i)"
          by (auto simp: Let_def split: if_splits)
        with Suc.IH [OF this] assms(2) show ?thesis by simp
      qed
    qed simp
    from None Inr have empty: "filter (\<lambda>x. i_order_id x = o_id ord) (invoices db) = []"
      by (auto simp: one_or_none_def split: list.splits)
    from None Inr assms(1) obtain t where
      "issue_attempts MAX_SERIAL_ATTEMPTS others st now new_id ord (invoices db) = Inr (t, i)"
      "db' = db\<lparr>invoices := t\<rparr>"
      by (auto simp: for_order_def split: sum.splits)
    with step empty have "filter (\<lambda>x. i_order_id x = o_id ord) (invoices db') = [i]" by fastforce
    then show ?thesis by (simp add: for_order_def one_or_none_def)
  qed
qed

text \<open>
  Another settlement of the same order that commits its own invoice between our count and our
  first insert.
\<close>

definition same_order_race ::
  "settings \<Rightarrow> timestamp \<Rightarrow> order \<Rightarrow> nat \<Rightarrow> invoice list \<Rightarrow> invoice list" where
  "same_order_race st now ord k t =
     (if k = MAX_SERIAL_ATTEMPTS then t @ [invoice_of_order st now 8 ord (next_number st t now)] else t)"

text \<open>
  Where the promise of one invoice per order ends. Two transactions that settle one order
  at the same time both issue: the serial of the second collides once, its retry recounts and
  does not look again whether the order now has an invoice, so the order ends up with two
  invoices, and from then on asking for the order's invoice raises.
\<close>

lemma concurrent_settlement_double_invoice:
  assumes "serials_consecutive (invoice_prefix_for st now) (invoices db)"
    and "\<forall>i \<in> set (invoices db). i_order_id i \<noteq> o_id ord"
  shows "\<exists>db' i. for_order db (same_order_race st now ord) st now new_id ord = Inr (db', i)
    \<and> length (filter (\<lambda>x. i_order_id x = o_id ord) (invoices db')) = 2
    \<and> for_order db' others st' now' new_id' ord = Inl (PyExn ''MultipleResultsFound'')"
proof -
  let ?t = "invoices db" and ?p = "invoice_prefix_for st now"
  let ?rival = "invoice_of_order st now 8 ord (next_number st ?t now)"
  let ?ours = "invoice_of_order st now new_id ord (next_number st (?t @ [?rival]) now)"
  have none: "filter (\<lambda>x. i_order_id x = o_id ord) ?t = []"
    using assms(2) by (simp add: filter_empty_conv)
  have clash: "insert_unique invoice_clash (invoice_of_order st now new_id ord (next_number st ?t now))
      (?t @ [?rival]) = None"
    by (auto simp: insert_unique_def invoice_clash_def)
  have "serials_consecutive ?p (?t @ [?rival])"
    using assms(1) by (intro serials_next) (simp_all add: next_number_def Let_def)
  then have "issue_attempts (Suc 3) (same_order_race st now ord) st now new_id ord (?t @ [?rival])
      = Inr ((?t @ [?rival]) @ [?ours], ?ours)"
    by (rule undisturbed_attempt) (simp add: same_order_race_def MAX_SERIAL_ATTEMPTS_def)
  then have "issue_attempts (Suc (Suc 3)) (same_order_race st now ord) st now new_id ord ?t
      = Inr ((?t @ [?rival]) @ [?ours], ?ours)"
  proof -
    assume later: "issue_attempts (Suc 3) (same_order_race st now ord) st now new_id ord (?t @ [?rival])
      = Inr ((?t @ [?rival]) @ [?ours], ?ours)"
    have race: "same_order_race st now ord (Suc (Suc 3)) ?t = ?t @ [?rival]"
      by (simp add: same_order_race_def MAX_SERIAL_ATTEMPTS_def)
    show ?thesis
      unfolding issue_attempts.simps(2) [of "Suc 3"] race Let_def clash option.case
      using later by (simp del: issue_attempts.simps)
  qed
  then have "for_order db (same_order_race st now ord) st now new_id ord
      = Inr (db\<lparr>invoices := (?t @ [?rival]) @ [?ours]\<rparr>, ?ours)"
    using none by (simp add: for_order_def one_or_none_def MAX_SERIAL_ATTEMPTS_def eval_nat_numeral
        del: issue_attempts.simps)
  then show ?thesis using none by (simp add: for_order_def one_or_none_def)
qed

end
