(* ===== verification/Affiliates.thy ===== *)
theory Affiliates
  imports Orders
begin

section \<open>Affiliate accounts and commission\<close>

text \<open>
  \<open>apps/payment/services/affiliates.py\<close>. What another transaction commits between an
  operation's reads and its insert is the argument \<open>race\<close>. The lemmas show that an
  account's lifetime earnings are the sum of its conversions that were not reversed, over
  every sequence of recorded, reversed and approved conversions.
\<close>

definition token_code :: "string \<Rightarrow> string" where
  "token_code token = take 8 (filter (\<lambda>c. c \<noteq> CHR ''-'') (filter (\<lambda>c. c \<noteq> CHR ''_'') (str_lower token)))"

definition find_by_code :: "payment_db \<Rightarrow> string \<Rightarrow> affiliate_account option" where
  "find_by_code db code = first_row (\<lambda>a. a_code a = str_lower (str_strip code)) (affiliates db)"

definition affiliate_for_user :: "payment_db \<Rightarrow> uuid \<Rightarrow> affiliate_account option" where
  "affiliate_for_user db user_id = first_row (\<lambda>a. a_user_id a = user_id) (affiliates db)"

definition account_clash :: "affiliate_account \<Rightarrow> affiliate_account \<Rightarrow> bool" where
  "account_clash a b \<longleftrightarrow> a_user_id a = a_user_id b \<or> a_code a = a_code b"

definition register_affiliate ::
  "payment_db \<Rightarrow> (payment_db \<Rightarrow> payment_db) \<Rightarrow> settings \<Rightarrow> uuid \<Rightarrow> string \<Rightarrow> uuid \<Rightarrow> string option \<Rightarrow>
   (payment_db \<times> affiliate_account) result" where
  "register_affiliate db race st new_id token user_id code =
     (case affiliate_for_user db user_id of
        Some a \<Rightarrow> Inr (db, a)
      | None \<Rightarrow>
          if truthy code \<and> find_by_code db (opt_default code '''') \<noteq> None
          then Inl (raise_default ConflictError)
          else
            let account = \<lparr>a_id = new_id, a_user_id = user_id, a_code = or_str code (token_code token),
                  a_commission_bps = affiliate_commission_bps st, a_is_active = True,
                  a_total_earned_minor = 0, a_total_paid_minor = 0\<rparr>;
                db1 = race db
            in case insert_unique account_clash account (affiliates db1) of
                 Some t \<Rightarrow> Inr (db1\<lparr>affiliates := t\<rparr>, account)
               | None \<Rightarrow>
                   (case affiliate_for_user db1 user_id of
                      Some a \<Rightarrow> Inr (db1, a) | None \<Rightarrow> Inl (raise_default ConflictError)))"

definition get_affiliate :: "payment_db \<Rightarrow> uuid \<Rightarrow> affiliate_account result" where
  "get_affiliate db account_id =
     (case first_row (\<lambda>a. a_id a = account_id) (affiliates db) of
        None \<Rightarrow> Inl (raise_default NotFoundError) | Some a \<Rightarrow> Inr a)"

subsection \<open>Conversions\<close>

definition commission_for :: "money \<Rightarrow> int \<Rightarrow> money" where
  "commission_for net_minor commission_bps = max 0 (net_minor * commission_bps div 10000)"

definition record_conversion ::
  "payment_db \<Rightarrow> (payment_db \<Rightarrow> payment_db) \<Rightarrow> timestamp \<Rightarrow> uuid \<Rightarrow> order \<Rightarrow>
   payment_db \<times> affiliate_conversion option" where
  "record_conversion db race now new_id ord =
     (if \<not> truthy (o_affiliate_code ord) then (db, None)
      else case find_by_code db (opt_default (o_affiliate_code ord) '''') of
        None \<Rightarrow> (db, None)
      | Some account \<Rightarrow>
          if \<not> a_is_active account then (db, None)
          else if a_user_id account = o_user_id ord then (db, None)
          else case first_row (\<lambda>c. ac_order_id c = o_id ord) (conversions db) of
            Some c \<Rightarrow> (db, Some c)
          | None \<Rightarrow>
              let net = max 0 (o_total_minor ord - o_tax_minor ord);
                  commission = commission_for net (a_commission_bps account);
                  conversion = \<lparr>ac_id = new_id, ac_account_id = a_id account, ac_order_id = o_id ord,
                    ac_order_total_minor = o_total_minor ord, ac_commission_minor = commission,
                    ac_currency = o_currency ord, ac_status = ConvPending, ac_reversed_at = None,
                    ac_created_at = now\<rparr>;
                  db1 = race db
              in case insert_unique conversion_clash conversion (conversions db1) of
                   None \<Rightarrow> (db1, None)
                 | Some t \<Rightarrow>
                     (db1\<lparr>conversions := t,
                          affiliates := update_rows (\<lambda>a. a_id a = a_id account)
                            (\<lambda>a. a\<lparr>a_total_earned_minor := a_total_earned_minor account + commission\<rparr>)
                            (affiliates db1)\<rparr>, Some conversion))"

definition reverse_conversion :: "payment_db \<Rightarrow> timestamp \<Rightarrow> uuid \<Rightarrow> payment_db" where
  "reverse_conversion db now order_id =
     (case first_row (\<lambda>c. ac_order_id c = order_id) (conversions db) of
        None \<Rightarrow> db
      | Some c \<Rightarrow>
          if ac_status c = ConvReversed then db
          else
            let db1 = db\<lparr>conversions := update_rows (\<lambda>x. ac_id x = ac_id c)
                  (\<lambda>x. x\<lparr>ac_status := ConvReversed, ac_reversed_at := Some now\<rparr>) (conversions db)\<rparr>
            in case first_row (\<lambda>a. a_id a = ac_account_id c) (affiliates db1) of
                 None \<Rightarrow> db1
               | Some a \<Rightarrow>
                   db1\<lparr>affiliates := update_rows (\<lambda>x. a_id x = a_id a)
                         (\<lambda>x. x\<lparr>a_total_earned_minor :=
                             max 0 (a_total_earned_minor a - ac_commission_minor c)\<rparr>)
                         (affiliates db1)\<rparr>)"

definition matured :: "settings \<Rightarrow> timestamp \<Rightarrow> affiliate_conversion \<Rightarrow> bool" where
  "matured st now c \<longleftrightarrow> ac_status c = ConvPending \<and> ac_created_at c < now - affiliate_hold_days st * DAY"

definition approve_one :: "affiliate_conversion \<Rightarrow> payment_db \<Rightarrow> payment_db" where
  "approve_one c db = db\<lparr>conversions := update_rows (\<lambda>x. ac_id x = ac_id c)
     (\<lambda>x. x\<lparr>ac_status := ConvApproved\<rparr>) (conversions db)\<rparr>"

definition approve_matured :: "payment_db \<Rightarrow> settings \<Rightarrow> timestamp \<Rightarrow> nat \<Rightarrow> payment_db \<times> nat" where
  "approve_matured db st now batch =
     (let ripe = take batch (filter (matured st now) (conversions db))
      in (fold approve_one ripe db, length ripe))"

definition conversions_for ::
  "payment_db \<Rightarrow> uuid \<Rightarrow> nat \<Rightarrow> nat \<Rightarrow> affiliate_conversion list \<times> nat" where
  "conversions_for db account_id limit offset =
     (let hits = filter (\<lambda>c. ac_account_id c = account_id) (conversions db)
      in (page_rows limit offset (order_by_desc ac_created_at hits), length hits))"

subsection \<open>Lemmas: the ledger of an account\<close>

definition earned :: "payment_db \<Rightarrow> uuid \<Rightarrow> money" where
  "earned db account_id = sum_list (map ac_commission_minor
     (filter (\<lambda>c. ac_account_id c = account_id \<and> ac_status c \<noteq> ConvReversed) (conversions db)))"

definition ledger_ok :: "payment_db \<Rightarrow> bool" where
  "ledger_ok db \<longleftrightarrow>
     distinct (map a_id (affiliates db)) \<and> distinct (map ac_id (conversions db)) \<and>
     distinct (map ac_order_id (conversions db)) \<and>
     (\<forall>c \<in> set (conversions db). 0 \<le> ac_commission_minor c) \<and>
     (\<forall>a \<in> set (affiliates db). a_total_earned_minor a = earned db (a_id a))"

lemma commission_bounds:
  assumes "0 \<le> net" and "0 \<le> bps" and "bps \<le> 10000"
  shows "0 \<le> commission_for net bps \<and> commission_for net bps \<le> net
     \<and> 10000 * commission_for net bps \<le> net * bps \<and> net * bps < 10000 * (commission_for net bps + 1)"
proof -
  have "0 \<le> net * bps" using assms by simp
  moreover have "net * bps \<le> net * 10000" using assms by (intro mult_left_mono) auto
  ultimately show ?thesis by (auto simp: commission_for_def max_def)
qed

lemma earned_append:
  "earned (db\<lparr>conversions := conversions db @ [c]\<rparr>) k = earned db k
     + (if ac_account_id c = k \<and> ac_status c \<noteq> ConvReversed then ac_commission_minor c else 0)"
  by (simp add: earned_def)

lemma earned_cong: "conversions db' = conversions db \<Longrightarrow> earned db' k = earned db k"
  by (simp add: earned_def)

lemma sum_filter_update_one:
  fixes g :: "'r \<Rightarrow> int"
  assumes "distinct (map key t)" and "c \<in> set t" and "\<And>x. key (f x) = key x"
  shows "sum_list (map g (filter P (update_rows (\<lambda>x. key x = key c) f t)))
       = sum_list (map g (filter P t)) - (if P c then g c else 0) + (if P (f c) then g (f c) else 0)"
  using assms(1,2)
proof (induction t)
  case (Cons a t)
  show ?case
  proof (cases "a = c")
    case True
    with Cons.prems have "key c \<notin> key ` set t" by simp
    then have "update_rows (\<lambda>x. key x = key c) f t = t"
      by (intro update_rows_none) (metis image_eqI)
    with True show ?thesis by simp
  next
    case False
    with Cons.prems have c: "c \<in> set t" "key a \<noteq> key c" by auto
    from Cons.prems(1) have "distinct (map key t)" by simp
    from Cons.IH [OF this c(1)] c(2) show ?thesis by simp
  qed
qed simp

lemma first_row_key:
  assumes "distinct (map key t)" and "a \<in> set t" and "b \<in> set t" and "key a = key b"
  shows "a = b"
  using assms by (auto simp: distinct_map dest: inj_onD)

definition creditable :: "payment_db \<Rightarrow> order \<Rightarrow> affiliate_account \<Rightarrow> bool" where
  "creditable db ord account \<longleftrightarrow> truthy (o_affiliate_code ord) \<and>
     find_by_code db (opt_default (o_affiliate_code ord) '''') = Some account \<and>
     a_is_active account \<and> a_user_id account \<noteq> o_user_id ord \<and>
     first_row (\<lambda>c. ac_order_id c = o_id ord) (conversions db) = None"

definition conversion_of :: "timestamp \<Rightarrow> uuid \<Rightarrow> order \<Rightarrow> affiliate_account \<Rightarrow> affiliate_conversion" where
  "conversion_of now new_id ord account = \<lparr>ac_id = new_id, ac_account_id = a_id account,
     ac_order_id = o_id ord, ac_order_total_minor = o_total_minor ord,
     ac_commission_minor = commission_for (max 0 (o_total_minor ord - o_tax_minor ord))
       (a_commission_bps account),
     ac_currency = o_currency ord, ac_status = ConvPending, ac_reversed_at = None, ac_created_at = now\<rparr>"

lemma record_conversion_credits:
  assumes "creditable db ord account"
  shows "record_conversion db id now new_id ord =
    (db\<lparr>conversions := conversions db @ [conversion_of now new_id ord account],
        affiliates := update_rows (\<lambda>a. a_id a = a_id account)
          (\<lambda>a. a\<lparr>a_total_earned_minor := a_total_earned_minor account
              + ac_commission_minor (conversion_of now new_id ord account)\<rparr>) (affiliates db)\<rparr>,
     Some (conversion_of now new_id ord account))"
proof -
  have "insert_unique conversion_clash (conversion_of now new_id ord account) (conversions db) =
      Some (conversions db @ [conversion_of now new_id ord account])"
    using assms by (auto simp: creditable_def first_row_None insert_unique_Some conversion_clash_def
        conversion_of_def)
  then show ?thesis
    using assms by (simp add: creditable_def record_conversion_def Let_def conversion_of_def)
qed

lemma record_conversion_skips:
  assumes "\<And>account. \<not> creditable db ord account"
  shows "fst (record_conversion db id now new_id ord) = db"
proof (cases "find_by_code db (opt_default (o_affiliate_code ord) '''')")
  case None
  then show ?thesis by (simp add: record_conversion_def)
next
  case (Some account)
  with assms [of account] show ?thesis
    by (cases "first_row (\<lambda>c. ac_order_id c = o_id ord) (conversions db)")
      (auto simp: record_conversion_def creditable_def)
qed

lemma record_ledger:
  assumes inv: "ledger_ok db" and fresh: "new_id \<notin> ac_id ` set (conversions db)"
  shows "ledger_ok (fst (record_conversion db id now new_id ord))"
proof (cases "\<exists>account. creditable db ord account")
  case True
  then obtain account where acc: "creditable db ord account" ..
  let ?c = "conversion_of now new_id ord account"
  let ?aff = "update_rows (\<lambda>a. a_id a = a_id account)
     (\<lambda>a. a\<lparr>a_total_earned_minor := a_total_earned_minor account + ac_commission_minor ?c\<rparr>) (affiliates db)"
  note eq = record_conversion_credits [OF acc]
  have in_aff: "account \<in> set (affiliates db)"
    using acc by (auto simp: creditable_def find_by_code_def dest: first_row_Some)
  have "a_total_earned_minor a = earned (db\<lparr>conversions := conversions db @ [?c], affiliates := ?aff\<rparr>) (a_id a)"
    if "a \<in> set ?aff" for a
  proof -
    from that obtain b where b: "b \<in> set (affiliates db)"
      and ab: "a = (if a_id b = a_id account then b\<lparr>a_total_earned_minor := a_total_earned_minor account + ac_commission_minor ?c\<rparr> else b)"
      by (auto simp: set_update_rows)
    have "b = account" if "a_id b = a_id account"
      using inv b in_aff that by (intro first_row_key [of a_id]) (auto simp: ledger_ok_def)
    moreover have "a_total_earned_minor b = earned db (a_id b)" using inv b by (auto simp: ledger_ok_def)
    ultimately show ?thesis using ab by (auto simp: earned_def conversion_of_def)
  qed
  moreover have "map a_id ?aff = map a_id (affiliates db)" by (simp add: map_update_rows)
  moreover have "0 \<le> ac_commission_minor ?c" by (simp add: commission_for_def conversion_of_def)
  moreover have "o_id ord \<notin> ac_order_id ` set (conversions db)"
    using acc by (auto simp: creditable_def first_row_None)
  ultimately show ?thesis
    using inv fresh unfolding eq by (simp add: ledger_ok_def conversion_of_def)
next
  case False
  with inv record_conversion_skips show ?thesis by metis
qed

lemma sum_list_member_le:
  fixes f :: "'r \<Rightarrow> int"
  shows "x \<in> set xs \<Longrightarrow> (\<And>y. y \<in> set xs \<Longrightarrow> 0 \<le> f y) \<Longrightarrow> f x \<le> sum_list (map f xs)"
proof (induction xs)
  case (Cons y ys)
  have "0 \<le> sum_list (map f ys)" using Cons.prems(2) by (intro sum_list_nonneg) auto
  moreover have "0 \<le> f y" using Cons.prems(2) by simp
  ultimately show ?case using Cons by (cases "x = y") (auto, fastforce)
qed simp

lemma reverse_ledger:
  assumes inv: "ledger_ok db"
  shows "ledger_ok (reverse_conversion db now order_id)"
proof (cases "first_row (\<lambda>c. ac_order_id c = order_id) (conversions db)")
  case None
  with inv show ?thesis by (simp add: reverse_conversion_def)
next
  case (Some c)
  then have c: "c \<in> set (conversions db)" by (auto dest: first_row_Some)
  show ?thesis
  proof (cases "ac_status c = ConvReversed")
    case True
    with Some inv show ?thesis by (simp add: reverse_conversion_def)
  next
    case False
    let ?rev = "\<lambda>x. x\<lparr>ac_status := ConvReversed, ac_reversed_at := Some now\<rparr>"
    let ?conv = "update_rows (\<lambda>x. ac_id x = ac_id c) ?rev (conversions db)"
    let ?db = "reverse_conversion db now order_id"
    have conv: "conversions ?db = ?conv"
      using Some False by (auto simp: reverse_conversion_def Let_def split: option.splits)
    have e: "earned ?db k = earned db k - (if ac_account_id c = k then ac_commission_minor c else 0)" for k
      using sum_filter_update_one [of ac_id "conversions db" c ?rev ac_commission_minor
          "\<lambda>x. ac_account_id x = k \<and> ac_status x \<noteq> ConvReversed"] inv c False
      by (simp add: earned_def conv ledger_ok_def)
    have le: "ac_commission_minor c \<le> earned db (ac_account_id c)"
    proof -
      let ?xs = "filter (\<lambda>x. ac_account_id x = ac_account_id c \<and> ac_status x \<noteq> ConvReversed) (conversions db)"
      have "c \<in> set ?xs" using c False by simp
      moreover have "\<And>x. x \<in> set ?xs \<Longrightarrow> 0 \<le> ac_commission_minor x" using inv by (simp add: ledger_ok_def)
      ultimately show ?thesis unfolding earned_def by (rule sum_list_member_le)
    qed
    have aff: "affiliates ?db = update_rows (\<lambda>x. a_id x = ac_account_id c)
        (\<lambda>x. x\<lparr>a_total_earned_minor := earned ?db (a_id x)\<rparr>) (affiliates db)"
    proof (cases "first_row (\<lambda>a. a_id a = ac_account_id c) (affiliates db)")
      case None
      then have "update_rows (\<lambda>x. a_id x = ac_account_id c)
          (\<lambda>x. x\<lparr>a_total_earned_minor := earned ?db (a_id x)\<rparr>) (affiliates db) = affiliates db"
        by (intro update_rows_none) (simp add: first_row_None)
      with None Some False show ?thesis by (simp add: reverse_conversion_def Let_def)
    next
      case (Some a)
      then have a: "a \<in> set (affiliates db)" "a_id a = ac_account_id c" by (auto dest: first_row_Some)
      with inv have "a_total_earned_minor a = earned db (ac_account_id c)" by (auto simp: ledger_ok_def)
      with le e have "max 0 (a_total_earned_minor a - ac_commission_minor c) = earned ?db (ac_account_id c)"
        by simp
      with Some a \<open>first_row _ (conversions db) = Some c\<close> False show ?thesis
        by (simp add: reverse_conversion_def Let_def update_rows_def)
    qed
    have "a_total_earned_minor x = earned ?db (a_id x)" if "x \<in> set (affiliates ?db)" for x
      using that inv e unfolding aff by (auto simp: set_update_rows ledger_ok_def)
    moreover have "map ac_id (conversions ?db) = map ac_id (conversions db)"
      "map ac_order_id (conversions ?db) = map ac_order_id (conversions db)"
      "map a_id (affiliates ?db) = map a_id (affiliates db)"
      by (simp_all add: conv aff map_update_rows)
    moreover have "\<forall>x \<in> set (conversions ?db). 0 \<le> ac_commission_minor x"
      using inv by (auto simp: conv set_update_rows ledger_ok_def)
    ultimately show ?thesis using inv unfolding ledger_ok_def by simp
  qed
qed

lemma approve_one_ledger:
  assumes inv: "ledger_ok db" and c: "c \<in> set (conversions db)" "ac_status c \<noteq> ConvReversed"
  shows "ledger_ok (approve_one c db)"
proof -
  have "earned (approve_one c db) k = earned db k" for k
    using sum_filter_update_one [of ac_id "conversions db" c "\<lambda>x. x\<lparr>ac_status := ConvApproved\<rparr>"
        ac_commission_minor "\<lambda>x. ac_account_id x = k \<and> ac_status x \<noteq> ConvReversed"] inv c
    by (auto simp: earned_def approve_one_def ledger_ok_def)
  with inv show ?thesis
    unfolding ledger_ok_def approve_one_def
    by (simp add: map_update_rows) (auto simp: set_update_rows)
qed

lemma fold_approve_ledger:
  assumes "ledger_ok d" and "\<forall>c \<in> set cs. c \<in> set (conversions d) \<and> ac_status c = ConvPending"
    and "distinct (map ac_id cs)"
  shows "ledger_ok (fold approve_one cs d)"
  using assms
proof (induction cs arbitrary: d)
  case (Cons c cs)
  have "ledger_ok (approve_one c d)" using Cons.prems by (intro approve_one_ledger) auto
  moreover have "\<forall>x \<in> set cs. x \<in> set (conversions (approve_one c d)) \<and> ac_status x = ConvPending"
  proof
    fix x assume "x \<in> set cs"
    with Cons.prems have "x \<in> set (conversions d)" "ac_id x \<noteq> ac_id c" "ac_status x = ConvPending"
      by (auto simp: image_iff)
    then show "x \<in> set (conversions (approve_one c d)) \<and> ac_status x = ConvPending"
      by (force simp: approve_one_def set_update_rows)
  qed
  ultimately show ?case using Cons by simp
qed simp

lemma approve_ledger:
  assumes inv: "ledger_ok db"
  shows "ledger_ok (fst (approve_matured db st now batch))"
proof -
  let ?ripe = "take batch (filter (matured st now) (conversions db))"
  have "distinct (map ac_id (filter (matured st now) (conversions db)))"
    by (rule distinct_map_filter) (use inv in \<open>simp add: ledger_ok_def\<close>)
  then have "distinct (map ac_id ?ripe)"
    by (metis distinct_take take_map)
  moreover have "set ?ripe \<subseteq> set (filter (matured st now) (conversions db))" by (rule set_take_subset)
  then have "\<forall>c \<in> set ?ripe. c \<in> set (conversions db) \<and> ac_status c = ConvPending"
    by (auto simp: matured_def)
  ultimately have "ledger_ok (fold approve_one ?ripe db)" by (rule fold_approve_ledger [OF inv, rotated])
  then show ?thesis by (simp add: approve_matured_def Let_def)
qed

subsection \<open>Properties\<close>

text \<open>What happens to the affiliate tables: sales are credited, refunded and matured.\<close>

inductive ledger_step :: "payment_db \<Rightarrow> payment_db \<Rightarrow> bool" where
  credit_step: "new_id \<notin> ac_id ` set (conversions db) \<Longrightarrow>
    ledger_step db (fst (record_conversion db id now new_id ord))"
| reverse_step: "ledger_step db (reverse_conversion db now order_id)"
| mature_step: "ledger_step db (fst (approve_matured db st now batch))"

lemma ledger_step_ok: "ledger_step db db' \<Longrightarrow> ledger_ok db \<Longrightarrow> ledger_ok db'"
  by (induction rule: ledger_step.induct) (simp_all add: record_ledger reverse_ledger approve_ledger)

text \<open>
  The affiliate ledger balances. Over any sequence of credited sales, refunds and
  maturity runs, every account's lifetime earnings are exactly the sum of the commissions of
  its conversions that were not reversed (so the clamp at zero in the reversal never hides a
  difference), commissions are not negative, and no order earns commission twice.
\<close>

lemma affiliate_ledger_balances:
  assumes "ledger_step\<^sup>*\<^sup>* db db'" and "ledger_ok db"
  shows "ledger_ok db'"
  using assms by (induction rule: rtranclp_induct) (auto intro: ledger_step_ok)

lemma reverse_fresh_conversion:
  assumes "ledger_ok db" and "conversions db = old @ [c]" and "ac_status c \<noteq> ConvReversed"
  shows "earned (reverse_conversion db later (ac_order_id c)) k = earned (db\<lparr>conversions := old\<rparr>) k"
proof -
  have "first_row (\<lambda>x. ac_order_id x = ac_order_id c) old = None"
    using assms(1,2) by (auto simp: first_row_None ledger_ok_def) (metis image_eqI)
  then have first: "first_row (\<lambda>x. ac_order_id x = ac_order_id c) (conversions db) = Some c"
    using assms(2) by (simp add: table_simps)
  have "update_rows (\<lambda>x. ac_id x = ac_id c)
      (\<lambda>x. x\<lparr>ac_status := ConvReversed, ac_reversed_at := Some later\<rparr>) old = old"
    using assms(1,2) by (intro update_rows_none) (auto simp: ledger_ok_def image_iff)
  then have "conversions (reverse_conversion db later (ac_order_id c)) =
      old @ [c\<lparr>ac_status := ConvReversed, ac_reversed_at := Some later\<rparr>]"
    using first assms(2,3) by (auto simp: reverse_conversion_def Let_def table_simps split: option.splits)
  then show ?thesis by (simp add: earned_def)
qed

text \<open>
  A recorded conversion credits the right party with the right amount: the account whose
  active code the order carries and that is not the buyer's own; the commission is the
  floor of the basis-point share of the order net of tax, never more than that net amount;
  the conversion starts out pending; and refunding the order takes the credit back exactly.
\<close>

lemma conversion_credits_and_reverses:
  assumes "creditable db ord account" and "ledger_ok db" and "new_id \<notin> ac_id ` set (conversions db)"
    and "0 \<le> a_commission_bps account" and "a_commission_bps account \<le> 10000"
  shows "\<exists>db' c. record_conversion db id now new_id ord = (db', Some c)
     \<and> conversions db' = conversions db @ [c] \<and> ac_status c = ConvPending
     \<and> ac_account_id c = a_id account
     \<and> (let net = max 0 (o_total_minor ord - o_tax_minor ord)
        in ac_commission_minor c \<le> net
           \<and> 10000 * ac_commission_minor c \<le> net * a_commission_bps account
           \<and> net * a_commission_bps account < 10000 * (ac_commission_minor c + 1))
     \<and> earned db' (a_id account) = earned db (a_id account) + ac_commission_minor c
     \<and> earned (reverse_conversion db' later (o_id ord)) (a_id account) = earned db (a_id account)"
proof -
  let ?c = "conversion_of now new_id ord account"
  let ?db = "fst (record_conversion db id now new_id ord)"
  note eq = record_conversion_credits [OF assms(1), of now new_id]
  have conv: "conversions ?db = conversions db @ [?c]" by (simp add: eq)
  have fields: "ac_status ?c = ConvPending" "ac_account_id ?c = a_id account" "ac_order_id ?c = o_id ord"
    by (simp_all add: conversion_of_def)
  have "earned ?db (a_id account) = earned db (a_id account) + ac_commission_minor ?c"
    by (simp add: earned_def conv fields)
  moreover have "earned (reverse_conversion ?db later (o_id ord)) (a_id account) = earned db (a_id account)"
    using reverse_fresh_conversion [OF record_ledger [OF assms(2,3)] conv, of later "a_id account"] fields
    by (simp add: earned_def)
  moreover have "let net = max 0 (o_total_minor ord - o_tax_minor ord)
        in ac_commission_minor ?c \<le> net
           \<and> 10000 * ac_commission_minor ?c \<le> net * a_commission_bps account
           \<and> net * a_commission_bps account < 10000 * (ac_commission_minor ?c + 1)"
    using commission_bounds [OF _ assms(4,5), of "max 0 (o_total_minor ord - o_tax_minor ord)"]
    by (simp add: conversion_of_def Let_def)
  ultimately show ?thesis
    using eq conv fields by (metis fst_conv)
qed

definition sample_account :: affiliate_account where
  "sample_account = \<lparr>a_id = 5, a_user_id = 6, a_code = ''ref'', a_commission_bps = 500,
     a_is_active = True, a_total_earned_minor = 0, a_total_paid_minor = 0\<rparr>"

definition affiliate_db :: payment_db where
  "affiliate_db = empty_db\<lparr>affiliates := [sample_account]\<rparr>"

definition referred_order :: order where
  "referred_order = sample_order\<lparr>o_affiliate_code := Some ''REF''\<rparr>"

lemma sample_creditable: "creditable affiliate_db referred_order sample_account"
proof -
  have "find_by_code affiliate_db ''REF'' = Some sample_account" by code_simp
  then show ?thesis
    by (simp add: creditable_def referred_order_def sample_order_def truthy_def opt_default_def
        affiliate_db_def sample_account_def empty_db_def)
qed

lemma sample_ledger: "ledger_ok affiliate_db"
  by (simp add: ledger_ok_def affiliate_db_def empty_db_def earned_def sample_account_def)

end
