(* ===== verification/Payments.thy ===== *)
theory Payments
  imports Invoices Affiliates
begin

section \<open>Settlement: turning a confirmation into a paid order\<close>

text \<open>
  \<open>apps/payment/services/payments.py\<close>. Recording a payment is an upsert under the unique
  constraint on (\<open>provider\<close>, \<open>provider_payment_id\<close>); settling marks the order paid and, the
  first time only, issues the invoice and credits the affiliate. The clock, the ids of new
  rows and what other transactions commit in the windows the code leaves open come with the
  record \<open>settle_env\<close>. Announcements are modelled by the list of events that reach the
  publisher. The lemmas show that any number of deliveries of a confirmation has the
  effects of one.
\<close>

record settle_env =
  se_now :: timestamp
  se_payment_id :: uuid
  se_invoice_id :: uuid
  se_conversion_id :: uuid
  se_payment_race :: "payment_db \<Rightarrow> payment_db"
  se_invoice_race :: "nat \<Rightarrow> invoice list \<Rightarrow> invoice list"
  se_affiliate_race :: "payment_db \<Rightarrow> payment_db"

record settlement_result =
  sr_order :: order
  sr_payment :: "payment option"
  sr_invoice :: "invoice option"
  sr_newly_paid :: bool

definition find_payment :: "payment_db \<Rightarrow> PaymentProvider \<Rightarrow> string \<Rightarrow> payment option" where
  "find_payment db provider provider_payment_id =
     first_row (\<lambda>p. p_provider p = provider \<and> p_provider_payment_id p = provider_payment_id) (payments db)"

text \<open>What the caller reports about one payment.\<close>

record payment_report =
  pt_provider :: PaymentProvider
  pt_provider_payment_id :: string
  pt_status :: PaymentStatus
  pt_amount_minor :: money
  pt_currency :: string
  pt_method :: "string option"
  pt_failure_code :: "string option"
  pt_failure_message :: "string option"
  pt_raw_payload :: jobj

definition move_payment :: "timestamp \<Rightarrow> payment_report \<Rightarrow> payment \<Rightarrow> payment" where
  "move_payment now rep existing =
     existing\<lparr>p_status := pt_status rep, p_method := or_opt (pt_method rep) (p_method existing),
       p_failure_code := or_opt (pt_failure_code rep) (p_failure_code existing),
       p_failure_message := or_opt (pt_failure_message rep) (p_failure_message existing),
       p_raw_payload := (if pt_raw_payload rep \<noteq> [] then pt_raw_payload rep else p_raw_payload existing),
       p_captured_at := (if pt_status rep = PayCaptured \<and> p_captured_at existing = None
                         then Some now else p_captured_at existing)\<rparr>"

definition payment_of_report :: "timestamp \<Rightarrow> uuid \<Rightarrow> order \<Rightarrow> payment_report \<Rightarrow> payment" where
  "payment_of_report now new_id ord rep =
     \<lparr>p_id = new_id, p_order_id = o_id ord, p_user_id = o_user_id ord, p_provider = pt_provider rep,
      p_provider_payment_id = pt_provider_payment_id rep, p_status = pt_status rep,
      p_amount_minor = pt_amount_minor rep, p_currency = pt_currency rep, p_method = pt_method rep,
      p_raw_payload = pt_raw_payload rep, p_failure_code = pt_failure_code rep,
      p_failure_message = pt_failure_message rep,
      p_captured_at = (if pt_status rep = PayCaptured then Some now else None), p_created_at = now\<rparr>"

definition record_payment ::
  "payment_db \<Rightarrow> settle_env \<Rightarrow> order \<Rightarrow> payment_report \<Rightarrow> (payment_db \<times> payment \<times> bool) result" where
  "record_payment db env ord rep =
     (case find_payment db (pt_provider rep) (pt_provider_payment_id rep) of
        Some existing \<Rightarrow>
          (let p = move_payment (se_now env) rep existing
           in Inr (db\<lparr>payments := update_rows (\<lambda>x. p_id x = p_id existing) (\<lambda>_. p) (payments db)\<rparr>, p, False))
      | None \<Rightarrow>
          (let p = payment_of_report (se_now env) (se_payment_id env) ord rep;
               db1 = se_payment_race env db
           in case insert_unique payment_clash p (payments db1) of
                Some t \<Rightarrow> Inr (db1\<lparr>payments := t\<rparr>, p, True)
              | None \<Rightarrow>
                  (case find_payment db1 (pt_provider rep) (pt_provider_payment_id rep) of
                     None \<Rightarrow> Inl (PyExn ''IntegrityError'')
                   | Some settled \<Rightarrow> Inr (db1, settled, False))))"

text \<open>One confirmation of a payment, as \<open>settle\<close> receives it.\<close>

record confirmation =
  cf_provider :: PaymentProvider
  cf_provider_payment_id :: string
  cf_amount_minor :: "money option"
  cf_currency :: "string option"
  cf_method :: "string option"
  cf_raw_payload :: jobj

definition capture_report :: "order \<Rightarrow> confirmation \<Rightarrow> payment_report" where
  "capture_report ord cf =
     \<lparr>pt_provider = cf_provider cf, pt_provider_payment_id = cf_provider_payment_id cf,
      pt_status = PayCaptured, pt_amount_minor = opt_default (cf_amount_minor cf) (o_total_minor ord),
      pt_currency = str_upper (or_str (cf_currency cf) (o_currency ord)), pt_method = cf_method cf,
      pt_failure_code = None, pt_failure_message = None, pt_raw_payload = cf_raw_payload cf\<rparr>"

definition settle ::
  "payment_db \<Rightarrow> settings \<Rightarrow> settle_env \<Rightarrow> order \<Rightarrow> confirmation \<Rightarrow>
   (payment_db \<times> settlement_result) result" where
  "settle db st env ord cf =
     (case record_payment db env ord (capture_report ord cf) of Inl e \<Rightarrow> Inl e
      | Inr (db1, p, _) \<Rightarrow>
          (case mark_paid db1 (se_now env) ord of
             (db2, ord2, False) \<Rightarrow>
               Inr (db2, \<lparr>sr_order = ord2, sr_payment = Some p, sr_invoice = None, sr_newly_paid = False\<rparr>)
           | (db2, ord2, True) \<Rightarrow>
               (case for_order db2 (se_invoice_race env) st (se_now env) (se_invoice_id env) ord2 of
                  Inl e \<Rightarrow> Inl e
                | Inr (db3, bill) \<Rightarrow>
                    (let (db4, _) = record_conversion db3 (se_affiliate_race env) (se_now env)
                                      (se_conversion_id env) ord2
                     in Inr (db4, \<lparr>sr_order = ord2, sr_payment = Some p, sr_invoice = Some bill,
                                   sr_newly_paid = True\<rparr>)))))"

definition fail_payment ::
  "payment_db \<Rightarrow> settle_env \<Rightarrow> order \<Rightarrow> PaymentProvider \<Rightarrow> string option \<Rightarrow> string option \<Rightarrow>
   string option \<Rightarrow> money option \<Rightarrow> jobj \<Rightarrow> (payment_db \<times> order) result" where
  "fail_payment db env ord provider provider_payment_id reason failure_code amount_minor raw =
     (if \<not> truthy provider_payment_id then Inr (mark_failed db ord reason)
      else case record_payment db env ord
                \<lparr>pt_provider = provider, pt_provider_payment_id = opt_default provider_payment_id '''',
                 pt_status = PayFailed, pt_amount_minor = opt_default amount_minor (o_total_minor ord),
                 pt_currency = o_currency ord, pt_method = None, pt_failure_code = failure_code,
                 pt_failure_message = reason, pt_raw_payload = raw\<rparr> of
             Inl e \<Rightarrow> Inl e
           | Inr (db1, _) \<Rightarrow> Inr (mark_failed db1 ord reason))"

subsection \<open>Announcements\<close>

definition order_event_payload :: "order \<Rightarrow> jobj" where
  "order_event_payload ord =
     [(''order_id'', JStr (str_uuid (o_id ord))), (''order_number'', JStr (o_order_number ord)),
      (''user_id'', JStr (str_uuid (o_user_id ord))),
      (''book_ids'', JArr (map (\<lambda>i. JStr (str_uuid (oi_book_id i))) (o_items ord))),
      (''items'', JArr (map (\<lambda>i. JObj [(''book_id'', JStr (str_uuid (oi_book_id i))),
         (''title'', JStr (oi_title i)), (''quantity'', JInt (oi_quantity i)),
         (''unit_price_minor'', JInt (oi_unit_price_minor i))]) (o_items ord))),
      (''total_minor'', JInt (o_total_minor ord)), (''currency'', JStr (o_currency ord)),
      (''provider'', case o_provider ord of None \<Rightarrow> JNull | Some p \<Rightarrow> JStr (provider_value p)),
      (''email'', opt_str_json (o_billing_email ord)),
      (''paid_at'', case o_paid_at ord of None \<Rightarrow> JNull | Some t \<Rightarrow> JStr (isoformat t))]"

text \<open>A publisher that may fail; what follows a failed publication in the same block is skipped.\<close>

type_synonym publisher = "string \<Rightarrow> jobj \<Rightarrow> bool"

fun publish_all :: "publisher \<Rightarrow> (string \<times> jobj) list \<Rightarrow> (string \<times> jobj) list" where
  "publish_all pub [] = []"
| "publish_all pub ((t, d) # es) = (if pub t d then (t, d) # publish_all pub es else [])"

definition announce_paid :: "publisher option \<Rightarrow> settlement_result \<Rightarrow> (string \<times> jobj) list" where
  "announce_paid pub res =
     (case pub of None \<Rightarrow> []
      | Some send \<Rightarrow>
          if \<not> sr_newly_paid res then []
          else
            let d0 = order_event_payload (sr_order res);
                d1 = (case sr_invoice res of None \<Rightarrow> d0
                      | Some i \<Rightarrow> dict_set d0 ''invoice_number'' (JStr (i_invoice_number i)));
                d2 = (case sr_payment res of None \<Rightarrow> d1
                      | Some p \<Rightarrow> dict_set d1 ''payment_id'' (JStr (p_provider_payment_id p)))
            in publish_all send [(''payment.succeeded'', d2), (''order.paid'', d2)])"

definition announce_failed :: "publisher option \<Rightarrow> order \<Rightarrow> string option \<Rightarrow> (string \<times> jobj) list" where
  "announce_failed pub ord reason =
     (case pub of None \<Rightarrow> []
      | Some send \<Rightarrow> publish_all send [(''payment.failed'',
          [(''order_id'', JStr (str_uuid (o_id ord))), (''order_number'', JStr (o_order_number ord)),
           (''user_id'', JStr (str_uuid (o_user_id ord))), (''email'', opt_str_json (o_billing_email ord)),
           (''reason'', opt_str_json reason)])])"

definition announce_refunded ::
  "publisher option \<Rightarrow> order \<Rightarrow> money \<Rightarrow> bool \<Rightarrow> (string \<times> jobj) list" where
  "announce_refunded pub ord amount_minor revoke_entitlements =
     (case pub of None \<Rightarrow> []
      | Some send \<Rightarrow> publish_all send [(''order.refunded'',
          [(''order_id'', JStr (str_uuid (o_id ord))), (''order_number'', JStr (o_order_number ord)),
           (''user_id'', JStr (str_uuid (o_user_id ord))),
           (''book_ids'', JArr (map (\<lambda>i. JStr (str_uuid (oi_book_id i))) (o_items ord))),
           (''amount_minor'', JInt amount_minor), (''currency'', JStr (o_currency ord)),
           (''fully_refunded'', JBool (o_status ord = Refunded)),
           (''revoke_entitlements'', JBool revoke_entitlements),
           (''email'', opt_str_json (o_billing_email ord))])])"

definition order_book_ids :: "order \<Rightarrow> uuid list" where
  "order_book_ids ord = map oi_book_id (o_items ord)"

subsection \<open>Lemmas\<close>

text \<open>
  The world a delivery meets when nothing else runs in its windows, and what a consistent
  database is for settlement.
\<close>

definition quiet :: "settle_env \<Rightarrow> bool" where
  "quiet env \<longleftrightarrow> se_payment_race env = id \<and> se_invoice_race env = no_others \<and> se_affiliate_race env = id"

lemma record_payment_tables:
  assumes "record_payment db env ord rep = Inr (db', p, created)" and "quiet env"
  shows "orders db' = orders db" and "invoices db' = invoices db" and "conversions db' = conversions db"
    and "affiliates db' = affiliates db" and "coupons db' = coupons db"
    and "redemptions db' = redemptions db" and "refunds db' = refunds db"
    and "webhook_events db' = webhook_events db" and "subscriptions db' = subscriptions db"
  using assms by (auto simp: record_payment_def quiet_def Let_def split: option.splits)

lemma record_payment_total:
  assumes "quiet env"
  shows "\<exists>db' p created. record_payment db env ord rep = Inr (db', p, created)"
proof (cases "find_payment db (pt_provider rep) (pt_provider_payment_id rep)")
  case None
  then have "insert_unique payment_clash (payment_of_report (se_now env) (se_payment_id env) ord rep) (payments db)
      = Some (payments db @ [payment_of_report (se_now env) (se_payment_id env) ord rep])"
    by (auto simp: insert_unique_def payment_clash_def payment_of_report_def find_payment_def first_row_None)
  with None assms show ?thesis by (auto simp: record_payment_def quiet_def Let_def)
qed (auto simp: record_payment_def Let_def)

lemma mark_paid_tables:
  assumes "mark_paid db now ord = (db', ord', newly)"
  shows "invoices db' = invoices db" and "conversions db' = conversions db"
    and "affiliates db' = affiliates db" and "coupons db' = coupons db"
    and "redemptions db' = redemptions db" and "payments db' = payments db"
  using assms by (auto simp: mark_paid_def save_order_def split: if_splits)

lemma record_conversion_tables:
  shows "orders (fst (record_conversion db id now nid ord)) = orders db"
    and "invoices (fst (record_conversion db id now nid ord)) = invoices db"
    and "coupons (fst (record_conversion db id now nid ord)) = coupons db"
    and "redemptions (fst (record_conversion db id now nid ord)) = redemptions db"
    and "length (conversions (fst (record_conversion db id now nid ord))) \<le> length (conversions db) + 1"
  by (cases "\<exists>account. creditable db ord account";
      auto simp: record_conversion_credits record_conversion_skips)+

text \<open>A settlement that returns, split by whether it was the first.\<close>

lemma settle_cases:
  assumes "settle db st env ord cf = Inr (db', res)"
  obtains
    (duplicate) db1 p created where "record_payment db env ord (capture_report ord cf) = Inr (db1, p, created)"
      "o_status ord \<in> SETTLED" "db' = db1"
      "res = \<lparr>sr_order = ord, sr_payment = Some p, sr_invoice = None, sr_newly_paid = False\<rparr>"
  | (first) db1 p created db2 ord2 db3 bill where
      "record_payment db env ord (capture_report ord cf) = Inr (db1, p, created)"
      "o_status ord \<notin> SETTLED" "mark_paid db1 (se_now env) ord = (db2, ord2, True)"
      "for_order db2 (se_invoice_race env) st (se_now env) (se_invoice_id env) ord2 = Inr (db3, bill)"
      "db' = fst (record_conversion db3 (se_affiliate_race env) (se_now env) (se_conversion_id env) ord2)"
      "res = \<lparr>sr_order = ord2, sr_payment = Some p, sr_invoice = Some bill, sr_newly_paid = True\<rparr>"
proof -
  from assms obtain db1 p created where
    rec: "record_payment db env ord (capture_report ord cf) = Inr (db1, p, created)"
    by (auto simp: settle_def split: sum.splits)
  show thesis
  proof (cases "o_status ord \<in> SETTLED")
    case True
    with assms rec show ?thesis by (intro duplicate [OF rec]) (auto simp: settle_def mark_paid_def)
  next
    case False
    then obtain db2 ord2 where paid: "mark_paid db1 (se_now env) ord = (db2, ord2, True)"
      by (auto simp: mark_paid_def save_order_def)
    with assms rec show ?thesis
      by (auto simp: settle_def split: sum.splits prod.splits intro!: first [OF rec False paid])
  qed
qed

lemma settle_duplicate:
  assumes "quiet env" and "o_status ord \<in> SETTLED"
  shows "\<exists>db' res. settle db st env ord cf = Inr (db', res) \<and> \<not> sr_newly_paid res
     \<and> orders db' = orders db \<and> invoices db' = invoices db \<and> conversions db' = conversions db
     \<and> affiliates db' = affiliates db \<and> coupons db' = coupons db \<and> redemptions db' = redemptions db"
proof -
  from record_payment_total [OF assms(1)] obtain db1 p created where
    rec: "record_payment db env ord (capture_report ord cf) = Inr (db1, p, created)" by blast
  have "settle db st env ord cf = Inr (db1, \<lparr>sr_order = ord, sr_payment = Some p, sr_invoice = None,
      sr_newly_paid = False\<rparr>)"
    using assms(2) by (simp add: settle_def rec mark_paid_def)
  with record_payment_tables [OF rec assms(1)] show ?thesis by simp
qed

lemma get_order_row: "get_order db k = Inr ord \<longleftrightarrow> first_row (\<lambda>r. o_id r = k) (orders db) = Some ord"
  by (auto simp: get_order_def split: option.splits)

lemma get_order_id: "get_order db k = Inr ord \<Longrightarrow> o_id ord = k"
  by (auto simp: get_order_row dest: first_row_Some)

definition paid_version :: "timestamp \<Rightarrow> order \<Rightarrow> order" where
  "paid_version now r = r\<lparr>o_status := Paid, o_paid_at := Some now, o_failure_reason := None\<rparr>"

lemma settle_first:
  assumes q: "quiet env" and ord: "get_order db k = Inr ord" and unpaid: "o_status ord \<notin> SETTLED"
    and ser: "serials_consecutive (invoice_prefix_for st (se_now env)) (invoices db)"
    and none: "\<forall>i \<in> set (invoices db). i_order_id i \<noteq> k"
  shows "\<exists>db' res i. settle db st env ord cf = Inr (db', res) \<and> sr_newly_paid res
     \<and> get_order db' k = Inr (paid_version (se_now env) ord)
     \<and> sr_order res = paid_version (se_now env) ord
     \<and> sr_invoice res = Some i \<and> invoices db' = invoices db @ [i] \<and> i_order_id i = k
     \<and> length (conversions db') \<le> length (conversions db) + 1
     \<and> coupons db' = coupons db \<and> redemptions db' = redemptions db"
proof -
  from record_payment_total [OF q] obtain db1 p created where
    rec: "record_payment db env ord (capture_report ord cf) = Inr (db1, p, created)" by blast
  let ?f = "paid_version (se_now env)"
  obtain db2 where paid: "mark_paid db1 (se_now env) ord = (db2, ?f ord, True)"
    and sv: "save_order db1 ord ?f = (db2, ?f ord)"
    using unpaid by (auto simp: mark_paid_def save_order_def paid_version_def [abs_def])
  note tabs = record_payment_tables [OF rec q] mark_paid_tables [OF paid]
  have k: "o_id ord = k" using ord by (rule get_order_id)
  have "first_row (\<lambda>r. o_id r = o_id ord) (orders db2) = Some (?f ord)"
    by (rule save_order_row [OF _ _ sv]) (use ord k tabs in \<open>simp_all add: get_order_row paid_version_def\<close>)
  with k have row: "first_row (\<lambda>r. o_id r = k) (orders db2) = Some (?f ord)" by simp
  have "one_or_none (\<lambda>i. i_order_id i = o_id (?f ord)) (invoices db2) = Inr None"
    using none k tabs
    by (auto simp: one_or_none_def filter_empty_conv paid_version_def split: list.splits)
  then obtain bill where bill: "for_order db2 (se_invoice_race env) st (se_now env) (se_invoice_id env) (?f ord)
      = Inr (db2\<lparr>invoices := invoices db @ [bill]\<rparr>, bill)" and bo: "i_order_id bill = k"
    using undisturbed_attempt [OF ser, of no_others 4 "se_invoice_id env" "?f ord"] q k tabs
    by (simp add: for_order_def MAX_SERIAL_ATTEMPTS_def quiet_def no_others_def eval_nat_numeral
        paid_version_def del: issue_attempts.simps)
  let ?db3 = "db2\<lparr>invoices := invoices db @ [bill]\<rparr>"
  let ?db4 = "fst (record_conversion ?db3 id (se_now env) (se_conversion_id env) (?f ord))"
  note tabs4 = record_conversion_tables [of ?db3 "se_now env" "se_conversion_id env" "?f ord"]
  have "settle db st env ord cf = Inr (?db4, \<lparr>sr_order = ?f ord, sr_payment = Some p,
      sr_invoice = Some bill, sr_newly_paid = True\<rparr>)"
    using q bill by (simp add: settle_def rec paid quiet_def split: prod.splits)
  moreover have "get_order ?db4 k = Inr (?f ord)" using row tabs4(1) by (simp add: get_order_row)
  ultimately show ?thesis using bo tabs tabs4(2-5) by simp
qed

subsection \<open>Properties\<close>

text \<open>
  Deliveries of confirmations for one order, each of which loads the order and settles it:
  the result is the database after all of them and, for each, whether it newly paid the
  order.
\<close>

definition deliver ::
  "payment_db \<Rightarrow> settings \<Rightarrow> uuid \<Rightarrow> settle_env \<times> confirmation \<Rightarrow> (payment_db \<times> bool) result" where
  "deliver db st k d =
     (case get_order db k of Inl e \<Rightarrow> Inl e
      | Inr ord \<Rightarrow> (case settle db st (fst d) ord (snd d) of Inl e \<Rightarrow> Inl e
                    | Inr (db', res) \<Rightarrow> Inr (db', sr_newly_paid res)))"

fun deliver_all ::
  "payment_db \<Rightarrow> settings \<Rightarrow> uuid \<Rightarrow> (settle_env \<times> confirmation) list \<Rightarrow> (payment_db \<times> bool list) result" where
  "deliver_all db st k [] = Inr (db, [])"
| "deliver_all db st k (d # ds) =
     (case deliver db st k d of Inl e \<Rightarrow> Inl e
      | Inr (db1, b) \<Rightarrow> (case deliver_all db1 st k ds of Inl e \<Rightarrow> Inl e
                         | Inr (db2, bs) \<Rightarrow> Inr (db2, b # bs)))"

lemma redeliveries:
  assumes "\<forall>d \<in> set ds. quiet (fst d)" and "get_order db k = Inr ord" and "o_status ord \<in> SETTLED"
  shows "\<exists>db'. deliver_all db st k ds = Inr (db', replicate (length ds) False)
     \<and> orders db' = orders db \<and> invoices db' = invoices db \<and> conversions db' = conversions db
     \<and> affiliates db' = affiliates db \<and> coupons db' = coupons db \<and> redemptions db' = redemptions db"
  using assms(1,2)
proof (induction ds arbitrary: db)
  case (Cons d ds)
  from settle_duplicate [of "fst d" ord db st "snd d"] Cons.prems assms(3)
  obtain db1 res where s: "settle db st (fst d) ord (snd d) = Inr (db1, res)" "\<not> sr_newly_paid res"
    and t: "orders db1 = orders db" "invoices db1 = invoices db" "conversions db1 = conversions db"
      "affiliates db1 = affiliates db" "coupons db1 = coupons db" "redemptions db1 = redemptions db" by auto
  have "get_order db1 k = Inr ord" using Cons.prems(2) t(1) by (simp add: get_order_row)
  from Cons.IH [OF _ this] Cons.prems(1) obtain db2 where
    "deliver_all db1 st k ds = Inr (db2, replicate (length ds) False)"
    "orders db2 = orders db1" "invoices db2 = invoices db1" "conversions db2 = conversions db1"
    "affiliates db2 = affiliates db1" "coupons db2 = coupons db1" "redemptions db2 = redemptions db1" by auto
  with Cons.prems(2) s t show ?case by (simp add: deliver_def)
qed simp

text \<open>
  C1: Confirmations arrive more than once; their effects happen once. Take an unpaid order
  that has no invoice yet, invoice serials without gaps, and any number of confirmations for
  the order (webhook redeliveries, the browser's verification, replays; any amounts, providers
  and payment ids) that are processed one after the other, each without another session
  inserting an invoice meanwhile (\<open>quiet\<close>). Every delivery is then processed without error;
  only the first reports the order as newly paid; and after all of them the order is paid as
  of the first, exactly one invoice was issued for it, at most one affiliate conversion was
  recorded, and the coupon tables are untouched. Two confirmations processed at the same time
  are not covered: \<open>concurrent_settlement_double_invoice\<close> shows what they do.
\<close>

theorem settlement_exactly_once:
  assumes "get_order db k = Inr ord" and "o_status ord \<notin> SETTLED"
    and "\<forall>d \<in> set (d1 # ds). quiet (fst d)"
    and "serials_consecutive (invoice_prefix_for st (se_now (fst d1))) (invoices db)"
    and "\<forall>i \<in> set (invoices db). i_order_id i \<noteq> k"
  shows "\<exists>db' i. deliver_all db st k (d1 # ds) = Inr (db', True # replicate (length ds) False)
     \<and> get_order db' k = Inr (paid_version (se_now (fst d1)) ord)
     \<and> invoices db' = invoices db @ [i] \<and> i_order_id i = k
     \<and> length (conversions db') \<le> length (conversions db) + 1
     \<and> coupons db' = coupons db \<and> redemptions db' = redemptions db"
proof -
  from settle_first [OF _ assms(1,2,4,5)] assms(3) obtain db1 res i where
    s: "settle db st (fst d1) ord (snd d1) = Inr (db1, res)" "sr_newly_paid res"
      "get_order db1 k = Inr (paid_version (se_now (fst d1)) ord)"
      "invoices db1 = invoices db @ [i]" "i_order_id i = k"
      "length (conversions db1) \<le> length (conversions db) + 1"
      "coupons db1 = coupons db" "redemptions db1 = redemptions db"
    by (metis list.set_intros(1))
  have "o_status (paid_version (se_now (fst d1)) ord) \<in> SETTLED" by (simp add: paid_version_def SETTLED_def)
  from redeliveries [OF _ s(3) this, of ds st] assms(3) obtain db2 where rest:
    "deliver_all db1 st k ds = Inr (db2, replicate (length ds) False)" "orders db2 = orders db1"
    "invoices db2 = invoices db1" "conversions db2 = conversions db1" "coupons db2 = coupons db1"
    "redemptions db2 = redemptions db1" by auto
  have "deliver_all db st k (d1 # ds) = Inr (db2, True # replicate (length ds) False)"
    using rest(1) s(1,2) assms(1) by (simp add: deliver_def)
  moreover have "get_order db2 k = Inr (paid_version (se_now (fst d1)) ord)"
    using s(3) rest(2) by (simp add: get_order_row)
  ultimately show ?thesis using s rest by auto
qed

definition sample_settle_env :: settle_env where
  "sample_settle_env = \<lparr>se_now = 1000000, se_payment_id = 50, se_invoice_id = 51, se_conversion_id = 52,
     se_payment_race = id, se_invoice_race = no_others, se_affiliate_race = id\<rparr>"

definition sample_confirmation :: confirmation where
  "sample_confirmation = \<lparr>cf_provider = Razorpay, cf_provider_payment_id = ''pay_1'',
     cf_amount_minor = Some 1000, cf_currency = None, cf_method = Some ''upi'', cf_raw_payload = []\<rparr>"

lemma sample_quiet: "quiet sample_settle_env"
  by (simp add: quiet_def sample_settle_env_def)

lemma sample_settle_facts:
  "get_order sample_order_db 40 = Inr sample_order" "o_status sample_order \<notin> SETTLED"
  "serials_consecutive p (invoices sample_order_db)" "\<forall>i \<in> set (invoices sample_order_db). i_order_id i \<noteq> 40"
  by (simp_all add: get_order_def sample_order_db_def empty_db_def sample_order_def SETTLED_def
      serials_consecutive_def serials_used_def)

theorem settlement_exactly_once_witness:
  "\<exists>db' i. deliver_all sample_order_db default_settings 40
      [(sample_settle_env, sample_confirmation), (sample_settle_env, sample_confirmation)]
      = Inr (db', [True, False]) \<and> invoices db' = [i] \<and> i_order_id i = 40"
proof -
  let ?d = "(sample_settle_env, sample_confirmation)"
  have "\<forall>d \<in> set [?d, ?d]. quiet (fst d)" by (simp add: sample_quiet)
  from settlement_exactly_once [OF sample_settle_facts(1,2) this sample_settle_facts(3,4), of default_settings]
  show ?thesis by (auto simp: sample_order_db_def empty_db_def)
qed

end
