(* ===== verification/Refunds.thy ===== *)
theory Refunds
  imports Payments
begin

section \<open>Refunds\<close>

text \<open>
  \<open>apps/payment/services/refunds.py\<close>. A refund checks what remains refundable on the loaded
  order, inserts its row, asks the gateway with the row's id as idempotency key, and moves
  the order's ledger. The lemmas show that what the ledger says was refunded is the sum of
  the refund rows and never exceeds the total when each refund sees the current order; the
  last theorem shows that the stale reading the code allows breaks this.
\<close>

definition capturable_payment :: "payment_db \<Rightarrow> order \<Rightarrow> payment option" where
  "capturable_payment db ord =
     max_row (\<lambda>p. (p_amount_minor p, p_created_at p))
       (filter (\<lambda>p. p_order_id p = o_id ord \<and> p_status p \<in> {PayCaptured, PayPartiallyRefunded})
          (payments db))"

definition refund_clash :: "refund \<Rightarrow> refund \<Rightarrow> bool" where
  "refund_clash a b \<longleftrightarrow> r_provider a = r_provider b \<and>
     r_provider_refund_id a \<noteq> None \<and> r_provider_refund_id a = r_provider_refund_id b"

interpretation refunds_tbl: keyed_table
  "\<lambda>r. (r_provider r, r_provider_refund_id r)" "\<lambda>r. r_provider_refund_id r \<noteq> None" refund_clash
proof unfold_locales
  fix r x :: refund
  show "refund_clash r x \<longleftrightarrow> r_provider_refund_id r \<noteq> None \<and> r_provider_refund_id x \<noteq> None \<and>
      (r_provider r, r_provider_refund_id r) = (r_provider x, r_provider_refund_id x)"
    by (cases "r_provider_refund_id x") (auto simp: refund_clash_def)
qed

definition new_refund ::
  "timestamp \<Rightarrow> uuid \<Rightarrow> order \<Rightarrow> payment option \<Rightarrow> money \<Rightarrow> string option \<Rightarrow> uuid option \<Rightarrow> refund" where
  "new_refund now new_id ord pay amount reason actor_id =
     \<lparr>r_id = new_id, r_order_id = o_id ord, r_payment_id = map_option p_id pay,
      r_provider = opt_default (o_provider ord) Manual, r_provider_refund_id = None,
      r_amount_minor = amount, r_currency = o_currency ord, r_status = RefPending, r_reason = reason,
      r_actor_id = actor_id, r_processed_at = None, r_raw_payload = [], r_created_at = now\<rparr>"

text \<open>The gateway's part: the refund row and the payment after it, or the error it raised.\<close>

definition refund_at_gateway ::
  "settings \<Rightarrow> gateway_env \<Rightarrow> timestamp \<Rightarrow> order \<Rightarrow> payment \<Rightarrow> refund \<Rightarrow> (refund \<times> PaymentStatus) result" where
  "refund_at_gateway st genv now ord pay rfd =
     (case get_gateway st (r_provider rfd) of Inl e \<Rightarrow> Inl e
      | Inr g \<Rightarrow>
          (case gateway_refund genv g
                  \<lparr>rr_provider_payment_id = p_provider_payment_id pay,
                   rr_amount_minor = r_amount_minor rfd, rr_currency = o_currency ord,
                   rr_reason = r_reason rfd, rr_idempotency_key = str_uuid (r_id rfd)\<rparr> of
             Inl e \<Rightarrow> Inl e
           | Inr res \<Rightarrow>
               (let terminal = pr_status res \<in> {''processed'', ''succeeded'', ''refunded''}
                in Inr (rfd\<lparr>r_status := (if terminal then RefSucceeded else RefProcessing),
                             r_processed_at := (if terminal then Some now else None),
                             r_provider_refund_id := pr_provider_refund_id res,
                             r_raw_payload := pr_raw res\<rparr>,
                        if r_amount_minor rfd \<ge> p_amount_minor pay then PayRefunded
                        else PayPartiallyRefunded))))"

definition create_refund ::
  "payment_db \<Rightarrow> settings \<Rightarrow> gateway_env \<Rightarrow> timestamp \<Rightarrow> uuid \<Rightarrow> order \<Rightarrow> money option \<Rightarrow>
   string option \<Rightarrow> uuid option \<Rightarrow> (payment_db \<times> order \<times> refund) result" where
  "create_refund db st genv now new_id ord amount_minor reason actor_id =
     (if o_status ord \<notin> {Paid, PartiallyRefunded}
      then Inl (raise_code ConflictError ''order_not_refundable'')
      else
        let amount = (case amount_minor of None \<Rightarrow> refundable_minor ord | Some a \<Rightarrow> a) in
        if amount \<le> 0 then Inl (raise_code BadRequestError ''nothing_to_refund'')
        else if amount > refundable_minor ord
        then Inl (raise_code BadRequestError ''refund_exceeds_remaining'')
        else
          let pay = capturable_payment db ord;
              rfd = new_refund now new_id ord pay amount reason actor_id
          in case (case pay of
                     None \<Rightarrow> Inr (rfd\<lparr>r_status := RefSucceeded, r_processed_at := Some now\<rparr>, payments db)
                   | Some p \<Rightarrow>
                       (case refund_at_gateway st genv now ord p rfd of Inl e \<Rightarrow> Inl e
                        | Inr (rfd', pst) \<Rightarrow>
                            Inr (rfd', update_rows (\<lambda>x. p_id x = p_id p)
                                         (\<lambda>x. x\<lparr>p_status := pst\<rparr>) (payments db)))) of
               Inl e \<Rightarrow> Inl e
             | Inr (rfd', pays) \<Rightarrow>
                 (case insert_unique refund_clash rfd' (refunds db) of
                    None \<Rightarrow> Inl (PyExn ''IntegrityError'')
                  | Some t \<Rightarrow>
                      (case apply_refund (db\<lparr>refunds := t, payments := pays\<rparr>) ord amount of
                         Inl e \<Rightarrow> Inl e
                       | Inr (db1, ord') \<Rightarrow>
                           Inr (if o_status ord' = Refunded then reverse_conversion db1 now (o_id ord)
                                else db1, ord', rfd'))))"

definition mark_settled ::
  "payment_db \<Rightarrow> timestamp \<Rightarrow> PaymentProvider \<Rightarrow> string \<Rightarrow> bool \<Rightarrow> jobj \<Rightarrow> payment_db \<times> refund option" where
  "mark_settled db now provider provider_refund_id succeeded raw =
     (case first_row (\<lambda>r. r_provider r = provider \<and> r_provider_refund_id r = Some provider_refund_id)
             (refunds db) of
        None \<Rightarrow> (db, None)
      | Some rfd \<Rightarrow>
          if r_status rfd \<in> {RefSucceeded, RefFailed} then (db, Some rfd)
          else
            let f = (\<lambda>r. r\<lparr>r_status := (if succeeded then RefSucceeded else RefFailed),
                      r_processed_at := Some now,
                      r_raw_payload := (if raw \<noteq> [] then raw else r_raw_payload rfd)\<rparr>)
            in (db\<lparr>refunds := update_rows (\<lambda>r. r_id r = r_id rfd) f (refunds db)\<rparr>, Some (f rfd)))"

definition get_refund :: "payment_db \<Rightarrow> uuid \<Rightarrow> refund result" where
  "get_refund db refund_id =
     (case first_row (\<lambda>r. r_id r = refund_id) (refunds db) of
        None \<Rightarrow> Inl (raise_default NotFoundError) | Some r \<Rightarrow> Inr r)"

definition list_refunds_for_order :: "payment_db \<Rightarrow> uuid \<Rightarrow> refund list" where
  "list_refunds_for_order db order_id =
     order_by_desc r_created_at (filter (\<lambda>r. r_order_id r = order_id) (refunds db))"

subsection \<open>Lemmas: the refund ledger\<close>

definition refunded_rows :: "payment_db \<Rightarrow> uuid \<Rightarrow> money" where
  "refunded_rows db k = sum_list (map r_amount_minor (filter (\<lambda>r. r_order_id r = k) (refunds db)))"

text \<open>Order ids are keys, every order is well-formed, and the ledger agrees with the rows.\<close>

definition refunds_ok :: "payment_db \<Rightarrow> bool" where
  "refunds_ok db \<longleftrightarrow> distinct (map o_id (orders db)) \<and>
     (\<forall>ord \<in> set (orders db). order_ok ord \<and> o_refunded_minor ord = refunded_rows db (o_id ord))"

lemma reverse_conversion_tables:
  "orders (reverse_conversion db now k) = orders db" "refunds (reverse_conversion db now k) = refunds db"
  "payments (reverse_conversion db now k) = payments db"
  by (auto simp: reverse_conversion_def Let_def split: option.splits)

lemma refund_at_gateway_fields:
  assumes "refund_at_gateway st genv now ord p rfd = Inr (rfd', pst)"
  shows "r_amount_minor rfd' = r_amount_minor rfd" and "r_order_id rfd' = r_order_id rfd"
  using assms by (auto simp: refund_at_gateway_def Let_def split: sum.splits)

lemma create_refund_effect:
  assumes "create_refund db st genv now new_id ord amount_minor reason actor = Inr (db', ord', rfd)"
  defines "amount \<equiv> (case amount_minor of None \<Rightarrow> refundable_minor ord | Some a \<Rightarrow> a)"
  shows "is_paid ord" and "0 < amount" and "amount \<le> refundable_minor ord"
    and "refunds db' = refunds db @ [rfd]" and "r_amount_minor rfd = amount" and "r_order_id rfd = o_id ord"
    and "ord' = ord\<lparr>o_refunded_minor := o_refunded_minor ord + amount,
           o_status := (if o_refunded_minor ord + amount \<ge> o_total_minor ord then Refunded
                        else PartiallyRefunded)\<rparr>"
    and "orders db' = update_rows (\<lambda>r. o_id r = o_id ord)
           (\<lambda>r. r\<lparr>o_refunded_minor := o_refunded_minor ord + amount,
                o_status := (if o_refunded_minor ord + amount \<ge> o_total_minor ord then Refunded
                             else PartiallyRefunded)\<rparr>) (orders db)"
proof -
  from assms(1) have chk: "o_status ord \<in> {Paid, PartiallyRefunded}" "\<not> amount \<le> 0"
    "\<not> amount > refundable_minor ord"
    unfolding create_refund_def amount_def by (auto simp: Let_def split: if_split_asm)
  then show "is_paid ord" "0 < amount" "amount \<le> refundable_minor ord" by (auto simp: is_paid_def)
  from assms(1) chk obtain rfd' pays db1 o1 where
    r: "(case capturable_payment db ord of
          None \<Rightarrow> Inr ((new_refund now new_id ord (capturable_payment db ord) amount reason actor)
                    \<lparr>r_status := RefSucceeded, r_processed_at := Some now\<rparr>, payments db)
        | Some p \<Rightarrow>
            (case refund_at_gateway st genv now ord p
                    (new_refund now new_id ord (capturable_payment db ord) amount reason actor) of Inl e \<Rightarrow> Inl e
             | Inr (rfd', pst) \<Rightarrow>
                 Inr (rfd', update_rows (\<lambda>x. p_id x = p_id p) (\<lambda>x. x\<lparr>p_status := pst\<rparr>) (payments db))))
        = (Inr (rfd', pays) :: (refund \<times> payment list) result)"
    and a: "apply_refund (db\<lparr>refunds := refunds db @ [rfd'], payments := pays\<rparr>) ord amount = Inr (db1, o1)"
    and d: "db' = (if o_status o1 = Refunded then reverse_conversion db1 now (o_id ord) else db1)"
      "ord' = o1" "rfd = rfd'"
    unfolding create_refund_def amount_def [symmetric] Let_def
    by (auto simp: insert_unique_Some split: sum.splits option.split_asm if_split_asm prod.splits)
  have "r_amount_minor rfd' = amount \<and> r_order_id rfd' = o_id ord"
    using r by (auto simp: new_refund_def split: option.splits sum.splits dest: refund_at_gateway_fields)
  with d show "r_amount_minor rfd = amount" "r_order_id rfd = o_id ord" by auto
  note ar = apply_refund_result [OF a]
  show "ord' = ord\<lparr>o_refunded_minor := o_refunded_minor ord + amount,
           o_status := (if o_refunded_minor ord + amount \<ge> o_total_minor ord then Refunded
                        else PartiallyRefunded)\<rparr>" using ar(1) d by simp
  show "refunds db' = refunds db @ [rfd]" using d ar(4) by (simp add: reverse_conversion_tables save_order_def)
  show "orders db' = update_rows (\<lambda>r. o_id r = o_id ord)
           (\<lambda>r. r\<lparr>o_refunded_minor := o_refunded_minor ord + amount,
                o_status := (if o_refunded_minor ord + amount \<ge> o_total_minor ord then Refunded
                             else PartiallyRefunded)\<rparr>) (orders db)"
    using d ar(4) by (simp add: reverse_conversion_tables)
qed

lemma refunded_rows_append:
  "refunds db' = refunds db @ [r] \<Longrightarrow>
     refunded_rows db' k = refunded_rows db k + (if r_order_id r = k then r_amount_minor r else 0)"
  by (simp add: refunded_rows_def)

lemma refund_order_ok:
  assumes "order_ok ord" and "is_paid ord" and "0 < amount" and "amount \<le> refundable_minor ord"
  shows "order_ok (ord\<lparr>o_refunded_minor := o_refunded_minor ord + amount,
     o_status := (if o_refunded_minor ord + amount \<ge> o_total_minor ord then Refunded
                  else PartiallyRefunded)\<rparr>)"
  using assms by (auto simp: order_ok_def order_checks_def refundable_minor_def is_paid_def SETTLED_def)

lemma create_refund_ok:
  assumes inv: "refunds_ok db" and row: "ord \<in> set (orders db)"
    and ok: "create_refund db st genv now new_id ord amount_minor reason actor = Inr (db', ord', rfd)"
  shows "refunds_ok db'" and "ord' \<in> set (orders db')"
proof -
  note eff = create_refund_effect [OF ok]
  let ?f = "\<lambda>r. r\<lparr>o_refunded_minor := o_refunded_minor ord +
      (case amount_minor of None \<Rightarrow> refundable_minor ord | Some a \<Rightarrow> a),
    o_status := (if o_refunded_minor ord + (case amount_minor of None \<Rightarrow> refundable_minor ord | Some a \<Rightarrow> a)
       \<ge> o_total_minor ord then Refunded else PartiallyRefunded)\<rparr>"
  have uniq: "r = ord" if "r \<in> set (orders db)" "o_id r = o_id ord" for r
    using first_row_key [of o_id "orders db" r ord] inv row that by (simp add: refunds_ok_def)
  have rows: "orders db' = update_rows (\<lambda>r. o_id r = o_id ord) ?f (orders db)" by (rule eff(8))
  show "ord' \<in> set (orders db')" unfolding rows eff(7) set_update_rows using row by force
  have "order_ok x \<and> o_refunded_minor x = refunded_rows db' (o_id x)" if x: "x \<in> set (orders db')" for x
  proof -
    from x rows obtain r where r: "r \<in> set (orders db)" "x = (if o_id r = o_id ord then ?f r else r)"
      by (auto simp: set_update_rows)
    have sum: "refunded_rows db' (o_id x) = refunded_rows db (o_id x)
        + (if r_order_id rfd = o_id x then r_amount_minor rfd else 0)"
      by (rule refunded_rows_append [OF eff(4)])
    show ?thesis
    proof (cases "o_id r = o_id ord")
      case True
      with uniq r have "r = ord" by blast
      with r have x_eq: "x = ?f ord" by simp
      have "order_ok ord" "o_refunded_minor ord = refunded_rows db (o_id ord)"
        using inv row by (auto simp: refunds_ok_def)
      with refund_order_ok [OF _ eff(1-3)] sum eff(5,6) show ?thesis unfolding x_eq by simp
    next
      case False
      with r inv sum eff(6) show ?thesis by (auto simp: refunds_ok_def)
    qed
  qed
  moreover have "map o_id (orders db') = map o_id (orders db)" by (simp add: rows map_update_rows)
  ultimately show "refunds_ok db'" using inv by (simp add: refunds_ok_def)
qed

lemma refund_amounts_kept:
  assumes "\<And>r. r_amount_minor (f r) = r_amount_minor r" and "\<And>r. r_order_id (f r) = r_order_id r"
  shows "map r_amount_minor (filter (\<lambda>r. r_order_id r = k) (update_rows P f rs))
     = map r_amount_minor (filter (\<lambda>r. r_order_id r = k) rs)"
  using assms by (induction rs) auto

lemma mark_settled_ok:
  assumes "refunds_ok db"
  shows "refunds_ok (fst (mark_settled db now provider rid okay raw))"
proof -
  have "refunded_rows (fst (mark_settled db now provider rid okay raw)) k = refunded_rows db k" for k
    by (simp add: mark_settled_def refunded_rows_def Let_def refund_amounts_kept split: option.splits)
  moreover have "orders (fst (mark_settled db now provider rid okay raw)) = orders db"
    by (auto simp: mark_settled_def Let_def split: option.splits)
  ultimately show ?thesis using assms by (simp add: refunds_ok_def)
qed

text \<open>Refunds issued one after the other, and the gateways' confirmations between them.\<close>

inductive refund_run :: "payment_db \<Rightarrow> payment_db \<Rightarrow> bool" where
  refund_start: "refund_run db db"
| refund_issue: "refund_run db db1 \<Longrightarrow> get_order db1 k = Inr ord \<Longrightarrow>
    create_refund db1 st genv now new_id ord amount reason actor = Inr (db2, ord', rfd) \<Longrightarrow>
    refund_run db db2"
| refund_confirm: "refund_run db db1 \<Longrightarrow>
    refund_run db (fst (mark_settled db1 now provider rid okay raw))"

lemma refund_run_ok: "refund_run db db' \<Longrightarrow> refunds_ok db \<Longrightarrow> refunds_ok db'"
proof (induction rule: refund_run.induct)
  case (refund_issue db db1 k ord st genv now new_id amount reason actor db2 ord' rfd)
  then have "ord \<in> set (orders db1)" by (auto simp: get_order_row dest: first_row_Some)
  with refund_issue create_refund_ok(1) show ?case by blast
qed (auto intro: mark_settled_ok)

subsection \<open>Properties\<close>

text \<open>
  C5: Refunds never exceed the order. When refunds of any amounts are issued one after the
  other, with gateway confirmations in between, the amounts of the refund rows of each order
  add up to its recorded \<open>refunded_minor\<close>, at most its total, and an order is marked fully
  refunded exactly when the rows add up to the whole total. Refunds requested at the same time
  are not covered: \<open>concurrent_refunds_exceed_total\<close> shows that they can add up to more.
\<close>

theorem refunds_within_total:
  assumes "refund_run db db'" and "refunds_ok db" and "ord \<in> set (orders db')"
  shows "refunded_rows db' (o_id ord) = o_refunded_minor ord
     \<and> refunded_rows db' (o_id ord) \<le> o_total_minor ord
     \<and> (o_status ord = Refunded \<longrightarrow> refunded_rows db' (o_id ord) = o_total_minor ord)
     \<and> (o_status ord = PartiallyRefunded \<longrightarrow> refunded_rows db' (o_id ord) < o_total_minor ord)"
  using refund_run_ok [OF assms(1,2)] assms(3)
  by (auto simp: refunds_ok_def order_ok_def order_checks_def)

text \<open>
  A refund is refused unless the order is paid, the amount positive and within what
  remains; and one that is refused changes nothing (no refund row, no ledger movement)
  because it is refused before the gateway is called.
\<close>

lemma refund_guards:
  "let amount = (case amount_minor of None \<Rightarrow> refundable_minor ord | Some a \<Rightarrow> a)
   in (o_status ord \<notin> {Paid, PartiallyRefunded} \<longrightarrow>
         create_refund db st genv now new_id ord amount_minor reason actor
           = Inl (raise_code ConflictError ''order_not_refundable''))
    \<and> (o_status ord \<in> {Paid, PartiallyRefunded} \<and> amount \<le> 0 \<longrightarrow>
         create_refund db st genv now new_id ord amount_minor reason actor
           = Inl (raise_code BadRequestError ''nothing_to_refund''))
    \<and> (o_status ord \<in> {Paid, PartiallyRefunded} \<and> 0 < amount \<and> refundable_minor ord < amount \<longrightarrow>
         create_refund db st genv now new_id ord amount_minor reason actor
           = Inl (raise_code BadRequestError ''refund_exceeds_remaining''))"
  by (auto simp: create_refund_def Let_def)

definition paid_order :: order where
  "paid_order = sample_order\<lparr>o_status := Paid, o_paid_at := Some 5\<rparr>"

definition paid_order_db :: payment_db where
  "paid_order_db = empty_db\<lparr>orders := [paid_order]\<rparr>"

definition no_gateway :: gateway_env where
  "no_gateway = \<lparr>ge_post = (\<lambda>_ _ _ _. HttpUnreachable)\<rparr>"

lemma paid_order_refunds_ok: "refunds_ok paid_order_db"
  by (simp add: refunds_ok_def paid_order_db_def empty_db_def paid_order_def sample_order_def order_ok_def
      order_checks_def refunded_rows_def SETTLED_def)

lemma sample_refund:
  "\<exists>db' rfd. create_refund paid_order_db default_settings no_gateway 0 60 paid_order (Some 400) None None
     = Inr (db', paid_order\<lparr>o_refunded_minor := 400, o_status := PartiallyRefunded\<rparr>, rfd)
     \<and> orders db' = [paid_order\<lparr>o_refunded_minor := 400, o_status := PartiallyRefunded\<rparr>]"
  by (simp add: create_refund_def paid_order_def sample_order_def refundable_minor_def paid_order_db_def
      empty_db_def capturable_payment_def insert_unique_def apply_refund_def save_order_def order_checks_def
      Let_def)

theorem refunds_within_total_witness:
  "\<exists>db'. refund_run paid_order_db db' \<and> refunded_rows db' 40 = 400 \<and> refunded_rows db' 40 < 1000"
proof -
  from sample_refund obtain db' rfd where
    r: "create_refund paid_order_db default_settings no_gateway 0 60 paid_order (Some 400) None None
      = Inr (db', paid_order\<lparr>o_refunded_minor := 400, o_status := PartiallyRefunded\<rparr>, rfd)"
    and o: "orders db' = [paid_order\<lparr>o_refunded_minor := 400, o_status := PartiallyRefunded\<rparr>]" by blast
  have "get_order paid_order_db 40 = Inr paid_order"
    by (simp add: get_order_def paid_order_db_def paid_order_def sample_order_def empty_db_def)
  from refund_issue [OF refund_start this r] have run: "refund_run paid_order_db db'" .
  from refunds_within_total [OF run paid_order_refunds_ok, of "hd (orders db')"] o run show ?thesis
    by (auto simp: paid_order_def sample_order_def)
qed

text \<open>
  The ledger writes the value computed from the loaded order, so two refunds that loaded the
  order before either committed both pass the check, both insert a row (and both reach the
  gateway), and the constraint \<open>refunded_minor <= total_minor\<close> does not stop the second.
\<close>

lemma concurrent_refunds_exceed_total:
  "\<exists>db1 o1 r1 db2 o2 r2.
     create_refund paid_order_db default_settings no_gateway 0 60 paid_order None None None = Inr (db1, o1, r1)
     \<and> create_refund db1 default_settings no_gateway 0 61 paid_order None None None = Inr (db2, o2, r2)
     \<and> refunded_rows db2 40 = 2 * o_total_minor paid_order
     \<and> o_refunded_minor (hd (orders db2)) = o_total_minor paid_order"
  by (simp add: create_refund_def paid_order_def sample_order_def refundable_minor_def paid_order_db_def
      empty_db_def capturable_payment_def insert_unique_def apply_refund_def save_order_def order_checks_def
      Let_def reverse_conversion_def refunded_rows_def new_refund_def refund_clash_def)

end
