(* ===== verification/Subscriptions.thy ===== *)
theory Subscriptions
  imports Orders
begin

section \<open>Subscription plans and memberships\<close>

text \<open>
  \<open>apps/payment/services/subscriptions.py\<close>. A membership records what the gateway reports;
  access is decided by the status and the end of the paid period. The lemmas show when a
  membership gives access, that a cancellation at the period end takes nothing away early,
  and that the clean-up job never changes anyone's access.
\<close>

definition LIVE :: "SubscriptionStatus set" where
  "LIVE = {SubActive, SubTrialing, SubPastDue}"

definition PROVIDER_STATUS :: "(string \<times> SubscriptionStatus) list" where
  "PROVIDER_STATUS =
     [(''created'', SubPending), (''authenticated'', SubPending), (''incomplete'', SubPending),
      (''trialing'', SubTrialing), (''active'', SubActive), (''past_due'', SubPastDue),
      (''halted'', SubPastDue), (''pending'', SubPastDue), (''cancelled'', SubCancelled),
      (''canceled'', SubCancelled), (''completed'', SubExpired), (''expired'', SubExpired),
      (''unpaid'', SubExpired)]"

subsection \<open>Plans\<close>

definition list_plans :: "payment_db \<Rightarrow> bool \<Rightarrow> subscription_plan list" where
  "list_plans db active_only =
     sort_key sp_price_minor (filter (\<lambda>p. \<not> active_only \<or> sp_is_active p) (plans db))"

definition get_plan :: "payment_db \<Rightarrow> uuid \<Rightarrow> subscription_plan result" where
  "get_plan db plan_id =
     (case first_row (\<lambda>p. sp_id p = plan_id) (plans db) of
        None \<Rightarrow> Inl (raise_default NotFoundError) | Some p \<Rightarrow> Inr p)"

definition create_plan ::
  "payment_db \<Rightarrow> subscription_plan \<Rightarrow> (payment_db \<times> subscription_plan) result" where
  "create_plan db plan =
     (case first_row (\<lambda>p. sp_code p = sp_code plan) (plans db) of
        Some _ \<Rightarrow> Inl (raise_default ConflictError)
      | None \<Rightarrow> Inr (db\<lparr>plans := plans db @ [plan]\<rparr>, plan))"

datatype plan_change =
    SetPlanName "string option"
  | SetPlanDescription "string option"
  | SetPlanPrice "money option"
  | SetPlanInterval "string option"
  | SetPlanTrialDays "int option"
  | SetPlanActive "bool option"
  | SetPlanProviderIds "jobj option"

fun apply_plan_change :: "plan_change \<Rightarrow> subscription_plan \<Rightarrow> subscription_plan option" where
  "apply_plan_change (SetPlanName v) p = map_option (\<lambda>x. p\<lparr>sp_name := x\<rparr>) v"
| "apply_plan_change (SetPlanDescription v) p = Some (p\<lparr>sp_description := v\<rparr>)"
| "apply_plan_change (SetPlanPrice v) p = map_option (\<lambda>x. p\<lparr>sp_price_minor := x\<rparr>) v"
| "apply_plan_change (SetPlanInterval v) p = map_option (\<lambda>x. p\<lparr>sp_interval := x\<rparr>) v"
| "apply_plan_change (SetPlanTrialDays v) p = map_option (\<lambda>x. p\<lparr>sp_trial_days := x\<rparr>) v"
| "apply_plan_change (SetPlanActive v) p = map_option (\<lambda>x. p\<lparr>sp_is_active := x\<rparr>) v"
| "apply_plan_change (SetPlanProviderIds v) p = map_option (\<lambda>x. p\<lparr>sp_provider_plan_ids := x\<rparr>) v"

fun apply_plan_changes :: "plan_change list \<Rightarrow> subscription_plan \<Rightarrow> subscription_plan option" where
  "apply_plan_changes [] p = Some p"
| "apply_plan_changes (x # xs) p =
     (case apply_plan_change x p of None \<Rightarrow> None | Some q \<Rightarrow> apply_plan_changes xs q)"

definition update_plan ::
  "payment_db \<Rightarrow> subscription_plan \<Rightarrow> plan_change list \<Rightarrow> (payment_db \<times> subscription_plan) result" where
  "update_plan db plan changes =
     (case apply_plan_changes changes plan of None \<Rightarrow> Inl (PyExn ''IntegrityError'')
      | Some q \<Rightarrow>
          Inr (db\<lparr>plans := update_rows (\<lambda>p. sp_id p = sp_id plan)
                    (\<lambda>p. opt_default (apply_plan_changes changes p) p) (plans db)\<rparr>, q))"

subsection \<open>Memberships\<close>

definition get_subscription :: "payment_db \<Rightarrow> uuid \<Rightarrow> subscription result" where
  "get_subscription db k =
     (case first_row (\<lambda>s. s_id s = k) (subscriptions db) of
        None \<Rightarrow> Inl (raise_default NotFoundError) | Some s \<Rightarrow> Inr s)"

definition get_subscription_for_user :: "payment_db \<Rightarrow> uuid \<Rightarrow> uuid \<Rightarrow> subscription result" where
  "get_subscription_for_user db k user_id =
     (case get_subscription db k of Inl e \<Rightarrow> Inl e
      | Inr s \<Rightarrow> if s_user_id s \<noteq> user_id then Inl (raise_default NotFoundError) else Inr s)"

definition gives_access :: "timestamp \<Rightarrow> subscription \<Rightarrow> bool" where
  "gives_access now s \<longleftrightarrow> s_status s \<in> LIVE \<and>
     (case s_current_period_end s of None \<Rightarrow> True | Some t \<Rightarrow> t > now)"

definition active_for_user :: "payment_db \<Rightarrow> timestamp \<Rightarrow> uuid \<Rightarrow> subscription option" where
  "active_for_user db now user_id =
     max_row s_created_at (filter (\<lambda>s. s_user_id s = user_id \<and> gives_access now s) (subscriptions db))"

definition list_subscriptions_for_user :: "payment_db \<Rightarrow> uuid \<Rightarrow> subscription list" where
  "list_subscriptions_for_user db user_id =
     order_by_desc s_created_at (filter (\<lambda>s. s_user_id s = user_id) (subscriptions db))"

definition subscription_clash :: "subscription \<Rightarrow> subscription \<Rightarrow> bool" where
  "subscription_clash a b \<longleftrightarrow> s_provider a = s_provider b \<and>
     s_provider_subscription_id a \<noteq> None \<and> s_provider_subscription_id a = s_provider_subscription_id b"

definition create_subscription ::
  "payment_db \<Rightarrow> timestamp \<Rightarrow> uuid \<Rightarrow> uuid \<Rightarrow> subscription_plan \<Rightarrow> PaymentProvider \<Rightarrow> string option \<Rightarrow>
   (payment_db \<times> subscription) result" where
  "create_subscription db now new_id user_id plan provider provider_subscription_id =
     (case active_for_user db now user_id of
        Some _ \<Rightarrow> Inl (raise_code ConflictError ''subscription_exists'')
      | None \<Rightarrow>
          (let trial_ends = (if sp_trial_days plan \<noteq> 0 then Some (now + sp_trial_days plan * DAY) else None);
               s = \<lparr>s_id = new_id, s_user_id = user_id, s_plan_id = sp_id plan, s_provider = provider,
                    s_provider_subscription_id = provider_subscription_id,
                    s_status = (if trial_ends \<noteq> None then SubTrialing else SubPending),
                    s_current_period_start = Some now, s_current_period_end = trial_ends,
                    s_cancel_at_period_end = False, s_cancelled_at = None, s_trial_ends_at = trial_ends,
                    s_created_at = now\<rparr>
           in case insert_unique subscription_clash s (subscriptions db) of
                None \<Rightarrow> Inl (PyExn ''IntegrityError'')
              | Some t \<Rightarrow> Inr (db\<lparr>subscriptions := t\<rparr>, s)))"

definition save_subscription ::
  "payment_db \<Rightarrow> subscription \<Rightarrow> (subscription \<Rightarrow> subscription) \<Rightarrow> payment_db \<times> subscription" where
  "save_subscription db s f =
     (db\<lparr>subscriptions := update_rows (\<lambda>r. s_id r = s_id s) f (subscriptions db)\<rparr>, f s)"

definition cancel_subscription ::
  "payment_db \<Rightarrow> timestamp \<Rightarrow> subscription \<Rightarrow> bool \<Rightarrow> payment_db \<times> subscription" where
  "cancel_subscription db now s at_period_end =
     (if s_status s \<in> {SubCancelled, SubExpired} then (db, s)
      else if at_period_end \<and> s_current_period_end s \<noteq> None
      then save_subscription db s (\<lambda>r. r\<lparr>s_cancel_at_period_end := True, s_cancelled_at := Some now\<rparr>)
      else save_subscription db s (\<lambda>r. r\<lparr>s_status := SubCancelled, s_current_period_end := Some now,
             s_cancelled_at := Some now\<rparr>))"

definition apply_provider_status ::
  "payment_db \<Rightarrow> PaymentProvider \<Rightarrow> string \<Rightarrow> string \<Rightarrow> timestamp option \<Rightarrow> timestamp option \<Rightarrow>
   payment_db \<times> subscription option" where
  "apply_provider_status db provider psid provider_status period_start period_end =
     (case first_row (\<lambda>s. s_provider s = provider \<and> s_provider_subscription_id s = Some psid)
             (subscriptions db) of
        None \<Rightarrow> (db, None)
      | Some s \<Rightarrow>
          (let mapped = map_of PROVIDER_STATUS (str_lower provider_status);
               (db', s') = save_subscription db s (\<lambda>r.
                 r\<lparr>s_status := opt_default mapped (s_status r),
                   s_current_period_start := (case period_start of None \<Rightarrow> s_current_period_start r | t \<Rightarrow> t),
                   s_current_period_end := (case period_end of None \<Rightarrow> s_current_period_end r | t \<Rightarrow> t)\<rparr>)
           in (db', Some s')))"

definition lapsed :: "timestamp \<Rightarrow> subscription \<Rightarrow> bool" where
  "lapsed now s \<longleftrightarrow> s_status s \<in> LIVE \<and> s_cancel_at_period_end s \<and>
     (case s_current_period_end s of None \<Rightarrow> False | Some t \<Rightarrow> t < now)"

definition expire_lapsed :: "payment_db \<Rightarrow> timestamp \<Rightarrow> nat \<Rightarrow> payment_db \<times> nat" where
  "expire_lapsed db now batch =
     (let old = take batch (filter (lapsed now) (subscriptions db))
      in (fold (\<lambda>s d. fst (save_subscription d s (\<lambda>r. r\<lparr>s_status := SubExpired\<rparr>))) old db, length old))"

definition count_active :: "payment_db \<Rightarrow> nat" where
  "count_active db = count_rows (\<lambda>s. s_status s \<in> LIVE) (subscriptions db)"

subsection \<open>Lemmas\<close>

lemma expire_fold_subscriptions:
  "subscriptions (fold (\<lambda>s d. fst (save_subscription d s (\<lambda>r. r\<lparr>s_status := SubExpired\<rparr>))) xs db)
     = map (\<lambda>r. if s_id r \<in> s_id ` set xs then r\<lparr>s_status := SubExpired\<rparr> else r) (subscriptions db)"
  by (induction xs arbitrary: db) (auto simp: save_subscription_def update_rows_def)

lemma filter_map_same:
  "(\<And>x. x \<in> set xs \<Longrightarrow> f x = x \<or> (\<not> P x \<and> \<not> P (f x))) \<Longrightarrow> filter P (map f xs) = filter P xs"
proof (induction xs)
  case (Cons x xs)
  have "filter P (map f xs) = filter P xs" using Cons by simp
  moreover have "f x = x \<or> (\<not> P x \<and> \<not> P (f x))" using Cons.prems by simp
  ultimately show ?case by auto
qed simp

lemma lapsed_no_access: "lapsed now s \<Longrightarrow> now \<le> t \<Longrightarrow> \<not> gives_access t s"
  by (auto simp: lapsed_def gives_access_def split: option.splits)

subsection \<open>Properties\<close>

text \<open>
  The clean-up job is invisible: expiring lapsed memberships changes nobody's access, now
  or later, whatever the batch size; it only tidies statuses of memberships whose paid
  period is already over.
\<close>

lemma expire_lapsed_keeps_access:
  assumes "distinct (map s_id (subscriptions db))" and "now \<le> t"
  shows "active_for_user (fst (expire_lapsed db now batch)) t user = active_for_user db t user"
proof -
  let ?old = "take batch (filter (lapsed now) (subscriptions db))"
  let ?f = "\<lambda>r. if s_id r \<in> s_id ` set ?old then r\<lparr>s_status := SubExpired\<rparr> else r"
  have "set ?old \<subseteq> {s \<in> set (subscriptions db). lapsed now s}"
    using set_take_subset by fastforce
  moreover have "inj_on s_id (set (subscriptions db))" using assms(1) by (simp add: distinct_map)
  ultimately have gone: "\<not> gives_access t r"
    if "r \<in> set (subscriptions db)" "s_id r \<in> s_id ` set ?old" for r
  proof -
    from that(2) obtain q where q: "q \<in> set ?old" "s_id q = s_id r" by (metis imageE)
    with \<open>set ?old \<subseteq> _\<close> have "q \<in> set (subscriptions db)" "lapsed now q" by auto
    with q that(1) \<open>inj_on _ _\<close> have "lapsed now r" by (metis inj_onD)
    then show ?thesis using assms(2) by (rule lapsed_no_access)
  qed
  have "filter (\<lambda>s. s_user_id s = user \<and> gives_access t s) (map ?f (subscriptions db))
      = filter (\<lambda>s. s_user_id s = user \<and> gives_access t s) (subscriptions db)"
  proof (rule filter_map_same)
    fix r assume "r \<in> set (subscriptions db)"
    with gone [of r] show "?f r = r \<or> \<not> (s_user_id r = user \<and> gives_access t r)
        \<and> \<not> (s_user_id (?f r) = user \<and> gives_access t (?f r))"
      by (auto simp: gives_access_def LIVE_def)
  qed
  then show ?thesis
    by (simp add: active_for_user_def expire_lapsed_def Let_def expire_fold_subscriptions)
qed

text \<open>
  Cancelling takes effect when it should. A live membership cancelled at the end of its
  period gives access at exactly the times it did before and is closed by the clean-up job
  after that end; one cancelled immediately gives no access at any later time; a cancelled
  or expired one is left as it is.
\<close>

lemma cancel_subscription_access:
  assumes "s_status s \<in> LIVE"
  shows "(case s_current_period_end s of
       Some stop \<Rightarrow>
         (\<forall>t. gives_access t (snd (cancel_subscription db now s True)) = gives_access t s)
         \<and> (\<forall>t > stop. lapsed t (snd (cancel_subscription db now s True)))
     | None \<Rightarrow> (\<forall>t. \<not> gives_access t (snd (cancel_subscription db now s True))))
   \<and> (\<forall>t. \<not> gives_access t (snd (cancel_subscription db now s False)))
   \<and> snd (cancel_subscription db later (snd (cancel_subscription db now s False)) p)
       = snd (cancel_subscription db now s False)"
  using assms
  by (auto simp: cancel_subscription_def save_subscription_def gives_access_def lapsed_def LIVE_def
      split: option.splits)

text \<open>
  A membership is created only when the customer has no live one; a paid plan gives no
  access until the gateway confirms the first charge, a trial gives access exactly until the
  trial ends, and an \<open>active\<close> report of the gateway opens it.
\<close>

lemma create_subscription_access:
  assumes "create_subscription db now new_id user plan provider psid = Inr (db', s)"
    and "0 \<le> sp_trial_days plan"
  shows "active_for_user db now user = None \<and> subscriptions db' = subscriptions db @ [s]
     \<and> (sp_trial_days plan = 0 \<longrightarrow> (\<forall>t. \<not> gives_access t s))
     \<and> (0 < sp_trial_days plan \<longrightarrow> (\<forall>t. gives_access t s \<longleftrightarrow> t < now + sp_trial_days plan * DAY))
     \<and> (\<forall>t. gives_access t (s\<lparr>s_status := SubActive, s_current_period_end := Some (t + 1)\<rparr>))"
  using assms
  by (auto simp: create_subscription_def Let_def insert_unique_Some gives_access_def LIVE_def
      split: option.splits if_splits)

definition sample_plan :: subscription_plan where
  "sample_plan = \<lparr>sp_id = 70, sp_code = ''pro'', sp_name = ''Pro'', sp_description = None,
     sp_price_minor = 49900, sp_currency = ''INR'', sp_interval = ''month'', sp_trial_days = 7,
     sp_is_active = True, sp_provider_plan_ids = []\<rparr>"

definition sample_subscription :: subscription where
  "sample_subscription = \<lparr>s_id = 71, s_user_id = 9, s_plan_id = 70, s_provider = Stripe,
     s_provider_subscription_id = Some ''sub_1'', s_status = SubTrialing, s_current_period_start = Some 0,
     s_current_period_end = Some (7 * DAY), s_cancel_at_period_end = False, s_cancelled_at = None,
     s_trial_ends_at = Some (7 * DAY), s_created_at = 0\<rparr>"

lemma sample_create_subscription:
  "create_subscription empty_db 0 71 9 sample_plan Stripe (Some ''sub_1'')
     = Inr (empty_db\<lparr>subscriptions := [sample_subscription]\<rparr>, sample_subscription)"
  by (simp add: create_subscription_def active_for_user_def empty_db_def sample_plan_def
      sample_subscription_def insert_unique_def Let_def)

end
