(* ===== verification/Webhooks.thy ===== *)
theory Webhooks
  imports Refunds Subscriptions
begin

section \<open>Webhook ingestion\<close>

text \<open>
  \<open>apps/payment/services/webhooks.py\<close> and the handler of \<open>routers/webhooks.py\<close>: verify the
  signature over the raw body, record the event, refuse or deduplicate, process, record the
  outcome. Processing that raises rolls the delivery's own work back to the database it
  started from and puts the event row back with the error. The text of a recorded error
  stands for \<open>str(exc)\<close>. The lemmas show that an unsigned request changes nothing but the
  event log, and that a redelivered event is processed once.
\<close>

definition SUCCESS_EVENTS :: "string set" where
  "SUCCESS_EVENTS = {''payment.captured'', ''order.paid'', ''checkout.session.completed'',
     ''checkout.session.async_payment_succeeded'', ''payment_intent.succeeded''}"

definition FAILURE_EVENTS :: "string set" where
  "FAILURE_EVENTS = {''payment.failed'', ''checkout.session.async_payment_failed'',
     ''checkout.session.expired'', ''payment_intent.payment_failed'', ''payment_intent.canceled''}"

record webhook_outcome =
  wo_accepted :: bool
  wo_duplicate :: bool
  wo_event_id :: "string option"
  wo_settled_order_id :: "uuid option"

text \<open>The clock and ids a delivery draws, beside those of the settlement.\<close>

record webhook_env =
  we_settle :: settle_env
  we_row_id :: uuid
  we_random :: string

subsection \<open>Recording\<close>

definition record_event ::
  "payment_db \<Rightarrow> webhook_env \<Rightarrow> PaymentProvider \<Rightarrow> NormalisedEvent \<Rightarrow> jobj \<Rightarrow> bool \<Rightarrow>
   (payment_db \<times> webhook_event \<times> bool) result" where
  "record_event db env provider ev payload signature_valid =
     (let row = \<lparr>w_id = we_row_id env, w_provider = provider,
            w_event_id = (if ne_event_id ev \<noteq> [] then ne_event_id ev else ''unsigned:'' @ we_random env),
            w_event_type = ne_event_type ev, w_signature_valid = signature_valid, w_processed = False,
            w_processed_at = None, w_error = None, w_payload = payload,
            w_created_at = se_now (we_settle env)\<rparr>
      in case insert_unique webhook_clash row (webhook_events db) of
           Some t \<Rightarrow> Inr (db\<lparr>webhook_events := t\<rparr>, row, True)
         | None \<Rightarrow>
             (case first_row (\<lambda>w. w_provider w = provider \<and> w_event_id w = ne_event_id ev)
                     (webhook_events db) of
                None \<Rightarrow> Inl (PyExn ''IntegrityError'')
              | Some existing \<Rightarrow> Inr (db, existing, False)))"

definition exn_text :: "exn \<Rightarrow> string" where
  "exn_text e = (case e of AppExn _ code _ \<Rightarrow> code | RequestValidationExn \<Rightarrow> ''validation_error''
     | StarletteHttpExn _ \<Rightarrow> ''http_error'' | PyExn name \<Rightarrow> name)"

definition reload_or_recreate ::
  "payment_db \<Rightarrow> webhook_env \<Rightarrow> PaymentProvider \<Rightarrow> NormalisedEvent \<Rightarrow> jobj \<Rightarrow> payment_db \<times> webhook_event" where
  "reload_or_recreate db env provider ev payload =
     (case first_row (\<lambda>w. w_provider w = provider \<and> w_event_id w = ne_event_id ev) (webhook_events db) of
        Some existing \<Rightarrow> (db, existing)
      | None \<Rightarrow>
          (let row = \<lparr>w_id = we_row_id env, w_provider = provider,
                 w_event_id = (if ne_event_id ev \<noteq> [] then ne_event_id ev else ''failed:'' @ we_random env),
                 w_event_type = ne_event_type ev, w_signature_valid = True, w_processed = False,
                 w_processed_at = None, w_error = None, w_payload = payload,
                 w_created_at = se_now (we_settle env)\<rparr>
           in (db\<lparr>webhook_events := webhook_events db @ [row]\<rparr>, row)))"

definition save_event ::
  "payment_db \<Rightarrow> webhook_event \<Rightarrow> (webhook_event \<Rightarrow> webhook_event) \<Rightarrow> payment_db" where
  "save_event db row f = db\<lparr>webhook_events := update_rows (\<lambda>w. w_id w = w_id row) f (webhook_events db)\<rparr>"

subsection \<open>Dispatch\<close>

definition order_for_event :: "payment_db \<Rightarrow> PaymentProvider \<Rightarrow> NormalisedEvent \<Rightarrow> order option" where
  "order_for_event db provider ev =
     find_by_provider_reference db provider (ne_provider_order_id ev) (ne_order_id ev)"

definition event_succeeded :: "NormalisedEvent \<Rightarrow> bool" where
  "event_succeeded ev \<longleftrightarrow> ne_event_type ev \<in> SUCCESS_EVENTS \<or> ne_status ev = Some PayCaptured"

definition event_failed :: "NormalisedEvent \<Rightarrow> bool" where
  "event_failed ev \<longleftrightarrow> ne_event_type ev \<in> FAILURE_EVENTS \<or> ne_status ev = Some PayFailed"

definition confirmation_of_event ::
  "PaymentProvider \<Rightarrow> NormalisedEvent \<Rightarrow> confirmation result" where
  "confirmation_of_event provider ev =
     (case text_value (ne_currency ev) of Inl e \<Rightarrow> Inl e
      | Inr currency \<Rightarrow>
        case text_value (ne_method ev) of Inl e \<Rightarrow> Inl e
      | Inr meth \<Rightarrow>
          Inr \<lparr>cf_provider = provider, cf_provider_payment_id = opt_default (ne_provider_payment_id ev) '''',
               cf_amount_minor = ne_amount_minor ev, cf_currency = currency, cf_method = meth,
               cf_raw_payload = ne_raw ev\<rparr>)"

definition handle_payment ::
  "payment_db \<Rightarrow> settings \<Rightarrow> settle_env \<Rightarrow> PaymentProvider \<Rightarrow> NormalisedEvent \<Rightarrow>
   (payment_db \<times> uuid option) result" where
  "handle_payment db st env provider ev =
     (case order_for_event db provider ev of
        None \<Rightarrow> Inr (db, None)
      | Some ord \<Rightarrow>
          if event_succeeded ev \<and> truthy (ne_provider_payment_id ev) then
            (case confirmation_of_event provider ev of Inl e \<Rightarrow> Inl e
             | Inr cf \<Rightarrow>
                 (case settle db st env ord cf of Inl e \<Rightarrow> Inl e
                  | Inr (db', res) \<Rightarrow> Inr (db', if sr_newly_paid res then Some (o_id ord) else None)))
          else if event_failed ev then
            (case text_value (ne_failure_message ev) of Inl e \<Rightarrow> Inl e
             | Inr msg \<Rightarrow>
               case text_value (ne_failure_code ev) of Inl e \<Rightarrow> Inl e
             | Inr code \<Rightarrow>
                 (case fail_payment db env ord provider (ne_provider_payment_id ev) msg code
                         (ne_amount_minor ev) (ne_raw ev) of Inl e \<Rightarrow> Inl e
                  | Inr (db', _) \<Rightarrow> Inr (db', None)))
          else if truthy (ne_provider_payment_id ev) \<and> ne_status ev \<noteq> None then
            (case confirmation_of_event provider ev of Inl e \<Rightarrow> Inl e
             | Inr cf \<Rightarrow>
                 (case record_payment db env ord
                         \<lparr>pt_provider = provider, pt_provider_payment_id = cf_provider_payment_id cf,
                          pt_status = opt_default (ne_status ev) PayPending,
                          pt_amount_minor = (case ne_amount_minor ev of None \<Rightarrow> o_total_minor ord
                             | Some a \<Rightarrow> if a = 0 then o_total_minor ord else a),
                          pt_currency = or_str (cf_currency cf) (o_currency ord), pt_method = cf_method cf,
                          pt_failure_code = None, pt_failure_message = None,
                          pt_raw_payload = ne_raw ev\<rparr> of
                    Inl e \<Rightarrow> Inl e | Inr (db', _) \<Rightarrow> Inr (db', None)))
          else Inr (db, None))"

definition handle_refund ::
  "payment_db \<Rightarrow> timestamp \<Rightarrow> PaymentProvider \<Rightarrow> NormalisedEvent \<Rightarrow> payment_db" where
  "handle_refund db now provider ev =
     (if \<not> truthy (ne_provider_refund_id ev) then db
      else fst (mark_settled db now provider (opt_default (ne_provider_refund_id ev) '''')
                  (\<not> str_contains ''fail'' (ne_event_type ev)) (ne_raw ev)))"

text \<open>
  \<open>event_type.rsplit(".", 1)[-1]\<close> and \<open>_epoch\<close>: seconds outside the years 1 to 9999 raise the
  errors \<open>_epoch\<close> catches, seconds that do not fit a \<open>time_t\<close> an \<open>OverflowError\<close> it does not.
\<close>

definition last_part :: "string \<Rightarrow> string" where
  "last_part s = rev (takeWhile (\<lambda>c. c \<noteq> CHR ''.'') (rev s))"

definition epoch :: "json \<Rightarrow> timestamp option result" where
  "epoch v =
     (case int_or_none v of None \<Rightarrow> Inr None
      | Some n \<Rightarrow> if n < - (2 ^ 63) \<or> 2 ^ 63 \<le> n then Inl (PyExn ''OverflowError'')
                  else if n < - 62135596800 \<or> 253402300800 \<le> n then Inr None
                  else Inr (Some (microseconds n)))"

definition handle_subscription ::
  "payment_db \<Rightarrow> PaymentProvider \<Rightarrow> NormalisedEvent \<Rightarrow> payment_db result" where
  "handle_subscription db provider ev =
     (if \<not> truthy (ne_provider_subscription_id ev) then Inr db
      else case as_dict (jget_null (ne_raw ev) ''data'') of Inl e \<Rightarrow> Inl e
        | Inr data \<Rightarrow>
          case as_dict (jget_null data ''object'') of Inl e \<Rightarrow> Inl e
        | Inr obj \<Rightarrow>
          case epoch (jget_null obj ''current_period_start'') of Inl e \<Rightarrow> Inl e
        | Inr period_start \<Rightarrow>
          case epoch (jget_null obj ''current_period_end'') of Inl e \<Rightarrow> Inl e
        | Inr period_end \<Rightarrow>
            Inr (fst (apply_provider_status db provider (opt_default (ne_provider_subscription_id ev) '''')
                   (json_str (jor (jget_null obj ''status'') (JStr (last_part (ne_event_type ev)))))
                   period_start period_end)))"

definition process_event ::
  "payment_db \<Rightarrow> settings \<Rightarrow> settle_env \<Rightarrow> PaymentProvider \<Rightarrow> NormalisedEvent \<Rightarrow>
   (payment_db \<times> uuid option) result" where
  "process_event db st env provider ev =
     (case ne_category ev of
        CatRefund \<Rightarrow> Inr (handle_refund db (se_now env) provider ev, None)
      | CatSubscription \<Rightarrow> map_sum id (\<lambda>d. (d, None)) (handle_subscription db provider ev)
      | CatPayment \<Rightarrow> handle_payment db st env provider ev
      | CatUnknown \<Rightarrow> Inr (db, None))"

subsection \<open>Ingestion\<close>

definition ingest ::
  "payment_db \<Rightarrow> settings \<Rightarrow> mac \<Rightarrow> webhook_env \<Rightarrow> PaymentProvider \<Rightarrow> string \<Rightarrow> headers \<Rightarrow> jobj \<Rightarrow>
   (payment_db \<times> webhook_outcome) result" where
  "ingest db st mac env provider body hs payload =
     (let now = se_now (we_settle env) in
      case get_gateway st provider of Inl e \<Rightarrow> Inl e
      | Inr g \<Rightarrow>
        let signature_valid = verify_webhook st mac now g body hs in
        case parse_webhook g payload hs of Inl e \<Rightarrow> Inl e
      | Inr ev \<Rightarrow>
        case record_event db env provider ev payload signature_valid of Inl e \<Rightarrow> Inl e
      | Inr (db1, row, is_new) \<Rightarrow>
          if \<not> signature_valid then
            Inr (db1, \<lparr>wo_accepted = False, wo_duplicate = False, wo_event_id = Some (ne_event_id ev),
                       wo_settled_order_id = None\<rparr>)
          else if \<not> is_new \<and> w_processed row then
            Inr (db1, \<lparr>wo_accepted = True, wo_duplicate = True, wo_event_id = Some (ne_event_id ev),
                       wo_settled_order_id = None\<rparr>)
          else
            (case process_event db1 st (we_settle env) provider ev of
               Inr (db2, settled) \<Rightarrow>
                 Inr (save_event db2 row (\<lambda>w. w\<lparr>w_processed := True, w_processed_at := Some now, w_error := None\<rparr>),
                      \<lparr>wo_accepted = True, wo_duplicate = False, wo_event_id = Some (ne_event_id ev),
                       wo_settled_order_id = settled\<rparr>)
             | Inl e \<Rightarrow>
                 (let (db3, row') = reload_or_recreate db env provider ev payload
                  in Inr (save_event db3 row' (\<lambda>w. w\<lparr>w_processed := False, w_error := Some (take 2000 (exn_text e))\<rparr>),
                          \<lparr>wo_accepted = True, wo_duplicate = False, wo_event_id = Some (ne_event_id ev),
                           wo_settled_order_id = None\<rparr>))))"

definition replay ::
  "payment_db \<Rightarrow> settings \<Rightarrow> settle_env \<Rightarrow> uuid \<Rightarrow> (payment_db \<times> webhook_outcome) result" where
  "replay db st env webhook_event_id =
     (case first_row (\<lambda>w. w_id w = webhook_event_id) (webhook_events db) of
        None \<Rightarrow> Inr (db, \<lparr>wo_accepted = False, wo_duplicate = False, wo_event_id = None, wo_settled_order_id = None\<rparr>)
      | Some row \<Rightarrow>
          if \<not> w_signature_valid row
          then Inr (db, \<lparr>wo_accepted = False, wo_duplicate = False, wo_event_id = None, wo_settled_order_id = None\<rparr>)
          else
            case get_gateway st (w_provider row) of Inl e \<Rightarrow> Inl e
          | Inr g \<Rightarrow>
            case parse_webhook g (w_payload row) [] of Inl e \<Rightarrow> Inl e
          | Inr ev \<Rightarrow>
            case process_event db st env (w_provider row) ev of Inl e \<Rightarrow> Inl e
          | Inr (db1, settled) \<Rightarrow>
              Inr (save_event db1 row (\<lambda>w. w\<lparr>w_processed := True, w_processed_at := Some (se_now env), w_error := None\<rparr>),
                   \<lparr>wo_accepted = True, wo_duplicate = False, wo_event_id = Some (w_event_id row),
                    wo_settled_order_id = settled\<rparr>))"

definition list_events ::
  "payment_db \<Rightarrow> PaymentProvider option \<Rightarrow> bool option \<Rightarrow> nat \<Rightarrow> nat \<Rightarrow> webhook_event list" where
  "list_events db provider processed limit offset =
     page_rows limit offset (order_by_desc w_created_at
       (filter (\<lambda>w. (case provider of None \<Rightarrow> True | Some p \<Rightarrow> w_provider w = p)
          \<and> (case processed of None \<Rightarrow> True | Some b \<Rightarrow> w_processed w = b)) (webhook_events db)))"

subsection \<open>The route\<close>

record webhook_response =
  wr_status :: nat
  wr_received :: bool
  wr_event_id :: "string option"
  wr_duplicate :: bool
  wr_announced :: "(string \<times> jobj) list"

definition refuse_webhook :: "nat \<Rightarrow> string option \<Rightarrow> webhook_response" where
  "refuse_webhook n eid = \<lparr>wr_status = n, wr_received = False, wr_event_id = eid, wr_duplicate = False, wr_announced = []\<rparr>"

text \<open>
  The body arrives with what \<open>orjson.loads\<close> makes of it (\<open>None\<close> when it is not JSON; an empty
  body is not parsed) and with lower-cased header names.
\<close>

definition webhook_route ::
  "payment_db \<Rightarrow> settings \<Rightarrow> mac \<Rightarrow> webhook_env \<Rightarrow> publisher option \<Rightarrow> PaymentProvider \<Rightarrow> string \<Rightarrow>
   json option \<Rightarrow> headers \<Rightarrow> (payment_db \<times> webhook_response) result" where
  "webhook_route db st mac env pub provider body parsed hs =
     (if length body > max_webhook_body_bytes st then Inr (db, refuse_webhook 413 None)
      else case (if body = [] then Some (JObj []) else parsed) of
        Some (JObj payload) \<Rightarrow>
          (case ingest db st mac env provider body hs payload of Inl e \<Rightarrow> Inl e
           | Inr (db', out) \<Rightarrow>
               if \<not> wo_accepted out then Inr (db', refuse_webhook 401 (wo_event_id out))
               else case wo_settled_order_id out of
                 None \<Rightarrow> Inr (db', \<lparr>wr_status = 200, wr_received = True, wr_event_id = wo_event_id out,
                                    wr_duplicate = wo_duplicate out, wr_announced = []\<rparr>)
               | Some k \<Rightarrow>
                   (case get_order db' k of Inl e \<Rightarrow> Inl e
                    | Inr ord \<Rightarrow>
                        Inr (db', \<lparr>wr_status = 200, wr_received = True, wr_event_id = wo_event_id out,
                                   wr_duplicate = wo_duplicate out, wr_announced = announce_paid pub \<lparr>sr_order = ord, sr_payment = None,
                                     sr_invoice = None, sr_newly_paid = True\<rparr>\<rparr>)))
      | _ \<Rightarrow> Inr (db, refuse_webhook 400 None))"

subsection \<open>Lemmas: what processing an event touches\<close>

definition settled_in :: "payment_db \<Rightarrow> uuid \<Rightarrow> bool" where
  "settled_in db k \<longleftrightarrow> (\<exists>r \<in> set (orders db). o_id r = k \<and> o_status r \<in> SETTLED)"

definition unique_orders :: "payment_db \<Rightarrow> bool" where
  "unique_orders db \<longleftrightarrow> distinct (map o_id (orders db))"

text \<open>What an event may do to the orders: nothing, fail an unsettled one, or pay one.\<close>

inductive order_effect :: "payment_db \<Rightarrow> payment_db \<Rightarrow> uuid option \<Rightarrow> bool" where
  untouched: "orders db' = orders db \<Longrightarrow> order_effect db db' None"
| failed: "\<lbrakk>ord \<in> set (orders db); o_status ord \<notin> SETTLED;
     orders db' = update_rows (\<lambda>r. o_id r = o_id ord) (\<lambda>r. r\<lparr>o_status := Failed, o_failure_reason := why\<rparr>)
       (orders db)\<rbrakk> \<Longrightarrow> order_effect db db' None"
| paid: "\<lbrakk>ord \<in> set (orders db); o_status ord \<notin> SETTLED; o_id ord = k;
     orders db' = update_rows (\<lambda>r. o_id r = k) (paid_version now) (orders db)\<rbrakk> \<Longrightarrow>
     order_effect db db' (Some k)"

inductive_cases order_effectE: "order_effect db db' s"

lemma for_order_tables:
  assumes "for_order db others st now nid ord = Inr (db', i)"
  shows "orders db' = orders db" and "webhook_events db' = webhook_events db"
  using assms by (auto simp: for_order_def split: sum.splits option.splits)

lemma record_conversion_events:
  "webhook_events (fst (record_conversion db id now nid ord)) = webhook_events db"
  by (cases "\<exists>account. creditable db ord account")
    (auto simp: record_conversion_credits record_conversion_skips)

lemma settle_effect:
  assumes "settle db st env ord cf = Inr (db', res)" and "quiet env" and "ord \<in> set (orders db)"
  shows "order_effect db db' (if sr_newly_paid res then Some (o_id ord) else None)"
    and "webhook_events db' = webhook_events db"
proof -
  have "order_effect db db' (if sr_newly_paid res then Some (o_id ord) else None)
      \<and> webhook_events db' = webhook_events db"
    using assms(1)
  proof (cases rule: settle_cases)
    case (duplicate db1 p created)
    with record_payment_tables [OF duplicate(1) assms(2)] show ?thesis by (auto intro: untouched)
  next
    case (first db1 p created db2 ord2 db3 bill)
    note t1 = record_payment_tables [OF first(1) assms(2)] for_order_tables [OF first(4)]
    have m: "orders db2 = update_rows (\<lambda>r. o_id r = o_id ord) (paid_version (se_now env)) (orders db1)"
      "webhook_events db2 = webhook_events db1"
      using first(2,3) by (auto simp: mark_paid_def save_order_def paid_version_def [abs_def])
    have "order_effect db db' (Some (o_id ord))"
      by (rule paid [of ord])
        (use first assms(2,3) t1 m in \<open>simp_all add: quiet_def record_conversion_tables\<close>)
    with first assms(2) t1 m show ?thesis by (simp add: quiet_def record_conversion_events)
  qed
  then show "order_effect db db' (if sr_newly_paid res then Some (o_id ord) else None)"
    and "webhook_events db' = webhook_events db" by simp_all
qed

lemma mark_failed_effect:
  assumes "mark_failed db1 ord why = (db', ord')" and "ord \<in> set (orders db)"
    and "orders db1 = orders db" and "webhook_events db1 = webhook_events db"
  shows "order_effect db db' None" and "webhook_events db' = webhook_events db"
  using assms by (auto simp: mark_failed_def save_order_def split: if_splits intro: untouched failed)

lemma fail_payment_effect:
  assumes "fail_payment db env ord prov pid why code amount raw = Inr (db', ord')" and "quiet env"
    and "ord \<in> set (orders db)"
  shows "order_effect db db' None" and "webhook_events db' = webhook_events db"
  using assms
  by (auto simp: fail_payment_def split: if_splits sum.splits prod.splits
      intro: mark_failed_effect dest: record_payment_tables)

lemma find_by_reference_member:
  "find_by_provider_reference db prov poid k = Some ord \<Longrightarrow> ord \<in> set (orders db)"
  by (auto simp: find_by_provider_reference_def Let_def dest: max_row_Some split: if_splits option.splits)

lemma handle_payment_effect:
  assumes "handle_payment db st env prov ev = Inr (db', s)" and q: "quiet env"
  shows "order_effect db db' s \<and> webhook_events db' = webhook_events db"
proof (cases "order_for_event db prov ev")
  case None
  with assms(1) show ?thesis by (auto simp: handle_payment_def intro: untouched)
next
  case (Some ord)
  then have mem: "ord \<in> set (orders db)" unfolding order_for_event_def by (rule find_by_reference_member)
  consider (success) "event_succeeded ev \<and> truthy (ne_provider_payment_id ev)"
    | (failure) "\<not> (event_succeeded ev \<and> truthy (ne_provider_payment_id ev))" "event_failed ev"
    | (other) "\<not> (event_succeeded ev \<and> truthy (ne_provider_payment_id ev))" "\<not> event_failed ev" by blast
  then show ?thesis
  proof cases
    case success
    with assms(1) Some obtain cf res where st: "settle db st env ord cf = Inr (db', res)"
      and s: "s = (if sr_newly_paid res then Some (o_id ord) else None)"
      by (auto simp: handle_payment_def split: sum.splits)
    from settle_effect [OF st q mem] show ?thesis unfolding s by blast
  next
    case failure
    with assms(1) Some obtain why code ord' where "fail_payment db env ord prov (ne_provider_payment_id ev)
        why code (ne_amount_minor ev) (ne_raw ev) = Inr (db', ord')" and s: "s = None"
      by (auto simp: handle_payment_def simp del: de_Morgan_conj split: sum.splits)
    from fail_payment_effect [OF this(1) q mem] show ?thesis unfolding s by blast
  next
    case other
    with assms(1) Some have "s = None \<and> (db' = db \<or> (\<exists>rep p c. record_payment db env ord rep = Inr (db', p, c)))"
      by (auto simp: handle_payment_def simp del: de_Morgan_conj split: sum.splits if_splits)
    with record_payment_tables(1,8) [OF _ q] show ?thesis by (metis untouched)
  qed
qed

lemma handle_refund_effect:
  "orders (handle_refund db now prov ev) = orders db"
  "webhook_events (handle_refund db now prov ev) = webhook_events db"
  by (auto simp: handle_refund_def mark_settled_def Let_def split: option.splits)

lemma handle_subscription_effect:
  assumes "handle_subscription db prov ev = Inr db'"
  shows "orders db' = orders db" and "webhook_events db' = webhook_events db"
  using assms
  by (auto simp: handle_subscription_def apply_provider_status_def save_subscription_def Let_def
      split: if_splits sum.splits option.splits)

lemma process_event_effect:
  assumes "process_event db st env prov ev = Inr (db', s)" and "quiet env"
  shows "order_effect db db' s" and "webhook_events db' = webhook_events db"
proof -
  have "order_effect db db' s \<and> webhook_events db' = webhook_events db"
  proof (cases "ne_category ev")
    case CatPayment
    with assms handle_payment_effect show ?thesis by (simp add: process_event_def)
  next
    case CatSubscription
    with assms(1) have "handle_subscription db prov ev = Inr db'" "s = None"
      by (cases "handle_subscription db prov ev"; simp add: process_event_def)+
    with handle_subscription_effect untouched show ?thesis by blast
  qed (use assms(1) in \<open>auto simp: process_event_def handle_refund_effect intro: untouched\<close>)
  then show "order_effect db db' s" and "webhook_events db' = webhook_events db" by simp_all
qed

lemma order_effect_keeps:
  assumes "order_effect db db' s" and "unique_orders db"
  shows "unique_orders db'" and "settled_in db k \<Longrightarrow> settled_in db' k"
    and "s = Some k \<Longrightarrow> \<not> settled_in db k \<and> settled_in db' k"
    and "map o_id (orders db') = map o_id (orders db)"
proof -
  have one: "r = ord" if "r \<in> set (orders db)" "ord \<in> set (orders db)" "o_id r = o_id ord" for r ord
    using that assms(2) by (auto simp: unique_orders_def distinct_map inj_on_def)
  from assms(1) show ids: "map o_id (orders db') = map o_id (orders db)"
    by (cases rule: order_effect.cases) (simp_all add: map_update_rows paid_version_def)
  with assms(2) show "unique_orders db'" by (simp add: unique_orders_def)
  have kept: "settled_in d k" if "settled_in db k" "ord \<in> set (orders db)" "o_status ord \<notin> SETTLED"
    "orders d = update_rows (\<lambda>r. o_id r = o_id ord) f (orders db)" for d f ord
  proof -
    from that(1) obtain r where r: "r \<in> set (orders db)" "o_id r = k" "o_status r \<in> SETTLED"
      by (auto simp: settled_in_def)
    with one [OF r(1) that(2)] that(3) have "o_id r \<noteq> o_id ord" by auto
    with r that(4) show ?thesis unfolding settled_in_def by (auto simp: set_update_rows intro!: bexI [of _ r])
  qed
  from assms(1) show "settled_in db' k" if "settled_in db k"
  proof (cases rule: order_effect.cases)
    case untouched
    with that show ?thesis by (simp add: settled_in_def)
  next
    case (failed ord why)
    from kept [OF that failed(2-4)] show ?thesis .
  next
    case (paid ord j now)
    from kept [OF that paid(2,3)] paid(4,5) show ?thesis by simp
  qed
  from assms(1) show "\<not> settled_in db k \<and> settled_in db' k" if "s = Some k"
  proof (cases rule: order_effect.cases)
    case (paid ord j now)
    with that have k: "o_id ord = k" by simp
    have "\<not> settled_in db k" using one [OF _ paid(2)] paid(3) k by (auto simp: settled_in_def)
    moreover have "paid_version now ord \<in> set (orders db')"
      using paid(2,5) k that paid(1) by (force simp: set_update_rows)
    then have "settled_in db' k" unfolding settled_in_def
      by (rule bexI [rotated]) (simp add: k paid_version_def SETTLED_def)
    ultimately show ?thesis by simp
  qed (use that in simp_all)
qed

subsection \<open>Lemmas: one delivery\<close>

definition event_row :: "payment_db \<Rightarrow> PaymentProvider \<Rightarrow> string \<Rightarrow> webhook_event option" where
  "event_row db prov eid = first_row (\<lambda>w. w_provider w = prov \<and> w_event_id w = eid) (webhook_events db)"

definition event_processed :: "payment_db \<Rightarrow> PaymentProvider \<Rightarrow> string \<Rightarrow> bool" where
  "event_processed db prov eid \<longleftrightarrow> (case event_row db prov eid of None \<Rightarrow> False | Some w \<Rightarrow> w_processed w)"

definition handled :: "bool \<Rightarrow> NormalisedEvent \<Rightarrow> uuid option \<Rightarrow> webhook_outcome" where
  "handled dup ev settled = \<lparr>wo_accepted = True, wo_duplicate = dup, wo_event_id = Some (ne_event_id ev),
     wo_settled_order_id = settled\<rparr>"

lemma record_event_cases:
  assumes "record_event db env prov ev payload sig = Inr (db1, row, is_new)"
  obtains
    (new) "is_new" "db1 = db\<lparr>webhook_events := webhook_events db @ [row]\<rparr>" "w_signature_valid row = sig"
      "\<not> w_processed row" "w_provider row = prov" "ne_event_id ev \<noteq> [] \<Longrightarrow> w_event_id row = ne_event_id ev"
      "ne_event_id ev \<noteq> [] \<Longrightarrow> event_row db prov (ne_event_id ev) = None"
  | (existing) "\<not> is_new" "db1 = db" "event_row db prov (ne_event_id ev) = Some row"
  using assms
  by (auto simp: record_event_def Let_def event_row_def insert_unique_def webhook_clash_def first_row_None
      split: if_splits option.splits) metis

lemma record_event_row:
  assumes "record_event db env prov ev payload sig = Inr (db1, row, is_new)" and "ne_event_id ev \<noteq> []"
  shows "event_row db1 prov (ne_event_id ev) = Some row"
  using assms(1)
proof (cases rule: record_event_cases)
  case new
  with assms(2) show ?thesis by (simp add: event_row_def table_simps)
qed simp

lemma record_event_total:
  assumes "ne_event_id ev \<noteq> []"
  shows "\<exists>db1 row is_new. record_event db env prov ev payload sig = Inr (db1, row, is_new)"
  using assms
  by (auto simp: record_event_def Let_def insert_unique_def webhook_clash_def first_row_None
      split: option.splits)

lemma ingest_cases:
  assumes "ingest db st mac env prov body hs payload = Inr (db', out)"
  obtains
    (unsigned) ev row is_new where "\<not> verify_webhook st mac (se_now (we_settle env)) prov body hs"
      "record_event db env prov ev payload False = Inr (db', row, is_new)"
      "out = \<lparr>wo_accepted = False, wo_duplicate = False, wo_event_id = Some (ne_event_id ev),
         wo_settled_order_id = None\<rparr>"
  | (duplicate) ev row where "verify_webhook st mac (se_now (we_settle env)) prov body hs"
      "parse_webhook prov payload hs = Inr ev" "record_event db env prov ev payload True = Inr (db', row, False)"
      "w_processed row" "out = handled True ev None"
  | (processed) ev db1 row is_new db2 settled where "verify_webhook st mac (se_now (we_settle env)) prov body hs"
      "parse_webhook prov payload hs = Inr ev" "record_event db env prov ev payload True = Inr (db1, row, is_new)"
      "process_event db1 st (we_settle env) prov ev = Inr (db2, settled)"
      "db' = save_event db2 row (\<lambda>w. w\<lparr>w_processed := True,
         w_processed_at := Some (se_now (we_settle env)), w_error := None\<rparr>)"
      "out = handled False ev settled"
  | (errored) ev db1 row is_new e db3 row' where "verify_webhook st mac (se_now (we_settle env)) prov body hs"
      "parse_webhook prov payload hs = Inr ev" "record_event db env prov ev payload True = Inr (db1, row, is_new)"
      "\<not> (\<not> is_new \<and> w_processed row)"
      "process_event db1 st (we_settle env) prov ev = Inl e"
      "reload_or_recreate db env prov ev payload = (db3, row')"
      "db' = save_event db3 row' (\<lambda>w. w\<lparr>w_processed := False, w_error := Some (take 2000 (exn_text e))\<rparr>)"
      "out = handled False ev None"
  using assms
  by (simp add: ingest_def Let_def get_gateway_def handled_def split: if_splits sum.splits prod.splits)

lemma save_event_simps [simp]:
  "orders (save_event db row f) = orders db"
  "(save_event db row f)\<lparr>webhook_events := t\<rparr> = db\<lparr>webhook_events := t\<rparr>"
  by (simp_all add: save_event_def)

lemma save_event_row:
  assumes "event_row db prov eid = Some row"
    and "\<And>w. w_provider (f w) = w_provider w" "\<And>w. w_event_id (f w) = w_event_id w"
  shows "event_row (save_event db row f) prov eid = Some (f row)"
  using assms by (simp add: event_row_def save_event_def first_row_update_rows)

lemma reload_or_recreate_row:
  assumes "reload_or_recreate db env prov ev payload = (db3, row')" and "ne_event_id ev \<noteq> []"
  shows "event_row db3 prov (ne_event_id ev) = Some row'"
    and "db3\<lparr>webhook_events := webhook_events db\<rparr> = db"
  using assms
  by (auto simp: reload_or_recreate_def Let_def event_row_def table_simps split: option.splits)

text \<open>A processed event is a no-op from then on, whatever the rest of the database is.\<close>

lemma ingest_processed_event:
  assumes "event_processed db prov (ne_event_id ev)" and "get_gateway st prov = Inr prov"
    and "verify_webhook st mac (se_now (we_settle env)) prov body hs"
    and "parse_webhook prov payload hs = Inr ev" and "ne_event_id ev \<noteq> []"
  shows "ingest db st mac env prov body hs payload = Inr (db, handled True ev None)"
proof -
  obtain db1 row is_new where rec: "record_event db env prov ev payload True = Inr (db1, row, is_new)"
    using record_event_total [OF assms(5)] by blast
  then have "\<not> is_new \<and> db1 = db \<and> w_processed row"
    using assms(1,5) by (cases rule: record_event_cases) (auto simp: event_processed_def)
  with rec assms show ?thesis by (simp add: ingest_def handled_def)
qed

subsection \<open>Properties\<close>

text \<open>
  C8: An unauthenticated request can touch nothing but the evidence log. When the signature
  does not verify, the route answers 401 (or 400 or 413 before looking), announces nothing,
  and the database is the one before except for at most one appended webhook event, which
  is marked as not signature-valid and not processed.
\<close>

theorem unsigned_webhook_inert:
  assumes "\<not> verify_webhook st mac (se_now (we_settle env)) prov body hs"
    and "webhook_route db st mac env pub prov body parsed hs = Inr (db', resp)"
  shows "wr_status resp \<in> {400, 401, 413} \<and> \<not> wr_received resp \<and> wr_announced resp = []
     \<and> (\<exists>evs. db' = db\<lparr>webhook_events := webhook_events db @ evs\<rparr> \<and> length evs \<le> 1
          \<and> list_all (\<lambda>w. \<not> w_signature_valid w \<and> \<not> w_processed w) evs)"
proof -
  have inert: "\<not> wo_accepted out \<and> (\<exists>evs. d = db\<lparr>webhook_events := webhook_events db @ evs\<rparr>
      \<and> length evs \<le> 1 \<and> list_all (\<lambda>w. \<not> w_signature_valid w \<and> \<not> w_processed w) evs)"
    if "ingest db st mac env prov body hs payload = Inr (d, out)" for payload d out
    using that
  proof (cases rule: ingest_cases)
    case (unsigned ev row is_new)
    from unsigned(2) show ?thesis
    proof (cases rule: record_event_cases)
      case new
      with unsigned(3) show ?thesis by (auto intro!: exI [of _ "[row]"])
    next
      case existing
      with unsigned(3) show ?thesis by (auto intro!: exI [of _ "[]"])
    qed
  qed (use assms(1) in simp_all)
  have none: "\<exists>evs. db = db\<lparr>webhook_events := webhook_events db @ evs\<rparr> \<and> length evs \<le> 1
      \<and> list_all (\<lambda>w. \<not> w_signature_valid w \<and> \<not> w_processed w) evs"
    by (rule exI [of _ "[]"]) simp
  show ?thesis
    using assms(2) none inert
    by (auto simp: webhook_route_def refuse_webhook_def split: if_splits option.splits json.splits sum.splits)
qed

text \<open>
  C7: A verified delivery is all or nothing. Either it completes: its event is recorded as
  processed, and every later verified delivery of the event, at any time and in any later
  database that still has this event log, is reported as a duplicate and changes nothing.
  Or processing raised: the event is recorded as unprocessed with the error, every other
  table is as it was, and nothing was settled. Both ways the delivery is accepted.
\<close>

theorem webhook_all_or_nothing:
  assumes "ingest db st mac env prov body hs payload = Inr (db', out)"
    and "verify_webhook st mac (se_now (we_settle env)) prov body hs" and "quiet (we_settle env)"
    and "parse_webhook prov payload hs = Inr ev" and "ne_event_id ev \<noteq> []"
  shows "wo_accepted out \<and>
    ((event_processed db' prov (ne_event_id ev) \<and>
      (\<forall>db2 env2 body2 hs2 payload2 ev2.
         webhook_events db2 = webhook_events db' \<and> get_gateway st prov = Inr prov \<and>
         verify_webhook st mac (se_now (we_settle env2)) prov body2 hs2 \<and>
         parse_webhook prov payload2 hs2 = Inr ev2 \<and> ne_event_id ev2 = ne_event_id ev
         \<longrightarrow> ingest db2 st mac env2 prov body2 hs2 payload2 = Inr (db2, handled True ev2 None)))
     \<or> (\<exists>w err. event_row db' prov (ne_event_id ev) = Some w \<and> \<not> w_processed w \<and> w_error w = Some err
          \<and> db'\<lparr>webhook_events := webhook_events db\<rparr> = db \<and> wo_settled_order_id out = None))"
proof -
  have later: "ingest db2 st mac env2 prov body2 hs2 payload2 = Inr (db2, handled True ev2 None)"
    if "event_processed db' prov (ne_event_id ev)" "webhook_events db2 = webhook_events db'"
      "get_gateway st prov = Inr prov" "verify_webhook st mac (se_now (we_settle env2)) prov body2 hs2"
      "parse_webhook prov payload2 hs2 = Inr ev2" "ne_event_id ev2 = ne_event_id ev"
    for db2 env2 body2 hs2 payload2 ev2
    by (rule ingest_processed_event) (use that assms(5) in \<open>simp_all add: event_processed_def event_row_def\<close>)
  from assms(1) show ?thesis
  proof (cases rule: ingest_cases)
    case unsigned
    with assms(2) show ?thesis by simp
  next
    case (duplicate ev' row)
    with assms(4,5) record_event_row [OF duplicate(3)] have "event_processed db' prov (ne_event_id ev)"
      by (simp add: event_processed_def)
    with duplicate(5) later show ?thesis by (simp add: handled_def)
  next
    case (processed ev' db1 row is_new db2 settled)
    with assms(4,5) record_event_row [OF processed(3)] process_event_effect(2) [OF processed(4) assms(3)]
    have "event_row db2 prov (ne_event_id ev) = Some row" by (simp add: event_row_def)
    from save_event_row [OF this] processed(5) have "event_processed db' prov (ne_event_id ev)"
      by (simp add: event_processed_def)
    with processed(6) later show ?thesis by (simp add: handled_def)
  next
    case (errored ev' db1 row is_new e db3 row')
    with assms(4,5) reload_or_recreate_row [OF errored(6)]
    have "event_row db3 prov (ne_event_id ev) = Some row'" "db3\<lparr>webhook_events := webhook_events db\<rparr> = db"
      by simp_all
    with save_event_row [OF this(1)] errored(7,8) show ?thesis by (simp add: handled_def)
  qed
qed

lemma razorpay_event_id:
  "(razorpay_event payload et eid oid payment rfd subscr)\<lparr>ne_event_id := x\<rparr> =
     razorpay_event payload et x oid payment rfd subscr"
  by (simp add: razorpay_event_def blank_event_def)

lemma parse_webhook_headers:
  assumes "parse_webhook p payload hs = Inr ev"
  shows "\<exists>x. parse_webhook p payload hs2 = Inr (ev\<lparr>ne_event_id := x\<rparr>)"
proof (cases p)
  case Razorpay
  from assms [unfolded Razorpay parse_webhook_def, simplified] have "\<exists>es pm rf sb nts et eid oid.
    as_dict (jget_null payload ''payload'') = Inr es \<and> entity_of es ''payment'' = Inr pm \<and>
    entity_of es ''refund'' = Inr rf \<and> entity_of es ''subscription'' = Inr sb \<and>
    as_dict (jor (jget_null pm ''notes'') (jget_null rf ''notes'')) = Inr nts \<and>
    et = json_str (get_or payload ''event'' (JStr ''unknown'')) \<and>
    oid = maybe_uuid (jget_null nts ''order_id'') \<and> ev = razorpay_event payload et eid oid pm rf sb"
    unfolding razorpay_parse_webhook_def Let_def by (simp split: sum.splits) blast
  then obtain es pm rf sb nts et eid oid where eqs:
    "as_dict (jget_null payload ''payload'') = Inr es" "entity_of es ''payment'' = Inr pm"
    "entity_of es ''refund'' = Inr rf" "entity_of es ''subscription'' = Inr sb"
    "as_dict (jor (jget_null pm ''notes'') (jget_null rf ''notes'')) = Inr nts"
    "et = json_str (get_or payload ''event'' (JStr ''unknown''))"
    "oid = maybe_uuid (jget_null nts ''order_id'')" "ev = razorpay_event payload et eid oid pm rf sb"
    by blast
  then have "\<exists>x. razorpay_parse_webhook payload hs2 = Inr (razorpay_event payload et x oid pm rf sb)"
    unfolding razorpay_parse_webhook_def Let_def by simp blast
  with Razorpay eqs(8) show ?thesis by (simp add: parse_webhook_def razorpay_event_id)
next
  case Stripe
  with assms have "parse_webhook p payload hs2 = Inr ev"
    by (simp add: parse_webhook_def stripe_parse_webhook_def)
  then show ?thesis by (intro exI [of _ "ne_event_id ev"]) simp
next
  case Manual
  with assms have "parse_webhook p payload hs2 = Inr ev" by (simp add: parse_webhook_def)
  then show ?thesis by (intro exI [of _ "ne_event_id ev"]) simp
qed

lemma handlers_ignore_event_id [simp]:
  "handle_payment db st env p (ev\<lparr>ne_event_id := x\<rparr>) = handle_payment db st env p ev"
  "handle_refund db now p (ev\<lparr>ne_event_id := x\<rparr>) = handle_refund db now p ev"
  "handle_subscription db p (ev\<lparr>ne_event_id := x\<rparr>) = handle_subscription db p ev"
  by (simp_all add: handle_payment_def handle_refund_def handle_subscription_def
      order_for_event_def event_succeeded_def event_failed_def confirmation_of_event_def
      cong: option.case_cong sum.case_cong if_cong)

lemma process_event_id:
  "process_event db st env p (ev\<lparr>ne_event_id := x\<rparr>) = process_event db st env p ev"
  by (cases "ne_category ev") (simp_all add: process_event_def)

text \<open>
  Replaying a stored event does what its delivery does. For an event whose signature was
  verified, the replay runs the processing of the delivery (the headers, which are not
  stored, do not matter) on the current database and marks the row processed; for an event
  that was not verified, or does not exist, the replay is refused and changes nothing.
\<close>

lemma replay_runs_delivery:
  assumes "first_row (\<lambda>w. w_id w = i) (webhook_events db) = Some w"
    and "get_gateway st (w_provider w) = Inr (w_provider w)"
    and "parse_webhook (w_provider w) (w_payload w) hs = Inr ev"
  shows "replay db st env i =
     (if w_signature_valid w then
        (case process_event db st env (w_provider w) ev of Inl e \<Rightarrow> Inl e
         | Inr (db1, settled) \<Rightarrow>
             Inr (save_event db1 w (\<lambda>w. w\<lparr>w_processed := True, w_processed_at := Some (se_now env),
                    w_error := None\<rparr>),
                  \<lparr>wo_accepted = True, wo_duplicate = False, wo_event_id = Some (w_event_id w),
                   wo_settled_order_id = settled\<rparr>))
      else Inr (db, \<lparr>wo_accepted = False, wo_duplicate = False, wo_event_id = None,
                     wo_settled_order_id = None\<rparr>))"
proof -
  from parse_webhook_headers [OF assms(3), of "[]"] obtain x where
    "parse_webhook (w_provider w) (w_payload w) [] = Inr (ev\<lparr>ne_event_id := x\<rparr>)" by blast
  with assms(1,2) show ?thesis by (simp add: replay_def process_event_id split: sum.splits)
qed

lemma ingest_forged:
  assumes "\<not> verify_webhook st mac (se_now (we_settle env)) prov body hs"
    and "get_gateway st prov = Inr prov" and "parse_webhook prov payload hs = Inr ev"
    and "ne_event_id ev \<noteq> []" and "event_row db prov (ne_event_id ev) = None"
  shows "\<exists>w out.
    ingest db st mac env prov body hs payload = Inr (db\<lparr>webhook_events := webhook_events db @ [w]\<rparr>, out) \<and>
    w_id w = we_row_id env \<and> \<not> w_signature_valid w \<and> \<not> w_processed w \<and> \<not> wo_accepted out \<and>
    w_provider w = prov \<and> w_event_id w = ne_event_id ev"
proof -
  have "insert_unique webhook_clash r (webhook_events db) = Some (webhook_events db @ [r])"
    if "w_provider r = prov" "w_event_id r = ne_event_id ev" for r
    using assms(5) that by (auto simp: event_row_def first_row_None insert_unique_def webhook_clash_def)
  with assms(1-4) show ?thesis
    by (simp add: ingest_def record_event_def Let_def) (intro exI conjI, rule refl, simp_all)
qed

text \<open>
  A forged request can make a genuine event unreplayable. When the first request that
  carries an event id is not signed, it is refused, but its row stays marked as not
  verified: when the provider's genuine delivery of that event then fails in processing, it
  is accepted and its error is recorded on that row, and the replay an operator runs after
  the fix is refused.
\<close>

lemma forged_event_id_blocks_replay:
  assumes "\<not> verify_webhook st mac (se_now (we_settle env1)) prov body1 hs1"
    and "verify_webhook st mac (se_now (we_settle env2)) prov body2 hs2"
    and "get_gateway st prov = Inr prov"
    and "parse_webhook prov payload1 hs1 = Inr ev1" and "parse_webhook prov payload2 hs2 = Inr ev2"
    and "ne_event_id ev1 = ne_event_id ev2" and "ne_event_id ev2 \<noteq> []"
    and "event_row db prov (ne_event_id ev2) = None"
    and "\<forall>w \<in> set (webhook_events db). w_id w \<noteq> we_row_id env1"
    and "\<And>d. process_event d st (we_settle env2) prov ev2 = Inl e"
  shows "\<exists>db1 out1 db2 out2. ingest db st mac env1 prov body1 hs1 payload1 = Inr (db1, out1)
     \<and> \<not> wo_accepted out1
     \<and> ingest db1 st mac env2 prov body2 hs2 payload2 = Inr (db2, out2) \<and> wo_accepted out2
     \<and> map_option w_error (event_row db2 prov (ne_event_id ev2)) = Some (Some (take 2000 (exn_text e)))
     \<and> replay db2 st2 env3 (we_row_id env1) = Inr (db2, \<lparr>wo_accepted = False, wo_duplicate = False,
          wo_event_id = None, wo_settled_order_id = None\<rparr>)"
proof -
  from ingest_forged [OF assms(1,3,4), of db] assms(6-8) obtain w out1 where
    first: "ingest db st mac env1 prov body1 hs1 payload1 = Inr (db\<lparr>webhook_events := webhook_events db @ [w]\<rparr>, out1)"
    and w: "w_id w = we_row_id env1" "\<not> w_signature_valid w" "\<not> w_processed w" "\<not> wo_accepted out1"
      "w_provider w = prov" "w_event_id w = ne_event_id ev2" by metis
  let ?db1 = "db\<lparr>webhook_events := webhook_events db @ [w]\<rparr>"
  let ?f = "\<lambda>w. w\<lparr>w_processed := False, w_error := Some (take 2000 (exn_text e))\<rparr>"
  let ?db2 = "save_event ?db1 w ?f"
  have row: "event_row ?db1 prov (ne_event_id ev2) = Some w"
    using assms(8) w by (simp add: event_row_def table_simps)
  then have "record_event ?db1 env2 prov ev2 payload2 True = Inr (?db1, w, False)"
    using assms(7) w by (auto simp: record_event_def Let_def insert_unique_def webhook_clash_def event_row_def)
  moreover have "reload_or_recreate ?db1 env2 prov ev2 payload2 = (?db1, w)"
    using row by (simp add: reload_or_recreate_def event_row_def)
  ultimately have second: "ingest ?db1 st mac env2 prov body2 hs2 payload2 = Inr (?db2, handled False ev2 None)"
    using assms(2,3,5,10) w(3) by (simp add: ingest_def handled_def)
  have "first_row (\<lambda>x. w_id x = we_row_id env1) (webhook_events ?db1) = Some w"
    using assms(9) w(1) by (auto simp: table_simps split: option.splits dest: first_row_Some)
  then have "first_row (\<lambda>x. w_id x = we_row_id env1) (webhook_events ?db2) = Some (?f w)"
    using w(1) by (simp add: save_event_def first_row_update_rows)
  then have "replay ?db2 st2 env3 (we_row_id env1) = Inr (?db2, \<lparr>wo_accepted = False, wo_duplicate = False,
      wo_event_id = None, wo_settled_order_id = None\<rparr>)"
    using w(2) by (simp add: replay_def)
  with first second w(4) save_event_row [OF row, of ?f] show ?thesis by (auto simp: handled_def)
qed

subsection \<open>Any sequence of deliveries\<close>

record webhook_request =
  wq_env :: webhook_env
  wq_publisher :: "publisher option"
  wq_provider :: PaymentProvider
  wq_body :: string
  wq_parsed :: "json option"
  wq_headers :: headers

text \<open>The messages published while a sequence of requests is served; a request that raises is rolled back.\<close>

fun webhook_run ::
  "payment_db \<Rightarrow> settings \<Rightarrow> mac \<Rightarrow> webhook_request list \<Rightarrow> payment_db \<times> (string \<times> jobj) list" where
  "webhook_run db st mac [] = (db, [])"
| "webhook_run db st mac (q # qs) =
     (case webhook_route db st mac (wq_env q) (wq_publisher q) (wq_provider q) (wq_body q) (wq_parsed q)
             (wq_headers q) of
        Inl e \<Rightarrow> webhook_run db st mac qs
      | Inr (db1, r) \<Rightarrow> (let (db2, ms) = webhook_run db1 st mac qs in (db2, wr_announced r @ ms)))"

definition paid_message :: "uuid \<Rightarrow> string \<times> jobj \<Rightarrow> bool" where
  "paid_message k m \<longleftrightarrow> fst m = ''order.paid'' \<and> map_of (snd m) ''order_id'' = Some (JStr (str_uuid k))"

lemma announce_paid_messages:
  "length (filter (paid_message k) (announce_paid pub \<lparr>sr_order = ord, sr_payment = None, sr_invoice = None,
     sr_newly_paid = True\<rparr>)) \<le> (if str_uuid (o_id ord) = str_uuid k then 1 else 0)"
  by (auto simp: announce_paid_def paid_message_def order_event_payload_def Let_def split: option.splits)

definition valid_order_ids :: "payment_db \<Rightarrow> bool" where
  "valid_order_ids db \<longleftrightarrow> (\<forall>k \<in> set (map o_id (orders db)). valid_uuid k)"

text \<open>One request: what it keeps, and that it announces an order only when it settles it.\<close>

lemma ingest_step:
  assumes "ingest db st mac env prov body hs payload = Inr (db', out)" and "quiet (we_settle env)"
    and "unique_orders db"
  shows "unique_orders db'" and "map o_id (orders db') = map o_id (orders db)"
    and "settled_in db k \<Longrightarrow> settled_in db' k"
    and "wo_settled_order_id out = Some k \<Longrightarrow> \<not> settled_in db k \<and> settled_in db' k"
proof -
  have rec: "orders d = orders db" if "record_event db env prov ev payload sig = Inr (d, row, b)" for ev sig d row b
    using that by (cases rule: record_event_cases) auto
  have "unique_orders db' \<and> map o_id (orders db') = map o_id (orders db) \<and> (settled_in db k \<longrightarrow> settled_in db' k)
    \<and> (wo_settled_order_id out = Some k \<longrightarrow> \<not> settled_in db k \<and> settled_in db' k)"
    using assms(1)
  proof (cases rule: ingest_cases)
    case (unsigned ev row is_new)
    with rec [OF unsigned(2)] assms(3) show ?thesis by (simp add: unique_orders_def settled_in_def)
  next
    case (duplicate ev row)
    with rec [OF duplicate(3)] assms(3) show ?thesis by (simp add: unique_orders_def settled_in_def handled_def)
  next
    case (processed ev db1 row is_new db2 settled)
    have o: "orders db1 = orders db" "orders db' = orders db2" using rec [OF processed(3)] processed(5) by simp_all
    have "unique_orders db1" using assms(3) o by (simp add: unique_orders_def)
    from order_effect_keeps [OF process_event_effect(1) [OF processed(4) assms(2)] this] processed(6) o
    show ?thesis by (auto simp: unique_orders_def settled_in_def handled_def)
  next
    case (errored ev db1 row is_new e db3 row')
    have "orders db3 = orders db"
      using errored(6) by (auto simp: reload_or_recreate_def Let_def split: option.splits)
    with errored(7,8) assms(3) show ?thesis by (simp add: unique_orders_def settled_in_def handled_def)
  qed
  then show "unique_orders db'" and "map o_id (orders db') = map o_id (orders db)"
    and "settled_in db k \<Longrightarrow> settled_in db' k"
    and "wo_settled_order_id out = Some k \<Longrightarrow> \<not> settled_in db k \<and> settled_in db' k" by blast+
qed

lemma webhook_route_step:
  assumes "webhook_route db st mac env pub prov body parsed hs = Inr (db', r)" and "quiet (we_settle env)"
    and "unique_orders db" and "valid_order_ids db" and "valid_uuid k"
  shows "unique_orders db' \<and> valid_order_ids db' \<and> (settled_in db k \<longrightarrow> settled_in db' k)
    \<and> length (filter (paid_message k) (wr_announced r)) \<le> (if settled_in db k \<or> \<not> settled_in db' k then 0 else 1)"
proof -
  consider (refused) "db' = db" "wr_announced r = []"
    | (ingested) payload out where "ingest db st mac env prov body hs payload = Inr (db', out)"
        "wr_announced r = [] \<or> (\<exists>j ord. wo_settled_order_id out = Some j \<and> get_order db' j = Inr ord \<and>
           wr_announced r = announce_paid pub \<lparr>sr_order = ord, sr_payment = None, sr_invoice = None,
             sr_newly_paid = True\<rparr>)"
    using assms(1)
    by (auto simp: webhook_route_def refuse_webhook_def split: if_splits option.splits json.splits sum.splits)
  then show ?thesis
  proof cases
    case refused
    with assms show ?thesis by simp
  next
    case ingested
    note s = ingest_step [OF ingested(1) assms(2,3)]
    have ids: "valid_order_ids db'" using assms(4) s(2) by (simp add: valid_order_ids_def)
    have "length (filter (paid_message k) (wr_announced r)) \<le> (if settled_in db k \<or> \<not> settled_in db' k then 0 else 1)"
    proof (cases "wr_announced r = []")
      case False
      then obtain j ord where j: "wo_settled_order_id out = Some j" "get_order db' j = Inr ord"
        "wr_announced r = announce_paid pub \<lparr>sr_order = ord, sr_payment = None, sr_invoice = None,
           sr_newly_paid = True\<rparr>"
        using ingested(2) by blast
      have jo: "o_id ord = j" "ord \<in> set (orders db')" using j(2) by (auto simp: get_order_row dest: first_row_Some)
      with ids assms(5) str_uuid_inj have "str_uuid (o_id ord) = str_uuid k \<Longrightarrow> j = k"
        by (auto simp: valid_order_ids_def)
      with announce_paid_messages [of k pub ord] s(4) [OF j(1)] j(3) show ?thesis
        by (auto split: if_splits)
    qed simp
    with s(1,3) ids show ?thesis by blast
  qed
qed

text \<open>
  C6: However often providers deliver, the platform hears of an order's payment at most
  once. Over any sequence of webhook requests handled one after the other, without another
  session inserting invoices meanwhile (\<open>quiet\<close>), from any providers, signed or forged,
  duplicated, reordered, failing or not, at most one \<open>order.paid\<close> message is published for
  an order, and none when the order was settled before the sequence began; so the services
  that grant access and send receipts act once.
\<close>

theorem webhook_paid_announced_once:
  assumes "unique_orders db" and "valid_order_ids db" and "valid_uuid k"
    and "\<forall>q \<in> set qs. quiet (we_settle (wq_env q))"
  shows "length (filter (paid_message k) (snd (webhook_run db st mac qs))) \<le> (if settled_in db k then 0 else 1)"
  using assms
proof (induction qs arbitrary: db)
  case (Cons q qs)
  let ?r = "webhook_route db st mac (wq_env q) (wq_publisher q) (wq_provider q) (wq_body q) (wq_parsed q)
     (wq_headers q)"
  show ?case
  proof (cases ?r)
    case Inl
    with Cons.IH [OF Cons.prems(1-3)] Cons.prems(4) show ?thesis by simp
  next
    case (Inr y)
    then obtain db1 r where r: "?r = Inr (db1, r)" by (cases y) auto
    from webhook_route_step [OF r _ Cons.prems(1-3)] Cons.prems(4)
    have step: "unique_orders db1" "valid_order_ids db1" "settled_in db k \<Longrightarrow> settled_in db1 k"
      "length (filter (paid_message k) (wr_announced r)) \<le> (if settled_in db k \<or> \<not> settled_in db1 k then 0 else 1)"
      by simp_all
    from Cons.IH [OF step(1,2) Cons.prems(3)] Cons.prems(4)
    have rest: "length (filter (paid_message k) (snd (webhook_run db1 st mac qs))) \<le> (if settled_in db1 k then 0 else 1)"
      by simp
    have "length (filter (paid_message k) (snd (webhook_run db st mac (q # qs)))) =
        length (filter (paid_message k) (wr_announced r))
        + length (filter (paid_message k) (snd (webhook_run db1 st mac qs)))"
      by (simp add: r split: prod.splits)
    with step(3,4) rest show ?thesis by (auto split: if_splits)
  qed
qed simp

subsection \<open>Witnesses\<close>

definition sample_webhook_env :: webhook_env where
  "sample_webhook_env = \<lparr>we_settle = sample_settle_env, we_row_id = 60, we_random = ''r''\<rparr>"

definition razorpay_settings :: settings where
  "razorpay_settings = default_settings\<lparr>razorpay_key_id := Some ''rzp'', razorpay_key_secret := Some ''key'',
     razorpay_webhook_secret := Some ''rz''\<rparr>"

definition sample_event :: jobj where
  "sample_event = [(''event'', JStr ''settlement.processed'')]"

definition sample_headers :: headers where
  "sample_headers = [(''x-razorpay-signature'', sample_mac ''rz'' ''{}''), (''x-razorpay-event-id'', ''evt_1'')]"

definition forged_headers :: headers where
  "forged_headers = [(''x-razorpay-signature'', ''0''), (''x-razorpay-event-id'', ''evt_1'')]"

lemmas sample_webhook_defs = sample_webhook_env_def razorpay_settings_def default_settings_def
  sample_settle_env_def sample_event_def sample_headers_def forged_headers_def

lemma sample_verified:
  "verify_webhook razorpay_settings sample_mac now Razorpay ''{}'' sample_headers"
  "\<not> verify_webhook razorpay_settings sample_mac now Razorpay ''{}'' forged_headers"
  by (simp_all add: sample_webhook_defs verify_webhook_def razorpay_verify_webhook_def truthy_def
      header_get_def opt_default_def constant_time_equals_def sample_mac_def)

lemma sample_gateway: "get_gateway razorpay_settings Razorpay = Inr Razorpay"
  by (simp add: sample_webhook_defs get_gateway_def gateways_def razorpay_enabled_def truthy_def)

lemma sample_parsed:
  assumes "hs = sample_headers \<or> hs = forged_headers"
  shows "parse_webhook Razorpay sample_event hs = Inr (blank_event ''evt_1'' ''settlement.processed'' sample_event)"
  using assms
  by (auto simp: sample_webhook_defs parse_webhook_def razorpay_parse_webhook_def razorpay_event_def
      as_dict_def jget_null_def get_or_def entity_of_def header_get_def str_startswith_def jor_def
      jget_def Let_def blank_event_def)

lemma sample_ingest:
  "\<exists>db' out. ingest empty_db razorpay_settings sample_mac sample_webhook_env Razorpay ''{}'' sample_headers
     sample_event = Inr (db', out) \<and> event_processed db' Razorpay ''evt_1''"
  using sample_verified(1) sample_gateway sample_parsed
  by (simp add: ingest_def Let_def record_event_def insert_unique_def empty_db_def blank_event_def
      process_event_def save_event_def event_processed_def event_row_def)

theorem unsigned_webhook_inert_witness:
  "\<exists>db' resp w. webhook_route empty_db razorpay_settings sample_mac sample_webhook_env None Razorpay ''{}''
      (Some (JObj sample_event)) forged_headers = Inr (db', resp)
   \<and> wr_announced resp = [] \<and> orders db' = []"
proof -
  obtain db' resp where r: "webhook_route empty_db razorpay_settings sample_mac sample_webhook_env None Razorpay
      ''{}'' (Some (JObj sample_event)) forged_headers = Inr (db', resp)"
    using sample_verified(2) sample_gateway sample_parsed
    by (simp add: webhook_route_def ingest_def Let_def record_event_def insert_unique_def empty_db_def
        sample_webhook_defs)
  from unsigned_webhook_inert [OF sample_verified(2) this] show ?thesis using r by (auto simp: empty_db_def)
qed

theorem webhook_all_or_nothing_witness:
  "\<exists>db' out ev. ingest empty_db razorpay_settings sample_mac sample_webhook_env Razorpay ''{}'' sample_headers
     sample_event = Inr (db', out)
   \<and> ingest db' razorpay_settings sample_mac sample_webhook_env Razorpay ''{}'' sample_headers
     sample_event = Inr (db', handled True ev None)"
proof -
  let ?ev = "blank_event ''evt_1'' ''settlement.processed'' sample_event"
  obtain db' out where i: "ingest empty_db razorpay_settings sample_mac sample_webhook_env Razorpay ''{}''
      sample_headers sample_event = Inr (db', out)" and p: "event_processed db' Razorpay ''evt_1''"
    using sample_ingest by blast
  have q: "quiet (we_settle sample_webhook_env)" by (simp add: sample_webhook_env_def sample_quiet)
  have ps: "parse_webhook Razorpay sample_event sample_headers = Inr ?ev" by (rule sample_parsed) simp
  have e: "ne_event_id ?ev = ''evt_1''" by (simp add: blank_event_def)
  from webhook_all_or_nothing [OF i sample_verified(1) q ps, unfolded e] p
  have "ingest db' razorpay_settings sample_mac sample_webhook_env Razorpay ''{}'' sample_headers
      sample_event = Inr (db', handled True ?ev None)"
    using sample_gateway sample_verified(1) ps e by (fastforce simp: event_processed_def)
  with i show ?thesis by blast
qed

definition stored_event :: webhook_event where
  "stored_event = \<lparr>w_id = 60, w_provider = Razorpay, w_event_id = ''evt_1'',
     w_event_type = ''settlement.processed'', w_signature_valid = True, w_processed = False,
     w_processed_at = None, w_error = Some ''KeyError'', w_payload = sample_event, w_created_at = 0\<rparr>"

definition sample_request :: webhook_request where
  "sample_request = \<lparr>wq_env = sample_webhook_env, wq_publisher = Some (\<lambda>_ _. True), wq_provider = Razorpay,
     wq_body = ''{}'', wq_parsed = Some (JObj sample_event), wq_headers = sample_headers\<rparr>"

theorem webhook_paid_announced_once_witness:
  "length (filter (paid_message 40) (snd (webhook_run sample_order_db razorpay_settings sample_mac
     [sample_request, sample_request]))) \<le> 1"
proof -
  have "unique_orders sample_order_db" "valid_order_ids sample_order_db" "valid_uuid 40"
    by (simp_all add: unique_orders_def valid_order_ids_def sample_order_db_def sample_order_def empty_db_def
        valid_uuid_def)
  from webhook_paid_announced_once [OF this, of "[sample_request, sample_request]" razorpay_settings sample_mac]
  show ?thesis by (auto simp: sample_request_def sample_webhook_env_def sample_quiet split: if_splits)
qed

definition broken_event :: jobj where
  "broken_event = [(''event'', JStr ''subscription.charged''), (''data'', JInt 7),
     (''payload'', JObj [(''subscription'', JObj [(''entity'', JObj [(''id'', JStr ''sub_1'')])])])]"

definition broken_normalised :: NormalisedEvent where
  "broken_normalised = (blank_event ''evt_1'' ''subscription.charged'' broken_event)\<lparr>
     ne_category := CatSubscription, ne_provider_subscription_id := Some ''sub_1''\<rparr>"

lemma broken_parsed:
  assumes "hs = sample_headers \<or> hs = forged_headers"
  shows "parse_webhook Razorpay broken_event hs = Inr broken_normalised"
  using assms
  by (auto simp: sample_webhook_defs broken_event_def broken_normalised_def parse_webhook_def
      razorpay_parse_webhook_def razorpay_event_def as_dict_def jget_null_def get_or_def entity_of_def
      header_get_def str_startswith_def jor_def jget_def Let_def blank_event_def str_if_truthy_def)

end
