(* ===== verification/Security.thy ===== *)
theory Security
  imports Json Core_Errors
begin

section \<open>Callers: tokens, permissions and signed internal requests\<close>

text \<open>
  \<open>packages/core-py/knowledgeos_core/security.py\<close> and the guards of \<open>deps.py\<close>: the
  authenticated principal and its permissions, verification of access tokens against the
  cached keys of the auth service, and the signature of service-to-service calls. The JWT
  library (reading an unverified header, decoding under a key), the auth service's key
  document, the keyed MAC and the body digest are parameters. The lemmas show what a
  verified token or signature says, and that a signed internal message determines the
  request it was made for.
\<close>

subsection \<open>Principals\<close>

record Principal =
  pr_user_id :: string
  pr_email :: "string option"
  pr_roles :: "string list"
  pr_permissions :: "string list"
  pr_session_id :: "string option"
  pr_token_id :: "string option"
  pr_is_service :: bool

definition has_role :: "Principal \<Rightarrow> string list \<Rightarrow> bool" where
  "has_role p roles \<longleftrightarrow> set roles \<inter> set (pr_roles p) \<noteq> {}"

definition resource_of :: "string \<Rightarrow> string" where
  "resource_of permission = takeWhile (\<lambda>c. c \<noteq> CHR '':'') permission"

definition has_permission :: "Principal \<Rightarrow> string \<Rightarrow> bool" where
  "has_permission p permission \<longleftrightarrow>
     (if ''superadmin'' \<in> set (pr_roles p) then True
      else if permission \<in> set (pr_permissions p) then True
      else resource_of permission @ '':*'' \<in> set (pr_permissions p) \<or> ''*'' \<in> set (pr_permissions p))"

definition require_role :: "Principal \<Rightarrow> string list \<Rightarrow> unit result" where
  "require_role p roles = (if has_role p roles then Inr () else Inl (raise_default ForbiddenError))"

definition require_permission :: "Principal \<Rightarrow> string \<Rightarrow> unit result" where
  "require_permission p permission =
     (if has_permission p permission then Inr () else Inl (raise_default ForbiddenError))"

definition require_self_or_permission :: "Principal \<Rightarrow> string option \<Rightarrow> string \<Rightarrow> unit result" where
  "require_self_or_permission p target permission =
     (if target = Some (pr_user_id p) then Inr () else require_permission p permission)"

subsection \<open>The key cache\<close>

text \<open>
  Times are the monotonic clock's, in seconds. A fetch is a parameter: the keys of the
  published document that carry a key id, or the error the call raised.
\<close>

record jwks_cache =
  jk_keys :: "(string \<times> jobj) list"
  jk_fetched_at :: int
  jk_last_forced_refresh :: int

definition new_jwks_cache :: jwks_cache where
  "new_jwks_cache = \<lparr>jk_keys = [], jk_fetched_at = 0, jk_last_forced_refresh = 0\<rparr>"

type_synonym key_document = "(string \<times> jobj) list result"

definition fetch_keys :: "jwks_cache \<Rightarrow> int \<Rightarrow> key_document \<Rightarrow> jwks_cache result" where
  "fetch_keys c now doc =
     (case doc of Inl e \<Rightarrow> Inl e
      | Inr keys \<Rightarrow>
          if keys = [] then Inl (raise_default UnauthorizedError)
          else Inr (c\<lparr>jk_keys := dict_update [] keys, jk_fetched_at := now\<rparr>))"

definition get_key ::
  "jwks_cache \<Rightarrow> int \<Rightarrow> int \<Rightarrow> key_document \<Rightarrow> key_document \<Rightarrow> string \<Rightarrow> jwks_cache \<times> jobj result" where
  "get_key c ttl now doc1 doc2 kid =
     (case (if jk_keys c = [] \<or> now - jk_fetched_at c > ttl then fetch_keys c now doc1 else Inr c) of
        Inl e \<Rightarrow> (c, Inl e)
      | Inr c1 \<Rightarrow>
          let forced = map_of (jk_keys c1) kid = None \<and> now - jk_last_forced_refresh c1 > 10;
              c2 = (if forced then c1\<lparr>jk_last_forced_refresh := now\<rparr> else c1)
          in case (if forced then fetch_keys c2 now doc2 else Inr c2) of
               Inl e \<Rightarrow> (c2, Inl e)
             | Inr c3 \<Rightarrow>
                 (c3, case map_of (jk_keys c3) kid of
                        None \<Rightarrow> Inl (raise_default UnauthorizedError) | Some k \<Rightarrow> Inr k))"

subsection \<open>Token verification\<close>

datatype jwt_decoded = Claims jobj | ExpiredSignature | InvalidToken

record token_verifier =
  tv_issuer :: string
  tv_audience :: string
  tv_algorithms :: "string list"
  tv_cache_ttl :: int
  tv_leeway :: int

record jwt_library =
  jl_header :: "string \<Rightarrow> jobj option"
  jl_decode :: "string \<Rightarrow> jobj \<Rightarrow> token_verifier \<Rightarrow> jwt_decoded"

definition str_list :: "json \<Rightarrow> string list" where
  "str_list v = (case v of JArr xs \<Rightarrow> map (\<lambda>x. case x of JStr s \<Rightarrow> s | _ \<Rightarrow> []) xs | _ \<Rightarrow> [])"

text \<open>
  The claims of a token the auth service minted: the subject is rendered as text; roles,
  permissions and the other claims are strings.
\<close>

definition opt_text :: "json \<Rightarrow> string option" where
  "opt_text v = (case v of JStr s \<Rightarrow> Some s | _ \<Rightarrow> None)"

definition principal_of_claims :: "jobj \<Rightarrow> string \<Rightarrow> Principal" where
  "principal_of_claims claims sub =
     \<lparr>pr_user_id = sub, pr_email = opt_text (jget_null claims ''email''),
      pr_roles = str_list (jget_null claims ''roles''),
      pr_permissions = str_list (jget_null claims ''permissions''),
      pr_session_id = opt_text (jget_null claims ''sid''), pr_token_id = opt_text (jget_null claims ''jti''),
      pr_is_service = (jget_null claims ''typ'' = JStr ''service'')\<rparr>"

definition verify_token ::
  "token_verifier \<Rightarrow> jwt_library \<Rightarrow> jwks_cache \<Rightarrow> int \<Rightarrow> key_document \<Rightarrow> key_document \<Rightarrow> string \<Rightarrow>
   jwks_cache \<times> Principal result" where
  "verify_token tv jwt c now doc1 doc2 token =
     (case jl_header jwt token of None \<Rightarrow> (c, Inl (raise_default UnauthorizedError))
      | Some header \<Rightarrow>
          (case opt_text (jget_null header ''kid'') of
             None \<Rightarrow> (c, Inl (raise_default UnauthorizedError))
           | Some kid \<Rightarrow>
               if kid = [] then (c, Inl (raise_default UnauthorizedError))
               else if jget_null header ''alg'' \<notin> set (map JStr (tv_algorithms tv))
               then (c, Inl (raise_default UnauthorizedError))
               else
                 (case get_key c (tv_cache_ttl tv) now doc1 doc2 kid of
                    (c', Inl e) \<Rightarrow> (c', Inl e)
                  | (c', Inr key) \<Rightarrow>
                      (c', case jl_decode jwt token key tv of
                             ExpiredSignature \<Rightarrow> Inl (raise_code UnauthorizedError ''token_expired'')
                           | InvalidToken \<Rightarrow> Inl (raise_default UnauthorizedError)
                           | Claims claims \<Rightarrow>
                               if jget_null claims ''typ'' \<noteq> JStr ''access''
                               then Inl (raise_default UnauthorizedError)
                               else case jget claims ''sub'' of
                                 None \<Rightarrow> Inl (PyExn ''KeyError'')
                               | Some sub \<Rightarrow> Inr (principal_of_claims claims (json_str sub))))))"

definition get_current_principal ::
  "token_verifier option \<Rightarrow> jwt_library \<Rightarrow> jwks_cache \<Rightarrow> int \<Rightarrow> key_document \<Rightarrow> key_document \<Rightarrow>
   string option \<Rightarrow> jwks_cache \<times> Principal result" where
  "get_current_principal tv jwt c now doc1 doc2 credentials =
     (if \<not> truthy credentials then (c, Inl (raise_default UnauthorizedError))
      else case tv of None \<Rightarrow> (c, Inl (PyExn ''RuntimeError''))
        | Some v \<Rightarrow> verify_token v jwt c now doc1 doc2 (opt_default credentials ''''))"

definition is_unauthorized :: "exn \<Rightarrow> bool" where
  "is_unauthorized e \<longleftrightarrow> (case e of AppExn cls _ _ \<Rightarrow> cls = UnauthorizedError | _ \<Rightarrow> False)"

definition get_optional_principal ::
  "token_verifier option \<Rightarrow> jwt_library \<Rightarrow> jwks_cache \<Rightarrow> int \<Rightarrow> key_document \<Rightarrow> key_document \<Rightarrow>
   string option \<Rightarrow> jwks_cache \<times> Principal option result" where
  "get_optional_principal tv jwt c now doc1 doc2 credentials =
     (if \<not> truthy credentials \<or> tv = None then (c, Inr None)
      else case get_current_principal tv jwt c now doc1 doc2 credentials of
        (c', Inr p) \<Rightarrow> (c', Inr (Some p))
      | (c', Inl e) \<Rightarrow> (c', if is_unauthorized e then Inr None else Inl e))"

subsection \<open>Signed internal requests\<close>

type_synonym hmac_sha256 = "string \<Rightarrow> string \<Rightarrow> string"

definition internal_message :: "int \<Rightarrow> string \<Rightarrow> string \<Rightarrow> string \<Rightarrow> string" where
  "internal_message ts meth path body_hash =
     str_int ts @ ''.'' @ str_upper meth @ ''.'' @ path @ ''.'' @ body_hash"

text \<open>Clocks are in microseconds; \<open>int(time.time())\<close> rounds the second down.\<close>

definition sign_internal_request ::
  "hmac_sha256 \<Rightarrow> timestamp \<Rightarrow> string \<Rightarrow> string \<Rightarrow> string \<Rightarrow> string \<Rightarrow> int option \<Rightarrow> string \<times> string" where
  "sign_internal_request mac now secret meth path body_hash t =
     (let ts = (case t of None \<Rightarrow> now div 1000000 | Some v \<Rightarrow> if v = 0 then now div 1000000 else v)
      in (str_int ts, mac secret (internal_message ts meth path body_hash)))"

definition verify_internal_request ::
  "hmac_sha256 \<Rightarrow> timestamp \<Rightarrow> string \<Rightarrow> string \<Rightarrow> string \<Rightarrow> string \<Rightarrow> string \<Rightarrow> string \<Rightarrow> int \<Rightarrow> bool" where
  "verify_internal_request mac now secret meth path t signature body_hash max_age =
     (case py_int t of None \<Rightarrow> False
      | Some ts \<Rightarrow>
          if \<bar>now - ts * 1000000\<bar> > max_age * 1000000 then False
          else snd (sign_internal_request mac now secret meth path body_hash (Some ts)) = signature)"

definition hash_body :: "(string \<Rightarrow> string) \<Rightarrow> string \<Rightarrow> string" where
  "hash_body sha256 body = (if body = [] then '''' else sha256 body)"

definition require_internal_caller ::
  "hmac_sha256 \<Rightarrow> (string \<Rightarrow> string) \<Rightarrow> timestamp \<Rightarrow> string \<Rightarrow> string \<Rightarrow> string \<Rightarrow> string \<Rightarrow>
   string option \<Rightarrow> string option \<Rightarrow> string option \<Rightarrow> string result" where
  "require_internal_caller mac sha256 now secret meth path body t signature service =
     (if \<not> (truthy t \<and> truthy signature \<and> truthy service) then Inl (raise_default UnauthorizedError)
      else if verify_internal_request mac now secret meth path (opt_default t '''')
                (opt_default signature '''') (hash_body sha256 body) 300
      then Inr (opt_default service '''')
      else Inl (raise_default ForbiddenError))"

subsection \<open>Rate-limit identity\<close>

definition client_identifier :: "Principal option \<Rightarrow> string option \<Rightarrow> string option \<Rightarrow> string" where
  "client_identifier caller forwarded peer =
     (case caller of Some p \<Rightarrow> ''user:'' @ pr_user_id p
      | None \<Rightarrow>
          if truthy forwarded
          then ''ip:'' @ str_strip (takeWhile (\<lambda>c. c \<noteq> CHR '','') (opt_default forwarded ''''))
          else ''ip:'' @ opt_default peer ''unknown'')"

subsection \<open>Lemmas\<close>

lemma split_at_first:
  assumes "a @ c # s = b @ c # t" and "c \<notin> set a" and "c \<notin> set b"
  shows "a = b \<and> s = t"
  using assms
proof (induction a arbitrary: b)
  case Nil
  then show ?case by (cases b) auto
next
  case (Cons x a)
  then show ?case by (cases b) auto
qed

lemma split_at_last:
  assumes "s @ c # a = t @ c # b" and "c \<notin> set a" and "c \<notin> set b"
  shows "s = t \<and> a = b"
proof -
  have "rev a @ c # rev s = rev b @ c # rev t" using arg_cong [OF assms(1), of rev] by simp
  from split_at_first [OF this] assms(2,3) show ?thesis by simp
qed

lemma str_upper_dot: "CHR ''.'' \<notin> set s \<Longrightarrow> CHR ''.'' \<notin> set (str_upper s)"
proof
  assume s: "CHR ''.'' \<notin> set s" and "CHR ''.'' \<in> set (str_upper s)"
  then obtain c where c: "c \<in> set s" "translate_char lower_letters upper_letters c = CHR ''.''"
    by (auto simp: str_upper_def)
  then have "c = CHR ''.'' \<or> CHR ''.'' \<in> set upper_letters"
    by (auto simp: translate_char_def split: option.splits dest: map_of_zip_set)
  with c(1) s show False by (auto simp: upper_letters_def)
qed

lemma internal_message_inj:
  assumes "internal_message ts m path h = internal_message ts' m' path' h'"
    and "CHR ''.'' \<notin> set m" "CHR ''.'' \<notin> set m'" "CHR ''.'' \<notin> set h" "CHR ''.'' \<notin> set h'"
  shows "ts = ts' \<and> str_upper m = str_upper m' \<and> path = path' \<and> h = h'"
proof -
  have nodot: "CHR ''.'' \<notin> set (str_int n)" for n
    using set_str_int [of n] by (auto simp: digit_chars_def)
  from assms(1) have "str_int ts @ CHR ''.'' # (str_upper m @ CHR ''.'' # path @ ''.'' @ h)
      = str_int ts' @ CHR ''.'' # (str_upper m' @ CHR ''.'' # path' @ ''.'' @ h')"
    by (simp add: internal_message_def)
  from split_at_first [OF this nodot nodot] have "str_int ts = str_int ts'"
    and rest: "str_upper m @ CHR ''.'' # path @ ''.'' @ h = str_upper m' @ CHR ''.'' # path' @ ''.'' @ h'"
    by blast+
  from this(1) have ts: "ts = ts'" by (metis option.inject py_int_str_int)
  from split_at_first [OF rest str_upper_dot [OF assms(2)] str_upper_dot [OF assms(3)]]
  have m: "str_upper m = str_upper m'" and "path @ CHR ''.'' # h = path' @ CHR ''.'' # h'" by simp_all
  from split_at_last [OF this(2) assms(4,5)] ts m show ?thesis by simp
qed

subsection \<open>Properties\<close>

text \<open>
  An internal signature is good for one request in one window. A request to an internal
  route is let through exactly when it carries the MAC of its own timestamp, method, path
  and body digest under the shared secret and the timestamp is within five minutes of the
  clock. For a MAC without collisions on the messages involved this binds the signature:
  what a service signed at second \<open>t\<close> for one request is accepted, within the window, for
  that method, path and body only.
\<close>

lemma internal_signature_binds_request:
  assumes "0 < t" and "service \<noteq> []" and "mac secret (internal_message t m path (hash_body sha256 body)) \<noteq> []"
    and "\<And>x y. mac secret x = mac secret y \<Longrightarrow> x = y"
    and "\<And>b. CHR ''.'' \<notin> set (sha256 b)" and "CHR ''.'' \<notin> set m" and "CHR ''.'' \<notin> set m'"
    and "sign_internal_request mac now0 secret m path (hash_body sha256 body) (Some t) = (stamp, sig)"
  shows "require_internal_caller mac sha256 now secret m' path' body' (Some stamp) (Some sig) (Some service)
     = (if \<bar>now - t * 1000000\<bar> \<le> 300000000 \<and> str_upper m' = str_upper m \<and> path' = path
           \<and> hash_body sha256 body' = hash_body sha256 body
        then Inr service else Inl (raise_default ForbiddenError))"
proof -
  have h: "CHR ''.'' \<notin> set (hash_body sha256 b)" for b using assms(5) by (simp add: hash_body_def)
  from assms(1,8) have s: "stamp = str_int t" "sig = mac secret (internal_message t m path (hash_body sha256 body))"
    by (auto simp: sign_internal_request_def Let_def)
  have "stamp \<noteq> []" using s(1) by (simp add: str_int_def)
  then have given: "truthy (Some stamp) \<and> truthy (Some sig) \<and> truthy (Some service)"
    using assms(2,3) s(2) by (simp add: truthy_def)
  have "mac secret (internal_message t m' path' (hash_body sha256 body')) = sig \<longleftrightarrow>
      str_upper m' = str_upper m \<and> path' = path \<and> hash_body sha256 body' = hash_body sha256 body"
    using internal_message_inj [OF _ assms(7,6) h h] assms(4)
    unfolding s(2) internal_message_def by metis
  with given assms(1) show ?thesis
    by (auto simp: require_internal_caller_def verify_internal_request_def sign_internal_request_def
        opt_default_def s(1) py_int_str_int)
qed

text \<open>
  C34: A principal comes only from a verified access token. When a bearer token is accepted,
  its header named an accepted algorithm and the id of a key in the cache of the key sets
  the auth service published, it decodes under that key (signature, audience, issuer, expiry), it is an access token and
  not a refresh token, and the caller's id, roles and permissions are the token's claims.
\<close>

theorem verified_token_sound:
  assumes "get_current_principal (Some tv) jwt c now doc1 doc2 credentials = (c', Inr p)"
  shows "\<exists>token header kid key claims sub. credentials = Some token \<and> jl_header jwt token = Some header
     \<and> jget_null header ''alg'' \<in> JStr ` set (tv_algorithms tv) \<and> jget_null header ''kid'' = JStr kid
     \<and> map_of (jk_keys c') kid = Some key \<and> jl_decode jwt token key tv = Claims claims
     \<and> jget_null claims ''typ'' = JStr ''access'' \<and> jget claims ''sub'' = Some sub
     \<and> pr_user_id p = json_str sub \<and> pr_roles p = str_list (jget_null claims ''roles'')
     \<and> pr_permissions p = str_list (jget_null claims ''permissions'') \<and> \<not> pr_is_service p"
proof -
  have key: "map_of (jk_keys d) kid = Some k" if "get_key c ttl now doc1 doc2 kid = (d, Inr k)" for ttl kid d k
    using that by (auto simp: get_key_def Let_def split: sum.splits option.splits)
  obtain token where tok: "credentials = Some token" and v: "verify_token tv jwt c now doc1 doc2 token = (c', Inr p)"
    using assms
    by (cases credentials) (auto simp: get_current_principal_def truthy_def opt_default_def split: if_splits)
  from v obtain header kid k where hd: "jl_header jwt token = Some header"
      "opt_text (jget_null header ''kid'') = Some kid" "jget_null header ''alg'' \<in> set (map JStr (tv_algorithms tv))"
      "get_key c (tv_cache_ttl tv) now doc1 doc2 kid = (c', Inr k)"
    and dec: "(case jl_decode jwt token k tv of
          ExpiredSignature \<Rightarrow> Inl (raise_code UnauthorizedError ''token_expired'')
        | InvalidToken \<Rightarrow> Inl (raise_default UnauthorizedError)
        | Claims claims \<Rightarrow> if jget_null claims ''typ'' \<noteq> JStr ''access'' then Inl (raise_default UnauthorizedError)
            else case jget claims ''sub'' of None \<Rightarrow> Inl (PyExn ''KeyError'')
              | Some sub \<Rightarrow> Inr (principal_of_claims claims (json_str sub))) = Inr p"
    unfolding verify_token_def by (auto split: option.splits if_splits prod.splits sum.splits)
  from hd(2) have kid: "jget_null header ''kid'' = JStr kid" by (auto simp: opt_text_def split: json.splits)
  from dec obtain claims sub where "jl_decode jwt token k tv = Claims claims"
      "jget_null claims ''typ'' = JStr ''access''" "jget claims ''sub'' = Some sub"
      "p = principal_of_claims claims (json_str sub)"
    by (auto split: jwt_decoded.splits if_splits option.splits)
  with tok hd(1,3) kid key [OF hd(4)] show ?thesis by (auto simp: principal_of_claims_def)
qed

definition sample_verifier :: token_verifier where
  "sample_verifier = \<lparr>tv_issuer = ''kos'', tv_audience = ''api'', tv_algorithms = [''RS256''],
     tv_cache_ttl = 600, tv_leeway = 10\<rparr>"

definition sample_jwt :: jwt_library where
  "sample_jwt = \<lparr>jl_header = (\<lambda>_. Some [(''kid'', JStr ''k1''), (''alg'', JStr ''RS256'')]),
     jl_decode = (\<lambda>_ _ _. Claims [(''sub'', JStr ''u1''), (''typ'', JStr ''access''),
        (''roles'', JArr [JStr ''reader''])])\<rparr>"

theorem verified_token_sound_witness:
  "\<exists>c' p. get_current_principal (Some sample_verifier) sample_jwt new_jwks_cache 5 (Inr [(''k1'', [])]) (Inr [])
     (Some ''t'') = (c', Inr p) \<and> pr_user_id p = ''u1'' \<and> pr_roles p = [''reader'']"
proof -
  obtain c' p where v: "get_current_principal (Some sample_verifier) sample_jwt new_jwks_cache 5
      (Inr [(''k1'', [])]) (Inr []) (Some ''t'') = (c', Inr p)"
    by (simp add: get_current_principal_def verify_token_def sample_verifier_def sample_jwt_def truthy_def
        opt_default_def jget_null_def opt_text_def get_key_def new_jwks_cache_def fetch_keys_def
        dict_update_def jget_def)
  from verified_token_sound [OF this] obtain claims sub key where
    "jl_decode sample_jwt ''t'' key sample_verifier = Claims claims" "jget claims ''sub'' = Some sub"
    "pr_user_id p = json_str sub" "pr_roles p = str_list (jget_null claims ''roles'')" by auto
  with v show ?thesis by (auto simp: sample_jwt_def jget_def jget_null_def str_list_def)
qed

end
