(* ===== verification/Idempotency.thy ===== *)
theory Idempotency
  imports Json Core_Errors
begin

section \<open>Idempotency keys\<close>

text \<open>
  \<open>packages/core-py/knowledgeos_core/idempotency.py\<close>: reservation, completion and release of
  a client's key in Redis, under a key that names the service, the scope and the actor. The
  store maps keys to a record and the time it expires. What other requests do between the
  reservation attempt and the read that follows it is a parameter of \<open>begin_key\<close>, as is the
  digest of the request.
\<close>

datatype idem_record =
    InProgress string
  | Completed string nat json "(string \<times> string) list"

record IdempotentReplay =
  ip_status_code :: nat
  ip_body :: json
  ip_headers :: "(string \<times> string) list"

type_synonym idem_store = "string \<Rightarrow> (idem_record \<times> timestamp) option"

definition DEFAULT_TTL :: int where
  "DEFAULT_TTL = 86400 * 1000000"

definition idem_key :: "string \<Rightarrow> string \<Rightarrow> string \<Rightarrow> string \<Rightarrow> string" where
  "idem_key service scope actor key = ''kos:idem:'' @ service @ '':'' @ scope @ '':'' @ actor @ '':'' @ key"

definition redis_get :: "idem_store \<Rightarrow> timestamp \<Rightarrow> string \<Rightarrow> idem_record option" where
  "redis_get s now k = (case s k of None \<Rightarrow> None | Some (r, e) \<Rightarrow> if e \<le> now then None else Some r)"

definition redis_set :: "idem_store \<Rightarrow> timestamp \<Rightarrow> string \<Rightarrow> idem_record \<Rightarrow> idem_store" where
  "redis_set s now k r = s(k \<mapsto> (r, now + DEFAULT_TTL))"

definition record_fingerprint :: "idem_record \<Rightarrow> string" where
  "record_fingerprint r = (case r of InProgress f \<Rightarrow> f | Completed f _ _ _ \<Rightarrow> f)"

definition begin_key ::
  "idem_store \<Rightarrow> timestamp \<Rightarrow> (idem_store \<Rightarrow> idem_store) \<Rightarrow> timestamp \<Rightarrow> string \<Rightarrow> string \<Rightarrow>
   idem_store \<times> IdempotentReplay option result" where
  "begin_key s now race later k fp =
     (if redis_get s now k = None then (redis_set s now k (InProgress fp), Inr None)
      else
        let s1 = race s in
        (s1, case redis_get s1 later k of
               None \<Rightarrow> Inr None
             | Some r \<Rightarrow>
                 if record_fingerprint r \<noteq> fp then Inl (raise_code ConflictError ''idempotency_key_reuse'')
                 else case r of
                   InProgress _ \<Rightarrow> Inl (raise_code ConflictError ''idempotency_in_progress'')
                 | Completed _ st body hs \<Rightarrow>
                     Inr (Some \<lparr>ip_status_code = st, ip_body = body, ip_headers = hs\<rparr>)))"

definition complete_key ::
  "idem_store \<Rightarrow> timestamp \<Rightarrow> string \<Rightarrow> string \<Rightarrow> nat \<Rightarrow> json \<Rightarrow> (string \<times> string) list \<Rightarrow> idem_store" where
  "complete_key s now k fp status body hs = redis_set s now k (Completed fp status body hs)"

definition release_key :: "idem_store \<Rightarrow> string \<Rightarrow> idem_store" where
  "release_key s k = s(k := None)"

subsection \<open>Lemmas: the contract of a key\<close>

text \<open>
  The interface a client of the store relies on: a reservation excludes others until it is
  completed, released or expired; a completed key replays; a released key is free.
\<close>

locale key_store =
  fixes reserve :: "'s \<Rightarrow> int \<Rightarrow> 'k \<Rightarrow> string \<Rightarrow> 's \<times> IdempotentReplay option result"
    and finish :: "'s \<Rightarrow> int \<Rightarrow> 'k \<Rightarrow> string \<Rightarrow> nat \<Rightarrow> json \<Rightarrow> 's"
    and free :: "'s \<Rightarrow> 'k \<Rightarrow> 's"
    and ttl :: int
  assumes reserved_excludes:
      "\<lbrakk>reserve s t k fp = (s1, Inr None); t \<le> u; u < t + ttl\<rbrakk> \<Longrightarrow> \<exists>e. snd (reserve s1 u k fp') = Inl e"
    and finished_replays:
      "\<lbrakk>t \<le> u; u < t + ttl\<rbrakk> \<Longrightarrow> reserve (finish s t k fp st body) u k fp
         = (finish s t k fp st body, Inr (Some \<lparr>ip_status_code = st, ip_body = body, ip_headers = []\<rparr>))"
    and finished_guards:
      "\<lbrakk>t \<le> u; u < t + ttl; fp' \<noteq> fp\<rbrakk> \<Longrightarrow> \<exists>e. snd (reserve (finish s t k fp st body) u k fp') = Inl e"
    and free_reserves: "snd (reserve (free s k) t k fp) = Inr None"
begin

text \<open>
  Runs of guarded executions: each request reserves, runs only when it holds the
  reservation, and finishes; the count is how many times the work ran.
\<close>

fun guarded :: "'s \<Rightarrow> 'k \<Rightarrow> string \<Rightarrow> nat \<Rightarrow> json \<Rightarrow> int list \<Rightarrow> 's \<times> nat" where
  "guarded s k fp st body [] = (s, 0)"
| "guarded s k fp st body (t # ts) =
     (case reserve s t k fp of
        (s1, Inr None) \<Rightarrow> (case guarded (finish s1 t k fp st body) k fp st body ts of (s2, n) \<Rightarrow> (s2, Suc n))
      | (s1, _) \<Rightarrow> guarded s1 k fp st body ts)"

lemma finished_never_reruns:
  assumes "\<forall>u \<in> set ts. t \<le> u \<and> u < t + ttl"
  shows "guarded (finish s t k fp st body) k fp st body ts = (finish s t k fp st body, 0)"
  using assms by (induction ts) (simp_all add: finished_replays)

lemma guarded_runs_once:
  assumes "\<forall>u \<in> set ts. t \<le> u \<and> u < t + ttl"
  shows "snd (guarded (free s k) k fp st body (t # ts)) = 1"
proof -
  obtain s1 where "reserve (free s k) t k fp = (s1, Inr None)"
    using free_reserves [of s k t fp] by (metis prod.collapse)
  then show ?thesis by (simp add: finished_never_reruns [OF assms])
qed

end

lemma redis_set_get [simp]:
  "redis_get (redis_set s t k r) u k' =
     (if k' = k then if t + DEFAULT_TTL \<le> u then None else Some r else redis_get s u k')"
  by (simp add: redis_set_def redis_get_def)

lemma release_key_get [simp]: "redis_get (release_key s k) u k' = (if k' = k then None else redis_get s u k')"
  by (simp add: release_key_def redis_get_def)

interpretation keys: key_store
  "\<lambda>s t k fp. begin_key s t id t k fp" "\<lambda>s t k fp st body. complete_key s t k fp st body []"
  release_key DEFAULT_TTL
proof unfold_locales
  fix s :: idem_store and t u :: int and k fp fp' :: string and s1
  assume "begin_key s t id t k fp = (s1, Inr None)" and "t \<le> u" and "u < t + DEFAULT_TTL"
  then show "\<exists>e. snd (begin_key s1 u id u k fp') = Inl e"
    by (auto simp: begin_key_def Let_def split: if_splits option.splits idem_record.splits)
qed (auto simp: begin_key_def complete_key_def record_fingerprint_def)

end
