(* ===== verification/Checkout.thy ===== *)
theory Checkout
  imports Webhooks Security Idempotency
begin

section \<open>Checkout\<close>

text \<open>
  \<open>apps/payment/routers/checkout.py\<close>, the parts of \<open>deps.py\<close> it uses and the money-moving
  routes of \<open>routers/admin.py\<close>: quoting, order creation under an idempotency key, the
  browser's payment confirmation, cancellation, refunds and offline settlement. A handler is
  given the database, the idempotency store and the values it draws; it returns both stores,
  what it announced, and its answer or error. Work that was not committed is rolled back.
  The lemmas show that a retried order creation returns the first order, that a confirmation
  needs a valid signature over the order's own gateway reference, and that a return URL
  stays on an allowed origin.
\<close>

subsection \<open>Request values\<close>

definition user_uuid :: "Principal \<Rightarrow> uuid result" where
  "user_uuid p = (case parse_uuid (pr_user_id p) of None \<Rightarrow> Inl (PyExn ''ValueError'') | Some u \<Rightarrow> Inr u)"

text \<open>
  \<open>urllib.parse.urlparse\<close> as far as \<open>safe_return_url\<close> uses it, on ASCII text: leading control
  characters and spaces are dropped, tabs and line breaks removed, the scheme is what stands
  before the first colon when it has the form of one, and the network location ends at the
  first slash, question mark or hash. Unbalanced brackets raise; which bracketed hosts are
  addresses is a parameter.
\<close>

definition url_clean :: "string \<Rightarrow> string" where
  "url_clean s = filter (\<lambda>c. c \<noteq> CHR 0x09 \<and> c \<noteq> CHR 0x0A \<and> c \<noteq> CHR 0x0D)
     (dropWhile (\<lambda>c. of_char c \<le> (32 :: nat)) s)"

definition scheme_chars :: string where
  "scheme_chars = lower_letters @ upper_letters @ ''0123456789+-.''"

definition url_scheme :: "string \<Rightarrow> string \<times> string" where
  "url_scheme url =
     (let s = takeWhile (\<lambda>c. c \<noteq> CHR '':'') url; r = drop (length s + 1) url in
      if length s < length url \<and> s \<noteq> [] \<and> hd s \<in> set (lower_letters @ upper_letters)
         \<and> list_all (\<lambda>c. c \<in> set scheme_chars) s
      then (str_lower s, r) else ('''', url))"

definition is_netloc_end :: "char \<Rightarrow> bool" where
  "is_netloc_end c \<longleftrightarrow> c \<in> {CHR ''/'', CHR ''?'', CHR ''#''}"

definition url_netloc :: "string \<Rightarrow> string" where
  "url_netloc rest = (if take 2 rest = ''//'' then takeWhile (\<lambda>c. \<not> is_netloc_end c) (drop 2 rest) else '''')"

definition urlparse :: "(string \<Rightarrow> bool) \<Rightarrow> string \<Rightarrow> (string \<times> string) result" where
  "urlparse valid_host s =
     (let (scheme, rest) = url_scheme (url_clean s);
          netloc = url_netloc rest;
          opened = CHR ''['' \<in> set netloc;
          closed = CHR '']'' \<in> set netloc
      in if opened \<noteq> closed then Inl (PyExn ''ValueError'')
         else if opened \<and> \<not> valid_host netloc then Inl (PyExn ''ValueError'')
         else Inr (scheme, netloc))"

definition rstrip_slash :: "string \<Rightarrow> string" where
  "rstrip_slash s = rev (dropWhile (\<lambda>c. c = CHR ''/'') (rev s))"

definition allowed_origins :: "settings \<Rightarrow> string set" where
  "allowed_origins st = insert (rstrip_slash (frontend_url st)) (rstrip_slash ` set (allowed_return_origins st))"

definition safe_return_url :: "settings \<Rightarrow> (string \<Rightarrow> bool) \<Rightarrow> string option \<Rightarrow> string option result" where
  "safe_return_url st valid_host candidate =
     (if \<not> truthy candidate then Inr None
      else case urlparse valid_host (opt_default candidate '''') of Inl _ \<Rightarrow> Inr None
        | Inr (scheme, netloc) \<Rightarrow>
            if scheme \<notin> {''http'', ''https''} \<or> netloc = [] then Inr None
            else if scheme @ ''://'' @ netloc \<notin> allowed_origins st
            then Inl (raise_code BadRequestError ''return_url_not_allowed'')
            else Inr candidate)"

definition publishable_key :: "settings \<Rightarrow> PaymentProvider option \<Rightarrow> string option" where
  "publishable_key st provider =
     (case provider of Some Razorpay \<Rightarrow> razorpay_key_id st | Some Stripe \<Rightarrow> stripe_publishable_key st | _ \<Rightarrow> None)"

record providers_response =
  pv_providers :: "PaymentProvider list"
  pv_default :: "PaymentProvider option"
  pv_currency :: string
  pv_razorpay_key_id :: "string option"
  pv_stripe_publishable_key :: "string option"

definition list_providers :: "settings \<Rightarrow> providers_response" where
  "list_providers st = \<lparr>pv_providers = public_providers st,
     pv_default = Option.bind (default_provider st) provider_of_value, pv_currency = default_currency st,
     pv_razorpay_key_id = razorpay_key_id st, pv_stripe_publishable_key = stripe_publishable_key st\<rparr>"

subsection \<open>Quoting\<close>

definition optional_user :: "Principal option \<Rightarrow> uuid option result" where
  "optional_user p = (case p of None \<Rightarrow> Inr None | Some q \<Rightarrow> map_sum id Some (user_uuid q))"

definition quote_handler ::
  "payment_db \<Rightarrow> settings \<Rightarrow> catalogue_env \<Rightarrow> timestamp \<Rightarrow> Principal option \<Rightarrow> order_create \<Rightarrow>
   (PricedCart \<times> cache_write list) result" where
  "quote_handler db st env now caller payload =
     (case optional_user caller of Inl e \<Rightarrow> Inl e
      | Inr uid \<Rightarrow> quote db st env now (oc_items payload) uid (oc_currency payload) (oc_coupon_code payload)
                     (oc_billing payload) True True)"

record coupon_answer =
  ca_valid :: bool
  ca_code :: string
  ca_discount_minor :: money
  ca_subtotal_minor :: money
  ca_total_minor :: money
  ca_reason :: "coupon_reason option"

definition validate_coupon ::
  "payment_db \<Rightarrow> settings \<Rightarrow> catalogue_env \<Rightarrow> timestamp \<Rightarrow> Principal option \<Rightarrow> order_item_in list \<Rightarrow> string \<Rightarrow>
   string \<Rightarrow> coupon_answer result" where
  "validate_coupon db st env now caller items currency code =
     (case optional_user caller of Inl e \<Rightarrow> Inl e
      | Inr uid \<Rightarrow>
          (case quote db st env now items uid currency (Some code) None True True of Inl e \<Rightarrow> Inl e
           | Inr (cart, _) \<Rightarrow>
               Inr \<lparr>ca_valid = pc_coupon_applied cart, ca_code = str_upper (str_strip code),
                    ca_discount_minor = pc_discount_minor cart, ca_subtotal_minor = pc_subtotal_minor cart,
                    ca_total_minor = pc_total_minor cart, ca_reason = pc_coupon_message cart\<rparr>))"

subsection \<open>Creating an order\<close>

record CheckoutSession =
  cs_order :: order
  cs_provider :: PaymentProvider
  cs_provider_order_id :: "string option"
  cs_publishable_key :: "string option"
  cs_checkout_url :: "string option"
  cs_client_secret :: json
  cs_amount_minor :: money
  cs_currency :: string
  cs_expires_at :: "timestamp option"

text \<open>What a request draws from its surroundings.\<close>

record checkout_env =
  ck_now :: timestamp
  ck_later :: timestamp
  ck_order_id :: uuid
  ck_order_number :: string
  ck_redemption_id :: uuid
  ck_catalogue :: catalogue_env
  ck_gateway :: gateway_env
  ck_settle :: settle_env
  ck_publisher :: "publisher option"
  ck_valid_host :: "string \<Rightarrow> bool"
  ck_fingerprint :: "order_create \<Rightarrow> string"
  ck_key_race :: "idem_store \<Rightarrow> idem_store"

definition session_of :: "settings \<Rightarrow> order \<Rightarrow> string option \<Rightarrow> json \<Rightarrow> CheckoutSession" where
  "session_of st ord url secret =
     \<lparr>cs_order = ord, cs_provider = opt_default (o_provider ord) Manual,
      cs_provider_order_id = o_provider_order_id ord, cs_publishable_key = publishable_key st (o_provider ord),
      cs_checkout_url = url, cs_client_secret = secret, cs_amount_minor = o_total_minor ord,
      cs_currency = o_currency ord, cs_expires_at = o_expires_at ord\<rparr>"

text \<open>The part of the handler that one transaction covers.\<close>

definition place_order ::
  "payment_db \<Rightarrow> settings \<Rightarrow> checkout_env \<Rightarrow> uuid \<Rightarrow> string option \<Rightarrow> order_create \<Rightarrow> string option \<Rightarrow>
   string option \<Rightarrow> (payment_db \<times> order \<times> string option \<times> json) result" where
  "place_order db st env user_id email payload key return_url =
     (case quote db st (ck_catalogue env) (ck_now env) (oc_items payload) (Some user_id) (oc_currency payload)
             (oc_coupon_code payload) (oc_billing payload) True True of
        Inl e \<Rightarrow> Inl e
      | Inr (cart, _) \<Rightarrow>
          if pc_lines cart \<noteq> [] \<and> list_all ql_already_owned (pc_lines cart)
          then Inl (raise_code BadRequestError ''already_owned'')
          else case create_order db st (ck_now env) (ck_order_id env) (ck_order_number env)
                      (ck_redemption_id env) user_id payload cart key email of
            Inl e \<Rightarrow> Inl e
          | Inr (db1, ord) \<Rightarrow> attach_gateway db1 st (ck_gateway env) ord (oc_provider payload) return_url)"

text \<open>The settlement of an order that needs no gateway, after the order itself is committed.\<close>

definition settle_free ::
  "payment_db \<Rightarrow> settings \<Rightarrow> checkout_env \<Rightarrow> order \<Rightarrow> (payment_db \<times> settlement_result) result" where
  "settle_free db st env ord =
     settle db st (ck_settle env) ord
       \<lparr>cf_provider = Manual, cf_provider_payment_id = ''free_'' @ str_uuid (o_id ord),
        cf_amount_minor = Some (o_total_minor ord), cf_currency = None, cf_method = None, cf_raw_payload = []\<rparr>"

type_synonym checkout_answer = "payment_db \<times> idem_store \<times> (string \<times> jobj) list \<times> CheckoutSession result"

definition finish_order ::
  "payment_db \<Rightarrow> idem_store \<Rightarrow> settings \<Rightarrow> checkout_env \<Rightarrow> order \<Rightarrow> string option \<Rightarrow> json \<Rightarrow> checkout_answer" where
  "finish_order db idem st env ord url secret =
     (if o_total_minor ord = 0 \<or> o_provider ord = Some Manual then
        (case settle_free db st env ord of
           Inl e \<Rightarrow> (db, idem, [], Inl e)
         | Inr (db1, res) \<Rightarrow>
             (db1, idem, announce_paid (ck_publisher env) res, Inr (session_of st (sr_order res) url secret)))
      else (db, idem, [], Inr (session_of st ord url secret)))"

definition order_key :: "uuid \<Rightarrow> string \<Rightarrow> string" where
  "order_key user_id key = idem_key ''payment'' ''orders'' (str_uuid user_id) key"

definition create_order_handler ::
  "payment_db \<Rightarrow> idem_store \<Rightarrow> settings \<Rightarrow> checkout_env \<Rightarrow> Principal \<Rightarrow> order_create \<Rightarrow> string option \<Rightarrow>
   checkout_answer" where
  "create_order_handler db idem st env caller payload key =
     (case user_uuid caller of Inl e \<Rightarrow> (db, idem, [], Inl e)
      | Inr user_id \<Rightarrow>
        case safe_return_url st (ck_valid_host env) (oc_return_url payload) of Inl e \<Rightarrow> (db, idem, [], Inl e)
      | Inr return_url \<Rightarrow>
          let keyed = truthy key; k = opt_default key ''''; rk = order_key user_id k; fp = ck_fingerprint env payload in
          case (if keyed then find_by_idempotency_key db k user_id else None) of
            Some existing \<Rightarrow> (db, idem, [], Inr (session_of st existing (o_checkout_url existing) JNull))
          | None \<Rightarrow>
              (case (if keyed then begin_key idem (ck_now env) (ck_key_race env) (ck_later env) rk fp
                     else (idem, Inr None)) of
                 (idem1, Inl e) \<Rightarrow> (db, idem1, [], Inl e)
               | (idem1, Inr (Some _)) \<Rightarrow>
                   (db, idem1, [], Inl (raise_code ConflictError ''idempotent_replay_pending''))
               | (idem1, Inr None) \<Rightarrow>
                   (case place_order db st env user_id (pr_email caller) payload key return_url of
                      Inl e \<Rightarrow> (db, if keyed then release_key idem1 rk else idem1, [], Inl e)
                    | Inr (db1, ord, url, secret) \<Rightarrow>
                        finish_order db1
                          (if keyed then complete_key idem1 (ck_later env) rk fp 201
                                           (JObj [(''order_id'', JStr (str_uuid (o_id ord)))]) []
                           else idem1) st env ord url secret)))"

subsection \<open>Other customer routes\<close>

definition list_orders_route ::
  "payment_db \<Rightarrow> Principal \<Rightarrow> order_cursor option \<Rightarrow> nat \<Rightarrow> OrderStatus option \<Rightarrow> (order list \<times> nat) result" where
  "list_orders_route db caller cursor limit status =
     (case user_uuid caller of Inl e \<Rightarrow> Inl e
      | Inr uid \<Rightarrow> (case list_for_user db uid cursor limit status of (rows, _, _) \<Rightarrow> Inr (rows, length rows)))"

definition cancel_order_route ::
  "payment_db \<Rightarrow> timestamp \<Rightarrow> Principal \<Rightarrow> uuid \<Rightarrow> string option \<Rightarrow> (payment_db \<times> order) result" where
  "cancel_order_route db now caller order_id reason =
     (case user_uuid caller of Inl e \<Rightarrow> Inl e
      | Inr uid \<Rightarrow>
        case get_order_for_user db order_id uid of Inl e \<Rightarrow> Inl e
      | Inr ord \<Rightarrow> cancel db now ord reason)"

record verify_request =
  vq_order_id :: uuid
  vq_provider :: PaymentProvider
  vq_provider_order_id :: string
  vq_provider_payment_id :: string
  vq_signature :: string

text \<open>Only the Razorpay gateway has \<open>verify_checkout\<close>.\<close>

definition verify_payment ::
  "payment_db \<Rightarrow> settings \<Rightarrow> mac \<Rightarrow> settle_env \<Rightarrow> publisher option \<Rightarrow> Principal \<Rightarrow> verify_request \<Rightarrow>
   (payment_db \<times> (string \<times> jobj) list \<times> order) result" where
  "verify_payment db st mac env pub caller q =
     (case user_uuid caller of Inl e \<Rightarrow> Inl e
      | Inr uid \<Rightarrow>
        case get_order_for_user db (vq_order_id q) uid of Inl e \<Rightarrow> Inl e
      | Inr ord \<Rightarrow>
        case get_gateway st (vq_provider q) of Inl e \<Rightarrow> Inl e
      | Inr g \<Rightarrow>
          if g \<noteq> Razorpay then Inl (raise_code BadRequestError ''verification_unsupported'')
          else if \<not> razorpay_verify_checkout st mac (vq_provider_order_id q) (vq_provider_payment_id q) (vq_signature q)
          then Inl (raise_code BadRequestError ''invalid_payment_signature'')
          else if truthy (o_provider_order_id ord) \<and> o_provider_order_id ord \<noteq> Some (vq_provider_order_id q)
          then Inl (raise_code BadRequestError ''order_reference_mismatch'')
          else case settle db st env ord
                 \<lparr>cf_provider = vq_provider q, cf_provider_payment_id = vq_provider_payment_id q,
                  cf_amount_minor = None, cf_currency = None, cf_method = None, cf_raw_payload = []\<rparr> of
            Inl e \<Rightarrow> Inl e
          | Inr (db1, res) \<Rightarrow> Inr (db1, announce_paid pub res, sr_order res))"

subsection \<open>Staff routes\<close>

definition refund_order ::
  "payment_db \<Rightarrow> settings \<Rightarrow> gateway_env \<Rightarrow> timestamp \<Rightarrow> uuid \<Rightarrow> publisher option \<Rightarrow> Principal \<Rightarrow> uuid \<Rightarrow>
   money option \<Rightarrow> string option \<Rightarrow> bool \<Rightarrow> (payment_db \<times> (string \<times> jobj) list \<times> refund) result" where
  "refund_order db st genv now new_id pub caller order_id amount_minor reason revoke =
     (case require_permission caller ''orders:refund'' of Inl e \<Rightarrow> Inl e
      | Inr _ \<Rightarrow>
        case get_order db order_id of Inl e \<Rightarrow> Inl e
      | Inr ord \<Rightarrow>
        case user_uuid caller of Inl e \<Rightarrow> Inl e
      | Inr actor \<Rightarrow>
        case create_refund db st genv now new_id ord amount_minor reason (Some actor) of Inl e \<Rightarrow> Inl e
      | Inr (db1, ord1, rfd) \<Rightarrow> Inr (db1, announce_refunded pub ord1 (r_amount_minor rfd) revoke, rfd))"

definition mark_order_paid ::
  "payment_db \<Rightarrow> settings \<Rightarrow> settle_env \<Rightarrow> publisher option \<Rightarrow> Principal \<Rightarrow> uuid \<Rightarrow>
   (payment_db \<times> (string \<times> jobj) list \<times> order) result" where
  "mark_order_paid db st env pub caller order_id =
     (case require_permission caller ''orders:refund'' of Inl e \<Rightarrow> Inl e
      | Inr _ \<Rightarrow>
        case get_order db order_id of Inl e \<Rightarrow> Inl e
      | Inr ord \<Rightarrow>
          case settle db st env ord
                 \<lparr>cf_provider = Manual,
                  cf_provider_payment_id = ''manual_'' @ str_uuid (o_id ord) @ ''_'' @ pr_user_id caller,
                  cf_amount_minor = None, cf_currency = None, cf_method = None,
                  cf_raw_payload = [(''settled_by'', JStr (pr_user_id caller)), (''channel'', JStr ''manual'')]\<rparr> of
            Inl e \<Rightarrow> Inl e
          | Inr (db1, res) \<Rightarrow> Inr (db1, announce_paid pub res, sr_order res))"

definition replay_webhook ::
  "payment_db \<Rightarrow> settings \<Rightarrow> settle_env \<Rightarrow> publisher option \<Rightarrow> Principal \<Rightarrow> uuid \<Rightarrow>
   (payment_db \<times> (string \<times> jobj) list) result" where
  "replay_webhook db st env pub caller event_id =
     (case require_permission caller ''orders:refund'' of Inl e \<Rightarrow> Inl e
      | Inr _ \<Rightarrow>
        case replay db st env event_id of Inl e \<Rightarrow> Inl e
      | Inr (db1, out) \<Rightarrow>
          if \<not> wo_accepted out then Inl (raise_default NotFoundError)
          else case wo_settled_order_id out of None \<Rightarrow> Inr (db1, [])
            | Some k \<Rightarrow>
                (case get_order db1 k of Inl e \<Rightarrow> Inl e
                 | Inr ord \<Rightarrow> Inr (db1, announce_paid pub \<lparr>sr_order = ord, sr_payment = None,
                                    sr_invoice = None, sr_newly_paid = True\<rparr>)))"

subsection \<open>Lemmas: identity of orders through the handler\<close>

text \<open>The columns that never change: id, idempotency key and owner.\<close>

definition order_keys :: "payment_db \<Rightarrow> (uuid \<times> string option \<times> uuid) list" where
  "order_keys db = map (\<lambda>r. (o_id r, o_idempotency_key r, o_user_id r)) (orders db)"

lemma find_by_key:
  "map_option o_id (find_by_idempotency_key db k u) =
     map_option fst (first_row (\<lambda>(i, kk, v). kk = Some k \<and> v = u) (order_keys db))"
proof -
  have "map_option o_id (first_row (\<lambda>r. o_idempotency_key r = Some k \<and> o_user_id r = u) rs) =
      map_option fst (first_row (\<lambda>(i, kk, v). kk = Some k \<and> v = u)
        (map (\<lambda>r. (o_id r, o_idempotency_key r, o_user_id r)) rs))" for rs
    by (induction rs) auto
  then show ?thesis by (simp add: find_by_idempotency_key_def order_keys_def)
qed

lemma order_effect_identity: "order_effect db db' s \<Longrightarrow> order_keys db' = order_keys db"
  by (erule order_effectE) (simp_all add: order_keys_def map_update_rows paid_version_def)

lemma attach_gateway_cases:
  assumes "attach_gateway db st genv ord req url = Inr (db', ord', u, secret)"
  obtains g poid where "resolve_gateway st req (o_total_minor ord) = Inr g"
    "orders db' = update_rows (\<lambda>r. o_id r = o_id ord) (\<lambda>r. r\<lparr>o_provider := Some g,
        o_provider_order_id := Some poid, o_checkout_url := u, o_status := AwaitingPayment\<rparr>) (orders db)"
    "ord' = ord\<lparr>o_provider := Some g, o_provider_order_id := Some poid, o_checkout_url := u,
        o_status := AwaitingPayment\<rparr>"
  using assms by (auto simp: attach_gateway_def save_order_def split: sum.splits)

lemma place_order_effect:
  assumes "place_order db st env u email payload key url = Inr (db1, ord, cu, secret)"
  shows "order_keys db1 = order_keys db @ [(ck_order_id env, key, u)]" and "o_id ord = ck_order_id env"
    and "ord \<in> set (orders db1)" and "o_status ord = AwaitingPayment"
    and "\<exists>g. resolve_gateway st (oc_provider payload) (o_total_minor ord) = Inr g \<and> o_provider ord = Some g"
    and "\<forall>r \<in> set (orders db). key \<noteq> None \<longrightarrow> o_idempotency_key r \<noteq> key"
proof -
  from assms obtain cart w db0 ord0 where
    c: "create_order db st (ck_now env) (ck_order_id env) (ck_order_number env) (ck_redemption_id env) u payload
          cart key email = Inr (db0, ord0)"
    and a: "attach_gateway db0 st (ck_gateway env) ord0 (oc_provider payload) url = Inr (db1, ord, cu, secret)"
    by (auto simp: place_order_def split: sum.splits if_splits)
  note cc = create_order_cases [OF c]
  have f: "o_id ord0 = ck_order_id env" "o_idempotency_key ord0 = key" "o_user_id ord0 = u"
    by (simp_all add: cc(1) order_of_cart_def)
  from a show "order_keys db1 = order_keys db @ [(ck_order_id env, key, u)]"
    by (rule attach_gateway_cases) (simp add: order_keys_def map_update_rows cc(2) f)
  from a show "o_id ord = ck_order_id env" by (rule attach_gateway_cases) (simp add: f)
  from a show "ord \<in> set (orders db1)"
    by (rule attach_gateway_cases) (auto simp: cc(2) set_update_rows)
  from a show "o_status ord = AwaitingPayment" by (rule attach_gateway_cases) simp
  from a show "\<exists>g. resolve_gateway st (oc_provider payload) (o_total_minor ord) = Inr g \<and> o_provider ord = Some g"
    by (rule attach_gateway_cases) simp
  show "\<forall>r \<in> set (orders db). key \<noteq> None \<longrightarrow> o_idempotency_key r \<noteq> key"
    using cc(5) f(2) by (auto simp: order_clash_def)
qed

lemma settle_order_id:
  assumes "settle db st env ord cf = Inr (db', res)"
  shows "o_id (sr_order res) = o_id ord" and "o_status (sr_order res) \<in> SETTLED"
proof -
  have "o_id (sr_order res) = o_id ord \<and> o_status (sr_order res) \<in> SETTLED"
    using assms
  proof (cases rule: settle_cases)
    case (first db1 p created db2 ord2 db3 bill)
    with first(2,3) show ?thesis by (auto simp: mark_paid_def save_order_def SETTLED_def)
  qed auto
  then show "o_id (sr_order res) = o_id ord" and "o_status (sr_order res) \<in> SETTLED" by simp_all
qed

lemma finish_order_effect:
  assumes "finish_order db idem st env ord url secret = (db1, idem1, ms, Inr s)" and "quiet (ck_settle env)"
    and "ord \<in> set (orders db)"
  shows "order_keys db1 = order_keys db" and "o_id (cs_order s) = o_id ord"
proof -
  have "order_keys db1 = order_keys db \<and> o_id (cs_order s) = o_id ord"
  proof (cases "o_total_minor ord = 0 \<or> o_provider ord = Some Manual")
    case True
    with assms(1) obtain res where r: "settle_free db st env ord = Inr (db1, res)"
      and s: "s = session_of st (sr_order res) url secret"
      by (auto simp: finish_order_def split: sum.splits)
    from settle_effect(1) [OF r [unfolded settle_free_def] assms(2,3)] settle_order_id(1) [OF r [unfolded settle_free_def]]
    show ?thesis by (simp add: order_effect_identity s session_of_def)
  next
    case False
    with assms(1) show ?thesis by (auto simp: finish_order_def session_of_def)
  qed
  then show "order_keys db1 = order_keys db" and "o_id (cs_order s) = o_id ord" by simp_all
qed

text \<open>A creation that answers, split by whether the key named an order already.\<close>

lemma create_order_handler_cases:
  assumes "create_order_handler db idem st env caller payload key = (db1, idem1, ms, Inr s)"
  obtains (existing) u k ord where "user_uuid caller = Inr u" "key = Some k" "k \<noteq> []"
      "find_by_idempotency_key db k u = Some ord" "db1 = db" "idem1 = idem" "ms = []"
      "s = session_of st ord (o_checkout_url ord) JNull"
  | (created) u url db0 ord cu secret idem0 where "user_uuid caller = Inr u"
      "\<And>k. key = Some k \<Longrightarrow> k \<noteq> [] \<Longrightarrow> find_by_idempotency_key db k u = None"
      "place_order db st env u (pr_email caller) payload key url = Inr (db0, ord, cu, secret)"
      "finish_order db0 idem0 st env ord cu secret = (db1, idem1, ms, Inr s)"
proof -
  obtain u where u: "user_uuid caller = Inr u"
    using assms by (cases "user_uuid caller") (simp_all add: create_order_handler_def)
  obtain url where url: "safe_return_url st (ck_valid_host env) (oc_return_url payload) = Inr url"
    using assms u by (cases "safe_return_url st (ck_valid_host env) (oc_return_url payload)")
      (simp_all add: create_order_handler_def)
  let ?k = "opt_default key ''''"
  show thesis
  proof (cases "if truthy key then find_by_idempotency_key db ?k u else None")
    case (Some ord)
    then have key: "key = Some ?k" "?k \<noteq> []" and f: "find_by_idempotency_key db ?k u = Some ord"
      by (auto simp: truthy_def opt_default_def split: if_splits option.splits)
    show ?thesis
      by (rule existing [OF u key f]) (use assms u url Some in \<open>simp_all add: create_order_handler_def Let_def\<close>)
  next
    case None
    then have none: "find_by_idempotency_key db k u = None" if "key = Some k" "k \<noteq> []" for k
      using that by (simp add: truthy_def opt_default_def)
    let ?b = "if truthy key then begin_key idem (ck_now env) (ck_key_race env) (ck_later env) (order_key u ?k)
        (ck_fingerprint env payload) else (idem, Inr None)"
    obtain idem0 x where b: "?b = (idem0, x)" by fastforce
    have "x = Inr None"
      using assms u url None b
      by (cases x) (auto simp: create_order_handler_def Let_def split: option.splits)
    note eq = assms [unfolded create_order_handler_def Let_def u url, simplified, unfolded None b this, simplified]
    obtain y where "place_order db st env u (pr_email caller) payload key url = Inr y"
      using eq by (cases "place_order db st env u (pr_email caller) payload key url") simp_all
    moreover obtain db0 ord cu secret where "y = (db0, ord, cu, secret)" by (metis prod_cases4)
    ultimately have p: "place_order db st env u (pr_email caller) payload key url = Inr (db0, ord, cu, secret)" by simp
    show ?thesis by (rule created [OF u none p]) (use eq p in auto)
  qed
qed

subsection \<open>Properties\<close>

text \<open>
  C9: A retried purchase is one order. When order creation under a non-empty idempotency key
  has answered, without another session inserting invoices meanwhile (\<open>quiet\<close>), every later
  request of the same customer with that key and an acceptable return URL, however much later
  and whatever Redis still knows, is answered with that same order; it changes neither the
  database nor the key store, announces nothing, and never repeats the gateway's one-time
  secret; the creation added at most one order. This holds for whatever body the later request
  has: the route looks the key up in the database before it compares request fingerprints, so
  the refusal with 409 that \<open>docs/API.md\<close> and \<open>idempotency.py\<close> promise for a different body under
  the same key is not given once the first request has been answered.
\<close>

theorem order_creation_idempotent:
  assumes "create_order_handler db idem st env caller payload (Some k) = (db1, idem1, ms, Inr s)"
    and "k \<noteq> []" and "quiet (ck_settle env)"
    and "safe_return_url st (ck_valid_host env2) (oc_return_url payload2) = Inr url2"
  shows "\<exists>s2. create_order_handler db1 idem2 st env2 caller payload2 (Some k) = (db1, idem2, [], Inr s2)
      \<and> o_id (cs_order s2) = o_id (cs_order s) \<and> cs_client_secret s2 = JNull
      \<and> length (orders db1) \<le> length (orders db) + 1"
proof -
  have "\<exists>u ord. user_uuid caller = Inr u \<and> find_by_idempotency_key db1 k u = Some ord \<and> o_id ord = o_id (cs_order s)
      \<and> length (orders db1) \<le> length (orders db) + 1"
    using assms(1)
  proof (cases rule: create_order_handler_cases)
    case (existing u k' ord)
    then show ?thesis by (simp add: session_of_def)
  next
    case (created u url db0 ord cu secret idem0)
    note p = place_order_effect [OF created(3)]
    note f = finish_order_effect [OF created(4) assms(3) p(3)]
    have "find_by_idempotency_key db k u = None" using created(2) assms(2) by simp
    with find_by_key [of db k u] have "first_row (\<lambda>(i, kk, v). kk = Some k \<and> v = u) (order_keys db) = None" by simp
    with find_by_key [of db1 k u] p(1,2) f have "map_option o_id (find_by_idempotency_key db1 k u) = Some (o_id (cs_order s))"
      by (simp add: table_simps)
    moreover have "length (orders db1) = length (orders db) + 1"
      using arg_cong [OF f(1), of length] arg_cong [OF p(1), of length] by (simp add: order_keys_def)
    ultimately show ?thesis using created(1) by auto
  qed
  then obtain u ord where "user_uuid caller = Inr u" "find_by_idempotency_key db1 k u = Some ord"
    "o_id ord = o_id (cs_order s)" "length (orders db1) \<le> length (orders db) + 1" by blast
  with assms(2,4) show ?thesis
    by (simp add: create_order_handler_def truthy_def opt_default_def session_of_def)
qed

text \<open>
  A customer who asks for the manual gateway pays nothing. Whenever a creation that names
  the manual provider answers with a new order, the order is settled on the spot, whatever
  it costs: no money was received, and its purchase is announced like any other.
\<close>

lemma manual_provider_settles_unpaid:
  assumes "create_order_handler db idem st env caller payload None = (db1, idem1, ms, Inr s)"
    and "oc_provider payload = Some Manual"
  shows "o_status (cs_order s) \<in> SETTLED"
  using assms(1)
proof (cases rule: create_order_handler_cases)
  case (created u url db0 ord cu secret idem0)
  from place_order_effect(5) [OF created(3)] assms(2) have "o_provider ord = Some Manual"
    by (auto simp: resolve_gateway_def get_gateway_def split: if_splits)
  with created(4) obtain res where "settle_free db0 st env ord = Inr (db1, res)"
    and s: "s = session_of st (sr_order res) cu secret"
    by (auto simp: finish_order_def split: sum.splits)
  from settle_order_id(2) [OF this(1) [unfolded settle_free_def]] s show ?thesis by (simp add: session_of_def)
qed simp

text \<open>
  C33: The browser cannot confirm a payment it did not make. A confirmation settles an order
  only for the order's owner, through Razorpay, with a signature that is the MAC of the
  gateway order and payment ids it names under a configured, non-empty secret, and, when the
  order has a gateway order recorded, only when that is the signed one. An order without a
  recorded gateway order is not compared with the signed one (\<open>unrecorded_order_unchecked\<close>).
\<close>

theorem verify_payment_sound:
  assumes "verify_payment db st mac env pub caller q = Inr (db1, ms, ord1)"
  shows "\<exists>u ord secret. user_uuid caller = Inr u \<and> get_order db (vq_order_id q) = Inr ord \<and> o_user_id ord = u
     \<and> vq_provider q = Razorpay \<and> razorpay_key_secret st = Some secret \<and> secret \<noteq> []
     \<and> vq_signature q = mac secret (vq_provider_order_id q @ ''|'' @ vq_provider_payment_id q)
     \<and> (if truthy (o_provider_order_id ord) then o_provider_order_id ord = Some (vq_provider_order_id q)
        else o_provider_order_id ord \<in> {None, Some []})
     \<and> o_id ord1 = vq_order_id q \<and> o_status ord1 \<in> SETTLED"
proof -
  from assms obtain u where u: "user_uuid caller = Inr u"
    by (cases "user_uuid caller") (simp_all add: verify_payment_def)
  with assms obtain ord where ord: "get_order_for_user db (vq_order_id q) u = Inr ord"
    by (cases "get_order_for_user db (vq_order_id q) u") (simp_all add: verify_payment_def)
  with assms u obtain g where g: "get_gateway st (vq_provider q) = Inr g"
    by (cases "get_gateway st (vq_provider q)") (simp_all add: verify_payment_def)
  from assms obtain res cf where
    s: "user_uuid caller = Inr u" "get_order_for_user db (vq_order_id q) u = Inr ord"
      "get_gateway st (vq_provider q) = Inr Razorpay"
      "razorpay_verify_checkout st mac (vq_provider_order_id q) (vq_provider_payment_id q) (vq_signature q)"
      "\<not> (truthy (o_provider_order_id ord) \<and> o_provider_order_id ord \<noteq> Some (vq_provider_order_id q))"
      "settle db st env ord cf = Inr (db1, res)" "ord1 = sr_order res"
    using u ord g by (simp add: verify_payment_def split: sum.splits if_splits prod.splits)
  have o: "get_order db (vq_order_id q) = Inr ord" "o_user_id ord = u"
    using s(2) by (auto simp: get_order_for_user_def split: sum.splits if_splits)
  have p: "vq_provider q = Razorpay" using s(3) by (auto simp: get_gateway_def split: if_splits)
  obtain secret where k: "razorpay_key_secret st = Some secret" "secret \<noteq> []"
      "vq_signature q = mac secret (vq_provider_order_id q @ ''|'' @ vq_provider_payment_id q)"
    using s(4) by (auto simp: razorpay_verify_checkout_def truthy_def opt_default_def constant_time_equals_def
        split: if_splits option.splits)
  have "if truthy (o_provider_order_id ord) then o_provider_order_id ord = Some (vq_provider_order_id q)
      else o_provider_order_id ord \<in> {None, Some []}"
    using s(5) by (auto simp: truthy_def split: option.splits)
  with s(1) o p k get_order_id [OF o(1)] settle_order_id [OF s(6)] s(7) show ?thesis by auto
qed

text \<open>
  The comparison is skipped for an order with no gateway order on record: a signed payment of
  any gateway order of this merchant settles it.
\<close>

lemma unrecorded_order_unchecked:
  assumes "user_uuid caller = Inr u" and "get_order_for_user db (vq_order_id q) u = Inr ord"
    and "o_provider_order_id ord = None" and "get_gateway st (vq_provider q) = Inr Razorpay"
    and "razorpay_verify_checkout st mac (vq_provider_order_id q) (vq_provider_payment_id q) (vq_signature q)"
    and "settle db st env ord \<lparr>cf_provider = vq_provider q, cf_provider_payment_id = vq_provider_payment_id q,
           cf_amount_minor = None, cf_currency = None, cf_method = None, cf_raw_payload = []\<rparr> = Inr (db1, res)"
  shows "verify_payment db st mac env pub caller q = Inr (db1, announce_paid pub res, sr_order res)"
  using assms by (simp add: verify_payment_def truthy_def)

lemma split_after_prefix:
  assumes "length (takeWhile P s) < length s"
  shows "s = takeWhile P s @ (s ! length (takeWhile P s)) # drop (length (takeWhile P s) + 1) s"
  using id_take_nth_drop [OF assms] takeWhile_eq_take [of P s] by simp

lemma urlparse_parts:
  assumes "urlparse valid_host u = Inr (scheme, netloc)"
  obtains rest where "url_scheme (url_clean u) = (scheme, rest)" "netloc = url_netloc rest"
proof -
  obtain sc rest where "url_scheme (url_clean u) = (sc, rest)" by fastforce
  with assms show thesis by (intro that [of rest]) (simp_all add: urlparse_def Let_def split: if_splits)
qed

text \<open>
  A return URL cannot leave the platform. When a client's return URL is used, it is the
  one the client sent, and (with leading control characters and line breaks removed, as
  browsers do) it reads scheme, two slashes, host, and then the end or a path, query or
  fragment, where the scheme is HTTP or HTTPS and scheme and host together are exactly a
  configured origin: no user-info prefix, look-alike suffix or other scheme passes.
\<close>

lemma return_url_on_allowed_origin:
  assumes "safe_return_url st valid_host candidate = Inr (Some u)"
  shows "candidate = Some u \<and> (\<exists>scheme netloc tail. url_clean u = scheme @ ''://'' @ netloc @ tail
     \<and> str_lower scheme \<in> {''http'', ''https''} \<and> str_lower scheme @ ''://'' @ netloc \<in> allowed_origins st
     \<and> (tail = [] \<or> is_netloc_end (hd tail)))"
proof -
  have c: "candidate = Some u" and t: "u \<noteq> []"
    using assms by (auto simp: safe_return_url_def truthy_def opt_default_def split: if_splits sum.splits option.splits)
  from assms c t obtain scheme netloc where u: "candidate = Some u" "urlparse valid_host u = Inr (scheme, netloc)"
      "scheme \<in> {''http'', ''https''}" "netloc \<noteq> []" "scheme @ ''://'' @ netloc \<in> allowed_origins st"
    by (simp add: safe_return_url_def truthy_def opt_default_def split: if_splits sum.splits prod.splits)
  obtain rest where r: "url_scheme (url_clean u) = (scheme, rest)" "netloc = url_netloc rest"
    using u(2) by (rule urlparse_parts)
  let ?s = "takeWhile (\<lambda>c. c \<noteq> CHR '':'') (url_clean u)"
  have sc: "scheme = str_lower ?s" "rest = drop (length ?s + 1) (url_clean u)" "length ?s < length (url_clean u)"
    using r(1) u(3) by (simp_all add: url_scheme_def Let_def split: if_splits)
  have split: "url_clean u = ?s @ CHR '':'' # rest"
    using split_after_prefix [OF sc(3)] nth_length_takeWhile [OF sc(3)] sc(2) by simp
  have two: "take 2 rest = ''//''" and nl: "netloc = takeWhile (\<lambda>c. \<not> is_netloc_end c) (drop 2 rest)"
    using r(2) u(4) by (auto simp: url_netloc_def split: if_splits)
  let ?tail = "dropWhile (\<lambda>c. \<not> is_netloc_end c) (drop 2 rest)"
  have "rest = ''//'' @ netloc @ ?tail" using two nl by (metis append_take_drop_id takeWhile_dropWhile_id)
  with split have whole: "url_clean u = ?s @ ''://'' @ netloc @ ?tail" by simp
  have tail: "?tail = [] \<or> is_netloc_end (hd ?tail)" using hd_dropWhile by blast
  show ?thesis
    by (intro conjI exI, rule u(1), rule whole) (use u(3,5) sc(1) tail in simp_all)
qed

subsection \<open>Witnesses\<close>

definition sample_caller :: Principal where
  "sample_caller = \<lparr>pr_user_id = str_uuid 9, pr_email = Some ''a@example.org'', pr_roles = [''reader''],
     pr_permissions = [], pr_session_id = None, pr_token_id = None, pr_is_service = False\<rparr>"

definition sample_checkout_env :: checkout_env where
  "sample_checkout_env = \<lparr>ck_now = 0, ck_later = 1, ck_order_id = 40, ck_order_number = ''KOS-1'',
     ck_redemption_id = 41, ck_catalogue = sample_env, ck_gateway = no_gateway, ck_settle = sample_settle_env,
     ck_publisher = None, ck_valid_host = (\<lambda>_. False), ck_fingerprint = (\<lambda>_. ''f''), ck_key_race = id\<rparr>"

definition manual_payload :: order_create where
  "manual_payload = sample_payload\<lparr>oc_provider := Some Manual\<rparr>"

lemma sample_user: "user_uuid sample_caller = Inr 9"
  by (simp add: user_uuid_def sample_caller_def parse_str_uuid valid_uuid_def)

lemma sample_user_quote:
  "quote empty_db default_settings sample_env 0 sample_items (Some 9) ''INR'' None None True True
     = Inr (sample_cart, [])"
proof -
  have "assert_consistent sample_cart = Inr ()"
    unfolding sample_cart_def by (rule build_cart_amounts(4) [OF _ refl]) simp
  moreover have "owned_book_ids sample_env 9 [7] = Inr {}"
    by (simp add: owned_book_ids_def sample_env_def reply_list_def get_or_def jget_def)
  moreover have "build_cart db st now books lines totals (Some 9) cur None bill
      = build_cart db st now books lines totals None cur None bill" for db st now books lines totals cur bill
    by (simp add: build_cart_def truthy_def)
  ultimately show ?thesis
    by (simp add: quote_def sample_items_def sample_purchasable sample_cart_def Let_def
        default_settings_def sample_book_def sample_upper opt_default_def)
qed

lemma sample_cart_facts:
  "assert_consistent sample_cart = Inr ()" "\<not> pc_coupon_applied sample_cart"
  "pc_subtotal_minor sample_cart = 99800" "pc_discount_minor sample_cart = 0" "pc_total_minor sample_cart = 99800"
  "0 \<le> tr_total_minor (pc_tax sample_cart)"
  "list_all (\<lambda>l. 0 < ql_quantity l \<and> 0 \<le> ql_unit_price_minor l \<and> \<not> ql_already_owned l) (pc_lines sample_cart)"
  "pc_lines sample_cart \<noteq> []"
proof -
  show "assert_consistent sample_cart = Inr ()"
    unfolding sample_cart_def by (rule build_cart_amounts(4) [OF _ refl]) simp
qed (use compute_tax_nonneg(1) in \<open>simp_all add: sample_cart_def build_cart_def Let_def truthy_def line_sum_def
    default_settings_def\<close>)

lemma sample_created:
  "\<exists>db0 ord. create_order empty_db default_settings 0 40 ''KOS-1'' 41 9 manual_payload sample_cart key email
     = Inr (db0, ord) \<and> orders db0 = [ord] \<and> invoices db0 = [] \<and> o_id ord = 40 \<and> o_total_minor ord = 99800
       \<and> o_user_id ord = 9 \<and> o_affiliate_code ord = None"
  using sample_cart_facts
  by (auto simp: create_order_def Let_def order_of_cart_def order_checks_def item_checks_def
      list_all_iff insert_unique_def empty_db_def manual_payload_def sample_payload_def)

lemma sample_place:
  "\<exists>db1 ord cu secret. place_order empty_db default_settings sample_checkout_env 9 email manual_payload key None
      = Inr (db1, ord, cu, secret) \<and> get_order db1 40 = Inr ord \<and> invoices db1 = [] \<and> o_status ord = AwaitingPayment
        \<and> o_provider ord = Some Manual"
proof -
  obtain db0 ord where c: "create_order empty_db default_settings 0 40 ''KOS-1'' 41 9 manual_payload sample_cart key email
      = Inr (db0, ord)" and o: "orders db0 = [ord]" "invoices db0 = []" "o_id ord = 40" "o_total_minor ord = 99800"
    using sample_created by blast
  have g: "resolve_gateway default_settings (Some Manual) 99800 = Inr Manual"
    by (simp add: resolve_gateway_def get_gateway_def gateways_def)
  obtain po where po: "gateway_create_order default_settings no_gateway Manual
      \<lparr>or_order_id = o_id ord, or_order_number = o_order_number ord, or_amount_minor = o_total_minor ord,
       or_currency = o_currency ord, or_customer_email = o_billing_email ord, or_return_url = None,
       or_description = order_description ord\<rparr> = Inr po" "po_checkout_url po = JNull"
    by (simp add: gateway_create_order_def manual_create_order_def)
  have "\<not> list_all ql_already_owned (pc_lines sample_cart)"
    using sample_cart_facts(7,8) by (cases "pc_lines sample_cart") auto
  with sample_user_quote c g po o show ?thesis
    by (simp add: place_order_def sample_checkout_env_def manual_payload_def sample_payload_def attach_gateway_def
        save_order_def text_value_def get_order_def)
qed

lemma sample_creation:
  assumes "key = None \<or> key = Some ''k''"
  shows "\<exists>db1 idem1 ms s. create_order_handler empty_db (\<lambda>_. None) default_settings sample_checkout_env sample_caller
    manual_payload key = (db1, idem1, ms, Inr s)"
proof -
  obtain db1 ord cu secret where p: "place_order empty_db default_settings sample_checkout_env 9
      (pr_email sample_caller) manual_payload key None = Inr (db1, ord, cu, secret)"
    and g: "get_order db1 40 = Inr ord" and i: "invoices db1 = []" and st: "o_status ord = AwaitingPayment"
    and m: "o_provider ord = Some Manual"
    using sample_place by blast
  have "\<exists>db2 res. settle_free db1 default_settings sample_checkout_env ord = Inr (db2, res)"
    using settle_first [of "ck_settle sample_checkout_env" db1 40 ord default_settings] sample_quiet g i st
    unfolding settle_free_def
    by (fastforce simp: sample_checkout_env_def SETTLED_def serials_consecutive_def serials_used_def)
  then have "\<exists>db2 ms s. finish_order db1 idem0 default_settings sample_checkout_env ord cu secret = (db2, idem0, ms, Inr s)"
    for idem0 using m by (auto simp: finish_order_def)
  moreover have "safe_return_url default_settings (ck_valid_host sample_checkout_env) (oc_return_url manual_payload) = Inr None"
    by (simp add: safe_return_url_def manual_payload_def sample_payload_def truthy_def)
  ultimately show ?thesis
    using assms p
    by (auto simp: create_order_handler_def Let_def sample_user truthy_def opt_default_def begin_key_def redis_get_def
        find_by_idempotency_key_def empty_db_def) blast+
qed

theorem order_creation_idempotent_witness:
  "\<exists>db1 idem1 ms s s2. create_order_handler empty_db (\<lambda>_. None) default_settings sample_checkout_env sample_caller
      manual_payload (Some ''k'') = (db1, idem1, ms, Inr s)
   \<and> create_order_handler db1 (\<lambda>_. None) default_settings sample_checkout_env sample_caller
      sample_payload (Some ''k'') = (db1, (\<lambda>_. None), [], Inr s2) \<and> o_id (cs_order s2) = o_id (cs_order s)"
proof -
  obtain db1 idem1 ms s where h: "create_order_handler empty_db (\<lambda>_. None) default_settings sample_checkout_env
      sample_caller manual_payload (Some ''k'') = (db1, idem1, ms, Inr s)"
    using sample_creation [of "Some ''k''"] by blast
  have "safe_return_url default_settings (ck_valid_host sample_checkout_env) (oc_return_url sample_payload) = Inr None"
    by (simp add: safe_return_url_def sample_payload_def truthy_def)
  from order_creation_idempotent [OF h _ _ this, of "\<lambda>_. None"] h sample_quiet show ?thesis
    by (auto simp: sample_checkout_env_def)
qed

definition razorpay_order :: order where
  "razorpay_order = sample_order\<lparr>o_provider := Some Razorpay, o_provider_order_id := Some ''order_R1''\<rparr>"

definition razorpay_db :: payment_db where
  "razorpay_db = empty_db\<lparr>orders := [razorpay_order]\<rparr>"

definition sample_verify :: verify_request where
  "sample_verify = \<lparr>vq_order_id = 40, vq_provider = Razorpay, vq_provider_order_id = ''order_R1'',
     vq_provider_payment_id = ''pay_1'', vq_signature = sample_mac ''key'' ''order_R1|pay_1''\<rparr>"

lemma razorpay_order_facts:
  "get_order razorpay_db 40 = Inr razorpay_order" "o_status razorpay_order \<notin> SETTLED"
  "serials_consecutive p (invoices razorpay_db)" "\<forall>i \<in> set (invoices razorpay_db). i_order_id i \<noteq> 40"
  "o_user_id razorpay_order = 9" "o_provider_order_id razorpay_order = Some ''order_R1''"
  by (simp_all add: razorpay_db_def razorpay_order_def get_order_def empty_db_def sample_order_def SETTLED_def
      serials_consecutive_def serials_used_def)

theorem verify_payment_sound_witness:
  "\<exists>db1 ms ord1. verify_payment razorpay_db razorpay_settings sample_mac sample_settle_env None sample_caller
     sample_verify = Inr (db1, ms, ord1) \<and> o_id ord1 = 40 \<and> o_status ord1 \<in> SETTLED"
proof -
  let ?cf = "\<lparr>cf_provider = Razorpay, cf_provider_payment_id = ''pay_1'', cf_amount_minor = None,
      cf_currency = None, cf_method = None, cf_raw_payload = []\<rparr>"
  obtain db2 res where "settle razorpay_db razorpay_settings sample_settle_env razorpay_order ?cf = Inr (db2, res)"
    using settle_first [OF sample_quiet razorpay_order_facts(1,2) razorpay_order_facts(3,4)] by blast
  moreover have "razorpay_verify_checkout razorpay_settings sample_mac ''order_R1'' ''pay_1''
      (sample_mac ''key'' ''order_R1|pay_1'')"
    by (simp add: razorpay_verify_checkout_def razorpay_settings_def truthy_def opt_default_def
        constant_time_equals_def sample_mac_def)
  ultimately obtain db1 ms ord1 where v: "verify_payment razorpay_db razorpay_settings sample_mac
      sample_settle_env None sample_caller sample_verify = Inr (db1, ms, ord1)"
    using sample_user sample_gateway razorpay_order_facts(1,5,6)
    by (simp add: verify_payment_def sample_verify_def get_order_for_user_def)
  from verify_payment_sound [OF this] v show ?thesis by (auto simp: sample_verify_def)
qed

lemma sample_url:
  "url_clean ''http://localhost:3000/done'' = ''http://localhost:3000/done''"
  by (simp add: url_clean_def)

lemma sample_parse: "urlparse (\<lambda>_. False) ''http://localhost:3000/done'' = Inr (''http'', ''localhost:3000'')"
proof -
  have "str_lower ''http'' = ''http''" by code_simp
  moreover have "list_all (\<lambda>c. c \<in> set scheme_chars) ''http''" "CHR ''h'' \<in> set (lower_letters @ upper_letters)"
    by code_simp+
  ultimately show ?thesis
    by (simp add: urlparse_def sample_url url_scheme_def url_netloc_def is_netloc_end_def Let_def)
qed

end
