(* ===== verification/Reports.thy ===== *)
theory Reports
  imports Orders
begin

section \<open>Revenue reporting\<close>

text \<open>
  \<open>apps/payment/services/reports.py\<close>: the revenue summary of a period. The lemmas give the
  summary as sums over the paid orders of the period and what a fully refunded order
  contributes to it.
\<close>

definition PAID_STATES :: "OrderStatus set" where
  "PAID_STATES = {Paid, PartiallyRefunded, Refunded}"

record RevenueSummary =
  rv_gross_minor :: money
  rv_refunded_minor :: money
  rv_net_minor :: money
  rv_tax_minor :: money
  rv_discount_minor :: money
  rv_order_count :: nat
  rv_paid_order_count :: nat
  rv_currency :: string
  rv_period_start :: "timestamp option"
  rv_period_end :: "timestamp option"

definition in_period :: "timestamp option \<Rightarrow> timestamp option \<Rightarrow> order \<Rightarrow> bool" where
  "in_period since until r \<longleftrightarrow> (case since of None \<Rightarrow> True | Some t \<Rightarrow> t \<le> o_created_at r)
     \<and> (case until of None \<Rightarrow> True | Some t \<Rightarrow> o_created_at r \<le> t)"

definition sum_paid :: "(order \<Rightarrow> int) \<Rightarrow> order list \<Rightarrow> int" where
  "sum_paid f rs = sum_list (map (\<lambda>r. if o_status r \<in> PAID_STATES then f r else 0) rs)"

definition revenue ::
  "payment_db \<Rightarrow> string \<Rightarrow> timestamp option \<Rightarrow> timestamp option \<Rightarrow> RevenueSummary" where
  "revenue db currency since until =
     (let rs = filter (in_period since until) (orders db);
          gross = sum_paid o_total_minor rs;
          refunded = sum_paid o_refunded_minor rs;
          tax = sum_paid o_tax_minor rs
      in \<lparr>rv_gross_minor = gross, rv_refunded_minor = refunded, rv_net_minor = max 0 (gross - refunded - tax),
          rv_tax_minor = tax, rv_discount_minor = sum_paid o_discount_minor rs,
          rv_order_count = length rs, rv_paid_order_count = nat (sum_paid (\<lambda>_. 1) rs),
          rv_currency = currency, rv_period_start = since, rv_period_end = until\<rparr>)"

subsection \<open>Lemmas\<close>

lemma sum_paid_append [simp]: "sum_paid f (rs @ ss) = sum_paid f rs + sum_paid f ss"
  by (simp add: sum_paid_def)

lemma sum_paid_one [simp]: "sum_paid f [r] = (if o_status r \<in> PAID_STATES then f r else 0)"
  by (simp add: sum_paid_def)

text \<open>
  A period report is additive: the figures of two adjacent periods add up to the figures of
  the whole, except that a period with a negative balance is reported as zero.
\<close>

lemma sum_paid_split:
  "sum_paid f (filter P rs) = sum_paid f (filter (\<lambda>r. P r \<and> Q r) rs) + sum_paid f (filter (\<lambda>r. P r \<and> \<not> Q r) rs)"
  by (induction rs) (auto simp: sum_paid_def)

lemma revenue_adjacent_periods:
  assumes "t < u" and "u \<le> v"
  shows "rv_gross_minor (revenue db c (Some t) (Some v)) =
     rv_gross_minor (revenue db c (Some t) (Some (u - 1))) + rv_gross_minor (revenue db c (Some u) (Some v))"
proof -
  have a: "filter (\<lambda>r. in_period (Some t) (Some v) r \<and> o_created_at r < u) (orders db)
      = filter (in_period (Some t) (Some (u - 1))) (orders db)"
    using assms by (intro filter_cong) (auto simp: in_period_def)
  have b: "filter (\<lambda>r. in_period (Some t) (Some v) r \<and> \<not> o_created_at r < u) (orders db)
      = filter (in_period (Some u) (Some v)) (orders db)"
    using assms by (intro filter_cong) (auto simp: in_period_def)
  show ?thesis
    using sum_paid_split [of o_total_minor "in_period (Some t) (Some v)" "orders db" "\<lambda>r. o_created_at r < u"]
    by (simp add: revenue_def Let_def a b)
qed

text \<open>
  A fully refunded order takes its tax out of the net figure although no money of it was
  kept: recording it lowers the balance of the period by its tax.
\<close>

lemma refunded_order_lowers_balance:
  assumes "o_status r = Refunded" and "o_refunded_minor r = o_total_minor r" and "in_period since until r"
  shows "rv_gross_minor (revenue (db\<lparr>orders := orders db @ [r]\<rparr>) c since until)
       - rv_refunded_minor (revenue (db\<lparr>orders := orders db @ [r]\<rparr>) c since until)
       - rv_tax_minor (revenue (db\<lparr>orders := orders db @ [r]\<rparr>) c since until)
     = rv_gross_minor (revenue db c since until) - rv_refunded_minor (revenue db c since until)
       - rv_tax_minor (revenue db c since until) - o_tax_minor r"
  using assms by (simp add: revenue_def Let_def PAID_STATES_def)

end
