(* ===== verification/Entitlements.thy ===== *)
theory Entitlements
  imports Payments
begin

section \<open>Entitlements: who may open which book\<close>

text \<open>
  The access-control half of the books service: \<open>apps/books/services/entitlements.py\<close>
  (checks, grants, revocation, the library) and \<open>apps/books/services/events.py\<close> (reading a
  payment event, the ledger of processed events, the handler and its transaction). The
  events it consumes are the ones \<open>Payments\<close> announces. Deliveries are handled one at a
  time; the lookup that precedes each insert then always sees the row it would collide with.
  The lemmas show that a grant is idempotent per order, and that what a paid order announces
  is read back as exactly its books for its buyer.
\<close>

subsection \<open>Tables\<close>

datatype EntitlementSource = SrcPurchase | SrcSubscription | SrcFree | SrcGift | SrcAdmin

datatype BookStatus = BookDraft | BookProcessing | BookPendingReview | BookPublished | BookUnpublished
  | BookRejected | BookArchived

record book_row =
  bk_id :: uuid
  bk_price_minor :: money
  bk_discount_price_minor :: "money option"
  bk_status :: BookStatus
  bk_deleted_at :: "timestamp option"

definition effective_price_minor :: "book_row \<Rightarrow> money" where
  "effective_price_minor b =
     (case bk_discount_price_minor b of None \<Rightarrow> bk_price_minor b
      | Some d \<Rightarrow> if d < bk_price_minor b then d else bk_price_minor b)"

definition is_free :: "book_row \<Rightarrow> bool" where
  "is_free b \<longleftrightarrow> effective_price_minor b = 0"

record entitlement =
  en_id :: uuid
  en_user_id :: uuid
  en_book_id :: uuid
  en_source :: EntitlementSource
  en_external_ref :: string
  en_order_id :: "uuid option"
  en_can_read :: bool
  en_can_download :: bool
  en_granted_at :: timestamp
  en_expires_at :: "timestamp option"
  en_revoked_at :: "timestamp option"
  en_note :: "string option"

record books_db =
  books_tbl :: "book_row list"
  entitlements :: "entitlement list"
  processed_events :: "(string \<times> string) list"

definition entitlement_clash :: "entitlement \<Rightarrow> entitlement \<Rightarrow> bool" where
  "entitlement_clash a b \<longleftrightarrow> en_user_id a = en_user_id b \<and> en_book_id a = en_book_id b
     \<and> en_source a = en_source b \<and> en_external_ref a = en_external_ref b"

interpretation entitlements_tbl: keyed_table
  "\<lambda>e. (en_user_id e, en_book_id e, en_source e, en_external_ref e)" "\<lambda>_. True" entitlement_clash
  by unfold_locales (simp add: entitlement_clash_def)

subsection \<open>Checks\<close>

definition active_grant :: "timestamp \<Rightarrow> entitlement \<Rightarrow> bool" where
  "active_grant now e \<longleftrightarrow> en_revoked_at e = None \<and>
     (case en_expires_at e of None \<Rightarrow> True | Some t \<Rightarrow> now < t)"

definition find_active :: "books_db \<Rightarrow> timestamp \<Rightarrow> uuid \<Rightarrow> uuid \<Rightarrow> entitlement option" where
  "find_active db now user_id book_id =
     max_row (\<lambda>e. (if en_can_download e then 1 else 0 :: nat, en_granted_at e))
       (filter (\<lambda>e. en_user_id e = user_id \<and> en_book_id e = book_id \<and> active_grant now e) (entitlements db))"

record AccessOut =
  ao_book_id :: uuid
  ao_has_access :: bool
  ao_can_download :: bool
  ao_source :: "EntitlementSource option"
  ao_expires_at :: "timestamp option"

definition free_access :: "bool \<Rightarrow> book_row \<Rightarrow> AccessOut option" where
  "free_access free_books_readable b =
     (if \<not> free_books_readable \<or> \<not> is_free b then None
      else Some \<lparr>ao_book_id = bk_id b, ao_has_access = True, ao_can_download = True,
                 ao_source = Some SrcFree, ao_expires_at = None\<rparr>)"

definition book_access :: "books_db \<Rightarrow> bool \<Rightarrow> timestamp \<Rightarrow> uuid \<Rightarrow> book_row \<Rightarrow> AccessOut" where
  "book_access db free_books_readable now user_id b =
     (case find_active db now user_id (bk_id b) of
        Some e \<Rightarrow> \<lparr>ao_book_id = bk_id b, ao_has_access = en_can_read e, ao_can_download = en_can_download e,
                   ao_source = Some (en_source e), ao_expires_at = en_expires_at e\<rparr>
      | None \<Rightarrow>
          (case free_access free_books_readable b of Some a \<Rightarrow> a
           | None \<Rightarrow> \<lparr>ao_book_id = bk_id b, ao_has_access = False, ao_can_download = False,
                      ao_source = None, ao_expires_at = None\<rparr>))"

definition require_read :: "books_db \<Rightarrow> bool \<Rightarrow> timestamp \<Rightarrow> uuid \<Rightarrow> book_row \<Rightarrow> AccessOut result" where
  "require_read db free_books_readable now user_id b =
     (let a = book_access db free_books_readable now user_id b in
      if \<not> ao_has_access a then
        (if ao_source a = None then Inl (raise_default PaymentRequiredError) else Inl (raise_default ForbiddenError))
      else Inr a)"

definition require_download :: "books_db \<Rightarrow> bool \<Rightarrow> timestamp \<Rightarrow> uuid \<Rightarrow> book_row \<Rightarrow> AccessOut result" where
  "require_download db free_books_readable now user_id b =
     (case require_read db free_books_readable now user_id b of Inl e \<Rightarrow> Inl e
      | Inr a \<Rightarrow> if \<not> ao_can_download a then Inl (raise_default ForbiddenError) else Inr a)"

definition owned_subset :: "books_db \<Rightarrow> timestamp \<Rightarrow> uuid \<Rightarrow> uuid list \<Rightarrow> uuid set" where
  "owned_subset db now user_id book_ids =
     set (map en_book_id (filter (\<lambda>e. en_user_id e = user_id \<and> en_book_id e \<in> set book_ids \<and> active_grant now e)
            (entitlements db)))"

subsection \<open>Grants\<close>

record grant_request =
  gr_user_id :: uuid
  gr_book_id :: uuid
  gr_source :: EntitlementSource
  gr_external_ref :: string
  gr_order_id :: "uuid option"
  gr_expires_at :: "timestamp option"
  gr_can_download :: bool
  gr_note :: "string option"

definition same_grant :: "grant_request \<Rightarrow> entitlement \<Rightarrow> bool" where
  "same_grant g e \<longleftrightarrow> en_user_id e = gr_user_id g \<and> en_book_id e = gr_book_id g
     \<and> en_source e = gr_source g \<and> en_external_ref e = gr_external_ref g"

definition new_entitlement :: "timestamp \<Rightarrow> uuid \<Rightarrow> grant_request \<Rightarrow> entitlement" where
  "new_entitlement now new_id g = \<lparr>en_id = new_id, en_user_id = gr_user_id g, en_book_id = gr_book_id g,
     en_source = gr_source g, en_external_ref = gr_external_ref g, en_order_id = gr_order_id g,
     en_can_read = True, en_can_download = gr_can_download g, en_granted_at = now,
     en_expires_at = gr_expires_at g, en_revoked_at = None, en_note = gr_note g\<rparr>"

definition grant_access ::
  "books_db \<Rightarrow> timestamp \<Rightarrow> uuid \<Rightarrow> grant_request \<Rightarrow> (books_db \<times> entitlement \<times> bool) result" where
  "grant_access db now new_id g =
     (case first_row (same_grant g) (entitlements db) of
        Some existing \<Rightarrow>
          if en_revoked_at existing \<noteq> None then
            (let f = (\<lambda>e. e\<lparr>en_revoked_at := None, en_granted_at := now\<rparr>)
             in Inr (db\<lparr>entitlements := update_rows (\<lambda>e. en_id e = en_id existing) f (entitlements db)\<rparr>,
                     f existing, False))
          else Inr (db, existing, False)
      | None \<Rightarrow>
          (let e = new_entitlement now new_id g
           in case insert_unique entitlement_clash e (entitlements db) of
                Some t \<Rightarrow> Inr (db\<lparr>entitlements := t\<rparr>, e, True)
              | None \<Rightarrow>
                  (case first_row (same_grant g) (entitlements db) of
                     None \<Rightarrow> Inl (PyExn ''IntegrityError'')
                   | Some found \<Rightarrow> Inr (db, found, False))))"

definition revoke_entitlement :: "books_db \<Rightarrow> timestamp \<Rightarrow> entitlement \<Rightarrow> string option \<Rightarrow> books_db \<times> entitlement" where
  "revoke_entitlement db now e reason =
     (if en_revoked_at e \<noteq> None then (db, e)
      else let f = (\<lambda>r. r\<lparr>en_revoked_at := Some now, en_note := or_opt reason (en_note e)\<rparr>)
           in (db\<lparr>entitlements := update_rows (\<lambda>r. en_id r = en_id e) f (entitlements db)\<rparr>, f e))"

definition get_entitlement :: "books_db \<Rightarrow> uuid \<Rightarrow> entitlement result" where
  "get_entitlement db k =
     (case first_row (\<lambda>e. en_id e = k) (entitlements db) of
        None \<Rightarrow> Inl (raise_default NotFoundError) | Some e \<Rightarrow> Inr e)"

definition load_grantable_book :: "books_db \<Rightarrow> uuid \<Rightarrow> book_row option" where
  "load_grantable_book db k =
     (case first_row (\<lambda>b. bk_id b = k) (books_tbl db) of None \<Rightarrow> None
      | Some b \<Rightarrow> if bk_deleted_at b \<noteq> None then None else if bk_status b = BookArchived then None else Some b)"

subsection \<open>Reading a payment event\<close>

record GrantRequest =
  gq_user_id :: uuid
  gq_book_ids :: "uuid list"
  gq_external_ref :: string
  gq_order_id :: "uuid option"

definition as_uuid :: "json \<Rightarrow> uuid option" where
  "as_uuid v = parse_uuid (json_str v)"

text \<open>The elements of a value that is iterable and not text: a list's, or a mapping's keys.\<close>

definition iterated :: "json \<Rightarrow> json list" where
  "iterated v = (case v of JArr xs \<Rightarrow> xs | JObj d \<Rightarrow> map (JStr \<circ> fst) d | _ \<Rightarrow> [])"

definition item_book :: "json \<Rightarrow> json list" where
  "item_book item =
     (case item of JObj d \<Rightarrow> if jtruthy (jget_null d ''book_id'') then [jget_null d ''book_id''] else [] | _ \<Rightarrow> [])"

text \<open>The keys of a \<open>dict\<close> filled by \<open>setdefault\<close>: first occurrences, in order.\<close>

fun first_occurrences :: "'a list \<Rightarrow> 'a list \<Rightarrow> 'a list" where
  "first_occurrences seen [] = seen"
| "first_occurrences seen (x # xs) = first_occurrences (if x \<in> set seen then seen else seen @ [x]) xs"

definition collect_book_ids :: "jobj \<Rightarrow> uuid list" where
  "collect_book_ids payload =
     (let single = jget_null payload ''book_id'';
          candidates = iterated (jget_null payload ''book_ids'')
            @ (if jtruthy single then [single] else [])
            @ concat (map item_book (iterated (jget_null payload ''items'')))
      in first_occurrences [] (List.map_filter as_uuid candidates))"

definition parse_grant :: "jobj \<Rightarrow> GrantRequest option" where
  "parse_grant payload =
     (case as_uuid (jget_null payload ''user_id'') of None \<Rightarrow> None
      | Some user_id \<Rightarrow>
          (let book_ids = collect_book_ids payload in
           if book_ids = [] then None
           else Some \<lparr>gq_user_id = user_id, gq_book_ids = book_ids,
                  gq_external_ref = take 255 (json_str (jor (jget_null payload ''order_id'')
                     (jor (jget_null payload ''payment_id'') (jor (jget_null payload ''reference'') (JStr ''''))))),
                  gq_order_id = as_uuid (jget_null payload ''order_id'')\<rparr>))"

subsection \<open>The handler\<close>

record bus_event =
  be_id :: string
  be_type :: string
  be_payload :: jobj

definition ENTITLEMENT_EVENTS :: "string list" where
  "ENTITLEMENT_EVENTS = [''payment.succeeded'', ''order.paid'']"

definition claim_event :: "books_db \<Rightarrow> bus_event \<Rightarrow> books_db \<times> bool" where
  "claim_event db ev =
     (if \<exists>p \<in> set (processed_events db). fst p = be_id ev then (db, False)
      else (db\<lparr>processed_events := processed_events db @ [(be_id ev, be_type ev)]\<rparr>, True))"

definition purchase_grant :: "GrantRequest \<Rightarrow> uuid \<Rightarrow> grant_request" where
  "purchase_grant q book_id = \<lparr>gr_user_id = gq_user_id q, gr_book_id = book_id, gr_source = SrcPurchase,
     gr_external_ref = gq_external_ref q, gr_order_id = gq_order_id q, gr_expires_at = None,
     gr_can_download = True, gr_note = None\<rparr>"

text \<open>The loop over the books of one event; the ids are the ones its inserts draw.\<close>

fun grant_books ::
  "books_db \<Rightarrow> timestamp \<Rightarrow> (uuid \<Rightarrow> uuid) \<Rightarrow> GrantRequest \<Rightarrow> uuid list \<Rightarrow> nat \<Rightarrow> (books_db \<times> nat) result" where
  "grant_books db now ids q [] created = Inr (db, created)"
| "grant_books db now ids q (b # bs) created =
     (case load_grantable_book db b of
        None \<Rightarrow> grant_books db now ids q bs created
      | Some _ \<Rightarrow>
          (case grant_access db now (ids b) (purchase_grant q b) of Inl e \<Rightarrow> Inl e
           | Inr (db1, _, was_created) \<Rightarrow>
               grant_books db1 now ids q bs (created + (if was_created then 1 else 0))))"

definition handle_grant_event ::
  "books_db \<Rightarrow> timestamp \<Rightarrow> (uuid \<Rightarrow> uuid) \<Rightarrow> bus_event \<Rightarrow> (books_db \<times> nat) result" where
  "handle_grant_event db now ids ev =
     (case claim_event db ev of
        (db1, False) \<Rightarrow> Inr (db1, 0)
      | (db1, True) \<Rightarrow>
          (case parse_grant (be_payload ev) of None \<Rightarrow> Inr (db1, 0)
           | Some q \<Rightarrow> grant_books db1 now ids q (gq_book_ids q) 0))"

text \<open>The registered consumer: commit, or roll back and leave the message for redelivery.\<close>

definition consume_grant ::
  "books_db \<Rightarrow> timestamp \<Rightarrow> (uuid \<Rightarrow> uuid) \<Rightarrow> bus_event \<Rightarrow> books_db \<times> unit result" where
  "consume_grant db now ids ev =
     (case handle_grant_event db now ids ev of Inr (db1, _) \<Rightarrow> (db1, Inr ()) | Inl e \<Rightarrow> (db, Inl e))"

subsection \<open>Lemmas: reading back an order\<close>

text \<open>What the payment service announces for a paid order: the order's payload, possibly extended.\<close>

definition announces_order :: "order \<Rightarrow> jobj \<Rightarrow> bool" where
  "announces_order ord d \<longleftrightarrow>
     (\<forall>k \<in> {''user_id'', ''order_id'', ''book_ids'', ''book_id'', ''items''}.
        map_of d k = map_of (order_event_payload ord) k)"

definition valid_order_uuids :: "order \<Rightarrow> bool" where
  "valid_order_uuids ord \<longleftrightarrow> valid_uuid (o_id ord) \<and> valid_uuid (o_user_id ord)
     \<and> (\<forall>i \<in> set (o_items ord). valid_uuid (oi_book_id i))"

definition order_grant :: "order \<Rightarrow> GrantRequest" where
  "order_grant ord = \<lparr>gq_user_id = o_user_id ord, gq_book_ids = first_occurrences [] (order_book_ids ord),
     gq_external_ref = str_uuid (o_id ord), gq_order_id = Some (o_id ord)\<rparr>"

lemma first_occurrences_set [simp]: "set (first_occurrences seen xs) = set seen \<union> set xs"
  by (induction seen xs rule: first_occurrences.induct) auto

lemma first_occurrences_seen: "set xs \<subseteq> set seen \<Longrightarrow> first_occurrences seen xs = seen"
  by (induction seen xs rule: first_occurrences.induct) auto

lemma first_occurrences_append:
  "first_occurrences seen (xs @ ys) = first_occurrences (first_occurrences seen xs) ys"
  by (induction seen xs rule: first_occurrences.induct) auto

lemma length_str_uuid: "length (str_uuid u) = 36"
  by (simp add: str_uuid_def Let_def)

lemma as_uuid_str [simp]: "valid_uuid u \<Longrightarrow> as_uuid (JStr (str_uuid u)) = Some u"
  by (simp add: as_uuid_def parse_str_uuid)

lemma map_filter_uuids:
  "\<forall>i \<in> set items. valid_uuid (f i) \<Longrightarrow>
     List.map_filter as_uuid (map (\<lambda>i. JStr (str_uuid (f i))) items) = map f items"
  by (induction items) (simp_all add: List.map_filter_simps)

lemma item_book_rows:
  "concat (map item_book (map (\<lambda>i. JObj ((''book_id'', JStr (str_uuid (f i))) # g i)) items))
     = map (\<lambda>i. JStr (str_uuid (f i))) items"
  by (induction items) (simp_all add: item_book_def jget_null_def)

lemma announced_fields:
  assumes "announces_order ord d"
  shows "jget_null d ''user_id'' = JStr (str_uuid (o_user_id ord))"
    and "jget_null d ''order_id'' = JStr (str_uuid (o_id ord))"
    and "jget_null d ''book_ids'' = JArr (map (\<lambda>i. JStr (str_uuid (oi_book_id i))) (o_items ord))"
    and "jget_null d ''book_id'' = JNull"
    and "jget_null d ''items'' = JArr (map (\<lambda>i. JObj [(''book_id'', JStr (str_uuid (oi_book_id i))),
       (''title'', JStr (oi_title i)), (''quantity'', JInt (oi_quantity i)),
       (''unit_price_minor'', JInt (oi_unit_price_minor i))]) (o_items ord))"
  using assms by (simp_all add: announces_order_def jget_null_def order_event_payload_def)

lemma parse_grant_of_order:
  assumes "announces_order ord d" and "valid_order_uuids ord" and "o_items ord \<noteq> []"
  shows "parse_grant d = Some (order_grant ord)"
proof -
  let ?ids = "map (\<lambda>i. JStr (str_uuid (oi_book_id i))) (o_items ord)"
  note fields = announced_fields [OF assms(1)]
  have "List.map_filter as_uuid (?ids @ ?ids) = order_book_ids ord @ order_book_ids ord"
    using assms(2) map_filter_uuids [of "o_items ord" oi_book_id]
    by (simp add: valid_order_uuids_def order_book_ids_def List.map_filter_def)
  then have "collect_book_ids d = first_occurrences [] (order_book_ids ord @ order_book_ids ord)"
    using item_book_rows [of oi_book_id _ "o_items ord"]
    by (simp add: collect_book_ids_def fields iterated_def)
  also have "\<dots> = first_occurrences [] (order_book_ids ord)"
    by (simp add: first_occurrences_append first_occurrences_seen)
  finally have ids: "collect_book_ids d = first_occurrences [] (order_book_ids ord)" .
  have "set (collect_book_ids d) = set (order_book_ids ord)" by (simp add: ids)
  then have "collect_book_ids d \<noteq> []" using assms(3) by (auto simp: order_book_ids_def)
  with assms(2) show ?thesis
    by (simp add: parse_grant_def fields jor_def order_grant_def ids length_str_uuid valid_order_uuids_def Let_def)
qed

lemma announced_messages:
  assumes "(t, d) \<in> set (announce_paid pub res)"
  shows "announces_order (sr_order res) d"
proof -
  obtain send where "pub = Some send" using assms by (cases pub) (simp_all add: announce_paid_def)
  with assms show ?thesis
    by (cases "sr_invoice res"; cases "sr_payment res")
      (auto simp: announce_paid_def announces_order_def Let_def split: if_splits)
qed

subsection \<open>Lemmas: grants\<close>

definition granted :: "books_db \<Rightarrow> grant_request \<Rightarrow> bool" where
  "granted db g \<longleftrightarrow> (\<exists>e \<in> set (entitlements db). same_grant g e \<and> en_revoked_at e = None)"

definition entitlements_ok :: "books_db \<Rightarrow> bool" where
  "entitlements_ok db \<longleftrightarrow> entitlements_tbl.unique_keys (entitlements db) \<and>
     (\<forall>e \<in> set (entitlements db). en_can_read e \<and>
        (en_source e = SrcPurchase \<longrightarrow> en_expires_at e = None \<and> en_can_download e))"

lemma grant_access_ok:
  assumes ok: "entitlements_ok db" and src: "gr_source g = SrcPurchase" "gr_expires_at g = None" "gr_can_download g"
  shows "\<exists>db' e c. grant_access db now nid g = Inr (db', e, c) \<and> entitlements_ok db' \<and> granted db' g
     \<and> (\<forall>h. granted db h \<longrightarrow> granted db' h) \<and> books_tbl db' = books_tbl db
     \<and> processed_events db' = processed_events db"
proof (cases "first_row (same_grant g) (entitlements db)")
  case None
  let ?e = "new_entitlement now nid g"
  have ins: "insert_unique entitlement_clash ?e (entitlements db) = Some (entitlements db @ [?e])"
    using None by (auto simp: first_row_None insert_unique_def entitlement_clash_def new_entitlement_def same_grant_def)
  have "entitlements_tbl.unique_keys (entitlements db @ [?e])"
    using ok ins by (auto simp: entitlements_ok_def intro: entitlements_tbl.insert_keeps_unique)
  with ok src have "entitlements_ok (db\<lparr>entitlements := entitlements db @ [?e]\<rparr>)"
    by (auto simp: entitlements_ok_def new_entitlement_def)
  moreover have "same_grant g ?e" "en_revoked_at ?e = None" by (simp_all add: same_grant_def new_entitlement_def)
  ultimately show ?thesis using None ins by (auto simp: grant_access_def granted_def Let_def)
next
  case (Some e)
  then have e: "e \<in> set (entitlements db)" "same_grant g e" by (auto dest: first_row_Some)
  show ?thesis
  proof (cases "en_revoked_at e = None")
    case True
    with Some e ok show ?thesis by (auto simp: grant_access_def granted_def)
  next
    case False
    let ?f = "\<lambda>e. e\<lparr>en_revoked_at := None, en_granted_at := now\<rparr>"
    let ?t = "update_rows (\<lambda>x. en_id x = en_id e) ?f (entitlements db)"
    have u: "entitlements_tbl.unique_keys ?t"
      using ok by (auto simp: entitlements_ok_def intro!: entitlements_tbl.update_keeps_unique)
    have "entitlements_ok (db\<lparr>entitlements := ?t\<rparr>)" using ok u by (auto simp: entitlements_ok_def set_update_rows)
    moreover have "granted (db\<lparr>entitlements := ?t\<rparr>) g"
      unfolding granted_def by (rule bexI [of _ "?f e"]) (use e in \<open>auto simp: same_grant_def set_update_rows\<close>)
    moreover have "granted (db\<lparr>entitlements := ?t\<rparr>) h" if "granted db h" for h
    proof -
      from that obtain x where "x \<in> set (entitlements db)" "same_grant h x" "en_revoked_at x = None"
        by (auto simp: granted_def)
      then show ?thesis unfolding granted_def
        by (intro bexI [of _ "if en_id x = en_id e then ?f x else x"]) (auto simp: same_grant_def set_update_rows)
    qed
    ultimately show ?thesis using Some False by (auto simp: grant_access_def Let_def)
  qed
qed

lemma grant_books_ok:
  assumes "entitlements_ok db" and "\<forall>b \<in> set bs. load_grantable_book db b \<noteq> None"
  shows "\<exists>db' n. grant_books db now ids q bs c = Inr (db', n) \<and> entitlements_ok db'
     \<and> (\<forall>b \<in> set bs. granted db' (purchase_grant q b)) \<and> (\<forall>h. granted db h \<longrightarrow> granted db' h)
     \<and> books_tbl db' = books_tbl db \<and> processed_events db' = processed_events db"
  using assms
proof (induction bs arbitrary: db c)
  case (Cons b bs)
  from grant_access_ok [OF Cons.prems(1), of "purchase_grant q b" now "ids b"] obtain db1 e w where
    g: "grant_access db now (ids b) (purchase_grant q b) = Inr (db1, e, w)" "entitlements_ok db1"
      "granted db1 (purchase_grant q b)" "\<And>h. granted db h \<Longrightarrow> granted db1 h"
      "books_tbl db1 = books_tbl db" "processed_events db1 = processed_events db"
    by (auto simp: purchase_grant_def)
  have "\<forall>b \<in> set bs. load_grantable_book db1 b \<noteq> None"
    using Cons.prems(2) g(5) by (simp add: load_grantable_book_def)
  from Cons.IH [OF g(2) this, of "c + (if w then 1 else 0)"] obtain db2 n where
    "grant_books db1 now ids q bs (c + (if w then 1 else 0)) = Inr (db2, n)" "entitlements_ok db2"
    "\<forall>b \<in> set bs. granted db2 (purchase_grant q b)" "\<And>h. granted db1 h \<Longrightarrow> granted db2 h"
    "books_tbl db2 = books_tbl db1" "processed_events db2 = processed_events db1" by blast
  with g Cons.prems(2) show ?case by (cases "load_grantable_book db b") auto
qed simp

subsection \<open>Properties\<close>

text \<open>Deliveries on the bus, each with its clock and the ids its inserts draw.\<close>

fun consume_all ::
  "books_db \<Rightarrow> (timestamp \<times> (uuid \<Rightarrow> uuid) \<times> bus_event) list \<Rightarrow> books_db \<times> unit result list" where
  "consume_all db [] = (db, [])"
| "consume_all db ((now, ids, ev) # ds) =
     (case consume_grant db now ids ev of (db1, r) \<Rightarrow>
        (case consume_all db1 ds of (db2, rs) \<Rightarrow> (db2, r # rs)))"

definition unclaimed :: "books_db \<Rightarrow> bus_event \<Rightarrow> bool" where
  "unclaimed db ev \<longleftrightarrow> (\<forall>p \<in> set (processed_events db). fst p \<noteq> be_id ev)"

lemma consume_grant_step:
  assumes "entitlements_ok db" and "announces_order ord (be_payload ev)" and "valid_order_uuids ord"
    and "o_items ord \<noteq> []" and "\<forall>b \<in> set (order_book_ids ord). load_grantable_book db b \<noteq> None"
  obtains db' where "consume_grant db now ids ev = (db', Inr ())" "entitlements_ok db'"
    "books_tbl db' = books_tbl db" "\<And>h. granted db h \<Longrightarrow> granted db' h"
    "unclaimed db ev \<Longrightarrow> \<forall>b \<in> set (order_book_ids ord). granted db' (purchase_grant (order_grant ord) b)"
proof (cases "unclaimed db ev")
  case False
  then have "consume_grant db now ids ev = (db, Inr ())"
    by (auto simp: consume_grant_def handle_grant_event_def claim_event_def unclaimed_def)
  with False assms(1) that show ?thesis by blast
next
  case True
  let ?db1 = "db\<lparr>processed_events := processed_events db @ [(be_id ev, be_type ev)]\<rparr>"
  have 1: "entitlements_ok ?db1" using assms(1) by (simp add: entitlements_ok_def)
  have 2: "\<forall>b \<in> set (gq_book_ids (order_grant ord)). load_grantable_book ?db1 b \<noteq> None"
    using assms(5) by (simp add: order_grant_def load_grantable_book_def)
  from grant_books_ok [OF 1 2, of now ids "order_grant ord" 0] obtain db2 n where
    g: "grant_books ?db1 now ids (order_grant ord) (gq_book_ids (order_grant ord)) 0 = Inr (db2, n)"
      "entitlements_ok db2" "\<forall>b \<in> set (gq_book_ids (order_grant ord)). granted db2 (purchase_grant (order_grant ord) b)"
      "\<And>h. granted ?db1 h \<Longrightarrow> granted db2 h" "books_tbl db2 = books_tbl ?db1" by blast
  have "claim_event db ev = (?db1, True)" using True by (auto simp: claim_event_def unclaimed_def)
  then have "consume_grant db now ids ev = (db2, Inr ())"
    using g(1) parse_grant_of_order [OF assms(2-4)] by (simp add: consume_grant_def handle_grant_event_def)
  moreover have "granted ?db1 h = granted db h" for h by (simp add: granted_def)
  ultimately show ?thesis using that g by (simp add: order_grant_def)
qed

lemma consume_all_ok:
  assumes "entitlements_ok db" and "\<forall>(now, ids, ev) \<in> set ds. announces_order ord (be_payload ev)"
    and "valid_order_uuids ord" and "o_items ord \<noteq> []"
    and "\<forall>b \<in> set (order_book_ids ord). load_grantable_book db b \<noteq> None"
  shows "\<exists>db'. consume_all db ds = (db', replicate (length ds) (Inr ())) \<and> entitlements_ok db'
    \<and> books_tbl db' = books_tbl db \<and> (\<forall>h. granted db h \<longrightarrow> granted db' h)
    \<and> (ds \<noteq> [] \<and> unclaimed db (snd (snd (hd ds))) \<longrightarrow>
         (\<forall>b \<in> set (order_book_ids ord). granted db' (purchase_grant (order_grant ord) b)))"
  using assms(1,2,5)
proof (induction ds arbitrary: db)
  case (Cons d ds)
  obtain now ids ev where d: "d = (now, ids, ev)" by (metis prod_cases3)
  have "announces_order ord (be_payload ev)" using Cons.prems(2) d by simp
  from consume_grant_step [OF Cons.prems(1) this assms(3,4) Cons.prems(3), of now ids] obtain db1 where
    s: "consume_grant db now ids ev = (db1, Inr ())" "entitlements_ok db1" "books_tbl db1 = books_tbl db"
      "\<And>h. granted db h \<Longrightarrow> granted db1 h"
      "unclaimed db ev \<Longrightarrow> \<forall>b \<in> set (order_book_ids ord). granted db1 (purchase_grant (order_grant ord) b)"
    by blast
  have "\<forall>(now, ids, ev) \<in> set ds. announces_order ord (be_payload ev)" using Cons.prems(2) by simp
  moreover have "\<forall>b \<in> set (order_book_ids ord). load_grantable_book db1 b \<noteq> None"
    using Cons.prems(3) s(3) by (simp add: load_grantable_book_def)
  ultimately obtain db2 where
    "consume_all db1 ds = (db2, replicate (length ds) (Inr ()))" "entitlements_ok db2" "books_tbl db2 = books_tbl db1"
    "\<forall>h. granted db1 h \<longrightarrow> granted db2 h"
    using Cons.IH [OF s(2)] by blast
  with s show ?case by (auto simp: d)
qed simp

lemma granted_access:
  assumes "entitlements_ok db" and "granted db (purchase_grant q b)"
  shows "count_rows (same_grant (purchase_grant q b)) (entitlements db) = 1"
    and "bk_id bk = b \<Longrightarrow> \<exists>a. require_download db free now (gq_user_id q) bk = Inr a"
proof -
  from assms(2) obtain e where e: "e \<in> set (entitlements db)" "same_grant (purchase_grant q b) e" "en_revoked_at e = None"
    by (auto simp: granted_def)
  have uniq: "x = e" if "x \<in> set (entitlements db)" "same_grant (purchase_grant q b) x" for x
    by (rule entitlements_tbl.unique_key_eq [of "entitlements db"])
      (use assms(1) that e in \<open>simp_all add: entitlements_ok_def same_grant_def\<close>)
  have "distinct (entitlements db)"
    using assms(1) by (auto simp: entitlements_ok_def entitlements_tbl.unique_keys_def distinct_map)
  moreover have "set (filter (same_grant (purchase_grant q b)) (entitlements db)) = {e}"
  proof (intro equalityI subsetI)
    fix x assume "x \<in> set (filter (same_grant (purchase_grant q b)) (entitlements db))"
    then have "x = e" by (intro uniq) simp_all
    then show "x \<in> {e}" by simp
  qed (use e in simp)
  ultimately show "count_rows (same_grant (purchase_grant q b)) (entitlements db) = 1"
    unfolding count_rows_def
    using distinct_card [of "filter (same_grant (purchase_grant q b)) (entitlements db)"] by simp
  assume b: "bk_id bk = b"
  let ?live = "filter (\<lambda>x. en_user_id x = gq_user_id q \<and> en_book_id x = b \<and> active_grant now x) (entitlements db)"
  have src: "en_expires_at e = None" "en_can_download e"
    using assms(1) e by (auto simp: entitlements_ok_def same_grant_def purchase_grant_def)
  then have live: "e \<in> set ?live" using e by (auto simp: active_grant_def same_grant_def purchase_grant_def)
  then have "?live \<noteq> []" by (rule list.set_cases) simp_all
  then obtain m where m: "find_active db now (gq_user_id q) b = Some m"
    unfolding find_active_def by fastforce
  note top = max_row_Some [OF m [unfolded find_active_def]]
  then have "m \<in> set (entitlements db)" by simp
  with assms(1) have "en_can_read m" by (simp add: entitlements_ok_def)
  moreover have "(if en_can_download e then 1 else 0 :: nat, en_granted_at e)
      \<le> (if en_can_download m then 1 else 0, en_granted_at m)"
    using conjunct2 [OF top] live by (rule bspec)
  then have "en_can_download m" using src(2) by (simp split: if_splits)
  ultimately have "en_can_read m" "en_can_download m" by simp_all
  with m b show "\<exists>a. require_download db free now (gq_user_id q) bk = Inr a"
    by (simp add: require_download_def require_read_def book_access_def Let_def)
qed

text \<open>
  C3: A paid order opens its books, once. The payment service announces a paid order in two
  messages, and the bus delivers each any number of times, in any order, possibly retried
  under new event ids. After any such sequence of deliveries, of which the first was not
  seen before, every delivery was handled without error, the buyer may read and download
  every book of the order at any later time, and for each of those books there is exactly
  one grant for this order: the message the payment service sends is read back as exactly
  this order's buyer and books.
\<close>

theorem paid_order_opens_its_books:
  assumes "entitlements_ok db" and "valid_order_uuids ord" and "ds \<noteq> []" and "i \<in> set (o_items ord)"
    and "\<forall>(now, ids, ev) \<in> set ds. \<exists>pub res t. sr_order res = ord \<and> (t, be_payload ev) \<in> set (announce_paid pub res)"
    and "unclaimed db (snd (snd (hd ds)))"
    and "\<forall>b \<in> set (order_book_ids ord). load_grantable_book db b \<noteq> None"
    and "consume_all db ds = (db', rs)" and "bk_id bk = oi_book_id i"
  shows "rs = replicate (length ds) (Inr ())
     \<and> (\<exists>a. require_download db' free now (o_user_id ord) bk = Inr a)
     \<and> count_rows (\<lambda>e. en_user_id e = o_user_id ord \<and> en_book_id e = oi_book_id i \<and> en_source e = SrcPurchase
          \<and> en_external_ref e = str_uuid (o_id ord)) (entitlements db') = 1"
proof -
  have "\<forall>(now, ids, ev) \<in> set ds. announces_order ord (be_payload ev)"
    using assms(5) announced_messages by fastforce
  moreover have "o_items ord \<noteq> []" using assms(4) by auto
  ultimately obtain d where d: "consume_all db ds = (d, replicate (length ds) (Inr ()))" "entitlements_ok d"
      "\<forall>b \<in> set (order_book_ids ord). granted d (purchase_grant (order_grant ord) b)"
    using consume_all_ok [OF assms(1) _ assms(2) _ assms(7), of ds] assms(3,6) by blast
  have b: "oi_book_id i \<in> set (order_book_ids ord)" using assms(4) by (simp add: order_book_ids_def)
  have eq: "d = db'" "rs = replicate (length ds) (Inr ())" using d(1) assms(8) by simp_all
  note g = granted_access [OF d(2) d(3) [rule_format, OF b]]
  have "same_grant (purchase_grant (order_grant ord) (oi_book_id i)) =
      (\<lambda>e. en_user_id e = o_user_id ord \<and> en_book_id e = oi_book_id i \<and> en_source e = SrcPurchase
          \<and> en_external_ref e = str_uuid (o_id ord))"
    by (rule ext) (simp add: same_grant_def purchase_grant_def order_grant_def)
  with g(1) g(2) [OF assms(9)] eq show ?thesis by (simp add: order_grant_def)
qed

definition sample_book_row :: book_row where
  "sample_book_row = \<lparr>bk_id = 7, bk_price_minor = 1000, bk_discount_price_minor = None,
     bk_status = BookPublished, bk_deleted_at = None\<rparr>"

definition sample_books_db :: books_db where
  "sample_books_db = \<lparr>books_tbl = [sample_book_row], entitlements = [], processed_events = []\<rparr>"

definition sample_bus_event :: "string \<Rightarrow> bus_event" where
  "sample_bus_event eid = \<lparr>be_id = eid, be_type = ''order.paid'', be_payload = order_event_payload sample_order\<rparr>"

theorem paid_order_opens_its_books_witness:
  "\<exists>db' rs a. consume_all sample_books_db [(1, (\<lambda>b. b), sample_bus_event ''e1''), (2, (\<lambda>b. b), sample_bus_event ''e2'')]
      = (db', rs) \<and> require_download db' True 5 9 sample_book_row = Inr a
    \<and> count_rows (\<lambda>e. en_user_id e = 9 \<and> en_book_id e = 7 \<and> en_source e = SrcPurchase
        \<and> en_external_ref e = str_uuid 40) (entitlements db') = 1"
proof -
  let ?ds = "[(1 :: int, (\<lambda>b :: uuid. b), sample_bus_event ''e1''), (2, (\<lambda>b. b), sample_bus_event ''e2'')]"
  obtain db' rs where c: "consume_all sample_books_db ?ds = (db', rs)" by fastforce
  have 1: "entitlements_ok sample_books_db" by (simp add: entitlements_ok_def sample_books_db_def)
  have 2: "valid_order_uuids sample_order" by (simp add: valid_order_uuids_def sample_order_def valid_uuid_def)
  let ?res = "\<lparr>sr_order = sample_order, sr_payment = None, sr_invoice = None, sr_newly_paid = True\<rparr>"
  have "(''order.paid'', order_event_payload sample_order) \<in> set (announce_paid (Some (\<lambda>_ _. True)) ?res)"
    by (simp add: announce_paid_def Let_def)
  then have "\<exists>pub res t. sr_order res = sample_order \<and> (t, order_event_payload sample_order) \<in> set (announce_paid pub res)"
    by (intro exI [of _ "Some (\<lambda>_ _. True)"] exI [of _ ?res] exI [of _ "''order.paid''"]) simp
  then have 3: "\<forall>(now, ids, ev) \<in> set ?ds. \<exists>pub res t. sr_order res = sample_order
      \<and> (t, be_payload ev) \<in> set (announce_paid pub res)" by (simp add: sample_bus_event_def)
  have 4: "unclaimed sample_books_db (snd (snd (hd ?ds)))" by (simp add: unclaimed_def sample_books_db_def)
  have i: "hd (o_items sample_order) \<in> set (o_items sample_order)" "oi_book_id (hd (o_items sample_order)) = 7"
    "o_user_id sample_order = 9" "o_id sample_order = 40" "order_book_ids sample_order = [7]"
    by (simp_all add: sample_order_def order_book_ids_def)
  have 5: "\<forall>b \<in> set (order_book_ids sample_order). load_grantable_book sample_books_db b \<noteq> None"
    by (simp add: i load_grantable_book_def sample_books_db_def sample_book_row_def)
  from paid_order_opens_its_books [OF 1 2 _ i(1) 3 4 5 c, of sample_book_row True 5] c show ?thesis
    by (auto simp: i sample_book_row_def)
qed

end
