(* ===== verification/Event_Bus.thy ===== *)
theory Event_Bus
  imports Json Core_Errors
begin

section \<open>The event bus\<close>

text \<open>
  \<open>packages/core-py/knowledgeos_core/events.py\<close>: the event envelope and its stream fields,
  publication, and the consumer-group reader with acknowledgement, recovery of stalled
  messages, retry and the dead-letter stream. A Redis stream is the list of its entries with
  increasing ids; a consumer group keeps the last id it delivered and, for every delivered
  and unacknowledged entry, its owner and how often it was delivered. Which pending entries
  have been idle long enough is a parameter of the sweep; the JSON text of a payload is kept
  as the parsed value, or as \<open>None\<close> when it is not JSON; trimming is left out. A service's
  handlers are parameters over the service's state.
\<close>

subsection \<open>Events and fields\<close>

record event =
  ev_type :: string
  ev_payload :: json
  ev_id :: string
  ev_source :: string
  ev_correlation_id :: "string option"
  ev_occurred_at :: string
  ev_version :: int

text \<open>\<open>Event.__post_init__\<close>: the id, time and correlation an event draws when it has none.\<close>

definition complete_event :: "string \<Rightarrow> string \<Rightarrow> string option \<Rightarrow> event \<Rightarrow> event" where
  "complete_event fresh_id now request_id ev =
     ev\<lparr>ev_id := (if ev_id ev = [] then fresh_id else ev_id ev),
        ev_occurred_at := (if ev_occurred_at ev = [] then now else ev_occurred_at ev),
        ev_correlation_id := (case ev_correlation_id ev of None \<Rightarrow> request_id | c \<Rightarrow> c)\<rparr>"

record event_fields =
  ef_id :: string
  ef_type :: string
  ef_source :: string
  ef_version :: string
  ef_occurred_at :: string
  ef_correlation_id :: string
  ef_payload :: "json option"

definition to_fields :: "event \<Rightarrow> event_fields" where
  "to_fields ev = \<lparr>ef_id = ev_id ev, ef_type = ev_type ev, ef_source = ev_source ev,
     ef_version = str_int (ev_version ev), ef_occurred_at = ev_occurred_at ev,
     ef_correlation_id = opt_default (ev_correlation_id ev) '''', ef_payload = Some (ev_payload ev)\<rparr>"

definition from_fields :: "string \<Rightarrow> string \<Rightarrow> string option \<Rightarrow> event_fields \<Rightarrow> event result" where
  "from_fields fresh_id now request_id f =
     (case py_int (if ef_version f = [] then ''1'' else ef_version f) of
        None \<Rightarrow> Inl (PyExn ''ValueError'')
      | Some v \<Rightarrow>
          Inr (complete_event fresh_id now request_id
            \<lparr>ev_type = ef_type f,
             ev_payload = (case ef_payload f of Some p \<Rightarrow> p | None \<Rightarrow> JObj [(''_malformed'', JStr '''')]),
             ev_id = ef_id f, ev_source = ef_source f,
             ev_correlation_id = (if ef_correlation_id f = [] then None else Some (ef_correlation_id f)),
             ev_occurred_at = ef_occurred_at f, ev_version = v\<rparr>))"

subsection \<open>Stream and group\<close>

record pending_entry =
  pe_msg :: nat
  pe_consumer :: string
  pe_times_delivered :: nat

record bus =
  bs_entries :: "(nat \<times> event_fields) list"
  bs_last_delivered :: nat
  bs_pending :: "pending_entry list"
  bs_dead :: "(event_fields \<times> exn) list"

definition empty_bus :: bus where
  "empty_bus = \<lparr>bs_entries = [], bs_last_delivered = 0, bs_pending = [], bs_dead = []\<rparr>"

definition publish_event :: "bus \<Rightarrow> event \<Rightarrow> bus" where
  "publish_event b ev =
     b\<lparr>bs_entries := bs_entries b @ [(Suc (max (bs_last_delivered b) (Max (insert 0 (fst ` set (bs_entries b))))), to_fields ev)]\<rparr>"

text \<open>\<open>XREADGROUP ... >\<close>: the next entries the group has not seen, now pending for this consumer.\<close>

definition read_group :: "bus \<Rightarrow> string \<Rightarrow> nat \<Rightarrow> bus \<times> (nat \<times> event_fields) list" where
  "read_group b consumer count =
     (let ms = take count (filter (\<lambda>(i, f). bs_last_delivered b < i) (bs_entries b))
      in (b\<lparr>bs_last_delivered := (if ms = [] then bs_last_delivered b else fst (last ms)),
            bs_pending := bs_pending b @ map (\<lambda>(i, f). \<lparr>pe_msg = i, pe_consumer = consumer, pe_times_delivered = 1\<rparr>) ms\<rparr>,
          ms))"

text \<open>\<open>XAUTOCLAIM\<close>: idle pending entries change owner and count one more delivery.\<close>

definition auto_claim :: "bus \<Rightarrow> string \<Rightarrow> (nat \<Rightarrow> bool) \<Rightarrow> nat \<Rightarrow> bus \<times> (nat \<times> event_fields) list" where
  "auto_claim b consumer idle count =
     (let ids = take count (map pe_msg (filter (\<lambda>p. idle (pe_msg p)) (bs_pending b)))
      in (b\<lparr>bs_pending := update_rows (\<lambda>p. pe_msg p \<in> set ids)
              (\<lambda>p. p\<lparr>pe_consumer := consumer, pe_times_delivered := pe_times_delivered p + 1\<rparr>) (bs_pending b)\<rparr>,
          filter (\<lambda>(i, f). i \<in> set ids) (bs_entries b)))"

definition ack :: "bus \<Rightarrow> nat \<Rightarrow> bus" where
  "ack b i = b\<lparr>bs_pending := delete_rows (\<lambda>p. pe_msg p = i) (bs_pending b)\<rparr>"

subsection \<open>The consumer\<close>

type_synonym 's handlers = "(string \<times> ('s \<Rightarrow> event \<Rightarrow> 's \<times> unit result) list) list"

definition handlers_for :: "'s handlers \<Rightarrow> string \<Rightarrow> ('s \<Rightarrow> event \<Rightarrow> 's \<times> unit result) list" where
  "handlers_for hs t = opt_default (map_of hs t) [] @ opt_default (map_of hs ''*'') []"

fun run_handlers :: "('s \<Rightarrow> event \<Rightarrow> 's \<times> unit result) list \<Rightarrow> 's \<Rightarrow> event \<Rightarrow> 's \<times> unit result" where
  "run_handlers [] s ev = (s, Inr ())"
| "run_handlers (h # hs) s ev =
     (case h s ev of (s1, Inl e) \<Rightarrow> (s1, Inl e) | (s1, Inr _) \<Rightarrow> run_handlers hs s1 ev)"

definition dispatch_event :: "'s handlers \<Rightarrow> 's \<Rightarrow> event \<Rightarrow> 's \<times> unit result" where
  "dispatch_event hs s ev = run_handlers (handlers_for hs (ev_type ev)) s ev"

record draws =
  dr_fresh_id :: string
  dr_now :: string
  dr_request_id :: "string option"

datatype outcome = Handled nat | DeadLettered nat | LeftPending nat

definition attempts_of :: "bus \<Rightarrow> nat \<Rightarrow> nat" where
  "attempts_of b i = (case first_row (\<lambda>p. pe_msg p = i) (bs_pending b) of None \<Rightarrow> 1 | Some p \<Rightarrow> pe_times_delivered p)"

definition handle_message ::
  "nat \<Rightarrow> 's handlers \<Rightarrow> draws \<Rightarrow> 's \<Rightarrow> bus \<Rightarrow> nat \<times> event_fields \<Rightarrow> ('s \<times> bus \<times> outcome) result" where
  "handle_message max_attempts hs d s b m =
     (case from_fields (dr_fresh_id d) (dr_now d) (dr_request_id d) (snd m) of Inl e \<Rightarrow> Inl e
      | Inr ev \<Rightarrow>
          (case dispatch_event hs s ev of
             (s1, Inr _) \<Rightarrow> Inr (s1, ack b (fst m), Handled (fst m))
           | (s1, Inl e) \<Rightarrow>
               if attempts_of b (fst m) \<ge> max_attempts
               then Inr (s1, ack (b\<lparr>bs_dead := bs_dead b @ [(to_fields ev, e)]\<rparr>) (fst m), DeadLettered (fst m))
               else Inr (s1, b, LeftPending (fst m))))"

text \<open>A batch: a message whose fields cannot be read raises and ends it.\<close>

fun handle_batch ::
  "nat \<Rightarrow> 's handlers \<Rightarrow> draws \<Rightarrow> 's \<Rightarrow> bus \<Rightarrow> (nat \<times> event_fields) list \<Rightarrow> 's \<times> bus \<times> outcome list" where
  "handle_batch n hs d s b [] = (s, b, [])"
| "handle_batch n hs d s b (m # ms) =
     (case handle_message n hs d s b m of Inl _ \<Rightarrow> (s, b, [])
      | Inr (s1, b1, r) \<Rightarrow> (case handle_batch n hs d s1 b1 ms of (s2, b2, rs) \<Rightarrow> (s2, b2, r # rs)))"

definition read_tick ::
  "nat \<Rightarrow> nat \<Rightarrow> 's handlers \<Rightarrow> draws \<Rightarrow> string \<Rightarrow> 's \<Rightarrow> bus \<Rightarrow> 's \<times> bus \<times> outcome list" where
  "read_tick n batch_size hs d consumer s b =
     (let (b1, ms) = read_group b consumer batch_size in handle_batch n hs d s b1 ms)"

definition reclaim_stalled ::
  "nat \<Rightarrow> nat \<Rightarrow> 's handlers \<Rightarrow> draws \<Rightarrow> string \<Rightarrow> (nat \<Rightarrow> bool) \<Rightarrow> 's \<Rightarrow> bus \<Rightarrow> 's \<times> bus \<times> outcome list" where
  "reclaim_stalled n batch_size hs d consumer idle s b =
     (let (b1, ms) = auto_claim b consumer idle batch_size in handle_batch n hs d s b1 ms)"

text \<open>\<open>XGROUP DELCONSUMER\<close> drops the consumer's pending entries with it.\<close>

definition stop_consumer :: "bus \<Rightarrow> string \<Rightarrow> bus" where
  "stop_consumer b consumer = b\<lparr>bs_pending := delete_rows (\<lambda>p. pe_consumer p = consumer) (bs_pending b)\<rparr>"

subsection \<open>Lemmas: every delivered message is accounted for\<close>

text \<open>
  The replicas of a group run the same handlers \<open>hs\<close>. A message was served when its handlers
  ran to the end in the history that led from \<open>s0\<close> to \<open>s\<close>, and it is parked when they raised
  there and what they were given stands on the dead-letter stream with the error.
\<close>

inductive bus_run :: "nat \<Rightarrow> 's handlers \<Rightarrow> 's \<times> bus \<Rightarrow> 's \<times> bus \<Rightarrow> bool" for n hs where
  start: "bus_run n hs c c"
| published: "bus_run n hs c (s, b) \<Longrightarrow> bus_run n hs c (s, publish_event b ev)"
| read: "bus_run n hs c (s, b) \<Longrightarrow> read_tick n k hs d consumer s b = (s', b', rs) \<Longrightarrow> bus_run n hs c (s', b')"
| reclaimed: "bus_run n hs c (s, b) \<Longrightarrow> reclaim_stalled n k hs d consumer idle s b = (s', b', rs) \<Longrightarrow> bus_run n hs c (s', b')"

definition entry_ids :: "bus \<Rightarrow> nat list" where
  "entry_ids b = map fst (bs_entries b)"

definition pending_ids :: "bus \<Rightarrow> nat list" where
  "pending_ids b = map pe_msg (bs_pending b)"

definition reads_as :: "event_fields \<Rightarrow> event \<Rightarrow> bool" where
  "reads_as f ev \<longleftrightarrow> (\<exists>d :: draws. from_fields (dr_fresh_id d) (dr_now d) (dr_request_id d) f = Inr ev)"

definition dispatched :: "'s handlers \<Rightarrow> 's \<Rightarrow> 's \<Rightarrow> bool" where
  "dispatched hs = (\<lambda>s s'. \<exists>ev r. dispatch_event hs s ev = (s', r))\<^sup>*\<^sup>*"

definition served :: "'s handlers \<Rightarrow> 's \<Rightarrow> 's \<Rightarrow> event_fields \<Rightarrow> bool" where
  "served hs s0 s f \<longleftrightarrow> (\<exists>ev s1 s2. reads_as f ev \<and> dispatched hs s0 s1 \<and> dispatch_event hs s1 ev = (s2, Inr ()) \<and> dispatched hs s2 s)"

definition parked :: "'s handlers \<Rightarrow> 's \<Rightarrow> 's \<Rightarrow> (event_fields \<times> exn) list \<Rightarrow> event_fields \<Rightarrow> bool" where
  "parked hs s0 s dead f \<longleftrightarrow> (\<exists>ev s1 s2 e. reads_as f ev \<and> dispatched hs s0 s1 \<and> dispatch_event hs s1 ev = (s2, Inl e)
     \<and> dispatched hs s2 s \<and> (to_fields ev, e) \<in> set dead)"

definition accounted :: "'s handlers \<Rightarrow> 's \<Rightarrow> 's \<Rightarrow> bus \<Rightarrow> bool" where
  "accounted hs s0 s b \<longleftrightarrow> dispatched hs s0 s \<and> distinct (entry_ids b) \<and> (\<forall>(i, f) \<in> set (bs_entries b). i \<le> bs_last_delivered b \<longrightarrow>
     i \<in> set (pending_ids b) \<or> served hs s0 s f \<or> parked hs s0 s (bs_dead b) f)"

lemma ack_simps [simp]:
  "bs_entries (ack b i) = bs_entries b" "bs_last_delivered (ack b i) = bs_last_delivered b" "bs_dead (ack b i) = bs_dead b"
  "pending_ids (ack b i) = filter (\<lambda>j. j \<noteq> i) (pending_ids b)"
  by (simp_all add: ack_def delete_rows_def pending_ids_def filter_map o_def)

lemma dead_simps [simp]: "pending_ids (b\<lparr>bs_dead := x\<rparr>) = pending_ids b"
  by (simp add: pending_ids_def)

lemma parked_more: "parked hs s0 s dead f \<Longrightarrow> parked hs s0 s (dead @ more_dead) f"
  by (auto simp: parked_def)

lemma dispatched_step: "dispatched hs s0 s \<Longrightarrow> dispatch_event hs s ev = (s', r) \<Longrightarrow> dispatched hs s0 s'"
  unfolding dispatched_def by (rule rtranclp.rtrancl_into_rtrancl) auto

lemma dispatched_refl [simp]: "dispatched hs s s"
  by (simp add: dispatched_def)

lemma servedI: "reads_as f ev \<Longrightarrow> dispatched hs s0 s \<Longrightarrow> dispatch_event hs s ev = (s', Inr ()) \<Longrightarrow> served hs s0 s' f"
  unfolding served_def using dispatched_refl [of hs s'] by blast

lemma parkedI:
  "reads_as f ev \<Longrightarrow> dispatched hs s0 s \<Longrightarrow> dispatch_event hs s ev = (s', Inl e) \<Longrightarrow> parked hs s0 s' (dead @ [(to_fields ev, e)]) f"
  unfolding parked_def using dispatched_refl [of hs s'] by fastforce

lemma accounted_step:
  "accounted hs s0 s b \<Longrightarrow> dispatch_event hs s ev = (s', r) \<Longrightarrow> accounted hs s0 s' b"
  unfolding accounted_def served_def parked_def using dispatched_step [of hs _ s ev s' r] by blast

lemma accountedD:
  "accounted hs s0 s b \<Longrightarrow> (i, f) \<in> set (bs_entries b) \<Longrightarrow> i \<le> bs_last_delivered b
     \<Longrightarrow> i \<in> set (pending_ids b) \<or> served hs s0 s f \<or> parked hs s0 s (bs_dead b) f"
  by (auto simp: accounted_def)

lemma accounted_ack:
  assumes "accounted hs s0 s b" and "(i, f) \<in> set (bs_entries b)" and "served hs s0 s f \<or> parked hs s0 s (bs_dead b @ x) f"
  shows "accounted hs s0 s (ack (b\<lparr>bs_dead := bs_dead b @ x\<rparr>) i)"
proof -
  have ids: "distinct (map fst (bs_entries b))" using assms(1) by (simp add: accounted_def entry_ids_def)
  have "j \<in> set (pending_ids b) \<and> j \<noteq> i \<or> served hs s0 s g \<or> parked hs s0 s (bs_dead b @ x) g"
    if j: "(j, g) \<in> set (bs_entries b)" "j \<le> bs_last_delivered b" for j g
  proof (cases "j = i")
    case True
    then have "g = f" using ids assms(2) j(1) by (auto intro: eq_key_imp_eq_value)
    then show ?thesis using assms(3) by simp
  next
    case False
    then show ?thesis using accountedD [OF assms(1) j] parked_more [of hs s0 s "bs_dead b" g x] by auto
  qed
  then show ?thesis using ids assms(1) by (auto simp: accounted_def entry_ids_def)
qed

lemma handle_message_accounted:
  assumes "handle_message n hs d s b (i, f) = Inr (s', b', r)" and "accounted hs s0 s b" and "(i, f) \<in> set (bs_entries b)"
  shows "accounted hs s0 s' b'" and "bs_entries b' = bs_entries b"
proof -
  obtain ev where ev: "from_fields (dr_fresh_id d) (dr_now d) (dr_request_id d) f = Inr ev"
    using assms(1) by (auto simp: handle_message_def split: sum.splits)
  then have reads: "reads_as f ev" by (auto simp: reads_as_def)
  obtain s1 out where out: "dispatch_event hs s ev = (s1, out)" by fastforce
  then have s1: "s' = s1" using assms(1) ev by (cases out) (auto simp: handle_message_def split: if_splits)
  have moved: "accounted hs s0 s' b" unfolding s1 by (rule accounted_step [OF assms(2) out])
  have before: "dispatched hs s0 s" using assms(2) by (simp add: accounted_def)
  consider (ok) "out = Inr ()" "b' = ack b i" | (dead) e where "out = Inl e" "b' = ack (b\<lparr>bs_dead := bs_dead b @ [(to_fields ev, e)]\<rparr>) i"
    | (left) "b' = b"
    using assms(1) ev out by (cases out) (auto simp: handle_message_def split: if_splits)
  then have "accounted hs s0 s' b' \<and> bs_entries b' = bs_entries b"
  proof cases
    case ok
    then have "served hs s0 s' f" using servedI [OF reads before] out s1 by simp
    then show ?thesis using accounted_ack [OF moved assms(3), of "[]"] ok by simp
  next
    case dead
    then have "parked hs s0 s' (bs_dead b @ [(to_fields ev, e)]) f" using parkedI [OF reads before] out s1 by simp
    then show ?thesis using accounted_ack [OF moved assms(3)] dead by simp
  next
    case left
    then show ?thesis using moved by simp
  qed
  then show "accounted hs s0 s' b'" and "bs_entries b' = bs_entries b" by simp_all
qed

lemma handle_batch_accounted:
  "handle_batch n hs d s b ms = (s', b', rs) \<Longrightarrow> accounted hs s0 s b \<Longrightarrow> set ms \<subseteq> set (bs_entries b) \<Longrightarrow>
     accounted hs s0 s' b' \<and> bs_entries b' = bs_entries b"
proof (induction ms arbitrary: s b rs)
  case (Cons m ms)
  show ?case
  proof (cases "handle_message n hs d s b m")
    case (Inr y)
    obtain s1 b1 r where y: "y = (s1, b1, r)" by (metis prod_cases3)
    with Cons.prems(1) Inr obtain rs' where rest: "handle_batch n hs d s1 b1 ms = (s', b', rs')"
      by (auto split: prod.splits)
    obtain i f where m: "m = (i, f)" by fastforce
    have "(i, f) \<in> set (bs_entries b)" using Cons.prems(3) m by simp
    note one = handle_message_accounted [OF Inr [unfolded y m] Cons.prems(2) this]
    from Cons.IH [OF rest one(1)] one(2) Cons.prems(3) show ?thesis by simp
  qed (use Cons.prems in simp)
qed simp

lemma map_fst_filter: "map fst (filter (\<lambda>(i, f). P i) xs) = filter P (map fst xs)"
  by (induction xs) auto

lemma read_group_accounted:
  assumes "read_group b consumer k = (b', ms)" and "accounted hs s0 s b" and "sorted (entry_ids b)"
  shows "accounted hs s0 s b'" and "bs_entries b' = bs_entries b" and "set ms \<subseteq> set (bs_entries b)"
proof -
  let ?new = "filter (\<lambda>i. bs_last_delivered b < i) (entry_ids b)"
  have ms: "map fst ms = take k ?new" and e: "bs_entries b' = bs_entries b" and dead: "bs_dead b' = bs_dead b"
    and l: "bs_last_delivered b' = (if ms = [] then bs_last_delivered b else fst (last ms))"
    and p: "pending_ids b' = pending_ids b @ map fst ms"
    using assms(1) map_fst_filter [of "\<lambda>i. bs_last_delivered b < i" "bs_entries b"]
    by (auto simp: read_group_def Let_def entry_ids_def pending_ids_def simp flip: take_map)
      (simp_all add: case_prod_unfold o_def)
  show "bs_entries b' = bs_entries b" by (rule e)
  show "set ms \<subseteq> set (bs_entries b)" using assms(1) by (auto simp: read_group_def Let_def dest: in_set_takeD)
  have srt: "sorted ?new" using assms(3) by (rule sorted_wrt_filter)
  have new: "i \<in> set (map fst ms)" if i: "i \<in> set (entry_ids b)" "bs_last_delivered b < i" "i \<le> bs_last_delivered b'" for i
  proof (rule ccontr)
    assume no: "i \<notin> set (map fst ms)"
    have ne: "map fst ms \<noteq> []" using i(2,3) l by auto
    have "i \<in> set ?new" using i by simp
    moreover have "?new = map fst ms @ drop k ?new" by (simp add: ms)
    ultimately have "i \<in> set (drop k ?new)" using no by (metis Un_iff set_append)
    then have "last (map fst ms) \<le> i"
      using srt \<open>?new = map fst ms @ drop k ?new\<close> ne by (metis last_in_set sorted_append)
    with i(3) l ne have "i = last (map fst ms)" by (simp add: last_map)
    with no last_in_set [OF ne] show False by simp
  qed
  have "i \<in> set (pending_ids b') \<or> served hs s0 s f \<or> parked hs s0 s (bs_dead b') f"
    if "(i, f) \<in> set (bs_entries b)" "i \<le> bs_last_delivered b'" for i f
  proof (cases "i \<le> bs_last_delivered b")
    case True
    then show ?thesis using assms(2) that(1) by (auto simp: accounted_def p dead)
  next
    case False
    then have "i \<in> set (map fst ms)" using new that by (force simp: entry_ids_def)
    then show ?thesis by (simp add: p)
  qed
  then show "accounted hs s0 s b'" using assms(2) by (auto simp: accounted_def e entry_ids_def)
qed

lemma auto_claim_accounted:
  assumes "auto_claim b consumer idle k = (b', ms)" and "accounted hs s0 s b"
  shows "accounted hs s0 s b'" and "bs_entries b' = bs_entries b" and "set ms \<subseteq> set (bs_entries b)"
proof -
  have b': "pending_ids b' = pending_ids b" "bs_entries b' = bs_entries b" "bs_last_delivered b' = bs_last_delivered b"
      "bs_dead b' = bs_dead b" and ms: "set ms \<subseteq> set (bs_entries b)"
    using assms(1) by (auto simp: auto_claim_def Let_def pending_ids_def map_update_rows)
  then show "accounted hs s0 s b'" and "bs_entries b' = bs_entries b" and "set ms \<subseteq> set (bs_entries b)"
    using assms(2) by (simp_all add: accounted_def entry_ids_def)
qed

lemma publish_accounted:
  assumes "accounted hs s0 s b" and "sorted (entry_ids b)"
  shows "accounted hs s0 s (publish_event b ev)" and "sorted (entry_ids (publish_event b ev))"
proof -
  define j where "j = Suc (max (bs_last_delivered b) (Max (insert 0 (fst ` set (bs_entries b)))))"
  have e: "bs_entries (publish_event b ev) = bs_entries b @ [(j, to_fields ev)]" "pending_ids (publish_event b ev) = pending_ids b"
    "bs_last_delivered (publish_event b ev) = bs_last_delivered b" "bs_dead (publish_event b ev) = bs_dead b"
    by (simp_all add: publish_event_def pending_ids_def j_def)
  have lt: "i < j" if "i \<in> set (entry_ids b)" for i
  proof -
    have "i \<le> Max (insert 0 (fst ` set (bs_entries b)))" using that by (intro Max_ge) (auto simp: entry_ids_def)
    then show ?thesis by (simp add: j_def)
  qed
  then show "sorted (entry_ids (publish_event b ev))" using assms(2) by (auto simp: entry_ids_def e sorted_append less_imp_le)
  have "j \<notin> set (entry_ids b)" "\<not> j \<le> bs_last_delivered b" using lt by (auto simp: j_def)
  then show "accounted hs s0 s (publish_event b ev)" using assms(1) by (auto simp: accounted_def entry_ids_def e)
qed

lemma bus_run_accounted:
  assumes "bus_run n hs c c'" and "accounted hs s0 (fst c) (snd c)" and "sorted (entry_ids (snd c))"
  shows "accounted hs s0 (fst c') (snd c') \<and> sorted (entry_ids (snd c'))"
  using assms
proof (induction rule: bus_run.induct)
  case (published c s b ev)
  then show ?case using publish_accounted [of hs s0 s b ev] by simp
next
  case (read c s b k d consumer s' b' rs)
  obtain b1 ms where g: "read_group b consumer k = (b1, ms)" by fastforce
  with read(2) have h: "handle_batch n hs d s b1 ms = (s', b', rs)" by (simp add: read_tick_def)
  have a: "accounted hs s0 s b" "sorted (entry_ids b)" using read.IH read.prems by simp_all
  note r = read_group_accounted [OF g a]
  from handle_batch_accounted [OF h r(1)] r(2,3) a(2) show ?case by (simp add: entry_ids_def)
next
  case (reclaimed c s b k d consumer idle s' b' rs)
  obtain b1 ms where g: "auto_claim b consumer idle k = (b1, ms)" by fastforce
  with reclaimed(2) have h: "handle_batch n hs d s b1 ms = (s', b', rs)" by (simp add: reclaim_stalled_def)
  have a: "accounted hs s0 s b" "sorted (entry_ids b)" using reclaimed.IH reclaimed.prems by simp_all
  note r = auto_claim_accounted [OF g a(1)]
  from handle_batch_accounted [OF h r(1)] r(2,3) a(2) show ?case by (simp add: entry_ids_def)
qed simp

subsection \<open>Properties\<close>

text \<open>
  C16: The bus loses nothing while its consumers run. In any run of publications, reads by any
  consumers of the group, failing or succeeding handlers and sweeps over stalled messages,
  every message the group was ever given is still pending for redelivery, or the group's
  handlers ran to the end on the event it carries, or they raised and that event stands on
  the dead-letter stream with the error. The state those handlers left is one the consumers'
  state passed through on its way from the first to the last of the run. (The stream is below its maximal length, and no
  consumer is stopped.)
\<close>

theorem bus_loses_nothing:
  assumes "bus_run n hs (s0, empty_bus) (s, b)" and "(i, f) \<in> set (bs_entries b)" and "i \<le> bs_last_delivered b"
  shows "i \<in> set (pending_ids b)
    \<or> (\<exists>ev s1 s2. reads_as f ev \<and> dispatched hs s0 s1 \<and> dispatch_event hs s1 ev = (s2, Inr ()) \<and> dispatched hs s2 s)
    \<or> (\<exists>ev s1 s2 e. reads_as f ev \<and> dispatched hs s0 s1 \<and> dispatch_event hs s1 ev = (s2, Inl e) \<and> dispatched hs s2 s
         \<and> (to_fields ev, e) \<in> set (bs_dead b))"
proof -
  have "accounted hs s0 s0 empty_bus" by (simp add: accounted_def empty_bus_def entry_ids_def)
  then have "accounted hs s0 s b"
    using bus_run_accounted [OF assms(1), of s0] by (simp add: empty_bus_def entry_ids_def)
  from accountedD [OF this assms(2,3)] show ?thesis unfolding served_def parked_def .
qed

text \<open>
  Stopping a consumer loses what it had not finished. A graceful shutdown deletes the
  consumer from its group, and with it every message it had been given and not
  acknowledged, such as one whose handler failed and awaits its retry: afterwards no read
  and no sweep of any consumer returns the message again, although it was neither handled
  nor parked.
\<close>

lemma graceful_stop_loses_messages:
  assumes "p \<in> set (bs_pending b)" and "pe_consumer p = consumer"
    and "\<forall>q \<in> set (bs_pending b). pe_msg q = pe_msg p \<longrightarrow> q = p" and "pe_msg p \<le> bs_last_delivered b"
  shows "pe_msg p \<notin> fst ` set (snd (read_group (stop_consumer b consumer) other k))
    \<and> pe_msg p \<notin> fst ` set (snd (auto_claim (stop_consumer b consumer) other idle k))"
proof -
  have gone: "pe_msg p \<notin> pe_msg ` set (bs_pending (stop_consumer b consumer))"
    using assms(2,3) by (auto simp: stop_consumer_def delete_rows_def)
  have "pe_msg p \<notin> fst ` set (snd (read_group (stop_consumer b consumer) other k))"
    using assms(4) by (auto simp: read_group_def stop_consumer_def Let_def dest: in_set_takeD)
  moreover have "pe_msg p \<notin> fst ` set (snd (auto_claim (stop_consumer b consumer) other idle k))"
  proof
    let ?ids = "take k (map pe_msg (filter (\<lambda>p. idle (pe_msg p)) (bs_pending (stop_consumer b consumer))))"
    assume "pe_msg p \<in> fst ` set (snd (auto_claim (stop_consumer b consumer) other idle k))"
    then have "pe_msg p \<in> set ?ids" by (auto simp: auto_claim_def Let_def)
    then have "pe_msg p \<in> set (map pe_msg (filter (\<lambda>p. idle (pe_msg p)) (bs_pending (stop_consumer b consumer))))"
      by (rule in_set_takeD)
    then have "pe_msg p \<in> pe_msg ` set (bs_pending (stop_consumer b consumer))" by auto
    with gone show False by simp
  qed
  ultimately show ?thesis by simp
qed

lemma fields_readable:
  assumes "ev_id ev \<noteq> []" and "ev_occurred_at ev \<noteq> []" and "truthy (ev_correlation_id ev)"
  shows "from_fields fresh_id now request_id (to_fields ev) = Inr ev"
proof -
  have "str_int (ev_version ev) \<noteq> []" by (simp add: str_int_def)
  with assms show ?thesis
    by (cases "ev_correlation_id ev")
      (simp_all add: from_fields_def to_fields_def py_int_str_int complete_event_def truthy_def opt_default_def)
qed

text \<open>
  What is published is what arrives. The stream fields of an event that carries an id, a
  time and a correlation id (as every published event of a request does) read back as the
  same event.
\<close>

lemma event_fields_roundtrip:
  assumes "ev_id ev \<noteq> []" and "ev_occurred_at ev \<noteq> []" and "truthy (ev_correlation_id ev)"
  shows "from_fields fresh_id now request_id (to_fields ev) = Inr ev"
  using assms by (rule fields_readable)

definition sample_fields :: event where
  "sample_fields = \<lparr>ev_type = ''order.paid'', ev_payload = JObj [], ev_id = ''e1'', ev_source = ''payment'',
     ev_correlation_id = Some ''r1'', ev_occurred_at = ''2026-01-01'', ev_version = 1\<rparr>"

definition failing :: "(unit \<Rightarrow> event \<Rightarrow> unit \<times> unit result)" where
  "failing s ev = (s, Inl (PyExn ''OperationalError''))"

definition sample_draws :: draws where
  "sample_draws = \<lparr>dr_fresh_id = ''x'', dr_now = ''y'', dr_request_id = None\<rparr>"

theorem bus_loses_nothing_witness:
  "\<exists>b. bus_run 1 [(''order.paid'', [failing])] ((), empty_bus) ((), b)
     \<and> (\<exists>e. (to_fields sample_fields, e) \<in> set (bs_dead b))"
proof -
  let ?hs = "[(''order.paid'', [failing])]" and ?b0 = "publish_event empty_bus sample_fields"
  obtain s b rs where r: "read_tick 1 20 ?hs sample_draws ''c'' () ?b0 = (s, b, rs)" by (metis prod_cases3)
  have run: "bus_run 1 ?hs ((), empty_bus) ((), b)"
    using bus_run.read [OF bus_run.published [OF bus_run.start] r] by simp
  have f: "from_fields x y z (to_fields sample_fields) = Inr sample_fields" for x y z
    by (rule fields_readable) (simp_all add: sample_fields_def truthy_def)
  then have reads: "reads_as (to_fields sample_fields) ev \<longleftrightarrow> ev = sample_fields" for ev by (auto simp: reads_as_def)
  have fails: "dispatch_event ?hs s1 sample_fields = (s1, Inl (PyExn ''OperationalError''))" for s1
    by (simp add: dispatch_event_def handlers_for_def opt_default_def failing_def sample_fields_def [THEN arg_cong, of ev_type])
  have b: "(Suc 0, to_fields sample_fields) \<in> set (bs_entries b)" "Suc 0 \<le> bs_last_delivered b" "Suc 0 \<notin> set (pending_ids b)"
    using r by (auto simp: read_tick_def read_group_def publish_event_def empty_bus_def handle_message_def
        f sample_draws_def fails attempts_of_def first_row_def ack_def delete_rows_def pending_ids_def Let_def)
  from bus_loses_nothing [OF run b(1,2)] b(3) reads fails have "\<exists>e. (to_fields sample_fields, e) \<in> set (bs_dead b)" by auto
  then show ?thesis using run by blast
qed

end
