(* ===== verification/Ratelimit.thy ===== *)
theory Ratelimit
  imports Json Core_Errors
begin

section \<open>The distributed rate limiter\<close>

text \<open>
  \<open>packages/core-py/knowledgeos_core/ratelimit.py\<close>: the sliding-window Lua script over a
  Redis sorted set (with the key's own expiry), the limiter's decision, fail-open behaviour
  and error, and the platform's policies. Redis runs a script atomically, so a call is one
  step of the bucket; the script's clock argument and the server's clock are one clock,
  \<open>now\<close>, in milliseconds. The lemmas show that a bucket implements the specification a
  sliding window has: a log of admitted requests, of which those inside the window are
  counted.
\<close>

subsection \<open>The script\<close>

record bucket =
  zset :: "(string \<times> int) list"
  expires_ms :: "int option"

definition empty_bucket :: bucket where
  "empty_bucket = \<lparr>zset = [], expires_ms = None\<rparr>"

definition live_zset :: "bucket \<Rightarrow> int \<Rightarrow> (string \<times> int) list" where
  "live_zset b now =
     (case expires_ms b of None \<Rightarrow> zset b | Some e \<Rightarrow> if e \<le> now then [] else zset b)"

definition zremrangebyscore :: "int \<Rightarrow> int \<Rightarrow> (string \<times> int) list \<Rightarrow> (string \<times> int) list" where
  "zremrangebyscore lo hi z = filter (\<lambda>(m, s). \<not> (lo \<le> s \<and> s \<le> hi)) z"

definition zadd_all :: "int \<Rightarrow> string \<Rightarrow> nat \<Rightarrow> (string \<times> int) list \<Rightarrow> (string \<times> int) list" where
  "zadd_all now member cost z = foldl (\<lambda>acc i. dict_set acc (member @ '':'' @ str_nat i) now) z [1..<cost + 1]"

definition sliding_window ::
  "bucket \<Rightarrow> int \<Rightarrow> int \<Rightarrow> int \<Rightarrow> nat \<Rightarrow> string \<Rightarrow> bucket \<times> bool \<times> int \<times> int" where
  "sliding_window b now window limit cost member =
     (let z = zremrangebyscore 0 (now - window) (live_zset b now);
          used = int (length z)
      in if used + int cost > limit then
           (\<lparr>zset = z, expires_ms = (if z = [] then None else expires_ms b)\<rparr>, False, limit - used,
            if z = [] then window else Min (set (map snd z)) + window - now)
         else
           (let z' = zadd_all now member cost z
            in (\<lparr>zset = z', expires_ms = (if z' = [] then None else Some (now + window))\<rparr>, True,
                limit - used - int cost, window)))"

subsection \<open>The limiter\<close>

record RateLimitPolicy =
  rp_limit :: int
  rp_window_seconds :: int
  rp_scope :: string

definition window_ms :: "RateLimitPolicy \<Rightarrow> int" where
  "window_ms p = rp_window_seconds p * 1000"

record RateLimitResult =
  rl_allowed :: bool
  rl_limit :: int
  rl_remaining :: int
  rl_reset_seconds :: int

definition limit_headers :: "RateLimitResult \<Rightarrow> (string \<times> string) list" where
  "limit_headers r = [(''X-RateLimit-Limit'', str_int (rl_limit r)),
     (''X-RateLimit-Remaining'', str_int (max 0 (rl_remaining r))),
     (''X-RateLimit-Reset'', str_int (rl_reset_seconds r))]"

definition policy :: "string \<Rightarrow> int \<Rightarrow> int \<Rightarrow> string \<times> RateLimitPolicy" where
  "policy scope limit window = (scope, \<lparr>rp_limit = limit, rp_window_seconds = window, rp_scope = scope\<rparr>)"

definition POLICIES :: "(string \<times> RateLimitPolicy) list" where
  "POLICIES = [policy ''anonymous'' 60 60, policy ''authenticated'' 600 60, policy ''login'' 1000000 60,
     policy ''register'' 1000000 60, policy ''password_reset'' 1000000 60, policy ''ai'' 30 60,
     policy ''search'' 120 60, policy ''upload'' 20 3600, policy ''checkout'' 20 300,
     policy ''webhook'' 1000 60]"

definition policy_named :: "string \<Rightarrow> RateLimitPolicy" where
  "policy_named name = (case map_of POLICIES name of Some p \<Rightarrow> p
     | None \<Rightarrow> \<lparr>rp_limit = 60, rp_window_seconds = 60, rp_scope = name\<rparr>)"

text \<open>Redis as the limiter sees it: its buckets by key, or unreachable.\<close>

type_synonym buckets = "string \<Rightarrow> bucket"

definition bucket_key :: "RateLimitPolicy \<Rightarrow> string \<Rightarrow> string" where
  "bucket_key p identifier = ''kos:ratelimit:'' @ rp_scope p @ '':'' @ identifier"

definition check_limit ::
  "buckets \<Rightarrow> bool \<Rightarrow> bool \<Rightarrow> int \<Rightarrow> string \<Rightarrow> string \<Rightarrow> RateLimitPolicy \<Rightarrow> nat \<Rightarrow> buckets \<times> RateLimitResult" where
  "check_limit bs enabled up now_ms member identifier p cost =
     (if \<not> enabled \<or> \<not> up
      then (bs, \<lparr>rl_allowed = True, rl_limit = rp_limit p, rl_remaining = rp_limit p, rl_reset_seconds = 0\<rparr>)
      else
        let key = bucket_key p identifier;
            (b, allowed, remaining, reset_ms) =
              sliding_window (bs key) now_ms (window_ms p) (rp_limit p) cost member
        in (bs(key := b), \<lparr>rl_allowed = allowed, rl_limit = rp_limit p, rl_remaining = remaining,
              rl_reset_seconds = max 1 (reset_ms div 1000)\<rparr>))"

definition enforce_limit ::
  "buckets \<Rightarrow> bool \<Rightarrow> bool \<Rightarrow> int \<Rightarrow> string \<Rightarrow> string \<Rightarrow> RateLimitPolicy \<Rightarrow> nat \<Rightarrow>
   buckets \<times> RateLimitResult result" where
  "enforce_limit bs enabled up now_ms member identifier p cost =
     (let (bs', r) = check_limit bs enabled up now_ms member identifier p cost
      in (bs', if rl_allowed r then Inr r else Inl (raise_default RateLimitedError)))"

definition reset_limit :: "buckets \<Rightarrow> string \<Rightarrow> RateLimitPolicy \<Rightarrow> buckets" where
  "reset_limit bs identifier p = bs(bucket_key p identifier := empty_bucket)"

subsection \<open>The specification: a log of admitted requests\<close>

type_synonym limit_log = "(int \<times> nat) list"

definition admitted_after :: "limit_log \<Rightarrow> int \<Rightarrow> nat" where
  "admitted_after log t = sum_list (map snd (filter (\<lambda>(s, c). t < s) log))"

definition spec_admit :: "int \<Rightarrow> int \<Rightarrow> limit_log \<Rightarrow> int \<Rightarrow> nat \<Rightarrow> bool" where
  "spec_admit window limit log now cost \<longleftrightarrow> int (admitted_after log (now - window)) + int cost \<le> limit"

fun spec_run :: "int \<Rightarrow> int \<Rightarrow> limit_log \<Rightarrow> (int \<times> nat \<times> string) list \<Rightarrow> bool list" where
  "spec_run window limit log [] = []"
| "spec_run window limit log ((now, cost, m) # cs) =
     (let ok = spec_admit window limit log now cost
      in ok # spec_run window limit (if ok then (now, cost) # log else log) cs)"

fun limiter_run :: "int \<Rightarrow> int \<Rightarrow> bucket \<Rightarrow> (int \<times> nat \<times> string) list \<Rightarrow> bool list" where
  "limiter_run window limit b [] = []"
| "limiter_run window limit b ((now, cost, m) # cs) =
     (let (b', ok, _, _) = sliding_window b now window limit cost m
      in ok # limiter_run window limit b' cs)"

subsection \<open>Lemmas: the bucket implements the log\<close>

definition implements :: "int \<Rightarrow> int \<Rightarrow> bucket \<Rightarrow> limit_log \<Rightarrow> bool" where
  "implements window t0 b log \<longleftrightarrow>
     (\<forall>t \<ge> t0 - window. length (filter (\<lambda>(m, s). t < s) (zset b)) = admitted_after log t)
     \<and> (\<forall>(m, s) \<in> set (zset b). 0 \<le> s) \<and> (\<forall>(s, c) \<in> set log. s \<le> t0)
     \<and> (case expires_ms b of None \<Rightarrow> True | Some e \<Rightarrow> (\<forall>(s, c) \<in> set log. s + window \<le> e))"

lemma admitted_after_Nil [simp]: "admitted_after [] t = 0"
  by (simp add: admitted_after_def)

lemma admitted_after_Cons [simp]:
  "admitted_after ((s, c) # log) t = (if t < s then c else 0) + admitted_after log t"
  by (simp add: admitted_after_def)

lemma admitted_after_none: "(\<And>s c. (s, c) \<in> set log \<Longrightarrow> s \<le> t) \<Longrightarrow> admitted_after log t = 0"
  by (induction log) force+

lemma filter_window:
  assumes "implements window t0 b log" and "t0 \<le> now" and "now - window \<le> t"
  shows "length (filter (\<lambda>(m, s). t < s) (zremrangebyscore 0 (now - window) (live_zset b now)))
     = admitted_after log t"
proof (cases "live_zset b now = zset b")
  case True
  have "filter (\<lambda>(m, s). t < s) (zremrangebyscore 0 (now - window) (zset b)) = filter (\<lambda>(m, s). t < s) (zset b)"
    using assms(3) by (auto simp: zremrangebyscore_def intro!: filter_cong)
  with assms True show ?thesis by (simp add: implements_def)
next
  case False
  then obtain e where e: "expires_ms b = Some e" "e \<le> now" "live_zset b now = []"
    by (auto simp: live_zset_def split: option.splits if_splits)
  have "s \<le> t" if "(s, c) \<in> set log" for s c
    using assms(1,3) e that by (auto simp: implements_def)
  then have "admitted_after log t = 0" by (rule admitted_after_none)
  with e show ?thesis by (simp add: zremrangebyscore_def)
qed

lemma live_window:
  assumes "implements window t0 b log" and "t0 \<le> now"
  shows "length (zremrangebyscore 0 (now - window) (live_zset b now)) = admitted_after log (now - window)"
proof -
  have nonneg: "0 \<le> s" if "(m, s) \<in> set (live_zset b now)" for m s
    using assms(1) that by (auto simp: implements_def live_zset_def split: option.splits if_splits)
  have "filter (\<lambda>(m, s). now - window < s) (zremrangebyscore 0 (now - window) (live_zset b now))
      = zremrangebyscore 0 (now - window) (live_zset b now)"
    unfolding zremrangebyscore_def filter_filter
    by (rule filter_cong [OF refl]) (auto dest: nonneg)
  with filter_window [OF assms order_refl] show ?thesis by simp
qed

text \<open>The members one admitted call adds are new when the call's own member string is.\<close>

definition own_member :: "string \<Rightarrow> string \<Rightarrow> bool" where
  "own_member m k \<longleftrightarrow> (\<exists>i. k = m @ '':'' @ str_nat i)"

lemma zadd_all_fresh:
  assumes "\<And>k. k \<in> fst ` set z \<Longrightarrow> \<not> own_member m k"
  shows "zadd_all now m cost z = z @ map (\<lambda>i. (m @ '':'' @ str_nat i, now)) [1..<cost + 1]"
proof (induction cost)
  case 0
  then show ?case by (simp add: zadd_all_def)
next
  case (Suc n)
  have "str_nat (Suc n) \<noteq> str_nat x" if "x \<le> n" for x using str_nat_inj [of "Suc n" x] that by auto
  then have "m @ '':'' @ str_nat (Suc n) \<notin> fst ` set (z @ map (\<lambda>i. (m @ '':'' @ str_nat i, now)) [1..<n + 1])"
    using assms [of "m @ '':'' @ str_nat (Suc n)"] by (auto simp: own_member_def)
  with Suc show ?case by (simp add: zadd_all_def dict_set_new)
qed

lemma own_member_unique:
  assumes "own_member m k" and "own_member m' k" and "CHR '':'' \<notin> set m" and "CHR '':'' \<notin> set m'"
  shows "m = m'"
proof -
  have "takeWhile (\<lambda>c. c \<noteq> CHR '':'') k = x" if "own_member x k" "CHR '':'' \<notin> set x" for x
  proof -
    from that(1) obtain i where "k = x @ CHR '':'' # str_nat i" by (auto simp: own_member_def)
    moreover have "\<forall>c \<in> set x. c \<noteq> CHR '':''" using that(2) by auto
    ultimately show ?thesis by (simp add: takeWhile_append)
  qed
  with assms show ?thesis by metis
qed

definition foreign :: "bucket \<Rightarrow> string list \<Rightarrow> bool" where
  "foreign b ms \<longleftrightarrow> (\<forall>m \<in> set ms. \<forall>k \<in> fst ` set (zset b). \<not> own_member m k)"

lemma sliding_window_step:
  assumes "implements window t0 b log" and "t0 \<le> now" and "0 \<le> now" and "0 < window"
    and "foreign b (m # ms)" and "m \<notin> set ms" and "\<forall>x \<in> set (m # ms). CHR '':'' \<notin> set x"
    and "sliding_window b now window limit cost m = (b', ok, rest)"
  shows "ok = spec_admit window limit log now cost"
    and "implements window now b' (if ok then (now, cost) # log else log)"
    and "foreign b' ms"
proof -
  let ?z = "zremrangebyscore 0 (now - window) (live_zset b now)"
  note len = live_window [OF assms(1,2)]
  have sub: "set ?z \<subseteq> set (zset b)"
    by (auto simp: zremrangebyscore_def live_zset_def split: option.splits if_splits)
  have fresh: "\<not> own_member m k" if "k \<in> fst ` set ?z" for k
    using assms(5) that sub by (auto simp: foreign_def)
  from assms(8) len show ok: "ok = spec_admit window limit log now cost"
    by (auto simp: sliding_window_def spec_admit_def Let_def split: if_splits)
  have z': "zset b' = (if ok then ?z @ map (\<lambda>i. (m @ '':'' @ str_nat i, now)) [1..<cost + 1] else ?z)"
    using assms(8) by (auto simp: sliding_window_def Let_def zadd_all_fresh [OF fresh] split: if_splits)
  have logs: "s \<le> t0" if "(s, c) \<in> set log" for s c using assms(1) that by (auto simp: implements_def)
  have new: "length (filter (\<lambda>(k, s). t < s) (map (\<lambda>i. (m @ '':'' @ str_nat i, now)) [1..<cost + 1]))
      = (if t < now then cost else 0)" for t
    by (simp add: filter_map o_def)
  have ex: "case expires_ms b' of None \<Rightarrow> True
      | Some e \<Rightarrow> (\<forall>(s, c) \<in> set (if ok then (now, cost) # log else log). s + window \<le> e)"
  proof (cases ok)
    case True
    have "expires_ms b' = None \<or> expires_ms b' = Some (now + window)"
      using assms(8) True by (auto simp: sliding_window_def Let_def split: if_splits)
    with True logs assms(2) show ?thesis by (fastforce split: option.splits)
  next
    case False
    have "expires_ms b' = None \<or> expires_ms b' = expires_ms b"
      using assms(8) False by (auto simp: sliding_window_def Let_def split: if_splits)
    with False assms(1) show ?thesis by (auto simp: implements_def split: option.splits)
  qed
  show "implements window now b' (if ok then (now, cost) # log else log)"
    unfolding implements_def
  proof (intro conjI ex)
    show "\<forall>t \<ge> now - window. length (filter (\<lambda>(m, s). t < s) (zset b')) =
        admitted_after (if ok then (now, cost) # log else log) t"
      using filter_window [OF assms(1,2)] by (simp add: z' new)
    show "\<forall>(m, s) \<in> set (zset b'). 0 \<le> s"
      using assms(1,3) sub unfolding z' implements_def by (auto simp: case_prod_beta)
    show "\<forall>(s, c) \<in> set (if ok then (now, cost) # log else log). s \<le> now"
      using logs assms(2) by (auto dest: logs)
  qed
  show "foreign b' ms"
    unfolding foreign_def
  proof (intro ballI)
    fix x k assume x: "x \<in> set ms" and k: "k \<in> fst ` set (zset b')"
    then consider "k \<in> fst ` set ?z" | "own_member m k"
      by (auto simp: z' own_member_def split: if_splits) blast+
    then show "\<not> own_member x k"
    proof cases
      case 1
      with assms(5) x sub show ?thesis by (auto simp: foreign_def)
    next
      case 2
      with own_member_unique assms(6,7) x show ?thesis by (metis list.set_intros)
    qed
  qed
qed

subsection \<open>Properties\<close>

definition call_times :: "(int \<times> nat \<times> string) list \<Rightarrow> int list" where
  "call_times cs = map fst cs"

definition call_members :: "(int \<times> nat \<times> string) list \<Rightarrow> string list" where
  "call_members cs = map (snd \<circ> snd) cs"

text \<open>Calls as the limiter makes them: in time order, each with a member string of its own.\<close>

definition well_timed :: "(int \<times> nat \<times> string) list \<Rightarrow> bool" where
  "well_timed cs \<longleftrightarrow> sorted (0 # call_times cs) \<and> distinct (call_members cs)
     \<and> (\<forall>m \<in> set (call_members cs). CHR '':'' \<notin> set m)"

lemma limiter_refines_from:
  assumes "implements window t0 b log" and "sorted (t0 # call_times cs)" and "0 \<le> t0" and "0 < window"
    and "foreign b (call_members cs)" and "distinct (call_members cs)"
    and "\<forall>m \<in> set (call_members cs). CHR '':'' \<notin> set m"
  shows "limiter_run window limit b cs = spec_run window limit log cs"
  using assms
proof (induction cs arbitrary: t0 b log)
  case (Cons c cs)
  obtain now cost m where c: "c = (now, cost, m)" by (metis prod_cases3)
  obtain b' ok rest where s: "sliding_window b now window limit cost m = (b', ok, rest)" by (metis prod_cases3)
  have "t0 \<le> now" "0 \<le> now" using Cons.prems(2,3) by (auto simp: c call_times_def)
  note step = sliding_window_step [OF Cons.prems(1) this Cons.prems(4) _ _ _ s, of "call_members cs"]
  have f: "foreign b (m # call_members cs)" "m \<notin> set (call_members cs)"
    "\<forall>x \<in> set (m # call_members cs). CHR '':'' \<notin> set x"
    using Cons.prems(5-7) by (simp_all add: c call_members_def)
  have "limiter_run window limit b' cs = spec_run window limit (if ok then (now, cost) # log else log) cs"
    by (rule Cons.IH [OF step(2) [OF f] _ \<open>0 \<le> now\<close> Cons.prems(4) step(3) [OF f]])
      (use Cons.prems(2,6,7) in \<open>simp_all add: c call_times_def call_members_def\<close>)
  with step(1) [OF f] s show ?case by (cases rest) (simp add: c Let_def)
qed simp

lemma limiter_refines_empty:
  assumes "well_timed cs" and "0 < window"
  shows "limiter_run window limit empty_bucket cs = spec_run window limit [] cs"
  by (rule limiter_refines_from [of window 0])
    (use assms in \<open>auto simp: implements_def empty_bucket_def well_timed_def foreign_def\<close>)

text \<open>
  C12: The limiter refines the sliding-window specification. The script keeps a Redis sorted
  set whose entries and whose key expire; the specification keeps a log of all admitted
  requests and admits a request exactly when the admitted cost of the last window and its
  own cost fit the limit. On every sequence of calls in time order, whatever the costs, both
  give the same decisions: neither the trimming of the set nor the expiry of the key ever
  forgets a request that still counts.
\<close>

theorem limiter_refines_window_log:
  assumes "well_timed cs" and "0 < window"
  shows "limiter_run window limit empty_bucket cs = spec_run window limit [] cs"
  using assms by (rule limiter_refines_empty)

definition window_cost :: "int \<Rightarrow> int \<Rightarrow> ((int \<times> nat \<times> string) \<times> bool) list \<Rightarrow> nat" where
  "window_cost window t calls =
     sum_list (map (\<lambda>((now, cost, m), ok). if ok \<and> t - window < now \<and> now \<le> t then cost else 0) calls)"

definition log_cost :: "int \<Rightarrow> int \<Rightarrow> limit_log \<Rightarrow> nat" where
  "log_cost window t log = sum_list (map (\<lambda>(s, c). if t - window < s \<and> s \<le> t then c else 0) log)"

lemma log_cost_le: "now \<le> t \<Longrightarrow> log_cost window t log \<le> admitted_after log (now - window)"
  by (induction log) (auto simp: log_cost_def admitted_after_def)

lemma spec_window_bound:
  assumes "int (log_cost window t log) \<le> limit"
  shows "int (log_cost window t log + window_cost window t (zip cs (spec_run window limit log cs))) \<le> limit"
  using assms
proof (induction cs arbitrary: log)
  case (Cons c cs)
  obtain now cost m where c: "c = (now, cost, m)" by (metis prod_cases3)
  show ?case
  proof (cases "spec_admit window limit log now cost")
    case True
    have "int (log_cost window t ((now, cost) # log)) \<le> limit"
      using True Cons.prems log_cost_le [of now t window log]
      by (auto simp: log_cost_def spec_admit_def)
    from Cons.IH [OF this] True show ?thesis
      by (simp add: c Let_def window_cost_def log_cost_def split: if_splits)
  next
    case False
    with Cons.IH [OF Cons.prems] show ?thesis by (simp add: c Let_def window_cost_def)
  qed
qed (simp add: window_cost_def)

text \<open>
  C13: No burst exceeds the limit. Over any sequence of calls to one bucket, in every interval
  of one window's length, wherever it starts (a fixed window would allow twice the limit
  around its boundary), the cost of the admitted calls is at most the limit.
\<close>

theorem limiter_window_bound:
  assumes "well_timed cs" and "0 < window" and "0 \<le> limit"
  shows "int (window_cost window t (zip cs (limiter_run window limit empty_bucket cs))) \<le> limit"
  using spec_window_bound [of window t "[]" limit cs] assms
  by (simp add: log_cost_def limiter_refines_empty)

definition sample_calls :: "(int \<times> nat \<times> string) list" where
  "sample_calls = [(1000, 2, ''a''), (1500, 2, ''b''), (2600, 2, ''c'')]"

lemma sample_calls_well_timed: "well_timed sample_calls"
  by (simp add: well_timed_def sample_calls_def call_times_def call_members_def)

theorem limiter_refines_window_log_witness:
  "limiter_run 1000 3 empty_bucket sample_calls = [True, False, True]"
proof -
  have "limiter_run 1000 3 empty_bucket sample_calls = spec_run 1000 3 [] sample_calls"
    by (rule limiter_refines_window_log [OF sample_calls_well_timed]) simp
  also have "\<dots> = [True, False, True]"
    by (simp add: sample_calls_def spec_admit_def admitted_after_def)
  finally show ?thesis .
qed

theorem limiter_window_bound_witness:
  "int (window_cost 1000 1800 (zip sample_calls (limiter_run 1000 3 empty_bucket sample_calls))) \<le> 3"
  by (rule limiter_window_bound [OF sample_calls_well_timed]) simp_all

end
