(* ===== verification/Service_Client.thy ===== *)
theory Service_Client
  imports Security
begin

section \<open>Calls between services: circuit breaker and client\<close>

text \<open>
  \<open>packages/core-py/knowledgeos_core/http.py\<close>: the per-upstream circuit breaker, the
  bounded retry of connection failures, the signed request and the translation of upstream
  answers into errors. The network is a parameter: what each attempt brings back. Times are
  the monotonic clock's, in seconds. The breaker is also given as a step relation, because
  requests of one process overlap: the beginning of a request and its outcome are separate
  steps, and any number of requests may be under way.
\<close>

datatype BreakerState = BrClosed | BrOpen | BrHalfOpen

record CircuitBreaker =
  cb_failure_threshold :: nat
  cb_recovery_timeout :: int
  cb_state :: BreakerState
  cb_failures :: nat
  cb_opened_at :: int

definition new_breaker :: CircuitBreaker where
  "new_breaker = \<lparr>cb_failure_threshold = 5, cb_recovery_timeout = 30, cb_state = BrClosed,
     cb_failures = 0, cb_opened_at = 0\<rparr>"

definition before_request :: "CircuitBreaker \<Rightarrow> int \<Rightarrow> CircuitBreaker result" where
  "before_request b now =
     (if cb_state b = BrOpen then
        (if now - cb_opened_at b \<ge> cb_recovery_timeout b then Inr (b\<lparr>cb_state := BrHalfOpen\<rparr>)
         else Inl (raise_default ServiceUnavailableError))
      else Inr b)"

definition on_success :: "CircuitBreaker \<Rightarrow> CircuitBreaker" where
  "on_success b = b\<lparr>cb_failures := 0, cb_state := BrClosed\<rparr>"

definition on_failure :: "CircuitBreaker \<Rightarrow> int \<Rightarrow> CircuitBreaker" where
  "on_failure b now =
     (let b1 = b\<lparr>cb_failures := cb_failures b + 1\<rparr>
      in if cb_state b1 = BrHalfOpen \<or> cb_failures b1 \<ge> cb_failure_threshold b1
         then b1\<lparr>cb_opened_at := now, cb_state := BrOpen\<rparr> else b1)"

subsection \<open>Sending\<close>

text \<open>What one attempt brings back.\<close>

datatype attempt =
    Response nat "json option"
  | ConnectErr
  | ReadTimeoutErr
  | PoolTimeoutErr
  | OtherTimeoutErr
  | OtherHttpErr

definition retried :: "attempt \<Rightarrow> bool" where
  "retried a \<longleftrightarrow> a \<in> {ConnectErr, ReadTimeoutErr, PoolTimeoutErr}"

text \<open>\<open>_send\<close>: at most \<open>k\<close> attempts; the last outcome stands.\<close>

fun send_retrying :: "nat \<Rightarrow> (nat \<Rightarrow> attempt) \<Rightarrow> attempt \<times> nat" where
  "send_retrying 0 net = (OtherHttpErr, 0)"
| "send_retrying (Suc k) net =
     (let a = net 0 in
      if retried a \<and> k > 0 then (case send_retrying k (\<lambda>i. net (Suc i)) of (r, n) \<Rightarrow> (r, Suc n)) else (a, 1))"

definition send_request :: "bool \<Rightarrow> (nat \<Rightarrow> attempt) \<Rightarrow> attempt \<times> nat" where
  "send_request has_timeout net = (if has_timeout then (net 0, 1) else send_retrying 3 net)"

definition is_timeout :: "attempt \<Rightarrow> bool" where
  "is_timeout a \<longleftrightarrow> a \<in> {ReadTimeoutErr, PoolTimeoutErr, OtherTimeoutErr}"

text \<open>\<open>request\<close>: the breaker after the call, how many attempts reached the network, and the outcome.\<close>

definition request ::
  "CircuitBreaker \<Rightarrow> int \<Rightarrow> int \<Rightarrow> bool \<Rightarrow> (nat \<Rightarrow> attempt) \<Rightarrow>
   CircuitBreaker \<times> nat \<times> (nat \<times> json option) result" where
  "request b now later has_timeout net =
     (case before_request b now of Inl e \<Rightarrow> (b, 0, Inl e)
      | Inr b1 \<Rightarrow>
          (case send_request has_timeout net of
             (Response status body, n) \<Rightarrow>
               (if status \<ge> 500 then on_failure b1 later else on_success b1, n, Inr (status, body))
           | (a, n) \<Rightarrow>
               (on_failure b1 later, n,
                if is_timeout a then Inl (PyExn ''TimeoutException'') else Inl (raise_default UpstreamError))))"

definition request_headers ::
  "hmac_sha256 \<Rightarrow> (string \<Rightarrow> string) \<Rightarrow> timestamp \<Rightarrow> string \<Rightarrow> string \<Rightarrow> string \<Rightarrow> string \<Rightarrow> string \<Rightarrow>
   (string \<times> string) list" where
  "request_headers mac sha256 now secret service meth path body =
     (let digest = hash_body sha256 body;
          (stamp, sig) = sign_internal_request mac now secret meth path digest None
      in [(''X-Internal-Timestamp'', stamp), (''X-Internal-Signature'', sig), (''X-Internal-Service'', service)]
         @ (if digest \<noteq> [] then [(''X-Internal-Body-Hash'', digest)] else []))"

text \<open>\<open>_unwrap\<close>: the body of a 2xx answer, or the upstream's error code under a status below 500.\<close>

definition upstream_code :: "json option \<Rightarrow> string" where
  "upstream_code body =
     (case body of
        Some (JObj d) \<Rightarrow>
          (case get_or d ''error'' (JObj []) of
             JObj err \<Rightarrow> json_str (get_or err ''code'' (JStr ''upstream_error''))
           | _ \<Rightarrow> ''upstream_error'')
      | _ \<Rightarrow> ''upstream_error'')"

definition unwrap_response :: "nat \<Rightarrow> json option \<Rightarrow> json result" where
  "unwrap_response status body =
     (if 200 \<le> status \<and> status < 300 then Inr (case body of None \<Rightarrow> JNull | Some v \<Rightarrow> v)
      else Inl (app_error UpstreamError (Some (upstream_code body)) (Some (if status < 500 then status else 502))))"

definition call_json ::
  "CircuitBreaker \<Rightarrow> int \<Rightarrow> int \<Rightarrow> bool \<Rightarrow> (nat \<Rightarrow> attempt) \<Rightarrow> CircuitBreaker \<times> nat \<times> json result" where
  "call_json b now later has_timeout net =
     (case request b now later has_timeout net of
        (b', n, Inl e) \<Rightarrow> (b', n, Inl e)
      | (b', n, Inr (status, body)) \<Rightarrow> (b', n, unwrap_response status body))"

subsection \<open>The breaker as a state machine\<close>

text \<open>
  A configuration is the breaker, the clock, and how many admitted requests are under way.
\<close>

inductive breaker_step :: "CircuitBreaker \<times> int \<times> nat \<Rightarrow> CircuitBreaker \<times> int \<times> nat \<Rightarrow> bool" where
  tick: "t \<le> t' \<Longrightarrow> breaker_step (b, t, k) (b, t', k)"
| admit: "before_request b t = Inr b' \<Longrightarrow> breaker_step (b, t, k) (b', t, Suc k)"
| refuse: "before_request b t = Inl e \<Longrightarrow> breaker_step (b, t, k) (b, t, k)"
| succeed: "breaker_step (b, t, Suc k) (on_success b, t, k)"
| fail: "breaker_step (b, t, Suc k) (on_failure b t, t, k)"

inductive_cases breaker_stepE: "breaker_step c c'"

definition breaker_ok :: "CircuitBreaker \<times> int \<times> nat \<Rightarrow> bool" where
  "breaker_ok c \<longleftrightarrow> (case c of (b, t, k) \<Rightarrow>
     (cb_state b = BrClosed \<longrightarrow> cb_failures b < cb_failure_threshold b)
     \<and> (cb_state b \<noteq> BrClosed \<longrightarrow> 0 < cb_failures b \<and> cb_opened_at b \<le> t)
     \<and> (cb_state b = BrHalfOpen \<longrightarrow> cb_opened_at b + cb_recovery_timeout b \<le> t))"

lemma breaker_params:
  "breaker_step c c' \<Longrightarrow> cb_failure_threshold (fst c') = cb_failure_threshold (fst c)
     \<and> cb_recovery_timeout (fst c') = cb_recovery_timeout (fst c)"
  by (erule breaker_stepE)
    (auto simp: before_request_def on_success_def on_failure_def Let_def split: if_splits)

lemma breaker_step_ok:
  assumes "breaker_step c c'" and "breaker_ok c" and "0 < cb_failure_threshold (fst c)"
  shows "breaker_ok c'"
  using assms
  by (cases rule: breaker_step.cases)
    (auto simp: breaker_ok_def before_request_def on_success_def on_failure_def Let_def split: if_splits)

lemma breaker_run_ok:
  assumes "breaker_step\<^sup>*\<^sup>* c c'" and "breaker_ok c" and "0 < cb_failure_threshold (fst c)"
  shows "breaker_ok c' \<and> cb_failure_threshold (fst c') = cb_failure_threshold (fst c)
    \<and> cb_recovery_timeout (fst c') = cb_recovery_timeout (fst c)"
  using assms
proof (induction rule: rtranclp_induct)
  case (step c1 c2)
  then show ?case using breaker_step_ok [OF step(2)] breaker_params [OF step(2)] by auto
qed simp

subsection \<open>Properties\<close>

text \<open>
  The breaker fails fast and recovers. In every state that overlapping requests can reach
  from a new breaker: while it is open and the recovery timeout has not passed since it
  opened, a request is refused with \<open>service_unavailable\<close> without reaching the network; it
  is closed only with fewer than five failures since the last success; and from any state,
  once the timeout has passed, a request goes through and a success closes the breaker.
\<close>

lemma breaker_fails_fast_and_recovers:
  assumes "breaker_step\<^sup>*\<^sup>* (new_breaker, t0, 0) (b, t, k)"
  shows "(cb_state b = BrOpen \<and> t < cb_opened_at b + 30 \<longrightarrow>
      request b t later has_timeout net = (b, 0, Inl (raise_default ServiceUnavailableError)))
    \<and> (cb_state b = BrClosed \<longrightarrow> cb_failures b < 5)
    \<and> (cb_opened_at b + 30 \<le> t \<or> cb_state b \<noteq> BrOpen \<longrightarrow>
         (\<exists>b'. before_request b t = Inr b' \<and> cb_state (on_success b') = BrClosed \<and> cb_failures (on_success b') = 0))"
proof -
  have "breaker_ok (b, t, k) \<and> cb_failure_threshold b = 5 \<and> cb_recovery_timeout b = 30"
    using breaker_run_ok [OF assms] by (auto simp: new_breaker_def breaker_ok_def)
  then show ?thesis
    by (auto simp: breaker_ok_def request_def before_request_def on_success_def)
qed

text \<open>
  Half-open is not one probe. After the recovery timeout an open breaker admits every
  request that begins before the first outcome is known, not a single one: any number of
  requests can be under way at once in the half-open state.
\<close>

lemma half_open_admits_many:
  assumes "cb_state b = BrOpen" and "cb_opened_at b + cb_recovery_timeout b \<le> t"
  shows "\<exists>b'. breaker_step\<^sup>*\<^sup>* (b, t, 0) (b', t, Suc n) \<and> cb_state b' = BrHalfOpen"
proof -
  let ?h = "b\<lparr>cb_state := BrHalfOpen\<rparr>"
  have first: "breaker_step (b, t, 0) (?h, t, Suc 0)"
    by (rule admit) (use assms in \<open>simp add: before_request_def\<close>)
  have more: "breaker_step (?h, t, k) (?h, t, Suc k)" for k
    by (rule admit) (simp add: before_request_def)
  have "breaker_step\<^sup>*\<^sup>* (b, t, 0) (?h, t, Suc n)"
    by (induction n) (auto intro: first more rtranclp.rtrancl_into_rtrancl)
  then show ?thesis by (intro exI [of _ ?h]) simp
qed

lemma opened_breaker:
  "breaker_step\<^sup>*\<^sup>* (new_breaker, 100, 0) (new_breaker\<lparr>cb_state := BrOpen, cb_failures := 5, cb_opened_at := 100\<rparr>, 110, 0)"
proof -
  have ad: "breaker_step (new_breaker\<lparr>cb_failures := n\<rparr>, 100, k) (new_breaker\<lparr>cb_failures := n\<rparr>, 100, Suc k)" for n k
    by (rule admit) (simp add: before_request_def new_breaker_def)
  have fl: "breaker_step (new_breaker\<lparr>cb_failures := n\<rparr>, 100, Suc k) (new_breaker\<lparr>cb_failures := Suc n\<rparr>, 100, k)"
    if "n < 4" for n k
    using fail [of "new_breaker\<lparr>cb_failures := n\<rparr>" 100 k] that
    by (simp add: on_failure_def new_breaker_def)
  have one: "breaker_step\<^sup>*\<^sup>* (new_breaker\<lparr>cb_failures := n\<rparr>, 100, 0) (new_breaker\<lparr>cb_failures := Suc n\<rparr>, 100, 0)"
    if "n < 4" for n
    using ad [of n 0] fl [OF that, of 0] by (meson converse_rtranclp_into_rtranclp r_into_rtranclp)
  have "n \<le> 4 \<Longrightarrow> breaker_step\<^sup>*\<^sup>* (new_breaker, 100, 0) (new_breaker\<lparr>cb_failures := n\<rparr>, 100, 0)" for n
  proof (induction n)
    case 0
    then show ?case by (simp add: new_breaker_def)
  next
    case (Suc n)
    then show ?case using one [of n] by (auto intro: rtranclp_trans)
  qed
  from this [of 4] have a: "breaker_step\<^sup>*\<^sup>* (new_breaker, 100, 0) (new_breaker\<lparr>cb_failures := 4\<rparr>, 100, 0)" by simp
  have "breaker_step (new_breaker\<lparr>cb_failures := 4\<rparr>, 100, Suc 0)
      (new_breaker\<lparr>cb_state := BrOpen, cb_failures := 5, cb_opened_at := 100\<rparr>, 100, 0)"
    using fail [of "new_breaker\<lparr>cb_failures := 4\<rparr>" 100 0] by (simp add: on_failure_def new_breaker_def)
  with a ad [of 4 0] have "breaker_step\<^sup>*\<^sup>* (new_breaker, 100, 0)
      (new_breaker\<lparr>cb_state := BrOpen, cb_failures := 5, cb_opened_at := 100\<rparr>, 100, 0)"
    by (meson rtranclp.rtrancl_into_rtrancl)
  then show ?thesis by (rule rtranclp.rtrancl_into_rtrancl) (rule tick, simp)
qed

end
