(* ===== verification/Auth_Models.thy ===== *)
theory Auth_Models
  imports Security Uuid
begin

section \<open>The auth service: tables, configuration and its cryptography\<close>

text \<open>
  \<open>apps/auth/models.py\<close> and \<open>apps/auth/settings.py\<close>: the tables of the \<open>auth\<close> schema that
  the sign-in, token and second-factor services use, the configuration they read, and the
  request transaction of \<open>knowledgeos_core/db.py\<close>. SHA-256, bcrypt, JWT signing and
  encryption are parameters.
\<close>

record auth_user =
  us_id :: uuid
  us_email :: string
  us_email_verified_at :: "timestamp option"
  us_password_hash :: "string option"
  us_password_changed_at :: "timestamp option"
  us_full_name :: "string option"
  us_locale :: "string option"
  us_roles :: "string list"
  us_extra_permissions :: "string list"
  us_is_active :: bool
  us_banned_at :: "timestamp option"
  us_ban_reason :: "string option"
  us_failed_login_attempts :: int
  us_locked_until :: "timestamp option"
  us_mfa_enabled :: bool
  us_last_login_at :: "timestamp option"
  us_last_login_ip :: "string option"
  us_deleted_at :: "timestamp option"

record auth_session =
  ss_id :: uuid
  ss_user_id :: uuid
  ss_ip_address :: "string option"
  ss_user_agent :: "string option"
  ss_device_label :: "string option"
  ss_auth_method :: string
  ss_last_seen_at :: "timestamp option"
  ss_expires_at :: timestamp
  ss_revoked_at :: "timestamp option"
  ss_revoked_reason :: "string option"
  ss_created_at :: timestamp

record refresh_token =
  rt_id :: uuid
  rt_user_id :: uuid
  rt_session_id :: uuid
  rt_family_id :: uuid
  rt_parent_id :: "uuid option"
  rt_token_hash :: string
  rt_csrf_hash :: string
  rt_expires_at :: timestamp
  rt_used_at :: "timestamp option"
  rt_revoked_at :: "timestamp option"
  rt_revoked_reason :: "string option"
  rt_created_at :: timestamp

record verification_token =
  vt_user_id :: uuid
  vt_token_hash :: string
  vt_purpose :: string
  vt_email :: string
  vt_expires_at :: timestamp
  vt_used_at :: "timestamp option"

record reset_token =
  pt_user_id :: uuid
  pt_token_hash :: string
  pt_expires_at :: timestamp
  pt_used_at :: "timestamp option"
  pt_requested_ip :: "string option"

record totp_secret =
  ts_user_id :: uuid
  ts_secret_encrypted :: string
  ts_confirmed_at :: "timestamp option"
  ts_last_used_step :: "int option"

record recovery_code =
  rc_user_id :: uuid
  rc_code_hash :: string
  rc_used_at :: "timestamp option"

record audit_log =
  al_user_id :: "uuid option"
  al_actor_id :: "uuid option"
  al_action :: string
  al_status :: string
  al_ip_address :: "string option"
  al_user_agent :: "string option"
  al_meta :: jobj

record auth_db =
  users :: "auth_user list"
  auth_sessions :: "auth_session list"
  refresh_tokens :: "refresh_token list"
  verification_tokens :: "verification_token list"
  reset_tokens :: "reset_token list"
  totp_secrets :: "totp_secret list"
  recovery_codes :: "recovery_code list"
  audit_logs :: "audit_log list"

definition empty_auth_db :: auth_db where
  "empty_auth_db = \<lparr>users = [], auth_sessions = [], refresh_tokens = [], verification_tokens = [],
     reset_tokens = [], totp_secrets = [], recovery_codes = [], audit_logs = []\<rparr>"

text \<open>The unique columns.\<close>

definition user_clash :: "auth_user \<Rightarrow> auth_user \<Rightarrow> bool" where
  "user_clash u x \<longleftrightarrow> us_email u = us_email x"

definition token_clash :: "refresh_token \<Rightarrow> refresh_token \<Rightarrow> bool" where
  "token_clash t x \<longleftrightarrow> rt_token_hash t = rt_token_hash x"

interpretation users_tbl: keyed_table us_email "\<lambda>_. True" user_clash
  by unfold_locales (auto simp: user_clash_def)

interpretation tokens_tbl: keyed_table rt_token_hash "\<lambda>_. True" token_clash
  by unfold_locales (auto simp: token_clash_def)

record auth_settings =
  as_jwt_issuer :: string
  as_jwt_audience :: string
  as_access_token_ttl :: int
  as_refresh_token_ttl :: int
  as_mfa_challenge_ttl :: int
  as_email_verification_ttl :: int
  as_password_reset_ttl :: int
  as_token_retention_days :: int
  as_audit_retention_days :: int
  as_login_max_attempts :: int
  as_login_lockout_seconds :: int
  as_totp_period :: int
  as_recovery_code_count :: nat

definition default_auth_settings :: auth_settings where
  "default_auth_settings =
     \<lparr>as_jwt_issuer = ''knowledgeos-auth'', as_jwt_audience = ''knowledgeos-api'', as_access_token_ttl = 900,
      as_refresh_token_ttl = 2592000, as_mfa_challenge_ttl = 300, as_email_verification_ttl = 86400,
      as_password_reset_ttl = 3600, as_token_retention_days = 45, as_audit_retention_days = 365,
      as_login_max_attempts = 5, as_login_lockout_seconds = 900, as_totp_period = 30,
      as_recovery_code_count = 10\<rparr>"

text \<open>
  The library functions: the digest of an opaque token, the signature of a JWT from its
  header and claims, its decoding under the active public key with the given issuer,
  audience and algorithm, bcrypt, and the encryption of stored secrets.
\<close>

record auth_crypto =
  cr_hash_token :: "string \<Rightarrow> string"
  cr_kid :: string
  cr_algorithm :: string
  cr_sign :: "jobj \<Rightarrow> jobj \<Rightarrow> string"
  cr_decode :: "string \<Rightarrow> string list \<Rightarrow> string \<Rightarrow> string \<Rightarrow> jobj option"
  cr_hash_password :: "string \<Rightarrow> string"
  cr_verify_password :: "string \<Rightarrow> string \<Rightarrow> bool"
  cr_needs_rehash :: "string \<Rightarrow> bool"
  cr_encrypt :: "string \<Rightarrow> string"
  cr_decrypt :: "string \<Rightarrow> string option"

text \<open>
  A handler runs in one database session: its writes are committed when it returns and
  rolled back when it raises. An operation of a service therefore gives the session's state
  with its result, and the route decides what of it lasts.
\<close>

definition in_session :: "'db \<Rightarrow> 'db \<times> 'a result \<Rightarrow> 'db \<times> 'a result" where
  "in_session db r = (case r of (db', Inr x) \<Rightarrow> (db', Inr x) | (_, Inl e) \<Rightarrow> (db, Inl e))"

text \<open>\<open>(user_agent or "")[:400] or None\<close>\<close>

definition clip_agent :: "string option \<Rightarrow> string option" where
  "clip_agent a = or_opt (Some (take 400 (or_str a ''''))) None"

definition record_audit ::
  "auth_db \<Rightarrow> uuid option \<Rightarrow> uuid option \<Rightarrow> string \<Rightarrow> string \<Rightarrow> string option \<Rightarrow> string option \<Rightarrow> jobj \<Rightarrow> auth_db" where
  "record_audit db user actor action status ip agent meta =
     db\<lparr>audit_logs := audit_logs db @
         [\<lparr>al_user_id = user, al_actor_id = actor, al_action = action, al_status = status,
           al_ip_address = ip, al_user_agent = clip_agent agent, al_meta = meta\<rparr>]\<rparr>"

definition get_user :: "auth_db \<Rightarrow> uuid \<Rightarrow> auth_user option" where
  "get_user db uid = first_row (\<lambda>u. us_id u = uid) (users db)"

definition get_by_id :: "auth_db \<Rightarrow> uuid \<Rightarrow> auth_user result" where
  "get_by_id db uid =
     (case get_user db uid of None \<Rightarrow> Inl (raise_default NotFoundError)
      | Some u \<Rightarrow> if us_deleted_at u \<noteq> None then Inl (raise_default NotFoundError) else Inr u)"

definition save_user :: "auth_db \<Rightarrow> auth_user \<Rightarrow> (auth_user \<Rightarrow> auth_user) \<Rightarrow> auth_db" where
  "save_user db u f = db\<lparr>users := update_rows (\<lambda>x. us_id x = us_id u) f (users db)\<rparr>"

subsection \<open>Lemmas\<close>

lemma in_session_simps [simp]:
  "in_session db (db', Inr x) = (db', Inr x)"
  "in_session db (db', Inl e) = (db, Inl e)"
  by (simp_all add: in_session_def)

lemma in_session_Inr: "in_session db r = (db', Inr x) \<longleftrightarrow> r = (db', Inr x)"
  by (cases r; cases "snd r") (auto simp: in_session_def)

lemma in_session_Inl: "in_session db r = (db', Inl e) \<longleftrightarrow> db' = db \<and> snd r = Inl e"
  by (cases r; cases "snd r") (auto simp: in_session_def)

lemma record_audit_simps [simp]:
  "users (record_audit db u a act s ip ag m) = users db"
  "auth_sessions (record_audit db u a act s ip ag m) = auth_sessions db"
  "refresh_tokens (record_audit db u a act s ip ag m) = refresh_tokens db"
  "verification_tokens (record_audit db u a act s ip ag m) = verification_tokens db"
  "reset_tokens (record_audit db u a act s ip ag m) = reset_tokens db"
  "totp_secrets (record_audit db u a act s ip ag m) = totp_secrets db"
  "recovery_codes (record_audit db u a act s ip ag m) = recovery_codes db"
  by (simp_all add: record_audit_def)

lemma save_user_simps [simp]:
  "auth_sessions (save_user db u f) = auth_sessions db"
  "refresh_tokens (save_user db u f) = refresh_tokens db"
  "verification_tokens (save_user db u f) = verification_tokens db"
  "reset_tokens (save_user db u f) = reset_tokens db"
  "totp_secrets (save_user db u f) = totp_secrets db"
  "recovery_codes (save_user db u f) = recovery_codes db"
  "audit_logs (save_user db u f) = audit_logs db"
  by (simp_all add: save_user_def)

end
