(* ===== verification/Auth_Tokens.thy ===== *)
theory Auth_Tokens
  imports Auth_Models "HOL-Library.List_Lexorder" "HOL-Library.Char_ord"
begin

section \<open>Access tokens, sessions and refresh rotation\<close>

text \<open>
  \<open>apps/auth/services/tokens.py\<close> and the refresh and logout routes of
  \<open>apps/auth/routers/auth.py\<close> and \<open>sessions.py\<close>: permission resolution, minting, sessions, the rotation of
  refresh tokens with reuse detection, and revocation. The lemmas follow the chain of a
  sign-in: every family has at most one unconsumed token and a token is exchanged at most
  once; and what the service writes into a token is what the other services read.
\<close>

subsection \<open>Roles and permissions\<close>

datatype UserRole = RoleUser | RoleAuthor | RoleModerator | RoleAdmin | RoleSuperadmin

definition role_of_name :: "string \<Rightarrow> UserRole option" where
  "role_of_name n =
     map_of [(''user'', RoleUser), (''author'', RoleAuthor), (''moderator'', RoleModerator),
             (''admin'', RoleAdmin), (''superadmin'', RoleSuperadmin)] n"

definition Permission :: "string list" where
  "Permission =
     [''books:read'', ''books:write'', ''books:delete'', ''books:publish'', ''users:read'',
      ''users:write'', ''users:delete'', ''orders:read'', ''orders:refund'', ''reviews:moderate'',
      ''automation:run'', ''automation:read'', ''analytics:read'', ''settings:write'', ''ai:use'']"

fun ROLE_PERMISSIONS :: "UserRole \<Rightarrow> string list" where
  "ROLE_PERMISSIONS RoleUser = [''books:read'', ''ai:use'']"
| "ROLE_PERMISSIONS RoleAuthor =
     [''books:read'', ''books:write'', ''ai:use'', ''automation:run'', ''automation:read'']"
| "ROLE_PERMISSIONS RoleModerator =
     [''books:read'', ''books:write'', ''reviews:moderate'', ''users:read'', ''ai:use'']"
| "ROLE_PERMISSIONS RoleAdmin =
     [''books:read'', ''books:write'', ''books:delete'', ''books:publish'', ''users:read'',
      ''users:write'', ''orders:read'', ''orders:refund'', ''reviews:moderate'', ''automation:run'',
      ''automation:read'', ''analytics:read'', ''ai:use'']"
| "ROLE_PERMISSIONS RoleSuperadmin = Permission"

definition resolve_permissions :: "auth_user \<Rightarrow> string list" where
  "resolve_permissions u =
     sort (remdups (concat (map (\<lambda>n. case role_of_name n of None \<Rightarrow> [] | Some r \<Rightarrow> ROLE_PERMISSIONS r)
                               (us_roles u)) @ us_extra_permissions u))"

subsection \<open>Minting\<close>

text \<open>What one request draws: the clock, identifiers and the two opaque values.\<close>

record token_env =
  te_now :: timestamp
  te_session_id :: uuid
  te_token_id :: uuid
  te_family_id :: uuid
  te_raw_refresh :: string
  te_raw_csrf :: string
  te_jti :: uuid

record IssuedTokens =
  it_access_token :: string
  it_expires_in :: int
  it_refresh_token :: string
  it_csrf_token :: string
  it_user_id :: uuid
  it_session_id :: uuid
  it_refresh_expires_at :: timestamp

definition epoch_seconds :: "timestamp \<Rightarrow> int" where
  "epoch_seconds t = t div 1000000"

definition access_claims :: "auth_settings \<Rightarrow> timestamp \<Rightarrow> uuid \<Rightarrow> auth_user \<Rightarrow> uuid \<Rightarrow> jobj" where
  "access_claims st now jti u sid =
     [(''sub'', JStr (str_uuid (us_id u))), (''email'', JStr (us_email u)),
      (''roles'', JArr (map JStr (us_roles u))),
      (''permissions'', JArr (map JStr (resolve_permissions u))),
      (''sid'', JStr (str_uuid sid)), (''jti'', JStr (str_uuid jti)), (''typ'', JStr ''access''),
      (''iss'', JStr (as_jwt_issuer st)), (''aud'', JStr (as_jwt_audience st)),
      (''iat'', JInt (epoch_seconds now)), (''nbf'', JInt (epoch_seconds now)),
      (''exp'', JInt (epoch_seconds (now + as_access_token_ttl st * 1000000)))]"

definition access_header :: "auth_crypto \<Rightarrow> jobj" where
  "access_header cr = [(''alg'', JStr (cr_algorithm cr)), (''kid'', JStr (cr_kid cr)), (''typ'', JStr ''JWT'')]"

definition mint_access_token ::
  "auth_crypto \<Rightarrow> auth_settings \<Rightarrow> timestamp \<Rightarrow> uuid \<Rightarrow> auth_user \<Rightarrow> uuid \<Rightarrow> string \<times> int" where
  "mint_access_token cr st now jti u sid =
     (cr_sign cr (access_header cr) (access_claims st now jti u sid), as_access_token_ttl st)"

definition challenge_claims :: "auth_settings \<Rightarrow> timestamp \<Rightarrow> uuid \<Rightarrow> uuid \<Rightarrow> jobj" where
  "challenge_claims st now jti uid =
     [(''sub'', JStr (str_uuid uid)), (''typ'', JStr ''mfa_challenge''), (''jti'', JStr (str_uuid jti)),
      (''iss'', JStr (as_jwt_issuer st)), (''aud'', JStr (as_jwt_audience st)),
      (''iat'', JInt (epoch_seconds now)),
      (''exp'', JInt (epoch_seconds (now + as_mfa_challenge_ttl st * 1000000)))]"

definition mint_mfa_challenge ::
  "auth_crypto \<Rightarrow> auth_settings \<Rightarrow> timestamp \<Rightarrow> uuid \<Rightarrow> uuid \<Rightarrow> string \<times> int" where
  "mint_mfa_challenge cr st now jti uid =
     (cr_sign cr [(''alg'', JStr (cr_algorithm cr)), (''typ'', JStr ''JWT''), (''kid'', JStr (cr_kid cr))]
        (challenge_claims st now jti uid), as_mfa_challenge_ttl st)"

definition read_mfa_challenge :: "auth_crypto \<Rightarrow> auth_settings \<Rightarrow> string \<Rightarrow> uuid result" where
  "read_mfa_challenge cr st token =
     (case cr_decode cr token [cr_algorithm cr] (as_jwt_audience st) (as_jwt_issuer st) of
        None \<Rightarrow> Inl (raise_default UnauthorizedError)
      | Some claims \<Rightarrow>
          if jget_null claims ''typ'' \<noteq> JStr ''mfa_challenge'' then Inl (raise_default UnauthorizedError)
          else case jget claims ''sub'' of None \<Rightarrow> Inl (PyExn ''KeyError'')
            | Some (JStr s) \<Rightarrow> (case parse_uuid s of None \<Rightarrow> Inl (PyExn ''ValueError'') | Some u \<Rightarrow> Inr u)
            | Some _ \<Rightarrow> Inl (PyExn ''AttributeError''))"

subsection \<open>Sessions and rotation\<close>

definition issue_pair ::
  "auth_crypto \<Rightarrow> auth_settings \<Rightarrow> token_env \<Rightarrow> auth_db \<Rightarrow> auth_user \<Rightarrow> uuid \<Rightarrow> uuid \<Rightarrow> uuid option \<Rightarrow>
   auth_db \<times> IssuedTokens result" where
  "issue_pair cr st env db u sid family parent =
     (let expires = te_now env + as_refresh_token_ttl st * 1000000;
          row = \<lparr>rt_id = te_token_id env, rt_user_id = us_id u, rt_session_id = sid, rt_family_id = family,
                 rt_parent_id = parent, rt_token_hash = cr_hash_token cr (te_raw_refresh env),
                 rt_csrf_hash = cr_hash_token cr (te_raw_csrf env), rt_expires_at = expires,
                 rt_used_at = None, rt_revoked_at = None, rt_revoked_reason = None,
                 rt_created_at = te_now env\<rparr>
      in case insert_unique token_clash row (refresh_tokens db) of
           None \<Rightarrow> (db, Inl (PyExn ''IntegrityError''))
         | Some t \<Rightarrow>
             (let (access, ttl) = mint_access_token cr st (te_now env) (te_jti env) u sid
              in (db\<lparr>refresh_tokens := t\<rparr>,
                  Inr \<lparr>it_access_token = access, it_expires_in = ttl, it_refresh_token = te_raw_refresh env,
                       it_csrf_token = te_raw_csrf env, it_user_id = us_id u, it_session_id = sid,
                       it_refresh_expires_at = expires\<rparr>)))"

definition start_session ::
  "auth_crypto \<Rightarrow> auth_settings \<Rightarrow> token_env \<Rightarrow> auth_db \<Rightarrow> auth_user \<Rightarrow> string option \<Rightarrow> string option \<Rightarrow>
   string option \<Rightarrow> string \<Rightarrow> auth_db \<times> IssuedTokens result" where
  "start_session cr st env db u ip agent label auth_method =
     (let s = \<lparr>ss_id = te_session_id env, ss_user_id = us_id u, ss_ip_address = ip,
               ss_user_agent = clip_agent agent, ss_device_label = label, ss_auth_method = auth_method,
               ss_last_seen_at = Some (te_now env),
               ss_expires_at = te_now env + as_refresh_token_ttl st * 1000000,
               ss_revoked_at = None, ss_revoked_reason = None, ss_created_at = te_now env\<rparr>
      in issue_pair cr st env (db\<lparr>auth_sessions := auth_sessions db @ [s]\<rparr>) u (te_session_id env)
           (te_family_id env) None)"

definition revoke_tokens :: "(refresh_token \<Rightarrow> bool) \<Rightarrow> timestamp \<Rightarrow> string \<Rightarrow> auth_db \<Rightarrow> auth_db" where
  "revoke_tokens P now reason db =
     db\<lparr>refresh_tokens := update_rows (\<lambda>t. P t \<and> rt_revoked_at t = None)
          (\<lambda>t. t\<lparr>rt_revoked_at := Some now, rt_revoked_reason := Some reason\<rparr>) (refresh_tokens db)\<rparr>"

definition revoke_sessions :: "(auth_session \<Rightarrow> bool) \<Rightarrow> timestamp \<Rightarrow> string \<Rightarrow> auth_db \<Rightarrow> auth_db" where
  "revoke_sessions P now reason db =
     db\<lparr>auth_sessions := update_rows (\<lambda>s. P s \<and> ss_revoked_at s = None)
          (\<lambda>s. s\<lparr>ss_revoked_at := Some now, ss_revoked_reason := Some reason\<rparr>) (auth_sessions db)\<rparr>"

definition revoke_family :: "auth_db \<Rightarrow> timestamp \<Rightarrow> uuid \<Rightarrow> string \<Rightarrow> auth_db" where
  "revoke_family db now family reason = revoke_tokens (\<lambda>t. rt_family_id t = family) now reason db"

definition revoke_session :: "auth_db \<Rightarrow> timestamp \<Rightarrow> uuid \<Rightarrow> string \<Rightarrow> auth_db" where
  "revoke_session db now sid reason =
     revoke_tokens (\<lambda>t. rt_session_id t = sid) now reason (revoke_sessions (\<lambda>s. ss_id s = sid) now reason db)"

definition revoke_all_sessions :: "auth_db \<Rightarrow> timestamp \<Rightarrow> uuid \<Rightarrow> string \<Rightarrow> auth_db" where
  "revoke_all_sessions db now uid reason =
     revoke_tokens (\<lambda>t. rt_user_id t = uid) now reason (revoke_sessions (\<lambda>s. ss_user_id s = uid) now reason db)"

text \<open>The checks on the session and the account behind an unconsumed token.\<close>

definition live_session :: "auth_db \<Rightarrow> timestamp \<Rightarrow> uuid \<Rightarrow> auth_session result" where
  "live_session db now sid =
     (case first_row (\<lambda>s. ss_id s = sid) (auth_sessions db) of
        None \<Rightarrow> Inl (raise_default UnauthorizedError)
      | Some s \<Rightarrow>
          if ss_revoked_at s \<noteq> None then Inl (raise_default UnauthorizedError)
          else if ss_expires_at s < now then Inl (raise_default UnauthorizedError)
          else Inr s)"

definition live_account :: "auth_db \<Rightarrow> uuid \<Rightarrow> auth_user result" where
  "live_account db uid =
     (case get_user db uid of None \<Rightarrow> Inl (raise_default UnauthorizedError)
      | Some u \<Rightarrow>
          if \<not> us_is_active u \<or> us_deleted_at u \<noteq> None then Inl (raise_default UnauthorizedError)
          else if us_banned_at u \<noteq> None then Inl (raise_code UnauthorizedError ''account_banned'')
          else Inr u)"

definition token_usable ::
  "auth_crypto \<Rightarrow> timestamp \<Rightarrow> refresh_token \<Rightarrow> string option \<Rightarrow> unit result" where
  "token_usable cr now r csrf =
     (if rt_revoked_at r \<noteq> None then Inl (raise_default UnauthorizedError)
      else if rt_expires_at r < now then Inl (raise_default UnauthorizedError)
      else if (case csrf of None \<Rightarrow> False | Some c \<Rightarrow> cr_hash_token cr c \<noteq> rt_csrf_hash r)
      then Inl (raise_code UnauthorizedError ''csrf_mismatch'')
      else Inr ())"

definition consume_token :: "auth_db \<Rightarrow> timestamp \<Rightarrow> refresh_token \<Rightarrow> auth_db" where
  "consume_token db now r =
     db\<lparr>refresh_tokens := update_rows (\<lambda>t. rt_token_hash t = rt_token_hash r)
          (\<lambda>t. t\<lparr>rt_used_at := Some now\<rparr>) (refresh_tokens db),
        auth_sessions := update_rows (\<lambda>s. ss_id s = rt_session_id r)
          (\<lambda>s. s\<lparr>ss_last_seen_at := Some now\<rparr>) (auth_sessions db)\<rparr>"

definition find_token :: "auth_crypto \<Rightarrow> auth_db \<Rightarrow> string \<Rightarrow> refresh_token option" where
  "find_token cr db raw = first_row (\<lambda>t. rt_token_hash t = cr_hash_token cr raw) (refresh_tokens db)"

definition rotate ::
  "auth_crypto \<Rightarrow> auth_settings \<Rightarrow> token_env \<Rightarrow> auth_db \<Rightarrow> string \<Rightarrow> string option \<Rightarrow>
   auth_db \<times> IssuedTokens result" where
  "rotate cr st env db raw csrf =
     (case find_token cr db raw of None \<Rightarrow> (db, Inl (raise_default UnauthorizedError))
      | Some r \<Rightarrow>
          if rt_used_at r \<noteq> None then
            (revoke_family db (te_now env) (rt_family_id r) ''reuse_detected'',
             Inl (raise_code UnauthorizedError ''refresh_token_reused''))
          else case token_usable cr (te_now env) r csrf of Inl e \<Rightarrow> (db, Inl e)
          | Inr _ \<Rightarrow>
            case live_session db (te_now env) (rt_session_id r) of Inl e \<Rightarrow> (db, Inl e)
          | Inr s \<Rightarrow>
            case live_account db (rt_user_id r) of Inl e \<Rightarrow> (db, Inl e)
          | Inr u \<Rightarrow>
              issue_pair cr st env (consume_token db (te_now env) r) u (ss_id s) (rt_family_id r) (Some (rt_id r)))"

subsection \<open>Routes\<close>

definition refresh_body ::
  "auth_crypto \<Rightarrow> auth_settings \<Rightarrow> token_env \<Rightarrow> auth_db \<Rightarrow> string option \<Rightarrow> string option \<Rightarrow> string option \<Rightarrow>
   auth_db \<times> (IssuedTokens \<times> auth_user) result" where
  "refresh_body cr st env db cookie body_token csrf_header =
     (let raw = (case cookie of None \<Rightarrow> body_token | Some c \<Rightarrow> Some c);
          from_cookie = cookie \<noteq> None;
          csrf = (if from_cookie then csrf_header else None)
      in if \<not> truthy raw then (db, Inl (raise_default UnauthorizedError))
         else if from_cookie \<and> \<not> truthy csrf then (db, Inl (raise_code UnauthorizedError ''csrf_missing''))
         else case rotate cr st env db (opt_default raw '''') csrf of
           (db', Inl e) \<Rightarrow> (db', Inl e)
         | (db', Inr issued) \<Rightarrow>
             (db', case get_by_id db' (it_user_id issued) of Inl e \<Rightarrow> Inl e | Inr u \<Rightarrow> Inr (issued, u)))"

definition refresh_route ::
  "auth_crypto \<Rightarrow> auth_settings \<Rightarrow> token_env \<Rightarrow> auth_db \<Rightarrow> string option \<Rightarrow> string option \<Rightarrow> string option \<Rightarrow>
   auth_db \<times> (IssuedTokens \<times> auth_user) result" where
  "refresh_route cr st env db cookie body_token csrf_header =
     in_session db (refresh_body cr st env db cookie body_token csrf_header)"

definition logout_route :: "auth_db \<Rightarrow> timestamp \<Rightarrow> Principal \<Rightarrow> auth_db \<times> unit result" where
  "logout_route db now p =
     in_session db
       (case (if truthy (pr_session_id p)
              then (case parse_uuid (opt_default (pr_session_id p) '''') of
                      None \<Rightarrow> Inl (PyExn ''ValueError'') | Some sid \<Rightarrow> Inr (revoke_session db now sid ''logout''))
              else Inr db) of
          Inl e \<Rightarrow> (db, Inl e)
        | Inr db1 \<Rightarrow>
            (case parse_uuid (pr_user_id p) of None \<Rightarrow> (db1, Inl (PyExn ''ValueError''))
             | Some uid \<Rightarrow> (record_audit db1 (Some uid) None ''logout'' ''success'' None None [], Inr ())))"

definition logout_all_route :: "auth_db \<Rightarrow> timestamp \<Rightarrow> auth_user \<Rightarrow> auth_db" where
  "logout_all_route db now u =
     record_audit (revoke_all_sessions db now (us_id u) ''logout_all'') (Some (us_id u)) None
       ''logout.all'' ''success'' None None []"

definition revoke_session_route :: "auth_db \<Rightarrow> timestamp \<Rightarrow> auth_user \<Rightarrow> uuid \<Rightarrow> auth_db \<times> unit result" where
  "revoke_session_route db now u sid =
     (case first_row (\<lambda>s. ss_id s = sid) (auth_sessions db) of
        None \<Rightarrow> (db, Inl (raise_default NotFoundError))
      | Some s \<Rightarrow>
          if ss_user_id s \<noteq> us_id u then (db, Inl (raise_default NotFoundError))
          else (record_audit (revoke_session db now sid ''user_revoked'') (Some (us_id u)) None
                  ''session.revoked'' ''success'' None None [(''session_id'', JStr (str_uuid sid))], Inr ()))"

definition list_sessions :: "auth_db \<Rightarrow> timestamp \<Rightarrow> uuid \<Rightarrow> auth_session list" where
  "list_sessions db now uid =
     (let rows = filter (\<lambda>s. ss_user_id s = uid \<and> ss_revoked_at s = None \<and> now < ss_expires_at s) (auth_sessions db)
      in order_by_desc (\<lambda>s. opt_default (ss_last_seen_at s) 0) (filter (\<lambda>s. ss_last_seen_at s \<noteq> None) rows)
         @ filter (\<lambda>s. ss_last_seen_at s = None) rows)"

subsection \<open>Runs of the service\<close>

text \<open>
  The requests that touch refresh tokens, in any order, with the tokens that were exchanged
  so far. A sign-in draws a family id that was not used before.
\<close>

definition presented :: "string option \<Rightarrow> string option \<Rightarrow> string" where
  "presented cookie body_token = opt_default (case cookie of None \<Rightarrow> body_token | Some c \<Rightarrow> Some c) ''''"

inductive token_step :: "auth_crypto \<Rightarrow> auth_settings \<Rightarrow> auth_db \<times> string list \<Rightarrow> auth_db \<times> string list \<Rightarrow> bool"
  for cr st where
  sign_in: "start_session cr st env db u ip agent label m = (db', Inr it) \<Longrightarrow>
     te_family_id env \<notin> rt_family_id ` set (refresh_tokens db) \<Longrightarrow> token_step cr st (db, used) (db', used)"
| refreshed: "refresh_route cr st env db cookie body_token csrf = (db', Inr x) \<Longrightarrow>
     token_step cr st (db, used) (db', presented cookie body_token # used)"
| refresh_refused: "refresh_route cr st env db cookie body_token csrf = (db', Inl e) \<Longrightarrow>
     token_step cr st (db, used) (db', used)"
| signed_out: "logout_route db now p = (db', r) \<Longrightarrow> token_step cr st (db, used) (db', used)"
| signed_out_everywhere: "token_step cr st (db, used) (logout_all_route db now u, used)"
| session_ended: "revoke_session_route db now u sid = (db', r) \<Longrightarrow> token_step cr st (db, used) (db', used)"

definition open_tokens :: "auth_db \<Rightarrow> uuid \<Rightarrow> nat" where
  "open_tokens db family = count_rows (\<lambda>t. rt_family_id t = family \<and> rt_used_at t = None) (refresh_tokens db)"

definition consumed :: "auth_db \<Rightarrow> string \<Rightarrow> bool" where
  "consumed db h \<longleftrightarrow> (\<exists>t \<in> set (refresh_tokens db). rt_token_hash t = h \<and> rt_used_at t \<noteq> None)"

definition chain_ok :: "auth_crypto \<Rightarrow> auth_db \<times> string list \<Rightarrow> bool" where
  "chain_ok cr s \<longleftrightarrow> tokens_tbl.unique_keys (refresh_tokens (fst s))
     \<and> (\<forall>family. open_tokens (fst s) family \<le> 1)
     \<and> distinct (map (cr_hash_token cr) (snd s)) \<and> (\<forall>raw \<in> set (snd s). consumed (fst s) (cr_hash_token cr raw))"

subsection \<open>Lemmas: the chain of a sign-in\<close>

lemma chain_ok_revoked:
  assumes "chain_ok cr (db, used)" and "refresh_tokens db' = update_rows P f (refresh_tokens db)"
    and "\<And>t. rt_token_hash (f t) = rt_token_hash t" and "\<And>t. rt_family_id (f t) = rt_family_id t"
    and "\<And>t. rt_used_at (f t) = rt_used_at t"
  shows "chain_ok cr (db', used)"
proof -
  have "tokens_tbl.unique_keys (refresh_tokens db')"
    using assms(1,2,3) tokens_tbl.update_keeps_unique by (simp add: chain_ok_def)
  moreover have "open_tokens db' family = open_tokens db family" for family
    unfolding open_tokens_def assms(2) by (simp add: table_simps assms(4,5))
  moreover have "consumed db' h = consumed db h" for h
  proof -
    have "rt_token_hash (if P t then f t else t) = rt_token_hash t"
      "rt_used_at (if P t then f t else t) = rt_used_at t" for t
      by (simp_all add: assms(3,5))
    then show ?thesis unfolding consumed_def assms(2) set_update_rows bex_simps(7) by simp
  qed
  ultimately show ?thesis using assms(1) by (simp add: chain_ok_def)
qed

lemma revoke_tokens_rows: 
  "refresh_tokens (revoke_tokens P now reason db) =
     update_rows (\<lambda>t. P t \<and> rt_revoked_at t = None)
       (\<lambda>t. t\<lparr>rt_revoked_at := Some now, rt_revoked_reason := Some reason\<rparr>) (refresh_tokens db)"
  by (simp add: revoke_tokens_def)

lemma revoke_sessions_rows [simp]: "refresh_tokens (revoke_sessions P now reason db) = refresh_tokens db"
  by (simp add: revoke_sessions_def)

lemma chain_ok_revoke_tokens:
  assumes "chain_ok cr (db, used)" and "refresh_tokens db' = refresh_tokens (revoke_tokens P now reason db)"
  shows "chain_ok cr (db', used)"
  by (rule chain_ok_revoked [OF assms(1) assms(2) [unfolded revoke_tokens_rows]]) simp_all

lemma chain_ok_same:
  assumes "chain_ok cr (db, used)" and "refresh_tokens db' = refresh_tokens db"
  shows "chain_ok cr (db', used)"
  using assms by (simp add: chain_ok_def open_tokens_def consumed_def)

text \<open>What a successful exchange did.\<close>

lemma issue_pair_effect:
  assumes "issue_pair cr st env db u sid family parent = (db', Inr it)"
  shows "\<exists>row. refresh_tokens db' = refresh_tokens db @ [row] \<and> rt_family_id row = family
     \<and> rt_token_hash row = cr_hash_token cr (te_raw_refresh env) \<and> rt_used_at row = None
     \<and> rt_user_id row = us_id u \<and> rt_session_id row = sid \<and> rt_revoked_at row = None
     \<and> (\<forall>t \<in> set (refresh_tokens db). rt_token_hash t \<noteq> rt_token_hash row)
     \<and> users db' = users db \<and> it_user_id it = us_id u"
  using assms unfolding issue_pair_def Let_def mint_access_token_def
  by (fastforce simp: insert_unique_Some token_clash_def split: option.splits)

lemma rotate_success:
  assumes "rotate cr st env db raw csrf = (db', Inr it)"
  shows "\<exists>r u s. find_token cr db raw = Some r \<and> rt_used_at r = None \<and> rt_revoked_at r = None
     \<and> te_now env \<le> rt_expires_at r \<and> live_session db (te_now env) (rt_session_id r) = Inr s
     \<and> live_account db (rt_user_id r) = Inr u
     \<and> (\<forall>c. csrf = Some c \<longrightarrow> cr_hash_token cr c = rt_csrf_hash r)
     \<and> issue_pair cr st env (consume_token db (te_now env) r) u (ss_id s) (rt_family_id r) (Some (rt_id r))
         = (db', Inr it)"
proof (cases "find_token cr db raw")
  case None
  with assms show ?thesis by (simp add: rotate_def)
next
  case (Some r)
  with assms have "rt_used_at r = None" by (auto simp: rotate_def split: if_splits)
  with assms Some show ?thesis
    unfolding rotate_def token_usable_def
    by (auto split: if_splits sum.splits option.splits)
qed

lemma refresh_success:
  assumes "refresh_route cr st env db cookie body_token csrf = (db', Inr (it, u))"
  shows "rotate cr st env db (presented cookie body_token) (if cookie \<noteq> None then csrf else None) = (db', Inr it)
     \<and> (cookie \<noteq> None \<longrightarrow> truthy csrf)"
proof -
  from assms have b: "refresh_body cr st env db cookie body_token csrf = (db', Inr (it, u))"
    by (simp add: refresh_route_def in_session_Inr)
  let ?r = "rotate cr st env db (presented cookie body_token) (if cookie \<noteq> None then csrf else None)"
  from b show ?thesis
    by (cases ?r; cases "snd ?r")
       (auto simp: refresh_body_def presented_def Let_def split: if_splits sum.splits)
qed

lemma find_token_row:
  "find_token cr db raw = Some r \<Longrightarrow> r \<in> set (refresh_tokens db) \<and> rt_token_hash r = cr_hash_token cr raw"
  unfolding find_token_def using first_row_Some by fastforce

lemma consumed_not_found_unused:
  assumes "tokens_tbl.unique_keys (refresh_tokens db)" and "find_token cr db raw = Some r"
  shows "consumed db (cr_hash_token cr raw) \<longleftrightarrow> rt_used_at r \<noteq> None"
  using find_token_row [OF assms(2)] tokens_tbl.unique_key_eq [OF assms(1)]
  unfolding consumed_def by metis

lemma open_tokens_append:
  "refresh_tokens db' = t @ [row] \<Longrightarrow>
     open_tokens db' family = count_rows (\<lambda>t. rt_family_id t = family \<and> rt_used_at t = None) t
       + (if rt_family_id row = family \<and> rt_used_at row = None then 1 else 0)"
  by (simp add: open_tokens_def table_simps)

text \<open>Consuming a family's open token closes it.\<close>

lemma count_rows_update_le:
  "(\<And>t. P (f t) \<Longrightarrow> P t) \<Longrightarrow> count_rows P (update_rows Q f ts) \<le> count_rows P ts"
  by (induction ts) (auto simp: count_rows_def)

lemma count_rows_update_less:
  "(\<And>t. \<not> P (f t)) \<Longrightarrow> r \<in> set ts \<Longrightarrow> P r \<Longrightarrow> Q r \<Longrightarrow>
     count_rows P (update_rows Q f ts) < count_rows P ts"
proof (induction ts)
  case (Cons t ts)
  have le: "count_rows P (update_rows Q f ts) \<le> count_rows P ts"
    using Cons.prems(1) by (intro count_rows_update_le) auto
  show ?case
  proof (cases "t = r")
    case True
    with Cons.prems le show ?thesis by simp
  next
    case False
    with Cons have "count_rows P (update_rows Q f ts) < count_rows P ts" by auto
    with Cons.prems(1) show ?thesis by simp
  qed
qed simp

lemma chain_ok_refreshed:
  assumes ok: "chain_ok cr (db, used)" and rot: "rotate cr st env db raw csrf = (db', Inr it)"
  shows "chain_ok cr (db', raw # used)"
proof -
  let ?c = "\<lambda>r. consume_token db (te_now env) r"
  obtain r u and s :: auth_session where r: "find_token cr db raw = Some r" "rt_used_at r = None"
    and iss: "issue_pair cr st env (?c r) u (ss_id s) (rt_family_id r) (Some (rt_id r)) = (db', Inr it)"
    using rotate_success [OF rot] by blast
  note rrow = find_token_row [OF r(1)]
  obtain row where row: "refresh_tokens db' = refresh_tokens (?c r) @ [row]" "rt_family_id row = rt_family_id r"
      "rt_used_at row = None" "\<forall>t \<in> set (refresh_tokens (?c r)). rt_token_hash t \<noteq> rt_token_hash row"
    using issue_pair_effect [OF iss] by blast
  have c: "refresh_tokens (?c r) = update_rows (\<lambda>t. rt_token_hash t = rt_token_hash r)
      (\<lambda>t. t\<lparr>rt_used_at := Some (te_now env)\<rparr>) (refresh_tokens db)" by (simp add: consume_token_def)
  have uniq: "tokens_tbl.unique_keys (refresh_tokens db)" using ok by (simp add: chain_ok_def)
  have "tokens_tbl.unique_keys (refresh_tokens (?c r))"
    unfolding c by (rule tokens_tbl.update_keeps_unique [OF uniq]) simp_all
  then have "tokens_tbl.unique_keys (refresh_tokens db')"
    using row(1,4) by (auto simp: tokens_tbl.unique_keys_def)
  moreover have "open_tokens db' family \<le> 1" for family
  proof -
    let ?P = "\<lambda>t. rt_family_id t = family \<and> rt_used_at t = None"
    have le: "open_tokens db family \<le> 1" using ok by (simp add: chain_ok_def)
    have "count_rows ?P (refresh_tokens (?c r)) \<le> count_rows ?P (refresh_tokens db)"
      unfolding c by (rule count_rows_update_le) auto
    moreover have "count_rows ?P (refresh_tokens (?c r)) < count_rows ?P (refresh_tokens db)" if "rt_family_id r = family"
      unfolding c using that r(2) rrow by (intro count_rows_update_less) auto
    ultimately show ?thesis
      using le row(2) unfolding open_tokens_append [OF row(1)] open_tokens_def [of db] by auto
  qed
  moreover have moved: "(if rt_token_hash t = rt_token_hash r then t\<lparr>rt_used_at := Some (te_now env)\<rparr> else t)
      \<in> set (refresh_tokens db')" if "t \<in> set (refresh_tokens db)" for t
    unfolding row(1) c set_append set_update_rows using that by blast
  then have "consumed db' h" if "consumed db h" for h
    using that unfolding consumed_def by (metis option.distinct(1) refresh_token.ext_inject refresh_token.surjective refresh_token.update_convs(9))
  moreover have "consumed db' (cr_hash_token cr raw)"
    unfolding consumed_def using moved [of r] rrow
    by (intro bexI [of _ "r\<lparr>rt_used_at := Some (te_now env)\<rparr>"]) simp_all
  moreover have "cr_hash_token cr raw \<notin> cr_hash_token cr ` set used"
    using consumed_not_found_unused [OF uniq r(1)] r(2) ok by (auto simp: chain_ok_def)
  ultimately show ?thesis using ok by (auto simp: chain_ok_def)
qed

lemma chain_ok_sign_in:
  assumes ok: "chain_ok cr (db, used)"
    and st: "start_session cr st env db u ip agent label m = (db', Inr it)"
    and fresh: "te_family_id env \<notin> rt_family_id ` set (refresh_tokens db)"
  shows "chain_ok cr (db', used)"
proof -
  obtain row where row: "refresh_tokens db' = refresh_tokens db @ [row]" "rt_family_id row = te_family_id env"
      "\<forall>t \<in> set (refresh_tokens db). rt_token_hash t \<noteq> rt_token_hash row"
    using issue_pair_effect [OF st [unfolded start_session_def Let_def]] by auto
  have "tokens_tbl.unique_keys (refresh_tokens db')"
    using ok row(1,3) by (auto simp: tokens_tbl.unique_keys_def chain_ok_def)
  moreover have "open_tokens db' family \<le> 1" for family
  proof (cases "family = te_family_id env")
    case True
    with fresh have "count_rows (\<lambda>t. rt_family_id t = family \<and> rt_used_at t = None) (refresh_tokens db) = 0"
      by (metis (mono_tags, lifting) count_rows_zero image_eqI)
    then show ?thesis using open_tokens_append [OF row(1)] by simp
  next
    case False
    with ok row(2) show ?thesis
      unfolding open_tokens_append [OF row(1)] by (auto simp: chain_ok_def open_tokens_def)
  qed
  moreover have "consumed db' h" if "consumed db h" for h
    using that row(1) by (auto simp: consumed_def)
  ultimately show ?thesis using ok by (auto simp: chain_ok_def)
qed

lemma logout_rows:
  assumes "logout_route db now p = (db', r)"
  shows "refresh_tokens db' = refresh_tokens db
     \<or> (\<exists>sid. refresh_tokens db' = refresh_tokens (revoke_session db now sid ''logout''))"
  using assms by (auto simp: logout_route_def in_session_def split: if_splits option.splits)

lemma chain_ok_revoke_session:
  assumes "chain_ok cr (db, used)" and "refresh_tokens db' = refresh_tokens (revoke_session db now sid reason)"
  shows "chain_ok cr (db', used)"
  using assms(2) unfolding revoke_session_def
  by (rule chain_ok_revoke_tokens [OF chain_ok_same [OF assms(1) revoke_sessions_rows]])

lemma token_step_chain_ok: "token_step cr st s s' \<Longrightarrow> chain_ok cr s \<Longrightarrow> chain_ok cr s'"
proof (induction rule: token_step.induct)
  case (sign_in env db u ip agent label m db' it used)
  show ?case by (rule chain_ok_sign_in [OF sign_in(3,1,2)])
next
  case (refreshed env db cookie body_token csrf db' x used)
  obtain it u where "x = (it, u)" by (cases x)
  with refreshed(1) have "refresh_route cr st env db cookie body_token csrf = (db', Inr (it, u))" by simp
  from refresh_success [OF this] show ?case by (blast intro: chain_ok_refreshed [OF refreshed(2)])
next
  case (refresh_refused env db cookie body_token csrf db' e used)
  then show ?case by (simp add: refresh_route_def in_session_Inl)
next
  case (signed_out db now p db' r used)
  from logout_rows [OF signed_out(1)] show ?case
    using chain_ok_same [OF signed_out(2)] chain_ok_revoke_session [OF signed_out(2)] by blast
next
  case (signed_out_everywhere db used now u)
  have "refresh_tokens (logout_all_route db now u) = refresh_tokens (revoke_tokens (\<lambda>t. rt_user_id t = us_id u) now
      ''logout_all'' (revoke_sessions (\<lambda>s. ss_user_id s = us_id u) now ''logout_all'' db))"
    by (simp add: logout_all_route_def revoke_all_sessions_def)
  then show ?case
    by (rule chain_ok_revoke_tokens [OF chain_ok_same [OF signed_out_everywhere revoke_sessions_rows]])
next
  case (session_ended db now u sid db' r used)
  have "refresh_tokens db' = refresh_tokens db
     \<or> refresh_tokens db' = refresh_tokens (revoke_session db now sid ''user_revoked'')"
    using session_ended(1) by (auto simp: revoke_session_route_def split: option.splits if_splits)
  then show ?case
    using chain_ok_same [OF session_ended(2)] chain_ok_revoke_session [OF session_ended(2)] by blast
qed

lemma token_run_chain_ok: "(token_step cr st)\<^sup>*\<^sup>* s s' \<Longrightarrow> chain_ok cr s \<Longrightarrow> chain_ok cr s'"
  by (induction rule: rtranclp_induct) (auto intro: token_step_chain_ok)

text \<open>
  C14: A refresh token is exchanged at most once, and a sign-in has one current token. Over any
  sequence of sign-ins, refreshes (granted and refused), sign-outs and revocations, no token
  was exchanged twice, every family of tokens that stem from one sign-in has at most one
  token that was not exchanged yet, and a token that was exchanged is refused from then on.
\<close>

theorem refresh_chain_linear:
  assumes "refresh_tokens db0 = []" and "(token_step cr st)\<^sup>*\<^sup>* (db0, []) (db, used)"
  shows "distinct used \<and> (\<forall>family. open_tokens db family \<le> 1)
     \<and> (\<forall>cookie body_token. presented cookie body_token \<in> set used \<longrightarrow>
          (\<forall>env csrf. \<exists>e. refresh_route cr st env db cookie body_token csrf = (db, Inl e)))"
proof -
  have "chain_ok cr (db0, [])" using assms(1) by (simp add: chain_ok_def open_tokens_def)
  then have ok: "chain_ok cr (db, used)" using token_run_chain_ok [OF assms(2)] by blast
  have "\<exists>e. refresh_route cr st env db cookie body_token csrf = (db, Inl e)"
    if used: "presented cookie body_token \<in> set used" for env csrf cookie body_token
  proof (cases "refresh_route cr st env db cookie body_token csrf")
    case (Pair db' r)
    show ?thesis
    proof (cases r)
      case (Inl e)
      with Pair show ?thesis by (simp add: refresh_route_def in_session_Inl)
    next
      case (Inr x)
      then have "chain_ok cr (db', presented cookie body_token # used)"
        using Pair by (cases x) (auto dest!: refresh_success intro: chain_ok_refreshed [OF ok])
      with used show ?thesis by (auto simp: chain_ok_def)
    qed
  qed
  with ok show ?thesis by (auto simp: chain_ok_def distinct_map)
qed

text \<open>
  Reuse detection does not last. Presenting a consumed token makes the token service
  revoke every token of its family and raise; the raise rolls the request's transaction
  back, so the route answers \<open>refresh_token_reused\<close> and the database is as it was: no token
  of the family is revoked, and the holder of the family's current token, the thief or the
  victim, keeps refreshing.
\<close>

lemma reuse_detection_rolled_back:
  assumes "find_token cr db raw = Some r" and "rt_used_at r \<noteq> None" and "raw \<noteq> []"
  shows "(\<forall>t \<in> set (refresh_tokens (fst (rotate cr st env db raw csrf))).
            rt_family_id t = rt_family_id r \<longrightarrow> rt_revoked_at t \<noteq> None)
     \<and> refresh_route cr st env db None (Some raw) csrf =
         (db, Inl (raise_code UnauthorizedError ''refresh_token_reused''))"
proof -
  have rot: "rotate cr st env db raw c = (revoke_family db (te_now env) (rt_family_id r) ''reuse_detected'',
      Inl (raise_code UnauthorizedError ''refresh_token_reused''))" for c
    using assms(1,2) by (simp add: rotate_def)
  have "rt_revoked_at t \<noteq> None"
    if "t \<in> set (refresh_tokens (revoke_family db (te_now env) (rt_family_id r) ''reuse_detected''))"
      "rt_family_id t = rt_family_id r" for t
    using that by (auto simp: revoke_family_def revoke_tokens_rows set_update_rows split: if_splits)
  with rot assms(3) show ?thesis
    by (simp add: refresh_route_def refresh_body_def truthy_def opt_default_def)
qed

text \<open>
  C35: What the auth service writes into a token is what every service reads. When the JWT
  library reads back what was signed, a minted access token verifies at any service that
  knows the key, and the caller it gives has the account's id, roles and session and exactly
  the permissions its roles and extra grants amount to. The challenge token of a half-finished sign-in
  is refused by every service, although the same key signed it, and only it is accepted as
  a challenge, for the account it was made for.
\<close>

theorem minted_tokens_understood:
  assumes key: "cr_kid cr \<noteq> []" "cr_algorithm cr \<in> set (tv_algorithms tv)"
      "get_key c (tv_cache_ttl tv) now doc1 doc2 (cr_kid cr) = (c', Inr k)"
    and access: "fst (mint_access_token cr st t jti u sid) = token"
      "jl_header jwt token = Some (access_header cr)"
      "jl_decode jwt token k tv = Claims (access_claims st t jti u sid)"
      "cr_decode cr token [cr_algorithm cr] (as_jwt_audience st) (as_jwt_issuer st)
         = Some (access_claims st t jti u sid)"
    and challenge: "fst (mint_mfa_challenge cr st t' jti' (us_id u)) = pending"
      "jl_header jwt pending = Some (access_header cr)"
      "jl_decode jwt pending k tv = Claims (challenge_claims st t' jti' (us_id u))"
      "cr_decode cr pending [cr_algorithm cr] (as_jwt_audience st) (as_jwt_issuer st)
         = Some (challenge_claims st t' jti' (us_id u))"
    and uid: "valid_uuid (us_id u)"
  shows "(\<exists>p. verify_token tv jwt c now doc1 doc2 token = (c', Inr p)
            \<and> pr_user_id p = str_uuid (us_id u) \<and> pr_roles p = us_roles u
            \<and> pr_session_id p = Some (str_uuid sid) \<and> sorted (pr_permissions p) \<and> distinct (pr_permissions p)
            \<and> set (pr_permissions p) = set (us_extra_permissions u)
                \<union> {q. \<exists>n \<in> set (us_roles u). \<exists>r. role_of_name n = Some r \<and> q \<in> set (ROLE_PERMISSIONS r)})
     \<and> verify_token tv jwt c now doc1 doc2 pending = (c', Inl (raise_default UnauthorizedError))
     \<and> read_mfa_challenge cr st pending = Inr (us_id u)
     \<and> read_mfa_challenge cr st token = Inl (raise_default UnauthorizedError)"
proof -
  have list: "str_list (JArr (map JStr xs)) = xs" for xs by (induction xs) (auto simp: str_list_def)
  have hd: "opt_text (jget_null (access_header cr) ''kid'') = Some (cr_kid cr)"
    "jget_null (access_header cr) ''alg'' \<in> set (map JStr (tv_algorithms tv))"
    using key(2) by (simp_all add: access_header_def jget_null_def opt_text_def)
  have v: "verify_token tv jwt c now doc1 doc2 token
      = (c', Inr (principal_of_claims (access_claims st t jti u sid) (str_uuid (us_id u))))"
    using key(1,3) hd by (simp add: verify_token_def access(2,3) access_claims_def jget_null_def jget_def)
  have perms: "set (resolve_permissions u) = set (us_extra_permissions u)
      \<union> {q. \<exists>n \<in> set (us_roles u). \<exists>r. role_of_name n = Some r \<and> q \<in> set (ROLE_PERMISSIONS r)}"
  proof -
    have "set (case role_of_name n of None \<Rightarrow> [] | Some r \<Rightarrow> ROLE_PERMISSIONS r)
        = {q. \<exists>r. role_of_name n = Some r \<and> q \<in> set (ROLE_PERMISSIONS r)}" for n
      by (cases "role_of_name n") simp_all
    then show ?thesis by (auto simp: resolve_permissions_def)
  qed
  have "principal_of_claims (access_claims st t jti u sid) (str_uuid (us_id u))
      = \<lparr>pr_user_id = str_uuid (us_id u), pr_email = Some (us_email u), pr_roles = us_roles u,
         pr_permissions = resolve_permissions u, pr_session_id = Some (str_uuid sid),
         pr_token_id = Some (str_uuid jti), pr_is_service = False\<rparr>"
    by (simp add: principal_of_claims_def access_claims_def jget_null_def opt_text_def list)
  moreover have "sorted (resolve_permissions u) \<and> distinct (resolve_permissions u)"
    by (simp add: resolve_permissions_def)
  moreover have "verify_token tv jwt c now doc1 doc2 pending = (c', Inl (raise_default UnauthorizedError))"
    using key(1,3) hd by (simp add: verify_token_def challenge(2,3) challenge_claims_def jget_null_def)
  moreover have "read_mfa_challenge cr st pending = Inr (us_id u)"
    by (simp add: read_mfa_challenge_def challenge(4) challenge_claims_def jget_null_def jget_def
        parse_str_uuid [OF uid])
  moreover have "read_mfa_challenge cr st token = Inl (raise_default UnauthorizedError)"
    by (simp add: read_mfa_challenge_def access(4) access_claims_def jget_null_def)
  ultimately show ?thesis using v perms by simp
qed

subsection \<open>Witnesses\<close>

definition sample_user :: auth_user where
  "sample_user = \<lparr>us_id = 3, us_email = ''a@b.c'', us_email_verified_at = None, us_password_hash = Some ''pw'',
     us_password_changed_at = None, us_full_name = None, us_locale = None, us_roles = [''user''],
     us_extra_permissions = [''orders:read''], us_is_active = True, us_banned_at = None, us_ban_reason = None,
     us_failed_login_attempts = 0, us_locked_until = None, us_mfa_enabled = False, us_last_login_at = None,
     us_last_login_ip = None, us_deleted_at = None\<rparr>"

definition sample_crypto :: auth_crypto where
  "sample_crypto = \<lparr>cr_hash_token = (\<lambda>s. s), cr_kid = ''k1'', cr_algorithm = ''RS256'',
     cr_sign = (\<lambda>h cl. if jget_null cl ''typ'' = JStr ''access'' then ''a'' else ''m''),
     cr_decode = (\<lambda>tok algs aud iss. Some (if tok = ''a'' then access_claims default_auth_settings 0 5 sample_user 7
                                           else challenge_claims default_auth_settings 0 6 3)),
     cr_hash_password = (\<lambda>s. s), cr_verify_password = (=), cr_needs_rehash = (\<lambda>_. False),
     cr_encrypt = (\<lambda>s. s), cr_decrypt = Some\<rparr>"

definition sample_token_env :: "timestamp \<Rightarrow> string \<Rightarrow> token_env" where
  "sample_token_env now raw = \<lparr>te_now = now, te_session_id = 7, te_token_id = 8, te_family_id = 9,
     te_raw_refresh = raw, te_raw_csrf = ''csrf'', te_jti = 5\<rparr>"

definition sample_auth_db :: auth_db where
  "sample_auth_db = empty_auth_db\<lparr>users := [sample_user]\<rparr>"

text \<open>One sign-in, and the exchange of its first token.\<close>

definition signed_in_db :: auth_db where
  "signed_in_db = fst (start_session sample_crypto default_auth_settings (sample_token_env 0 ''r1'') sample_auth_db
     sample_user None None None ''password'')"

definition rotated_db :: auth_db where
  "rotated_db = fst (refresh_route sample_crypto default_auth_settings (sample_token_env 1 ''r2'') signed_in_db
     None (Some ''r1'') None)"

lemmas sample_auth_defs = sample_user_def sample_crypto_def sample_token_env_def sample_auth_db_def
  empty_auth_db_def default_auth_settings_def

lemma sample_sign_in:
  "\<exists>it. start_session sample_crypto default_auth_settings (sample_token_env 0 ''r1'') sample_auth_db
     sample_user None None None ''password'' = (signed_in_db, Inr it)"
  by (simp add: signed_in_db_def start_session_def issue_pair_def Let_def mint_access_token_def
      insert_unique_def sample_auth_defs)

lemma sample_rotation:
  "\<exists>x. refresh_route sample_crypto default_auth_settings (sample_token_env 1 ''r2'') signed_in_db
     None (Some ''r1'') None = (rotated_db, Inr x)"
  by (simp add: rotated_db_def refresh_route_def refresh_body_def rotate_def find_token_def token_usable_def
      live_session_def live_account_def get_user_def get_by_id_def consume_token_def truthy_def opt_default_def
      signed_in_db_def start_session_def issue_pair_def Let_def mint_access_token_def
      insert_unique_def token_clash_def sample_auth_defs in_session_def)

theorem refresh_chain_linear_witness:
  "\<exists>e. refresh_route sample_crypto default_auth_settings (sample_token_env 2 ''r3'') rotated_db
     None (Some ''r1'') None = (rotated_db, Inl e)"
proof -
  obtain it where a: "start_session sample_crypto default_auth_settings (sample_token_env 0 ''r1'') sample_auth_db
     sample_user None None None ''password'' = (signed_in_db, Inr it)" using sample_sign_in by blast
  obtain x where b: "refresh_route sample_crypto default_auth_settings (sample_token_env 1 ''r2'') signed_in_db
     None (Some ''r1'') None = (rotated_db, Inr x)" using sample_rotation by blast
  have r0: "refresh_tokens sample_auth_db = []" by (simp add: sample_auth_db_def empty_auth_db_def)
  have p: "presented None (Some ''r1'') = ''r1''" by (simp add: presented_def opt_default_def)
  have "(token_step sample_crypto default_auth_settings)\<^sup>*\<^sup>* (sample_auth_db, []) (rotated_db, [''r1''])"
    using token_step.sign_in [OF a, of "[]"] token_step.refreshed [OF b, of "[]"] r0 p
    by (auto intro: rtranclp.rtrancl_into_rtrancl)
  from refresh_chain_linear [OF r0 this] show ?thesis using p by fastforce
qed

definition sample_reader :: jwt_library where
  "sample_reader = \<lparr>jl_header = (\<lambda>_. Some (access_header sample_crypto)),
     jl_decode = (\<lambda>tok _ _. Claims (if tok = ''a'' then access_claims default_auth_settings 0 5 sample_user 7
                                    else challenge_claims default_auth_settings 0 6 3))\<rparr>"

theorem minted_tokens_understood_witness:
  "(\<exists>c' p. verify_token sample_verifier sample_reader new_jwks_cache 5 (Inr [(''k1'', [])]) (Inr []) ''a'' = (c', Inr p)
      \<and> set (pr_permissions p) = {''books:read'', ''ai:use'', ''orders:read''})
   \<and> read_mfa_challenge sample_crypto default_auth_settings ''m'' = Inr 3"
proof -
  obtain c' where k: "get_key new_jwks_cache (tv_cache_ttl sample_verifier) 5 (Inr [(''k1'', [])]) (Inr [])
      (cr_kid sample_crypto) = (c', Inr [])"
    by (simp add: get_key_def new_jwks_cache_def fetch_keys_def dict_update_def sample_verifier_def sample_crypto_def)
  have r: "role_of_name ''user'' = Some RoleUser" by (simp add: role_of_name_def)
  have c: "jget_null (access_claims default_auth_settings 0 5 sample_user 7) ''typ'' = JStr ''access''"
    "jget_null (challenge_claims default_auth_settings 0 6 v) ''typ'' = JStr ''mfa_challenge''" for v
    by (simp_all add: access_claims_def challenge_claims_def jget_null_def)
  have u: "us_id sample_user = 3" "valid_uuid (us_id sample_user)" by (simp_all add: sample_user_def valid_uuid_def)
  have f: "cr_kid sample_crypto \<noteq> []" "cr_algorithm sample_crypto \<in> set (tv_algorithms sample_verifier)"
    by (simp_all add: sample_crypto_def sample_verifier_def)
  have a: "fst (mint_access_token sample_crypto default_auth_settings 0 5 sample_user 7) = ''a''"
    "fst (mint_mfa_challenge sample_crypto default_auth_settings 0 6 (us_id sample_user)) = ''m''"
    using c by (simp_all add: mint_access_token_def mint_mfa_challenge_def sample_crypto_def)
  have d: "jl_header sample_reader tok = Some (access_header sample_crypto)"
    "jl_decode sample_reader ''a'' [] sample_verifier = Claims (access_claims default_auth_settings 0 5 sample_user 7)"
    "jl_decode sample_reader ''m'' [] sample_verifier
       = Claims (challenge_claims default_auth_settings 0 6 (us_id sample_user))"
    "cr_decode sample_crypto ''a'' algs aud iss = Some (access_claims default_auth_settings 0 5 sample_user 7)"
    "cr_decode sample_crypto ''m'' algs aud iss = Some (challenge_claims default_auth_settings 0 6 (us_id sample_user))"
    for tok algs aud iss by (simp_all add: sample_reader_def sample_crypto_def u(1))
  note m = minted_tokens_understood [OF f k a(1) d(1,2,4) a(2) d(1) d(3) d(5) u(2)]
  have perms: "set (us_extra_permissions sample_user) \<union> {q. \<exists>n \<in> set (us_roles sample_user). \<exists>r. role_of_name n = Some r
      \<and> q \<in> set (ROLE_PERMISSIONS r)} = {''books:read'', ''ai:use'', ''orders:read''}"
  proof -
    have one: "{x} \<union> {q. \<exists>n \<in> {y}. \<exists>r. role_of_name n = Some r \<and> q \<in> set (ROLE_PERMISSIONS r)} = {a, b, x}"
      if "role_of_name y = Some ro" "set (ROLE_PERMISSIONS ro) = {a, b}" for x y a b :: string and ro
      using that by auto
    show ?thesis unfolding sample_user_def auth_user.simps list.set by (rule one [OF r]) simp
  qed
  from m [unfolded perms] obtain p where p: "verify_token sample_verifier sample_reader new_jwks_cache 5
      (Inr [(''k1'', [])]) (Inr []) ''a'' = (c', Inr p)" "set (pr_permissions p) = {''books:read'', ''ai:use'', ''orders:read''}"
    by (elim conjE exE) (rule that)
  moreover have "read_mfa_challenge sample_crypto default_auth_settings ''m'' = Inr 3"
    using m unfolding u(1) by (elim conjE)
  ultimately show ?thesis by (intro conjI exI)
qed

end
