(* ===== verification/Auth_Mfa.thy ===== *)
theory Auth_Mfa
  imports Auth_Tokens
begin

section \<open>The second factor\<close>

text \<open>
  \<open>apps/auth/services/mfa.py\<close>: enrolment of an authenticator app, verification of its codes
  with replay protection, and single-use recovery codes. The one-time-password library and
  the random draws are parameters. The lemmas show that an accepted code cannot be used a
  second time.
\<close>

definition TOTP_VALID_WINDOW :: int where
  "TOTP_VALID_WINDOW = 1"

text \<open>The code the app shows for a secret at a second, and the library's own window check.\<close>

record totp_lib =
  tl_at :: "string \<Rightarrow> int \<Rightarrow> string"
  tl_verify :: "string \<Rightarrow> string \<Rightarrow> timestamp \<Rightarrow> int \<Rightarrow> bool"

definition totp_clash :: "totp_secret \<Rightarrow> totp_secret \<Rightarrow> bool" where
  "totp_clash r x \<longleftrightarrow> ts_user_id r = ts_user_id x"

interpretation totp_tbl: keyed_table ts_user_id "\<lambda>_. True" totp_clash
  by unfold_locales (auto simp: totp_clash_def)

definition is_digits :: "string \<Rightarrow> bool" where
  "is_digits s \<longleftrightarrow> s \<noteq> [] \<and> list_all (\<lambda>c. digit_value c \<noteq> None) s"

definition get_secret_row :: "auth_db \<Rightarrow> uuid \<Rightarrow> totp_secret option" where
  "get_secret_row db uid = first_row (\<lambda>r. ts_user_id r = uid) (totp_secrets db)"

definition save_secret :: "auth_db \<Rightarrow> uuid \<Rightarrow> (totp_secret \<Rightarrow> totp_secret) \<Rightarrow> auth_db" where
  "save_secret db uid f = db\<lparr>totp_secrets := update_rows (\<lambda>r. ts_user_id r = uid) f (totp_secrets db)\<rparr>"

subsection \<open>Codes\<close>

definition matching_steps :: "totp_lib \<Rightarrow> auth_settings \<Rightarrow> string \<Rightarrow> timestamp \<Rightarrow> string \<Rightarrow> int list" where
  "matching_steps otp st secret now code =
     (let step = epoch_seconds now div as_totp_period st
      in filter (\<lambda>k. tl_at otp secret (k * as_totp_period st) = code)
           (map (\<lambda>offset. step + offset) [- TOTP_VALID_WINDOW .. TOTP_VALID_WINDOW]))"

definition verify_totp ::
  "auth_crypto \<Rightarrow> totp_lib \<Rightarrow> auth_settings \<Rightarrow> timestamp \<Rightarrow> totp_secret \<Rightarrow> string \<Rightarrow> int option" where
  "verify_totp cr otp st now row code =
     (if \<not> is_digits code then None
      else case cr_decrypt cr (ts_secret_encrypted row) of None \<Rightarrow> None
        | Some secret \<Rightarrow>
            if \<not> tl_verify otp secret code now TOTP_VALID_WINDOW then None
            else (case matching_steps otp st secret now code of [] \<Rightarrow> None
                  | k # _ \<Rightarrow>
                      if (case ts_last_used_step row of None \<Rightarrow> False | Some l \<Rightarrow> k \<le> l) then None else Some k))"

subsection \<open>Recovery codes\<close>

definition regenerate_recovery_codes ::
  "auth_crypto \<Rightarrow> string list \<Rightarrow> auth_db \<Rightarrow> uuid \<Rightarrow> auth_db \<times> string list" where
  "regenerate_recovery_codes cr drawn db uid =
     (db\<lparr>recovery_codes := delete_rows (\<lambda>c. rc_user_id c = uid) (recovery_codes db)
          @ map (\<lambda>raw. \<lparr>rc_user_id = uid, rc_code_hash = cr_hash_token cr (filter (\<lambda>c. c \<noteq> CHR ''-'') raw),
                        rc_used_at = None\<rparr>) drawn\<rparr>, drawn)"

definition unused_code :: "uuid \<Rightarrow> string \<Rightarrow> recovery_code \<Rightarrow> bool" where
  "unused_code uid h c \<longleftrightarrow> rc_user_id c = uid \<and> rc_code_hash c = h \<and> rc_used_at c = None"

definition consume_recovery_code ::
  "auth_crypto \<Rightarrow> timestamp \<Rightarrow> auth_db \<Rightarrow> uuid \<Rightarrow> string \<Rightarrow> (auth_db \<times> bool) result" where
  "consume_recovery_code cr now db uid code =
     (let h = cr_hash_token cr (filter (\<lambda>c. c \<noteq> CHR ''-'') code)
      in case one_or_none (unused_code uid h) (recovery_codes db) of Inl e \<Rightarrow> Inl e
         | Inr None \<Rightarrow> Inr (db, False)
         | Inr (Some _) \<Rightarrow>
             Inr (db\<lparr>recovery_codes := update_rows (unused_code uid h)
                        (\<lambda>c. c\<lparr>rc_used_at := Some now\<rparr>) (recovery_codes db)\<rparr>, True))"

definition count_unused_recovery_codes :: "auth_db \<Rightarrow> uuid \<Rightarrow> nat" where
  "count_unused_recovery_codes db uid =
     count_rows (\<lambda>c. rc_user_id c = uid \<and> rc_used_at c = None) (recovery_codes db)"

subsection \<open>Enrolment\<close>

definition begin_enrolment ::
  "auth_crypto \<Rightarrow> string \<Rightarrow> auth_db \<Rightarrow> auth_user \<Rightarrow> auth_db \<times> string result" where
  "begin_enrolment cr secret db u =
     (if us_mfa_enabled u then (db, Inl (raise_default ConflictError))
      else (case get_secret_row db (us_id u) of
              Some _ \<Rightarrow>
                (save_secret db (us_id u)
                   (\<lambda>r. r\<lparr>ts_secret_encrypted := cr_encrypt cr secret, ts_confirmed_at := None,
                          ts_last_used_step := None\<rparr>), Inr secret)
            | None \<Rightarrow>
                (case insert_unique totp_clash
                        \<lparr>ts_user_id = us_id u, ts_secret_encrypted = cr_encrypt cr secret,
                         ts_confirmed_at = None, ts_last_used_step = None\<rparr> (totp_secrets db) of
                   None \<Rightarrow> (db, Inl (PyExn ''IntegrityError''))
                 | Some t \<Rightarrow> (db\<lparr>totp_secrets := t\<rparr>, Inr secret))))"

definition confirm_enrolment ::
  "auth_crypto \<Rightarrow> totp_lib \<Rightarrow> auth_settings \<Rightarrow> timestamp \<Rightarrow> string list \<Rightarrow> auth_db \<Rightarrow> auth_user \<Rightarrow> string \<Rightarrow>
   auth_db \<times> string list result" where
  "confirm_enrolment cr otp st now drawn db u code =
     (case get_secret_row db (us_id u) of None \<Rightarrow> (db, Inl (raise_default ConflictError))
      | Some row \<Rightarrow>
          (case verify_totp cr otp st now row code of None \<Rightarrow> (db, Inl (raise_default UnauthorizedError))
           | Some k \<Rightarrow>
               (let db1 = save_user (save_secret db (us_id u)
                            (\<lambda>r. r\<lparr>ts_confirmed_at := Some now, ts_last_used_step := Some k\<rparr>)) u
                            (\<lambda>x. x\<lparr>us_mfa_enabled := True\<rparr>);
                    (db2, codes) = regenerate_recovery_codes cr drawn db1 (us_id u)
                in (db2, Inr codes))))"

definition disable_mfa :: "auth_db \<Rightarrow> auth_user \<Rightarrow> auth_db" where
  "disable_mfa db u =
     save_user (db\<lparr>totp_secrets := delete_rows (\<lambda>r. ts_user_id r = us_id u) (totp_secrets db),
                   recovery_codes := delete_rows (\<lambda>c. rc_user_id c = us_id u) (recovery_codes db)\<rparr>) u
       (\<lambda>x. x\<lparr>us_mfa_enabled := False\<rparr>)"

subsection \<open>Verification\<close>

definition clean_code :: "string \<Rightarrow> string" where
  "clean_code code = str_upper (filter (\<lambda>c. c \<noteq> CHR '' '' \<and> c \<noteq> CHR ''-'') (str_strip code))"

definition accepted_step ::
  "auth_crypto \<Rightarrow> totp_lib \<Rightarrow> auth_settings \<Rightarrow> timestamp \<Rightarrow> auth_db \<Rightarrow> uuid \<Rightarrow> string \<Rightarrow> int option" where
  "accepted_step cr otp st now db uid cleaned =
     (case get_secret_row db uid of None \<Rightarrow> None
      | Some row \<Rightarrow> if ts_confirmed_at row = None then None else verify_totp cr otp st now row cleaned)"

definition verify_mfa ::
  "auth_crypto \<Rightarrow> totp_lib \<Rightarrow> auth_settings \<Rightarrow> timestamp \<Rightarrow> auth_db \<Rightarrow> uuid \<Rightarrow> string \<Rightarrow> auth_db \<times> string result" where
  "verify_mfa cr otp st now db uid code =
     (let cleaned = clean_code code in
      case accepted_step cr otp st now db uid cleaned of
        Some k \<Rightarrow> (save_secret db uid (\<lambda>r. r\<lparr>ts_last_used_step := Some k\<rparr>), Inr ''totp'')
      | None \<Rightarrow>
          (case consume_recovery_code cr now db uid cleaned of Inl e \<Rightarrow> (db, Inl e)
           | Inr (db1, True) \<Rightarrow> (db1, Inr ''recovery_code'')
           | Inr (_, False) \<Rightarrow> (db, Inl (raise_default UnauthorizedError))))"

subsection \<open>Lemmas: a code works once\<close>

inductive mfa_step :: "auth_crypto \<Rightarrow> totp_lib \<Rightarrow> auth_settings \<Rightarrow> auth_db \<Rightarrow> auth_db \<Rightarrow> bool" for cr otp st where
  attempt: "in_session db (verify_mfa cr otp st now db uid code) = (db', r) \<Longrightarrow> mfa_step cr otp st db db'"

definition step_floor :: "auth_crypto \<Rightarrow> uuid \<Rightarrow> string \<Rightarrow> int \<Rightarrow> auth_db \<Rightarrow> bool" where
  "step_floor cr uid secret k db \<longleftrightarrow>
     (\<exists>row l. get_secret_row db uid = Some row \<and> cr_decrypt cr (ts_secret_encrypted row) = Some secret
        \<and> ts_last_used_step row = Some l \<and> k \<le> l)"

definition code_spent :: "uuid \<Rightarrow> string \<Rightarrow> auth_db \<Rightarrow> bool" where
  "code_spent uid h db \<longleftrightarrow> (\<forall>c \<in> set (recovery_codes db). \<not> unused_code uid h c)"

lemma matching_steps_window:
  assumes "matching_steps otp st secret now code = k # ks"
  shows "tl_at otp secret (k * as_totp_period st) = code
     \<and> \<bar>k - epoch_seconds now div as_totp_period st\<bar> \<le> TOTP_VALID_WINDOW"
proof -
  have "k \<in> set (matching_steps otp st secret now code)" using assms by simp
  then show ?thesis by (auto simp: matching_steps_def Let_def)
qed

lemma accepted_step_new:
  assumes "accepted_step cr otp st now db uid cleaned = Some k"
  shows "\<exists>row secret. get_secret_row db uid = Some row \<and> cr_decrypt cr (ts_secret_encrypted row) = Some secret
     \<and> tl_at otp secret (k * as_totp_period st) = cleaned
     \<and> \<bar>k - epoch_seconds now div as_totp_period st\<bar> \<le> TOTP_VALID_WINDOW
     \<and> (\<forall>l. ts_last_used_step row = Some l \<longrightarrow> l < k)"
  using assms unfolding accepted_step_def verify_totp_def
  by (auto split: option.splits if_splits list.splits dest: matching_steps_window)

lemma get_secret_row_save:
  assumes "\<And>r. ts_user_id (f r) = ts_user_id r"
  shows "get_secret_row (save_secret db uid f) uid' =
     (if uid' = uid then map_option f (get_secret_row db uid') else get_secret_row db uid')"
proof -
  have "first_row (\<lambda>r. ts_user_id r = uid') (update_rows (\<lambda>r. ts_user_id r = uid) f t) =
     (if uid' = uid then map_option f (first_row (\<lambda>r. ts_user_id r = uid') t)
      else first_row (\<lambda>r. ts_user_id r = uid') t)" for t
    using assms by (induction t) auto
  then show ?thesis by (simp add: get_secret_row_def save_secret_def)
qed

lemma verify_mfa_cases:
  assumes "verify_mfa cr otp st now db uid code = (db', Inr m)"
  shows "(m = ''totp'' \<and> (\<exists>k. accepted_step cr otp st now db uid (clean_code code) = Some k
            \<and> db' = save_secret db uid (\<lambda>r. r\<lparr>ts_last_used_step := Some k\<rparr>)))
     \<or> (m = ''recovery_code'' \<and> consume_recovery_code cr now db uid (clean_code code) = Inr (db', True))"
  using assms unfolding verify_mfa_def Let_def
  by (auto split: option.splits sum.splits bool.splits)

lemma consume_recovery_code_effect:
  assumes "consume_recovery_code cr now db uid code = Inr (db', True)"
  shows "totp_secrets db' = totp_secrets db
     \<and> recovery_codes db' = update_rows (unused_code uid (cr_hash_token cr (filter (\<lambda>c. c \<noteq> CHR ''-'') code)))
          (\<lambda>c. c\<lparr>rc_used_at := Some now\<rparr>) (recovery_codes db)
     \<and> (\<exists>c \<in> set (recovery_codes db). unused_code uid (cr_hash_token cr (filter (\<lambda>c. c \<noteq> CHR ''-'') code)) c)"
proof -
  let ?P = "unused_code uid (cr_hash_token cr (filter (\<lambda>c. c \<noteq> CHR ''-'') code))"
  from assms obtain c where c: "one_or_none ?P (recovery_codes db) = Inr (Some c)"
      "db' = db\<lparr>recovery_codes := update_rows ?P (\<lambda>c. c\<lparr>rc_used_at := Some now\<rparr>) (recovery_codes db)\<rparr>"
    by (auto simp: consume_recovery_code_def Let_def split: sum.splits option.splits)
  from c(1) have "filter ?P (recovery_codes db) = [c]" by (auto simp: one_or_none_def split: list.splits)
  then have "c \<in> set (filter ?P (recovery_codes db))" by simp
  with c(2) show ?thesis by auto
qed

lemma step_floor_kept:
  assumes "mfa_step cr otp st db db'" and "step_floor cr uid secret k db"
  shows "step_floor cr uid secret k db'"
  using assms(1)
proof cases
  case (attempt now uid' code r)
  show ?thesis
  proof (cases r)
    case (Inl e)
    with attempt assms(2) show ?thesis by (simp add: in_session_Inl)
  next
    case (Inr m)
    with attempt have "verify_mfa cr otp st now db uid' code = (db', Inr m)" by (simp add: in_session_Inr)
    then consider k' where "accepted_step cr otp st now db uid' (clean_code code) = Some k'"
        "db' = save_secret db uid' (\<lambda>r. r\<lparr>ts_last_used_step := Some k'\<rparr>)"
      | "consume_recovery_code cr now db uid' (clean_code code) = Inr (db', True)"
      using verify_mfa_cases by blast
    then show ?thesis
    proof cases
      case 1
      obtain row l where row: "get_secret_row db uid = Some row" "cr_decrypt cr (ts_secret_encrypted row) = Some secret"
        "ts_last_used_step row = Some l" "k \<le> l" using assms(2) by (auto simp: step_floor_def)
      show ?thesis
      proof (cases "uid' = uid")
        case True
        with accepted_step_new [OF 1(1)] row have "l < k'" by auto
        with row True show ?thesis by (simp add: step_floor_def 1(2) get_secret_row_save)
      next
        case False
        with row show ?thesis by (simp add: step_floor_def 1(2) get_secret_row_save)
      qed
    next
      case 2
      with assms(2) show ?thesis
        using consume_recovery_code_effect [OF 2] by (simp add: step_floor_def get_secret_row_def)
    qed
  qed
qed

lemma code_spent_kept:
  assumes "mfa_step cr otp st db db'" and "code_spent uid h db"
  shows "code_spent uid h db'"
  using assms(1)
proof cases
  case (attempt now uid' code r)
  have upd: "code_spent uid h (db\<lparr>recovery_codes := update_rows P (\<lambda>c. c\<lparr>rc_used_at := Some t\<rparr>) (recovery_codes db)\<rparr>)" for P t
    using assms(2) by (auto simp: code_spent_def set_update_rows unused_code_def)
  show ?thesis
  proof (cases r)
    case (Inl e)
    with attempt assms(2) show ?thesis by (simp add: in_session_Inl)
  next
    case (Inr m)
    with attempt have "verify_mfa cr otp st now db uid' code = (db', Inr m)" by (simp add: in_session_Inr)
    then have "recovery_codes db' = recovery_codes db
        \<or> (\<exists>P. recovery_codes db' = update_rows P (\<lambda>c. c\<lparr>rc_used_at := Some now\<rparr>) (recovery_codes db))"
      using verify_mfa_cases consume_recovery_code_effect by (fastforce simp: save_secret_def)
    with assms(2) upd show ?thesis by (auto simp: code_spent_def)
  qed
qed

lemma step_floor_run: "(mfa_step cr otp st)\<^sup>*\<^sup>* db db' \<Longrightarrow> step_floor cr uid secret k db \<Longrightarrow> step_floor cr uid secret k db'"
  by (induction rule: rtranclp_induct) (auto intro: step_floor_kept)

lemma code_spent_run: "(mfa_step cr otp st)\<^sup>*\<^sup>* db db' \<Longrightarrow> code_spent uid h db \<Longrightarrow> code_spent uid h db'"
  by (induction rule: rtranclp_induct) (auto intro: code_spent_kept)

text \<open>
  C36: A second-factor code works once. When a code was accepted and, after any number of
  further attempts by anyone, the same code is accepted again for the account, then it was
  not a recovery code both times; and if the authenticator accepted it both times, the
  second acceptance is for a later time step at which the app shows the same digits again,
  within one step of the clock: an observed code cannot be replayed in its own window.
\<close>

theorem second_factor_single_use:
  assumes "verify_mfa cr otp st t1 db uid code = (db1, Inr m)" and "(mfa_step cr otp st)\<^sup>*\<^sup>* db1 db2"
    and "verify_mfa cr otp st t2 db2 uid code' = (db3, Inr m')" and "clean_code code' = clean_code code"
  shows "\<not> (m = ''recovery_code'' \<and> m' = ''recovery_code'')
     \<and> (m = ''totp'' \<and> m' = ''totp'' \<longrightarrow>
          (\<exists>secret k k'. k < k' \<and> tl_at otp secret (k * as_totp_period st) = clean_code code
             \<and> tl_at otp secret (k' * as_totp_period st) = clean_code code
             \<and> \<bar>k - epoch_seconds t1 div as_totp_period st\<bar> \<le> 1 \<and> \<bar>k' - epoch_seconds t2 div as_totp_period st\<bar> \<le> 1))"
proof (intro conjI impI)
  let ?h = "cr_hash_token cr (filter (\<lambda>c. c \<noteq> CHR ''-'') (clean_code code))"
  show "\<not> (m = ''recovery_code'' \<and> m' = ''recovery_code'')"
  proof (intro notI, elim conjE)
    assume m: "m = ''recovery_code''" "m' = ''recovery_code''"
    from verify_mfa_cases [OF assms(1)] m(1)
    have "consume_recovery_code cr t1 db uid (clean_code code) = Inr (db1, True)" by auto
    from consume_recovery_code_effect [OF this] have "code_spent uid ?h db1"
      by (auto simp: code_spent_def set_update_rows unused_code_def)
    then have "code_spent uid ?h db2" by (rule code_spent_run [OF assms(2)])
    moreover from verify_mfa_cases [OF assms(3)] m(2) assms(4)
    have "consume_recovery_code cr t2 db2 uid (clean_code code) = Inr (db3, True)" by auto
    ultimately show False using consume_recovery_code_effect by (fastforce simp: code_spent_def)
  qed
next
  assume m: "m = ''totp'' \<and> m' = ''totp''"
  then obtain k where k: "accepted_step cr otp st t1 db uid (clean_code code) = Some k"
      "db1 = save_secret db uid (\<lambda>r. r\<lparr>ts_last_used_step := Some k\<rparr>)"
    using verify_mfa_cases [OF assms(1)] by auto
  from accepted_step_new [OF k(1)] obtain row secret where row: "get_secret_row db uid = Some row"
      "cr_decrypt cr (ts_secret_encrypted row) = Some secret" "tl_at otp secret (k * as_totp_period st) = clean_code code"
      "\<bar>k - epoch_seconds t1 div as_totp_period st\<bar> \<le> TOTP_VALID_WINDOW" by blast
  have "step_floor cr uid secret k db1" using row(1,2) by (simp add: step_floor_def k(2) get_secret_row_save)
  then have fl: "step_floor cr uid secret k db2" by (rule step_floor_run [OF assms(2)])
  from m obtain k' where k': "accepted_step cr otp st t2 db2 uid (clean_code code) = Some k'"
    using verify_mfa_cases [OF assms(3)] assms(4) by auto
  from accepted_step_new [OF k'] fl
  have "k < k' \<and> tl_at otp secret (k' * as_totp_period st) = clean_code code
      \<and> \<bar>k' - epoch_seconds t2 div as_totp_period st\<bar> \<le> TOTP_VALID_WINDOW"
    by (fastforce simp: step_floor_def)
  with row(3,4) show "\<exists>secret k k'. k < k' \<and> tl_at otp secret (k * as_totp_period st) = clean_code code
             \<and> tl_at otp secret (k' * as_totp_period st) = clean_code code
             \<and> \<bar>k - epoch_seconds t1 div as_totp_period st\<bar> \<le> 1 \<and> \<bar>k' - epoch_seconds t2 div as_totp_period st\<bar> \<le> 1"
    unfolding TOTP_VALID_WINDOW_def by blast
qed

subsection \<open>Witness\<close>

definition sample_otp :: totp_lib where
  "sample_otp = \<lparr>tl_at = (\<lambda>_ _. ''123''), tl_verify = (\<lambda>_ _ _ _. True)\<rparr>"

definition enrolled_db :: "int option \<Rightarrow> auth_db" where
  "enrolled_db l = sample_auth_db\<lparr>totp_secrets :=
     [\<lparr>ts_user_id = 3, ts_secret_encrypted = ''s'', ts_confirmed_at = Some 0, ts_last_used_step = l\<rparr>]\<rparr>"

lemma sample_clean: "clean_code ''123'' = ''123''"
  by (simp add: clean_code_def str_strip_def str_lstrip_def is_space_def str_upper_def translate_char_def
      lower_letters_def upper_letters_def)

lemma sample_verify:
  assumes "l = None \<or> (\<exists>j < i - 1. l = Some j)"
  shows "verify_mfa sample_crypto sample_otp default_auth_settings (i * 30000000) (enrolled_db l) 3 ''123''
     = (enrolled_db (Some (i - 1)), Inr ''totp'')"
proof -
  have d: "epoch_seconds (i * 30000000) div 30 = i" by (simp add: epoch_seconds_def)
  have u: "[- 1 .. 1 :: int] = [- 1, 0, 1]" by (simp add: upto_rec1)
  have "is_digits ''123''" by (simp add: is_digits_def digit_value_def)
  with assms show ?thesis
    unfolding verify_mfa_def sample_clean Let_def
    by (auto simp: accepted_step_def verify_totp_def matching_steps_def enrolled_db_def sample_otp_def
        sample_crypto_def default_auth_settings_def get_secret_row_def save_secret_def TOTP_VALID_WINDOW_def
        d u Let_def sample_auth_db_def)
qed

theorem second_factor_single_use_witness:
  "verify_mfa sample_crypto sample_otp default_auth_settings (2 * 30000000) (enrolled_db None) 3 ''123''
     = (enrolled_db (Some 1), Inr ''totp'')
   \<and> (\<exists>secret k k'. k < k' \<and> tl_at sample_otp secret (k * 30) = ''123'' \<and> \<bar>k - 2\<bar> \<le> 1 \<and> \<bar>k' - 4\<bar> \<le> 1)"
proof -
  have v: "verify_mfa sample_crypto sample_otp default_auth_settings (2 * 30000000) (enrolled_db None) 3 ''123''
      = (enrolled_db (Some 1), Inr ''totp'')"
    "verify_mfa sample_crypto sample_otp default_auth_settings (4 * 30000000) (enrolled_db (Some 1)) 3 ''123''
      = (enrolled_db (Some 3), Inr ''totp'')"
    using sample_verify [of None 2] sample_verify [of "Some 1" 4] by simp_all
  have d: "epoch_seconds (2 * 30000000) div 30 = 2" "epoch_seconds (4 * 30000000) div 30 = 4"
    "as_totp_period default_auth_settings = 30"
    by (simp_all add: epoch_seconds_def default_auth_settings_def)
  from second_factor_single_use [OF v(1) rtranclp.rtrancl_refl v(2) refl] v(1) show ?thesis
    unfolding d(3) sample_clean d(1,2) by blast
qed

end
