(* ===== verification/Auth_Accounts.thy ===== *)
theory Auth_Accounts
  imports Auth_Mfa
begin

section \<open>Accounts and sign-in\<close>

text \<open>
  \<open>apps/auth/services/accounts.py\<close> with the sign-in, registration, password and ban routes of
  \<open>apps/auth/routers/auth.py\<close>, \<open>internal.py\<close> and \<open>admin.py\<close>: registration, credential checks with the lockout counter,
  email verification, password reset and change, bans. The padding of response times is
  left out. The lemmas show what a failed sign-in leaves behind and what a change of
  credentials does to the sessions of the account.
\<close>

definition normalise_email :: "string \<Rightarrow> string" where
  "normalise_email email = str_lower (str_strip email)"

definition get_by_email :: "auth_db \<Rightarrow> string \<Rightarrow> auth_user option result" where
  "get_by_email db email =
     one_or_none (\<lambda>u. str_lower (us_email u) = normalise_email email \<and> us_deleted_at u = None) (users db)"

definition verification_clash :: "verification_token \<Rightarrow> verification_token \<Rightarrow> bool" where
  "verification_clash t x \<longleftrightarrow> vt_token_hash t = vt_token_hash x"

definition reset_clash :: "reset_token \<Rightarrow> reset_token \<Rightarrow> bool" where
  "reset_clash t x \<longleftrightarrow> pt_token_hash t = pt_token_hash x"

interpretation verifications_tbl: keyed_table vt_token_hash "\<lambda>_. True" verification_clash
  by unfold_locales (auto simp: verification_clash_def)

interpretation resets_tbl: keyed_table pt_token_hash "\<lambda>_. True" reset_clash
  by unfold_locales (auto simp: reset_clash_def)

subsection \<open>Email verification\<close>

definition issue_verification_token ::
  "auth_crypto \<Rightarrow> auth_settings \<Rightarrow> timestamp \<Rightarrow> string \<Rightarrow> auth_db \<Rightarrow> auth_user \<Rightarrow> string \<Rightarrow> string \<Rightarrow>
   auth_db \<times> string result" where
  "issue_verification_token cr st now raw db u email purpose =
     (case insert_unique verification_clash
             \<lparr>vt_user_id = us_id u, vt_token_hash = cr_hash_token cr raw, vt_purpose = purpose,
              vt_email = normalise_email email, vt_expires_at = now + as_email_verification_ttl st * 1000000,
              vt_used_at = None\<rparr> (verification_tokens db) of
        None \<Rightarrow> (db, Inl (PyExn ''IntegrityError''))
      | Some t \<Rightarrow> (db\<lparr>verification_tokens := t\<rparr>, Inr raw))"

definition verify_email :: "auth_crypto \<Rightarrow> timestamp \<Rightarrow> auth_db \<Rightarrow> string \<Rightarrow> auth_db \<times> auth_user result" where
  "verify_email cr now db raw =
     (case first_row (\<lambda>t. vt_token_hash t = cr_hash_token cr raw) (verification_tokens db) of
        None \<Rightarrow> (db, Inl (raise_default UnauthorizedError))
      | Some r \<Rightarrow>
          if vt_used_at r \<noteq> None \<or> vt_expires_at r < now then (db, Inl (raise_default UnauthorizedError))
          else case get_by_id db (vt_user_id r) of Inl e \<Rightarrow> (db, Inl e)
            | Inr u \<Rightarrow>
                (let f = (\<lambda>x. if us_email_verified_at x = None then x\<lparr>us_email_verified_at := Some now\<rparr> else x);
                     db1 = db\<lparr>verification_tokens := update_rows (\<lambda>t. vt_token_hash t = vt_token_hash r)
                               (\<lambda>t. t\<lparr>vt_used_at := Some now\<rparr>) (verification_tokens db)\<rparr>
                 in (record_audit (save_user db1 u f) (Some (us_id u)) None ''email.verified'' ''success'' None None [],
                     Inr (f u))))"

subsection \<open>Registration\<close>

definition new_user :: "auth_crypto \<Rightarrow> timestamp \<Rightarrow> uuid \<Rightarrow> string \<Rightarrow> string \<Rightarrow> string option \<Rightarrow> string option \<Rightarrow> auth_user" where
  "new_user cr now uid email password full_name locale =
     \<lparr>us_id = uid, us_email = email, us_email_verified_at = None,
      us_password_hash = Some (cr_hash_password cr password), us_password_changed_at = Some now,
      us_full_name = full_name, us_locale = locale, us_roles = [''user''], us_extra_permissions = [],
      us_is_active = True, us_banned_at = None, us_ban_reason = None, us_failed_login_attempts = 0,
      us_locked_until = None, us_mfa_enabled = False, us_last_login_at = None, us_last_login_ip = None,
      us_deleted_at = None\<rparr>"

definition register ::
  "auth_crypto \<Rightarrow> auth_settings \<Rightarrow> timestamp \<Rightarrow> uuid \<Rightarrow> string \<Rightarrow> auth_db \<Rightarrow> string \<Rightarrow> string \<Rightarrow> string option \<Rightarrow>
   string option \<Rightarrow> string option \<Rightarrow> auth_db \<times> (auth_user \<times> string option) result" where
  "register cr st now uid raw db email0 password full_name locale ip =
     (let email = normalise_email email0 in
      case get_by_email db email of Inl e \<Rightarrow> (db, Inl e)
      | Inr (Some existing) \<Rightarrow>
          (record_audit db (Some (us_id existing)) None ''register.duplicate'' ''blocked'' ip None [],
           Inr (existing, None))
      | Inr None \<Rightarrow>
          (let u = new_user cr now uid email password full_name locale
           in case insert_unique user_clash u (users db) of None \<Rightarrow> (db, Inl (PyExn ''IntegrityError''))
              | Some t \<Rightarrow>
                  (case issue_verification_token cr st now raw (db\<lparr>users := t\<rparr>) u email ''email_verify'' of
                     (db1, Inl e) \<Rightarrow> (db1, Inl e)
                   | (db1, Inr token) \<Rightarrow>
                       (record_audit db1 (Some (us_id u)) None ''register'' ''success'' ip None [],
                        Inr (u, Some token)))))"

subsection \<open>Sign-in\<close>

definition register_failed_attempt ::
  "auth_settings \<Rightarrow> timestamp \<Rightarrow> auth_db \<Rightarrow> auth_user \<Rightarrow> string option \<Rightarrow> auth_db" where
  "register_failed_attempt st now db u ip =
     (let n = us_failed_login_attempts u + 1;
          f = (\<lambda>x. x\<lparr>us_failed_login_attempts := n,
                    us_locked_until := (if n \<ge> as_login_max_attempts st
                                        then Some (now + as_login_lockout_seconds st * 1000000)
                                        else us_locked_until x)\<rparr>)
      in record_audit (save_user db u f) (Some (us_id u)) None ''login'' ''failure'' ip None [(''attempts'', JInt n)])"

definition authenticate ::
  "auth_crypto \<Rightarrow> auth_settings \<Rightarrow> timestamp \<Rightarrow> auth_db \<Rightarrow> string \<Rightarrow> string \<Rightarrow> string option \<Rightarrow>
   auth_db \<times> auth_user result" where
  "authenticate cr st now db email password ip =
     (case get_by_email db email of Inl e \<Rightarrow> (db, Inl e)
      | Inr None \<Rightarrow> (db, Inl (raise_default UnauthorizedError))
      | Inr (Some u) \<Rightarrow>
          if (case us_locked_until u of None \<Rightarrow> False | Some t \<Rightarrow> now < t) then
            (record_audit db (Some (us_id u)) None ''login'' ''locked'' ip None [],
             Inl (raise_code UnauthorizedError ''account_locked''))
          else if us_banned_at u \<noteq> None then (db, Inl (raise_code UnauthorizedError ''account_banned''))
          else if \<not> truthy (us_password_hash u) then (db, Inl (raise_default UnauthorizedError))
          else if \<not> cr_verify_password cr password (opt_default (us_password_hash u) '''') then
            (register_failed_attempt st now db u ip, Inl (raise_default UnauthorizedError))
          else if \<not> us_is_active u \<or> us_deleted_at u \<noteq> None then (db, Inl (raise_default UnauthorizedError))
          else
            (let f = (\<lambda>x. x\<lparr>us_password_hash :=
                           (if cr_needs_rehash cr (opt_default (us_password_hash u) '''')
                            then Some (cr_hash_password cr password) else us_password_hash x),
                         us_failed_login_attempts := 0, us_locked_until := None,
                         us_last_login_at := Some now, us_last_login_ip := ip\<rparr>)
             in (save_user db u f, Inr (f u))))"

datatype login_answer =
    SignedIn IssuedTokens auth_user
  | MfaRequired string int

definition login_body ::
  "auth_crypto \<Rightarrow> auth_settings \<Rightarrow> token_env \<Rightarrow> auth_db \<Rightarrow> string \<Rightarrow> string \<Rightarrow> string option \<Rightarrow> string option \<Rightarrow>
   string option \<Rightarrow> auth_db \<times> login_answer result" where
  "login_body cr st env db email password ip agent label =
     (case authenticate cr st (te_now env) db email password ip of
        (db1, Inl e) \<Rightarrow> (db1, Inl e)
      | (db1, Inr u) \<Rightarrow>
          if us_mfa_enabled u then
            (let (challenge, ttl) = mint_mfa_challenge cr st (te_now env) (te_jti env) (us_id u)
             in (db1, Inr (MfaRequired challenge ttl)))
          else (case start_session cr st env db1 u ip agent label ''password'' of
                  (db2, Inl e) \<Rightarrow> (db2, Inl e)
                | (db2, Inr issued) \<Rightarrow>
                    (record_audit db2 (Some (us_id u)) None ''login'' ''success'' ip agent [],
                     Inr (SignedIn issued u))))"

definition login_route ::
  "auth_crypto \<Rightarrow> auth_settings \<Rightarrow> token_env \<Rightarrow> auth_db \<Rightarrow> string \<Rightarrow> string \<Rightarrow> string option \<Rightarrow> string option \<Rightarrow>
   string option \<Rightarrow> auth_db \<times> login_answer result" where
  "login_route cr st env db email password ip agent label =
     in_session db (login_body cr st env db email password ip agent label)"

definition login_mfa_body ::
  "auth_crypto \<Rightarrow> totp_lib \<Rightarrow> auth_settings \<Rightarrow> token_env \<Rightarrow> auth_db \<Rightarrow> string \<Rightarrow> string \<Rightarrow> string option \<Rightarrow>
   string option \<Rightarrow> auth_db \<times> (IssuedTokens \<times> auth_user) result" where
  "login_mfa_body cr otp st env db challenge code ip agent =
     (case read_mfa_challenge cr st challenge of Inl e \<Rightarrow> (db, Inl e)
      | Inr uid \<Rightarrow>
        case get_by_id db uid of Inl e \<Rightarrow> (db, Inl e)
      | Inr u \<Rightarrow>
          if \<not> us_is_active u \<or> us_banned_at u \<noteq> None then (db, Inl (raise_default UnauthorizedError))
          else (case verify_mfa cr otp st (te_now env) db uid code of (db1, Inl e) \<Rightarrow> (db1, Inl e)
                | (db1, Inr m) \<Rightarrow>
                    (case start_session cr st env db1 u ip agent None (''password+'' @ m) of
                       (db2, Inl e) \<Rightarrow> (db2, Inl e)
                     | (db2, Inr issued) \<Rightarrow>
                         (let f = (\<lambda>x. x\<lparr>us_last_login_at := Some (te_now env), us_last_login_ip := ip\<rparr>)
                          in (record_audit (save_user db2 u f) (Some (us_id u)) None ''login.mfa'' ''success'' ip agent
                                [(''method'', JStr m)], Inr (issued, f u))))))"

definition login_mfa_route ::
  "auth_crypto \<Rightarrow> totp_lib \<Rightarrow> auth_settings \<Rightarrow> token_env \<Rightarrow> auth_db \<Rightarrow> string \<Rightarrow> string \<Rightarrow> string option \<Rightarrow>
   string option \<Rightarrow> auth_db \<times> (IssuedTokens \<times> auth_user) result" where
  "login_mfa_route cr otp st env db challenge code ip agent =
     in_session db (login_mfa_body cr otp st env db challenge code ip agent)"

subsection \<open>Passwords\<close>

definition request_password_reset ::
  "auth_crypto \<Rightarrow> auth_settings \<Rightarrow> timestamp \<Rightarrow> string \<Rightarrow> auth_db \<Rightarrow> string \<Rightarrow> string option \<Rightarrow>
   auth_db \<times> (auth_user \<times> string) option result" where
  "request_password_reset cr st now raw db email ip =
     (case get_by_email db email of Inl e \<Rightarrow> (db, Inl e)
      | Inr None \<Rightarrow> (db, Inr None)
      | Inr (Some u) \<Rightarrow>
          if \<not> us_is_active u then (db, Inr None)
          else (case insert_unique reset_clash
                       \<lparr>pt_user_id = us_id u, pt_token_hash = cr_hash_token cr raw,
                        pt_expires_at = now + as_password_reset_ttl st * 1000000, pt_used_at = None,
                        pt_requested_ip = ip\<rparr> (reset_tokens db) of
                  None \<Rightarrow> (db, Inl (PyExn ''IntegrityError''))
                | Some t \<Rightarrow>
                    (record_audit (db\<lparr>reset_tokens := t\<rparr>) (Some (us_id u)) None ''password.reset_requested''
                       ''success'' ip None [], Inr (Some (u, raw)))))"

definition reset_password ::
  "auth_crypto \<Rightarrow> timestamp \<Rightarrow> auth_db \<Rightarrow> string \<Rightarrow> string \<Rightarrow> auth_db \<times> auth_user result" where
  "reset_password cr now db raw new =
     (case first_row (\<lambda>t. pt_token_hash t = cr_hash_token cr raw) (reset_tokens db) of
        None \<Rightarrow> (db, Inl (raise_default UnauthorizedError))
      | Some r \<Rightarrow>
          if pt_used_at r \<noteq> None \<or> pt_expires_at r < now then (db, Inl (raise_default UnauthorizedError))
          else case get_by_id db (pt_user_id r) of Inl e \<Rightarrow> (db, Inl e)
            | Inr u \<Rightarrow>
                (let f = (\<lambda>x. x\<lparr>us_password_hash := Some (cr_hash_password cr new), us_password_changed_at := Some now,
                               us_failed_login_attempts := 0, us_locked_until := None\<rparr>);
                     db1 = db\<lparr>reset_tokens := update_rows (\<lambda>t. pt_token_hash t = pt_token_hash r)
                               (\<lambda>t. t\<lparr>pt_used_at := Some now\<rparr>) (reset_tokens db)\<rparr>
                 in (record_audit (save_user db1 u f) (Some (us_id u)) None ''password.reset'' ''success'' None None [],
                     Inr (f u))))"

definition reset_password_route ::
  "auth_crypto \<Rightarrow> timestamp \<Rightarrow> auth_db \<Rightarrow> string \<Rightarrow> string \<Rightarrow> auth_db \<times> auth_user result" where
  "reset_password_route cr now db raw new =
     in_session db
       (case reset_password cr now db raw new of (db1, Inl e) \<Rightarrow> (db1, Inl e)
        | (db1, Inr u) \<Rightarrow> (revoke_all_sessions db1 now (us_id u) ''password_reset'', Inr u))"

definition change_password ::
  "auth_crypto \<Rightarrow> timestamp \<Rightarrow> auth_db \<Rightarrow> auth_user \<Rightarrow> string \<Rightarrow> string \<Rightarrow> auth_db \<times> auth_user result" where
  "change_password cr now db u current new =
     (if \<not> truthy (us_password_hash u) \<or> \<not> cr_verify_password cr current (opt_default (us_password_hash u) '''') then
        (record_audit db (Some (us_id u)) None ''password.change'' ''failure'' None None [],
         Inl (raise_default UnauthorizedError))
      else if cr_verify_password cr new (opt_default (us_password_hash u) '''') then (db, Inl (raise_default ConflictError))
      else
        (let f = (\<lambda>x. x\<lparr>us_password_hash := Some (cr_hash_password cr new), us_password_changed_at := Some now\<rparr>)
         in (record_audit (save_user db u f) (Some (us_id u)) None ''password.change'' ''success'' None None [],
             Inr (f u))))"

definition change_password_route ::
  "auth_crypto \<Rightarrow> timestamp \<Rightarrow> auth_db \<Rightarrow> auth_user \<Rightarrow> string \<Rightarrow> string \<Rightarrow> auth_db \<times> auth_user result" where
  "change_password_route cr now db u current new =
     in_session db
       (case change_password cr now db u current new of (db1, Inl e) \<Rightarrow> (db1, Inl e)
        | (db1, Inr x) \<Rightarrow> (revoke_all_sessions db1 now (us_id u) ''password_change'', Inr x))"

subsection \<open>Bans\<close>

definition set_ban :: "timestamp \<Rightarrow> auth_db \<Rightarrow> auth_user \<Rightarrow> bool \<Rightarrow> string option \<Rightarrow> uuid option \<Rightarrow> auth_db" where
  "set_ban now db u banned reason actor =
     record_audit
       (save_user db u (\<lambda>x. x\<lparr>us_banned_at := (if banned then Some now else None),
                              us_ban_reason := (if banned then reason else None),
                              us_is_active := \<not> banned\<rparr>))
       (Some (us_id u)) actor (if banned then ''user.banned'' else ''user.unbanned'') ''success'' None None
       (if truthy reason then [(''reason'', JStr (opt_default reason ''''))] else [])"

definition ban_route :: "timestamp \<Rightarrow> auth_db \<Rightarrow> uuid \<Rightarrow> string \<Rightarrow> auth_db \<times> auth_user result" where
  "ban_route now db uid reason =
     in_session db
       (case get_by_id db uid of Inl e \<Rightarrow> (db, Inl e)
        | Inr u \<Rightarrow> (revoke_all_sessions (set_ban now db u True (Some reason) None) now (us_id u) ''banned'', Inr u))"

definition internal_unban_user :: "timestamp \<Rightarrow> auth_db \<Rightarrow> uuid \<Rightarrow> auth_db \<times> unit result" where
  "internal_unban_user now db uid =
     in_session db
       (case get_by_id db uid of Inl e \<Rightarrow> (db, Inl e)
        | Inr u \<Rightarrow>
            if us_banned_at u = None then (db, Inl (raise_default NotFoundError))
            else (set_ban now db u False None None, Inr ()))"

text \<open>
  The routes of \<open>routers/admin.py\<close> behind \<open>users:write\<close>. The reason is the one of a request body
  that passed its length checks; the denylist entry in Redis is left out.
\<close>

definition ban_user :: "timestamp \<Rightarrow> auth_db \<Rightarrow> Principal \<Rightarrow> uuid \<Rightarrow> string \<Rightarrow> auth_db \<times> auth_user result" where
  "ban_user now db actor uid reason =
     in_session db
       (case require_permission actor ''users:write'' of Inl e \<Rightarrow> (db, Inl e)
        | Inr _ \<Rightarrow>
        case parse_uuid (pr_user_id actor) of None \<Rightarrow> (db, Inl (PyExn ''ValueError''))
        | Some actor_id \<Rightarrow>
            if actor_id = uid then (db, Inl (raise_code ForbiddenError ''cannot_ban_self''))
            else case get_by_id db uid of Inl e \<Rightarrow> (db, Inl e)
            | Inr u \<Rightarrow>
                if ''superadmin'' \<in> set (us_roles u) \<and> ''superadmin'' \<notin> set (pr_roles actor)
                then (db, Inl (raise_code ForbiddenError ''insufficient_role''))
                else (set_ban now db u True (Some reason) (Some actor_id), Inr u))"

definition unban_user :: "timestamp \<Rightarrow> auth_db \<Rightarrow> Principal \<Rightarrow> uuid \<Rightarrow> auth_db \<times> unit result" where
  "unban_user now db actor uid =
     in_session db
       (case require_permission actor ''users:write'' of Inl e \<Rightarrow> (db, Inl e)
        | Inr _ \<Rightarrow>
        case get_by_id db uid of Inl e \<Rightarrow> (db, Inl e)
        | Inr u \<Rightarrow>
          case parse_uuid (pr_user_id actor) of None \<Rightarrow> (db, Inl (PyExn ''ValueError''))
          | Some actor_id \<Rightarrow> (set_ban now db u False None (Some actor_id), Inr ()))"

subsection \<open>Lemmas: what a failed sign-in leaves, and what a change of credentials ends\<close>

lemma get_by_email_user:
  assumes "get_by_email db email = Inr (Some u)"
  shows "u \<in> set (users db) \<and> us_deleted_at u = None \<and> str_lower (us_email u) = normalise_email email"
proof -
  let ?P = "\<lambda>u. str_lower (us_email u) = normalise_email email \<and> us_deleted_at u = None"
  from assms have "filter ?P (users db) = [u]"
    by (auto simp: get_by_email_def one_or_none_def split: list.splits)
  then have "u \<in> set (filter ?P (users db))" by simp
  then show ?thesis by simp
qed

lemma authenticate_wrong_password:
  assumes "get_by_email db email = Inr (Some u)" and "us_locked_until u = None" and "us_banned_at u = None"
    and "us_password_hash u = Some h" and "h \<noteq> []" and "\<not> cr_verify_password cr password h"
  shows "authenticate cr st now db email password ip
     = (register_failed_attempt st now db u ip, Inl (raise_default UnauthorizedError))"
  using assms by (simp add: authenticate_def truthy_def opt_default_def)

lemma login_wrong_password:
  assumes "get_by_email db email = Inr (Some u)" and "us_locked_until u = None" and "us_banned_at u = None"
    and "us_password_hash u = Some h" and "h \<noteq> []" and "\<not> cr_verify_password cr password h"
  shows "login_route cr st env db email password ip agent label = (db, Inl (raise_default UnauthorizedError))"
  by (simp add: login_route_def login_body_def authenticate_wrong_password [OF assms])

fun login_attempts ::
  "auth_crypto \<Rightarrow> auth_settings \<Rightarrow> string \<Rightarrow> auth_db \<Rightarrow> (token_env \<times> string \<times> string option) list \<Rightarrow>
   auth_db \<times> login_answer result list" where
  "login_attempts cr st email db [] = (db, [])"
| "login_attempts cr st email db ((env, password, ip) # as) =
     (let (db1, r) = login_route cr st env db email password ip None None;
          (db2, rs) = login_attempts cr st email db1 as
      in (db2, r # rs))"

lemma login_right_password:
  assumes "get_by_email db email = Inr (Some u)" and "us_locked_until u = None" and "us_banned_at u = None"
    and "us_password_hash u = Some h" and "h \<noteq> []" and "cr_verify_password cr password h"
    and "us_is_active u" and "\<not> us_mfa_enabled u"
    and "\<forall>t \<in> set (refresh_tokens db). rt_token_hash t \<noteq> cr_hash_token cr (te_raw_refresh env)"
  shows "\<exists>db' issued u'. login_route cr st env db email password ip agent label = (db', Inr (SignedIn issued u'))
     \<and> us_id u' = us_id u"
proof -
  have d: "us_deleted_at u = None" using get_by_email_user [OF assms(1)] by simp
  obtain f where f: "authenticate cr st (te_now env) db email password ip = (save_user db u f, Inr (f u))"
      "us_mfa_enabled (f u) = us_mfa_enabled u" "us_id (f u) = us_id u"
    using assms d by (simp add: authenticate_def truthy_def opt_default_def Let_def)
  have "\<exists>db' issued. start_session cr st env (save_user db u f) (f u) ip agent label ''password'' = (db', Inr issued)"
    using assms(9) by (auto simp: start_session_def issue_pair_def Let_def mint_access_token_def insert_unique_def
        token_clash_def)
  then show ?thesis using f assms(8) by (auto simp: login_route_def login_body_def)
qed

text \<open>
  The lockout never engages. The account service counts failed attempts and locks the
  account at the configured number, but a failed sign-in raises, and the raise rolls the
  count back with the request's transaction: after any number of wrong passwords the
  database is exactly as before, every one of them was answered as a wrong password and
  none as \<open>account_locked\<close>, and the right password then signs in.
\<close>

lemma lockout_never_engages:
  assumes acct: "get_by_email db email = Inr (Some u)" "us_locked_until u = None" "us_banned_at u = None"
      "us_password_hash u = Some h" "h \<noteq> []" "us_is_active u" "\<not> us_mfa_enabled u"
    and wrong: "\<forall>(env, password, ip) \<in> set guesses. \<not> cr_verify_password cr password h" "\<not> cr_verify_password cr bad h"
    and good: "cr_verify_password cr good h"
      "\<forall>t \<in> set (refresh_tokens db). rt_token_hash t \<noteq> cr_hash_token cr (te_raw_refresh env)"
  shows "login_attempts cr st email db guesses
           = (db, replicate (length guesses) (Inl (raise_default UnauthorizedError)))
     \<and> (\<exists>db' issued u'. login_route cr st env (fst (login_attempts cr st email db guesses)) email good ip agent label
           = (db', Inr (SignedIn issued u')) \<and> us_id u' = us_id u)
     \<and> (\<exists>x \<in> set (users (fst (authenticate cr st now db email bad ip))). us_id x = us_id u
           \<and> us_failed_login_attempts x = us_failed_login_attempts u + 1
           \<and> (us_failed_login_attempts u + 1 \<ge> as_login_max_attempts st \<longrightarrow> us_locked_until x \<noteq> None))"
proof -
  have runs: "login_attempts cr st email db guesses
      = (db, replicate (length guesses) (Inl (raise_default UnauthorizedError)))"
    using wrong(1) by (induction guesses) (auto simp: login_wrong_password [OF acct(1-5)])
  have mem: "u \<in> set (users db)" using get_by_email_user [OF acct(1)] by simp
  have "\<exists>f. users (register_failed_attempt st now db u ip) = update_rows (\<lambda>x. us_id x = us_id u) f (users db)
      \<and> us_id (f u) = us_id u \<and> us_failed_login_attempts (f u) = us_failed_login_attempts u + 1
      \<and> (us_failed_login_attempts u + 1 \<ge> as_login_max_attempts st \<longrightarrow> us_locked_until (f u) \<noteq> None)"
    by (auto simp: register_failed_attempt_def Let_def save_user_def intro!: exI)
  then obtain f where f: "users (register_failed_attempt st now db u ip) = update_rows (\<lambda>x. us_id x = us_id u) f (users db)"
      "us_id (f u) = us_id u" "us_failed_login_attempts (f u) = us_failed_login_attempts u + 1"
      "us_failed_login_attempts u + 1 \<ge> as_login_max_attempts st \<longrightarrow> us_locked_until (f u) \<noteq> None" by blast
  have "f u \<in> set (users (register_failed_attempt st now db u ip))"
    using mem unfolding f(1) set_update_rows by force
  with f(2-4) have "\<exists>x \<in> set (users (fst (authenticate cr st now db email bad ip))). us_id x = us_id u
           \<and> us_failed_login_attempts x = us_failed_login_attempts u + 1
           \<and> (us_failed_login_attempts u + 1 \<ge> as_login_max_attempts st \<longrightarrow> us_locked_until x \<noteq> None)"
    unfolding authenticate_wrong_password [OF acct(1-5) wrong(2)] by auto
  with runs login_right_password [OF acct(1-5) good(1) acct(6,7) good(2)] show ?thesis by simp
qed

lemma revoke_all_sessions_tokens:
  assumes "t \<in> set (refresh_tokens (revoke_all_sessions db now uid reason))" and "rt_user_id t = uid"
  shows "rt_revoked_at t \<noteq> None"
proof -
  let ?f = "\<lambda>t. if rt_user_id t = uid \<and> rt_revoked_at t = None
      then t\<lparr>rt_revoked_at := Some now, rt_revoked_reason := Some reason\<rparr> else t"
  from assms(1) obtain t0 where "t = ?f t0"
    unfolding revoke_all_sessions_def revoke_tokens_rows set_update_rows by (elim imageE)
  with assms(2) show ?thesis by (cases "rt_user_id t0 = uid \<and> rt_revoked_at t0 = None") auto
qed

lemma refresh_route_refused:
  assumes "\<And>db' it u. refresh_route cr st env db cookie body_token csrf \<noteq> (db', Inr (it, u))"
  shows "\<exists>e. refresh_route cr st env db cookie body_token csrf = (db, Inl e)"
proof (cases "refresh_route cr st env db cookie body_token csrf")
  case (Pair db' res)
  with assms obtain e where "res = Inl e" by (cases res) auto
  with Pair show ?thesis by (simp add: refresh_route_def in_session_Inl)
qed

lemma refresh_revoked:
  assumes "find_token cr db (presented cookie body_token) = Some r" and "rt_revoked_at r \<noteq> None"
  shows "\<exists>e. refresh_route cr st env db cookie body_token csrf = (db, Inl e)"
  by (rule refresh_route_refused) (use assms in \<open>auto dest!: refresh_success rotate_success\<close>)

lemma reset_link_single_use:
  assumes "reset_password cr now db raw new = (db', Inr u)"
  shows "reset_password cr now' db' raw new' = (db', Inl (raise_default UnauthorizedError))"
proof -
  obtain r where r: "first_row (\<lambda>t. pt_token_hash t = cr_hash_token cr raw) (reset_tokens db) = Some r"
      "reset_tokens db' = update_rows (\<lambda>t. pt_token_hash t = pt_token_hash r) (\<lambda>t. t\<lparr>pt_used_at := Some now\<rparr>) (reset_tokens db)"
    using assms by (auto simp: reset_password_def Let_def split: option.splits if_splits sum.splits)
  have "first_row (\<lambda>t. pt_token_hash t = cr_hash_token cr raw) (reset_tokens db') = Some (r\<lparr>pt_used_at := Some now\<rparr>)"
    using r first_row_Some [OF r(1)] by (simp add: table_simps)
  then show ?thesis by (simp add: reset_password_def)
qed

text \<open>
  The staff route bans without revoking: the tokens and sessions stay as they were, so lifting
  the ban gives every device of the account its session back.
\<close>

lemma admin_ban_keeps_sessions:
  assumes "ban_user now db actor uid reason = (db1, Inr u)" and "unban_user later db1 actor uid = (db2, r)"
  shows "refresh_tokens db2 = refresh_tokens db \<and> auth_sessions db2 = auth_sessions db"
proof -
  have "refresh_tokens db1 = refresh_tokens db \<and> auth_sessions db1 = auth_sessions db"
    using assms(1) by (auto simp: ban_user_def set_ban_def in_session_Inr split: sum.splits option.splits if_splits)
  moreover have "refresh_tokens db2 = refresh_tokens db1 \<and> auth_sessions db2 = auth_sessions db1"
    using assms(2) by (auto simp: unban_user_def set_ban_def split: sum.splits option.splits)
  ultimately show ?thesis by simp
qed

lemma banned_refused:
  assumes "ban_user now db actor uid reason = (db', Inr u)"
  shows "us_id u = uid \<and> (\<exists>e. live_account db' uid = Inl e)"
proof -
  from assms have u: "get_by_id db uid = Inr u" and b: "\<exists>a. db' = set_ban now db u True (Some reason) (Some a)"
    by (auto simp: ban_user_def in_session_Inr split: sum.splits option.splits if_splits)
  from u have row: "first_row (\<lambda>x. us_id x = uid) (users db) = Some u"
    by (auto simp: get_by_id_def get_user_def split: option.splits if_splits)
  then have "us_id u = uid" using first_row_Some by fastforce
  with row b show ?thesis
    by (auto simp: live_account_def get_user_def set_ban_def save_user_def first_row_update_rows)
qed

lemma refresh_account_refused:
  assumes "find_token cr db (presented cookie body_token) = Some r" and "live_account db (rt_user_id r) = Inl e"
  shows "\<exists>e. refresh_route cr st env db cookie body_token csrf = (db, Inl e)"
  by (rule refresh_route_refused) (use assms in \<open>auto dest!: refresh_success rotate_success\<close>)

text \<open>
  C15: Changing credentials ends every session. After a password reset, a password change or a
  ban that went through (by staff or over the internal route), no refresh token that had been
  issued to the account, on whatever device and however far its family was rotated, is
  exchanged in the resulting state: every refresh with it is refused and changes nothing. The
  ban by staff does so only until it is lifted (\<open>admin_ban_keeps_sessions\<close>).
\<close>

theorem credential_change_ends_sessions:
  assumes "reset_password_route cr now db link new = (db', Inr u)
     \<or> change_password_route cr now db u current new = (db', Inr x)
     \<or> ban_route now db uid reason = (db', Inr u) \<or> ban_user now db actor uid reason = (db', Inr u)"
    and "find_token cr db' (presented cookie body_token) = Some r" and "rt_user_id r = us_id u"
  shows "\<exists>e. refresh_route cr st env db' cookie body_token csrf = (db', Inl e)"
proof (cases "ban_user now db actor uid reason = (db', Inr u)")
  case True
  from banned_refused [OF this] assms(3) refresh_account_refused [OF assms(2)] show ?thesis by auto
next
  case False
  with assms(1) have "reset_password_route cr now db link new = (db', Inr u)
     \<or> change_password_route cr now db u current new = (db', Inr x) \<or> ban_route now db uid reason = (db', Inr u)" by blast
  then have "\<exists>db1 why. db' = revoke_all_sessions db1 now (us_id u) why"
  proof (elim disjE)
    assume "reset_password_route cr now db link new = (db', Inr u)"
    then show ?thesis
      by (cases "reset_password cr now db link new"; cases "snd (reset_password cr now db link new)")
         (auto simp: reset_password_route_def)
  next
    assume "change_password_route cr now db u current new = (db', Inr x)"
    then show ?thesis
      by (cases "change_password cr now db u current new"; cases "snd (change_password cr now db u current new)")
         (auto simp: change_password_route_def)
  next
    assume "ban_route now db uid reason = (db', Inr u)"
    then show ?thesis by (cases "get_by_id db uid") (auto simp: ban_route_def)
  qed
  then have "rt_revoked_at r \<noteq> None"
    using find_token_row [OF assms(2)] assms(3) revoke_all_sessions_tokens by blast
  from refresh_revoked [OF assms(2) this] show ?thesis .
qed

subsection \<open>Witnesses\<close>

lemma sample_by_email: "get_by_email sample_auth_db ''a@b.c'' = Inr (Some sample_user)"
proof -
  have "str_strip ''a@b.c'' = ''a@b.c''" by (simp add: str_strip_def str_lstrip_def is_space_def)
  then show ?thesis
    by (simp add: get_by_email_def one_or_none_def normalise_email_def sample_auth_defs)
qed

theorem credential_change_ends_sessions_witness:
  "\<exists>db' u e. ban_route 5 signed_in_db 3 ''abuse'' = (db', Inr u)
     \<and> refresh_route sample_crypto default_auth_settings (sample_token_env 6 ''r2'') db' None (Some ''r1'') None
         = (db', Inl e)"
proof -
  have s: "\<exists>db' r. ban_route 5 signed_in_db 3 ''abuse'' = (db', Inr sample_user)
      \<and> find_token sample_crypto db' (presented None (Some ''r1'')) = Some r \<and> rt_user_id r = us_id sample_user"
    by (simp add: ban_route_def get_by_id_def get_user_def signed_in_db_def start_session_def issue_pair_def Let_def
        mint_access_token_def insert_unique_def sample_auth_defs set_ban_def revoke_all_sessions_def
        revoke_tokens_def revoke_sessions_def find_token_def presented_def opt_default_def record_audit_def save_user_def)
  then obtain db' r where b: "ban_route 5 signed_in_db 3 ''abuse'' = (db', Inr sample_user)"
      "find_token sample_crypto db' (presented None (Some ''r1'')) = Some r" "rt_user_id r = us_id sample_user" by blast
  from credential_change_ends_sessions [OF disjI2 [OF disjI2 [OF disjI1 [OF b(1)]]] b(2,3)] b(1) show ?thesis by blast
qed

end
