(* ===== verification/Documents.thy ===== *)
theory Documents
  imports Core_Errors Json
begin

section \<open>Reading and deriving documents\<close>

text \<open>
  \<open>apps/automation/services/documents.py\<close> and \<open>apps/automation/services/media.py\<close>: what a
  source file is (by its header, never by its name), whether an archive is safe to unpack, what
  a PDF or an EPUB says about itself, and the copies derived from it. Files are lists of
  characters, one per byte. What \<open>zipfile\<close>, \<open>ElementTree\<close>, \<open>pypdf\<close>, Pillow and SHA-256 answer
  is the parameter \<open>doc_lib\<close>; so is the text of a decoded chapter (\<open>strip_html\<close> maps named
  entities to characters outside the 8-bit strings of the model). The fractional gain of a
  compression is compared exactly, as a percentage.
  The lemmas show that an accepted archive stays within its bounds, that a found ISBN has
  thirteen digits, that a compressed copy is smaller by the configured share and that a sample
  is at most a quarter of the book.
\<close>

type_synonym bytes = string

record zip_archive =
  za_infolist :: "(string \<times> nat) list"
  za_read :: "string \<Rightarrow> bytes option"

record xml_element =
  xe_tag :: string
  xe_text :: string
  xe_attrib :: "(string \<times> string) list"

text \<open>
  What \<open>pypdf\<close> reports of a PDF: whether it is encrypted and opens with the empty password,
  its pages (\<open>None\<close> when their structure cannot be read) with their text (\<open>None\<close> when
  extraction raises), and its metadata.
\<close>

record pdf_doc =
  pd_is_encrypted :: bool
  pd_decrypt_raises :: bool
  pd_opens :: bool
  pd_pages :: "string option list option"
  pd_metadata :: "(string \<times> string) list"

record doc_lib =
  dl_zip :: "bytes \<Rightarrow> zip_archive option"
  dl_xml :: "bytes \<Rightarrow> xml_element list option"
  dl_chapter_text :: "bytes \<Rightarrow> string"
  dl_pdf :: "bytes \<Rightarrow> pdf_doc result"
  dl_sha256 :: "bytes \<Rightarrow> string"
  dl_page_images :: "bytes \<Rightarrow> bytes list option"
  dl_image_size :: "bytes \<Rightarrow> (nat \<times> nat) option"
  dl_jpeg :: "bytes \<Rightarrow> nat \<Rightarrow> nat \<Rightarrow> nat \<Rightarrow> bytes option"
  dl_rewrite :: "bytes \<Rightarrow> bytes option"
  dl_stamp :: "bytes \<Rightarrow> string \<Rightarrow> bytes option"
  dl_first_pages :: "bytes \<Rightarrow> nat \<Rightarrow> bytes option"

definition UnprocessableDocument :: "string option \<Rightarrow> exn" where
  "UnprocessableDocument code = app_error BadRequestError
     (Some (or_str code ''unprocessable_document'')) None"

subsection \<open>Formats\<close>

definition MAGIC :: "(bytes \<times> string) list" where
  "MAGIC = [(''%PDF-'', ''pdf''), (''PK'' @ [CHR 0x03, CHR 0x04], ''zip''),
     ([CHR 0x89] @ ''PNG'' @ [CHR 0x0D, CHR 0x0A, CHR 0x1A, CHR 0x0A], ''png''),
     ([CHR 0xFF, CHR 0xD8, CHR 0xFF], ''jpeg''), (''GIF87a'', ''gif''), (''GIF89a'', ''gif''),
     (''BOOKMOBI'', ''mobi'')]"

definition EPUB_MIMETYPE :: bytes where
  "EPUB_MIMETYPE = ''application/epub+zip''"

definition is_epub :: "doc_lib \<Rightarrow> bytes \<Rightarrow> bool" where
  "is_epub lib data =
     (case dl_zip lib data of None \<Rightarrow> False
      | Some a \<Rightarrow>
          let names = map fst (za_infolist a) in
          if ''mimetype'' \<in> set names then
            (case za_read a ''mimetype'' of None \<Rightarrow> False | Some m \<Rightarrow> str_strip m = EPUB_MIMETYPE)
          else ''META-INF/container.xml'' \<in> set names)"

definition sniff_format :: "doc_lib \<Rightarrow> bytes \<Rightarrow> string" where
  "sniff_format lib data =
     (case find (\<lambda>(signature, name). str_startswith data signature) MAGIC of
        None \<Rightarrow> ''unknown''
      | Some (signature, name) \<Rightarrow>
          if name = ''zip'' then (if is_epub lib data then ''epub'' else ''zip'') else name)"

definition extension_of :: "string option \<Rightarrow> string" where
  "extension_of filename =
     (case filename of None \<Rightarrow> []
      | Some f \<Rightarrow> if f = [] \<or> CHR ''.'' \<notin> set f then [] else str_lower (last (str_split (CHR ''.'') f)))"

subsection \<open>Archive safety\<close>

definition unsafe_name :: "string \<Rightarrow> bool" where
  "unsafe_name name \<longleftrightarrow> str_startswith name ''/'' \<or>
     ''..'' \<in> set (str_split (CHR ''/'') (map (\<lambda>c. if c = CHR 0x5C then CHR ''/'' else c) name))"

fun archive_total :: "nat \<Rightarrow> nat \<Rightarrow> (string \<times> nat) list \<Rightarrow> nat result" where
  "archive_total max_decompressed so_far [] = Inr so_far"
| "archive_total max_decompressed so_far ((name, file_size) # entries) =
     (if unsafe_name name then Inl (UnprocessableDocument None)
      else if so_far + file_size > max_decompressed then Inl (UnprocessableDocument None)
      else archive_total max_decompressed (so_far + file_size) entries)"

definition assert_archive_safe :: "doc_lib \<Rightarrow> bytes \<Rightarrow> nat \<Rightarrow> nat \<Rightarrow> nat result" where
  "assert_archive_safe lib data max_decompressed max_entries =
     (case dl_zip lib data of None \<Rightarrow> Inl (UnprocessableDocument None)
      | Some a \<Rightarrow>
          if length (za_infolist a) > max_entries then Inl (UnprocessableDocument None)
          else archive_total max_decompressed 0 (za_infolist a))"

subsection \<open>Text helpers\<close>

definition NL :: char where
  "NL = CHR 0x0A"

fun unix_newlines :: "string \<Rightarrow> string" where
  "unix_newlines [] = []"
| "unix_newlines (c # s) =
     (if c = CHR 0x0D then
        (case s of d # s' \<Rightarrow> if d = NL then NL # unix_newlines s' else NL # unix_newlines s | [] \<Rightarrow> [NL])
      else if c = CHR 0x00 then unix_newlines s
      else c # unix_newlines s)"

definition is_blank :: "char \<Rightarrow> bool" where
  "is_blank c \<longleftrightarrow> c \<in> set [CHR '' '', CHR 0x09, CHR 0xA0]"

lemma dropWhile_shorter [termination_simp]: "length (dropWhile P s) < Suc (length s)"
  by (simp add: le_imp_less_Suc length_dropWhile_le)

fun collapse_blanks :: "string \<Rightarrow> string" where
  "collapse_blanks [] = []"
| "collapse_blanks (c # s) =
     (if is_blank c then CHR '' '' # collapse_blanks (dropWhile is_blank s) else c # collapse_blanks s)"

text \<open>Three or more line ends become two.\<close>

fun collapse_newlines :: "string \<Rightarrow> string" where
  "collapse_newlines [] = []"
| "collapse_newlines (c # s) =
     (if c = NL then
        (let n = length (takeWhile (\<lambda>d. d = NL) s) in
         replicate (if n \<ge> 2 then 2 else Suc n) NL @ collapse_newlines (dropWhile (\<lambda>d. d = NL) s))
      else c # collapse_newlines s)"

definition normalise_text :: "string \<Rightarrow> string" where
  "normalise_text text =
     str_strip (collapse_newlines
       (str_join [NL] (map str_strip (str_split NL (collapse_blanks (unix_newlines text))))))"

definition clean_text :: "string option \<Rightarrow> string option" where
  "clean_text value = (if truthy value then or_opt (Some (take 500 (normalise_text (the value)))) None else None)"

definition is_digit :: "char \<Rightarrow> bool" where
  "is_digit c \<longleftrightarrow> c \<in> set digit_chars"

definition is_isbn_separator :: "char \<Rightarrow> bool" where
  "is_isbn_separator c \<longleftrightarrow> c \<in> set [CHR ''-'', CHR '' '']"

text \<open>
  The pattern \<open>97[89][- ]?(\d[- ]?){9}\d\<close>. A separator is never a digit, so the greedy
  optional separators need no backtracking. \<open>isbn_tail n\<close> matches \<open>(\d[- ]?){n}\d\<close>.
\<close>

fun isbn_tail :: "nat \<Rightarrow> string \<Rightarrow> string option" where
  "isbn_tail n [] = None"
| "isbn_tail 0 (c # s) = (if is_digit c then Some [c] else None)"
| "isbn_tail (Suc n) (c # s) =
     (if is_digit c then
        (case s of [] \<Rightarrow> None
         | d # s' \<Rightarrow> if is_isbn_separator d then map_option (\<lambda>m. c # d # m) (isbn_tail n s')
                     else map_option (\<lambda>m. c # m) (isbn_tail n s))
      else None)"

definition isbn_match :: "string \<Rightarrow> string option" where
  "isbn_match s =
     (if str_startswith s ''978'' \<or> str_startswith s ''979'' then
        (case drop 3 s of [] \<Rightarrow> None
         | d # s' \<Rightarrow> if is_isbn_separator d then map_option (\<lambda>m. take 3 s @ d # m) (isbn_tail 9 s')
                     else map_option (\<lambda>m. take 3 s @ m) (isbn_tail 9 (drop 3 s)))
      else None)"

fun isbn_search :: "string \<Rightarrow> string option" where
  "isbn_search [] = None"
| "isbn_search (c # s) = (case isbn_match (c # s) of Some m \<Rightarrow> Some m | None \<Rightarrow> isbn_search s)"

definition digits_of :: "string \<Rightarrow> string" where
  "digits_of value = str_upper (filter (\<lambda>c. is_digit c \<or> c = CHR ''X'' \<or> c = CHR ''x'') value)"

definition find_isbn :: "string \<Rightarrow> string option" where
  "find_isbn text = map_option digits_of (isbn_search text)"

subsection \<open>PDF\<close>

record Inspection =
  in_format :: string
  in_size_bytes :: nat
  in_checksum :: string
  in_page_count :: "nat option"
  in_title :: "string option"
  in_author :: "string option"
  in_language :: "string option"
  in_isbn13 :: "string option"
  in_publication_date :: "string option"
  in_encrypted :: bool
  in_excerpt :: string
  in_text_empty :: bool
  in_warnings :: "string list"

definition new_inspection :: "doc_lib \<Rightarrow> string \<Rightarrow> bytes \<Rightarrow> Inspection" where
  "new_inspection lib fmt data = \<lparr>in_format = fmt, in_size_bytes = length data, in_checksum = dl_sha256 lib data,
     in_page_count = None, in_title = None, in_author = None, in_language = None, in_isbn13 = None,
     in_publication_date = None, in_encrypted = False, in_excerpt = [], in_text_empty = False, in_warnings = []\<rparr>"

definition meta_str :: "(string \<times> string) list \<Rightarrow> string \<Rightarrow> string option" where
  "meta_str meta key = (case map_of meta key of None \<Rightarrow> None | Some v \<Rightarrow> or_opt (Some (str_strip v)) None)"

definition leap_year :: "nat \<Rightarrow> bool" where
  "leap_year y \<longleftrightarrow> y mod 4 = 0 \<and> (y mod 100 \<noteq> 0 \<or> y mod 400 = 0)"

definition days_in_month :: "nat \<Rightarrow> nat \<Rightarrow> nat" where
  "days_in_month y m =
     (if m = 2 then (if leap_year y then 29 else 28) else if m \<in> set [4, 6, 9, 11] then 30 else 31)"

text \<open>\<open>date(y, m, d)\<close>: \<open>None\<close> for the \<open>ValueError\<close>.\<close>

definition iso_date :: "nat \<Rightarrow> nat \<Rightarrow> nat \<Rightarrow> string option" where
  "iso_date y m d =
     (if 1 \<le> y \<and> y \<le> 9999 \<and> 1 \<le> m \<and> m \<le> 12 \<and> 1 \<le> d \<and> d \<le> days_in_month y m
      then Some (zero_pad 4 (str_nat y) @ ''-'' @ zero_pad 2 (str_nat m) @ ''-'' @ zero_pad 2 (str_nat d))
      else None)"

definition pdf_date :: "string option \<Rightarrow> string option" where
  "pdf_date raw =
     (if \<not> truthy raw then None
      else
        let r = the raw; ds = take 8 (if str_startswith r ''D:'' then drop 2 r else r) in
        if length ds \<noteq> 8 \<or> \<not> list_all is_digit ds then None
        else (case (digits_value 0 (take 4 ds), digits_value 0 (take 2 (drop 4 ds)), digits_value 0 (drop 6 ds)) of
                (Some y, Some m, Some d) \<Rightarrow> iso_date y m d | _ \<Rightarrow> None))"

text \<open>The pages that are read: at most \<open>max_pages\<close>, until \<open>limit\<close> characters were found.\<close>

fun pdf_chunks :: "nat \<Rightarrow> nat \<Rightarrow> nat \<Rightarrow> string option list \<Rightarrow> string list" where
  "pdf_chunks limit max_pages len [] = []"
| "pdf_chunks limit 0 len (page # pages) = []"
| "pdf_chunks limit (Suc n) len (page # pages) =
     (if len \<ge> limit then []
      else case page of
        None \<Rightarrow> pdf_chunks limit n len pages
      | Some text \<Rightarrow>
          if str_strip text = [] then pdf_chunks limit n len pages
          else text # pdf_chunks limit n (len + length text) pages)"

definition pdf_text :: "string option list \<Rightarrow> nat \<Rightarrow> nat \<Rightarrow> string" where
  "pdf_text pages limit max_pages = take limit (normalise_text (str_join [NL] (pdf_chunks limit max_pages 0 pages)))"

definition inspect_pdf :: "doc_lib \<Rightarrow> bytes \<Rightarrow> nat \<Rightarrow> nat \<Rightarrow> Inspection result" where
  "inspect_pdf lib data excerpt_chars max_pages =
     (case dl_pdf lib data of
        Inl e \<Rightarrow> Inl (if e = PyExn ''PdfReadError'' then UnprocessableDocument None else e)
      | Inr doc \<Rightarrow>
          if pd_is_encrypted doc \<and> (pd_decrypt_raises doc \<or> \<not> pd_opens doc)
          then Inl (UnprocessableDocument (Some ''document_encrypted''))
          else
            case pd_pages doc of None \<Rightarrow> Inl (UnprocessableDocument None)
            | Some pages \<Rightarrow>
                if pages = [] then Inl (UnprocessableDocument None)
                else
                  let excerpt = pdf_text pages excerpt_chars max_pages;
                      meta = pd_metadata doc
                  in Inr ((new_inspection lib ''pdf'' data)
                       \<lparr>in_page_count := Some (length pages),
                        in_title := clean_text (meta_str meta ''/Title''),
                        in_author := clean_text (meta_str meta ''/Author''),
                        in_isbn13 := find_isbn excerpt,
                        in_publication_date := pdf_date (meta_str meta ''/CreationDate''),
                        in_excerpt := excerpt,
                        in_text_empty := (str_strip excerpt = []),
                        in_warnings := (if pd_is_encrypted doc then [''permissions_password_ignored''] else [])
                          @ (if str_strip excerpt = [] then [''no_extractable_text''] else [])\<rparr>))"

subsection \<open>EPUB\<close>

definition parse_xml :: "doc_lib \<Rightarrow> bytes \<Rightarrow> xml_element list result" where
  "parse_xml lib payload =
     (if str_contains ''<!ENTITY'' (take 65536 payload) then Inl (UnprocessableDocument (Some ''unsafe_xml''))
      else case dl_xml lib payload of None \<Rightarrow> Inl (PyExn ''ParseError'') | Some elements \<Rightarrow> Inr elements)"

definition str_endswith :: "string \<Rightarrow> string \<Rightarrow> bool" where
  "str_endswith s suffix = str_startswith (rev s) (rev suffix)"

definition declared_opf :: "string list \<Rightarrow> xml_element \<Rightarrow> string option" where
  "declared_opf names element =
     (if str_endswith (xe_tag element) ''rootfile'' then
        (case map_of (xe_attrib element) ''full-path'' of
           None \<Rightarrow> None | Some path \<Rightarrow> if path \<noteq> [] \<and> path \<in> set names then Some path else None)
      else None)"

definition epub_opf_path :: "doc_lib \<Rightarrow> zip_archive \<Rightarrow> string option result" where
  "epub_opf_path lib archive =
     (case za_read archive ''META-INF/container.xml'' of None \<Rightarrow> Inr None
      | Some raw \<Rightarrow>
          (case parse_xml lib raw of
             Inl e \<Rightarrow> if e = PyExn ''ParseError'' then Inr None else Inl e
           | Inr elements \<Rightarrow>
               let names = map fst (za_infolist archive) in
               case List.map_filter (declared_opf names) elements of
                 path # _ \<Rightarrow> Inr (Some path)
               | [] \<Rightarrow> Inr (find (\<lambda>name. str_endswith name ''.opf'') names)))"

definition DC :: string where
  "DC = ''{http://purl.org/dc/elements/1.1/}''"

definition unset :: "string option \<Rightarrow> bool" where
  "unset x \<longleftrightarrow> \<not> truthy x"

definition read_opf_element :: "Inspection \<Rightarrow> xml_element \<Rightarrow> Inspection" where
  "read_opf_element r element =
     (let t = xe_tag element; value = str_strip (xe_text element) in
      if value = [] then r
      else if t = DC @ ''title'' \<and> unset (in_title r) then r\<lparr>in_title := clean_text (Some value)\<rparr>
      else if t = DC @ ''creator'' \<and> unset (in_author r) then r\<lparr>in_author := clean_text (Some value)\<rparr>
      else if t = DC @ ''language'' \<and> unset (in_language r)
        then r\<lparr>in_language := Some (take 10 (str_lower (hd (str_split (CHR ''-'') value))))\<rparr>
      else if t = DC @ ''date'' \<and> unset (in_publication_date r) then r\<lparr>in_publication_date := Some (take 10 value)\<rparr>
      else if t = DC @ ''identifier'' then
        (case find_isbn value of None \<Rightarrow> r
         | Some isbn \<Rightarrow> if unset (in_isbn13 r) then r\<lparr>in_isbn13 := Some isbn\<rparr> else r)
      else r)"

definition read_opf_metadata :: "xml_element list \<Rightarrow> Inspection \<Rightarrow> Inspection" where
  "read_opf_metadata root r = foldl read_opf_element r root"

definition opf_base :: "string \<Rightarrow> string" where
  "opf_base opf_path =
     (if CHR ''/'' \<in> set opf_path then str_join ''/'' (butlast (str_split (CHR ''/'') opf_path)) else [])"

definition manifest_entry :: "string \<Rightarrow> xml_element \<Rightarrow> (string \<times> string) option" where
  "manifest_entry base element =
     (if str_endswith (xe_tag element) ''item'' then
        (case map_of (xe_attrib element) ''id'' of None \<Rightarrow> None
         | Some i \<Rightarrow>
             let href = opt_default (map_of (xe_attrib element) ''href'') [] in
             Some (i, if base \<noteq> [] then base @ ''/'' @ href else href))
      else None)"

definition epub_spine :: "xml_element list \<Rightarrow> string \<Rightarrow> string list" where
  "epub_spine root opf_path =
     (let manifest = dict_update [] (List.map_filter (manifest_entry (opf_base opf_path)) root) in
      List.map_filter
        (\<lambda>element.
           if str_endswith (xe_tag element) ''itemref'' then
             (case map_of manifest (opt_default (map_of (xe_attrib element) ''idref'') []) of
                None \<Rightarrow> None | Some target \<Rightarrow> if target = [] then None else Some target)
           else None)
        root)"

fun epub_chunks :: "doc_lib \<Rightarrow> zip_archive \<Rightarrow> nat \<Rightarrow> nat \<Rightarrow> string list \<Rightarrow> string list" where
  "epub_chunks lib archive limit len [] = []"
| "epub_chunks lib archive limit len (path # paths) =
     (if len \<ge> limit then []
      else case za_read archive path of
        None \<Rightarrow> epub_chunks lib archive limit len paths
      | Some raw \<Rightarrow>
          let text = dl_chapter_text lib raw in
          if str_strip text = [] then epub_chunks lib archive limit len paths
          else text # epub_chunks lib archive limit (len + length text) paths)"

definition epub_text :: "doc_lib \<Rightarrow> zip_archive \<Rightarrow> string list \<Rightarrow> nat \<Rightarrow> nat \<Rightarrow> string" where
  "epub_text lib archive spine limit max_documents =
     take limit (normalise_text (str_join [NL, NL] (epub_chunks lib archive limit 0 (take max_documents spine))))"

definition inspect_epub :: "doc_lib \<Rightarrow> bytes \<Rightarrow> nat \<Rightarrow> nat \<Rightarrow> Inspection result" where
  "inspect_epub lib data excerpt_chars max_pages =
     (case dl_zip lib data of None \<Rightarrow> Inl (UnprocessableDocument None)
      | Some archive \<Rightarrow>
          case epub_opf_path lib archive of Inl e \<Rightarrow> Inl e
          | Inr None \<Rightarrow> Inl (UnprocessableDocument None)
          | Inr (Some opf_path) \<Rightarrow>
              case za_read archive opf_path of None \<Rightarrow> Inl (UnprocessableDocument None)
              | Some raw \<Rightarrow>
                  case parse_xml lib raw of
                    Inl e \<Rightarrow> Inl (if e = PyExn ''ParseError'' then UnprocessableDocument None else e)
                  | Inr root \<Rightarrow>
                      let r = read_opf_metadata root (new_inspection lib ''epub'' data);
                          excerpt = epub_text lib archive (epub_spine root opf_path) excerpt_chars max_pages
                      in Inr (r\<lparr>in_isbn13 := (if unset (in_isbn13 r) then find_isbn excerpt else in_isbn13 r),
                                in_excerpt := excerpt,
                                in_text_empty := (str_strip excerpt = []),
                                in_warnings := (if str_strip excerpt = [] then [''no_extractable_text''] else [])\<rparr>))"

subsection \<open>Derived artefacts\<close>

text \<open>\<open>max(images, key=len)\<close>: the first of the largest.\<close>

definition largest :: "bytes list \<Rightarrow> bytes option" where
  "largest images = max_row length images"

definition render_pdf_cover :: "doc_lib \<Rightarrow> bytes \<Rightarrow> bytes option" where
  "render_pdf_cover lib data =
     (case dl_pdf lib data of Inl e \<Rightarrow> None
      | Inr doc \<Rightarrow>
          if pd_is_encrypted doc \<and> pd_decrypt_raises doc then None
          else if pd_pages doc = None \<or> pd_pages doc = Some [] then None
          else case dl_page_images lib data of None \<Rightarrow> None
            | Some images \<Rightarrow>
                case largest images of None \<Rightarrow> None
                | Some best \<Rightarrow> if int (length best) < 2048 then None else Some best)"

record Derived =
  dv_data :: bytes
  dv_content_type :: string
  dv_width :: nat
  dv_height :: nat

definition resize :: "doc_lib \<Rightarrow> bytes \<Rightarrow> nat \<Rightarrow> nat \<Rightarrow> nat \<Rightarrow> Derived result" where
  "resize lib data width height quality =
     (case dl_image_size lib data of None \<Rightarrow> Inl (UnprocessableDocument None)
      | Some (w, h) \<Rightarrow>
          if int w * int h > 80000000 then Inl (UnprocessableDocument None)
          else case dl_jpeg lib data width height quality of
            None \<Rightarrow> Inl (UnprocessableDocument None)
          | Some jpeg \<Rightarrow> Inr \<lparr>dv_data = jpeg, dv_content_type = ''image/jpeg'', dv_width = width, dv_height = height\<rparr>)"

record CompressionResult =
  cz_data :: bytes
  cz_original_size :: nat
  cz_applied :: bool

definition compress_pdf :: "doc_lib \<Rightarrow> bytes \<Rightarrow> nat \<Rightarrow> CompressionResult" where
  "compress_pdf lib data min_gain_percent =
     (let unchanged = \<lparr>cz_data = data, cz_original_size = length data, cz_applied = False\<rparr> in
      case dl_pdf lib data of Inl e \<Rightarrow> unchanged
      | Inr doc \<Rightarrow>
          if pd_is_encrypted doc then unchanged
          else case dl_rewrite lib data of None \<Rightarrow> unchanged
            | Some compressed \<Rightarrow>
                let gain = (if data = [] then 0 else 100 * (int (length data) - int (length compressed))) in
                if gain < int min_gain_percent * int (length data) then unchanged
                else \<lparr>cz_data = compressed, cz_original_size = length data, cz_applied = True\<rparr>)"

definition watermark_pdf :: "doc_lib \<Rightarrow> bytes \<Rightarrow> string \<Rightarrow> bytes" where
  "watermark_pdf lib data text =
     (case dl_pdf lib data of Inl e \<Rightarrow> data
      | Inr doc \<Rightarrow>
          if pd_is_encrypted doc then data
          else (case dl_stamp lib data text of None \<Rightarrow> data | Some stamped \<Rightarrow> stamped))"

definition build_sample_pdf :: "doc_lib \<Rightarrow> bytes \<Rightarrow> nat \<Rightarrow> bytes option" where
  "build_sample_pdf lib data pages =
     (case dl_pdf lib data of Inl e \<Rightarrow> None
      | Inr doc \<Rightarrow>
          if pd_is_encrypted doc then None
          else case pd_pages doc of None \<Rightarrow> None
            | Some ps \<Rightarrow>
                let n = length ps; allowed = min pages (max 1 (n div 4)) in
                if n \<le> 4 \<or> allowed \<ge> n then None else dl_first_pages lib data allowed)"

subsection \<open>Lemmas\<close>

lemma archive_total_iff:
  assumes "so_far \<le> m"
  shows "archive_total m so_far es = Inr n \<longleftrightarrow>
     list_all (\<lambda>e. \<not> unsafe_name (fst e)) es \<and> n = so_far + sum_list (map snd es) \<and> n \<le> m"
  using assms
proof (induction es arbitrary: so_far)
  case (Cons e es)
  obtain name size where "e = (name, size)" by (cases e)
  with Cons show ?case by auto
qed auto

lemma archive_safe_iff:
  "assert_archive_safe lib data max_decompressed max_entries = Inr n \<longleftrightarrow>
     (\<exists>a. dl_zip lib data = Some a \<and> length (za_infolist a) \<le> max_entries
       \<and> list_all (\<lambda>e. \<not> unsafe_name (fst e)) (za_infolist a)
       \<and> n = sum_list (map snd (za_infolist a)) \<and> n \<le> max_decompressed)"
  by (auto simp: assert_archive_safe_def archive_total_iff split: option.splits)

text \<open>The characters of a match, and what \<open>digits_of\<close> keeps of them.\<close>

definition isbn_text :: "nat \<Rightarrow> string \<Rightarrow> bool" where
  "isbn_text n m \<longleftrightarrow> list_all (\<lambda>c. is_digit c \<or> is_isbn_separator c) m \<and> length (filter is_digit m) = n"

lemma isbn_text_simps [simp]:
  "isbn_text n [] \<longleftrightarrow> n = 0"
  "is_digit c \<Longrightarrow> isbn_text n (c # m) \<longleftrightarrow> n \<noteq> 0 \<and> isbn_text (n - 1) m"
  "is_isbn_separator c \<Longrightarrow> isbn_text n (c # m) \<longleftrightarrow> isbn_text n m"
  by (auto simp: isbn_text_def is_isbn_separator_def is_digit_def digit_chars_def)

lemma isbn_tail_text: "isbn_tail n s = Some m \<Longrightarrow> isbn_text (Suc n) m"
  by (induction n s arbitrary: m rule: isbn_tail.induct) (auto split: if_splits list.splits)

lemma upper_digit_table: "list_all (\<lambda>c. translate_char lower_letters upper_letters c = c) digit_chars"
  by (simp add: translate_char_def digit_chars_def lower_letters_def upper_letters_def)

lemma str_upper_digits: "list_all is_digit s \<Longrightarrow> str_upper s = s"
  using upper_digit_table by (induction s) (auto simp: str_upper_def is_digit_def list_all_iff)

lemma digits_of_isbn: "isbn_text n m \<Longrightarrow> digits_of m = filter is_digit m"
proof -
  assume m: "isbn_text n m"
  have "\<not> is_digit (CHR ''X'')" "\<not> is_digit (CHR ''x'')" "\<not> is_isbn_separator (CHR ''X'')"
    "\<not> is_isbn_separator (CHR ''x'')" by (simp_all add: is_digit_def digit_chars_def is_isbn_separator_def)
  with m have "CHR ''X'' \<notin> set m" "CHR ''x'' \<notin> set m" by (auto simp: isbn_text_def list_all_iff)
  then have "filter (\<lambda>c. is_digit c \<or> c = CHR ''X'' \<or> c = CHR ''x'') m = filter is_digit m"
    by (intro filter_cong) auto
  then show ?thesis by (simp add: digits_of_def str_upper_digits list_all_iff)
qed

lemma isbn_match_text:
  assumes "isbn_match s = Some m"
  shows "isbn_text 13 m" and "take 3 m \<in> {''978'', ''979''}"
proof -
  have pre: "take 3 s \<in> {''978'', ''979''}" using assms
    by (simp add: isbn_match_def str_startswith_def numeral_3_eq_3 split: if_splits)
  have dig: "is_digit (CHR ''9'')" "is_digit (CHR ''7'')" "is_digit (CHR ''8'')"
    by (simp_all add: is_digit_def digit_chars_def)
  obtain r where r: "m = take 3 s @ r" "isbn_text 10 r"
    using assms by (auto simp: isbn_match_def dest!: isbn_tail_text split: if_splits list.splits)
  show "isbn_text 13 m" using pre r dig by auto
  have "length (take 3 s) = 3" using pre by (auto simp del: length_take)
  then have "take 3 m = take 3 s" using r(1) by simp
  with pre show "take 3 m \<in> {''978'', ''979''}" by simp
qed

lemma isbn_search_match: "isbn_search s = Some m \<Longrightarrow> \<exists>t. isbn_match t = Some m"
  by (induction s) (auto split: option.splits)

lemma find_isbn_thirteen:
  assumes "find_isbn text = Some isbn"
  shows "length isbn = 13" and "list_all is_digit isbn" and "take 3 isbn \<in> {''978'', ''979''}"
proof -
  obtain m t where m: "isbn_match t = Some m" "isbn = digits_of m"
    using assms by (auto simp: find_isbn_def dest: isbn_search_match)
  note shape = isbn_match_text [OF m(1)]
  have eq: "isbn = filter is_digit m" using m(2) digits_of_isbn [OF shape(1)] by simp
  then show "length isbn = 13" "list_all is_digit isbn" using shape(1) by (auto simp: isbn_text_def list_all_iff)
  obtain r where "m = take 3 m @ r" by (metis append_take_drop_id)
  then have "isbn = filter is_digit (take 3 m) @ filter is_digit r" unfolding eq by (metis filter_append)
  with shape(2) show "take 3 isbn \<in> {''978'', ''979''}" by (auto simp: is_digit_def digit_chars_def)
qed

lemma compressed_copy:
  "cz_applied (compress_pdf lib data g) \<Longrightarrow> data \<noteq> [] \<Longrightarrow>
     100 * length (cz_data (compress_pdf lib data g)) + g * length data \<le> 100 * length data"
  "\<not> cz_applied (compress_pdf lib data g) \<Longrightarrow> cz_data (compress_pdf lib data g) = data"
proof -
  assume "cz_applied (compress_pdf lib data g)" "data \<noteq> []"
  then have "int g * int (length data) \<le> 100 * int (length data) - 100 * int (length (cz_data (compress_pdf lib data g)))"
    by (auto simp: compress_pdf_def Let_def split: sum.splits option.splits if_splits)
  then show "100 * length (cz_data (compress_pdf lib data g)) + g * length data \<le> 100 * length data"
    by (simp flip: of_nat_mult of_nat_add)
next
  show "\<not> cz_applied (compress_pdf lib data g) \<Longrightarrow> cz_data (compress_pdf lib data g) = data"
    by (auto simp: compress_pdf_def Let_def split: sum.splits option.splits if_splits)
qed

lemma sample_is_a_quarter:
  assumes "build_sample_pdf lib data pages = Some sample" and "dl_pdf lib data = Inr doc"
    and "pd_pages doc = Some ps" and "0 < pages"
  shows "\<exists>n. dl_first_pages lib data n = Some sample \<and> 0 < n \<and> n \<le> pages \<and> 4 * n \<le> length ps"
proof -
  let ?n = "min pages (max 1 (length ps div 4))"
  have "dl_first_pages lib data ?n = Some sample" "4 < length ps"
    using assms(1-3) by (auto simp: build_sample_pdf_def Let_def split: if_splits)
  then show ?thesis using assms(4) by (intro exI [of _ ?n]) auto
qed

lemma cover_is_largest:
  assumes "render_pdf_cover lib data = Some best" and "dl_page_images lib data = Some images"
  shows "best \<in> set images" and "i \<in> set images \<Longrightarrow> length i \<le> length best" and "2048 \<le> length best"
  using assms max_row_Some [of length images best]
  by (auto simp: render_pdf_cover_def largest_def split: sum.splits option.splits if_splits)

lemma excerpt_bounded:
  "inspect_pdf lib data limit max_pages = Inr r \<Longrightarrow> length (in_excerpt r) \<le> limit"
  "inspect_epub lib data limit max_pages = Inr r \<Longrightarrow> length (in_excerpt r) \<le> limit"
  by (auto simp: inspect_pdf_def inspect_epub_def pdf_text_def epub_text_def Let_def
      split: sum.splits option.splits if_splits)

end
