(* ===== verification/Automation_Jobs.thy ===== *)
theory Automation_Jobs
  imports Documents
begin

section \<open>Ingestion jobs\<close>

text \<open>
  The persistence half of the automation service: the tables of \<open>apps/automation/models.py\<close>,
  the enums and requests of \<open>apps/automation/schemas.py\<close>, the configuration of
  \<open>apps/automation/settings.py\<close> and every operation of \<open>apps/automation/services/jobs.py\<close>.
  A job object is a copy of its row: an operation changes the copy and commits, and the commit
  writes the columns whose value differs from the one that was loaded (\<open>flush_job\<close>), whatever
  the row holds by then. The commit is refused when it would leave two live jobs for one
  source file (the partial unique index). Job options are kept as the validated record, not as
  its JSON. The random jitter of a backoff is the argument \<open>jitter\<close>, in millionths.
\<close>

subsection \<open>Enums, requests, configuration\<close>

datatype JobStatus =
  JobQueued | JobRunning | JobSucceeded | JobFailed | JobRetrying | JobDeadLettered | JobCancelled

datatype Stage =
    Collect | Validate | ExtractMetadata | GenerateDescription | Seo | Tags | Thumbnail | Convert
  | Compress | Watermark | Upload | Index | Publish

definition PIPELINE :: "Stage list" where
  "PIPELINE = [Collect, Validate, ExtractMetadata, GenerateDescription, Seo, Tags, Thumbnail, Convert,
     Compress, Watermark, Upload, Index, Publish]"

definition REQUIRED_STAGES :: "Stage list" where
  "REQUIRED_STAGES = [Collect, Validate, ExtractMetadata, Upload, Index, Publish]"

definition AI_STAGES :: "Stage list" where
  "AI_STAGES = [GenerateDescription, Seo, Tags]"

datatype StageStatus = StagePending | StageRunning | StageSucceeded | StageFailed | StageSkippedStatus

datatype SourceKind = FromUpload | FromImport | FromEvent | FromManual | FromReprocess

record JobOptions =
  op_only_stages :: "Stage list option"
  op_skip_stages :: "Stage list"
  op_force_ai_refresh :: bool
  op_auto_publish :: "bool option"
  op_watermark :: "bool option"
  op_locale :: string

record JobCreate =
  cj_book_id :: uuid
  cj_source_key :: string
  cj_original_filename :: "string option"
  cj_source :: SourceKind
  cj_priority :: int
  cj_options :: JobOptions

definition valid_job_create :: "JobCreate \<Rightarrow> bool" where
  "valid_job_create p \<longleftrightarrow>
     1 \<le> length (cj_source_key p) \<and> length (cj_source_key p) \<le> 500
     \<and> \<not> str_contains ''..'' (cj_source_key p) \<and> \<not> str_startswith (cj_source_key p) ''/''
     \<and> (case cj_original_filename p of None \<Rightarrow> True | Some f \<Rightarrow> length f \<le> 255)
     \<and> -10 \<le> cj_priority p \<and> cj_priority p \<le> 10 \<and> length (op_locale (cj_options p)) \<le> 10"

record automation_settings =
  as_max_source_bytes :: nat
  as_max_decompressed_bytes :: nat
  as_max_archive_entries :: nat
  as_accepted_formats :: "string list"
  as_excerpt_chars :: nat
  as_excerpt_max_pages :: nat
  as_thumbnail_width :: nat
  as_thumbnail_height :: nat
  as_cover_width :: nat
  as_cover_height :: nat
  as_image_quality :: nat
  as_min_compression_gain :: nat
  as_watermark_enabled :: bool
  as_watermark_text :: string
  as_max_attempts :: nat
  as_retry_base_seconds :: nat
  as_retry_max_seconds :: nat
  as_stale_job_seconds :: nat
  as_job_retention_days :: nat
  as_ai_enabled :: bool
  as_search_indexing_enabled :: bool
  as_auto_publish :: bool

definition default_automation_settings :: automation_settings where
  "default_automation_settings =
     \<lparr>as_max_source_bytes = 500 * 1024 * 1024, as_max_decompressed_bytes = 1024 * 1024 * 1024,
      as_max_archive_entries = 10000, as_accepted_formats = [''pdf'', ''epub''], as_excerpt_chars = 12000,
      as_excerpt_max_pages = 40, as_thumbnail_width = 400, as_thumbnail_height = 600, as_cover_width = 1000,
      as_cover_height = 1500, as_image_quality = 82, as_min_compression_gain = 5, as_watermark_enabled = True,
      as_watermark_text = ''KnowledgeOS'', as_max_attempts = 5, as_retry_base_seconds = 30,
      as_retry_max_seconds = 3600, as_stale_job_seconds = 3600, as_job_retention_days = 90,
      as_ai_enabled = True, as_search_indexing_enabled = True, as_auto_publish = False\<rparr>"

definition accepted_format_set :: "automation_settings \<Rightarrow> string list" where
  "accepted_format_set st = map (\<lambda>fmt. dropWhile (\<lambda>c. c = CHR ''.'') (str_lower fmt)) (as_accepted_formats st)"

subsection \<open>Tables\<close>

record AutomationJob =
  jb_id :: uuid
  jb_book_id :: uuid
  jb_source :: SourceKind
  jb_source_key :: string
  jb_original_filename :: "string option"
  jb_status :: JobStatus
  jb_current_stage :: "Stage option"
  jb_attempts :: nat
  jb_priority :: int
  jb_options :: JobOptions
  jb_result :: jobj
  jb_error :: "string option"
  jb_dead_lettered_at :: "timestamp option"
  jb_heartbeat_at :: "timestamp option"
  jb_next_attempt_at :: "timestamp option"
  jb_requested_by :: "uuid option"
  jb_correlation_id :: "string option"
  jb_import_id :: "uuid option"
  jb_started_at :: "timestamp option"
  jb_finished_at :: "timestamp option"
  jb_created_at :: timestamp

record JobStage =
  sg_job_id :: uuid
  sg_stage :: Stage
  sg_position :: nat
  sg_status :: StageStatus
  sg_attempts :: nat
  sg_duration_ms :: "nat option"
  sg_output :: jobj
  sg_error :: "string option"
  sg_started_at :: "timestamp option"
  sg_finished_at :: "timestamp option"

datatype ImportStatus = ImportPending | ImportRunning | ImportCompleted | ImportPartial | ImportFailed

record ImportBatch =
  ib_id :: uuid
  ib_filename :: string
  ib_status :: ImportStatus
  ib_dry_run :: bool
  ib_total :: nat
  ib_succeeded :: nat
  ib_failed :: nat
  ib_errors :: "(int option \<times> string \<times> string option) list"
  ib_requested_by :: "uuid option"
  ib_finished_at :: "timestamp option"
  ib_created_at :: timestamp

record automation_db =
  jobs :: "AutomationJob list"
  job_stages :: "JobStage list"
  import_batches :: "ImportBatch list"
  automation_events :: "(string \<times> string) list"

definition is_terminal :: "AutomationJob \<Rightarrow> bool" where
  "is_terminal j \<longleftrightarrow> jb_status j \<in> set [JobSucceeded, JobFailed, JobDeadLettered, JobCancelled]"

definition ACTIVE :: "JobStatus list" where
  "ACTIVE = [JobQueued, JobRunning, JobRetrying]"

abbreviation job_active :: "AutomationJob \<Rightarrow> bool" where
  "job_active j \<equiv> jb_status j \<in> set ACTIVE"

definition active_clash :: "AutomationJob \<Rightarrow> AutomationJob \<Rightarrow> bool" where
  "active_clash a b \<longleftrightarrow> job_active a \<and> job_active b \<and> jb_source_key a = jb_source_key b"

interpretation active_jobs: keyed_table jb_source_key job_active active_clash
  by unfold_locales (simp add: active_clash_def)

definition active_unique :: "AutomationJob list \<Rightarrow> bool" where
  "active_unique t \<longleftrightarrow> distinct (map jb_source_key (filter job_active t))"

text \<open>
  The flush of a job object: a column is written when the object's value differs from the
  value it was loaded with.
\<close>

definition flush_col :: "'a \<Rightarrow> 'a \<Rightarrow> 'a \<Rightarrow> 'a" where
  "flush_col loaded now_value stored = (if now_value = loaded then stored else now_value)"

definition flush_job :: "AutomationJob \<Rightarrow> AutomationJob \<Rightarrow> AutomationJob \<Rightarrow> AutomationJob" where
  "flush_job a b row = row
     \<lparr>jb_status := flush_col (jb_status a) (jb_status b) (jb_status row),
      jb_current_stage := flush_col (jb_current_stage a) (jb_current_stage b) (jb_current_stage row),
      jb_attempts := flush_col (jb_attempts a) (jb_attempts b) (jb_attempts row),
      jb_result := flush_col (jb_result a) (jb_result b) (jb_result row),
      jb_error := flush_col (jb_error a) (jb_error b) (jb_error row),
      jb_dead_lettered_at := flush_col (jb_dead_lettered_at a) (jb_dead_lettered_at b) (jb_dead_lettered_at row),
      jb_heartbeat_at := flush_col (jb_heartbeat_at a) (jb_heartbeat_at b) (jb_heartbeat_at row),
      jb_next_attempt_at := flush_col (jb_next_attempt_at a) (jb_next_attempt_at b) (jb_next_attempt_at row),
      jb_started_at := flush_col (jb_started_at a) (jb_started_at b) (jb_started_at row),
      jb_finished_at := flush_col (jb_finished_at a) (jb_finished_at b) (jb_finished_at row)\<rparr>"

definition commit_job :: "automation_db \<Rightarrow> AutomationJob \<Rightarrow> AutomationJob \<Rightarrow> (automation_db \<times> AutomationJob) result" where
  "commit_job db a b =
     (let t = update_rows (\<lambda>r. jb_id r = jb_id a) (flush_job a b) (jobs db) in
      if active_unique t then Inr (db\<lparr>jobs := t\<rparr>, b) else Inl (PyExn ''IntegrityError''))"

subsection \<open>Creation and reading\<close>

definition stage_position :: "Stage \<Rightarrow> nat" where
  "stage_position s = length (takeWhile (\<lambda>x. x \<noteq> s) PIPELINE)"

definition stage_selected :: "Stage \<Rightarrow> JobOptions \<Rightarrow> bool" where
  "stage_selected s o1 =
     (case op_only_stages o1 of
        Some (x # xs) \<Rightarrow> s \<in> set (x # xs)
      | _ \<Rightarrow> s \<notin> set (op_skip_stages o1))"

definition new_stage :: "uuid \<Rightarrow> Stage \<Rightarrow> StageStatus \<Rightarrow> JobStage" where
  "new_stage job_id s status = \<lparr>sg_job_id = job_id, sg_stage = s, sg_position = stage_position s,
     sg_status = status, sg_attempts = 0, sg_duration_ms = None, sg_output = [], sg_error = None,
     sg_started_at = None, sg_finished_at = None\<rparr>"

definition active_for_source :: "automation_db \<Rightarrow> string \<Rightarrow> AutomationJob option" where
  "active_for_source db source_key = first_row (\<lambda>j. jb_source_key j = source_key \<and> job_active j) (jobs db)"

definition new_job ::
  "uuid \<Rightarrow> timestamp \<Rightarrow> JobCreate \<Rightarrow> uuid option \<Rightarrow> string option \<Rightarrow> uuid option \<Rightarrow> AutomationJob" where
  "new_job job_id now p requested_by correlation_id import_id =
     \<lparr>jb_id = job_id, jb_book_id = cj_book_id p, jb_source = cj_source p, jb_source_key = cj_source_key p,
      jb_original_filename = cj_original_filename p, jb_status = JobQueued, jb_current_stage = None,
      jb_attempts = 0, jb_priority = cj_priority p, jb_options = cj_options p, jb_result = [], jb_error = None,
      jb_dead_lettered_at = None, jb_heartbeat_at = None, jb_next_attempt_at = None,
      jb_requested_by = requested_by, jb_correlation_id = correlation_id, jb_import_id = import_id,
      jb_started_at = None, jb_finished_at = None, jb_created_at = now\<rparr>"

definition create_job ::
  "automation_db \<Rightarrow> uuid \<Rightarrow> timestamp \<Rightarrow> JobCreate \<Rightarrow> uuid option \<Rightarrow> string option \<Rightarrow> uuid option
     \<Rightarrow> (automation_db \<times> AutomationJob) result" where
  "create_job db job_id now p requested_by correlation_id import_id =
     (case active_for_source db (cj_source_key p) of
        Some existing \<Rightarrow> Inl (raise_code ConflictError ''job_already_running'')
      | None \<Rightarrow>
          let j = new_job job_id now p requested_by correlation_id import_id in
          case insert_unique active_clash j (jobs db) of
            None \<Rightarrow> Inl (PyExn ''IntegrityError'')
          | Some t \<Rightarrow>
              Inr (db\<lparr>jobs := t,
                       job_stages := job_stages db @
                         map (\<lambda>s. new_stage job_id s
                           (if stage_selected s (cj_options p) then StagePending else StageSkippedStatus)) PIPELINE\<rparr>, j))"

definition get_job :: "automation_db \<Rightarrow> uuid \<Rightarrow> AutomationJob result" where
  "get_job db job_id =
     (case first_row (\<lambda>j. jb_id j = job_id) (jobs db) of
        None \<Rightarrow> Inl (raise_default NotFoundError) | Some j \<Rightarrow> Inr j)"

definition list_jobs ::
  "automation_db \<Rightarrow> nat \<Rightarrow> nat \<Rightarrow> JobStatus option \<Rightarrow> uuid option \<Rightarrow> AutomationJob list \<times> nat" where
  "list_jobs db limit offset status book_id =
     (let rows = filter (\<lambda>j. (status = None \<or> status = Some (jb_status j))
                           \<and> (book_id = None \<or> book_id = Some (jb_book_id j))) (jobs db)
      in (page_rows limit offset (order_by_desc jb_created_at rows), length rows))"

definition stages_of :: "automation_db \<Rightarrow> uuid \<Rightarrow> JobStage list" where
  "stages_of db job_id = sort_key sg_position (filter (\<lambda>r. sg_job_id r = job_id) (job_stages db))"

definition claim_due :: "automation_db \<Rightarrow> timestamp \<Rightarrow> nat \<Rightarrow> AutomationJob list" where
  "claim_due db now limit =
     take limit (sort_key (\<lambda>j. - jb_priority j) (sort_key jb_created_at
       (filter (\<lambda>j. jb_status j \<in> set [JobQueued, JobRetrying]
          \<and> (case jb_next_attempt_at j of None \<Rightarrow> True | Some t \<Rightarrow> t \<le> now)) (jobs db))))"

subsection \<open>Life cycle\<close>

definition mark_running :: "automation_db \<Rightarrow> timestamp \<Rightarrow> AutomationJob \<Rightarrow> (automation_db \<times> AutomationJob) result" where
  "mark_running db now j =
     commit_job db j (j\<lparr>jb_status := JobRunning, jb_attempts := jb_attempts j + 1, jb_heartbeat_at := Some now,
       jb_error := None, jb_started_at := (case jb_started_at j of None \<Rightarrow> Some now | Some t \<Rightarrow> Some t)\<rparr>)"

definition heartbeat :: "automation_db \<Rightarrow> timestamp \<Rightarrow> AutomationJob \<Rightarrow> (automation_db \<times> AutomationJob) result" where
  "heartbeat db now j = commit_job db j (j\<lparr>jb_heartbeat_at := Some now\<rparr>)"

definition stage_is :: "uuid \<Rightarrow> Stage \<Rightarrow> JobStage \<Rightarrow> bool" where
  "stage_is job_id s r \<longleftrightarrow> sg_job_id r = job_id \<and> sg_stage r = s"

text \<open>\<open>stage_row\<close> followed by the assignment \<open>f\<close> to the row it returns.\<close>

definition set_stage :: "automation_db \<Rightarrow> AutomationJob \<Rightarrow> Stage \<Rightarrow> (JobStage \<Rightarrow> JobStage) \<Rightarrow> automation_db" where
  "set_stage db j s f =
     (let rows = (if first_row (stage_is (jb_id j) s) (job_stages db) = None
                  then job_stages db @ [new_stage (jb_id j) s StagePending] else job_stages db)
      in db\<lparr>job_stages := update_rows (stage_is (jb_id j) s) f rows\<rparr>)"

definition begin_stage ::
  "automation_db \<Rightarrow> timestamp \<Rightarrow> AutomationJob \<Rightarrow> Stage \<Rightarrow> (automation_db \<times> AutomationJob) result" where
  "begin_stage db now j s =
     commit_job (set_stage db j s (\<lambda>r. r\<lparr>sg_status := StageRunning, sg_attempts := sg_attempts r + 1,
         sg_started_at := Some now, sg_error := None\<rparr>)) j
       (j\<lparr>jb_current_stage := Some s, jb_heartbeat_at := Some now\<rparr>)"

definition complete_stage ::
  "automation_db \<Rightarrow> timestamp \<Rightarrow> AutomationJob \<Rightarrow> Stage \<Rightarrow> jobj \<Rightarrow> nat \<Rightarrow> (automation_db \<times> AutomationJob) result" where
  "complete_stage db now j s output duration_ms =
     commit_job (set_stage db j s (\<lambda>r. r\<lparr>sg_status := StageSucceeded, sg_output := output,
         sg_duration_ms := Some duration_ms, sg_finished_at := Some now, sg_error := None\<rparr>)) j
       (j\<lparr>jb_result := (if output = [] then jb_result j else dict_update (jb_result j) output),
          jb_heartbeat_at := Some now\<rparr>)"

definition skip_stage :: "automation_db \<Rightarrow> timestamp \<Rightarrow> AutomationJob \<Rightarrow> Stage \<Rightarrow> string \<Rightarrow> automation_db" where
  "skip_stage db now j s reason =
     set_stage db j s (\<lambda>r. r\<lparr>sg_status := StageSkippedStatus, sg_error := Some reason, sg_finished_at := Some now\<rparr>)"

definition fail_stage :: "automation_db \<Rightarrow> timestamp \<Rightarrow> AutomationJob \<Rightarrow> Stage \<Rightarrow> string \<Rightarrow> nat \<Rightarrow> automation_db" where
  "fail_stage db now j s err duration_ms =
     set_stage db j s (\<lambda>r. r\<lparr>sg_status := StageFailed, sg_error := Some (take 4000 err),
       sg_duration_ms := Some duration_ms, sg_finished_at := Some now\<rparr>)"

definition succeed :: "automation_db \<Rightarrow> timestamp \<Rightarrow> AutomationJob \<Rightarrow> (automation_db \<times> AutomationJob) result" where
  "succeed db now j =
     commit_job db j (j\<lparr>jb_status := JobSucceeded, jb_current_stage := None, jb_finished_at := Some now,
       jb_error := None, jb_next_attempt_at := None\<rparr>)"

definition backoff_seconds :: "automation_settings \<Rightarrow> nat \<Rightarrow> nat" where
  "backoff_seconds st attempts = min (as_retry_base_seconds st * 2 ^ (attempts - 1)) (as_retry_max_seconds st)"

definition schedule_retry ::
  "automation_settings \<Rightarrow> automation_db \<Rightarrow> timestamp \<Rightarrow> int \<Rightarrow> AutomationJob \<Rightarrow> string
     \<Rightarrow> (automation_db \<times> AutomationJob \<times> bool) result" where
  "schedule_retry st db now jitter j err =
     (let j1 = j\<lparr>jb_error := Some (take 4000 err)\<rparr> in
      if jb_attempts j \<ge> as_max_attempts st then
        (case commit_job db j (j1\<lparr>jb_status := JobDeadLettered, jb_dead_lettered_at := Some now,
            jb_finished_at := Some now, jb_current_stage := None, jb_next_attempt_at := None\<rparr>) of
           Inl e \<Rightarrow> Inl e | Inr (db', j') \<Rightarrow> Inr (db', j', False))
      else
        (case commit_job db j (j1\<lparr>jb_status := JobRetrying,
            jb_next_attempt_at := Some (now + int (backoff_seconds st (jb_attempts j)) * jitter)\<rparr>) of
           Inl e \<Rightarrow> Inl e | Inr (db', j') \<Rightarrow> Inr (db', j', True)))"

definition fail_terminally ::
  "automation_db \<Rightarrow> timestamp \<Rightarrow> AutomationJob \<Rightarrow> string \<Rightarrow> (automation_db \<times> AutomationJob) result" where
  "fail_terminally db now j err =
     commit_job db j (j\<lparr>jb_status := JobFailed, jb_error := Some (take 4000 err), jb_finished_at := Some now,
       jb_next_attempt_at := None\<rparr>)"

definition cancel_job :: "automation_db \<Rightarrow> timestamp \<Rightarrow> AutomationJob \<Rightarrow> (automation_db \<times> AutomationJob) result" where
  "cancel_job db now j =
     (if is_terminal j then Inl (raise_default ConflictError)
      else commit_job db j (j\<lparr>jb_status := JobCancelled, jb_current_stage := None, jb_finished_at := Some now,
        jb_next_attempt_at := None\<rparr>))"

definition prepare_retry ::
  "automation_db \<Rightarrow> AutomationJob \<Rightarrow> Stage option \<Rightarrow> bool \<Rightarrow> (automation_db \<times> AutomationJob) result" where
  "prepare_retry db j from_stage reset_attempts =
     (if jb_status j \<in> set [JobQueued, JobRunning, JobRetrying] then Inl (raise_default ConflictError)
      else
        let rows = (case from_stage of None \<Rightarrow> job_stages db
              | Some s \<Rightarrow> update_rows (\<lambda>r. sg_job_id r = jb_id j \<and> sg_position r \<ge> stage_position s)
                  (\<lambda>r. r\<lparr>sg_status := StagePending, sg_error := None, sg_output := [], sg_started_at := None,
                     sg_finished_at := None, sg_duration_ms := None\<rparr>) (job_stages db))
        in commit_job (db\<lparr>job_stages := rows\<rparr>) j
             (j\<lparr>jb_status := JobQueued, jb_attempts := (if reset_attempts then 0 else jb_attempts j),
                jb_dead_lettered_at := None, jb_error := None, jb_finished_at := None, jb_next_attempt_at := None,
                jb_current_stage := None\<rparr>))"

subsection \<open>Sweeps and statistics\<close>

definition is_stale :: "automation_settings \<Rightarrow> timestamp \<Rightarrow> AutomationJob \<Rightarrow> bool" where
  "is_stale st now j \<longleftrightarrow> jb_status j = JobRunning \<and>
     (case jb_heartbeat_at j of None \<Rightarrow> True | Some t \<Rightarrow> t < now - int (as_stale_job_seconds st) * 1000000)"

definition requeue_stale :: "automation_settings \<Rightarrow> automation_db \<Rightarrow> timestamp \<Rightarrow> automation_db \<times> nat" where
  "requeue_stale st db now =
     (db\<lparr>jobs := update_rows (is_stale st now)
        (\<lambda>j. j\<lparr>jb_status := JobQueued, jb_current_stage := None, jb_next_attempt_at := None\<rparr>) (jobs db)\<rparr>,
      count_rows (is_stale st now) (jobs db))"

definition prunable :: "automation_settings \<Rightarrow> timestamp \<Rightarrow> AutomationJob \<Rightarrow> bool" where
  "prunable st now j \<longleftrightarrow> jb_status j \<in> set [JobSucceeded, JobCancelled] \<and>
     (case jb_finished_at j of None \<Rightarrow> False
      | Some t \<Rightarrow> t < now - int (as_job_retention_days st) * 86400000000)"

definition prune_jobs :: "automation_settings \<Rightarrow> automation_db \<Rightarrow> timestamp \<Rightarrow> automation_db \<times> nat" where
  "prune_jobs st db now =
     (let gone = map jb_id (filter (prunable st now) (jobs db)) in
      (db\<lparr>jobs := delete_rows (prunable st now) (jobs db),
          job_stages := delete_rows (\<lambda>r. sg_job_id r \<in> set gone) (job_stages db)\<rparr>, length gone))"

text \<open>The durations of the rows that have both times, in milliseconds.\<close>

definition median_ms :: "(timestamp option \<times> timestamp option) list \<Rightarrow> int option" where
  "median_ms rows =
     (let vs = sort (List.map_filter (\<lambda>(started, finished).
            case (started, finished) of (Some a, Some b) \<Rightarrow> Some ((b - a) div 1000) | _ \<Rightarrow> None) rows);
          middle = length vs div 2
      in if vs = [] then None
         else if length vs mod 2 = 1 then Some (vs ! middle)
         else Some ((vs ! (middle - 1) + vs ! middle) div 2))"

record PipelineStats =
  ps_total :: nat
  ps_succeeded :: nat
  ps_failed :: nat
  ps_dead_lettered :: nat
  ps_running :: nat
  ps_queued :: nat
  ps_failures_by_stage :: "(Stage \<times> nat) list"
  ps_median_duration_ms :: "int option"

definition pipeline_stats :: "automation_db \<Rightarrow> timestamp \<Rightarrow> nat \<Rightarrow> PipelineStats" where
  "pipeline_stats db now days =
     (let rows = filter (\<lambda>j. now - int days * 86400000000 \<le> jb_created_at j) (jobs db);
          of_status = (\<lambda>s. count_rows (\<lambda>j. jb_status j = s) rows);
          failures = (\<lambda>s. count_rows (\<lambda>r. sg_stage r = s \<and> sg_status r = StageFailed
                            \<and> sg_job_id r \<in> set (map jb_id rows)) (job_stages db))
      in \<lparr>ps_total = length rows, ps_succeeded = of_status JobSucceeded, ps_failed = of_status JobFailed,
          ps_dead_lettered = of_status JobDeadLettered, ps_running = of_status JobRunning,
          ps_queued = of_status JobQueued + of_status JobRetrying,
          ps_failures_by_stage = filter (\<lambda>(s, n). n \<noteq> 0) (map (\<lambda>s. (s, failures s)) PIPELINE),
          ps_median_duration_ms = median_ms (map (\<lambda>j. (jb_started_at j, jb_finished_at j))
             (filter (\<lambda>j. jb_status j = JobSucceeded \<and> jb_started_at j \<noteq> None \<and> jb_finished_at j \<noteq> None) rows))\<rparr>)"

subsection \<open>Lemmas: commits\<close>

definition jobs_ok :: "automation_db \<Rightarrow> bool" where
  "jobs_ok db \<longleftrightarrow> distinct (map jb_id (jobs db)) \<and> active_unique (jobs db)"

text \<open>The object \<open>j\<close> is what its row holds.\<close>

definition synced :: "automation_db \<Rightarrow> AutomationJob \<Rightarrow> bool" where
  "synced db j \<longleftrightarrow> jobs_ok db \<and> j \<in> set (jobs db)"

definition same_identity :: "AutomationJob \<Rightarrow> AutomationJob \<Rightarrow> bool" where
  "same_identity a b \<longleftrightarrow> jb_id b = jb_id a \<and> jb_book_id b = jb_book_id a \<and> jb_source b = jb_source a
     \<and> jb_source_key b = jb_source_key a \<and> jb_original_filename b = jb_original_filename a
     \<and> jb_priority b = jb_priority a \<and> jb_options b = jb_options a \<and> jb_requested_by b = jb_requested_by a
     \<and> jb_correlation_id b = jb_correlation_id a \<and> jb_import_id b = jb_import_id a
     \<and> jb_created_at b = jb_created_at a"

lemma active_unique_keys: "active_unique t \<longleftrightarrow> active_jobs.unique_keys t"
  by (simp add: active_unique_def active_jobs.unique_keys_def)

lemma flush_job_identity [simp]:
  "jb_id (flush_job a b r) = jb_id r" "jb_source_key (flush_job a b r) = jb_source_key r"
  by (simp_all add: flush_job_def)

lemma flush_job_synced: "same_identity a b \<Longrightarrow> flush_job a b a = b"
  by (cases a; cases b) (simp add: same_identity_def flush_job_def flush_col_def)

lemma same_identity_refl [simp]: "same_identity a a"
  by (simp add: same_identity_def)

lemma same_identity_trans: "same_identity a b \<Longrightarrow> same_identity b c \<Longrightarrow> same_identity a c"
  by (simp add: same_identity_def)

lemma active_unique_update:
  assumes "active_unique t"
    and "\<And>r. r \<in> set t \<Longrightarrow> P r \<Longrightarrow> (job_active (f r) \<longrightarrow> job_active r) \<and> jb_source_key (f r) = jb_source_key r"
  shows "active_unique (update_rows P f t)"
proof -
  let ?keys = "\<lambda>u. map jb_source_key (filter job_active u)"
  have "distinct (?keys (update_rows P f t)) \<and> set (?keys (update_rows P f t)) \<subseteq> set (?keys t)"
    using assms unfolding active_unique_def
  proof (induction t)
    case (Cons r t)
    then have "distinct (?keys (update_rows P f t)) \<and> set (?keys (update_rows P f t)) \<subseteq> set (?keys t)"
      by (auto split: if_splits)
    with Cons.prems(1) Cons.prems(2) [of r] show ?case by (auto split: if_splits)
  qed simp
  then show ?thesis by (simp add: active_unique_def)
qed

lemma synced_unique: "synced db j \<Longrightarrow> r \<in> set (jobs db) \<Longrightarrow> jb_id r = jb_id j \<Longrightarrow> r = j"
  by (auto simp: synced_def jobs_ok_def distinct_map inj_on_def)

lemma synced_get: "synced db j \<Longrightarrow> get_job db (jb_id j) = Inr j"
proof (cases "first_row (\<lambda>r. jb_id r = jb_id j) (jobs db)")
  case None
  then show "synced db j \<Longrightarrow> ?thesis" unfolding first_row_None by (auto simp: synced_def)
next
  case (Some r)
  then show "synced db j \<Longrightarrow> ?thesis"
    using first_row_Some [OF Some] synced_unique [of db j r] by (simp add: get_job_def)
qed

lemma commit_job_synced:
  assumes s: "synced db a" and b: "same_identity a b" and act: "job_active b \<Longrightarrow> job_active a"
  obtains db' where "commit_job db a b = Inr (db', b)" "synced db' b" "job_stages db' = job_stages db"
    "\<And>r. r \<in> set (jobs db) \<Longrightarrow> jb_id r \<noteq> jb_id a \<Longrightarrow> r \<in> set (jobs db')"
proof -
  let ?t = "update_rows (\<lambda>r. jb_id r = jb_id a) (flush_job a b) (jobs db)"
  note flushed = flush_job_synced [OF b]
  have only: "r = a" if "r \<in> set (jobs db)" "jb_id r = jb_id a" for r using synced_unique [OF s that] .
  have au: "active_unique ?t"
  proof (rule active_unique_update)
    show "active_unique (jobs db)" using s by (simp add: synced_def jobs_ok_def)
    fix r assume "r \<in> set (jobs db)" "jb_id r = jb_id a"
    then have "r = a" by (rule only)
    then show "(job_active (flush_job a b r) \<longrightarrow> job_active r) \<and> jb_source_key (flush_job a b r) = jb_source_key r"
      using act flushed b by (simp add: same_identity_def)
  qed
  moreover have "distinct (map jb_id ?t)" using s by (simp add: map_update_rows synced_def jobs_ok_def)
  moreover have "b \<in> set ?t" using s flushed by (force simp: set_update_rows synced_def)
  moreover have "r \<in> set ?t" if "r \<in> set (jobs db)" "jb_id r \<noteq> jb_id a" for r
    using that by (force simp: set_update_rows)
  ultimately show ?thesis
    by (intro that [of "db\<lparr>jobs := ?t\<rparr>"]) (simp_all add: commit_job_def synced_def jobs_ok_def)
qed

lemma set_stage_simps [simp]:
  "jobs (set_stage db j s f) = jobs db" "import_batches (set_stage db j s f) = import_batches db"
  "automation_events (set_stage db j s f) = automation_events db"
  by (simp_all add: set_stage_def Let_def)

lemma synced_stages [simp]: "synced (set_stage db j s f) k = synced db k"
  by (simp add: synced_def jobs_ok_def)

lemma skip_fail_jobs [simp]:
  "synced (skip_stage db t j s r) k = synced db k" "synced (fail_stage db t j s r d) k = synced db k"
  by (simp_all add: skip_stage_def fail_stage_def)

subsection \<open>Lemmas: stage rows\<close>

definition stage_rows :: "automation_db \<Rightarrow> uuid \<Rightarrow> Stage \<Rightarrow> JobStage list" where
  "stage_rows db job_id s = filter (stage_is job_id s) (job_stages db)"

definition stage_succeeded :: "automation_db \<Rightarrow> uuid \<Rightarrow> Stage \<Rightarrow> bool" where
  "stage_succeeded db job_id s \<longleftrightarrow> (\<exists>r \<in> set (stage_rows db job_id s). sg_status r = StageSucceeded)"

lemma stage_rows_other:
  assumes "s' \<noteq> s \<or> k \<noteq> jb_id j" and "\<And>r. sg_job_id (f r) = sg_job_id r" and "\<And>r. sg_stage (f r) = sg_stage r"
  shows "stage_rows (set_stage db j s f) k s' = stage_rows db k s'"
proof -
  have "filter (stage_is k s') (update_rows (stage_is (jb_id j) s) f t) = filter (stage_is k s') t" for t
    using assms by (induction t) (auto simp: stage_is_def)
  moreover have "\<not> stage_is k s' (new_stage (jb_id j) s StagePending)"
    using assms(1) by (auto simp: stage_is_def new_stage_def)
  ultimately show ?thesis by (simp add: stage_rows_def set_stage_def Let_def)
qed

lemma stage_rows_set:
  assumes "\<And>r. sg_job_id (f r) = sg_job_id r" and "\<And>r. sg_stage (f r) = sg_stage r"
    and "\<And>r. sg_status (f r) = StageSucceeded"
  shows "stage_succeeded (set_stage db j s f) (jb_id j) s"
proof -
  let ?rows = "if first_row (stage_is (jb_id j) s) (job_stages db) = None
     then job_stages db @ [new_stage (jb_id j) s StagePending] else job_stages db"
  have new: "stage_is (jb_id j) s (new_stage (jb_id j) s StagePending)" by (simp add: stage_is_def new_stage_def)
  obtain r where r: "r \<in> set ?rows" "stage_is (jb_id j) s r"
  proof (cases "first_row (stage_is (jb_id j) s) (job_stages db)")
    case None
    then show ?thesis using new by (intro that [of "new_stage (jb_id j) s StagePending"]) simp_all
  next
    case (Some r)
    then show ?thesis using first_row_Some [OF Some] by (intro that [of r]) simp_all
  qed
  then have "f r \<in> set (update_rows (stage_is (jb_id j) s) f ?rows)" by (auto simp: set_update_rows)
  moreover have "stage_is (jb_id j) s (f r)" using r(2) assms by (simp add: stage_is_def)
  ultimately show ?thesis using assms(3) unfolding stage_succeeded_def stage_rows_def set_stage_def Let_def
    by (intro bexI [of _ "f r"]) simp_all
qed

lemma in_stages_of: "r \<in> set (stages_of db k) \<longleftrightarrow> r \<in> set (job_stages db) \<and> sg_job_id r = k"
  by (simp add: stages_of_def)

end
