(* ===== verification/Automation_Stages.thy ===== *)
theory Automation_Stages
  imports Automation_Jobs Uuid "HOL-Library.List_Lexorder" "HOL-Library.Char_ord"
begin

section \<open>The thirteen stages\<close>

text \<open>
  \<open>apps/automation/services/stages.py\<close> and the calls of \<open>apps/automation/services/clients.py\<close>:
  what one stage of the pipeline does with the context of a run. A stage returns its output,
  decides that there is nothing to do, or raises; it may replace the working copy of the file,
  and it may change the world outside (objects in storage, the catalogue, the search index).
  The context's result is a Python \<open>dict\<close> whose values are JSON, except for the pending
  uploads, which carry file contents.

  What storage and the sibling services answer is the parameter \<open>pipe_env\<close>; documents they
  return are read field by field, and a field of something that is no object counts as absent.
  Left out of the outputs are the two fractional numbers nothing reads (the compression ratio
  and the cost of an AI call).
\<close>

subsection \<open>Context, world and environment\<close>

datatype ctx_value = VJson json | VUploads "(string \<times> string \<times> bytes) list"

type_synonym ctx_dict = "(string \<times> ctx_value) list"

record StageContext =
  sx_job_id :: uuid
  sx_book_id :: uuid
  sx_source_key :: string
  sx_original_filename :: "string option"
  sx_options :: JobOptions
  sx_result :: ctx_dict
  sx_payload :: "bytes option"

record pipe_world =
  pw_objects :: "(string \<times> string \<times> bytes) list"
  pw_generated :: "(uuid \<times> string list) list"
  pw_patches :: "(uuid \<times> jobj) list"
  pw_indexed :: "uuid list"
  pw_published :: "uuid list"
  pw_events :: "(string \<times> jobj) list"

record object_head =
  oh_size :: nat
  oh_content_type :: string
  oh_etag :: string

record pipe_env =
  pe_settings :: automation_settings
  pe_lib :: doc_lib
  pe_storage :: bool
  pe_services :: bool
  pe_head :: "string \<Rightarrow> object_head result"
  pe_get_bytes :: "string \<Rightarrow> bytes result"
  pe_put :: "string \<Rightarrow> bytes \<Rightarrow> exn option"
  pe_get_book :: "uuid \<Rightarrow> json result"
  pe_generate :: "jobj \<Rightarrow> json result"
  pe_update_book :: "uuid \<Rightarrow> jobj \<Rightarrow> exn option"
  pe_index_book :: "uuid \<Rightarrow> exn option"
  pe_publish_book :: "uuid \<Rightarrow> exn option"
  pe_publisher :: bool
  pe_send :: "string \<Rightarrow> jobj \<Rightarrow> exn option"
  pe_str :: "exn \<Rightarrow> string"

datatype handler_outcome = Output ctx_dict | StageSkipped string | Raised exn

type_synonym handler = "StageContext \<Rightarrow> pipe_world \<Rightarrow> StageContext \<times> pipe_world \<times> handler_outcome"

definition jfield :: "json \<Rightarrow> string \<Rightarrow> json" where
  "jfield j k = (case j of JObj d \<Rightarrow> jget_null d k | _ \<Rightarrow> JNull)"

definition ctx_json :: "StageContext \<Rightarrow> string \<Rightarrow> json" where
  "ctx_json ctx k = (case map_of (sx_result ctx) k of Some (VJson j) \<Rightarrow> j | _ \<Rightarrow> JNull)"

definition ctx_uploads :: "StageContext \<Rightarrow> (string \<times> string \<times> bytes) list" where
  "ctx_uploads ctx = (case map_of (sx_result ctx) ''_pending_uploads'' of Some (VUploads u) \<Rightarrow> u | _ \<Rightarrow> [])"

definition opt_json :: "string option \<Rightarrow> json" where
  "opt_json x = (case x of None \<Rightarrow> JNull | Some s \<Rightarrow> JStr s)"

definition jlist :: "json \<Rightarrow> json list" where
  "jlist j = (case j of JArr xs \<Rightarrow> xs | _ \<Rightarrow> [])"

definition require_payload :: "StageContext \<Rightarrow> bytes result" where
  "require_payload ctx = (case sx_payload ctx of None \<Rightarrow> Inl (PyExn ''RuntimeError'') | Some b \<Rightarrow> Inr b)"

definition artefact_key :: "StageContext \<Rightarrow> string \<Rightarrow> string \<Rightarrow> string" where
  "artefact_key ctx name extension =
     ''private/derived/'' @ str_uuid (sx_book_id ctx) @ ''/'' @ str_uuid (sx_job_id ctx) @ ''/'' @ name @ ''.'' @ extension"

definition public_key :: "StageContext \<Rightarrow> string \<Rightarrow> string \<Rightarrow> string" where
  "public_key ctx name extension =
     ''public/books/'' @ str_uuid (sx_book_id ctx) @ ''/'' @ name @ ''.'' @ extension"

definition detected_format :: "StageContext \<Rightarrow> json" where
  "detected_format ctx = jfield (ctx_json ctx ''validation'') ''format''"

subsection \<open>Sibling services\<close>

record AiOutput =
  ai_description :: "string option"
  ai_summary :: "string option"
  ai_meta_title :: "string option"
  ai_meta_description :: "string option"
  ai_keywords :: "string list"
  ai_tags :: "string list"
  ai_failed :: "string list"

definition ai_empty :: "AiOutput \<Rightarrow> bool" where
  "ai_empty a \<longleftrightarrow> \<not> (truthy (ai_description a) \<or> truthy (ai_summary a) \<or> truthy (ai_meta_title a)
     \<or> ai_keywords a \<noteq> [] \<or> ai_tags a \<noteq> [])"

definition trim :: "json \<Rightarrow> nat \<Rightarrow> string option" where
  "trim value limit = (case value of JStr s \<Rightarrow> or_opt (Some (take limit (str_strip s))) None | _ \<Rightarrow> None)"

fun string_items :: "nat \<Rightarrow> string list \<Rightarrow> json list \<Rightarrow> string list" where
  "string_items limit seen [] = seen"
| "string_items limit seen (item # items) =
     (case item of
        JStr s \<Rightarrow>
          let cleaned = take 60 (str_lower (str_strip s));
              seen' = (if cleaned \<noteq> [] \<and> cleaned \<notin> set seen then seen @ [cleaned] else seen)
          in if length seen' \<ge> limit then seen' else string_items limit seen' items
      | _ \<Rightarrow> string_items limit seen items)"

definition string_list :: "json \<Rightarrow> nat \<Rightarrow> string list" where
  "string_list value limit = (case value of JArr xs \<Rightarrow> string_items limit [] xs | _ \<Rightarrow> [])"

definition prose :: "json \<Rightarrow> string option" where
  "prose entry = (case jfield entry ''content'' of JStr s \<Rightarrow> or_opt (Some (str_strip s)) None | _ \<Rightarrow> None)"

definition parse_ai_batch :: "json \<Rightarrow> AiOutput" where
  "parse_ai_batch payload =
     (let results = jfield payload ''results'';
          seo = jfield (jfield results ''seo'') ''data'';
          tagged = jfield (jfield results ''tags'') ''data''
      in \<lparr>ai_description = prose (jfield results ''description''), ai_summary = prose (jfield results ''summary''),
          ai_meta_title = trim (jfield seo ''meta_title'') 255,
          ai_meta_description = trim (jfield seo ''meta_description'') 500,
          ai_keywords = string_list (jfield seo ''keywords'') 15, ai_tags = string_list (jfield tagged ''tags'') 10,
          ai_failed = map json_str (jlist (jfield payload ''failed''))\<rparr>)"

definition generate ::
  "pipe_env \<Rightarrow> string list \<Rightarrow> jobj \<Rightarrow> uuid \<Rightarrow> bool \<Rightarrow> pipe_world \<Rightarrow> pipe_world \<times> AiOutput option" where
  "generate env kinds context book_id force_refresh w =
     (if \<not> pe_services env \<or> \<not> as_ai_enabled (pe_settings env) then (w, None)
      else
        let w' = w\<lparr>pw_generated := pw_generated w @ [(book_id, kinds)]\<rparr> in
        case pe_generate env [(''book_id'', JStr (str_uuid book_id)), (''kinds'', JArr (map JStr kinds)),
               (''context'', JObj context), (''force_refresh'', JBool force_refresh)] of
          Inl e \<Rightarrow> (w', None)
        | Inr payload \<Rightarrow> (w', Some (parse_ai_batch payload)))"

definition get_book :: "pipe_env \<Rightarrow> uuid \<Rightarrow> json option" where
  "get_book env book_id =
     (if \<not> pe_services env then None
      else case pe_get_book env book_id of Inl e \<Rightarrow> None | Inr b \<Rightarrow> Some b)"

definition update_book :: "pipe_env \<Rightarrow> uuid \<Rightarrow> jobj \<Rightarrow> pipe_world \<Rightarrow> pipe_world \<times> exn option" where
  "update_book env book_id patch w =
     (if \<not> pe_services env then (w, Some (PyExn ''RuntimeError''))
      else case pe_update_book env book_id patch of
        Some e \<Rightarrow> (w, Some e)
      | None \<Rightarrow> (w\<lparr>pw_patches := pw_patches w @ [(book_id, patch)]\<rparr>, None))"

definition publish_book :: "pipe_env \<Rightarrow> uuid \<Rightarrow> pipe_world \<Rightarrow> pipe_world \<times> exn option" where
  "publish_book env book_id w =
     (if \<not> pe_services env then (w, Some (PyExn ''RuntimeError''))
      else case pe_publish_book env book_id of
        Some e \<Rightarrow> (w, Some e)
      | None \<Rightarrow> (w\<lparr>pw_published := pw_published w @ [book_id]\<rparr>, None))"

definition index_book :: "pipe_env \<Rightarrow> uuid \<Rightarrow> pipe_world \<Rightarrow> pipe_world \<times> bool" where
  "index_book env book_id w =
     (if \<not> pe_services env \<or> \<not> as_search_indexing_enabled (pe_settings env) then (w, False)
      else case pe_index_book env book_id of
        Some e \<Rightarrow> (w, False)
      | None \<Rightarrow> (w\<lparr>pw_indexed := pw_indexed w @ [book_id]\<rparr>, True))"

subsection \<open>Ingest\<close>

definition collect :: "pipe_env \<Rightarrow> handler" where
  "collect env ctx w =
     (if \<not> pe_storage env then (ctx, w, Raised (PyExn ''RuntimeError''))
      else case pe_head env (sx_source_key ctx) of
        Inl e \<Rightarrow> (ctx, w, Raised e)
      | Inr head \<Rightarrow>
          if oh_size head > as_max_source_bytes (pe_settings env)
          then (ctx, w, Raised (UnprocessableDocument (Some ''source_too_large'')))
          else if oh_size head = 0 then (ctx, w, Raised (UnprocessableDocument (Some ''source_empty'')))
          else case pe_get_bytes env (sx_source_key ctx) of
            Inl e \<Rightarrow> (ctx, w, Raised e)
          | Inr body \<Rightarrow>
              (ctx\<lparr>sx_payload := Some body\<rparr>, w,
               Output [(''source'', VJson (JObj [(''size_bytes'', JInt (int (length body))),
                 (''content_type'', JStr (oh_content_type head)), (''etag'', JStr (oh_etag head))]))]))"

definition validate :: "pipe_env \<Rightarrow> handler" where
  "validate env ctx w =
     (case require_payload ctx of Inl e \<Rightarrow> (ctx, w, Raised e)
      | Inr payload \<Rightarrow>
          let st = pe_settings env; detected = sniff_format (pe_lib env) payload;
              claimed = extension_of (sx_original_filename ctx);
              warnings = (if claimed \<noteq> [] \<and> claimed \<noteq> detected
                then [''extension_mismatch:'' @ claimed @ ''!='' @ detected] else []);
              out = Output [(''validation'', VJson (JObj [(''format'', JStr detected),
                (''claimed_extension'', opt_json (or_opt (Some claimed) None)),
                (''checksum'', JStr (dl_sha256 (pe_lib env) payload)), (''warnings'', JArr (map JStr warnings))]))]
          in if detected \<notin> set (accepted_format_set st)
             then (ctx, w, Raised (UnprocessableDocument (Some ''unsupported_format'')))
             else if detected = ''epub'' then
               (case assert_archive_safe (pe_lib env) payload (as_max_decompressed_bytes st) (as_max_archive_entries st) of
                  Inl e \<Rightarrow> (ctx, w, Raised e) | Inr total_size \<Rightarrow> (ctx, w, out))
             else (ctx, w, out))"

definition document_info :: "Inspection \<Rightarrow> jobj" where
  "document_info r =
     [(''format'', JStr (in_format r)), (''size_bytes'', JInt (int (in_size_bytes r))), (''checksum'', JStr (in_checksum r)),
      (''page_count'', case in_page_count r of None \<Rightarrow> JNull | Some n \<Rightarrow> JInt (int n)),
      (''title'', opt_json (in_title r)), (''author'', opt_json (in_author r)), (''language'', opt_json (in_language r)),
      (''isbn13'', opt_json (in_isbn13 r)), (''publication_date'', opt_json (in_publication_date r)),
      (''encrypted'', JBool (in_encrypted r)), (''excerpt'', JStr (in_excerpt r)), (''text_empty'', JBool (in_text_empty r))]"

definition extract_metadata :: "pipe_env \<Rightarrow> handler" where
  "extract_metadata env ctx w =
     (case require_payload ctx of Inl e \<Rightarrow> (ctx, w, Raised e)
      | Inr payload \<Rightarrow>
          let st = pe_settings env; lib = pe_lib env;
              fmt = jor (detected_format ctx) (JStr (sniff_format lib payload))
          in case (if fmt = JStr ''epub'' then inspect_epub lib payload (as_excerpt_chars st) (as_excerpt_max_pages st)
                   else inspect_pdf lib payload (as_excerpt_chars st) (as_excerpt_max_pages st)) of
               Inl e \<Rightarrow> (ctx, w, Raised e)
             | Inr r \<Rightarrow> (ctx, w, Output [(''document'', VJson (JObj (document_info r))),
                 (''warnings'', VJson (JArr (map JStr (in_warnings r))))]))"

subsection \<open>Enrichment\<close>

definition named :: "json \<Rightarrow> json list" where
  "named j = filter jtruthy (map (\<lambda>x. jfield x ''name'') (jlist j))"

definition ai_context :: "StageContext \<Rightarrow> jobj" where
  "ai_context ctx =
     (let document = ctx_json ctx ''document''; book = ctx_json ctx ''book'';
          from_book = named (jfield book ''authors'');
          authors = (if from_book = [] \<and> jtruthy (jfield document ''author'') then [jfield document ''author''] else from_book)
      in [(''title'', jor (jor (jfield book ''title'') (jfield document ''title'')) (JStr ''Untitled'')),
          (''subtitle'', jfield book ''subtitle''),
          (''authors'', JArr (take 20 authors)),
          (''categories'', JArr (take 20 (named (jfield book ''categories'')))),
          (''language'', jor (jor (jfield book ''language'') (jfield document ''language'')) (JStr ''en'')),
          (''excerpt'', jor (jfield document ''excerpt'') (JStr [])),
          (''existing_description'', jfield book ''description''),
          (''page_count'', jfield document ''page_count'')])"

definition enrich :: "pipe_env \<Rightarrow> string list \<Rightarrow> string \<Rightarrow> handler" where
  "enrich env kinds key ctx w =
     (if jtruthy (jfield (ctx_json ctx ''document'') ''text_empty'')
         \<and> \<not> jtruthy (jfield (ctx_json ctx ''book'') ''description'')
      then (ctx, w, StageSkipped ''no_source_text'')
      else case generate env kinds (ai_context ctx) (sx_book_id ctx) (op_force_ai_refresh (sx_options ctx)) w of
        (w', None) \<Rightarrow> (ctx, w', StageSkipped ''ai_unavailable'')
      | (w', Some out) \<Rightarrow>
          if ai_empty out then (ctx, w', StageSkipped ''ai_returned_nothing'')
          else (ctx, w', Output [(key, VJson (JObj
            [(''description'', opt_json (ai_description out)), (''summary'', opt_json (ai_summary out)),
             (''meta_title'', opt_json (ai_meta_title out)), (''meta_description'', opt_json (ai_meta_description out)),
             (''keywords'', JArr (map JStr (ai_keywords out))), (''tags'', JArr (map JStr (ai_tags out))),
             (''failed_kinds'', JArr (map JStr (ai_failed out)))]))]))"

definition generate_description :: "pipe_env \<Rightarrow> handler" where
  "generate_description env = enrich env [''description'', ''summary''] ''copy''"

definition seo :: "pipe_env \<Rightarrow> handler" where
  "seo env = enrich env [''seo''] ''seo''"

definition tags :: "pipe_env \<Rightarrow> handler" where
  "tags env = enrich env [''tags''] ''taxonomy''"

subsection \<open>Transform\<close>

definition image_info :: "Derived \<Rightarrow> json" where
  "image_info d = JObj [(''bytes'', JInt (int (length (dv_data d)))), (''width'', JInt (int (dv_width d))),
     (''height'', JInt (int (dv_height d)))]"

definition thumbnail :: "pipe_env \<Rightarrow> handler" where
  "thumbnail env ctx w =
     (case require_payload ctx of Inl e \<Rightarrow> (ctx, w, Raised e)
      | Inr payload \<Rightarrow>
          if detected_format ctx \<noteq> JStr ''pdf'' then (ctx, w, StageSkipped ''cover_extraction_supports_pdf_only'')
          else case render_pdf_cover (pe_lib env) payload of
            None \<Rightarrow> (ctx, w, StageSkipped ''no_cover_image_in_source'')
          | Some extracted \<Rightarrow>
              let st = pe_settings env in
              case resize (pe_lib env) extracted (as_cover_width st) (as_cover_height st) (as_image_quality st) of
                Inl e \<Rightarrow> (ctx, w, Raised e)
              | Inr cover \<Rightarrow>
                  case resize (pe_lib env) extracted (as_thumbnail_width st) (as_thumbnail_height st) (as_image_quality st) of
                    Inl e \<Rightarrow> (ctx, w, Raised e)
                  | Inr thumb \<Rightarrow>
                      (ctx, w, Output
                        [(''images'', VJson (JObj [(''cover'', image_info cover), (''thumbnail'', image_info thumb)])),
                         (''_pending_uploads'', VUploads [(public_key ctx ''cover'' ''jpg'', ''image/jpeg'', dv_data cover),
                            (public_key ctx ''thumbnail'' ''jpg'', ''image/jpeg'', dv_data thumb)])]))"

definition convert :: "pipe_env \<Rightarrow> handler" where
  "convert env ctx w =
     (case require_payload ctx of Inl e \<Rightarrow> (ctx, w, Raised e)
      | Inr payload \<Rightarrow>
          if detected_format ctx \<noteq> JStr ''pdf'' then (ctx, w, StageSkipped ''sample_generation_supports_pdf_only'')
          else case build_sample_pdf (pe_lib env) payload 10 of
            None \<Rightarrow> (ctx, w, StageSkipped ''book_too_short_for_sample'')
          | Some sample \<Rightarrow>
              (ctx, w, Output [(''sample'', VJson (JObj [(''bytes'', JInt (int (length sample)))])),
                 (''_pending_uploads'', VUploads [(artefact_key ctx ''sample'' ''pdf'', ''application/pdf'', sample)])]))"

definition compress :: "pipe_env \<Rightarrow> handler" where
  "compress env ctx w =
     (case require_payload ctx of Inl e \<Rightarrow> (ctx, w, Raised e)
      | Inr payload \<Rightarrow>
          if detected_format ctx \<noteq> JStr ''pdf'' then (ctx, w, StageSkipped ''compression_supports_pdf_only'')
          else
            let outcome = compress_pdf (pe_lib env) payload (as_min_compression_gain (pe_settings env)) in
            if \<not> cz_applied outcome then (ctx, w, StageSkipped ''compression_gain_below_threshold'')
            else (ctx\<lparr>sx_payload := Some (cz_data outcome)\<rparr>, w,
              Output [(''compression'', VJson (JObj [(''original_bytes'', JInt (int (cz_original_size outcome))),
                (''compressed_bytes'', JInt (int (length (cz_data outcome))))]))]))"

definition watermark :: "pipe_env \<Rightarrow> handler" where
  "watermark env ctx w =
     (let st = pe_settings env;
          enabled = opt_default (op_watermark (sx_options ctx)) (as_watermark_enabled st)
      in if \<not> enabled then (ctx, w, StageSkipped ''watermarking_disabled'')
         else case require_payload ctx of Inl e \<Rightarrow> (ctx, w, Raised e)
           | Inr payload \<Rightarrow>
               if detected_format ctx \<noteq> JStr ''pdf'' then (ctx, w, StageSkipped ''watermarking_supports_pdf_only'')
               else
                 let stamped = watermark_pdf (pe_lib env) payload (as_watermark_text st) in
                 if stamped = payload then (ctx, w, StageSkipped ''watermark_not_applied'')
                 else (ctx\<lparr>sx_payload := Some stamped\<rparr>, w,
                   Output [(''watermark'', VJson (JObj [(''applied'', JBool True), (''bytes'', JInt (int (length stamped)))]))]))"

subsection \<open>Publish\<close>

text \<open>\<open>put_bytes\<close> for every pending object, up to the first that fails.\<close>

fun put_all ::
  "pipe_env \<Rightarrow> pipe_world \<Rightarrow> (string \<times> string \<times> bytes) list \<Rightarrow> pipe_world \<times> (string \<times> json) list result" where
  "put_all env w [] = (w, Inr [])"
| "put_all env w ((key, content_type, body) # pending) =
     (case pe_put env key body of Some e \<Rightarrow> (w, Inl e)
      | None \<Rightarrow>
          (case put_all env (w\<lparr>pw_objects := dict_set (pw_objects w) key (content_type, body)\<rparr>) pending of
             (w', Inl e) \<Rightarrow> (w', Inl e)
           | (w', Inr written) \<Rightarrow> (w', Inr ((key, JInt (int (length body))) # written))))"

definition artefact_keys :: "StageContext \<Rightarrow> (string \<times> string \<times> bytes) list \<Rightarrow> string \<Rightarrow> bool \<Rightarrow> jobj" where
  "artefact_keys ctx pending fmt transformed =
     (let held = map fst pending;
          cover = public_key ctx ''cover'' ''jpg''; thumb = public_key ctx ''thumbnail'' ''jpg'';
          sample = artefact_key ctx ''sample'' ''pdf''
      in (if cover \<in> set held then [(''cover_key'', JStr cover)] else [])
         @ (if thumb \<in> set held then [(''thumbnail_key'', JStr thumb)] else [])
         @ (if sample \<in> set held then [(''sample_key'', JStr sample)] else [])
         @ (if transformed then [(fmt @ ''_key'', JStr (artefact_key ctx ''distribution'' fmt))] else []))"

definition upload_format :: "StageContext \<Rightarrow> string" where
  "upload_format ctx = (case jor (detected_format ctx) (JStr ''pdf'') of JStr s \<Rightarrow> s | _ \<Rightarrow> ''pdf'')"

definition transformed :: "StageContext \<Rightarrow> bool" where
  "transformed ctx \<longleftrightarrow> jtruthy (ctx_json ctx ''compression'') \<or> jtruthy (ctx_json ctx ''watermark'')"

definition pending_uploads :: "StageContext \<Rightarrow> (string \<times> string \<times> bytes) list" where
  "pending_uploads ctx =
     (case sx_payload ctx of
        Some payload \<Rightarrow>
          if transformed ctx then
            dict_set (ctx_uploads ctx) (artefact_key ctx ''distribution'' (upload_format ctx))
              (if upload_format ctx = ''pdf'' then ''application/pdf'' else ''application/epub+zip'', payload)
          else ctx_uploads ctx
      | None \<Rightarrow> ctx_uploads ctx)"

definition upload :: "pipe_env \<Rightarrow> handler" where
  "upload env ctx w =
     (if \<not> pe_storage env then (ctx, w, Raised (PyExn ''RuntimeError''))
      else case put_all env w (pending_uploads ctx) of
        (w', Inl e) \<Rightarrow> (ctx, w', Raised e)
      | (w', Inr written) \<Rightarrow>
          (ctx, w', Output [(''uploads'', VJson (JObj written)), (''_pending_uploads'', VUploads []),
             (''keys'', VJson (JObj (artefact_keys ctx (pending_uploads ctx) (upload_format ctx) (transformed ctx))))]))"

definition build_catalogue_update :: "StageContext \<Rightarrow> jobj" where
  "build_catalogue_update ctx =
     (let document = ctx_json ctx ''document''; written = ctx_json ctx ''copy''; seo_out = ctx_json ctx ''seo'';
          taxonomy = ctx_json ctx ''taxonomy'';
          tag_list = take 10 (jlist (jfield taxonomy ''tags''));
          page_count = jfield document ''page_count'';
          isbn_digits = (case jfield document ''isbn13'' of JStr s \<Rightarrow> filter is_digit s | _ \<Rightarrow> [])
      in dict_update
           ((case jfield written ''description'' of JStr (c # s) \<Rightarrow> [(''description'', JStr (take 50000 (c # s)))] | _ \<Rightarrow> [])
            @ (case jfield written ''summary'' of JStr (c # s) \<Rightarrow> [(''ai_summary'', JStr (take 20000 (c # s)))] | _ \<Rightarrow> [])
            @ (case jfield seo_out ''meta_title'' of JStr (c # s) \<Rightarrow> [(''meta_title'', JStr (take 255 (c # s)))] | _ \<Rightarrow> [])
            @ (case jfield seo_out ''meta_description'' of JStr (c # s) \<Rightarrow> [(''meta_description'', JStr (take 500 (c # s)))] | _ \<Rightarrow> [])
            @ (if tag_list \<noteq> [] then [(''ai_tags'', JArr tag_list)] else [])
            @ (if jtruthy page_count then [(''page_count'', page_count)] else [])
            @ (if length isbn_digits = 13 then [(''isbn13'', JStr isbn_digits)] else []))
           (case ctx_json ctx ''keys'' of JObj d \<Rightarrow> d | _ \<Rightarrow> []))"

definition index_stage :: "pipe_env \<Rightarrow> handler" where
  "index_stage env ctx w =
     (let patch = build_catalogue_update ctx;
          (w1, failed) = (if patch \<noteq> [] then update_book env (sx_book_id ctx) patch w else (w, None))
      in case failed of Some e \<Rightarrow> (ctx, w1, Raised e)
         | None \<Rightarrow>
             let (w2, indexed) = index_book env (sx_book_id ctx) w1 in
             (ctx, w2, Output [(''catalogue_update'', VJson (JArr (map JStr (sort (map fst patch))))),
                (''indexed'', VJson (JBool indexed))]))"

definition publish_stage :: "pipe_env \<Rightarrow> handler" where
  "publish_stage env ctx w =
     (if \<not> opt_default (op_auto_publish (sx_options ctx)) (as_auto_publish (pe_settings env))
      then (ctx, w, Output [(''published'', VJson (JBool False)), (''reason'', VJson (JStr ''awaiting_review''))])
      else case publish_book env (sx_book_id ctx) w of
        (w', Some e) \<Rightarrow> (ctx, w', Raised e)
      | (w', None) \<Rightarrow> (ctx, w', Output [(''published'', VJson (JBool True))]))"

definition HANDLERS :: "pipe_env \<Rightarrow> Stage \<Rightarrow> handler" where
  "HANDLERS env s =
     (case s of Collect \<Rightarrow> collect env | Validate \<Rightarrow> validate env | ExtractMetadata \<Rightarrow> extract_metadata env
      | GenerateDescription \<Rightarrow> generate_description env | Seo \<Rightarrow> seo env | Tags \<Rightarrow> tags env
      | Thumbnail \<Rightarrow> thumbnail env | Convert \<Rightarrow> convert env | Compress \<Rightarrow> compress env
      | Watermark \<Rightarrow> watermark env | Upload \<Rightarrow> upload env | Index \<Rightarrow> index_stage env | Publish \<Rightarrow> publish_stage env)"

definition terminal_error :: "exn \<Rightarrow> bool" where
  "terminal_error e \<longleftrightarrow> (case e of AppExn BadRequestError _ _ \<Rightarrow> True | _ \<Rightarrow> False)"

end
