(* ===== verification/Automation_Pipeline.thy ===== *)
theory Automation_Pipeline
  imports Automation_Stages
begin

section \<open>The pipeline runner\<close>

text \<open>
  \<open>apps/automation/services/pipeline.py\<close>, the worker's entry point in \<open>apps/automation/tasks.py\<close>
  and the routes of \<open>apps/automation/routers\<close> that run, retry and cancel jobs. A run threads the
  database, the job object, the context and the outside world through the stages; every
  database operation commits at once, so a run that ends early leaves what it committed. The
  runner only relies on what the locale \<open>stage_handlers\<close> promises of a stage. The times a run
  reads are the argument \<open>run_clock\<close>. In the failure branches the code lists the completed
  stages in the order of a set; here they are always listed in pipeline order.
\<close>

record run_clock =
  rc_start :: timestamp
  rc_stage :: "Stage \<Rightarrow> timestamp"
  rc_elapsed :: "Stage \<Rightarrow> nat"
  rc_end :: timestamp
  rc_jitter :: int

record RunOutcome =
  ro_job_id :: uuid
  ro_status :: JobStatus
  ro_completed :: "Stage list"
  ro_skipped :: "Stage list"
  ro_failed :: "Stage list"
  ro_error :: "string option"

record run_state =
  rs_db :: automation_db
  rs_job :: AutomationJob
  rs_ctx :: StageContext
  rs_world :: pipe_world
  rs_completed :: "Stage list"
  rs_skipped :: "Stage list"
  rs_failed :: "Stage list"

datatype stage_end = Continue | Return RunOutcome | Crash exn

subsection \<open>Policy and events\<close>

definition should_run :: "automation_settings \<Rightarrow> Stage \<Rightarrow> JobOptions \<Rightarrow> string option" where
  "should_run st s opts =
     (if (case op_only_stages opts of Some (x # xs) \<Rightarrow> s \<noteq> Collect \<and> s \<notin> set (x # xs) | _ \<Rightarrow> False)
      then Some ''not_in_only_stages''
      else if s \<in> set (op_skip_stages opts) then Some ''skipped_by_request''
      else if s \<in> set AI_STAGES \<and> \<not> as_ai_enabled st then Some ''ai_disabled''
      else None)"

definition completed_stages :: "automation_db \<Rightarrow> uuid \<Rightarrow> Stage list" where
  "completed_stages db job_id = map sg_stage (filter (\<lambda>r. sg_status r = StageSucceeded) (stages_of db job_id))"

definition stage_value :: "Stage \<Rightarrow> string" where
  "stage_value s =
     (case s of Collect \<Rightarrow> ''collect'' | Validate \<Rightarrow> ''validate'' | ExtractMetadata \<Rightarrow> ''extract_metadata''
      | GenerateDescription \<Rightarrow> ''generate_description'' | Seo \<Rightarrow> ''seo'' | Tags \<Rightarrow> ''tags''
      | Thumbnail \<Rightarrow> ''thumbnail'' | Convert \<Rightarrow> ''convert'' | Compress \<Rightarrow> ''compress''
      | Watermark \<Rightarrow> ''watermark'' | Upload \<Rightarrow> ''upload'' | Index \<Rightarrow> ''index'' | Publish \<Rightarrow> ''publish'')"

definition emit :: "pipe_env \<Rightarrow> pipe_world \<Rightarrow> string \<Rightarrow> jobj \<Rightarrow> pipe_world \<times> exn option" where
  "emit env w event payload =
     (if \<not> pe_publisher env then (w, None)
      else case pe_send env event payload of
        Some e \<Rightarrow> (w, Some e) | None \<Rightarrow> (w\<lparr>pw_events := pw_events w @ [(event, payload)]\<rparr>, None))"

definition emit_completed :: "pipe_env \<Rightarrow> pipe_world \<Rightarrow> AutomationJob \<Rightarrow> StageContext \<Rightarrow> pipe_world \<times> exn option" where
  "emit_completed env w j ctx =
     emit env w ''automation.job_completed''
       [(''job_id'', JStr (str_uuid (jb_id j))), (''book_id'', JStr (str_uuid (jb_book_id j))),
        (''published'', JBool (ctx_json ctx ''published'' = JBool True)),
        (''page_count'', jfield (ctx_json ctx ''document'') ''page_count''),
        (''format'', jfield (ctx_json ctx ''validation'') ''format'')]"

definition emit_failed :: "pipe_env \<Rightarrow> pipe_world \<Rightarrow> AutomationJob \<Rightarrow> Stage \<Rightarrow> string \<Rightarrow> pipe_world \<times> exn option" where
  "emit_failed env w j s err =
     emit env w ''automation.job_failed''
       [(''job_id'', JStr (str_uuid (jb_id j))), (''book_id'', JStr (str_uuid (jb_book_id j))),
        (''stage'', JStr (stage_value s)), (''error'', JStr (take 500 err)), (''attempts'', JInt (int (jb_attempts j)))]"

subsection \<open>Running stages\<close>

text \<open>The part of a stage's output that is checkpointed: underscore keys are transient.\<close>

definition persisted :: "ctx_dict \<Rightarrow> jobj" where
  "persisted output =
     List.map_filter (\<lambda>(k, v). if str_startswith k ''_'' then None
       else case v of VJson j \<Rightarrow> Some (k, j) | VUploads u \<Rightarrow> None) output"

definition in_order :: "Stage list \<Rightarrow> Stage list" where
  "in_order completed = filter (\<lambda>s. s \<in> set completed) PIPELINE"

definition failed_outcome :: "run_state \<Rightarrow> AutomationJob \<Rightarrow> JobStatus \<Rightarrow> Stage \<Rightarrow> string \<Rightarrow> RunOutcome" where
  "failed_outcome rs j status s err = \<lparr>ro_job_id = jb_id j, ro_status = status, ro_completed = in_order (rs_completed rs),
     ro_skipped = rs_skipped rs, ro_failed = rs_failed rs @ [s], ro_error = Some err\<rparr>"

definition after_emit :: "run_state \<Rightarrow> pipe_world \<times> exn option \<Rightarrow> RunOutcome \<Rightarrow> run_state \<times> stage_end" where
  "after_emit rs sent outcome =
     (rs\<lparr>rs_world := fst sent\<rparr>, case snd sent of Some e \<Rightarrow> Crash e | None \<Rightarrow> Return outcome)"

text \<open>A stage that raised: terminal and required, optional, or required and transient.\<close>

definition stage_raised ::
  "pipe_env \<Rightarrow> run_clock \<Rightarrow> Stage \<Rightarrow> exn \<Rightarrow> run_state \<Rightarrow> run_state \<times> stage_end" where
  "stage_raised env ck s e rs =
     (let t = rc_stage ck s; err = pe_str env e; j = rs_job rs;
          db = fail_stage (rs_db rs) t j s err (rc_elapsed ck s);
          rs1 = rs\<lparr>rs_db := db\<rparr>
      in if s \<notin> set REQUIRED_STAGES then (rs1\<lparr>rs_failed := rs_failed rs @ [s]\<rparr>, Continue)
         else if terminal_error e then
           (case fail_terminally db t j err of
              Inl x \<Rightarrow> (rs1, Crash x)
            | Inr (db', j') \<Rightarrow>
                after_emit (rs1\<lparr>rs_db := db', rs_job := j'\<rparr>) (emit_failed env (rs_world rs) j' s err)
                  (failed_outcome rs j' JobFailed s err))
         else
           (case schedule_retry (pe_settings env) db t (rc_jitter ck) j err of
              Inl x \<Rightarrow> (rs1, Crash x)
            | Inr (db', j', True) \<Rightarrow>
                (rs1\<lparr>rs_db := db', rs_job := j'\<rparr>, Return (failed_outcome rs j' (jb_status j') s err))
            | Inr (db', j', False) \<Rightarrow>
                after_emit (rs1\<lparr>rs_db := db', rs_job := j'\<rparr>) (emit_failed env (rs_world rs) j' s err)
                  (failed_outcome rs j' (jb_status j') s err)))"

definition stage_completed ::
  "run_clock \<Rightarrow> Stage \<Rightarrow> ctx_dict \<Rightarrow> run_state \<Rightarrow> run_state \<times> stage_end" where
  "stage_completed ck s output rs =
     (let ctx = (rs_ctx rs)\<lparr>sx_result := dict_update (sx_result (rs_ctx rs)) output\<rparr>;
          rs1 = rs\<lparr>rs_ctx := ctx\<rparr>
      in case complete_stage (rs_db rs) (rc_stage ck s) (rs_job rs) s (persisted output) (rc_elapsed ck s) of
           Inl x \<Rightarrow> (rs1, Crash x)
         | Inr (db', j') \<Rightarrow>
             (rs1\<lparr>rs_db := db', rs_job := j',
                  rs_completed := (if s \<in> set (rs_completed rs) then rs_completed rs else rs_completed rs @ [s])\<rparr>,
              Continue))"

definition stage_skipped :: "run_clock \<Rightarrow> Stage \<Rightarrow> string \<Rightarrow> run_state \<Rightarrow> run_state \<times> stage_end" where
  "stage_skipped ck s reason rs =
     (rs\<lparr>rs_db := skip_stage (rs_db rs) (rc_stage ck s) (rs_job rs) s reason, rs_skipped := rs_skipped rs @ [s]\<rparr>,
      Continue)"

definition run_stage ::
  "pipe_env \<Rightarrow> (Stage \<Rightarrow> handler) \<Rightarrow> run_clock \<Rightarrow> JobOptions \<Rightarrow> Stage \<Rightarrow> run_state \<Rightarrow> run_state \<times> stage_end" where
  "run_stage env handle ck opts s rs =
     (if s \<in> set (rs_completed rs) \<and> s \<noteq> Collect then (rs, Continue)
      else case should_run (pe_settings env) s opts of
        Some reason \<Rightarrow> stage_skipped ck s reason rs
      | None \<Rightarrow>
          (case begin_stage (rs_db rs) (rc_stage ck s) (rs_job rs) s of
             Inl x \<Rightarrow> (rs, Crash x)
           | Inr (db', j') \<Rightarrow>
               (case handle s (rs_ctx rs) (rs_world rs) of
                  (ctx', w', out) \<Rightarrow>
                    let rs1 = rs\<lparr>rs_db := db', rs_job := j', rs_ctx := ctx', rs_world := w'\<rparr> in
                    case out of
                      StageSkipped reason \<Rightarrow> stage_skipped ck s reason rs1
                    | Raised e \<Rightarrow> stage_raised env ck s e rs1
                    | Output output \<Rightarrow> stage_completed ck s output rs1)))"

fun run_stages ::
  "pipe_env \<Rightarrow> (Stage \<Rightarrow> handler) \<Rightarrow> run_clock \<Rightarrow> JobOptions \<Rightarrow> Stage list \<Rightarrow> run_state \<Rightarrow> run_state \<times> stage_end" where
  "run_stages env handle ck opts [] rs = (rs, Continue)"
| "run_stages env handle ck opts (s # ss) rs =
     (case run_stage env handle ck opts s rs of
        (rs', Continue) \<Rightarrow> run_stages env handle ck opts ss rs'
      | stopped \<Rightarrow> stopped)"

definition initial_context :: "pipe_env \<Rightarrow> AutomationJob \<Rightarrow> StageContext" where
  "initial_context env j =
     (let result = map (\<lambda>(k, v). (k, VJson v)) (jb_result j) in
      \<lparr>sx_job_id = jb_id j, sx_book_id = jb_book_id j, sx_source_key = jb_source_key j,
       sx_original_filename = jb_original_filename j, sx_options = jb_options j,
       sx_result = (case get_book env (jb_book_id j) of
           None \<Rightarrow> result
         | Some book \<Rightarrow> if jtruthy book then dict_set result ''book'' (VJson book) else result),
       sx_payload = None\<rparr>)"

definition start_state :: "pipe_env \<Rightarrow> automation_db \<Rightarrow> AutomationJob \<Rightarrow> pipe_world \<Rightarrow> run_state" where
  "start_state env db j w = \<lparr>rs_db = db, rs_job = j, rs_ctx = initial_context env j, rs_world = w,
     rs_completed = completed_stages db (jb_id j), rs_skipped = [], rs_failed = []\<rparr>"

definition finish_run ::
  "pipe_env \<Rightarrow> run_clock \<Rightarrow> run_state \<Rightarrow> automation_db \<times> pipe_world \<times> RunOutcome result" where
  "finish_run env ck rs =
     (case succeed (rs_db rs) (rc_end ck) (rs_job rs) of
        Inl x \<Rightarrow> (rs_db rs, rs_world rs, Inl x)
      | Inr (db', j') \<Rightarrow>
          (case emit_completed env (rs_world rs) j' (rs_ctx rs) of
             (w', Some e) \<Rightarrow> (db', w', Inl e)
           | (w', None) \<Rightarrow>
               (db', w', Inr \<lparr>ro_job_id = jb_id j', ro_status = JobSucceeded, ro_completed = in_order (rs_completed rs),
                  ro_skipped = rs_skipped rs, ro_failed = rs_failed rs, ro_error = None\<rparr>)))"

definition run_with ::
  "pipe_env \<Rightarrow> (Stage \<Rightarrow> handler) \<Rightarrow> run_clock \<Rightarrow> automation_db \<Rightarrow> pipe_world \<Rightarrow> AutomationJob
     \<Rightarrow> automation_db \<times> pipe_world \<times> RunOutcome result" where
  "run_with env handle ck db w j =
     (if is_terminal j then
        (db, w, Inr \<lparr>ro_job_id = jb_id j, ro_status = jb_status j, ro_completed = in_order (completed_stages db (jb_id j)),
           ro_skipped = [], ro_failed = [], ro_error = Some ''already finished''\<rparr>)
      else case mark_running db (rc_start ck) j of
        Inl x \<Rightarrow> (db, w, Inl x)
      | Inr (db1, j1) \<Rightarrow>
          (case run_stages env handle ck (jb_options j) PIPELINE (start_state env db1 j1 w) of
             (rs, Crash x) \<Rightarrow> (rs_db rs, rs_world rs, Inl x)
           | (rs, Return outcome) \<Rightarrow> (rs_db rs, rs_world rs, Inr outcome)
           | (rs, Continue) \<Rightarrow> finish_run env ck rs))"

definition run_pipeline ::
  "pipe_env \<Rightarrow> run_clock \<Rightarrow> automation_db \<Rightarrow> pipe_world \<Rightarrow> AutomationJob
     \<Rightarrow> automation_db \<times> pipe_world \<times> RunOutcome result" where
  "run_pipeline env ck db w j = run_with env (HANDLERS env) ck db w j"

subsection \<open>Worker and routes\<close>

text \<open>\<open>_run_job_async\<close>: the worker builds its runner without a publisher.\<close>

definition run_job ::
  "pipe_env \<Rightarrow> run_clock \<Rightarrow> automation_db \<Rightarrow> pipe_world \<Rightarrow> uuid \<Rightarrow> automation_db \<times> pipe_world \<times> RunOutcome result" where
  "run_job env ck db w job_id =
     (case get_job db job_id of Inl e \<Rightarrow> (db, w, Inl e)
      | Inr j \<Rightarrow> run_pipeline (env\<lparr>pe_publisher := False\<rparr>) ck db w j)"

definition run_job_now ::
  "pipe_env \<Rightarrow> run_clock \<Rightarrow> automation_db \<Rightarrow> pipe_world \<Rightarrow> uuid \<Rightarrow> automation_db \<times> pipe_world \<times> RunOutcome result" where
  "run_job_now env ck db w job_id =
     (case get_job db job_id of Inl e \<Rightarrow> (db, w, Inl e)
      | Inr j \<Rightarrow> if is_terminal j then (db, w, Inl (raise_default ConflictError)) else run_pipeline env ck db w j)"

definition retry_route :: "automation_db \<Rightarrow> uuid \<Rightarrow> Stage option \<Rightarrow> bool \<Rightarrow> (automation_db \<times> AutomationJob) result" where
  "retry_route db job_id from_stage reset_attempts =
     (case get_job db job_id of Inl e \<Rightarrow> Inl e | Inr j \<Rightarrow> prepare_retry db j from_stage reset_attempts)"

definition cancel_route :: "automation_db \<Rightarrow> timestamp \<Rightarrow> uuid \<Rightarrow> (automation_db \<times> AutomationJob) result" where
  "cancel_route db now job_id =
     (case get_job db job_id of Inl e \<Rightarrow> Inl e | Inr j \<Rightarrow> cancel_job db now j)"

text \<open>
  \<open>drain\<close>: the due jobs are loaded once and run one after the other. A commit that failed
  leaves the session unusable, so nothing after it in the batch is run.
\<close>

fun drain_jobs ::
  "pipe_env \<Rightarrow> (uuid \<Rightarrow> run_clock) \<Rightarrow> automation_db \<Rightarrow> pipe_world \<Rightarrow> AutomationJob list \<Rightarrow> automation_db \<times> pipe_world \<times> nat" where
  "drain_jobs env ck db w [] = (db, w, 0)"
| "drain_jobs env ck db w (j # js) =
     (case run_pipeline env (ck (jb_id j)) db w j of
        (db', w', Inl e) \<Rightarrow> if e = PyExn ''IntegrityError'' then (db', w', 0) else drain_jobs env ck db' w' js
      | (db', w', Inr outcome) \<Rightarrow> (case drain_jobs env ck db' w' js of (db2, w2, n) \<Rightarrow> (db2, w2, Suc n)))"

definition drain ::
  "pipe_env \<Rightarrow> (uuid \<Rightarrow> run_clock) \<Rightarrow> timestamp \<Rightarrow> automation_db \<Rightarrow> pipe_world \<Rightarrow> nat \<Rightarrow> automation_db \<times> pipe_world \<times> nat" where
  "drain env ck now db w limit = drain_jobs env ck db w (claim_due db now limit)"

subsection \<open>Lemmas: a run keeps the job and its row together\<close>

text \<open>What a run may leave behind: it failed for good, or it is scheduled again within the budget.\<close>

definition stopped_job :: "automation_settings \<Rightarrow> AutomationJob \<Rightarrow> bool" where
  "stopped_job st j \<longleftrightarrow> jb_status j = JobFailed \<or> jb_status j = JobDeadLettered
     \<or> jb_status j = JobRetrying \<and> jb_attempts j < as_max_attempts st"

definition running :: "run_state \<Rightarrow> bool" where
  "running rs \<longleftrightarrow> synced (rs_db rs) (rs_job rs) \<and> jb_status (rs_job rs) = JobRunning"

definition same_run :: "run_state \<Rightarrow> run_state \<Rightarrow> bool" where
  "same_run rs rs' \<longleftrightarrow> jb_id (rs_job rs') = jb_id (rs_job rs) \<and> jb_attempts (rs_job rs') = jb_attempts (rs_job rs)
     \<and> synced (rs_db rs') (rs_job rs')"

lemma commit_running:
  assumes "synced db j" and "jb_status j = JobRunning" and "same_identity j b"
  obtains db' where "commit_job db j b = Inr (db', b)" "synced db' b" "job_stages db' = job_stages db"
  by (rule commit_job_synced [OF assms(1,3)]) (use assms(2) in \<open>simp_all add: ACTIVE_def\<close>)

lemma stage_skipped_run:
  assumes "running rs"
  shows "\<exists>rs'. stage_skipped ck s r rs = (rs', Continue) \<and> running rs' \<and> same_run rs rs'"
  using assms by (simp add: stage_skipped_def running_def same_run_def)

lemma stage_completed_run:
  assumes "running rs"
  shows "\<exists>rs'. stage_completed ck s out rs = (rs', Continue) \<and> running rs' \<and> same_run rs rs'"
proof -
  let ?j = "rs_job rs" and ?out = "persisted out" and ?t = "rc_stage ck s"
  let ?b = "?j\<lparr>jb_result := (if ?out = [] then jb_result ?j else dict_update (jb_result ?j) ?out),
     jb_heartbeat_at := Some ?t\<rparr>"
  let ?db = "set_stage (rs_db rs) ?j s (\<lambda>r. r\<lparr>sg_status := StageSucceeded, sg_output := ?out,
         sg_duration_ms := Some (rc_elapsed ck s), sg_finished_at := Some ?t, sg_error := None\<rparr>)"
  have "synced ?db ?j" "jb_status ?j = JobRunning" using assms by (simp_all add: running_def)
  from commit_running [OF this, of ?b] obtain db' where
    "commit_job ?db ?j ?b = Inr (db', ?b)" "synced db' ?b" by (auto simp: same_identity_def)
  then show ?thesis using assms
    by (simp add: stage_completed_def complete_stage_def Let_def running_def same_run_def)
qed

lemma stage_raised_run:
  assumes "running rs" and "stage_raised env ck s e rs = (rs', end1)"
  shows "same_run rs rs' \<and> (if end1 = Continue then running rs' else stopped_job (pe_settings env) (rs_job rs'))"
proof -
  let ?j = "rs_job rs" and ?err = "pe_str env e" and ?t = "rc_stage ck s"
  let ?db = "fail_stage (rs_db rs) ?t ?j s ?err (rc_elapsed ck s)"
  have sy: "synced ?db ?j" "jb_status ?j = JobRunning" using assms(1) by (simp_all add: running_def)
  consider (optional) "s \<notin> set REQUIRED_STAGES" | (bad) "s \<in> set REQUIRED_STAGES" "terminal_error e"
    | (transient) "s \<in> set REQUIRED_STAGES" "\<not> terminal_error e" by blast
  then show ?thesis
  proof cases
    case optional
    with assms sy show ?thesis by (auto simp: stage_raised_def Let_def same_run_def running_def)
  next
    case bad
    let ?b = "?j\<lparr>jb_status := JobFailed, jb_error := Some (take 4000 ?err), jb_finished_at := Some ?t,
       jb_next_attempt_at := None\<rparr>"
    obtain db' where "commit_job ?db ?j ?b = Inr (db', ?b)" "synced db' ?b"
      by (rule commit_running [OF sy, of ?b]) (simp_all add: same_identity_def)
    with assms bad show ?thesis
      by (auto simp: stage_raised_def fail_terminally_def Let_def after_emit_def same_run_def stopped_job_def
          split: option.splits)
  next
    case transient
    let ?dead = "?j\<lparr>jb_error := Some (take 4000 ?err), jb_status := JobDeadLettered, jb_dead_lettered_at := Some ?t,
            jb_finished_at := Some ?t, jb_current_stage := None, jb_next_attempt_at := None\<rparr>"
    let ?retry = "?j\<lparr>jb_error := Some (take 4000 ?err), jb_status := JobRetrying,
            jb_next_attempt_at := Some (?t + int (backoff_seconds (pe_settings env) (jb_attempts ?j)) * rc_jitter ck)\<rparr>"
    obtain d where d: "commit_job ?db ?j ?dead = Inr (d, ?dead)" "synced d ?dead"
      by (rule commit_running [OF sy, of ?dead]) (simp_all add: same_identity_def)
    obtain r where r: "commit_job ?db ?j ?retry = Inr (r, ?retry)" "synced r ?retry"
      by (rule commit_running [OF sy, of ?retry]) (simp_all add: same_identity_def)
    show ?thesis
    proof (cases "as_max_attempts (pe_settings env) \<le> jb_attempts ?j")
      case True
      with assms(2) transient d show ?thesis
        by (auto simp: stage_raised_def schedule_retry_def Let_def after_emit_def same_run_def stopped_job_def
            split: option.splits)
    next
      case False
      with assms(2) transient r show ?thesis
        by (auto simp: stage_raised_def schedule_retry_def Let_def same_run_def stopped_job_def)
    qed
  qed
qed

text \<open>How a stage's handler ends, from the state right after it.\<close>

definition stage_ends :: "pipe_env \<Rightarrow> run_clock \<Rightarrow> Stage \<Rightarrow> handler_outcome \<Rightarrow> run_state \<Rightarrow> run_state \<times> stage_end" where
  "stage_ends env ck s out rs =
     (case out of StageSkipped r \<Rightarrow> stage_skipped ck s r rs | Raised e \<Rightarrow> stage_raised env ck s e rs
      | Output output \<Rightarrow> stage_completed ck s output rs)"

lemma run_stage_cases [consumes 1, case_names checkpointed declined refused ran]:
  assumes "run_stage env handle ck opts s rs = (rs', end1)"
  obtains "s \<in> set (rs_completed rs)" "s \<noteq> Collect" "rs' = rs" "end1 = Continue"
  | r where "should_run (pe_settings env) s opts = Some r" "stage_skipped ck s r rs = (rs', end1)"
      "\<not> (s \<in> set (rs_completed rs) \<and> s \<noteq> Collect)"
  | x where "begin_stage (rs_db rs) (rc_stage ck s) (rs_job rs) s = Inl x" "rs' = rs" "end1 = Crash x"
      "\<not> (s \<in> set (rs_completed rs) \<and> s \<noteq> Collect)"
  | db' j' ctx' w' out where "should_run (pe_settings env) s opts = None"
      "begin_stage (rs_db rs) (rc_stage ck s) (rs_job rs) s = Inr (db', j')"
      "handle s (rs_ctx rs) (rs_world rs) = (ctx', w', out)"
      "stage_ends env ck s out (rs\<lparr>rs_db := db', rs_job := j', rs_ctx := ctx', rs_world := w'\<rparr>) = (rs', end1)"
      "\<not> (s \<in> set (rs_completed rs) \<and> s \<noteq> Collect)"
proof (cases "s \<in> set (rs_completed rs) \<and> s \<noteq> Collect")
  case True
  with assms have "rs' = rs" "end1 = Continue" by (simp_all add: run_stage_def)
  with True show ?thesis by (elim conjE) (rule that(1))
next
  case False
  note eq = assms [unfolded run_stage_def if_not_P [OF False]]
  show ?thesis
  proof (cases "should_run (pe_settings env) s opts")
    case (Some r)
    from eq have "stage_skipped ck s r rs = (rs', end1)" unfolding Some by simp
    from that(2) [OF Some this False] show ?thesis .
  next
    case None
    show ?thesis
    proof (cases "begin_stage (rs_db rs) (rc_stage ck s) (rs_job rs) s")
      case (Inl x)
      from eq have "rs' = rs" "end1 = Crash x" unfolding None Inl by simp_all
      from that(3) [OF Inl this False] show ?thesis .
    next
      case (Inr b)
      obtain db' j' where b: "b = (db', j')" by (cases b)
      obtain ctx' w' out where h: "handle s (rs_ctx rs) (rs_world rs) = (ctx', w', out)" by (metis prod_cases3)
      have "stage_ends env ck s out (rs\<lparr>rs_db := db', rs_job := j', rs_ctx := ctx', rs_world := w'\<rparr>) = (rs', end1)"
        using eq unfolding None Inr b h stage_ends_def Let_def by simp
      from that(4) [OF None Inr [unfolded b] h this False] show ?thesis .
    qed
  qed
qed

lemma begin_stage_running:
  assumes "running rs"
  obtains db' j' where "begin_stage (rs_db rs) t (rs_job rs) s = Inr (db', j')"
    "\<And>c w. running (rs\<lparr>rs_db := db', rs_job := j', rs_ctx := c, rs_world := w\<rparr>)"
    "jb_id j' = jb_id (rs_job rs)" "jb_attempts j' = jb_attempts (rs_job rs)"
proof -
  let ?j = "rs_job rs"
  let ?b = "?j\<lparr>jb_current_stage := Some s, jb_heartbeat_at := Some t\<rparr>"
  let ?db = "set_stage (rs_db rs) ?j s (\<lambda>r. r\<lparr>sg_status := StageRunning, sg_attempts := sg_attempts r + 1,
         sg_started_at := Some t, sg_error := None\<rparr>)"
  have "synced ?db ?j" "jb_status ?j = JobRunning" using assms by (simp_all add: running_def)
  from commit_running [OF this, of ?b] obtain db' where
    "commit_job ?db ?j ?b = Inr (db', ?b)" "synced db' ?b" by (auto simp: same_identity_def)
  with assms show ?thesis by (intro that [of db' ?b]) (simp_all add: begin_stage_def running_def)
qed

lemma run_stage_run:
  assumes "running rs" and "run_stage env handle ck opts s rs = (rs', end1)"
  shows "same_run rs rs' \<and> (if end1 = Continue then running rs' else stopped_job (pe_settings env) (rs_job rs'))"
  using assms(2)
proof (cases rule: run_stage_cases)
  case checkpointed
  with assms(1) show ?thesis by (simp add: same_run_def running_def)
next
  case (declined r)
  with stage_skipped_run [OF assms(1), of ck s r] show ?thesis by auto
next
  case (refused x)
  from begin_stage_running [OF assms(1)] refused(1) show ?thesis by (metis Inl_Inr_False)
next
  case (ran db' j' ctx' w' out)
  let ?rs1 = "rs\<lparr>rs_db := db', rs_job := j', rs_ctx := ctx', rs_world := w'\<rparr>"
  from begin_stage_running [OF assms(1), of "rc_stage ck s" s] ran(2)
  have go: "running ?rs1" "jb_id j' = jb_id (rs_job rs)" "jb_attempts j' = jb_attempts (rs_job rs)"
    by (metis Pair_inject sum.inject(2))+
  then have same: "same_run ?rs1 x \<Longrightarrow> same_run rs x" for x by (simp add: same_run_def)
  show ?thesis
  proof (cases out)
    case (Output d)
    with ran(4) stage_completed_run [OF go(1), of ck s d] same show ?thesis by (auto simp: stage_ends_def)
  next
    case (StageSkipped r)
    with ran(4) stage_skipped_run [OF go(1), of ck s r] same show ?thesis by (auto simp: stage_ends_def)
  next
    case (Raised e)
    with ran(4) have "stage_raised env ck s e ?rs1 = (rs', end1)" by (simp add: stage_ends_def)
    from stage_raised_run [OF go(1) this] same show ?thesis by blast
  qed
qed

lemma run_stages_run:
  assumes "running rs" and "run_stages env handle ck opts ss rs = (rs', end1)"
  shows "same_run rs rs' \<and> (if end1 = Continue then running rs' else stopped_job (pe_settings env) (rs_job rs'))"
  using assms
proof (induction ss arbitrary: rs)
  case Nil
  then show ?case by (auto simp: same_run_def running_def)
next
  case (Cons s ss)
  obtain rs1 e1 where s: "run_stage env handle ck opts s rs = (rs1, e1)" by fastforce
  note one = run_stage_run [OF Cons.prems(1) s]
  show ?case
  proof (cases "e1 = Continue")
    case True
    with one have "running rs1" "same_run rs rs1" by simp_all
    moreover have "run_stages env handle ck opts ss rs1 = (rs', end1)" using Cons.prems(2) s True by simp
    ultimately show ?thesis using Cons.IH [of rs1] by (auto simp: same_run_def)
  next
    case False
    with Cons.prems(2) s have "rs' = rs1" "end1 = e1" by (cases e1; simp)+
    with one False show ?thesis by simp
  qed
qed

lemma not_terminal_active: "\<not> is_terminal j \<longleftrightarrow> job_active j"
  by (cases "jb_status j") (simp_all add: is_terminal_def ACTIVE_def)

lemma mark_running_synced:
  assumes "synced db j" and "\<not> is_terminal j"
  obtains db' j' where "mark_running db t j = Inr (db', j')" "synced db' j'" "jb_status j' = JobRunning"
    "same_identity j j'" "jb_attempts j' = Suc (jb_attempts j)" "jb_result j' = jb_result j" "job_stages db' = job_stages db"
proof -
  let ?b = "j\<lparr>jb_status := JobRunning, jb_attempts := jb_attempts j + 1, jb_heartbeat_at := Some t,
       jb_error := None, jb_started_at := (case jb_started_at j of None \<Rightarrow> Some t | Some u \<Rightarrow> Some u)\<rparr>"
  have "same_identity j ?b" by (simp add: same_identity_def)
  moreover obtain db' where "commit_job db j ?b = Inr (db', ?b)" "synced db' ?b" "job_stages db' = job_stages db"
    by (rule commit_job_synced [OF assms(1), of ?b]) (use assms(2) in \<open>simp_all add: not_terminal_active same_identity_def\<close>)
  ultimately show ?thesis by (intro that [of db' ?b]) (simp_all add: mark_running_def)
qed

lemma finish_run_synced:
  assumes "running rs" and "finish_run env ck rs = (db', w', res)"
  shows "\<exists>j'. synced db' j' \<and> jb_id j' = jb_id (rs_job rs) \<and> jb_attempts j' = jb_attempts (rs_job rs)
     \<and> jb_status j' = JobSucceeded"
proof -
  let ?j = "rs_job rs"
  let ?b = "?j\<lparr>jb_status := JobSucceeded, jb_current_stage := None, jb_finished_at := Some (rc_end ck),
       jb_error := None, jb_next_attempt_at := None\<rparr>"
  obtain d where "commit_job (rs_db rs) ?j ?b = Inr (d, ?b)" "synced d ?b"
    by (rule commit_running [of "rs_db rs" ?j ?b]) (use assms(1) in \<open>simp_all add: running_def same_identity_def\<close>)
  with assms(2) show ?thesis
    by (intro exI [of _ ?b]) (auto simp: finish_run_def succeed_def split: prod.splits option.splits)
qed

lemma run_with_synced:
  assumes "synced db j" and "\<not> is_terminal j" and "run_with env handle ck db w j = (db', w', res)"
  shows "\<exists>j'. synced db' j' \<and> jb_id j' = jb_id j \<and> jb_attempts j' = Suc (jb_attempts j)
     \<and> (jb_status j' = JobSucceeded \<or> stopped_job (pe_settings env) j')"
proof -
  obtain db1 j1 where m: "mark_running db (rc_start ck) j = Inr (db1, j1)" "synced db1 j1" "jb_status j1 = JobRunning"
      "same_identity j j1" "jb_attempts j1 = Suc (jb_attempts j)"
    by (rule mark_running_synced [OF assms(1,2), of "rc_start ck"])
  let ?rs0 = "start_state env db1 j1 w"
  have run0: "running ?rs0" using m(2,3) by (simp add: running_def start_state_def)
  obtain rs e where r: "run_stages env handle ck (jb_options j) PIPELINE ?rs0 = (rs, e)" by fastforce
  from run_stages_run [OF run0 r] have rs: "jb_id (rs_job rs) = jb_id j" "jb_attempts (rs_job rs) = Suc (jb_attempts j)"
      "synced (rs_db rs) (rs_job rs)" "if e = Continue then running rs else stopped_job (pe_settings env) (rs_job rs)"
    using m(4,5) by (simp_all add: same_run_def start_state_def same_identity_def)
  show ?thesis
  proof (cases e)
    case Continue
    then have "finish_run env ck rs = (db', w', res)" using assms(2,3) m(1) r by (simp add: run_with_def)
    from finish_run_synced [OF _ this] rs Continue show ?thesis by auto
  next
    case (Return out)
    with assms(2,3) m(1) r have "db' = rs_db rs" by (simp add: run_with_def)
    with rs Return show ?thesis by auto
  next
    case (Crash x)
    with assms(2,3) m(1) r have "db' = rs_db rs" by (simp add: run_with_def)
    with rs Crash show ?thesis by auto
  qed
qed

subsection \<open>Properties: retries\<close>

text \<open>The worker picks a job up again and again, in whatever environment.\<close>

fun run_again :: "(pipe_env \<times> run_clock) list \<Rightarrow> automation_db \<Rightarrow> pipe_world \<Rightarrow> uuid \<Rightarrow> automation_db \<times> pipe_world" where
  "run_again [] db w k = (db, w)"
| "run_again ((env, ck) # es) db w k = (case run_job env ck db w k of (db', w', _) \<Rightarrow> run_again es db' w' k)"

lemma run_job_synced:
  assumes "synced db j"
  shows "run_job env ck db w (jb_id j) = run_pipeline (env\<lparr>pe_publisher := False\<rparr>) ck db w j"
  using synced_get [OF assms] by (simp add: run_job_def)

lemma run_terminal: "is_terminal j \<Longrightarrow> fst (run_with env handle ck db w j) = db"
  by (simp add: run_with_def)

lemma run_again_terminal:
  "synced db j \<Longrightarrow> is_terminal j \<Longrightarrow> fst (run_again es db w (jb_id j)) = db"
proof (induction es arbitrary: w)
  case (Cons e es)
  obtain env ck where e: "e = (env, ck)" by (cases e)
  have "fst (run_job env ck db w (jb_id j)) = db"
    using Cons.prems by (simp add: run_job_synced run_pipeline_def run_terminal)
  then obtain w' res where "run_job env ck db w (jb_id j) = (db, w', res)" by (metis fst_conv prod_cases3)
  with Cons show ?case by (simp add: e)
qed simp

text \<open>
  C19: The retry budget ends a job. However the stages fail (an unreachable service, a full disk,
  a broken file), a job that the worker keeps picking up is finished after at most as many runs
  as are left of \<open>max_attempts\<close>, and after one run in any case: it succeeded, failed or is
  dead-lettered, and no further run changes it.
\<close>

theorem retries_end:
  assumes "synced db j" and "\<forall>e \<in> set es. as_max_attempts (pe_settings (fst e)) = m"
    and "max 1 (m - jb_attempts j) \<le> length es" and "run_again es db w (jb_id j) = (db', w')"
  shows "\<exists>j'. get_job db' (jb_id j) = Inr j' \<and> is_terminal j' \<and> jb_attempts j' \<le> max m (Suc (jb_attempts j))"
  using assms
proof (induction es arbitrary: db j w)
  case (Cons e es)
  obtain env ck where e: "e = (env, ck)" by (cases e)
  show ?case
  proof (cases "is_terminal j")
    case True
    with run_again_terminal [OF Cons.prems(1) True, of "e # es" w] Cons.prems(4) have "db' = db" by simp
    with True synced_get [OF Cons.prems(1)] show ?thesis by auto
  next
    case False
    let ?env = "env\<lparr>pe_publisher := False\<rparr>"
    obtain db1 w1 res where r: "run_pipeline ?env ck db w j = (db1, w1, res)" by (metis prod_cases3)
    have rest: "run_again es db1 w1 (jb_id j) = (db', w')"
      using Cons.prems(4) r by (simp add: e run_job_synced [OF Cons.prems(1)])
    from run_with_synced [OF Cons.prems(1) False r [unfolded run_pipeline_def]] obtain j1 where
      j1: "synced db1 j1" "jb_id j1 = jb_id j" "jb_attempts j1 = Suc (jb_attempts j)"
        "jb_status j1 = JobSucceeded \<or> stopped_job (pe_settings ?env) j1" by blast
    show ?thesis
    proof (cases "is_terminal j1")
      case True
      with run_again_terminal [OF j1(1) True, of es w1] rest j1(2) have "db' = db1" by simp
      with True synced_get [OF j1(1)] j1(2,3) show ?thesis by auto
    next
      case False
      with j1(4) have "jb_attempts j1 < m" using Cons.prems(2)
        by (auto simp: e stopped_job_def is_terminal_def)
      with Cons.IH [OF j1(1), of w1] Cons.prems(2,3) rest j1(2,3) show ?thesis by (force simp: e)
    qed
  qed
qed simp

subsection \<open>Lemmas: which stage rows a run touches\<close>

lemma commit_job_stages: "commit_job db a b = Inr (db', b') \<Longrightarrow> b' = b \<and> job_stages db' = job_stages db"
  by (auto simp: commit_job_def Let_def split: if_splits)

lemma stage_rows_commit: "commit_job db a b = Inr (db', b') \<Longrightarrow> stage_rows db' k s = stage_rows db k s"
  by (simp add: stage_rows_def commit_job_stages)

lemma stage_ops_rows:
  assumes "s \<noteq> s0"
  shows "begin_stage db t j s = Inr (db', j') \<Longrightarrow> stage_rows db' k s0 = stage_rows db k s0"
    and "complete_stage db t j s out d = Inr (db', j') \<Longrightarrow> stage_rows db' k s0 = stage_rows db k s0"
    and "stage_rows (skip_stage db t j s r) k s0 = stage_rows db k s0"
    and "stage_rows (fail_stage db t j s err d) k s0 = stage_rows db k s0"
proof -
  show "begin_stage db t j s = Inr (db', j') \<Longrightarrow> stage_rows db' k s0 = stage_rows db k s0"
    unfolding begin_stage_def by (drule stage_rows_commit [where k = k and s = s0]) (use assms in \<open>simp add: stage_rows_other\<close>)
  show "complete_stage db t j s out d = Inr (db', j') \<Longrightarrow> stage_rows db' k s0 = stage_rows db k s0"
    unfolding complete_stage_def by (drule stage_rows_commit [where k = k and s = s0]) (use assms in \<open>simp add: stage_rows_other\<close>)
  show "stage_rows (skip_stage db t j s r) k s0 = stage_rows db k s0"
    using assms by (simp add: skip_stage_def stage_rows_other)
  show "stage_rows (fail_stage db t j s err d) k s0 = stage_rows db k s0"
    using assms by (simp add: fail_stage_def stage_rows_other)
qed

lemma job_ops_rows:
  shows "mark_running db t j = Inr (db', j') \<Longrightarrow> stage_rows db' k s = stage_rows db k s"
    and "succeed db t j = Inr (db', j') \<Longrightarrow> stage_rows db' k s = stage_rows db k s"
    and "fail_terminally db t j err = Inr (db', j') \<Longrightarrow> stage_rows db' k s = stage_rows db k s"
    and "cancel_job db t j = Inr (db', j') \<Longrightarrow> stage_rows db' k s = stage_rows db k s"
    and "prepare_retry db j None b = Inr (db', j') \<Longrightarrow> stage_rows db' k s = stage_rows db k s"
    and "schedule_retry st db t x j err = Inr (db', j', b) \<Longrightarrow> stage_rows db' k s = stage_rows db k s"
  by (auto simp: mark_running_def succeed_def fail_terminally_def cancel_job_def prepare_retry_def schedule_retry_def
      Let_def dest!: stage_rows_commit [where k = k and s = s] split: if_splits sum.splits prod.splits)

lemma stage_raised_rows:
  assumes "stage_raised env ck s e rs = (rs', end1)" and "s \<noteq> s0"
  shows "stage_rows (rs_db rs') k s0 = stage_rows (rs_db rs) k s0 \<and> rs_completed rs' = rs_completed rs"
  using assms(1) stage_ops_rows(4) [OF assms(2)]
  by (auto simp: stage_raised_def after_emit_def Let_def job_ops_rows(3,6)
      split: if_splits sum.splits prod.splits bool.splits)

lemma run_stage_rows:
  assumes "run_stage env handle ck opts s rs = (rs', end1)" and "s0 \<in> set (rs_completed rs)" and "s0 \<noteq> Collect"
  shows "stage_rows (rs_db rs') k s0 = stage_rows (rs_db rs) k s0 \<and> s0 \<in> set (rs_completed rs')"
  using assms(1)
proof (cases rule: run_stage_cases)
  case (declined r)
  with assms(2,3) have "s \<noteq> s0" by auto
  with declined(2) assms(2) stage_ops_rows(3) show ?thesis by (auto simp: stage_skipped_def)
next
  case (ran db' j' ctx' w' out)
  let ?rs1 = "rs\<lparr>rs_db := db', rs_job := j', rs_ctx := ctx', rs_world := w'\<rparr>"
  from ran(5) assms(2,3) have s: "s \<noteq> s0" by auto
  have "stage_rows db' k s0 = stage_rows (rs_db rs) k s0" by (rule stage_ops_rows(1) [OF s ran(2)])
  then show ?thesis using ran(4) assms(2) stage_ops_rows(2,3) [OF s] stage_raised_rows [OF _ s, of env ck _ ?rs1 rs' end1 k]
    by (cases out) (auto simp: stage_ends_def stage_skipped_def stage_completed_def Let_def split: sum.splits)
qed (use assms(2) in simp_all)

lemma run_stages_rows:
  assumes "run_stages env handle ck opts ss rs = (rs', end1)" and "s0 \<in> set (rs_completed rs)" and "s0 \<noteq> Collect"
  shows "stage_rows (rs_db rs') k s0 = stage_rows (rs_db rs) k s0 \<and> s0 \<in> set (rs_completed rs')"
  using assms(1,2)
proof (induction ss arbitrary: rs)
  case (Cons s ss)
  obtain rs1 e1 where s: "run_stage env handle ck opts s rs = (rs1, e1)" by fastforce
  note one = run_stage_rows [OF s Cons.prems(2) assms(3)]
  with Cons s show ?case by (cases e1) auto
qed simp

lemma completed_stages_set: "set (completed_stages db k) = {s. stage_succeeded db k s}"
proof -
  have "s \<in> set (completed_stages db k) \<longleftrightarrow> stage_succeeded db k s" for s
    by (auto simp: completed_stages_def stage_succeeded_def stage_rows_def stage_is_def in_stages_of)
  then show ?thesis by blast
qed

lemma finish_run_rows: "finish_run env ck rs = (db', w', res) \<Longrightarrow> stage_rows db' k s = stage_rows (rs_db rs) k s"
  by (auto simp: finish_run_def job_ops_rows(2) split: sum.splits prod.splits option.splits)

lemma run_with_rows:
  assumes "run_with env handle ck db w j = (db', w', res)" and "stage_succeeded db (jb_id j) s0" and "s0 \<noteq> Collect"
  shows "stage_rows db' k s0 = stage_rows db k s0"
proof (cases "is_terminal j \<or> (\<exists>x. mark_running db (rc_start ck) j = Inl x)")
  case True
  with assms(1) show ?thesis by (auto simp: run_with_def split: if_splits)
next
  case False
  then obtain db1 j1 where m: "mark_running db (rc_start ck) j = Inr (db1, j1)"
    by (cases "mark_running db (rc_start ck) j") auto
  then have id: "jb_id j1 = jb_id j" unfolding mark_running_def by (drule_tac commit_job_stages) simp
  let ?rs0 = "start_state env db1 j1 w"
  obtain rs e where r: "run_stages env handle ck (jb_options j) PIPELINE ?rs0 = (rs, e)" by fastforce
  have "s0 \<in> set (rs_completed ?rs0)"
    using assms(2) job_ops_rows(1) [OF m, of "jb_id j" s0]
    by (simp add: start_state_def completed_stages_set stage_succeeded_def id)
  from run_stages_rows [OF r this assms(3), of k] job_ops_rows(1) [OF m, of k s0]
  have rows: "stage_rows (rs_db rs) k s0 = stage_rows db k s0" by (simp add: start_state_def)
  have "db' = rs_db rs \<or> finish_run env ck rs = (db', w', res)"
    using assms(1) False m r by (cases e) (auto simp: run_with_def)
  with rows finish_run_rows show ?thesis by metis
qed

subsection \<open>Lemmas: a run leaves the rows of other jobs alone\<close>

lemma stage_ops_other_job:
  assumes "k \<noteq> jb_id j"
  shows "begin_stage db t j s = Inr (db', j') \<Longrightarrow> jb_id j' = jb_id j \<and> stage_rows db' k s0 = stage_rows db k s0"
    and "complete_stage db t j s out d = Inr (db', j') \<Longrightarrow> jb_id j' = jb_id j \<and> stage_rows db' k s0 = stage_rows db k s0"
    and "stage_rows (skip_stage db t j s r) k s0 = stage_rows db k s0"
    and "stage_rows (fail_stage db t j s err d) k s0 = stage_rows db k s0"
proof -
  show "begin_stage db t j s = Inr (db', j') \<Longrightarrow> jb_id j' = jb_id j \<and> stage_rows db' k s0 = stage_rows db k s0"
    unfolding begin_stage_def
    by (frule stage_rows_commit [where k = k and s = s0], drule commit_job_stages) (use assms in \<open>simp add: stage_rows_other\<close>)
  show "complete_stage db t j s out d = Inr (db', j') \<Longrightarrow> jb_id j' = jb_id j \<and> stage_rows db' k s0 = stage_rows db k s0"
    unfolding complete_stage_def
    by (frule stage_rows_commit [where k = k and s = s0], drule commit_job_stages) (use assms in \<open>simp add: stage_rows_other\<close>)
  show "stage_rows (skip_stage db t j s r) k s0 = stage_rows db k s0"
    using assms by (simp add: skip_stage_def stage_rows_other)
  show "stage_rows (fail_stage db t j s err d) k s0 = stage_rows db k s0"
    using assms by (simp add: fail_stage_def stage_rows_other)
qed

lemma job_ops_id:
  "fail_terminally db t j err = Inr (db', j') \<Longrightarrow> jb_id j' = jb_id j"
  "schedule_retry st db t x j err = Inr (db', j', b) \<Longrightarrow> jb_id j' = jb_id j"
  by (auto simp: fail_terminally_def schedule_retry_def Let_def dest!: commit_job_stages split: if_splits sum.splits prod.splits)

lemma stage_raised_other_job:
  assumes "stage_raised env ck s e rs = (rs', end1)" and "k \<noteq> jb_id (rs_job rs)"
  shows "stage_rows (rs_db rs') k s0 = stage_rows (rs_db rs) k s0 \<and> jb_id (rs_job rs') = jb_id (rs_job rs)"
  using assms(1) stage_ops_other_job(4) [OF assms(2)]
  by (auto simp: stage_raised_def after_emit_def Let_def job_ops_rows(3,6) job_ops_id
      split: if_splits sum.splits prod.splits bool.splits)

lemma run_stage_other_job:
  assumes "run_stage env handle ck opts s rs = (rs', end1)" and "k \<noteq> jb_id (rs_job rs)"
  shows "stage_rows (rs_db rs') k s0 = stage_rows (rs_db rs) k s0 \<and> jb_id (rs_job rs') = jb_id (rs_job rs)"
  using assms(1)
proof (cases rule: run_stage_cases)
  case (declined r)
  with stage_ops_other_job(3) [OF assms(2)] show ?thesis by (auto simp: stage_skipped_def)
next
  case (ran db' j' ctx' w' out)
  let ?rs1 = "rs\<lparr>rs_db := db', rs_job := j', rs_ctx := ctx', rs_world := w'\<rparr>"
  note begun = stage_ops_other_job(1) [OF assms(2) ran(2), of s0]
  then have k: "k \<noteq> jb_id (rs_job ?rs1)" using assms(2) by simp
  from ran(4) begun stage_ops_other_job(2,3) [OF k] stage_raised_other_job [OF _ k, of env ck s _ rs' end1 s0] show ?thesis
    by (cases out) (auto simp: stage_ends_def stage_skipped_def stage_completed_def Let_def split: sum.splits)
qed simp_all

lemma run_stages_other_job:
  assumes "run_stages env handle ck opts ss rs = (rs', end1)" and "k \<noteq> jb_id (rs_job rs)"
  shows "stage_rows (rs_db rs') k s0 = stage_rows (rs_db rs) k s0"
  using assms
proof (induction ss arbitrary: rs)
  case (Cons s ss)
  obtain rs1 e1 where s: "run_stage env handle ck opts s rs = (rs1, e1)" by fastforce
  note one = run_stage_other_job [OF s Cons.prems(2), of s0]
  with Cons s show ?case by (cases e1) auto
qed simp

lemma run_with_other_job:
  assumes "run_with env handle ck db w j = (db', w', res)" and "k \<noteq> jb_id j"
  shows "stage_rows db' k s = stage_rows db k s"
proof (cases "is_terminal j \<or> (\<exists>x. mark_running db (rc_start ck) j = Inl x)")
  case True
  with assms(1) show ?thesis by (auto simp: run_with_def split: if_splits)
next
  case False
  then obtain db1 j1 where m: "mark_running db (rc_start ck) j = Inr (db1, j1)"
    by (cases "mark_running db (rc_start ck) j") auto
  then have id: "jb_id j1 = jb_id j" unfolding mark_running_def by (drule_tac commit_job_stages) simp
  let ?rs0 = "start_state env db1 j1 w"
  obtain rs e where r: "run_stages env handle ck (jb_options j) PIPELINE ?rs0 = (rs, e)" by fastforce
  have "k \<noteq> jb_id (rs_job ?rs0)" using assms(2) id by (simp add: start_state_def)
  from run_stages_other_job [OF r this, of s] job_ops_rows(1) [OF m, of k s]
  have rows: "stage_rows (rs_db rs) k s = stage_rows db k s" by (simp add: start_state_def)
  have "db' = rs_db rs \<or> finish_run env ck rs = (db', w', res)"
    using assms(1) False m r by (cases e) (auto simp: run_with_def)
  with rows finish_run_rows show ?thesis by metis
qed

subsection \<open>Properties: checkpoints\<close>

text \<open>
  What happens to the job tables over time: jobs are created, run by a worker or an operator
  from whatever copy of the row was loaded, cancelled, requeued by hand or by the sweep of stale
  jobs. Runs do not overlap, and finished jobs are not pruned. A retry that names a stage
  re-opens that stage and every later one of its job on purpose; \<open>reopens\<close> says that it re-opens
  the stage \<open>s\<close> of the job \<open>k\<close>.
\<close>

definition reopens :: "automation_db \<Rightarrow> uuid \<Rightarrow> Stage \<Rightarrow> AutomationJob \<Rightarrow> Stage option \<Rightarrow> bool" where
  "reopens db k s j from_stage \<longleftrightarrow>
     (case from_stage of None \<Rightarrow> False
      | Some t \<Rightarrow> jb_id j = k \<and> (\<exists>r \<in> set (stage_rows db k s). stage_position t \<le> sg_position r))"

inductive automation_run :: "uuid \<Rightarrow> Stage \<Rightarrow> automation_db \<Rightarrow> automation_db \<Rightarrow> bool" for k s db0 where
  begin1: "automation_run k s db0 db0"
| created: "automation_run k s db0 db \<Longrightarrow> job_id \<notin> sg_job_id ` set (job_stages db)
    \<Longrightarrow> create_job db job_id now p by1 corr imp = Inr (db', j) \<Longrightarrow> automation_run k s db0 db'"
| ran: "automation_run k s db0 db \<Longrightarrow> run_pipeline env ck db w j = (db', w', res) \<Longrightarrow> automation_run k s db0 db'"
| cancelled: "automation_run k s db0 db \<Longrightarrow> cancel_job db now j = Inr (db', j') \<Longrightarrow> automation_run k s db0 db'"
| requeued: "automation_run k s db0 db \<Longrightarrow> \<not> reopens db k s j from_stage
    \<Longrightarrow> prepare_retry db j from_stage b = Inr (db', j') \<Longrightarrow> automation_run k s db0 db'"
| swept: "automation_run k s db0 db \<Longrightarrow> requeue_stale st db now = (db', n) \<Longrightarrow> automation_run k s db0 db'"

lemma prepare_retry_rows:
  assumes "prepare_retry db j from_stage b = Inr (db', j')" and "\<not> reopens db k s j from_stage"
  shows "stage_rows db' k s = stage_rows db k s"
proof (cases from_stage)
  case None
  then show ?thesis using assms(1) by (simp add: job_ops_rows(5))
next
  case (Some t)
  define reset where "reset r = r\<lparr>sg_status := StagePending, sg_error := None, sg_output := [], sg_started_at := None,
    sg_finished_at := None, sg_duration_ms := None\<rparr>" for r :: JobStage
  define hit where "hit r \<longleftrightarrow> sg_job_id r = jb_id j \<and> sg_position r \<ge> stage_position t" for r :: JobStage
  have rows: "job_stages db' = update_rows hit reset (job_stages db)"
    using assms(1) Some by (auto simp: prepare_retry_def Let_def hit_def [abs_def] reset_def [abs_def] dest!: commit_job_stages split: if_splits)
  have "\<not> hit r" if "r \<in> set (job_stages db)" "stage_is k s r" for r
    using assms(2) Some that by (auto simp: reopens_def hit_def stage_rows_def stage_is_def)
  moreover have "stage_is k s (reset r) = stage_is k s r" for r by (simp add: reset_def stage_is_def)
  ultimately have "filter (stage_is k s) (update_rows hit reset t) = filter (stage_is k s) t" if "set t \<subseteq> set (job_stages db)" for t
    using that by (induction t) (auto simp: update_rows_def)
  then show ?thesis by (simp add: stage_rows_def rows)
qed

lemma create_job_rows:
  assumes "create_job db job_id now p by1 corr imp = Inr (db', j)" and "k \<noteq> job_id"
  shows "stage_rows db' k s = stage_rows db k s"
  using assms by (auto simp: create_job_def Let_def stage_rows_def stage_is_def new_stage_def filter_empty_conv
      split: option.splits)

text \<open>
  C18: Finished work is not repeated unless someone asks for it. Once a stage of a job other
  than fetching the source (which every run repeats) has succeeded, its checkpoint stays as it
  is through any later history of runs that do not overlap: retries after failures, crashes of
  the worker, cancellation, the sweep of stale jobs, other jobs, and manual retries, unless a
  retry of this job names that stage or an earlier one. The stage is not started again and its
  output is not overwritten.
\<close>

theorem checkpoints_kept:
  assumes "automation_run k s db0 db" and "stage_succeeded db0 k s" and "s \<noteq> Collect"
  shows "stage_rows db k s = stage_rows db0 k s"
  using assms(1)
proof induction
  case (created db job_id now p by1 corr imp db' j)
  have "stage_succeeded db k s" using created.IH assms(2) by (simp add: stage_succeeded_def)
  then have "k \<noteq> job_id" using created.hyps(2) by (auto simp: stage_succeeded_def stage_rows_def stage_is_def)
  with create_job_rows [OF created.hyps(3)] created.IH show ?case by simp
next
  case (ran db env ck w j db' w' res)
  have ok: "stage_succeeded db k s" using ran.IH assms(2) by (simp add: stage_succeeded_def)
  note r = ran.hyps(2) [unfolded run_pipeline_def]
  show ?case
  proof (cases "k = jb_id j")
    case True
    with run_with_rows [OF r _ assms(3), of k] ok ran.IH show ?thesis by simp
  next
    case False
    with run_with_other_job [OF r] ran.IH show ?thesis by simp
  qed
next
  case (cancelled db now j db' j')
  then show ?case by (simp add: job_ops_rows(4))
next
  case (requeued db j from_stage b db' j')
  then show ?case using prepare_retry_rows by simp
next
  case (swept db st now db' n)
  then show ?case by (auto simp: requeue_stale_def stage_rows_def)
qed simp

subsection \<open>Lemmas: how a run that returns early ends\<close>

lemma stage_raised_return:
  assumes "stage_raised env ck s e rs = (rs', Return out)"
  shows "ro_status out \<noteq> JobSucceeded \<and> set (ro_completed out) \<subseteq> set (rs_completed rs')"
proof -
  have st: "jb_status j' \<noteq> JobSucceeded" if "schedule_retry st db t x j err = Inr (db', j', b)" for st db t x j err db' j' b
    using that by (auto simp: schedule_retry_def Let_def dest!: commit_job_stages split: if_splits sum.splits prod.splits)
  show ?thesis using assms st
    by (auto simp: stage_raised_def after_emit_def failed_outcome_def in_order_def Let_def
        split: if_splits sum.splits prod.splits bool.splits option.splits)
qed

lemma run_stages_return:
  assumes "run_stages env handle ck opts ss rs = (rs', Return out)"
  shows "ro_status out \<noteq> JobSucceeded \<and> set (ro_completed out) \<subseteq> set (rs_completed rs')"
  using assms
proof (induction ss arbitrary: rs)
  case (Cons s ss)
  obtain rs1 e1 where s: "run_stage env handle ck opts s rs = (rs1, e1)" by fastforce
  show ?case
  proof (cases "e1 = Continue")
    case True
    with Cons s show ?thesis by simp
  next
    case False
    with Cons.prems s have "run_stage env handle ck opts s rs = (rs', Return out)" by (cases e1) auto
    then show ?thesis
    proof (cases rule: run_stage_cases)
      case (ran db' j' ctx' w' h)
      then show ?thesis
        by (cases h) (auto simp: stage_ends_def stage_skipped_def stage_completed_def Let_def stage_raised_return
            split: sum.splits)
    qed (auto simp: stage_skipped_def)
  qed
qed simp

subsection \<open>Interface: what the runner relies on of its stages\<close>

text \<open>
  A required stage never decides that there is nothing to do, and a handler leaves the identity
  of the run and the accumulated result alone: it contributes through its output.
\<close>

locale stage_handlers =
  fixes handle :: "Stage \<Rightarrow> handler"
  assumes required_never_skips: "s \<in> set REQUIRED_STAGES \<Longrightarrow> handle s ctx w \<noteq> (ctx', w', StageSkipped r)"
    and result_kept: "handle s ctx w = (ctx', w', out) \<Longrightarrow>
      sx_result ctx' = sx_result ctx \<and> sx_job_id ctx' = sx_job_id ctx \<and> sx_book_id ctx' = sx_book_id ctx
      \<and> sx_source_key ctx' = sx_source_key ctx \<and> sx_options ctx' = sx_options ctx"
begin

definition recorded :: "automation_settings \<Rightarrow> JobOptions \<Rightarrow> run_state \<Rightarrow> bool" where
  "recorded st opts rs \<longleftrightarrow> (\<forall>s \<in> set (rs_completed rs). should_run st s opts = None \<longrightarrow>
     stage_succeeded (rs_db rs) (jb_id (rs_job rs)) s)"

lemma run_stage_id: "run_stage env handle ck opts s rs = (rs', end1) \<Longrightarrow> jb_id (rs_job rs') = jb_id (rs_job rs)"
  using run_stage_other_job [of env handle ck opts s rs rs' end1 "Suc (jb_id (rs_job rs))"] by simp

lemma recorded_other:
  assumes "recorded st opts rs" and "set (rs_completed rs') \<subseteq> insert s (set (rs_completed rs))"
    and "jb_id (rs_job rs') = jb_id (rs_job rs)"
    and "\<And>s0. s \<noteq> s0 \<Longrightarrow> stage_rows (rs_db rs') (jb_id (rs_job rs)) s0 = stage_rows (rs_db rs) (jb_id (rs_job rs)) s0"
    and "s \<in> set (rs_completed rs') \<Longrightarrow> should_run st s opts = None
      \<Longrightarrow> stage_succeeded (rs_db rs') (jb_id (rs_job rs)) s"
  shows "recorded st opts rs'"
  unfolding recorded_def
proof (intro ballI impI)
  fix s0 assume s0: "s0 \<in> set (rs_completed rs')" "should_run st s0 opts = None"
  show "stage_succeeded (rs_db rs') (jb_id (rs_job rs')) s0"
  proof (cases "s0 = s")
    case True
    with s0 assms(3,5) show ?thesis by simp
  next
    case False
    with s0 assms(1,2) have "stage_succeeded (rs_db rs) (jb_id (rs_job rs)) s0" by (auto simp: recorded_def)
    with False assms(3) assms(4) [of s0] show ?thesis by (simp add: stage_succeeded_def)
  qed
qed

lemma completed_recorded:
  assumes "complete_stage db t j s out d = Inr (db', j')"
  shows "stage_succeeded db' (jb_id j) s"
proof -
  let ?db = "set_stage db j s (\<lambda>r. r\<lparr>sg_status := StageSucceeded, sg_output := out,
         sg_duration_ms := Some d, sg_finished_at := Some t, sg_error := None\<rparr>)"
  have "stage_succeeded ?db (jb_id j) s" by (rule stage_rows_set) simp_all
  moreover have "stage_rows db' (jb_id j) s = stage_rows ?db (jb_id j) s"
    using assms unfolding complete_stage_def by (rule stage_rows_commit)
  ultimately show ?thesis by (simp add: stage_succeeded_def)
qed

lemma run_stage_recorded:
  assumes "run_stage env handle ck opts s rs = (rs', Continue)" and "recorded (pe_settings env) opts rs"
  shows "recorded (pe_settings env) opts rs' \<and> set (rs_completed rs) \<subseteq> set (rs_completed rs')
     \<and> (s \<in> set REQUIRED_STAGES \<and> should_run (pe_settings env) s opts = None \<longrightarrow> s \<in> set (rs_completed rs'))"
  using assms(1)
proof (cases rule: run_stage_cases)
  case checkpointed
  with assms(2) show ?thesis by simp
next
  case (declined r)
  from declined(2) have eq: "rs' = rs\<lparr>rs_db := skip_stage (rs_db rs) (rc_stage ck s) (rs_job rs) s r,
      rs_skipped := rs_skipped rs @ [s]\<rparr>" by (simp add: stage_skipped_def)
  have "recorded (pe_settings env) opts rs'"
    by (rule recorded_other [OF assms(2), of _ s]) (use declined(1) in \<open>auto simp: eq stage_ops_rows(3)\<close>)
  with declined(1) eq show ?thesis by simp
next
  case (ran db' j' ctx' w' out)
  let ?rs1 = "rs\<lparr>rs_db := db', rs_job := j', rs_ctx := ctx', rs_world := w'\<rparr>"
  let ?k = "jb_id (rs_job rs)"
  have id: "jb_id (rs_job rs') = ?k" by (rule run_stage_id [OF assms(1)])
  have j': "jb_id j' = ?k" using ran(2) unfolding begin_stage_def by (drule_tac commit_job_stages) simp
  have begun: "stage_rows db' ?k s0 = stage_rows (rs_db rs) ?k s0" if "s \<noteq> s0" for s0
    by (rule stage_ops_rows(1) [OF that ran(2)])
  show ?thesis
  proof (cases out)
    case (Output d)
    with ran(4) obtain db2 j2 where c: "complete_stage db' (rc_stage ck s) j' s (persisted d) (rc_elapsed ck s) = Inr (db2, j2)"
        "rs' = ?rs1\<lparr>rs_ctx := ctx'\<lparr>sx_result := dict_update (sx_result ctx') d\<rparr>, rs_db := db2, rs_job := j2,
           rs_completed := (if s \<in> set (rs_completed rs) then rs_completed rs else rs_completed rs @ [s])\<rparr>"
      by (auto simp: stage_ends_def stage_completed_def Let_def split: sum.splits)
    have "recorded (pe_settings env) opts rs'"
      by (rule recorded_other [OF assms(2), of _ s])
        (use begun completed_recorded [OF c(1)] stage_ops_rows(2) [OF _ c(1)] id j' in \<open>auto simp: c(2)\<close>)
    with c(2) show ?thesis by auto
  next
    case (StageSkipped r)
    have opt: "s \<notin> set REQUIRED_STAGES"
      using ran(3) required_never_skips [of s "rs_ctx rs" "rs_world rs" ctx' w' r] StageSkipped by metis
    then have "s \<notin> set (rs_completed rs)" using ran(5) by (auto simp: REQUIRED_STAGES_def)
    moreover from ran(4) StageSkipped have eq: "rs' = ?rs1\<lparr>rs_db := skip_stage db' (rc_stage ck s) j' s r,
        rs_skipped := rs_skipped rs @ [s]\<rparr>" by (simp add: stage_ends_def stage_skipped_def)
    ultimately have "recorded (pe_settings env) opts rs'"
      by (intro recorded_other [OF assms(2), of _ s]) (use begun j' in \<open>auto simp: eq stage_ops_rows(3)\<close>)
    with opt eq show ?thesis by simp
  next
    case (Raised e)
    with ran(4) have r: "stage_raised env ck s e ?rs1 = (rs', Continue)" by (simp add: stage_ends_def)
    then have opt: "s \<notin> set REQUIRED_STAGES"
      by (auto simp: stage_raised_def after_emit_def Let_def split: if_splits sum.splits prod.splits bool.splits option.splits)
    then have "s \<notin> set (rs_completed rs)" using ran(5) by (auto simp: REQUIRED_STAGES_def)
    moreover have same: "rs_completed rs' = rs_completed rs" using r opt by (auto simp: stage_raised_def Let_def)
    ultimately have "recorded (pe_settings env) opts rs'"
      by (intro recorded_other [OF assms(2), of _ s]) (use begun id stage_raised_rows [OF r] in auto)
    with opt same show ?thesis by simp
  qed
qed simp_all

lemma run_stages_recorded:
  assumes "run_stages env handle ck opts ss rs = (rs', Continue)" and "recorded (pe_settings env) opts rs"
  shows "recorded (pe_settings env) opts rs' \<and> set (rs_completed rs) \<subseteq> set (rs_completed rs')
     \<and> (\<forall>s \<in> set ss. s \<in> set REQUIRED_STAGES \<and> should_run (pe_settings env) s opts = None \<longrightarrow> s \<in> set (rs_completed rs'))
     \<and> jb_id (rs_job rs') = jb_id (rs_job rs)"
  using assms
proof (induction ss arbitrary: rs)
  case (Cons s ss)
  obtain rs1 e1 where s: "run_stage env handle ck opts s rs = (rs1, e1)" by fastforce
  then have e1: "e1 = Continue" using Cons.prems(1) by (cases e1) auto
  note one = run_stage_recorded [OF s [unfolded e1] Cons.prems(2)]
  have "run_stages env handle ck opts ss rs1 = (rs', Continue)" using Cons.prems(1) s e1 by simp
  from Cons.IH [OF this] one run_stage_id [OF s] show ?case by auto
qed simp

lemma success_records_required:
  assumes "run_with env handle ck db w j = (db', w', Inr out)" and "ro_status out = JobSucceeded" and "\<not> is_terminal j"
    and s: "s \<in> set REQUIRED_STAGES" "should_run (pe_settings env) s (jb_options j) = None"
  shows "stage_succeeded db' (jb_id j) s \<and> s \<in> set (ro_completed out)"
proof -
  obtain db1 j1 where m: "mark_running db (rc_start ck) j = Inr (db1, j1)"
    using assms(1,3) by (cases "mark_running db (rc_start ck) j") (auto simp: run_with_def)
  then have id: "jb_id j1 = jb_id j" unfolding mark_running_def by (drule_tac commit_job_stages) simp
  let ?rs0 = "start_state env db1 j1 w"
  obtain rs e where r: "run_stages env handle ck (jb_options j) PIPELINE ?rs0 = (rs, e)" by fastforce
  have e: "e = Continue"
  proof (rule ccontr)
    assume "e \<noteq> Continue"
    with assms(1,3) m r have "e = Return out" by (cases e) (auto simp: run_with_def)
    with run_stages_return [OF r [unfolded this]] assms(2) show False by simp
  qed
  have "recorded (pe_settings env) (jb_options j) ?rs0" by (simp add: recorded_def start_state_def completed_stages_set)
  from run_stages_recorded [OF r [unfolded e] this] s have done1: "s \<in> set (rs_completed rs)"
      "stage_succeeded (rs_db rs) (jb_id j) s"
    by (auto simp: recorded_def start_state_def id PIPELINE_def REQUIRED_STAGES_def)
  have fin: "finish_run env ck rs = (db', w', Inr out)" using assms(1,3) m r e by (simp add: run_with_def)
  then have "ro_completed out = in_order (rs_completed rs)"
    by (auto simp: finish_run_def split: sum.splits prod.splits option.splits)
  moreover have "s \<in> set PIPELINE" using s(1) by (auto simp: PIPELINE_def REQUIRED_STAGES_def)
  ultimately show ?thesis using done1 finish_run_rows [OF fin, of "jb_id j" s]
    by (simp add: stage_succeeded_def in_order_def)
qed

end

subsection \<open>The stages of the service keep the contract\<close>

fun stage_keys :: "Stage \<Rightarrow> string list" where
  "stage_keys Collect = [''source'']"
| "stage_keys Validate = [''validation'']"
| "stage_keys ExtractMetadata = [''document'', ''warnings'']"
| "stage_keys GenerateDescription = [''copy'']"
| "stage_keys Seo = [''seo'']"
| "stage_keys Tags = [''taxonomy'']"
| "stage_keys Thumbnail = [''images'', ''_pending_uploads'']"
| "stage_keys Convert = [''sample'', ''_pending_uploads'']"
| "stage_keys Compress = [''compression'']"
| "stage_keys Watermark = [''watermark'']"
| "stage_keys Upload = [''uploads'', ''_pending_uploads'', ''keys'']"
| "stage_keys Index = [''catalogue_update'', ''indexed'']"
| "stage_keys Publish = [''published'', ''reason'']"

text \<open>
  What a stage may do: replace the working copy (fetching, compressing, watermarking only), write
  to storage (uploading only), output its own keys, and skip (enrichment only).
\<close>

definition behaves :: "Stage \<Rightarrow> handler \<Rightarrow> bool" where
  "behaves s h \<longleftrightarrow> (\<forall>ctx w ctx' w' out. h ctx w = (ctx', w', out) \<longrightarrow>
     (\<exists>p. ctx' = ctx\<lparr>sx_payload := p\<rparr>) \<and> (s \<notin> set [Collect, Compress, Watermark] \<longrightarrow> ctx' = ctx)
     \<and> (s \<noteq> Upload \<longrightarrow> pw_objects w' = pw_objects w)
     \<and> (\<forall>d. out = Output d \<longrightarrow> map fst d = take (length d) (stage_keys s))
     \<and> (s \<in> set REQUIRED_STAGES \<longrightarrow> (\<forall>r. out \<noteq> StageSkipped r)))"

lemma payload_kept: "\<exists>p. ctx = ctx\<lparr>sx_payload := p\<rparr>"
  by (intro exI [of _ "sx_payload ctx"]) simp

lemma enrich_behaves:
  assumes "s \<in> set AI_STAGES" and "stage_keys s = [key]"
  shows "behaves s (enrich env kinds key)"
  unfolding behaves_def
proof (intro allI impI)
  fix ctx w ctx' w' out
  assume h: "enrich env kinds key ctx w = (ctx', w', out)"
  obtain w1 a where g: "generate env kinds (ai_context ctx) (sx_book_id ctx) (op_force_ai_refresh (sx_options ctx)) w = (w1, a)"
    by fastforce
  then have "pw_objects w1 = pw_objects w" by (auto simp: generate_def Let_def split: if_splits sum.splits)
  moreover have "s \<notin> set REQUIRED_STAGES" using assms(1) by (auto simp: AI_STAGES_def REQUIRED_STAGES_def)
  ultimately show "(\<exists>p. ctx' = ctx\<lparr>sx_payload := p\<rparr>) \<and> (s \<notin> set [Collect, Compress, Watermark] \<longrightarrow> ctx' = ctx)
     \<and> (s \<noteq> Upload \<longrightarrow> pw_objects w' = pw_objects w)
     \<and> (\<forall>d. out = Output d \<longrightarrow> map fst d = take (length d) (stage_keys s))
     \<and> (s \<in> set REQUIRED_STAGES \<longrightarrow> (\<forall>r. out \<noteq> StageSkipped r))"
    using h g assms(2) payload_kept by (auto simp: enrich_def split: if_splits option.splits)
qed

lemma ingest_behaves:
  "behaves Collect (collect env)" "behaves Validate (validate env)" "behaves ExtractMetadata (extract_metadata env)"
  unfolding behaves_def using payload_kept
  by (auto simp: collect_def validate_def extract_metadata_def Let_def split: if_splits sum.splits)

lemma transform_behaves:
  "behaves Thumbnail (thumbnail env)" "behaves Convert (convert env)" "behaves Compress (compress env)"
  "behaves Watermark (watermark env)"
  unfolding behaves_def using payload_kept
  by (auto simp: thumbnail_def convert_def compress_def watermark_def REQUIRED_STAGES_def Let_def
      split: if_splits sum.splits option.splits)

lemma publish_behaves:
  "behaves Upload (upload env)" "behaves Index (index_stage env)" "behaves Publish (publish_stage env)"
  unfolding behaves_def using payload_kept
  by (auto simp: upload_def index_stage_def publish_stage_def update_book_def index_book_def publish_book_def Let_def
      split: if_splits sum.splits option.splits prod.splits)

lemma HANDLERS_behave: "behaves s (HANDLERS env s)"
  by (cases s) (simp_all add: HANDLERS_def ingest_behaves transform_behaves publish_behaves enrich_behaves
      generate_description_def seo_def tags_def AI_STAGES_def)

lemma handler_effects:
  assumes "HANDLERS env s ctx w = (ctx', w', out)"
  shows "\<exists>p. ctx' = ctx\<lparr>sx_payload := p\<rparr>" and "s \<notin> set [Collect, Compress, Watermark] \<Longrightarrow> ctx' = ctx"
    and "s \<noteq> Upload \<Longrightarrow> pw_objects w' = pw_objects w" and "out = Output d \<Longrightarrow> fst ` set d \<subseteq> set (stage_keys s)"
    and "s \<in> set REQUIRED_STAGES \<Longrightarrow> out \<noteq> StageSkipped r"
proof -
  note b = HANDLERS_behave [of s env, unfolded behaves_def, rule_format, OF assms]
  then show "\<exists>p. ctx' = ctx\<lparr>sx_payload := p\<rparr>" "s \<notin> set [Collect, Compress, Watermark] \<Longrightarrow> ctx' = ctx"
    "s \<noteq> Upload \<Longrightarrow> pw_objects w' = pw_objects w" "s \<in> set REQUIRED_STAGES \<Longrightarrow> out \<noteq> StageSkipped r" by blast+
  assume "out = Output d"
  with b have "set (map fst d) = set (take (length d) (stage_keys s))" by simp
  then show "fst ` set d \<subseteq> set (stage_keys s)" using set_take_subset [of "length d" "stage_keys s"] by simp
qed

interpretation pipeline: stage_handlers "HANDLERS env" for env
proof unfold_locales
  fix s ctx w ctx' w' r
  assume "s \<in> set REQUIRED_STAGES"
  then show "HANDLERS env s ctx w \<noteq> (ctx', w', StageSkipped r)" using handler_effects(5) by blast
next
  fix s ctx w ctx' w' out
  assume "HANDLERS env s ctx w = (ctx', w', out)"
  from handler_effects(1) [OF this] show "sx_result ctx' = sx_result ctx \<and> sx_job_id ctx' = sx_job_id ctx
      \<and> sx_book_id ctx' = sx_book_id ctx \<and> sx_source_key ctx' = sx_source_key ctx \<and> sx_options ctx' = sx_options ctx"
    by auto
qed

text \<open>
  C17: A job that reports success did its work. When a run ends with the job succeeded, every
  required stage that the job's options did not exclude is completed and recorded as succeeded,
  whether it ran now or in an earlier attempt; optional stages may have failed or been skipped.
\<close>

theorem success_means_required_done:
  assumes "run_pipeline env ck db w j = (db', w', Inr out)" and "ro_status out = JobSucceeded" and "\<not> is_terminal j"
    and "s \<in> set REQUIRED_STAGES" and "should_run (pe_settings env) s (jb_options j) = None"
  shows "stage_succeeded db' (jb_id j) s \<and> s \<in> set (ro_completed out)"
  using pipeline.success_records_required [OF assms(1) [unfolded run_pipeline_def] assms(2-5)] .

subsection \<open>Samples\<close>

definition sample_pdf :: pdf_doc where
  "sample_pdf = \<lparr>pd_is_encrypted = False, pd_decrypt_raises = False, pd_opens = True,
     pd_pages = Some (replicate 8 (Some ''text'')), pd_metadata = []\<rparr>"

definition sample_lib :: doc_lib where
  "sample_lib = \<lparr>dl_zip = (\<lambda>_. None), dl_xml = (\<lambda>_. None), dl_chapter_text = (\<lambda>_. []), dl_pdf = (\<lambda>_. Inr sample_pdf),
     dl_sha256 = (\<lambda>_. ''sum''), dl_page_images = (\<lambda>_. Some []),
     dl_image_size = (\<lambda>_. Some (10, 10)), dl_jpeg = (\<lambda>_ _ _ _. Some ''jpeg''), dl_rewrite = (\<lambda>_. Some ''%PDF-''),
     dl_stamp = (\<lambda>b t. Some (b @ t)), dl_first_pages = (\<lambda>_ _. Some ''pages'')\<rparr>"

text \<open>Small bounds, so that the sample runs evaluate quickly.\<close>

definition small_settings :: automation_settings where
  "small_settings =
     \<lparr>as_max_source_bytes = 100, as_max_decompressed_bytes = 100, as_max_archive_entries = 10,
      as_accepted_formats = [''pdf'', ''epub''], as_excerpt_chars = 20, as_excerpt_max_pages = 2,
      as_thumbnail_width = 4, as_thumbnail_height = 6, as_cover_width = 10, as_cover_height = 15, as_image_quality = 82,
      as_min_compression_gain = 5, as_watermark_enabled = True, as_watermark_text = ''KOS'', as_max_attempts = 5,
      as_retry_base_seconds = 30, as_retry_max_seconds = 60, as_stale_job_seconds = 60, as_job_retention_days = 90,
      as_ai_enabled = False, as_search_indexing_enabled = True, as_auto_publish = False\<rparr>"

definition sample_pipe_env :: pipe_env where
  "sample_pipe_env = \<lparr>pe_settings = small_settings, pe_lib = sample_lib,
     pe_storage = True, pe_services = True,
     pe_head = (\<lambda>_. Inr \<lparr>oh_size = 9, oh_content_type = ''application/pdf'', oh_etag = ''e''\<rparr>),
     pe_get_bytes = (\<lambda>_. Inr ''raw''), pe_put = (\<lambda>_ _. None), pe_get_book = (\<lambda>_. Inr JNull),
     pe_generate = (\<lambda>_. Inr JNull), pe_update_book = (\<lambda>_ _. None), pe_index_book = (\<lambda>_. None),
     pe_publish_book = (\<lambda>_. None), pe_publisher = False, pe_send = (\<lambda>_ _. None), pe_str = (\<lambda>_. ''error'')\<rparr>"

definition sample_clock :: run_clock where
  "sample_clock = \<lparr>rc_start = 1, rc_stage = (\<lambda>_. 2), rc_elapsed = (\<lambda>_. 3), rc_end = 4, rc_jitter = 1000000\<rparr>"

text \<open>A job whose earlier attempt got as far as the upload.\<close>

definition resume_options :: JobOptions where
  "resume_options = \<lparr>op_only_stages = Some [Upload], op_skip_stages = [], op_force_ai_refresh = False,
     op_auto_publish = None, op_watermark = None, op_locale = ''en''\<rparr>"

definition sample_job :: AutomationJob where
  "sample_job = (new_job 1 0 \<lparr>cj_book_id = 7, cj_source_key = ''k'', cj_original_filename = None, cj_source = FromUpload,
     cj_priority = 0, cj_options = resume_options\<rparr> None None None)
     \<lparr>jb_result := [(''watermark'', JObj [(''applied'', JBool True)])]\<rparr>"

definition sample_jobs_db :: automation_db where
  "sample_jobs_db = \<lparr>jobs = [sample_job],
     job_stages = [new_stage 1 Thumbnail StageSucceeded, new_stage 1 Compress StageSucceeded, new_stage 1 Watermark StageSucceeded],
     import_batches = [], automation_events = []\<rparr>"

definition empty_world :: pipe_world where
  "empty_world = \<lparr>pw_objects = [], pw_generated = [], pw_patches = [], pw_indexed = [], pw_published = [], pw_events = []\<rparr>"

lemma sample_stages:
  "(case mark_running sample_jobs_db 1 sample_job of
      Inr (db1, j1) \<Rightarrow>
        (case run_stages sample_pipe_env (HANDLERS sample_pipe_env) sample_clock resume_options PIPELINE
           (start_state sample_pipe_env db1 j1 empty_world) of
           (rs, Continue) \<Rightarrow> rs_completed rs = [Thumbnail, Compress, Watermark, Collect, Upload] | _ \<Rightarrow> False)
    | _ \<Rightarrow> False)"
  by code_simp

lemma run_with_success:
  assumes "synced db j" and "\<not> is_terminal j" and "\<not> pe_publisher env"
    and "mark_running db (rc_start ck) j = Inr (db1, j1)"
    and "run_stages env handle ck (jb_options j) PIPELINE (start_state env db1 j1 w) = (rs, Continue)"
  shows "\<exists>db' w' out. run_with env handle ck db w j = (db', w', Inr out) \<and> ro_status out = JobSucceeded
     \<and> ro_completed out = in_order (rs_completed rs)"
proof -
  obtain db2 j2 where m: "mark_running db (rc_start ck) j = Inr (db2, j2)" "synced db2 j2" "jb_status j2 = JobRunning"
    by (rule mark_running_synced [OF assms(1,2), of "rc_start ck"])
  then have "running (start_state env db1 j1 w)" using assms(4) by (simp add: running_def start_state_def)
  from run_stages_run [OF this assms(5)] have "running rs" by simp
  then have r: "synced (rs_db rs) (rs_job rs)" "jb_status (rs_job rs) = JobRunning" by (simp_all add: running_def)
  let ?b = "(rs_job rs)\<lparr>jb_status := JobSucceeded, jb_current_stage := None, jb_finished_at := Some (rc_end ck),
       jb_error := None, jb_next_attempt_at := None\<rparr>"
  obtain d where "commit_job (rs_db rs) (rs_job rs) ?b = Inr (d, ?b)"
    by (rule commit_running [OF r, of ?b]) (simp_all add: same_identity_def)
  with assms(2-5) show ?thesis
    by (simp add: run_with_def finish_run_def succeed_def emit_completed_def emit_def)
qed

lemma sample_synced: "synced sample_jobs_db sample_job" "\<not> is_terminal sample_job"
  by (simp_all add: synced_def jobs_ok_def active_unique_def sample_jobs_db_def is_terminal_def sample_job_def new_job_def)

lemma sample_run:
  obtains db' w' out where "run_pipeline sample_pipe_env sample_clock sample_jobs_db empty_world sample_job = (db', w', Inr out)"
    "ro_status out = JobSucceeded" "Upload \<in> set (ro_completed out)"
proof -
  obtain db1 j1 where m: "mark_running sample_jobs_db (rc_start sample_clock) sample_job = Inr (db1, j1)"
    by (rule mark_running_synced [OF sample_synced, of "rc_start sample_clock"])
  obtain rs e where r: "run_stages sample_pipe_env (HANDLERS sample_pipe_env) sample_clock resume_options PIPELINE
      (start_state sample_pipe_env db1 j1 empty_world) = (rs, e)" by fastforce
  have "rc_start sample_clock = 1" "jb_options sample_job = resume_options" "\<not> pe_publisher sample_pipe_env"
    by (simp_all add: sample_clock_def sample_job_def new_job_def sample_pipe_env_def)
  note eqs = this
  have e: "e = Continue" "rs_completed rs = [Thumbnail, Compress, Watermark, Collect, Upload]"
    using sample_stages m r by (cases e; simp add: eqs)+
  from run_with_success [OF sample_synced eqs(3) m r [folded eqs(2), unfolded e(1)]] that show ?thesis
    by (auto simp: run_pipeline_def e(2) in_order_def PIPELINE_def)
qed

lemma sample_succeeded:
  "stage_succeeded sample_jobs_db 1 Thumbnail" "stage_succeeded sample_jobs_db 1 Compress"
  "stage_succeeded sample_jobs_db 1 Watermark" "\<not> stage_succeeded sample_jobs_db 1 Upload" "jb_id sample_job = 1"
  by (simp_all add: stage_succeeded_def stage_rows_def stage_is_def sample_jobs_db_def new_stage_def sample_job_def new_job_def)

theorem success_means_required_done_witness:
  "\<exists>db' w' out. run_pipeline sample_pipe_env sample_clock sample_jobs_db empty_world sample_job = (db', w', Inr out)
     \<and> stage_succeeded db' 1 Upload"
proof -
  obtain db' w' out where r: "run_pipeline sample_pipe_env sample_clock sample_jobs_db empty_world sample_job = (db', w', Inr out)"
    "ro_status out = JobSucceeded" by (rule sample_run)
  have "Upload \<in> set REQUIRED_STAGES" "should_run (pe_settings sample_pipe_env) Upload (jb_options sample_job) = None"
    by (simp_all add: REQUIRED_STAGES_def should_run_def sample_job_def new_job_def resume_options_def AI_STAGES_def)
  from success_means_required_done [OF r sample_synced(2) this] r(1) show ?thesis by (auto simp: sample_succeeded(5))
qed

theorem checkpoints_kept_witness:
  "\<exists>db'. automation_run 1 Watermark sample_jobs_db db' \<and> stage_rows db' 1 Watermark = [new_stage 1 Watermark StageSucceeded]"
proof -
  obtain db' w' out where r: "run_pipeline sample_pipe_env sample_clock sample_jobs_db empty_world sample_job = (db', w', Inr out)"
    by (rule sample_run)
  have run: "automation_run 1 Watermark sample_jobs_db db'" by (rule automation_run.ran [OF automation_run.begin1 r])
  from checkpoints_kept [OF run sample_succeeded(3)] run show ?thesis
    by (auto simp: stage_rows_def stage_is_def sample_jobs_db_def new_stage_def)
qed

theorem retries_end_witness:
  "\<exists>db' w' j'. run_again (replicate 5 (sample_pipe_env\<lparr>pe_storage := False\<rparr>, sample_clock)) sample_jobs_db empty_world 1 = (db', w')
     \<and> get_job db' 1 = Inr j' \<and> is_terminal j'"
proof -
  let ?es = "replicate 5 (sample_pipe_env\<lparr>pe_storage := False\<rparr>, sample_clock)"
  obtain db' w' where r: "run_again ?es sample_jobs_db empty_world (jb_id sample_job) = (db', w')" by fastforce
  have "\<forall>e \<in> set ?es. as_max_attempts (pe_settings (fst e)) = 5" "max 1 (5 - jb_attempts sample_job) \<le> length ?es"
    by (simp_all add: sample_pipe_env_def small_settings_def)
  from retries_end [OF sample_synced(1) this r] r show ?thesis by (auto simp: sample_succeeded(5))
qed
subsection \<open>Properties: cancellation and crashes\<close>

lemma update_rows_twice:
  "(\<And>r. P (g r) = P r) \<Longrightarrow> update_rows P f (update_rows P g t) = update_rows P (\<lambda>r. f (g r)) t"
  by (induction t) auto

lemma commit_after_cancel:
  assumes "synced db j" and "jb_status j = JobRunning" and "cancel_job db t j = Inr (db1, j1)" and "jb_source_key b = jb_source_key j"
  obtains db2 where "commit_job db1 j b = Inr (db2, b)"
    "\<exists>r \<in> set (jobs db2). jb_id r = jb_id j \<and> (jb_status b \<noteq> JobRunning \<longrightarrow> jb_status r = jb_status b)"
proof -
  let ?P = "\<lambda>r. jb_id r = jb_id j"
  let ?c = "j\<lparr>jb_status := JobCancelled, jb_current_stage := None, jb_finished_at := Some t, jb_next_attempt_at := None\<rparr>"
  have "jobs db1 = update_rows ?P (flush_job j ?c) (jobs db)"
    using assms(2,3) by (auto simp: cancel_job_def is_terminal_def commit_job_def Let_def split: if_splits)
  then have t: "update_rows ?P (flush_job j b) (jobs db1) = update_rows ?P (\<lambda>r. flush_job j b (flush_job j ?c r)) (jobs db)"
    by (simp add: update_rows_twice)
  have "active_unique (update_rows ?P (flush_job j b) (jobs db1))" unfolding t
  proof (rule active_unique_update)
    show "active_unique (jobs db)" using assms(1) by (simp add: synced_def jobs_ok_def)
    fix r assume "r \<in> set (jobs db)" "jb_id r = jb_id j"
    then have "r = j" using synced_unique [OF assms(1)] by blast
    then show "(job_active (flush_job j b (flush_job j ?c r)) \<longrightarrow> job_active r)
        \<and> jb_source_key (flush_job j b (flush_job j ?c r)) = jb_source_key r"
      using assms(2) by (simp add: ACTIVE_def)
  qed
  moreover have "flush_job j b (flush_job j ?c j) \<in> set (update_rows ?P (flush_job j b) (jobs db1))"
    unfolding t using assms(1) by (force simp: set_update_rows synced_def)
  moreover have "jb_status b \<noteq> JobRunning \<Longrightarrow> jb_status (flush_job j b (flush_job j ?c j)) = jb_status b"
    using assms(2) by (simp add: flush_job_def flush_col_def)
  ultimately show ?thesis
    by (intro that [of "db1\<lparr>jobs := update_rows ?P (flush_job j b) (jobs db1)\<rparr>"]
        bexI [of _ "flush_job j b (flush_job j ?c j)"]) (simp_all add: commit_job_def)
qed

text \<open>
  Cancelling a running job does not stop it. The worker holds the job as it loaded it and
  never looks at the row again: when a stage of the cancelled job fails and attempts are left,
  the job is scheduled for another attempt, and when the stages go through, the job ends as
  succeeded.
\<close>

lemma cancellation_undone:
  assumes "synced db j" and "jb_status j = JobRunning" and "cancel_job db t j = Inr (db1, j1)"
    and "jb_attempts j < as_max_attempts st"
  shows "(\<exists>db2 j2. schedule_retry st db1 now jitter j err = Inr (db2, j2, True)
       \<and> (\<exists>r \<in> set (jobs db2). jb_id r = jb_id j \<and> jb_status r = JobRetrying))
     \<and> (\<exists>db2 j2. succeed db1 now j = Inr (db2, j2)
       \<and> (\<exists>r \<in> set (jobs db2). jb_id r = jb_id j \<and> jb_status r = JobSucceeded))"
proof
  let ?retry = "j\<lparr>jb_error := Some (take 4000 err), jb_status := JobRetrying,
            jb_next_attempt_at := Some (now + int (backoff_seconds st (jb_attempts j)) * jitter)\<rparr>"
  obtain db2 where "commit_job db1 j ?retry = Inr (db2, ?retry)"
      "\<exists>r \<in> set (jobs db2). jb_id r = jb_id j \<and> (jb_status ?retry \<noteq> JobRunning \<longrightarrow> jb_status r = jb_status ?retry)"
    by (rule commit_after_cancel [OF assms(1-3), of ?retry]) simp
  with assms(4) show "\<exists>db2 j2. schedule_retry st db1 now jitter j err = Inr (db2, j2, True)
       \<and> (\<exists>r \<in> set (jobs db2). jb_id r = jb_id j \<and> jb_status r = JobRetrying)"
    by (simp add: schedule_retry_def Let_def)
  let ?done = "j\<lparr>jb_status := JobSucceeded, jb_current_stage := None, jb_finished_at := Some now,
       jb_error := None, jb_next_attempt_at := None\<rparr>"
  obtain db3 where "commit_job db1 j ?done = Inr (db3, ?done)"
      "\<exists>r \<in> set (jobs db3). jb_id r = jb_id j \<and> (jb_status ?done \<noteq> JobRunning \<longrightarrow> jb_status r = jb_status ?done)"
    by (rule commit_after_cancel [OF assms(1-3), of ?done]) simp
  then show "\<exists>db2 j2. succeed db1 now j = Inr (db2, j2)
       \<and> (\<exists>r \<in> set (jobs db2). jb_id r = jb_id j \<and> jb_status r = JobSucceeded)"
    by (simp add: succeed_def)
qed

text \<open>A worker that dies during each attempt: the job is started, and later swept up as stale.\<close>

fun crash_cycles :: "automation_settings \<Rightarrow> nat \<Rightarrow> timestamp \<Rightarrow> automation_db \<Rightarrow> uuid \<Rightarrow> automation_db result" where
  "crash_cycles st 0 t db k = Inr db"
| "crash_cycles st (Suc n) t db k =
     (case get_job db k of Inl e \<Rightarrow> Inl e
      | Inr j \<Rightarrow> (case mark_running db t j of Inl e \<Rightarrow> Inl e
          | Inr (db1, j1) \<Rightarrow>
              let t1 = t + int (as_stale_job_seconds st) * 1000000 + 1 in
              crash_cycles st n t1 (fst (requeue_stale st db1 t1)) k))"

lemma requeue_synced:
  assumes "synced db j" and "is_stale st now j"
  shows "synced (fst (requeue_stale st db now)) (j\<lparr>jb_status := JobQueued, jb_current_stage := None, jb_next_attempt_at := None\<rparr>)"
proof -
  let ?f = "\<lambda>j. j\<lparr>jb_status := JobQueued, jb_current_stage := None, jb_next_attempt_at := None\<rparr>"
  have "active_unique (update_rows (is_stale st now) ?f (jobs db))"
    using assms(1) by (intro active_unique_update) (auto simp: synced_def jobs_ok_def is_stale_def ACTIVE_def)
  moreover have "?f j \<in> set (update_rows (is_stale st now) ?f (jobs db))"
    using assms by (force simp: set_update_rows synced_def)
  ultimately show ?thesis using assms(1)
    by (simp add: requeue_stale_def synced_def jobs_ok_def map_update_rows)
qed

text \<open>The sweep of stale jobs is outside the retry budget: a job that kills its worker is run forever.\<close>

lemma crashes_never_dead_letter:
  assumes "synced db j" and "\<not> is_terminal j"
  shows "\<exists>db' j'. crash_cycles st n t db (jb_id j) = Inr db' \<and> get_job db' (jb_id j) = Inr j'
     \<and> \<not> is_terminal j' \<and> jb_attempts j' = jb_attempts j + n"
  using assms
proof (induction n arbitrary: db j t)
  case (Suc n db j t)
  let ?t1 = "t + int (as_stale_job_seconds st) * 1000000 + 1"
  obtain db1 j1 where m: "mark_running db t j = Inr (db1, j1)" "synced db1 j1" "jb_status j1 = JobRunning"
      "same_identity j j1" "jb_attempts j1 = Suc (jb_attempts j)" by (rule mark_running_synced [OF Suc.prems, of t])
  have hb: "jb_heartbeat_at j1 = Some t" using m(1) unfolding mark_running_def by (drule_tac commit_job_stages) simp
  let ?j2 = "j1\<lparr>jb_status := JobQueued, jb_current_stage := None, jb_next_attempt_at := None\<rparr>"
  have "is_stale st ?t1 j1" using m(3) hb by (simp add: is_stale_def)
  then have "synced (fst (requeue_stale st db1 ?t1)) ?j2" by (rule requeue_synced [OF m(2)])
  from Suc.IH [OF this] m(1,4,5) synced_get [OF Suc.prems(1)] show ?case
    by (auto simp: is_terminal_def same_identity_def Let_def)
qed (simp add: synced_get)

end
