(* ===== verification/Automation_Artefacts.thy ===== *)
theory Automation_Artefacts
  imports Automation_Pipeline
begin

section \<open>What a run leaves in storage\<close>

text \<open>
  Which objects a run of the pipeline writes. The stages hand the artefacts they derive to the
  upload stage through the context of the run, and only what the checkpoint keeps survives
  between attempts. Tracking both through \<open>run_stages\<close> shows which covers never arrive and
  what a resumed run ships as the copy for distribution.
\<close>

subsection \<open>Lemmas: what reaches storage\<close>

lemma emit_objects: "pw_objects (fst (emit env w event p)) = pw_objects w"
  by (auto simp: emit_def split: option.splits)

lemma stage_ends_world:
  assumes "stage_ends env ck s out rs = (rs', end1)"
  shows "pw_objects (rs_world rs') = pw_objects (rs_world rs)"
    and "rs_ctx rs' = (case out of Output d \<Rightarrow> (rs_ctx rs)\<lparr>sx_result := dict_update (sx_result (rs_ctx rs)) d\<rparr> | _ \<Rightarrow> rs_ctx rs)"
    and "s' \<in> set (rs_completed rs') \<Longrightarrow> s' \<in> set (rs_completed rs) \<or> s' = s \<and> (\<exists>d. out = Output d)"
  using assms
  by (auto simp: stage_ends_def stage_skipped_def stage_completed_def stage_raised_def after_emit_def emit_failed_def
      emit_objects Let_def split: handler_outcome.splits if_splits sum.splits prod.splits bool.splits)

lemma run_stages_append:
  "run_stages env handle ck opts (xs @ ys) rs =
     (case run_stages env handle ck opts xs rs of (rs', Continue) \<Rightarrow> run_stages env handle ck opts ys rs' | stopped \<Rightarrow> stopped)"
  by (induction xs arbitrary: rs) (auto split: prod.splits stage_end.splits)

text \<open>
  A predicate of the context and of storage that every stage of a list keeps holds at the end
  of running them, however they end.
\<close>

lemma run_stages_invariant:
  assumes "run_stages env handle ck opts ss rs = (rs', end1)" and "P (rs_ctx rs) (pw_objects (rs_world rs))"
    and keeps: "\<And>s (rs :: run_state) ctx' w' out. s \<in> S \<Longrightarrow> \<not> (s \<in> set (rs_completed rs) \<and> s \<noteq> Collect) \<Longrightarrow>
       C \<subseteq> set (rs_completed rs) \<Longrightarrow>
       P (rs_ctx rs) (pw_objects (rs_world rs)) \<Longrightarrow> handle s (rs_ctx rs) (rs_world rs) = (ctx', w', out) \<Longrightarrow>
       P (case out of Output d \<Rightarrow> ctx'\<lparr>sx_result := dict_update (sx_result ctx') d\<rparr> | _ \<Rightarrow> ctx') (pw_objects w')"
    and "C \<subseteq> set (rs_completed rs)" and "Collect \<notin> C" and "set ss \<subseteq> S"
  shows "P (rs_ctx rs') (pw_objects (rs_world rs'))"
  using assms(1,2,4,6)
proof (induction ss arbitrary: rs)
  case (Cons s ss)
  obtain rs1 e1 where s: "run_stage env handle ck opts s rs = (rs1, e1)" by fastforce
  have "C \<subseteq> set (rs_completed rs1)" using Cons.prems(3) run_stage_rows [OF s] assms(5) by blast
  moreover have "P (rs_ctx rs1) (pw_objects (rs_world rs1))" using s
  proof (cases rule: run_stage_cases)
    case (declined r)
    with Cons.prems(2) show ?thesis by (auto simp: stage_skipped_def)
  next
    case (ran db' j' ctx' w' out)
    from keeps [OF _ ran(5) Cons.prems(3,2) ran(3)] Cons.prems(4) stage_ends_world(1,2) [OF ran(4)] show ?thesis
      by (auto split: handler_outcome.splits)
  qed (use Cons.prems(2) in simp_all)
  ultimately show ?thesis using Cons.IH [of rs1] Cons.prems(1,4) s by (cases e1) auto
qed simp

text \<open>Every run passes through \<open>run_stages\<close> or leaves the world alone.\<close>

lemma run_with_stages [consumes 1, case_names untouched ran]:
  assumes "run_with env handle ck db w j = (db', w', res)"
  obtains "w' = w" "\<And>out. res = Inr out \<Longrightarrow> ro_completed out = in_order (completed_stages db (jb_id j))"
  | db1 j1 rs e where "mark_running db (rc_start ck) j = Inr (db1, j1)"
      "run_stages env handle ck (jb_options j) PIPELINE (start_state env db1 j1 w) = (rs, e)"
      "pw_objects w' = pw_objects (rs_world rs)"
      "\<And>out s. res = Inr out \<Longrightarrow> s \<in> set (ro_completed out) \<Longrightarrow> s \<in> set (rs_completed rs)"
proof (cases "is_terminal j \<or> (\<exists>x. mark_running db (rc_start ck) j = Inl x)")
  case True
  show ?thesis by (rule that(1)) (use assms True in \<open>auto simp: run_with_def split: if_splits\<close>)
next
  case False
  then obtain db1 j1 where m: "mark_running db (rc_start ck) j = Inr (db1, j1)"
    by (cases "mark_running db (rc_start ck) j") auto
  obtain rs e where r: "run_stages env handle ck (jb_options j) PIPELINE (start_state env db1 j1 w) = (rs, e)" by fastforce
  have fin: "pw_objects w2 = pw_objects (rs_world rs) \<and> (\<forall>out. res2 = Inr out \<longrightarrow> ro_completed out = in_order (rs_completed rs))"
    if "finish_run env ck rs = (db2, w2, res2)" for db2 w2 res2
    using that emit_objects [of env "rs_world rs"]
    by (auto simp: finish_run_def emit_completed_def split: sum.splits prod.splits option.splits) (metis fst_conv)+
  show ?thesis
  proof (rule that(2) [OF m r])
    show "pw_objects w' = pw_objects (rs_world rs)" using assms False m r fin by (cases e) (auto simp: run_with_def)
    show "s \<in> set (rs_completed rs)" if "res = Inr out" "s \<in> set (ro_completed out)" for out s
    proof (cases e)
      case (Return out1)
      with assms False m r that(1) have "out1 = out" by (simp add: run_with_def)
      with run_stages_return [OF r [unfolded Return]] that(2) show ?thesis by blast
    qed (use assms False m r fin that in \<open>auto simp: run_with_def in_order_def\<close>)
  qed
qed

lemma map_of_dict_update_other: "k \<notin> fst ` set e \<Longrightarrow> map_of (dict_update d e) k = map_of d k"
  unfolding dict_update_def by (induction e arbitrary: d) auto

lemma run_stages_completed:
  "run_stages env handle ck opts ss rs = (rs', e) \<Longrightarrow> set (rs_completed rs') \<subseteq> set (rs_completed rs) \<union> set ss"
proof (induction ss arbitrary: rs)
  case (Cons s ss)
  obtain rs1 e1 where s: "run_stage env handle ck opts s rs = (rs1, e1)" by fastforce
  have "set (rs_completed rs1) \<subseteq> insert s (set (rs_completed rs))" using s
  proof (cases rule: run_stage_cases)
    case (declined r)
    then show ?thesis by (auto simp: stage_skipped_def)
  next
    case (ran db' j' ctx' w' out)
    from stage_ends_world(3) [OF ran(4)] show ?thesis by auto
  qed auto
  with Cons s show ?case by (cases e1) auto
qed simp

lemma keys_differ: "artefact_key ctx n x \<noteq> public_key ctx' m y"
  by (simp add: artefact_key_def public_key_def)

lemma put_all_other:
  "put_all env w pending = (w', r) \<Longrightarrow> key \<notin> fst ` set pending \<Longrightarrow> map_of (pw_objects w') key = map_of (pw_objects w) key"
proof (induction pending arbitrary: w r w')
  case (Cons p pending)
  obtain k c b where p: "p = (k, c, b)" by (cases p)
  show ?case
  proof (cases "pe_put env k b")
    case None
    obtain w1 r1 where n: "put_all env (w\<lparr>pw_objects := dict_set (pw_objects w) k (c, b)\<rparr>) pending = (w1, r1)" by fastforce
    with Cons.prems None have "w' = w1" by (auto simp: p split: sum.splits)
    with Cons.IH [OF n] Cons.prems(2) show ?thesis by (simp add: p)
  qed (use Cons.prems in \<open>simp add: p\<close>)
qed simp

lemma put_all_stored:
  "put_all env w pending = (w', Inr written) \<Longrightarrow> distinct (map fst pending) \<Longrightarrow> (key, v) \<in> set pending
     \<Longrightarrow> map_of (pw_objects w') key = Some v"
proof (induction pending arbitrary: w written)
  case (Cons p pending)
  obtain k c b where p: "p = (k, c, b)" by (cases p)
  let ?w = "w\<lparr>pw_objects := dict_set (pw_objects w) k (c, b)\<rparr>"
  obtain ws where n: "put_all env ?w pending = (w', Inr ws)"
    using Cons.prems(1) by (auto simp: p split: option.splits prod.splits sum.splits)
  show ?case
  proof (cases "(key, v) \<in> set pending")
    case True
    with Cons.IH [OF n] Cons.prems(2) show ?thesis by simp
  next
    case False
    with Cons.prems(2,3) have "key = k" "v = (c, b)" "k \<notin> fst ` set pending" by (auto simp: p)
    with put_all_other [OF n] show ?thesis by simp
  qed
qed simp

lemma upload_objects:
  assumes "upload env ctx w = (ctx', w', out)" and "public_key ctx0 n x \<notin> fst ` set (ctx_uploads ctx)"
  shows "map_of (pw_objects w') (public_key ctx0 n x) = map_of (pw_objects w) (public_key ctx0 n x)"
proof -
  have "public_key ctx0 n x \<notin> fst ` set (pending_uploads ctx)"
    using assms(2) by (auto simp: pending_uploads_def keys_dict_set keys_differ [symmetric] split: option.splits if_splits)
  with assms(1) put_all_other show ?thesis by (auto simp: upload_def split: if_splits prod.splits sum.splits)
qed

lemma initial_uploads: "ctx_uploads (initial_context env j) = []"
proof -
  have "map_of (map (\<lambda>(k, v). (k, VJson v)) r) k \<noteq> Some (VUploads u)" for r :: jobj and k u
    by (induction r) auto
  then show ?thesis
    by (auto simp: ctx_uploads_def initial_context_def Let_def split: option.splits ctx_value.splits if_splits)
qed

text \<open>The uploads that are pending after a stage: replaced, never merged.\<close>

lemma uploads_after:
  assumes "HANDLERS env s ctx w = (ctx', w', out)" and "s \<noteq> Thumbnail"
  defines "ctx2 \<equiv> (case out of Output d \<Rightarrow> ctx'\<lparr>sx_result := dict_update (sx_result ctx') d\<rparr> | _ \<Rightarrow> ctx')"
  shows "sx_book_id ctx2 = sx_book_id ctx" and "fst ` set (ctx_uploads ctx2) \<subseteq> fst ` set (ctx_uploads ctx) \<union> {artefact_key ctx ''sample'' ''pdf''}"
    and "s = Convert \<Longrightarrow> out = Output d \<Longrightarrow> fst ` set (ctx_uploads ctx2) = {artefact_key ctx ''sample'' ''pdf''}"
proof -
  note eff = handler_effects [OF assms(1)]
  have res: "sx_result ctx' = sx_result ctx" "sx_book_id ctx' = sx_book_id ctx" using eff(1) by auto
  show "sx_book_id ctx2 = sx_book_id ctx" using res by (simp add: ctx2_def split: handler_outcome.split)
  have conv: "fst ` set (ctx_uploads ctx2) = {artefact_key ctx ''sample'' ''pdf''}" if "s = Convert" "out = Output d" for d
    using assms(1) that by (auto simp: ctx2_def HANDLERS_def convert_def ctx_uploads_def dict_update_def Let_def
        split: sum.splits if_splits option.splits)
  then show "s = Convert \<Longrightarrow> out = Output d \<Longrightarrow> fst ` set (ctx_uploads ctx2) = {artefact_key ctx ''sample'' ''pdf''}" .
  show "fst ` set (ctx_uploads ctx2) \<subseteq> fst ` set (ctx_uploads ctx) \<union> {artefact_key ctx ''sample'' ''pdf''}"
  proof (cases out)
    case (Output d)
    consider "s = Convert" | "s = Upload" | "s \<noteq> Convert" "s \<noteq> Upload" by blast
    then show ?thesis
    proof cases
      case 2
      with assms(1) Output have "map_of (rev d) ''_pending_uploads'' = Some (VUploads [])"
        by (auto simp: HANDLERS_def upload_def split: if_splits prod.splits sum.splits)
      then have "ctx_uploads ctx2 = []" by (simp add: Output ctx2_def ctx_uploads_def map_of_dict_update)
      then show ?thesis by simp
    next
      case 3
      with assms(2) have "''_pending_uploads'' \<notin> set (stage_keys s)" by (cases s) simp_all
      with eff(4) [OF Output] have "''_pending_uploads'' \<notin> fst ` set d" by blast
      then have "ctx_uploads ctx2 = ctx_uploads ctx"
        by (simp add: Output ctx2_def ctx_uploads_def res map_of_dict_update_other)
      then show ?thesis by auto
    qed (use conv Output in simp)
  qed (auto simp: ctx2_def ctx_uploads_def res)
qed

text \<open>The context after a handler, as the runner continues with it.\<close>

definition ctx_after :: "StageContext \<Rightarrow> handler_outcome \<Rightarrow> StageContext" where
  "ctx_after ctx out =
     (case out of Output d \<Rightarrow> ctx\<lparr>sx_result := dict_update (sx_result ctx) d\<rparr> | _ \<Rightarrow> ctx)"

text \<open>The object under \<open>key\<close> is still \<open>v\<close> and nothing is pending for it.\<close>

definition unstored ::
  "string \<Rightarrow> (string \<times> bytes) option \<Rightarrow> StageContext \<Rightarrow> (string \<times> string \<times> bytes) list \<Rightarrow> bool" where
  "unstored key v ctx objs \<longleftrightarrow> map_of objs key = v \<and> key \<notin> fst ` set (ctx_uploads ctx)"

lemma unstored_step:
  assumes "HANDLERS env s ctx w = (ctx', w', out)" and "s \<noteq> Thumbnail" and "key = public_key ctx0 n x"
    and "unstored key v ctx (pw_objects w)"
  shows "unstored key v (ctx_after ctx' out) (pw_objects w')"
proof -
  have "map_of (pw_objects w') key = map_of (pw_objects w) key"
  proof (cases "s = Upload")
    case True
    with assms(1) have "upload env ctx w = (ctx', w', out)" by (simp add: HANDLERS_def)
    from upload_objects [OF this] assms(3,4) show ?thesis by (simp add: unstored_def)
  qed (simp add: handler_effects(3) [OF assms(1)])
  moreover have "key \<noteq> artefact_key ctx ''sample'' ''pdf''" using assms(3) keys_differ by metis
  ultimately show ?thesis using assms(4) uploads_after(2) [OF assms(1,2)]
    unfolding unstored_def ctx_after_def by blast
qed

lemma convert_unstored:
  assumes "HANDLERS env Convert ctx w = (ctx', w', Output d)" and "key = public_key ctx0 n x"
    and "map_of (pw_objects w) key = v"
  shows "unstored key v (ctx_after ctx' (Output d)) (pw_objects w')"
proof -
  have "fst ` set (ctx_uploads (ctx_after ctx' (Output d))) = {artefact_key ctx ''sample'' ''pdf''}"
    using uploads_after(3) [OF assms(1)] by (simp add: ctx_after_def)
  moreover have "key \<noteq> artefact_key ctx ''sample'' ''pdf''" using assms(2) keys_differ by metis
  moreover have "pw_objects w' = pw_objects w" using handler_effects(3) [OF assms(1)] by simp
  ultimately show ?thesis using assms(3) by (simp add: unstored_def)
qed

lemma run_unstored:
  assumes "run_stages env (HANDLERS env) ck opts ss rs = (rs', e)" and "key = public_key ctx0 n x"
    and "unstored key v (rs_ctx rs) (pw_objects (rs_world rs))"
    and "Thumbnail \<in> set (rs_completed rs) \<or> Thumbnail \<notin> set ss"
  shows "unstored key v (rs_ctx rs') (pw_objects (rs_world rs'))"
proof (rule run_stages_invariant [where P = "unstored key v" and S = "set ss" and
      C = "if Thumbnail \<in> set (rs_completed rs) then {Thumbnail} else {}", OF assms(1,3)])
  fix s r ctx' w' out
  assume s: "s \<in> set ss" "\<not> (s \<in> set (rs_completed r) \<and> s \<noteq> Collect)"
    "(if Thumbnail \<in> set (rs_completed rs) then {Thumbnail} else {}) \<subseteq> set (rs_completed r)"
    and u: "unstored key v (rs_ctx r) (pw_objects (rs_world r))" and h: "HANDLERS env s (rs_ctx r) (rs_world r) = (ctx', w', out)"
  have "s \<noteq> Thumbnail" using s assms(4) by (auto split: if_splits)
  from unstored_step [OF h this assms(2) u] show "unstored key v
     (case out of Output d \<Rightarrow> ctx'\<lparr>sx_result := dict_update (sx_result ctx') d\<rparr> | _ \<Rightarrow> ctx') (pw_objects w')"
    by (simp add: ctx_after_def)
qed auto

lemma run_objects_kept:
  assumes "run_stages env (HANDLERS env) ck opts ss rs = (rs', e)" and "Upload \<notin> set ss"
  shows "pw_objects (rs_world rs') = pw_objects (rs_world rs)"
proof -
  have "(\<lambda>ctx objs. objs = pw_objects (rs_world rs)) (rs_ctx rs') (pw_objects (rs_world rs'))"
  proof (rule run_stages_invariant [where S = "set ss" and C = "{}", OF assms(1)])
    fix s r ctx' w' out
    assume "s \<in> set ss" "pw_objects (rs_world r) = pw_objects (rs_world rs)"
      "HANDLERS env s (rs_ctx r) (rs_world r) = (ctx', w', out)"
    then show "pw_objects w' = pw_objects (rs_world rs)"
      using handler_effects(3) [of env s "rs_ctx r" "rs_world r" ctx' w' out] assms(2) by metis
  qed simp_all
  then show ?thesis .
qed

lemma pipeline_split:
  "PIPELINE = [Collect, Validate, ExtractMetadata, GenerateDescription, Seo, Tags, Thumbnail]
     @ Convert # [Compress, Watermark, Upload, Index, Publish]"
  by (simp add: PIPELINE_def)

lemma run_stages_through:
  assumes "run_stages env handle ck opts (xs @ s # ys) rs = (rs', e)"
    and "s \<notin> set (rs_completed rs)" and "s \<notin> set xs" and "s \<notin> set ys" and "s \<in> set (rs_completed rs')"
  obtains rs1 rs2 e2 where "run_stages env handle ck opts xs rs = (rs1, Continue)" "s \<notin> set (rs_completed rs1)"
    "run_stage env handle ck opts s rs1 = (rs2, e2)" "s \<in> set (rs_completed rs2)"
    "e2 = Continue \<and> run_stages env handle ck opts ys rs2 = (rs', e) \<or> e2 \<noteq> Continue \<and> rs' = rs2"
proof -
  obtain rs1 e1 where pre: "run_stages env handle ck opts xs rs = (rs1, e1)" by fastforce
  have no1: "s \<notin> set (rs_completed rs1)" using run_stages_completed [OF pre] assms(2,3) by blast
  have e1: "e1 = Continue" using assms(1,5) no1 pre unfolding run_stages_append by (cases e1) simp_all
  obtain rs2 e2 where s: "run_stage env handle ck opts s rs1 = (rs2, e2)" by fastforce
  have rest: "e2 = Continue \<and> run_stages env handle ck opts ys rs2 = (rs', e) \<or> e2 \<noteq> Continue \<and> rs' = rs2"
    using assms(1) pre e1 s unfolding run_stages_append by (cases e2) auto
  then have "s \<in> set (rs_completed rs2)" using assms(4,5) run_stages_completed by blast
  from that [OF pre [unfolded e1] no1 s this rest] show ?thesis .
qed

lemma convert_replaces_uploads:
  assumes "run_stages env (HANDLERS env) ck opts PIPELINE rs = (rs', e)" and "key = public_key ctx0 n x"
    and "Convert \<notin> set (rs_completed rs)" and "Convert \<in> set (rs_completed rs')"
  shows "map_of (pw_objects (rs_world rs')) key = map_of (pw_objects (rs_world rs)) key"
proof -
  let ?v = "map_of (pw_objects (rs_world rs)) key"
  obtain rs1 rs2 e2 where pre: "run_stages env (HANDLERS env) ck opts
        [Collect, Validate, ExtractMetadata, GenerateDescription, Seo, Tags, Thumbnail] rs = (rs1, Continue)"
    and no1: "Convert \<notin> set (rs_completed rs1)" and s: "run_stage env (HANDLERS env) ck opts Convert rs1 = (rs2, e2)"
    and yes2: "Convert \<in> set (rs_completed rs2)"
    and rest: "e2 = Continue \<and> run_stages env (HANDLERS env) ck opts [Compress, Watermark, Upload, Index, Publish] rs2 = (rs', e)
        \<or> e2 \<noteq> Continue \<and> rs' = rs2"
    by (rule run_stages_through [OF assms(1) [unfolded pipeline_split] assms(3) _ _ assms(4)]) simp_all
  have same1: "pw_objects (rs_world rs1) = pw_objects (rs_world rs)" by (rule run_objects_kept [OF pre]) simp
  from s have "unstored key ?v (rs_ctx rs2) (pw_objects (rs_world rs2))"
  proof (cases rule: run_stage_cases)
    case (ran db' j' ctx' w' out)
    from stage_ends_world(3) [OF ran(4) yes2] no1 obtain d where d: "out = Output d" by auto
    have "unstored key ?v (ctx_after ctx' (Output d)) (pw_objects w')"
      by (rule convert_unstored [OF ran(3) [unfolded d] assms(2)]) (simp add: same1)
    then show ?thesis using stage_ends_world(1,2) [OF ran(4)] by (simp add: d ctx_after_def)
  qed (use no1 yes2 in \<open>auto simp: stage_skipped_def\<close>)
  moreover from this have "unstored key ?v (rs_ctx rs') (pw_objects (rs_world rs'))"
    if "run_stages env (HANDLERS env) ck opts [Compress, Watermark, Upload, Index, Publish] rs2 = (rs', e)"
    by (rule run_unstored [OF that assms(2)]) simp
  ultimately show ?thesis using rest by (auto simp: unstored_def)
qed

text \<open>
  A cover that is derived is not stored. When the pipeline cuts a sample from the file, the
  pending uploads of the sample stage replace those of the thumbnail stage, so the run does not
  store the cover it has rendered; and when a failed job is resumed after the thumbnail stage
  has succeeded, the rendered images, which are not checkpointed, are gone. In both cases the
  object under the cover's key stays what it was, even when the job succeeds.
\<close>

lemma covers_lost:
  assumes "run_pipeline env ck db w j = (db', w', Inr out)"
    and "stage_succeeded db (jb_id j) Thumbnail
       \<or> \<not> stage_succeeded db (jb_id j) Convert \<and> Convert \<in> set (ro_completed out)"
  shows "map_of (pw_objects w') (public_key (initial_context env j) ''cover'' ''jpg'')
       = map_of (pw_objects w) (public_key (initial_context env j) ''cover'' ''jpg'')"
  using assms(1) [unfolded run_pipeline_def]
proof (cases rule: run_with_stages)
  case (ran db1 j1 rs e)
  let ?rs0 = "start_state env db1 j1 w" and ?key = "public_key (initial_context env j) ''cover'' ''jpg''"
  have j1: "jb_id j1 = jb_id j" using ran(1) unfolding mark_running_def by (drule_tac commit_job_stages) simp
  have began: "s \<in> set (rs_completed ?rs0) \<longleftrightarrow> stage_succeeded db (jb_id j) s" for s
    using job_ops_rows(1) [OF ran(1), of "jb_id j" s]
    by (simp add: start_state_def completed_stages_set stage_succeeded_def j1)
  show ?thesis
  proof (cases "stage_succeeded db (jb_id j) Thumbnail")
    case True
    have "unstored ?key (map_of (pw_objects w) ?key) (rs_ctx ?rs0) (pw_objects (rs_world ?rs0))"
      by (simp add: unstored_def start_state_def initial_uploads)
    from run_unstored [OF ran(2) refl this] True began ran(3) show ?thesis by (simp add: unstored_def)
  next
    case False
    with assms(2) have "Convert \<notin> set (rs_completed ?rs0)" "Convert \<in> set (rs_completed rs)"
      using began ran(4) by auto
    from convert_replaces_uploads [OF ran(2) refl this] ran(3) show ?thesis by (simp add: start_state_def)
  qed
qed simp

subsection \<open>Lemmas: the working copy of a resumed run\<close>

lemma ctx_after_simps [simp]:
  "sx_payload (ctx_after ctx out) = sx_payload ctx" "sx_job_id (ctx_after ctx out) = sx_job_id ctx"
  "sx_book_id (ctx_after ctx out) = sx_book_id ctx" "sx_source_key (ctx_after ctx out) = sx_source_key ctx"
  by (simp_all add: ctx_after_def split: handler_outcome.split)

lemma ctx_json_after:
  assumes "HANDLERS env s ctx w = (ctx', w', out)" and "k \<notin> set (stage_keys s)"
  shows "ctx_json (ctx_after ctx' out) k = ctx_json ctx k"
proof -
  have res: "sx_result ctx' = sx_result ctx" using handler_effects(1) [OF assms(1)] by auto
  show ?thesis
  proof (cases out)
    case (Output d)
    have "k \<notin> fst ` set d" using handler_effects(4) [OF assms(1) Output] assms(2) by blast
    then show ?thesis by (simp add: Output ctx_after_def ctx_json_def res map_of_dict_update_other)
  qed (simp_all add: ctx_after_def ctx_json_def res)
qed

lemma uploads_distinct:
  assumes "HANDLERS env s ctx w = (ctx', w', out)" and "distinct (map fst (ctx_uploads ctx))"
  shows "distinct (map fst (ctx_uploads (ctx_after ctx' out)))"
proof (cases out)
  case (Output d)
  have res: "sx_result ctx' = sx_result ctx" using handler_effects(1) [OF assms(1)] by auto
  consider "s = Thumbnail" | "s = Convert" | "s = Upload" | "s \<notin> set [Thumbnail, Convert, Upload]" by auto
  then show ?thesis
  proof cases
    case 1
    with assms(1) Output show ?thesis
      by (auto simp: ctx_after_def HANDLERS_def thumbnail_def ctx_uploads_def dict_update_def public_key_def Let_def
          split: sum.splits if_splits option.splits)
  next
    case 2
    with assms(1) Output show ?thesis
      by (auto simp: ctx_after_def HANDLERS_def convert_def ctx_uploads_def dict_update_def
          split: sum.splits if_splits option.splits)
  next
    case 3
    with assms(1) Output show ?thesis
      by (auto simp: ctx_after_def HANDLERS_def upload_def ctx_uploads_def dict_update_def
          split: sum.splits if_splits prod.splits)
  next
    case 4
    then have "''_pending_uploads'' \<notin> set (stage_keys s)" by (cases s) simp_all
    with handler_effects(4) [OF assms(1) Output] have "''_pending_uploads'' \<notin> fst ` set d" by blast
    then show ?thesis using assms(2) by (simp add: Output ctx_after_def ctx_uploads_def res map_of_dict_update_other)
  qed
next
  case (StageSkipped r)
  with handler_effects(1) [OF assms(1)] assms(2) show ?thesis by (auto simp: ctx_after_def ctx_uploads_def)
next
  case (Raised e)
  with handler_effects(1) [OF assms(1)] assms(2) show ?thesis by (auto simp: ctx_after_def ctx_uploads_def)
qed

text \<open>The context of a run of the job of \<open>ctx0\<close> whose earlier attempt recorded a transformation.\<close>

definition resumes :: "StageContext \<Rightarrow> StageContext \<Rightarrow> bool" where
  "resumes ctx0 ctx \<longleftrightarrow> sx_job_id ctx = sx_job_id ctx0 \<and> sx_book_id ctx = sx_book_id ctx0
     \<and> sx_source_key ctx = sx_source_key ctx0 \<and> transformed ctx \<and> distinct (map fst (ctx_uploads ctx))"

lemma resumes_step:
  assumes "HANDLERS env s ctx w = (ctx', w', out)" and "s \<notin> {Compress, Watermark}" and "resumes ctx0 ctx"
  shows "resumes ctx0 (ctx_after ctx' out)"
proof -
  have "''compression'' \<notin> set (stage_keys s)" "''watermark'' \<notin> set (stage_keys s)" using assms(2) by (cases s; simp)+
  with ctx_json_after [OF assms(1)] have "transformed (ctx_after ctx' out) = transformed ctx"
    by (simp add: transformed_def)
  with assms(3) handler_effects(1) [OF assms(1)] uploads_distinct [OF assms(1)] show ?thesis
    by (auto simp: resumes_def)
qed

lemma upload_stores_payload:
  assumes "upload env ctx w = (ctx', w', Output d)" and "resumes ctx0 ctx" and "sx_payload ctx = Some body"
  shows "\<exists>ct. map_of (pw_objects w') (artefact_key ctx0 ''distribution'' (upload_format ctx)) = Some (ct, body)"
proof -
  let ?key = "artefact_key ctx ''distribution'' (upload_format ctx)"
  obtain ct where p: "pending_uploads ctx = dict_set (ctx_uploads ctx) ?key (ct, body)"
    using assms(2,3) by (auto simp: pending_uploads_def resumes_def)
  have "map_of (pending_uploads ctx) ?key = Some (ct, body)" by (simp add: p)
  then have "(?key, ct, body) \<in> set (pending_uploads ctx)" by (rule map_of_SomeD)
  moreover have "distinct (map fst (pending_uploads ctx))"
    using assms(2) unfolding p resumes_def by (simp add: distinct_keys_dict_set)
  moreover obtain written where "put_all env w (pending_uploads ctx) = (w', Inr written)"
    using assms(1) by (auto simp: upload_def split: if_splits prod.splits sum.splits)
  ultimately have "map_of (pw_objects w') ?key = Some (ct, body)" by (intro put_all_stored)
  moreover have "?key = artefact_key ctx0 ''distribution'' (upload_format ctx)"
    using assms(2) by (simp add: resumes_def artefact_key_def)
  ultimately show ?thesis by auto
qed

lemma collect_loads:
  assumes "run_stage env (HANDLERS env) ck opts Collect rs = (rs', Continue)"
    and "should_run (pe_settings env) Collect opts = None" and "resumes ctx0 (rs_ctx rs)"
  obtains body where "pe_get_bytes env (sx_source_key ctx0) = Inr body" "sx_payload (rs_ctx rs') = Some body"
    "resumes ctx0 (rs_ctx rs')"
  using assms(1)
proof (cases rule: run_stage_cases)
  case (ran db' j' ctx' w' out)
  have "\<exists>d. out = Output d"
  proof (cases out)
    case (StageSkipped r)
    with handler_effects(5) [OF ran(3), of r] show ?thesis by (simp add: REQUIRED_STAGES_def)
  next
    case (Raised e)
    with ran(4) show ?thesis
      by (auto simp: stage_ends_def stage_raised_def after_emit_def REQUIRED_STAGES_def Let_def
          split: if_splits sum.splits prod.splits bool.splits option.splits)
  qed simp
  then obtain d where d: "out = Output d" by blast
  have ctx: "rs_ctx rs' = ctx_after ctx' out" using stage_ends_world(2) [OF ran(4)] by (simp add: d ctx_after_def)
  have "collect env (rs_ctx rs) (rs_world rs) = (ctx', w', Output d)" using ran(3) d by (simp add: HANDLERS_def)
  then obtain body where "pe_get_bytes env (sx_source_key (rs_ctx rs)) = Inr body" "sx_payload ctx' = Some body"
    by (auto simp: collect_def split: if_splits sum.splits)
  with resumes_step [OF ran(3) _ assms(3)] assms(3) show ?thesis
    by (intro that [of body]) (simp_all add: ctx resumes_def)
qed (use assms(2) in simp_all)

lemma pipeline_upload_split:
  "PIPELINE = (Collect # [Validate, ExtractMetadata, GenerateDescription, Seo, Tags, Thumbnail, Convert, Compress, Watermark])
     @ Upload # [Index, Publish]"
  by (simp add: PIPELINE_def)

lemma upload_completed_stores:
  assumes "run_stage env (HANDLERS env) ck opts Upload rs = (rs', e)" and "Upload \<notin> set (rs_completed rs)"
    and "Upload \<in> set (rs_completed rs')" and "resumes ctx0 (rs_ctx rs)" and "sx_payload (rs_ctx rs) = Some body"
  shows "\<exists>fmt ct. map_of (pw_objects (rs_world rs')) (artefact_key ctx0 ''distribution'' fmt) = Some (ct, body)"
  using assms(1)
proof (cases rule: run_stage_cases)
  case (ran db' j' ctx' w' out)
  from stage_ends_world(3) [OF ran(4) assms(3)] assms(2) obtain d where d: "out = Output d" by auto
  with ran(3) have "upload env (rs_ctx rs) (rs_world rs) = (ctx', w', Output d)" by (simp add: HANDLERS_def)
  from upload_stores_payload [OF this assms(4,5)] stage_ends_world(1) [OF ran(4)] show ?thesis by auto
qed (use assms(2,3) in \<open>auto simp: stage_skipped_def\<close>)

lemma run_stages_first:
  assumes "run_stages env handle ck opts (s # ss) rs = (rs', Continue)"
  obtains rs1 where "run_stage env handle ck opts s rs = (rs1, Continue)" "run_stages env handle ck opts ss rs1 = (rs', Continue)"
  using assms by (auto split: prod.splits stage_end.splits)

lemma initial_json: "k \<noteq> ''book'' \<Longrightarrow> ctx_json (initial_context env j) k = jget_null (jb_result j) k"
proof -
  have "map_of (map (\<lambda>(k, v). (k, VJson v)) r) k = map_option VJson (map_of r k)" for r :: jobj and k
    by (induction r) auto
  then show "k \<noteq> ''book'' \<Longrightarrow> ?thesis"
    by (auto simp: ctx_json_def initial_context_def jget_null_def Let_def split: option.splits)
qed

lemma resumed_run_stores_source:
  assumes "run_stages env (HANDLERS env) ck opts PIPELINE rs = (rs', e)"
    and "{Compress, Watermark} \<subseteq> set (rs_completed rs)" and "Upload \<notin> set (rs_completed rs)"
    and "Upload \<in> set (rs_completed rs')" and "should_run (pe_settings env) Collect opts = None"
    and "resumes ctx0 (rs_ctx rs)"
  shows "\<exists>body fmt ct. pe_get_bytes env (sx_source_key ctx0) = Inr body
     \<and> map_of (pw_objects (rs_world rs')) (artefact_key ctx0 ''distribution'' fmt) = Some (ct, body)"
proof -
  let ?mid = "[Validate, ExtractMetadata, GenerateDescription, Seo, Tags, Thumbnail, Convert, Compress, Watermark]"
  obtain rs2 rs3 e3 where m: "run_stages env (HANDLERS env) ck opts (Collect # ?mid) rs = (rs2, Continue)"
    and no2: "Upload \<notin> set (rs_completed rs2)" and u: "run_stage env (HANDLERS env) ck opts Upload rs2 = (rs3, e3)"
    and yes3: "Upload \<in> set (rs_completed rs3)"
    and rest: "e3 = Continue \<and> run_stages env (HANDLERS env) ck opts [Index, Publish] rs3 = (rs', e) \<or> e3 \<noteq> Continue \<and> rs' = rs3"
    by (rule run_stages_through [OF assms(1) [unfolded pipeline_upload_split] assms(3) _ _ assms(4)]) simp_all
  obtain rs1 where c: "run_stage env (HANDLERS env) ck opts Collect rs = (rs1, Continue)"
    and mid: "run_stages env (HANDLERS env) ck opts ?mid rs1 = (rs2, Continue)"
    by (rule run_stages_first [OF m])
  obtain body where b: "pe_get_bytes env (sx_source_key ctx0) = Inr body" "sx_payload (rs_ctx rs1) = Some body"
      "resumes ctx0 (rs_ctx rs1)" by (rule collect_loads [OF c assms(5,6)])
  have done1: "{Compress, Watermark} \<subseteq> set (rs_completed rs1)" using run_stage_rows [OF c] assms(2) by auto
  have inv2: "resumes ctx0 (rs_ctx rs2) \<and> sx_payload (rs_ctx rs2) = Some body"
  proof (rule run_stages_invariant [where P = "\<lambda>ctx objs. resumes ctx0 ctx \<and> sx_payload ctx = Some body"
        and S = "set ?mid" and C = "{Compress, Watermark}", OF mid])
    fix s r ctx' w' out
    assume s: "s \<in> set ?mid" "\<not> (s \<in> set (rs_completed r) \<and> s \<noteq> Collect)" "{Compress, Watermark} \<subseteq> set (rs_completed r)"
      and inv: "resumes ctx0 (rs_ctx r) \<and> sx_payload (rs_ctx r) = Some body"
      and h: "HANDLERS env s (rs_ctx r) (rs_world r) = (ctx', w', out)"
    have "s \<notin> {Compress, Watermark}" "s \<notin> set [Collect, Compress, Watermark]" using s by auto
    with resumes_step [OF h] handler_effects(2) [OF h] inv
    show "resumes ctx0 (case out of Output d \<Rightarrow> ctx'\<lparr>sx_result := dict_update (sx_result ctx') d\<rparr> | _ \<Rightarrow> ctx')
       \<and> sx_payload (case out of Output d \<Rightarrow> ctx'\<lparr>sx_result := dict_update (sx_result ctx') d\<rparr> | _ \<Rightarrow> ctx') = Some body"
      by (simp add: ctx_after_def split: handler_outcome.splits)
  qed (use b done1 in simp_all)
  obtain fmt ct where "map_of (pw_objects (rs_world rs3)) (artefact_key ctx0 ''distribution'' fmt) = Some (ct, body)"
    using upload_completed_stores [OF u no2 yes3] inv2 by blast
  moreover have "pw_objects (rs_world rs') = pw_objects (rs_world rs3)"
    using rest run_objects_kept [of env ck opts "[Index, Publish]" rs3 rs' e] by auto
  ultimately show ?thesis using b(1) by auto
qed

text \<open>
  A resumed upload ships the unprocessed source. When an earlier attempt compressed and
  watermarked the file and then failed, the resumed run fetches the source again and skips both
  stages; the upload, told by the checkpoint that the file was transformed, stores the bytes it
  holds as the copy for distribution: the source itself, neither compressed nor watermarked.
\<close>

lemma resumed_upload_ships_source:
  assumes "run_pipeline env ck db w j = (db', w', Inr out)"
    and "stage_succeeded db (jb_id j) Compress" and "stage_succeeded db (jb_id j) Watermark"
    and "jtruthy (jget_null (jb_result j) ''compression'') \<or> jtruthy (jget_null (jb_result j) ''watermark'')"
    and "\<not> stage_succeeded db (jb_id j) Upload" and "Upload \<in> set (ro_completed out)"
    and "should_run (pe_settings env) Collect (jb_options j) = None"
  shows "\<exists>source fmt ct. pe_get_bytes env (jb_source_key j) = Inr source
     \<and> map_of (pw_objects w') (artefact_key (initial_context env j) ''distribution'' fmt) = Some (ct, source)"
  using assms(1) [unfolded run_pipeline_def]
proof (cases rule: run_with_stages)
  case untouched
  with assms(5,6) show ?thesis by (simp add: in_order_def completed_stages_set)
next
  case (ran db1 j1 rs e)
  let ?rs0 = "start_state env db1 j1 w" and ?ctx0 = "initial_context env j"
  have j1: "jb_id j1 = jb_id j" "jb_book_id j1 = jb_book_id j" "jb_source_key j1 = jb_source_key j" "jb_result j1 = jb_result j"
    using ran(1) unfolding mark_running_def by (drule_tac commit_job_stages, simp)+
  have began: "s \<in> set (rs_completed ?rs0) \<longleftrightarrow> stage_succeeded db (jb_id j) s" for s
    using job_ops_rows(1) [OF ran(1), of "jb_id j" s]
    by (simp add: start_state_def completed_stages_set stage_succeeded_def j1)
  have "ctx_json (initial_context env j1) k = jget_null (jb_result j) k" if "k \<noteq> ''book''" for k
    using that initial_json [of k env j1] by (simp add: j1)
  then have "resumes ?ctx0 (rs_ctx ?rs0)" using assms(4) j1 initial_uploads [of env j1]
    by (simp add: resumes_def start_state_def transformed_def) (simp add: initial_context_def Let_def)
  from resumed_run_stores_source [OF ran(2) _ _ _ assms(7) this] began assms(2,3,5,6) ran(3,4) show ?thesis
    by (simp add: initial_context_def Let_def)
qed

end
