(* ===== verification/Automation_Imports.thy ===== *)
theory Automation_Imports
  imports Automation_Jobs Uuid Event_Bus
begin

section \<open>Where jobs come from: bulk imports and catalogue events\<close>

text \<open>
  \<open>apps/automation/services/imports.py\<close> (slugs, the validation of a row, the run over all rows
  and its report), the request and result schemas of an import, the route over it, and
  \<open>apps/automation/services/events.py\<close> (the consumer of \<open>book.created\<close> with its ledger).

  The folding of a title to ASCII (NFKD normalisation, then dropping what is not ASCII), the
  text of an exception and the answers of the catalogue are parameters, as are the identifiers
  and random digits the code draws; each draw has its own number.
\<close>

subsection \<open>Slugs\<close>

definition slug_char :: "char \<Rightarrow> bool" where
  "slug_char c \<longleftrightarrow> c \<in> set lower_letters \<or> c \<in> set digit_chars"

text \<open>\<open>re.sub("[^a-z0-9]+", "-", s)\<close>: each maximal run of other characters becomes one hyphen.\<close>

fun dash_runs :: "bool \<Rightarrow> string \<Rightarrow> string" where
  "dash_runs in_run [] = []"
| "dash_runs in_run (c # s) =
     (if slug_char c then c # dash_runs False s
      else if in_run then dash_runs True s else CHR ''-'' # dash_runs True s)"

definition strip_dashes :: "string \<Rightarrow> string" where
  "strip_dashes s = rev (dropWhile (\<lambda>c. c = CHR ''-'') (rev (dropWhile (\<lambda>c. c = CHR ''-'') s)))"

definition slugify :: "(string \<Rightarrow> string) \<Rightarrow> uuid \<Rightarrow> string \<Rightarrow> string" where
  "slugify ascii_fold fresh value =
     (let ascii_only = str_lower (ascii_fold value);
          slug = strip_dashes (take 200 (strip_dashes (dash_runs False ascii_only)))
      in if slug \<noteq> [] then slug else ''book-'' @ take 10 (hex_digits 32 fresh))"

text \<open>
  \<open>SLUG_PATTERN\<close> of \<open>apps/books/schemas.py\<close>, \<open>[a-z0-9]+(-[a-z0-9]+)*\<close>, and the length the
  catalogue accepts.
\<close>

definition valid_slug :: "string \<Rightarrow> bool" where
  "valid_slug s \<longleftrightarrow> 1 \<le> length s \<and> length s \<le> 255
     \<and> (\<forall>part \<in> set (str_split (CHR ''-'') s). part \<noteq> [] \<and> list_all slug_char part)"

subsection \<open>Requests and results\<close>

record ImportRow =
  ir_title :: string
  ir_subtitle :: "string option"
  ir_authors :: "string list"
  ir_categories :: "string list"
  ir_isbn13 :: "string option"
  ir_language :: string
  ir_price_minor :: int
  ir_currency :: string
  ir_description :: "string option"
  ir_source_key :: "string option"
  ir_line :: "int option"

record ImportCreate =
  ic_filename :: string
  ic_rows :: "ImportRow list"
  ic_dry_run :: bool
  ic_options :: JobOptions

record RowResult =
  rr_line :: "int option"
  rr_title :: string
  rr_ok :: bool
  rr_error :: "string option"
  rr_book_id :: "uuid option"
  rr_job_id :: "uuid option"

record import_env =
  ie_fold :: "string \<Rightarrow> string"
  ie_exn_text :: "exn \<Rightarrow> string"
  ie_services :: bool
  ie_create_book :: "nat \<Rightarrow> jobj \<Rightarrow> json result"
  ie_draw :: "nat \<Rightarrow> nat \<Rightarrow> uuid"
  ie_now :: "nat \<Rightarrow> timestamp"

text \<open>
  What a run changes: the database and the requests it has sent to the catalogue. The slugs
  seen so far live for one run.
\<close>

record import_state =
  im_db :: automation_db
  im_sent :: "jobj list"
  im_seen :: "string list"

text \<open>Building a \<open>JobCreate\<close>: the schema strips its texts, then validates them.\<close>

definition job_create :: "JobCreate \<Rightarrow> JobCreate result" where
  "job_create p =
     (let q = p\<lparr>cj_source_key := str_strip (cj_source_key p),
                cj_original_filename := map_option str_strip (cj_original_filename p)\<rparr>
      in if valid_job_create q then Inr q else Inl (PyExn ''ValidationError''))"

definition last_segment :: "string \<Rightarrow> string" where
  "last_segment s = rev (takeWhile (\<lambda>c. c \<noteq> CHR ''/'') (rev s))"

subsection \<open>One row\<close>

definition is_digit_char :: "char \<Rightarrow> bool" where
  "is_digit_char c \<longleftrightarrow> c \<in> set digit_chars"

definition validate_row :: "import_env \<Rightarrow> nat \<Rightarrow> string list \<Rightarrow> ImportRow \<Rightarrow> string list \<times> string option" where
  "validate_row env n seen row =
     (if str_strip (ir_title row) = [] then (seen, Some ''title is required'')
      else
        let slug = slugify (ie_fold env) (ie_draw env n 0) (ir_title row) in
        if slug \<in> set seen then (seen, Some (''duplicate title in this import (slug '' @ [CHR 0x27] @ slug @ [CHR 0x27] @ '')''))
        else
          let seen' = slug # seen;
              digits = filter is_digit_char (or_str (ir_isbn13 row) '''') in
          if truthy (ir_isbn13 row) \<and> length digits \<noteq> 13
          then (seen', Some (''isbn13 must be 13 digits, got '' @ str_nat (length digits)))
          else if ir_price_minor row \<noteq> 0 \<and> ir_price_minor row < 0
          then (seen', Some ''price_minor cannot be negative'')
          else if 0 < ir_price_minor row \<and> ir_price_minor row < 100
          then (seen', Some (''price_minor='' @ str_int (ir_price_minor row) @ '' is under one whole currency unit; prices are in paise/cents, so this looks like an unconverted value''))
          else (seen', None))"

definition opt_text :: "string option \<Rightarrow> json" where
  "opt_text x = (case x of None \<Rightarrow> JNull | Some s \<Rightarrow> JStr s)"

definition book_payload :: "import_env \<Rightarrow> nat \<Rightarrow> ImportRow \<Rightarrow> jobj" where
  "book_payload env n row =
     [(''title'', JStr (str_strip (ir_title row))), (''subtitle'', opt_text (ir_subtitle row)),
      (''slug'', JStr (slugify (ie_fold env) (ie_draw env n 1) (ir_title row))),
      (''description'', opt_text (ir_description row)), (''language'', JStr (ir_language row)),
      (''price_minor'', JInt (ir_price_minor row)), (''currency'', JStr (ir_currency row))]
     @ (if truthy (ir_isbn13 row)
        then [(''isbn13'', JStr (filter is_digit_char (or_str (ir_isbn13 row) '''')))] else [])"

text \<open>\<open>PipelineClients.create_book\<close>: an answer without an id is a rejection.\<close>

definition client_create_book :: "import_env \<Rightarrow> nat \<Rightarrow> jobj \<Rightarrow> jobj result" where
  "client_create_book env n payload =
     (if \<not> ie_services env then Inl (PyExn ''RuntimeError'')
      else case ie_create_book env n payload of
        Inl e \<Rightarrow> Inl e
      | Inr (JObj d) \<Rightarrow> if jget d ''id'' = None then Inl (PyExn ''RuntimeError'') else Inr d
      | Inr _ \<Rightarrow> Inl (PyExn ''RuntimeError''))"

definition create_book :: "import_env \<Rightarrow> nat \<Rightarrow> ImportRow \<Rightarrow> jobj list \<times> uuid result" where
  "create_book env n row =
     (let payload = book_payload env n row;
          sent = (if ie_services env then [payload] else [])
      in case client_create_book env n payload of
           Inl e \<Rightarrow> (sent, Inl e)
         | Inr created \<Rightarrow>
             (sent, case parse_uuid (json_str (jget_null created ''id'')) of
                      None \<Rightarrow> Inl (PyExn ''ValueError'') | Some u \<Rightarrow> Inr u))"

definition import_job :: "ImportRow \<Rightarrow> JobOptions \<Rightarrow> uuid \<Rightarrow> string \<Rightarrow> JobCreate" where
  "import_job row opts book_id key =
     \<lparr>cj_book_id = book_id, cj_source_key = key, cj_original_filename = Some (last_segment key),
      cj_source = FromImport, cj_priority = 0, cj_options = opts\<rparr>"

definition process_row ::
  "import_env \<Rightarrow> nat \<Rightarrow> ImportBatch \<Rightarrow> bool \<Rightarrow> JobOptions \<Rightarrow> import_state \<Rightarrow> ImportRow \<Rightarrow> import_state \<times> RowResult" where
  "process_row env n batch dry_run opts s row =
     (let r0 = \<lparr>rr_line = ir_line row, rr_title = ir_title row, rr_ok = False, rr_error = None,
                rr_book_id = None, rr_job_id = None\<rparr> in
      case validate_row env n (im_seen s) row of
        (seen, Some msg) \<Rightarrow> (s\<lparr>im_seen := seen\<rparr>, r0\<lparr>rr_error := Some msg\<rparr>)
      | (seen, None) \<Rightarrow>
          let s1 = s\<lparr>im_seen := seen\<rparr> in
          if dry_run then (s1, r0\<lparr>rr_ok := True\<rparr>)
          else case create_book env n row of
            (sent, Inl e) \<Rightarrow>
              (s1\<lparr>im_sent := im_sent s @ sent\<rparr>,
               r0\<lparr>rr_error := Some (take 500 (''catalogue rejected the row: '' @ ie_exn_text env e))\<rparr>)
          | (sent, Inr book_id) \<Rightarrow>
              let s2 = s1\<lparr>im_sent := im_sent s @ sent\<rparr>;
                  r1 = r0\<lparr>rr_book_id := Some book_id, rr_ok := True\<rparr> in
              if \<not> truthy (ir_source_key row) then (s2, r1)
              else
                let key = or_str (ir_source_key row) '''';
                    queued = (case job_create (import_job row opts book_id key) of
                                Inl e \<Rightarrow> Inl e
                              | Inr p \<Rightarrow> create_job (im_db s) (ie_draw env n 2) (ie_now env n) p
                                          (ib_requested_by batch) None (Some (ib_id batch)))
                in case queued of
                     Inl e \<Rightarrow> (s2, r1\<lparr>rr_error := Some (take 500
                                (''book created but processing could not be queued: '' @ ie_exn_text env e))\<rparr>)
                   | Inr (db', j) \<Rightarrow> (s2\<lparr>im_db := db'\<rparr>, r1\<lparr>rr_job_id := Some (jb_id j)\<rparr>))"

subsection \<open>The run\<close>

fun process_rows ::
  "import_env \<Rightarrow> nat \<Rightarrow> ImportBatch \<Rightarrow> bool \<Rightarrow> JobOptions \<Rightarrow> import_state \<Rightarrow> ImportRow list \<Rightarrow> import_state \<times> RowResult list" where
  "process_rows env n batch dry_run opts s [] = (s, [])"
| "process_rows env n batch dry_run opts s (row # rows) =
     (case process_row env n batch dry_run opts s row of
        (s1, r) \<Rightarrow>
          case process_rows env (Suc n) batch dry_run opts s1 rows of
            (s2, rs) \<Rightarrow> (s2, r # rs))"

definition new_batch :: "uuid \<Rightarrow> timestamp \<Rightarrow> ImportCreate \<Rightarrow> uuid option \<Rightarrow> ImportBatch" where
  "new_batch batch_id now payload requested_by =
     \<lparr>ib_id = batch_id, ib_filename = ic_filename payload, ib_status = ImportRunning,
      ib_dry_run = ic_dry_run payload, ib_total = length (ic_rows payload), ib_succeeded = 0, ib_failed = 0,
      ib_errors = [], ib_requested_by = requested_by, ib_finished_at = None, ib_created_at = now\<rparr>"

definition finish_batch :: "timestamp \<Rightarrow> RowResult list \<Rightarrow> ImportBatch \<Rightarrow> ImportBatch" where
  "finish_batch now results batch =
     (let succeeded = length (filter rr_ok results);
          failed = length results - succeeded
      in batch\<lparr>ib_succeeded := succeeded, ib_failed := failed,
           ib_errors := take 500 (map (\<lambda>r. (rr_line r, rr_title r, rr_error r)) (filter (\<lambda>r. \<not> rr_ok r) results)),
           ib_status := (if failed = 0 then ImportCompleted
                         else if succeeded = 0 then ImportFailed else ImportPartial),
           ib_finished_at := Some now\<rparr>)"

record ImportOutcome =
  io_batch :: ImportBatch
  io_rows :: "RowResult list"

definition outcome_job_ids :: "ImportOutcome \<Rightarrow> uuid list" where
  "outcome_job_ids oc = List.map_filter rr_job_id (io_rows oc)"

definition run_import ::
  "import_env \<Rightarrow> uuid \<Rightarrow> timestamp \<Rightarrow> timestamp \<Rightarrow> automation_db \<Rightarrow> ImportCreate \<Rightarrow> uuid option
     \<Rightarrow> automation_db \<times> jobj list \<times> ImportOutcome" where
  "run_import env batch_id now finished db payload requested_by =
     (let batch = new_batch batch_id now payload requested_by;
          s0 = \<lparr>im_db = db\<lparr>import_batches := import_batches db @ [batch]\<rparr>, im_sent = [], im_seen = []\<rparr>
      in case process_rows env 0 batch (ic_dry_run payload) (ic_options payload) s0 (ic_rows payload) of
           (s, results) \<Rightarrow>
             let batch' = finish_batch finished results batch;
                 db' = (im_db s)\<lparr>import_batches :=
                          update_rows (\<lambda>b. ib_id b = batch_id) (\<lambda>_. batch') (import_batches (im_db s))\<rparr>
             in (db', im_sent s, \<lparr>io_batch = batch', io_rows = results\<rparr>))"

text \<open>\<open>POST /imports\<close>: the jobs to dispatch are those of the report, in order.\<close>

definition create_import ::
  "import_env \<Rightarrow> uuid \<Rightarrow> timestamp \<Rightarrow> timestamp \<Rightarrow> automation_db \<Rightarrow> ImportCreate \<Rightarrow> uuid
     \<Rightarrow> automation_db \<times> jobj list \<times> uuid list \<times> ImportBatch" where
  "create_import env batch_id now finished db payload user_id =
     (case run_import env batch_id now finished db payload (Some user_id) of
        (db', sent, oc) \<Rightarrow> (db', sent, outcome_job_ids oc, io_batch oc))"

definition get_import :: "automation_db \<Rightarrow> uuid \<Rightarrow> ImportBatch result" where
  "get_import db import_id =
     (case first_row (\<lambda>b. ib_id b = import_id) (import_batches db) of
        None \<Rightarrow> Inl (raise_default NotFoundError) | Some b \<Rightarrow> Inr b)"

definition list_batches :: "automation_db \<Rightarrow> nat \<Rightarrow> nat \<Rightarrow> ImportBatch list \<times> nat" where
  "list_batches db limit offset =
     (page_rows limit offset (order_by_desc ib_created_at (import_batches db)), length (import_batches db))"

subsection \<open>Jobs started by the catalogue\<close>

definition AUTOMATION_HANDLED :: "string list" where
  "AUTOMATION_HANDLED = [''book.created'']"

definition claim_automation_event :: "automation_db \<Rightarrow> event \<Rightarrow> automation_db \<times> bool" where
  "claim_automation_event db ev =
     (if \<exists>p \<in> set (automation_events db). fst p = ev_id ev then (db, False)
      else (db\<lparr>automation_events := automation_events db @ [(ev_id ev, ev_type ev)]\<rparr>, True))"

definition default_options :: JobOptions where
  "default_options = \<lparr>op_only_stages = None, op_skip_stages = [], op_force_ai_refresh = False,
     op_auto_publish = None, op_watermark = None, op_locale = ''en''\<rparr>"

definition event_job :: "json \<Rightarrow> json \<Rightarrow> JobCreate result" where
  "event_job source_key book_id =
     (case parse_uuid (json_str book_id) of
        None \<Rightarrow> Inl (PyExn ''ValueError'')
      | Some u \<Rightarrow>
          job_create \<lparr>cj_book_id = u, cj_source_key = json_str source_key,
            cj_original_filename = Some (last_segment (json_str source_key)), cj_source = FromEvent,
            cj_priority = 0, cj_options = default_options\<rparr>)"

definition is_conflict :: "exn \<Rightarrow> bool" where
  "is_conflict e = (case e of AppExn c _ _ \<Rightarrow> c = ConflictError | _ \<Rightarrow> False)"

text \<open>
  \<open>AutomationEventHandler.handle\<close>. Queueing commits the session, the claim of the event with
  it; on the other paths the consumer commits or rolls back.
\<close>

definition handle_book_event ::
  "automation_db \<Rightarrow> uuid \<Rightarrow> timestamp \<Rightarrow> event \<Rightarrow> automation_db result" where
  "handle_book_event db job_id now ev =
     (if ev_type ev \<notin> set AUTOMATION_HANDLED then Inr db
      else
        let payload = (case ev_payload ev of JObj d \<Rightarrow> d | _ \<Rightarrow> []);
            source_key = jor (jget_null payload ''source_key'') (jget_null payload ''pdf_key'');
            book_id = jor (jget_null payload ''book_id'') (jget_null payload ''id'')
        in if \<not> jtruthy source_key \<or> \<not> jtruthy book_id then Inr db
           else case claim_automation_event db ev of
             (db1, False) \<Rightarrow> Inr db1
           | (db1, True) \<Rightarrow>
               (case event_job source_key book_id of
                  Inl e \<Rightarrow> Inl e
                | Inr p \<Rightarrow>
                    (case create_job db1 job_id now p None (ev_correlation_id ev) None of
                       Inr (db2, j) \<Rightarrow> Inr db2
                     | Inl e \<Rightarrow> if is_conflict e then Inr db1 else Inl e)))"

definition consume_book_event ::
  "automation_db \<Rightarrow> uuid \<Rightarrow> timestamp \<Rightarrow> event \<Rightarrow> automation_db \<times> unit result" where
  "consume_book_event db job_id now ev =
     (case handle_book_event db job_id now ev of Inr db' \<Rightarrow> (db', Inr ()) | Inl e \<Rightarrow> (db, Inl e))"

subsection \<open>Lemmas: slugs\<close>

lemma slug_char_dash [simp]: "\<not> slug_char (CHR ''-'')"
  by code_simp

definition slug_text :: "string \<Rightarrow> bool" where
  "slug_text s \<longleftrightarrow> list_all (\<lambda>c. slug_char c \<or> c = CHR ''-'') s \<and> successively (\<lambda>a b. slug_char a \<or> slug_char b) s"

lemma dash_runs_text:
  "slug_text (dash_runs b s) \<and> (b \<longrightarrow> (case dash_runs b s of [] \<Rightarrow> True | c # _ \<Rightarrow> slug_char c))"
  by (induction b s rule: dash_runs.induct)
     (auto simp: slug_text_def successively_Cons split: list.splits)

lemma slug_text_take: "slug_text s \<Longrightarrow> slug_text (take n s)"
  using list_all_append [of _ "take n s" "drop n s"] successively_append_iff [of _ "take n s" "drop n s"]
  by (simp add: slug_text_def)

lemma slug_text_drop: "slug_text s \<Longrightarrow> slug_text (drop n s)"
  using list_all_append [of _ "take n s" "drop n s"] successively_append_iff [of _ "take n s" "drop n s"]
  by (simp add: slug_text_def)

lemma slug_text_rev: "slug_text s \<Longrightarrow> slug_text (rev s)"
  by (auto simp: slug_text_def list_all_rev successively_rev intro: successively_mono)

lemma slug_text_strip: "slug_text s \<Longrightarrow> slug_text (strip_dashes s)"
  unfolding strip_dashes_def dropWhile_eq_drop by (intro slug_text_rev slug_text_drop)

lemma rstrip_prefix: "xs = rev (dropWhile P (rev xs)) @ rev (takeWhile P (rev xs))"
  using arg_cong [OF takeWhile_dropWhile_id [of P "rev xs"], of rev] by (simp only: rev_append rev_rev_ident)

lemma strip_ends:
  assumes "rev (dropWhile P (rev (dropWhile P s))) \<noteq> []"
  shows "\<not> P (hd (rev (dropWhile P (rev (dropWhile P s)))))" "\<not> P (last (rev (dropWhile P (rev (dropWhile P s)))))"
proof -
  let ?x = "dropWhile P s"
  have "hd ?x = hd (rev (dropWhile P (rev ?x)))"
    using rstrip_prefix [of ?x P] assms by (metis hd_append2)
  moreover have "?x \<noteq> []" using assms by (metis dropWhile.simps(1) rev.simps(1))
  ultimately show "\<not> P (hd (rev (dropWhile P (rev ?x))))" using hd_dropWhile [of P s] by metis
  have "dropWhile P (rev ?x) \<noteq> []" using assms by simp
  then show "\<not> P (last (rev (dropWhile P (rev ?x))))" by (metis hd_dropWhile last_rev)
qed

lemma strip_dashes_ends:
  "strip_dashes s \<noteq> [] \<Longrightarrow> hd (strip_dashes s) \<noteq> CHR ''-'' \<and> last (strip_dashes s) \<noteq> CHR ''-''"
  unfolding strip_dashes_def by (intro conjI strip_ends [of "\<lambda>c. c = CHR ''-''"])

lemma str_split_neq_Nil [simp]: "str_split c s \<noteq> []"
  by (cases s) (auto split: list.splits)

lemma slug_text_parts:
  assumes "slug_text s"
  shows "(\<forall>part \<in> set (str_split (CHR ''-'') s). list_all slug_char part)
    \<and> (s \<noteq> [] \<longrightarrow> last s \<noteq> CHR ''-'' \<longrightarrow> [] \<notin> set (tl (str_split (CHR ''-'') s)))
    \<and> (s \<noteq> [] \<longrightarrow> hd s \<noteq> CHR ''-'' \<longrightarrow> hd (str_split (CHR ''-'') s) \<noteq> [])"
  using assms
proof (induction s)
  case (Cons c s)
  have IH: "slug_text s" and c: "slug_char c \<or> c = CHR ''-''"
    and nx: "s \<noteq> [] \<Longrightarrow> slug_char c \<or> slug_char (hd s)"
    using Cons.prems by (auto simp: slug_text_def successively_Cons)
  obtain p ps where sp: "str_split (CHR ''-'') s = p # ps" by (cases "str_split (CHR ''-'') s") auto
  show ?case
  proof (cases "c = CHR ''-''")
    case True
    then have "s \<noteq> [] \<Longrightarrow> hd s \<noteq> CHR ''-''" using nx by auto
    with True Cons.IH [OF IH] sp show ?thesis by auto
  next
    case False
    with c have "slug_char c" by simp
    with False Cons.IH [OF IH] sp show ?thesis by (cases "s = []") auto
  qed
qed simp

lemma slug_text_valid:
  assumes "slug_text s" and "s \<noteq> []" and "hd s \<noteq> CHR ''-''" and "last s \<noteq> CHR ''-''" and "length s \<le> 255"
  shows "valid_slug s"
proof -
  obtain p ps where sp: "str_split (CHR ''-'') s = p # ps" by (cases "str_split (CHR ''-'') s") auto
  with slug_text_parts [OF assms(1)] assms show ?thesis by (auto simp: valid_slug_def Suc_le_eq)
qed

lemma fallback_slug_valid: "valid_slug (''book-'' @ take 10 (hex_digits 32 u))"
proof -
  let ?h = "take 10 (hex_digits 32 u)"
  have h: "set ?h \<subseteq> set hex_alphabet" using set_take_subset set_hex_digits by fastforce
  have al: "list_all slug_char hex_alphabet" by code_simp
  have chars: "list_all slug_char ?h" using h al by (auto simp: list_all_iff)
  then have "CHR ''-'' \<notin> set ?h" by (auto simp: list_all_iff)
  then have "str_split (CHR ''-'') (''book'' @ CHR ''-'' # ?h) = [''book'', ?h]"
    by (subst str_split_at) (auto simp: str_split_plain)
  moreover have "list_all slug_char ''book''" by code_simp
  moreover have "?h \<noteq> []" using length_hex_digits [of 32 u] by (cases "hex_digits 32 u") auto
  ultimately show ?thesis using chars by (simp add: valid_slug_def)
qed

lemma slugify_valid: "valid_slug (slugify fd u s)"
proof (cases "strip_dashes (take 200 (strip_dashes (dash_runs False (str_lower (fd s))))) = []")
  case True
  then show ?thesis by (simp add: slugify_def fallback_slug_valid del: append_Cons)
next
  case False
  let ?t = "take 200 (strip_dashes (dash_runs False (str_lower (fd s))))"
  have "slug_text ?t" by (intro slug_text_take slug_text_strip) (simp add: dash_runs_text)
  moreover have "length (strip_dashes ?t) \<le> length ?t"
    unfolding strip_dashes_def by (metis dual_order.trans length_dropWhile_le length_rev)
  moreover have "length ?t \<le> 200" by simp
  ultimately have "valid_slug (strip_dashes ?t)"
    using strip_dashes_ends [OF False] False by (intro slug_text_valid slug_text_strip) auto
  with False show ?thesis by (simp add: slugify_def)
qed

subsection \<open>Lemmas: rows\<close>

lemma validated_row:
  assumes "validate_row env n seen row = (seen', None)"
  shows "str_strip (ir_title row) \<noteq> []" and "ir_price_minor row = 0 \<or> 100 \<le> ir_price_minor row"
    and "truthy (ir_isbn13 row) \<Longrightarrow> length (filter is_digit_char (or_str (ir_isbn13 row) '''')) = 13"
  using assms by (auto simp: validate_row_def Let_def split: if_splits)

definition book_acceptable :: "jobj \<Rightarrow> bool" where
  "book_acceptable d \<longleftrightarrow>
     (\<exists>title slug price. jget d ''title'' = Some (JStr title) \<and> title \<noteq> []
        \<and> jget d ''slug'' = Some (JStr slug) \<and> valid_slug slug
        \<and> jget d ''price_minor'' = Some (JInt price) \<and> (price = 0 \<or> 100 \<le> price))
     \<and> (case jget d ''isbn13'' of None \<Rightarrow> True
         | Some v \<Rightarrow> \<exists>s. v = JStr s \<and> length s = 13 \<and> list_all is_digit_char s)"

lemma validated_book:
  assumes "validate_row env n seen row = (seen', None)"
  shows "book_acceptable (book_payload env n row)"
  using validated_row [OF assms]
  by (auto simp: book_acceptable_def book_payload_def jget_def slugify_valid list_all_iff split: if_splits)

lemma create_book_sends:
  "fst (create_book env n row) = (if ie_services env then [book_payload env n row] else [])"
  by (auto simp: create_book_def Let_def split: sum.splits)

lemma process_row_split:
  assumes "process_row env n batch dry opts s row = (s', r)"
  shows "im_seen s' = fst (validate_row env n (im_seen s) row)"
    and "rr_line r = ir_line row" and "rr_title r = ir_title row"
    and "snd (validate_row env n (im_seen s) row) \<noteq> None \<Longrightarrow>
           im_db s' = im_db s \<and> im_sent s' = im_sent s \<and> \<not> rr_ok r
           \<and> rr_error r = snd (validate_row env n (im_seen s) row) \<and> rr_book_id r = None \<and> rr_job_id r = None"
    and "snd (validate_row env n (im_seen s) row) = None \<Longrightarrow> dry \<Longrightarrow>
           im_db s' = im_db s \<and> im_sent s' = im_sent s \<and> rr_ok r \<and> rr_job_id r = None"
    and "snd (validate_row env n (im_seen s) row) = None \<Longrightarrow> \<not> dry \<Longrightarrow>
           im_sent s' = im_sent s @ (if ie_services env then [book_payload env n row] else [])"
  using assms create_book_sends [of env n row]
  by (auto simp: process_row_def Let_def split: prod.splits option.splits sum.splits if_splits)

lemma process_row_failure: "process_row env n batch dry opts s row = (s', r) \<Longrightarrow> \<not> rr_ok r \<Longrightarrow> rr_error r \<noteq> None"
  by (auto simp: process_row_def Let_def split: prod.splits option.splits sum.splits if_splits)

lemma create_job_adds:
  assumes "create_job db job_id now p by1 corr imp = Inr (db', j)"
  shows "jobs db' = jobs db @ [j]" and "jb_id j = job_id" and "jb_status j = JobQueued" and "jb_import_id j = imp"
    and "active_unique (jobs db) \<Longrightarrow> active_unique (jobs db')"
    and "import_batches db' = import_batches db" and "automation_events db' = automation_events db"
proof -
  from assms have ins: "insert_unique active_clash (new_job job_id now p by1 corr imp) (jobs db) = Some (jobs db')"
    and j: "j = new_job job_id now p by1 corr imp"
    by (auto simp: create_job_def Let_def split: option.splits)
  then show "jobs db' = jobs db @ [j]" by (simp add: insert_unique_Some)
  show "jb_id j = job_id" "jb_status j = JobQueued" "jb_import_id j = imp" by (simp_all add: j new_job_def)
  show "active_unique (jobs db) \<Longrightarrow> active_unique (jobs db')"
    using active_jobs.insert_keeps_unique [OF _ ins] by (simp add: active_unique_keys)
  show "import_batches db' = import_batches db" "automation_events db' = automation_events db"
    using assms by (auto simp: create_job_def Let_def split: option.splits)
qed

lemma process_row_jobs:
  assumes "process_row env n batch dry opts s row = (s', r)"
  shows "\<exists>js. jobs (im_db s') = jobs (im_db s) @ js \<and> map jb_id js = (case rr_job_id r of None \<Rightarrow> [] | Some k \<Rightarrow> [k])
           \<and> (\<forall>j \<in> set js. jb_status j = JobQueued \<and> jb_import_id j = Some (ib_id batch))
           \<and> (active_unique (jobs (im_db s)) \<longrightarrow> active_unique (jobs (im_db s')))
           \<and> import_batches (im_db s') = import_batches (im_db s)"
proof (cases "rr_job_id r")
  case None
  with assms have "im_db s' = im_db s"
    by (auto simp: process_row_def Let_def split: prod.splits option.splits sum.splits if_splits)
  with None show ?thesis by simp
next
  case (Some k)
  with assms obtain p j where
    c: "create_job (im_db s) (ie_draw env n 2) (ie_now env n) p (ib_requested_by batch) None (Some (ib_id batch))
        = Inr (im_db s', j)" and k: "k = jb_id j"
    by (auto simp: process_row_def Let_def split: prod.splits option.splits sum.splits if_splits)
  from create_job_adds [OF c] Some k show ?thesis by simp
qed

lemma process_rows_report:
  assumes "process_rows env n batch dry opts s rows = (s', rs)"
  shows "length rs = length rows" and "map rr_line rs = map ir_line rows"
    and "list_all (\<lambda>r. \<not> rr_ok r \<longrightarrow> rr_error r \<noteq> None) rs"
  using assms
  by (induction env n batch dry opts s rows arbitrary: s' rs rule: process_rows.induct)
     (auto split: prod.splits dest: process_row_failure process_row_split(2))

lemma process_rows_jobs:
  assumes "process_rows env n batch dry opts s rows = (s', rs)"
  shows "\<exists>js. jobs (im_db s') = jobs (im_db s) @ js \<and> map jb_id js = List.map_filter rr_job_id rs
           \<and> (\<forall>j \<in> set js. jb_status j = JobQueued \<and> jb_import_id j = Some (ib_id batch))
           \<and> (active_unique (jobs (im_db s)) \<longrightarrow> active_unique (jobs (im_db s')))
           \<and> import_batches (im_db s') = import_batches (im_db s)"
  using assms
proof (induction env n batch dry opts s rows arbitrary: s' rs rule: process_rows.induct)
  case (2 env n batch dry opts s row rows)
  obtain s1 r rs1 where p: "process_row env n batch dry opts s row = (s1, r)"
      and ps: "process_rows env (Suc n) batch dry opts s1 rows = (s', rs1)" and rs: "rs = r # rs1"
    using "2.prems" by (auto split: prod.splits)
  obtain js1 js2 where "jobs (im_db s1) = jobs (im_db s) @ js1" "jobs (im_db s') = jobs (im_db s1) @ js2"
      "map jb_id js1 = (case rr_job_id r of None \<Rightarrow> [] | Some k \<Rightarrow> [k])" "map jb_id js2 = List.map_filter rr_job_id rs1"
      "\<forall>j \<in> set (js1 @ js2). jb_status j = JobQueued \<and> jb_import_id j = Some (ib_id batch)"
      "active_unique (jobs (im_db s)) \<longrightarrow> active_unique (jobs (im_db s'))"
      "import_batches (im_db s') = import_batches (im_db s)"
    using process_row_jobs [OF p] "2.IH" [OF p [symmetric] ps] by fastforce
  then show ?case
    by (intro exI [of _ "js1 @ js2"]) (simp add: rs List.map_filter_simps split: option.splits)
qed (simp add: List.map_filter_simps)

lemma process_rows_dry:
  assumes "process_rows env n batch True opts s rows = (s', rs)"
  shows "im_db s' = im_db s" and "im_sent s' = im_sent s"
  using assms
proof (induction rows arbitrary: n s s' rs)
  case (Cons row rows)
  case 1
  with Cons(1) show ?case by (fastforce split: prod.splits option.splits simp: process_row_def Let_def)
  case 2
  with Cons(2) show ?case by (fastforce split: prod.splits option.splits simp: process_row_def Let_def)
qed auto

lemma process_rows_sends_acceptable:
  assumes "process_rows env n batch dry opts s rows = (s', rs)" and "list_all book_acceptable (im_sent s)"
  shows "list_all book_acceptable (im_sent s')"
  using assms
proof (induction env n batch dry opts s rows arbitrary: s' rs rule: process_rows.induct)
  case (2 env n batch dry opts s row rows)
  obtain s1 r rs1 where p: "process_row env n batch dry opts s row = (s1, r)"
      and ps: "process_rows env (Suc n) batch dry opts s1 rows = (s', rs1)"
    using "2.prems" by (auto split: prod.splits)
  obtain seen v where v: "validate_row env n (im_seen s) row = (seen, v)" by fastforce
  have "list_all book_acceptable (im_sent s1)"
    using process_row_split(4-6) [OF p] "2.prems"(2) validated_book [of env n "im_seen s" row seen] v
    by (cases v; cases dry) auto
  with "2.IH" [OF p [symmetric] ps] show ?case by blast
qed simp

text \<open>A dry run and a real run of the same rows, side by side.\<close>

lemma process_rows_parallel:
  assumes "process_rows env n batch1 True opts s rows = (s', ds)" and "process_rows env n batch2 False opts t rows = (t', rs)"
    and "im_seen s = im_seen t"
  shows "list_all2 (\<lambda>d r. rr_ok d \<or> r = d) ds rs
    \<and> im_sent t' = im_sent t @ (if ie_services env
         then map (\<lambda>(d, i, row). book_payload env i row) (filter (\<lambda>(d, i, row). rr_ok d) (zip ds (enumerate n rows)))
         else [])"
  using assms
proof (induction rows arbitrary: n s t s' t' ds rs)
  case (Cons row rows)
  obtain s1 d ds1 where p: "process_row env n batch1 True opts s row = (s1, d)"
      and ps: "process_rows env (Suc n) batch1 True opts s1 rows = (s', ds1)" and ds: "ds = d # ds1"
    using Cons.prems(1) by (auto split: prod.splits)
  obtain t1 r rs1 where q: "process_row env n batch2 False opts t row = (t1, r)"
      and qs: "process_rows env (Suc n) batch2 False opts t1 rows = (t', rs1)" and rs: "rs = r # rs1"
    using Cons.prems(2) by (auto split: prod.splits)
  have "im_seen s1 = im_seen t1"
    using process_row_split(1) [OF p] process_row_split(1) [OF q] Cons.prems(3) by simp
  note IH = Cons.IH [OF ps qs this]
  have "rr_ok d \<or> r = d"
    using process_row_split(2-5) [OF p] process_row_split(2-4) [OF q] Cons.prems(3)
    by (cases "snd (validate_row env n (im_seen t) row)") (auto intro: RowResult.equality)
  moreover have "im_sent t1 = im_sent t @ (if ie_services env \<and> rr_ok d then [book_payload env n row] else [])"
    using process_row_split(4,5) [OF p] process_row_split(4,6) [OF q] Cons.prems(3)
    by (cases "snd (validate_row env n (im_seen t) row)") auto
  ultimately show ?case using IH by (simp add: ds rs)
qed simp

lemma fresh_batch_update:
  assumes "k \<notin> ib_id ` set bs" and "ib_id b = k"
  shows "update_rows (\<lambda>b. ib_id b = k) f (bs @ [b]) = bs @ [f b]"
proof -
  have "update_rows (\<lambda>b. ib_id b = k) f bs = bs" by (rule update_rows_none) (use assms(1) in auto)
  with assms(2) show ?thesis by (simp add: update_rows_append)
qed

subsection \<open>Properties of an import\<close>

text \<open>
  C23: Whatever a spreadsheet contains, every book an import asks the catalogue to create has a
  title, a slug that the catalogue's own pattern and length accept (also for titles without a
  single ASCII letter), an ISBN of thirteen digits if any, and a price that is zero or at
  least one whole currency unit.
\<close>

theorem imported_books_acceptable:
  "list_all book_acceptable (fst (snd (run_import env batch_id now finished db payload requested_by)))"
proof -
  obtain s rs where "process_rows env 0 (new_batch batch_id now payload requested_by) (ic_dry_run payload)
      (ic_options payload) \<lparr>im_db = db\<lparr>import_batches := import_batches db @ [new_batch batch_id now payload requested_by]\<rparr>,
        im_sent = [], im_seen = []\<rparr> (ic_rows payload) = (s, rs)"
    by fastforce
  with process_rows_sends_acceptable [OF this] show ?thesis by (simp add: run_import_def Let_def)
qed

text \<open>
  C20: A dry run writes nothing and tells the truth: it sends no request to the catalogue and
  leaves the database as it was but for its own report, every row it reports as failed fails
  with the same report in a real run of the same rows, whatever has happened in between, and
  the real run asks the catalogue for exactly the rows the dry run passed, in their order.
\<close>

theorem dry_run_predicts:
  assumes "run_import env b1 now1 fin1 db (payload\<lparr>ic_dry_run := True\<rparr>) by1 = (db1, sent1, dry)"
    and "run_import env b2 now2 fin2 later (payload\<lparr>ic_dry_run := False\<rparr>) by2 = (db2, sent2, real)"
    and "b1 \<notin> ib_id ` set (import_batches db)"
  shows "sent1 = [] \<and> db1 = db\<lparr>import_batches := import_batches db @ [io_batch dry]\<rparr>
    \<and> list_all2 (\<lambda>d r. rr_ok d \<or> r = d) (io_rows dry) (io_rows real)
    \<and> sent2 = (if ie_services env
         then map (\<lambda>(d, i, row). book_payload env i row)
                (filter (\<lambda>(d, i, row). rr_ok d) (zip (io_rows dry) (enumerate 0 (ic_rows payload))))
         else [])"
proof -
  let ?s = "\<lambda>db b. \<lparr>im_db = db\<lparr>import_batches := import_batches db @ [b]\<rparr>, im_sent = [], im_seen = []\<rparr>"
  obtain B1 s rs where d: "process_rows env 0 B1 True (ic_options payload) (?s db B1) (ic_rows payload) = (s, rs)"
      and dry: "sent1 = im_sent s" "io_rows dry = rs" "io_batch dry = finish_batch fin1 rs B1" "ib_id B1 = b1"
        "db1 = (im_db s)\<lparr>import_batches := update_rows (\<lambda>b. ib_id b = b1) (\<lambda>_. io_batch dry) (import_batches (im_db s))\<rparr>"
    using assms(1) by (auto simp: run_import_def Let_def new_batch_def split: prod.splits)
  obtain B2 t ts where r: "process_rows env 0 B2 False (ic_options payload) (?s later B2) (ic_rows payload) = (t, ts)"
      and real: "sent2 = im_sent t" "io_rows real = ts"
    using assms(2) by (auto simp: run_import_def Let_def new_batch_def split: prod.splits)
  have "update_rows (\<lambda>b. ib_id b = b1) (\<lambda>_. io_batch dry) (import_batches db @ [B1]) = import_batches db @ [io_batch dry]"
    using assms(3) dry(4) by (simp add: fresh_batch_update)
  with process_rows_dry [OF d] dry have "sent1 = []" "db1 = db\<lparr>import_batches := import_batches db @ [io_batch dry]\<rparr>"
    by simp_all
  with process_rows_parallel [OF d r] show ?thesis by (simp add: dry(2) real)
qed

text \<open>
  C21: An import accounts for every row. The result of a run has one entry per row sent, in file
  order, each failure with a message; what is stored under the import's id are the number of
  rows, of those that succeeded and of those that failed, which add up, a status that says
  whether all, some or no rows landed, and the first 500 failures of that list in file order
  with line, title and message (further failures are only counted). The jobs handed to the
  workers are exactly the jobs the run added, queued under this import; no two live jobs share
  a file.
\<close>

theorem import_accounts_for_rows:
  assumes "run_import env batch_id now fin db payload by1 = (db', sent, oc)"
    and "batch_id \<notin> ib_id ` set (import_batches db)" and "active_unique (jobs db)"
  shows "get_import db' batch_id = Inr (io_batch oc)
    \<and> map rr_line (io_rows oc) = map ir_line (ic_rows payload)
    \<and> ib_total (io_batch oc) = length (ic_rows payload)
    \<and> ib_succeeded (io_batch oc) = length (filter rr_ok (io_rows oc))
    \<and> ib_succeeded (io_batch oc) + ib_failed (io_batch oc) = ib_total (io_batch oc)
    \<and> list_all (\<lambda>r. rr_ok r \<or> rr_error r \<noteq> None) (io_rows oc)
    \<and> ib_errors (io_batch oc) =
        take 500 (map (\<lambda>r. (rr_line r, rr_title r, rr_error r)) (filter (\<lambda>r. \<not> rr_ok r) (io_rows oc)))
    \<and> ib_status (io_batch oc) =
        (if list_all rr_ok (io_rows oc) then ImportCompleted
         else if list_ex rr_ok (io_rows oc) then ImportPartial else ImportFailed)
    \<and> active_unique (jobs db')
    \<and> (\<exists>js. jobs db' = jobs db @ js \<and> map jb_id js = outcome_job_ids oc
         \<and> list_all (\<lambda>j. jb_status j = JobQueued \<and> jb_import_id j = Some batch_id) js)"
proof -
  let ?B = "new_batch batch_id now payload by1"
  obtain s rs where p: "process_rows env 0 ?B (ic_dry_run payload) (ic_options payload)
        \<lparr>im_db = db\<lparr>import_batches := import_batches db @ [?B]\<rparr>, im_sent = [], im_seen = []\<rparr> (ic_rows payload) = (s, rs)"
      and oc: "oc = \<lparr>io_batch = finish_batch fin rs ?B, io_rows = rs\<rparr>"
      and db': "db' = (im_db s)\<lparr>import_batches :=
          update_rows (\<lambda>b. ib_id b = batch_id) (\<lambda>_. finish_batch fin rs ?B) (import_batches (im_db s))\<rparr>"
    using assms(1) by (auto simp: run_import_def Let_def split: prod.splits)
  note report = process_rows_report [OF p]
  have id: "ib_id (finish_batch fin rs ?B) = batch_id" "ib_id ?B = batch_id"
    by (simp_all add: finish_batch_def new_batch_def Let_def)
  obtain js where js: "jobs db' = jobs db @ js" "map jb_id js = outcome_job_ids oc" "active_unique (jobs db')"
      "list_all (\<lambda>j. jb_status j = JobQueued \<and> jb_import_id j = Some batch_id) js"
      "import_batches (im_db s) = import_batches db @ [?B]"
    using process_rows_jobs [OF p] assms(3) id by (auto simp: db' oc outcome_job_ids_def list_all_iff)
  have "import_batches db' = import_batches db @ [finish_batch fin rs ?B]"
    using js(5) assms(2) id by (simp add: db' fresh_batch_update)
  then have get: "get_import db' batch_id = Inr (io_batch oc)"
    using assms(2) id by (auto simp: get_import_def oc first_row_append first_row_None image_iff split: option.splits dest: first_row_Some)
  have counts: "ib_total (io_batch oc) = length (ic_rows payload)"
      "ib_succeeded (io_batch oc) = length (filter rr_ok rs)"
      "ib_succeeded (io_batch oc) + ib_failed (io_batch oc) = length rs"
    by (simp_all add: oc finish_batch_def new_batch_def Let_def)
  have "length rs - length (filter rr_ok rs) = 0 \<longleftrightarrow> list_all rr_ok rs"
    using sum_length_filter_compl [of rr_ok rs] by (cases "filter (\<lambda>r. \<not> rr_ok r) rs") (auto simp: list_all_iff filter_empty_conv dest: filter_eq_ConsD)
  moreover have "length (filter rr_ok rs) = 0 \<longleftrightarrow> \<not> list_ex rr_ok rs" by (simp add: list_ex_iff filter_empty_conv)
  ultimately have "ib_status (io_batch oc) =
        (if list_all rr_ok rs then ImportCompleted else if list_ex rr_ok rs then ImportPartial else ImportFailed)"
    by (simp add: oc finish_batch_def Let_def)
  moreover have "list_all (\<lambda>r. rr_ok r \<or> rr_error r \<noteq> None) rs" using report(3) by (auto simp: list_all_iff)
  moreover have "ib_errors (io_batch oc) = take 500 (map (\<lambda>r. (rr_line r, rr_title r, rr_error r)) (filter (\<lambda>r. \<not> rr_ok r) rs))"
    by (simp add: oc finish_batch_def Let_def)
  ultimately show ?thesis using get js report counts by (auto simp: oc)
qed

subsection \<open>Properties of the consumer\<close>

definition event_claimed :: "automation_db \<Rightarrow> event \<Rightarrow> bool" where
  "event_claimed db ev \<longleftrightarrow> ev_id ev \<in> fst ` set (automation_events db)"

definition starts_job :: "event \<Rightarrow> bool" where
  "starts_job ev \<longleftrightarrow>
     (let payload = (case ev_payload ev of JObj d \<Rightarrow> d | _ \<Rightarrow> []) in
      ev_type ev \<in> set AUTOMATION_HANDLED
      \<and> jtruthy (jor (jget_null payload ''source_key'') (jget_null payload ''pdf_key''))
      \<and> jtruthy (jor (jget_null payload ''book_id'') (jget_null payload ''id'')))"

lemma consume_inert:
  assumes "event_claimed db ev \<or> \<not> starts_job ev"
  shows "consume_book_event db job_id now ev = (db, Inr ())"
  using assms
  by (auto simp: consume_book_event_def handle_book_event_def claim_automation_event_def event_claimed_def
      starts_job_def Let_def)

text \<open>What a successful or failed delivery can do.\<close>

lemma consume_cases:
  assumes "consume_book_event db job_id now ev = (db', res)"
  obtains (same) "db' = db" "res = Inr () \<Longrightarrow> event_claimed db ev \<or> \<not> starts_job ev"
  | (noted) "db' = db\<lparr>automation_events := automation_events db @ [(ev_id ev, ev_type ev)]\<rparr>" "\<not> event_claimed db ev"
  | (queued) p j where "create_job (db\<lparr>automation_events := automation_events db @ [(ev_id ev, ev_type ev)]\<rparr>) job_id now p
       None (ev_correlation_id ev) None = Inr (db', j)" "\<not> event_claimed db ev"
proof -
  consider "event_claimed db ev \<or> \<not> starts_job ev" | "\<not> event_claimed db ev" "starts_job ev" by blast
  then show thesis
  proof cases
    case 1
    with consume_inert [OF 1] assms show thesis by (intro same) simp_all
  next
    case 2
    let ?d = "db\<lparr>automation_events := automation_events db @ [(ev_id ev, ev_type ev)]\<rparr>"
    have "claim_automation_event db ev = (?d, True)"
      using 2(1) by (force simp: claim_automation_event_def event_claimed_def)
    with 2 assms consider "db' = db" "res \<noteq> Inr ()" | "db' = ?d"
      | p j where "create_job ?d job_id now p None (ev_correlation_id ev) None = Inr (db', j)"
      by (auto simp: consume_book_event_def handle_book_event_def starts_job_def Let_def
          split: sum.splits prod.splits if_splits)
    then show thesis using same noted queued 2(1) by cases blast+
  qed
qed

lemma consume_keeps:
  assumes "consume_book_event db job_id now ev = (db', res)"
  shows "(event_claimed db e \<longrightarrow> event_claimed db' e)
    \<and> (active_unique (jobs db) \<longrightarrow> active_unique (jobs db'))
    \<and> (res = Inr () \<longrightarrow> event_claimed db' ev \<or> \<not> starts_job ev)
    \<and> length (jobs db') + length (automation_events db) \<le> length (jobs db) + length (automation_events db')"
  using assms
proof (cases rule: consume_cases)
  case (queued p j)
  from create_job_adds [OF queued(1)] show ?thesis by (auto simp: event_claimed_def)
qed (auto simp: event_claimed_def)

text \<open>Any number of deliveries, each with the id and time it draws, failed ones included.\<close>

fun deliver_all :: "automation_db \<Rightarrow> (uuid \<times> timestamp \<times> event) list \<Rightarrow> automation_db" where
  "deliver_all db [] = db"
| "deliver_all db ((job_id, now, ev) # ds) = deliver_all (fst (consume_book_event db job_id now ev)) ds"

lemma deliver_keeps:
  "(event_claimed db e \<longrightarrow> event_claimed (deliver_all db ds) e)
   \<and> (active_unique (jobs db) \<longrightarrow> active_unique (jobs (deliver_all db ds)))
   \<and> length (jobs (deliver_all db ds)) + length (automation_events db)
       \<le> length (jobs db) + length (automation_events (deliver_all db ds))"
proof (induction db ds rule: deliver_all.induct)
  case (2 db job_id now ev ds)
  obtain db' res where c: "consume_book_event db job_id now ev = (db', res)" by fastforce
  with "2.IH" consume_keeps [OF c, of e] show ?case by auto
qed simp

text \<open>
  C22: A redelivered \<open>book.created\<close> starts nothing twice. Once a delivery of an event has been
  handled, every later delivery of it, after whatever other deliveries and failures, succeeds
  and changes nothing; and over all deliveries no two live jobs share a file and no more jobs
  are queued than events are recorded as handled.
\<close>

theorem redelivered_book_event_inert:
  assumes "consume_book_event db job_id now ev = (db1, Inr ())" and "active_unique (jobs db)"
  shows "consume_book_event (deliver_all db1 ds) job_id' now' ev = (deliver_all db1 ds, Inr ())
    \<and> active_unique (jobs (deliver_all db1 ds))
    \<and> length (jobs (deliver_all db1 ds)) + length (automation_events db)
        \<le> length (jobs db) + length (automation_events (deliver_all db1 ds))"
proof -
  note first = consume_keeps [OF assms(1), of ev] and later = deliver_keeps [of db1 ev ds]
  have "consume_book_event (deliver_all db1 ds) job_id' now' ev = (deliver_all db1 ds, Inr ())"
    using first later by (intro consume_inert) blast
  with first assms(2) later show ?thesis by simp
qed

subsection \<open>Witnesses\<close>

definition sample_row :: "string \<Rightarrow> int \<Rightarrow> int \<Rightarrow> ImportRow" where
  "sample_row title price line = \<lparr>ir_title = title, ir_subtitle = None, ir_authors = [], ir_categories = [],
     ir_isbn13 = None, ir_language = ''en'', ir_price_minor = price, ir_currency = ''INR'', ir_description = None,
     ir_source_key = Some ''up/a.pdf'', ir_line = Some line\<rparr>"

definition sample_import :: ImportCreate where
  "sample_import = \<lparr>ic_filename = ''import.csv'', ic_rows = [sample_row ''Cafe Society'' 499 2, sample_row ''cafe society'' 499 3,
     sample_row ''B'' 4 4], ic_dry_run = True, ic_options = default_options\<rparr>"

definition sample_import_env :: import_env where
  "sample_import_env = \<lparr>ie_fold = id, ie_exn_text = (\<lambda>_. ''error''), ie_services = True,
     ie_create_book = (\<lambda>_ _. Inr (JObj [(''id'', JStr ''00000000-0000-0000-0000-000000000007'')])),
     ie_draw = (\<lambda>n k. n), ie_now = (\<lambda>_. 0)\<rparr>"

definition empty_automation_db :: automation_db where
  "empty_automation_db = \<lparr>jobs = [], job_stages = [], import_batches = [], automation_events = []\<rparr>"

definition sample_dry :: "automation_db \<times> jobj list \<times> ImportOutcome" where
  "sample_dry = run_import sample_import_env 1 0 9 empty_automation_db (sample_import\<lparr>ic_dry_run := True\<rparr>) None"

definition sample_real :: "automation_db \<times> jobj list \<times> ImportOutcome" where
  "sample_real = run_import sample_import_env 2 0 9 empty_automation_db (sample_import\<lparr>ic_dry_run := False\<rparr>) None"

theorem dry_run_predicts_witness:
  "map rr_ok (io_rows (snd (snd sample_dry))) = [True, False, False]
   \<and> io_rows (snd (snd sample_real)) ! 1 = io_rows (snd (snd sample_dry)) ! 1
   \<and> fst (snd sample_real) = [book_payload sample_import_env 0 (sample_row ''Cafe Society'' 499 2)]"
proof -
  have ok: "map rr_ok (io_rows (snd (snd sample_dry))) = [True, False, False]" by code_simp
  have "1 \<notin> ib_id ` set (import_batches empty_automation_db)" by (simp add: empty_automation_db_def)
  from dry_run_predicts [OF _ _ this, of sample_import_env 0 9 sample_import None "fst sample_dry" "fst (snd sample_dry)"
      "snd (snd sample_dry)" 2 0 9 empty_automation_db None "fst sample_real" "fst (snd sample_real)" "snd (snd sample_real)"]
  have "list_all2 (\<lambda>d r. rr_ok d \<or> r = d) (io_rows (snd (snd sample_dry))) (io_rows (snd (snd sample_real)))"
    and sent: "fst (snd sample_real) = map (\<lambda>(d, i, row). book_payload sample_import_env i row)
      (filter (\<lambda>(d, i, row). rr_ok d) (zip (io_rows (snd (snd sample_dry))) (enumerate 0 (ic_rows sample_import))))"
    by (simp_all add: sample_dry_def sample_real_def sample_import_env_def)
  from list_all2_nthD [OF this(1), of 1] ok
  have "io_rows (snd (snd sample_real)) ! 1 = io_rows (snd (snd sample_dry)) ! 1"
    by (auto simp: map_eq_Cons_conv)
  moreover from ok sent have "fst (snd sample_real) = [book_payload sample_import_env 0 (sample_row ''Cafe Society'' 499 2)]"
    by (auto simp: map_eq_Cons_conv sample_import_def)
  ultimately show ?thesis using ok by simp
qed

theorem import_accounts_for_rows_witness:
  "ib_status (io_batch (snd (snd sample_real))) = ImportPartial \<and> length (jobs (fst sample_real)) = 1
   \<and> get_import (fst sample_real) 2 = Inr (io_batch (snd (snd sample_real)))"
proof -
  have "2 \<notin> ib_id ` set (import_batches empty_automation_db)" "active_unique (jobs empty_automation_db)"
    by (simp_all add: empty_automation_db_def active_unique_def)
  from import_accounts_for_rows [OF _ this, of sample_import_env 0 9 "sample_import\<lparr>ic_dry_run := False\<rparr>" None
      "fst sample_real" "fst (snd sample_real)" "snd (snd sample_real)"]
  have "get_import (fst sample_real) 2 = Inr (io_batch (snd (snd sample_real)))"
    by (simp add: sample_real_def)
  moreover have "ib_status (io_batch (snd (snd sample_real))) = ImportPartial" by code_simp
  moreover have "length (jobs (fst sample_real)) = 1" by code_simp
  ultimately show ?thesis by simp
qed

definition sample_created :: event where
  "sample_created = \<lparr>ev_type = ''book.created'',
     ev_payload = JObj [(''book_id'', JStr ''00000000-0000-0000-0000-000000000007''), (''source_key'', JStr ''up/a.pdf'')],
     ev_id = ''e1'', ev_source = ''books'', ev_correlation_id = None, ev_occurred_at = ''t'', ev_version = 1\<rparr>"

definition sample_queued :: automation_db where
  "sample_queued = fst (consume_book_event empty_automation_db 5 0 sample_created)"

theorem redelivered_book_event_inert_witness:
  "length (jobs sample_queued) = 1
   \<and> consume_book_event (deliver_all sample_queued [(6, 1, sample_created)]) 7 2 sample_created
     = (deliver_all sample_queued [(6, 1, sample_created)], Inr ())"
proof -
  have "snd (consume_book_event empty_automation_db 5 0 sample_created) = Inr ()" by code_simp
  then have c: "consume_book_event empty_automation_db 5 0 sample_created = (sample_queued, Inr ())"
    unfolding sample_queued_def by (metis prod.collapse)
  have "active_unique (jobs empty_automation_db)" by (simp add: empty_automation_db_def active_unique_def)
  from redelivered_book_event_inert [OF c this, of "[(6, 1, sample_created)]" 7 2]
  have "consume_book_event (deliver_all sample_queued [(6, 1, sample_created)]) 7 2 sample_created
      = (deliver_all sample_queued [(6, 1, sample_created)], Inr ())" by blast
  moreover have "length (jobs sample_queued) = 1" by code_simp
  ultimately show ?thesis by simp
qed

end
