(* ===== verification/Books_Models.thy ===== *)
theory Books_Models
  imports Complex_Main Entitlements Keyset "HOL-Library.List_Lexorder" "HOL-Library.Char_ord"
begin

section \<open>The tables of the books service\<close>

text \<open>
  \<open>apps/books/models.py\<close>: the catalogue with its contributors, categories and editions, reviews
  and votes, and the readers' own rows. A book extends the row of the access checks
  (\<open>Entitlements\<close>) by the columns the catalogue reads; columns that the code only copies
  between a request and the row are kept by name in \<open>cb_columns\<close>. The average rating is a
  binary float that Python rounds to three digits; it is kept in thousandths.
\<close>

datatype ReviewStatus = ReviewPending | ReviewApproved | ReviewRejected | ReviewFlagged

record catalogue_book = book_row +
  cb_title :: string
  cb_slug :: string
  cb_subtitle :: "string option"
  cb_isbn10 :: "string option"
  cb_isbn13 :: "string option"
  cb_language :: string
  cb_formats :: "string list"
  cb_pdf_key :: "string option"
  cb_epub_key :: "string option"
  cb_mobi_key :: "string option"
  cb_sample_key :: "string option"
  cb_cover_key :: "string option"
  cb_columns :: jobj
  cb_rating_average :: int
  cb_rating_count :: int
  cb_rating_sum :: int
  cb_view_count :: int
  cb_download_count :: int
  cb_published_at :: "timestamp option"
  cb_version :: nat
  cb_publisher_id :: "uuid option"
  cb_created_at :: timestamp
  cb_created_by :: "uuid option"
  cb_updated_by :: "uuid option"

record BookAuthor =
  ba_book_id :: uuid
  ba_author_id :: uuid
  ba_role :: string
  ba_display_order :: int

record BookCategory =
  bg_book_id :: uuid
  bg_category_id :: uuid
  bg_is_primary :: bool

record BookVersion =
  bv_id :: uuid
  bv_book_id :: uuid
  bv_version :: nat
  bv_pdf_key :: "string option"
  bv_epub_key :: "string option"
  bv_mobi_key :: "string option"
  bv_cover_key :: "string option"
  bv_columns :: jobj
  bv_created_by :: "uuid option"

text \<open>Authors, publishers and categories share their first columns.\<close>

record taxon =
  tx_id :: uuid
  tx_name :: string
  tx_slug :: string
  tx_columns :: jobj
  tx_deleted_at :: "timestamp option"
  tx_created_at :: timestamp

record Category = taxon +
  ct_parent_id :: "uuid option"
  ct_display_order :: int
  ct_is_active :: bool

record Review =
  rv_id :: uuid
  rv_book_id :: uuid
  rv_user_id :: uuid
  rv_rating :: int
  rv_title :: "string option"
  rv_body :: "string option"
  rv_verified_purchase :: bool
  rv_status :: ReviewStatus
  rv_helpful_count :: int
  rv_moderated_by :: "uuid option"
  rv_moderated_at :: "timestamp option"
  rv_moderation_note :: "string option"
  rv_deleted_at :: "timestamp option"
  rv_created_at :: timestamp

record ReviewVote =
  vt_review_id :: uuid
  vt_user_id :: uuid
  vt_is_helpful :: bool

record Bookmark =
  bm_id :: uuid
  bm_user_id :: uuid
  bm_book_id :: uuid
  bm_position :: string
  bm_page_number :: "int option"
  bm_note :: "string option"
  bm_colour :: "string option"
  bm_created_at :: timestamp

text \<open>Percentages are finite floats, of which only the order is used; they are kept as rationals.\<close>

record ReadingProgress =
  rp_id :: uuid
  rp_user_id :: uuid
  rp_book_id :: uuid
  rp_position :: "string option"
  rp_page_number :: "int option"
  rp_percent :: rat
  rp_total_reading_seconds :: int
  rp_is_finished :: bool
  rp_finished_at :: "timestamp option"
  rp_last_read_at :: timestamp

record WishlistItem =
  wl_user_id :: uuid
  wl_book_id :: uuid
  wl_note :: "string option"
  wl_created_at :: timestamp

record Collection =
  cl_id :: uuid
  cl_user_id :: uuid
  cl_name :: string
  cl_slug :: string
  cl_description :: "string option"
  cl_is_public :: bool
  cl_cover_key :: "string option"
  cl_item_count :: nat
  cl_deleted_at :: "timestamp option"
  cl_created_at :: timestamp

record CollectionItem =
  ci_collection_id :: uuid
  ci_book_id :: uuid
  ci_display_order :: int
  ci_note :: "string option"

record library_db =
  lb_books :: "catalogue_book list"
  lb_book_authors :: "BookAuthor list"
  lb_book_categories :: "BookCategory list"
  lb_versions :: "BookVersion list"
  lb_authors :: "taxon list"
  lb_publishers :: "taxon list"
  lb_categories :: "Category list"
  lb_reviews :: "Review list"
  lb_votes :: "ReviewVote list"
  lb_bookmarks :: "Bookmark list"
  lb_progress :: "ReadingProgress list"
  lb_wishlist :: "WishlistItem list"
  lb_collections :: "Collection list"
  lb_items :: "CollectionItem list"
  lb_entitlements :: "entitlement list"

definition empty_library :: library_db where
  "empty_library = \<lparr>lb_books = [], lb_book_authors = [], lb_book_categories = [], lb_versions = [],
     lb_authors = [], lb_publishers = [], lb_categories = [], lb_reviews = [], lb_votes = [], lb_bookmarks = [],
     lb_progress = [], lb_wishlist = [], lb_collections = [], lb_items = [], lb_entitlements = []\<rparr>"

text \<open>What the access checks read of the tables.\<close>

definition access_view :: "library_db \<Rightarrow> books_db" where
  "access_view db = \<lparr>books_tbl = map book_row.truncate (lb_books db), entitlements = lb_entitlements db,
     processed_events = []\<rparr>"

subsection \<open>Constraints\<close>

definition same_text :: "string option \<Rightarrow> string option \<Rightarrow> bool" where
  "same_text a b \<longleftrightarrow> a \<noteq> None \<and> a = b"

definition book_clash :: "catalogue_book \<Rightarrow> catalogue_book \<Rightarrow> bool" where
  "book_clash a b \<longleftrightarrow> cb_slug a = cb_slug b \<or> same_text (cb_isbn10 a) (cb_isbn10 b)
     \<or> same_text (cb_isbn13 a) (cb_isbn13 b)"

definition book_checks :: "catalogue_book \<Rightarrow> bool" where
  "book_checks b \<longleftrightarrow> 0 \<le> bk_price_minor b
     \<and> (case bk_discount_price_minor b of None \<Rightarrow> True | Some d \<Rightarrow> d \<le> bk_price_minor b)
     \<and> 0 \<le> cb_rating_count b"

definition publisher_known :: "library_db \<Rightarrow> catalogue_book \<Rightarrow> bool" where
  "publisher_known db b \<longleftrightarrow>
     (case cb_publisher_id b of None \<Rightarrow> True | Some p \<Rightarrow> p \<in> tx_id ` set (lb_publishers db))"

definition books_ok :: "library_db \<Rightarrow> catalogue_book list \<Rightarrow> bool" where
  "books_ok db t \<longleftrightarrow> sorted_wrt (\<lambda>a b. \<not> book_clash a b) t \<and> list_all book_checks t
     \<and> list_all (publisher_known db) t"

text \<open>A flush of the books table: the database keeps its constraints or refuses.\<close>

definition flush_books :: "library_db \<Rightarrow> catalogue_book list \<Rightarrow> library_db result" where
  "flush_books db t = (if books_ok db t then Inr (db\<lparr>lb_books := t\<rparr>) else Inl (PyExn ''IntegrityError''))"

definition save_book :: "library_db \<Rightarrow> catalogue_book \<Rightarrow> library_db" where
  "save_book db b = db\<lparr>lb_books := update_rows (\<lambda>r. bk_id r = bk_id b) (\<lambda>_. b) (lb_books db)\<rparr>"

subsection \<open>Derived columns\<close>

definition available_formats :: "catalogue_book \<Rightarrow> string list" where
  "available_formats b =
     map fst (filter (\<lambda>(f, key). truthy key)
       [(''pdf'', cb_pdf_key b), (''epub'', cb_epub_key b), (''mobi'', cb_mobi_key b)])
     @ (if ''audiobook'' \<in> set (cb_formats b) then [''audiobook''] else [])"

definition file_key_for :: "catalogue_book \<Rightarrow> string \<Rightarrow> string option" where
  "file_key_for b fmt =
     (case map_of [(''pdf'', cb_pdf_key b), (''epub'', cb_epub_key b), (''mobi'', cb_mobi_key b)] fmt of
        None \<Rightarrow> None | Some key \<Rightarrow> key)"

lemma available_file:
  "fmt \<in> {''pdf'', ''epub'', ''mobi''} \<Longrightarrow> fmt \<in> set (available_formats b) \<longleftrightarrow> truthy (file_key_for b fmt)"
  by (auto simp: available_formats_def file_key_for_def split: if_splits)

end
