(* ===== verification/Books_Catalogue.thy ===== *)
theory Books_Catalogue
  imports Books_Models
begin

section \<open>The catalogue\<close>

text \<open>
  \<open>apps/books/services/catalogue.py\<close> and the routes over it (\<open>routers/catalogue.py\<close>, the
  catalogue half of \<open>routers/admin.py\<close>): lookups, filters, keyset listing in the whitelisted
  orders, facets, related books, creation, partial updates, publication, soft deletion, editions
  and the download route. Texts compare by code point; the public feed's cursor is the decoded
  object, and a cursor that does not decode is the value \<open>None\<close>.

  Left out are eager loading and the Redis cache of single books, which no route ever fills.
\<close>

subsection \<open>Orderings\<close>

datatype sort_value = SvNum int | SvText string

instantiation sort_value :: linorder
begin

fun less_eq_sort_value :: "sort_value \<Rightarrow> sort_value \<Rightarrow> bool" where
  "less_eq_sort_value (SvNum a) (SvNum b) = (a \<le> b)"
| "less_eq_sort_value (SvNum a) (SvText t) = True"
| "less_eq_sort_value (SvText s) (SvNum b) = False"
| "less_eq_sort_value (SvText s) (SvText t) = (s \<le> t)"

definition less_sort_value :: "sort_value \<Rightarrow> sort_value \<Rightarrow> bool" where
  "less_sort_value x y \<longleftrightarrow> x \<le> y \<and> \<not> y \<le> x"

instance
proof
  fix x y z :: sort_value
  show "x < y \<longleftrightarrow> x \<le> y \<and> \<not> y \<le> x" by (rule less_sort_value_def)
  show "x \<le> x" by (cases x) auto
  show "x \<le> y \<Longrightarrow> y \<le> z \<Longrightarrow> x \<le> z" by (cases x; cases y; cases z) auto
  show "x \<le> y \<Longrightarrow> y \<le> x \<Longrightarrow> x = y" by (cases x; cases y) auto
  show "x \<le> y \<or> y \<le> x" by (cases x; cases y) auto
qed

end

text \<open>\<open>SORTABLE\<close>: the column a caller may order by; \<open>None\<close> for a name outside the whitelist.\<close>

definition SORTABLE :: "(string \<times> (catalogue_book \<Rightarrow> sort_value option)) list" where
  "SORTABLE =
     [(''published_at'', \<lambda>b. map_option SvNum (cb_published_at b)), (''created_at'', \<lambda>b. Some (SvNum (cb_created_at b))),
      (''price_minor'', \<lambda>b. Some (SvNum (bk_price_minor b))), (''rating_average'', \<lambda>b. Some (SvNum (cb_rating_average b))),
      (''view_count'', \<lambda>b. Some (SvNum (cb_view_count b))), (''title'', \<lambda>b. Some (SvText (cb_title b)))]"

definition NULLABLE_SORTS :: "string list" where
  "NULLABLE_SORTS = [''published_at'']"

definition FORMAT_COLUMNS :: "(string \<times> (catalogue_book \<Rightarrow> string option)) list" where
  "FORMAT_COLUMNS = [(''pdf'', cb_pdf_key), (''epub'', cb_epub_key), (''mobi'', cb_mobi_key)]"

subsection \<open>Filters\<close>

record BookFilters =
  bf_q :: "string option"
  bf_category :: "string option"
  bf_author :: "string option"
  bf_publisher :: "string option"
  bf_language :: "string option"
  bf_book_format :: "string option"
  bf_min_price_minor :: "money option"
  bf_max_price_minor :: "money option"
  bf_free_only :: bool
  bf_status :: "BookStatus option"

definition no_filters :: BookFilters where
  "no_filters = \<lparr>bf_q = None, bf_category = None, bf_author = None, bf_publisher = None, bf_language = None,
     bf_book_format = None, bf_min_price_minor = None, bf_max_price_minor = None, bf_free_only = False,
     bf_status = None\<rparr>"

text \<open>\<open>apply_search\<close>: the escaped \<open>ILIKE '%term%'\<close> finds the term itself, in either case.\<close>

definition ilike :: "string \<Rightarrow> string option \<Rightarrow> bool" where
  "ilike term x = (case x of None \<Rightarrow> False | Some s \<Rightarrow> str_contains (str_lower term) (str_lower s))"

definition has_category :: "library_db \<Rightarrow> string \<Rightarrow> uuid \<Rightarrow> bool" where
  "has_category db slug book_id \<longleftrightarrow>
     (\<exists>l \<in> set (lb_book_categories db). bg_book_id l = book_id \<and>
        (\<exists>c \<in> set (lb_categories db). tx_id c = bg_category_id l \<and> tx_slug c = slug \<and> tx_deleted_at c = None))"

definition has_author :: "library_db \<Rightarrow> string \<Rightarrow> uuid \<Rightarrow> bool" where
  "has_author db slug book_id \<longleftrightarrow>
     (\<exists>l \<in> set (lb_book_authors db). ba_book_id l = book_id \<and>
        (\<exists>a \<in> set (lb_authors db). tx_id a = ba_author_id l \<and> tx_slug a = slug \<and> tx_deleted_at a = None))"

definition has_publisher :: "library_db \<Rightarrow> string \<Rightarrow> uuid option \<Rightarrow> bool" where
  "has_publisher db slug pid \<longleftrightarrow>
     (\<exists>p \<in> set (lb_publishers db). pid = Some (tx_id p) \<and> tx_slug p = slug \<and> tx_deleted_at p = None)"

definition matches_filters :: "library_db \<Rightarrow> BookFilters \<Rightarrow> bool \<Rightarrow> catalogue_book \<Rightarrow> bool" where
  "matches_filters db f public b \<longleftrightarrow>
     bk_deleted_at b = None
     \<and> (if public then bk_status b = BookPublished
        else case bf_status f of None \<Rightarrow> True | Some s \<Rightarrow> bk_status b = s)
     \<and> (truthy (bf_q f) \<longrightarrow> (let q = or_str (bf_q f) '''' in ilike q (Some (cb_title b)) \<or> ilike q (cb_subtitle b)))
     \<and> (truthy (bf_category f) \<longrightarrow> has_category db (or_str (bf_category f) '''') (bk_id b))
     \<and> (truthy (bf_author f) \<longrightarrow> has_author db (or_str (bf_author f) '''') (bk_id b))
     \<and> (truthy (bf_publisher f) \<longrightarrow> has_publisher db (or_str (bf_publisher f) '''') (cb_publisher_id b))
     \<and> (truthy (bf_language f) \<longrightarrow> cb_language b = or_str (bf_language f) '''')
     \<and> (truthy (bf_book_format f) \<longrightarrow>
          (case map_of FORMAT_COLUMNS (or_str (bf_book_format f) '''') of None \<Rightarrow> True | Some col \<Rightarrow> col b \<noteq> None))
     \<and> (bf_free_only f \<longrightarrow> bk_price_minor b = 0 \<or> bk_discount_price_minor b = Some 0)
     \<and> (case bf_min_price_minor f of None \<Rightarrow> True | Some m \<Rightarrow> m \<le> bk_price_minor b)
     \<and> (case bf_max_price_minor f of None \<Rightarrow> True | Some m \<Rightarrow> bk_price_minor b \<le> m)"

definition base_query :: "library_db \<Rightarrow> BookFilters \<Rightarrow> bool \<Rightarrow> catalogue_book list result" where
  "base_query db f public =
     (if truthy (bf_book_format f) \<and> map_of FORMAT_COLUMNS (or_str (bf_book_format f) '''') = None
      then Inl (raise_default BadRequestError)
      else Inr (filter (matches_filters db f public) (lb_books db)))"

subsection \<open>Keyset listing\<close>

record catalogue_cursor =
  cc_s :: string
  cc_o :: string
  cc_v :: sort_value
  cc_id :: uuid

definition decode_catalogue_cursor ::
  "catalogue_cursor option \<Rightarrow> string \<Rightarrow> string \<Rightarrow> (sort_value \<times> uuid) result" where
  "decode_catalogue_cursor cursor sort_by sort_order =
     (case cursor of
        None \<Rightarrow> Inl (raise_default BadRequestError)
      | Some c \<Rightarrow> if cc_s c \<noteq> sort_by \<or> cc_o c \<noteq> sort_order then Inl (raise_default BadRequestError)
                 else Inr (cc_v c, cc_id c))"

definition sort_column :: "(catalogue_book \<Rightarrow> sort_value option) \<Rightarrow> catalogue_book \<Rightarrow> sort_value" where
  "sort_column col b = (case col b of Some v \<Rightarrow> v | None \<Rightarrow> SvNum 0)"

definition list_books ::
  "library_db \<Rightarrow> BookFilters \<Rightarrow> string \<Rightarrow> string \<Rightarrow> catalogue_cursor option option \<Rightarrow> nat \<Rightarrow> bool
     \<Rightarrow> (catalogue_book list \<times> catalogue_cursor option \<times> bool) result" where
  "list_books db f sort_by sort_order cursor limit public =
     (case map_of SORTABLE sort_by of
        None \<Rightarrow> Inl (raise_default BadRequestError)
      | Some col \<Rightarrow>
          if sort_order \<notin> {''asc'', ''desc''} then Inl (raise_default BadRequestError)
          else
            (case base_query db f public of
               Inl e \<Rightarrow> Inl e
             | Inr found \<Rightarrow>
                 let hits = (if sort_by \<in> set NULLABLE_SORTS then filter (\<lambda>b. col b \<noteq> None) found else found);
                     mint = (\<lambda>(v, i). \<lparr>cc_s = sort_by, cc_o = sort_order, cc_v = v, cc_id = i\<rparr>)
                 in
                   (case (case cursor of None \<Rightarrow> Inr None
                          | Some c \<Rightarrow> map_sum id Some (decode_catalogue_cursor c sort_by sort_order)) of
                      Inl e \<Rightarrow> Inl e
                    | Inr pos \<Rightarrow>
                        (case (if sort_order = ''desc'' then page_down (sort_column col) bk_id limit hits pos
                               else page_up (sort_column col) bk_id limit hits pos) of
                           (rows, next_pos, has_more) \<Rightarrow> Inr (rows, map_option mint next_pos, has_more)))))"

subsection \<open>Lookups\<close>

definition visible_book :: "bool \<Rightarrow> catalogue_book \<Rightarrow> bool" where
  "visible_book include_unpublished b \<longleftrightarrow>
     bk_deleted_at b = None \<and> (include_unpublished \<or> bk_status b = BookPublished)"

definition fetch_book ::
  "library_db \<Rightarrow> (catalogue_book \<Rightarrow> bool) \<Rightarrow> bool \<Rightarrow> catalogue_book option result" where
  "fetch_book db cond include_unpublished =
     one_or_none (\<lambda>b. cond b \<and> visible_book include_unpublished b) (lb_books db)"

definition found_book :: "catalogue_book option result \<Rightarrow> catalogue_book result" where
  "found_book r = (case r of Inl e \<Rightarrow> Inl e | Inr None \<Rightarrow> Inl (raise_default NotFoundError) | Inr (Some b) \<Rightarrow> Inr b)"

definition get_book_by_id :: "library_db \<Rightarrow> uuid \<Rightarrow> bool \<Rightarrow> catalogue_book result" where
  "get_book_by_id db book_id include_unpublished = found_book (fetch_book db (\<lambda>b. bk_id b = book_id) include_unpublished)"

definition get_by_slug :: "library_db \<Rightarrow> string \<Rightarrow> bool \<Rightarrow> catalogue_book result" where
  "get_by_slug db slug include_unpublished = found_book (fetch_book db (\<lambda>b. cb_slug b = slug) include_unpublished)"

definition batch_books :: "library_db \<Rightarrow> uuid list \<Rightarrow> bool \<Rightarrow> catalogue_book list" where
  "batch_books db book_ids include_unpublished =
     (if book_ids = [] then []
      else filter (\<lambda>b. bk_id b \<in> set book_ids \<and> visible_book include_unpublished b) (lb_books db))"

text \<open>\<open>/internal/books/batch\<close>: what was found, and which ids were not.\<close>

definition internal_batch_books :: "library_db \<Rightarrow> uuid list \<Rightarrow> bool \<Rightarrow> catalogue_book list \<times> uuid list" where
  "internal_batch_books db book_ids include_unpublished =
     (let rows = batch_books db book_ids include_unpublished
      in (rows, filter (\<lambda>i. i \<notin> bk_id ` set rows) book_ids))"

subsection \<open>Facets and related books\<close>

definition PRICE_BUCKETS :: "(string \<times> string \<times> money \<times> money option) list" where
  "PRICE_BUCKETS =
     [(''free'', ''Free'', 0, Some 0), (''under_200'', ''Under 200'', 1, Some 20000),
      (''200_500'', ''200 - 500'', 20001, Some 50000), (''over_500'', ''Over 500'', 50001, None)]"

definition in_bucket :: "money \<Rightarrow> money option \<Rightarrow> catalogue_book \<Rightarrow> bool" where
  "in_bucket low high b \<longleftrightarrow> low \<le> bk_price_minor b
     \<and> (case high of None \<Rightarrow> True | Some h \<Rightarrow> bk_price_minor b \<le> h)"

record CatalogueFacets =
  fc_categories :: "(string \<times> string \<times> nat) list"
  fc_languages :: "(string \<times> nat) list"
  fc_price_ranges :: "(string \<times> string \<times> nat) list"

text \<open>\<open>GROUP BY\<close> with the groups in order of first appearance, then ordered by falling count and name.\<close>

definition group_counts :: "('a \<Rightarrow> 'g) \<Rightarrow> ('g \<Rightarrow> string) \<Rightarrow> 'a list \<Rightarrow> ('g \<times> nat) list" where
  "group_counts g name rows =
     sort_key (\<lambda>(x, n). (- int n, name x))
       (map (\<lambda>x. (x, count_rows (\<lambda>r. g r = x) rows)) (remdups (map g rows)))"

definition facets :: "library_db \<Rightarrow> BookFilters \<Rightarrow> bool \<Rightarrow> CatalogueFacets result" where
  "facets db f public =
     (case base_query db f public of
        Inl e \<Rightarrow> Inl e
      | Inr found \<Rightarrow>
          let ids = map bk_id found;
              links = concat (map (\<lambda>c. map (\<lambda>l. (tx_slug c, tx_name c))
                        (filter (\<lambda>l. bg_category_id l = tx_id c \<and> bg_book_id l \<in> set ids) (lb_book_categories db)))
                        (filter (\<lambda>c. tx_deleted_at c = None) (lb_categories db)))
          in Inr \<lparr>fc_categories = map (\<lambda>((slug, name), n). (slug, name, n)) (group_counts id snd links),
                  fc_languages = group_counts cb_language id found,
                  fc_price_ranges = map (\<lambda>(key, label, low, high). (key, label, count_rows (in_bucket low high) found))
                    PRICE_BUCKETS\<rparr>)"

definition shares_category :: "library_db \<Rightarrow> uuid \<Rightarrow> uuid \<Rightarrow> bool" where
  "shares_category db a b \<longleftrightarrow>
     (\<exists>l \<in> set (lb_book_categories db). bg_book_id l = a \<and>
        (\<exists>k \<in> set (lb_book_categories db). bg_book_id k = b \<and> bg_category_id k = bg_category_id l))"

definition related_books :: "library_db \<Rightarrow> catalogue_book \<Rightarrow> nat \<Rightarrow> catalogue_book list" where
  "related_books db book limit =
     (let others = filter (\<lambda>b. bk_id b \<noteq> bk_id book \<and> visible_book False b) (lb_books db);
          rows = take limit (sort_key (\<lambda>b. (- cb_rating_average b, - cb_rating_count b, - int (bk_id b)))
                   (filter (\<lambda>b. shares_category db (bk_id book) (bk_id b)) others))
      in if rows \<noteq> [] then rows
         else take limit (sort_key (\<lambda>b. (- cb_rating_average b, - int (bk_id b))) others))"

subsection \<open>Contributors and categories\<close>

record BookContributorIn =
  co_author_id :: uuid
  co_role :: string
  co_display_order :: int

fun first_per :: "('a \<Rightarrow> 'k) \<Rightarrow> 'k list \<Rightarrow> 'a list \<Rightarrow> 'a list" where
  "first_per key seen [] = []"
| "first_per key seen (x # xs) =
     (if key x \<in> set seen then first_per key seen xs else x # first_per key (key x # seen) xs)"

definition replace_contributors :: "library_db \<Rightarrow> uuid \<Rightarrow> BookContributorIn list \<Rightarrow> library_db result" where
  "replace_contributors db book_id cs =
     (let known = (\<lambda>i. \<exists>a \<in> set (lb_authors db). tx_id a = i \<and> tx_deleted_at a = None);
          kept = delete_rows (\<lambda>l. ba_book_id l = book_id) (lb_book_authors db)
      in if \<exists>c \<in> set cs. \<not> known (co_author_id c) then Inl (raise_default NotFoundError)
         else Inr (db\<lparr>lb_book_authors := kept @ map (\<lambda>c. \<lparr>ba_book_id = book_id, ba_author_id = co_author_id c,
                     ba_role = co_role c, ba_display_order = co_display_order c\<rparr>) (first_per co_author_id [] cs)\<rparr>))"

fun primary_first :: "bool \<Rightarrow> uuid \<Rightarrow> uuid list \<Rightarrow> BookCategory list" where
  "primary_first p book_id [] = []"
| "primary_first p book_id (c # cs) =
     \<lparr>bg_book_id = book_id, bg_category_id = c, bg_is_primary = p\<rparr> # primary_first False book_id cs"

definition replace_categories :: "library_db \<Rightarrow> uuid \<Rightarrow> uuid list \<Rightarrow> library_db result" where
  "replace_categories db book_id category_ids =
     (let known = (\<lambda>i. \<exists>c \<in> set (lb_categories db). tx_id c = i \<and> tx_deleted_at c = None);
          kept = delete_rows (\<lambda>l. bg_book_id l = book_id) (lb_book_categories db)
      in if \<exists>i \<in> set category_ids. \<not> known i then Inl (raise_default NotFoundError)
         else Inr (db\<lparr>lb_book_categories := kept @ primary_first True book_id (first_per id [] category_ids)\<rparr>))"

subsection \<open>Creation and update\<close>

record BookCreate =
  bc_title :: string
  bc_slug :: string
  bc_subtitle :: "string option"
  bc_isbn10 :: "string option"
  bc_isbn13 :: "string option"
  bc_language :: string
  bc_price_minor :: money
  bc_discount_price_minor :: "money option"
  bc_formats :: "string list"
  bc_pdf_key :: "string option"
  bc_epub_key :: "string option"
  bc_mobi_key :: "string option"
  bc_sample_key :: "string option"
  bc_cover_key :: "string option"
  bc_columns :: jobj
  bc_publisher_id :: "uuid option"
  bc_author_ids :: "BookContributorIn list"
  bc_category_ids :: "uuid list"

text \<open>
  The validators of \<open>BookBase\<close>. \<open>isdigit\<close> is that of ASCII digits, and a text of digits and X is
  all that \<open>upper\<close> sees; the bounds on lengths are left to the request parser.
\<close>

definition digits_only :: "string \<Rightarrow> string result" where
  "digits_only value =
     (let stripped = filter (\<lambda>c. c \<noteq> CHR ''-'' \<and> c \<noteq> CHR '' '') value
      in if butlast stripped = [] \<or> \<not> list_all (\<lambda>c. digit_value c \<noteq> None) (butlast stripped)
            \<or> \<not> (digit_value (last stripped) \<noteq> None \<or> last stripped = CHR ''X'' \<or> last stripped = CHR ''x'')
         then Inl RequestValidationExn
         else Inr (map (\<lambda>c. if c = CHR ''x'' then CHR ''X'' else c) stripped))"

definition checked_isbn :: "string option \<Rightarrow> string option result" where
  "checked_isbn v = (case v of None \<Rightarrow> Inr None | Some s \<Rightarrow> map_sum id Some (digits_only s))"

definition checked_create :: "BookCreate \<Rightarrow> BookCreate result" where
  "checked_create p =
     (case checked_isbn (bc_isbn10 p) of Inl e \<Rightarrow> Inl e
      | Inr i10 \<Rightarrow> (case checked_isbn (bc_isbn13 p) of Inl e \<Rightarrow> Inl e
        | Inr i13 \<Rightarrow>
            if bc_price_minor p < 0
               \<or> (case bc_discount_price_minor p of None \<Rightarrow> False | Some d \<Rightarrow> d < 0 \<or> d > bc_price_minor p)
            then Inl RequestValidationExn
            else Inr (p\<lparr>bc_isbn10 := i10, bc_isbn13 := i13\<rparr>)))"

text \<open>A field of a partial update is absent, null, or a value.\<close>

type_synonym 'a patch = "'a option option"

record BookUpdate =
  bu_title :: "string patch"
  bu_slug :: "string patch"
  bu_subtitle :: "string patch"
  bu_isbn10 :: "string patch"
  bu_isbn13 :: "string patch"
  bu_language :: "string patch"
  bu_price_minor :: "money patch"
  bu_discount_price_minor :: "money patch"
  bu_formats :: "string list patch"
  bu_pdf_key :: "string patch"
  bu_epub_key :: "string patch"
  bu_mobi_key :: "string patch"
  bu_sample_key :: "string patch"
  bu_cover_key :: "string patch"
  bu_columns :: jobj
  bu_publisher_id :: "uuid patch"
  bu_author_ids :: "BookContributorIn list option"
  bu_category_ids :: "uuid list option"

text \<open>
  The field constraints of \<open>BookUpdate\<close>; those of the fields kept in \<open>bu_columns\<close> are left to the
  request parser. Unlike \<open>BookBase\<close> it has no validator for the ISBNs and none that compares the
  discount with the price.
\<close>

definition length_ok :: "nat \<Rightarrow> nat \<Rightarrow> string patch \<Rightarrow> bool" where
  "length_ok lo hi p = (case p of Some (Some s) \<Rightarrow> lo \<le> length s \<and> length s \<le> hi | _ \<Rightarrow> True)"

definition amount_ok :: "money patch \<Rightarrow> bool" where
  "amount_ok p = (case p of Some (Some v) \<Rightarrow> 0 \<le> v | _ \<Rightarrow> True)"

definition slug_pattern :: "string \<Rightarrow> bool" where
  "slug_pattern s \<longleftrightarrow>
     list_all (\<lambda>part. part \<noteq> [] \<and> list_all (\<lambda>c. c \<in> set lower_letters \<or> digit_value c \<noteq> None) part) (str_split (CHR ''-'') s)"

definition valid_update :: "BookUpdate \<Rightarrow> bool" where
  "valid_update u \<longleftrightarrow> length_ok 1 500 (bu_title u) \<and> length_ok 1 255 (bu_slug u)
     \<and> (case bu_slug u of Some (Some s) \<Rightarrow> slug_pattern s | _ \<Rightarrow> True)
     \<and> length_ok 0 500 (bu_subtitle u) \<and> length_ok 10 13 (bu_isbn10 u) \<and> length_ok 13 17 (bu_isbn13 u)
     \<and> length_ok 2 10 (bu_language u) \<and> amount_ok (bu_price_minor u) \<and> amount_ok (bu_discount_price_minor u)
     \<and> (case bu_formats u of Some (Some fs) \<Rightarrow> list_all (\<lambda>f. f \<in> {''pdf'', ''epub'', ''mobi'', ''audiobook''}) fs | _ \<Rightarrow> True)
     \<and> list_all (length_ok 0 500) [bu_cover_key u, bu_pdf_key u, bu_epub_key u, bu_mobi_key u, bu_sample_key u]"

definition slug_taken :: "library_db \<Rightarrow> string \<Rightarrow> bool" where
  "slug_taken db slug \<longleftrightarrow> (\<exists>b \<in> set (lb_books db). cb_slug b = slug)"

definition new_book :: "uuid \<Rightarrow> timestamp \<Rightarrow> BookCreate \<Rightarrow> uuid option \<Rightarrow> catalogue_book" where
  "new_book book_id now p actor =
     \<lparr>bk_id = book_id, bk_price_minor = bc_price_minor p, bk_discount_price_minor = bc_discount_price_minor p,
      bk_status = BookDraft, bk_deleted_at = None, cb_title = bc_title p, cb_slug = bc_slug p,
      cb_subtitle = bc_subtitle p, cb_isbn10 = bc_isbn10 p, cb_isbn13 = bc_isbn13 p, cb_language = bc_language p,
      cb_formats = bc_formats p, cb_pdf_key = bc_pdf_key p, cb_epub_key = bc_epub_key p, cb_mobi_key = bc_mobi_key p,
      cb_sample_key = bc_sample_key p, cb_cover_key = bc_cover_key p, cb_columns = bc_columns p,
      cb_rating_average = 0, cb_rating_count = 0, cb_rating_sum = 0, cb_view_count = 0, cb_download_count = 0,
      cb_published_at = None, cb_version = 1, cb_publisher_id = bc_publisher_id p, cb_created_at = now,
      cb_created_by = actor, cb_updated_by = actor\<rparr>"

definition as_conflict :: "'a result \<Rightarrow> 'a result" where
  "as_conflict r = (case r of Inl e \<Rightarrow> Inl (raise_default ConflictError) | Inr x \<Rightarrow> Inr x)"

definition create_catalogue_book ::
  "library_db \<Rightarrow> uuid \<Rightarrow> timestamp \<Rightarrow> BookCreate \<Rightarrow> uuid option \<Rightarrow> (library_db \<times> catalogue_book) result" where
  "create_catalogue_book db book_id now p actor =
     (if slug_taken db (bc_slug p) then Inl (raise_default ConflictError)
      else
        case as_conflict (flush_books db (lb_books db @ [new_book book_id now p actor])) of
          Inl e \<Rightarrow> Inl e
        | Inr db1 \<Rightarrow>
            (case replace_contributors db1 book_id (bc_author_ids p) of
               Inl e \<Rightarrow> Inl e
             | Inr db2 \<Rightarrow>
                 (case replace_categories db2 book_id (bc_category_ids p) of
                    Inl e \<Rightarrow> Inl e
                  | Inr db3 \<Rightarrow> map_sum id (Pair db3) (get_book_by_id db3 book_id True))))"

definition patched :: "'a patch \<Rightarrow> 'a \<Rightarrow> 'a" where
  "patched u old = (case u of Some (Some v) \<Rightarrow> v | _ \<Rightarrow> old)"

definition patched_opt :: "'a patch \<Rightarrow> 'a option \<Rightarrow> 'a option" where
  "patched_opt u old = (case u of None \<Rightarrow> old | Some v \<Rightarrow> v)"

definition patch_book :: "BookUpdate \<Rightarrow> uuid option \<Rightarrow> catalogue_book \<Rightarrow> catalogue_book" where
  "patch_book u actor b = b
     \<lparr>cb_title := patched (bu_title u) (cb_title b), cb_slug := patched (bu_slug u) (cb_slug b),
      cb_subtitle := patched_opt (bu_subtitle u) (cb_subtitle b), cb_isbn10 := patched_opt (bu_isbn10 u) (cb_isbn10 b),
      cb_isbn13 := patched_opt (bu_isbn13 u) (cb_isbn13 b), cb_language := patched (bu_language u) (cb_language b),
      bk_price_minor := patched (bu_price_minor u) (bk_price_minor b),
      bk_discount_price_minor := patched_opt (bu_discount_price_minor u) (bk_discount_price_minor b),
      cb_formats := (case bu_formats u of None \<Rightarrow> cb_formats b | Some None \<Rightarrow> [] | Some (Some fs) \<Rightarrow> fs),
      cb_pdf_key := patched_opt (bu_pdf_key u) (cb_pdf_key b), cb_epub_key := patched_opt (bu_epub_key u) (cb_epub_key b),
      cb_mobi_key := patched_opt (bu_mobi_key u) (cb_mobi_key b),
      cb_sample_key := patched_opt (bu_sample_key u) (cb_sample_key b),
      cb_cover_key := patched_opt (bu_cover_key u) (cb_cover_key b), cb_columns := dict_update (cb_columns b) (bu_columns u),
      cb_publisher_id := patched_opt (bu_publisher_id u) (cb_publisher_id b), cb_updated_by := actor\<rparr>"

text \<open>Columns that may not be null; a null in the request fails at the flush.\<close>

definition null_violation :: "BookUpdate \<Rightarrow> bool" where
  "null_violation u \<longleftrightarrow> bu_title u = Some None \<or> bu_slug u = Some None \<or> bu_language u = Some None
     \<or> bu_price_minor u = Some None"

definition flush_update :: "library_db \<Rightarrow> BookUpdate \<Rightarrow> catalogue_book \<Rightarrow> library_db result" where
  "flush_update db u b =
     (if null_violation u then Inl (PyExn ''IntegrityError'')
      else flush_books db (update_rows (\<lambda>r. bk_id r = bk_id b) (\<lambda>_. b) (lb_books db)))"

definition optionally :: "('a \<Rightarrow> library_db result) \<Rightarrow> library_db \<Rightarrow> 'a option \<Rightarrow> library_db result" where
  "optionally f db x = (case x of None \<Rightarrow> Inr db | Some v \<Rightarrow> f v)"

definition update_catalogue_book ::
  "library_db \<Rightarrow> catalogue_book \<Rightarrow> BookUpdate \<Rightarrow> uuid option \<Rightarrow> (library_db \<times> catalogue_book) result" where
  "update_catalogue_book db book u actor =
     (if bu_slug u \<noteq> None \<and> bu_slug u \<noteq> Some (Some (cb_slug book))
         \<and> (case bu_slug u of Some (Some s) \<Rightarrow> slug_taken db s | _ \<Rightarrow> False)
      then Inl (raise_default ConflictError)
      else
        let book' = patch_book u actor book in
        case optionally (replace_contributors db (bk_id book)) db (bu_author_ids u) of
          Inl e \<Rightarrow> Inl e
        | Inr db1 \<Rightarrow>
            (case optionally (replace_categories db1 (bk_id book)) db1 (bu_category_ids u) of
               Inl e \<Rightarrow> Inl e
             | Inr db2 \<Rightarrow>
                 (case as_conflict (flush_update db2 u book') of
                    Inl e \<Rightarrow> Inl e
                  | Inr db3 \<Rightarrow> map_sum id (Pair db3) (get_book_by_id db3 (bk_id book) True))))"

subsection \<open>Lifecycle\<close>

definition publish_catalogue_book ::
  "library_db \<Rightarrow> timestamp \<Rightarrow> catalogue_book \<Rightarrow> uuid option \<Rightarrow> timestamp option \<Rightarrow> (library_db \<times> catalogue_book) result" where
  "publish_catalogue_book db now book actor published_at =
     (if available_formats book = [] then Inl (raise_default ConflictError)
      else
        let book' = book\<lparr>bk_status := BookPublished,
               cb_published_at := Some (opt_default published_at (opt_default (cb_published_at book) now)),
               cb_updated_by := actor\<rparr>
        in Inr (save_book db book', book'))"

definition unpublish_catalogue_book ::
  "library_db \<Rightarrow> catalogue_book \<Rightarrow> uuid option \<Rightarrow> library_db \<times> catalogue_book" where
  "unpublish_catalogue_book db book actor =
     (let book' = book\<lparr>bk_status := BookUnpublished, cb_updated_by := actor\<rparr> in (save_book db book', book'))"

definition soft_delete_book :: "library_db \<Rightarrow> timestamp \<Rightarrow> catalogue_book \<Rightarrow> uuid option \<Rightarrow> library_db \<times> catalogue_book" where
  "soft_delete_book db now book actor =
     (let book' = book\<lparr>bk_deleted_at := Some now, bk_status := BookArchived, cb_updated_by := actor\<rparr>
      in (save_book db book', book'))"

record BookVersionCreate =
  vc_pdf_key :: "string option"
  vc_epub_key :: "string option"
  vc_mobi_key :: "string option"
  vc_cover_key :: "string option"
  vc_columns :: jobj

definition version_clash :: "BookVersion \<Rightarrow> BookVersion \<Rightarrow> bool" where
  "version_clash a b \<longleftrightarrow> bv_book_id a = bv_book_id b \<and> bv_version a = bv_version b"

definition promoted :: "string option \<Rightarrow> string option \<Rightarrow> string option" where
  "promoted new old = (case new of None \<Rightarrow> old | Some k \<Rightarrow> Some k)"

definition add_book_version ::
  "library_db \<Rightarrow> uuid \<Rightarrow> catalogue_book \<Rightarrow> BookVersionCreate \<Rightarrow> uuid option \<Rightarrow> (library_db \<times> BookVersion) result" where
  "add_book_version db version_id book p actor =
     (let v = \<lparr>bv_id = version_id, bv_book_id = bk_id book, bv_version = cb_version book + 1,
               bv_pdf_key = vc_pdf_key p, bv_epub_key = vc_epub_key p, bv_mobi_key = vc_mobi_key p,
               bv_cover_key = vc_cover_key p, bv_columns = vc_columns p, bv_created_by = actor\<rparr>;
          book' = book\<lparr>cb_pdf_key := promoted (vc_pdf_key p) (cb_pdf_key book),
               cb_epub_key := promoted (vc_epub_key p) (cb_epub_key book),
               cb_mobi_key := promoted (vc_mobi_key p) (cb_mobi_key book),
               cb_cover_key := promoted (vc_cover_key p) (cb_cover_key book),
               cb_version := cb_version book + 1, cb_updated_by := actor\<rparr>
      in case insert_unique version_clash v (lb_versions db) of
           None \<Rightarrow> Inl (PyExn ''IntegrityError'')
         | Some vs \<Rightarrow> Inr ((save_book db book')\<lparr>lb_versions := vs\<rparr>, v))"

definition increment_download_count :: "library_db \<Rightarrow> uuid \<Rightarrow> library_db" where
  "increment_download_count db book_id =
     db\<lparr>lb_books := update_rows (\<lambda>b. bk_id b = book_id) (\<lambda>b. b\<lparr>cb_download_count := cb_download_count b + 1\<rparr>)
          (lb_books db)\<rparr>"

subsection \<open>Routes\<close>

record books_settings =
  bs_free_books_readable :: bool
  bs_reviews_require_moderation :: bool
  bs_download_url_ttl :: nat

fun book_status_text :: "BookStatus \<Rightarrow> string" where
  "book_status_text BookDraft = ''draft''"
| "book_status_text BookProcessing = ''processing''"
| "book_status_text BookPendingReview = ''pending_review''"
| "book_status_text BookPublished = ''published''"
| "book_status_text BookUnpublished = ''unpublished''"
| "book_status_text BookRejected = ''rejected''"
| "book_status_text BookArchived = ''archived''"

definition announce_book :: "string \<Rightarrow> catalogue_book \<Rightarrow> string \<times> jobj" where
  "announce_book event_type b =
     (event_type, [(''book_id'', JStr (str_uuid (bk_id b))), (''slug'', JStr (cb_slug b)),
        (''status'', JStr (book_status_text (bk_status b)))])"

text \<open>A staff route loads the book whatever its status, acts on it and announces the result.\<close>

definition on_book ::
  "library_db \<Rightarrow> uuid \<Rightarrow> string \<Rightarrow> (catalogue_book \<Rightarrow> (library_db \<times> catalogue_book) result)
     \<Rightarrow> (library_db \<times> catalogue_book \<times> (string \<times> jobj)) result" where
  "on_book db book_id event_type act =
     (case get_book_by_id db book_id True of
        Inl e \<Rightarrow> Inl e
      | Inr book \<Rightarrow> (case act book of Inl e \<Rightarrow> Inl e
                     | Inr (db', b') \<Rightarrow> Inr (db', b', announce_book event_type b')))"

definition create_book_route where
  "create_book_route db book_id now p actor =
     (case checked_create p of Inl e \<Rightarrow> Inl e
      | Inr q \<Rightarrow> map_sum id (\<lambda>(db', b). (db', b, announce_book ''book.created'' b))
                   (create_catalogue_book db book_id now q actor))"

definition update_book_route where
  "update_book_route db book_id u actor =
     (if \<not> valid_update u then Inl RequestValidationExn
      else on_book db book_id ''book.updated'' (\<lambda>b. update_catalogue_book db b u actor))"

definition publish_book_route where
  "publish_book_route db now book_id actor =
     on_book db book_id ''book.published'' (\<lambda>b. publish_catalogue_book db now b actor None)"

definition unpublish_book_route where
  "unpublish_book_route db book_id actor =
     on_book db book_id ''book.unpublished'' (\<lambda>b. Inr (unpublish_catalogue_book db b actor))"

definition delete_book_route where
  "delete_book_route db now book_id actor =
     on_book db book_id ''book.deleted'' (\<lambda>b. Inr (soft_delete_book db now b actor))"

definition add_version_route ::
  "library_db \<Rightarrow> uuid \<Rightarrow> uuid \<Rightarrow> BookVersionCreate \<Rightarrow> uuid option \<Rightarrow> (library_db \<times> BookVersion) result" where
  "add_version_route db version_id book_id p actor =
     (case get_book_by_id db book_id True of Inl e \<Rightarrow> Inl e | Inr b \<Rightarrow> add_book_version db version_id b p actor)"

text \<open>The pipeline and the bulk import use the same operations, on nobody's account.\<close>

definition internal_create_book where
  "internal_create_book db book_id now p = create_book_route db book_id now p None"

definition internal_update_book where
  "internal_update_book db book_id u = update_book_route db book_id u None"

definition internal_get_book :: "library_db \<Rightarrow> uuid \<Rightarrow> catalogue_book result" where
  "internal_get_book db book_id = get_book_by_id db book_id True"

definition internal_publish where
  "internal_publish db now book_id =
     on_book db book_id ''book.published'' (\<lambda>b. publish_catalogue_book db now b None None)"

definition check_access :: "library_db \<Rightarrow> books_settings \<Rightarrow> timestamp \<Rightarrow> uuid \<Rightarrow> uuid \<Rightarrow> AccessOut result" where
  "check_access db st now user_id book_id =
     (case get_book_by_id db book_id False of
        Inl e \<Rightarrow> Inl e
      | Inr b \<Rightarrow> Inr (book_access (access_view db) (bs_free_books_readable st) now user_id (book_row.truncate b)))"

record DownloadTicket =
  dt_book_id :: uuid
  dt_format :: string
  dt_url :: string
  dt_expires_at :: timestamp
  dt_filename :: string

definition DOWNLOAD_PREFERENCE :: "string list" where
  "DOWNLOAD_PREFERENCE = [''pdf'', ''epub'', ''mobi'']"

text \<open>\<open>sign\<close> is \<open>storage.signed_download_url\<close>: the URL for a key, a lifetime and a file name.\<close>

definition download_book ::
  "(string \<Rightarrow> nat \<Rightarrow> string \<Rightarrow> string result) \<Rightarrow> library_db \<Rightarrow> books_settings \<Rightarrow> timestamp \<Rightarrow> uuid \<Rightarrow> uuid
     \<Rightarrow> string option \<Rightarrow> (library_db \<times> DownloadTicket) result" where
  "download_book sign db st now user_id book_id book_format =
     (case get_book_by_id db book_id False of
        Inl e \<Rightarrow> Inl e
      | Inr book \<Rightarrow>
          (case require_download (access_view db) (bs_free_books_readable st) now user_id (book_row.truncate book) of
             Inl e \<Rightarrow> Inl e
           | Inr _ \<Rightarrow>
               (case (case book_format of Some f \<Rightarrow> Some f
                      | None \<Rightarrow> find (\<lambda>f. f \<in> set (available_formats book)) DOWNLOAD_PREFERENCE) of
                  None \<Rightarrow> Inl (raise_default NotFoundError)
                | Some fmt \<Rightarrow>
                    if \<not> truthy (file_key_for book fmt) then Inl (raise_default NotFoundError)
                    else
                      let filename = cb_slug book @ ''.'' @ fmt in
                      (case sign (or_str (file_key_for book fmt) '''') (bs_download_url_ttl st) filename of
                         Inl e \<Rightarrow> Inl e
                       | Inr url \<Rightarrow>
                           Inr (increment_download_count db (bk_id book),
                                \<lparr>dt_book_id = bk_id book, dt_format = fmt, dt_url = url,
                                 dt_expires_at = now + 1000000 * int (bs_download_url_ttl st),
                                 dt_filename = filename\<rparr>)))))"

subsection \<open>Lemmas: lookups and saves\<close>

lemma one_or_none_Some: "one_or_none P t = Inr (Some r) \<Longrightarrow> filter P t = [r]"
  by (auto simp: one_or_none_def split: list.splits)

lemma filter_id_singleton:
  assumes "distinct (map k t)" and "r \<in> set t" and "k r = i"
  shows "filter (\<lambda>x. k x = i \<and> P x) t = (if P r then [r] else [])"
proof -
  obtain xs ys where t: "t = xs @ r # ys" using assms(2) by (meson split_list)
  with assms(1,3) have "i \<notin> k ` set xs" "i \<notin> k ` set ys" by auto
  then have "filter (\<lambda>x. k x = i \<and> P x) xs = []" "filter (\<lambda>x. k x = i \<and> P x) ys = []"
    by (auto simp: filter_empty_conv)
  with t assms(3) show ?thesis by simp
qed

lemma get_book_by_id_found:
  assumes "get_book_by_id db i u = Inr b"
  shows "b \<in> set (lb_books db)" and "bk_id b = i" and "visible_book u b"
proof -
  have "filter (\<lambda>b. bk_id b = i \<and> visible_book u b) (lb_books db) = [b]"
    using assms by (auto simp: get_book_by_id_def fetch_book_def found_book_def split: sum.splits option.splits
        dest: one_or_none_Some)
  then have "b \<in> set (filter (\<lambda>b. bk_id b = i \<and> visible_book u b) (lb_books db))" by simp
  then show "b \<in> set (lb_books db)" "bk_id b = i" "visible_book u b" by auto
qed

lemma get_by_id_row:
  assumes "distinct (map bk_id (lb_books db))" and "b \<in> set (lb_books db)" and "bk_id b = i"
  shows "get_book_by_id db i u = (if visible_book u b then Inr b else Inl (raise_default NotFoundError))"
  using filter_id_singleton [OF assms]
  by (simp add: get_book_by_id_def fetch_book_def found_book_def one_or_none_def)

lemma save_book_as_update:
  assumes "distinct (map bk_id (lb_books db))" and "b \<in> set (lb_books db)" and "bk_id b' = bk_id b" and "b' = f b"
  shows "save_book db b' = db\<lparr>lb_books := update_rows (\<lambda>r. bk_id r = bk_id b) f (lb_books db)\<rparr>"
proof -
  have "r = b" if "r \<in> set (lb_books db)" "bk_id r = bk_id b" for r
    using assms(1,2) that by (auto simp: distinct_map dest: inj_onD)
  then have "update_rows (\<lambda>r. bk_id r = bk_id b) (\<lambda>_. b') (lb_books db)
      = update_rows (\<lambda>r. bk_id r = bk_id b) f (lb_books db)"
    using assms(4) by (auto simp: update_rows_def)
  then show ?thesis using assms(3) by (simp add: save_book_def)
qed

definition constrained :: "catalogue_book \<Rightarrow> string \<times> string option \<times> string option \<times> money \<times> money option \<times> int \<times> uuid option" where
  "constrained b = (cb_slug b, cb_isbn10 b, cb_isbn13 b, bk_price_minor b, bk_discount_price_minor b, cb_rating_count b,
     cb_publisher_id b)"

lemma books_ok_columns:
  assumes "books_ok db t" and "map constrained t' = map constrained t" and "lb_publishers db' = lb_publishers db"
  shows "books_ok db' t'"
proof -
  let ?clash = "\<lambda>(s, i, j, _) (s', i', j', _). s = s' \<or> same_text i i' \<or> same_text j j'"
  let ?ok = "\<lambda>(s, i, j, p, d, n, q). 0 \<le> p \<and> (case d of None \<Rightarrow> True | Some d \<Rightarrow> d \<le> p) \<and> 0 \<le> n
     \<and> (case q of None \<Rightarrow> True | Some q \<Rightarrow> q \<in> tx_id ` set (lb_publishers db))"
  have char: "books_ok d t \<longleftrightarrow> sorted_wrt (\<lambda>a b. \<not> ?clash a b) (map constrained t) \<and> list_all ?ok (map constrained t)"
    if "lb_publishers d = lb_publishers db" for d t
    unfolding books_ok_def publisher_known_def that
    by (auto simp: sorted_wrt_map constrained_def book_clash_def book_checks_def list_all_iff)
  show ?thesis using assms char [of db t] char [of db' t'] by simp
qed

lemma map_update_same: "(\<And>r. r \<in> set t \<Longrightarrow> P r \<Longrightarrow> k (f r) = k r) \<Longrightarrow> map k (update_rows P f t) = map k t"
  by (induction t) auto

subsection \<open>Paging through the catalogue\<close>

definition catalogue_fetch ::
  "library_db \<Rightarrow> BookFilters \<Rightarrow> string \<Rightarrow> string \<Rightarrow> nat \<Rightarrow> bool \<Rightarrow> catalogue_cursor option
     \<Rightarrow> catalogue_book list \<times> catalogue_cursor option \<times> bool" where
  "catalogue_fetch db f sort_by sort_order limit public c =
     (case list_books db f sort_by sort_order (map_option Some c) limit public of
        Inl e \<Rightarrow> ([], None, False) | Inr page \<Rightarrow> page)"

definition catalogue_feed ::
  "library_db \<Rightarrow> BookFilters \<Rightarrow> string \<Rightarrow> string \<Rightarrow> bool \<Rightarrow> catalogue_book list" where
  "catalogue_feed db f sort_by sort_order public =
     (let col = the (map_of SORTABLE sort_by);
          hits = filter (\<lambda>b. matches_filters db f public b \<and> (sort_by \<in> set NULLABLE_SORTS \<longrightarrow> col b \<noteq> None)) (lb_books db)
      in (if sort_order = ''desc'' then descending (sort_column col) bk_id hits
          else ascending (sort_column col) bk_id hits))"

lemma catalogue_feed_members:
  assumes "map_of SORTABLE sort_by = Some col"
  shows "set (catalogue_feed db f sort_by sort_order public)
      = {b \<in> set (lb_books db). matches_filters db f public b \<and> (sort_by = ''published_at'' \<longrightarrow> cb_published_at b \<noteq> None)}"
proof -
  have "sort_by \<in> set NULLABLE_SORTS \<longleftrightarrow> sort_by = ''published_at''" by (simp add: NULLABLE_SORTS_def)
  moreover have "sort_by = ''published_at'' \<Longrightarrow> col b \<noteq> None \<longleftrightarrow> cb_published_at b \<noteq> None" for b
    using assms by (auto simp: SORTABLE_def)
  ultimately show ?thesis by (auto simp: catalogue_feed_def assms Let_def descending_def ascending_def)
qed

text \<open>The pages behind the minted cursors: none is refused.\<close>

definition mint_cursor :: "string \<Rightarrow> string \<Rightarrow> sort_value \<times> uuid \<Rightarrow> catalogue_cursor" where
  "mint_cursor sort_by sort_order pos = \<lparr>cc_s = sort_by, cc_o = sort_order, cc_v = fst pos, cc_id = snd pos\<rparr>"

definition catalogue_page ::
  "library_db \<Rightarrow> BookFilters \<Rightarrow> string \<Rightarrow> string \<Rightarrow> nat \<Rightarrow> bool \<Rightarrow> (sort_value \<times> uuid) option
     \<Rightarrow> catalogue_book list \<times> (sort_value \<times> uuid) option \<times> bool" where
  "catalogue_page db f sort_by sort_order limit public =
     (let col = the (map_of SORTABLE sort_by);
          hits = filter (\<lambda>b. matches_filters db f public b \<and> (sort_by \<in> set NULLABLE_SORTS \<longrightarrow> col b \<noteq> None)) (lb_books db)
      in if sort_order = ''desc'' then page_down (sort_column col) bk_id limit hits
         else page_up (sort_column col) bk_id limit hits)"

lemma list_books_page:
  assumes "map_of SORTABLE sort_by = Some col" and "sort_order \<in> {''asc'', ''desc''}" and "base_query db f public = Inr found"
  shows "list_books db f sort_by sort_order (map_option Some (map_option (mint_cursor sort_by sort_order) c)) limit public
    = Inr (case catalogue_page db f sort_by sort_order limit public c of
             (rows, next_pos, has_more) \<Rightarrow> (rows, map_option (mint_cursor sort_by sort_order) next_pos, has_more))"
proof -
  let ?hits = "filter (\<lambda>b. matches_filters db f public b \<and> (sort_by \<in> set NULLABLE_SORTS \<longrightarrow> col b \<noteq> None)) (lb_books db)"
  have mint: "(\<lambda>(v, i). \<lparr>cc_s = sort_by, cc_o = sort_order, cc_v = v, cc_id = i\<rparr>) = mint_cursor sort_by sort_order"
    by (auto simp: mint_cursor_def)
  have hits: "(if sort_by \<in> set NULLABLE_SORTS then filter (\<lambda>b. col b \<noteq> None) found else found) = ?hits"
    using assms(3) by (auto simp: base_query_def intro: filter_cong split: if_splits)
  have dec: "(case map_option Some (map_option (mint_cursor sort_by sort_order) c) of None \<Rightarrow> Inr None
      | Some d \<Rightarrow> map_sum id Some (decode_catalogue_cursor d sort_by sort_order)) = Inr c"
    by (cases c) (auto simp: decode_catalogue_cursor_def mint_cursor_def)
  show ?thesis
    unfolding list_books_def catalogue_page_def assms(1,3) option.case option.sel sum.case Let_def dec hits mint
    using assms(2) by (simp split: prod.splits)
qed

lemma catalogue_follow:
  assumes "map_of SORTABLE sort_by = Some col" and "0 < limit" and "distinct (map bk_id (lb_books db))"
  shows "follow_pages (Suc (length (lb_books db))) (catalogue_page db f sort_by sort_order limit public) None
      = Some (catalogue_feed db f sort_by sort_order public)"
    and "distinct (map bk_id (catalogue_feed db f sort_by sort_order public))"
proof -
  let ?hits = "filter (\<lambda>b. matches_filters db f public b \<and> (sort_by \<in> set NULLABLE_SORTS \<longrightarrow> col b \<noteq> None)) (lb_books db)"
  have ids: "distinct (map bk_id ?hits)" using assms(3) by (simp add: distinct_map inj_on_def)
  have n: "length ?hits < Suc (length (lb_books db))" by (simp add: le_imp_less_Suc)
  have feed: "catalogue_feed db f sort_by sort_order public =
      (if sort_order = ''desc'' then descending (sort_column col) bk_id ?hits else ascending (sort_column col) bk_id ?hits)"
    by (simp add: catalogue_feed_def assms(1) Let_def)
  show "follow_pages (Suc (length (lb_books db))) (catalogue_page db f sort_by sort_order limit public) None
      = Some (catalogue_feed db f sort_by sort_order public)"
    unfolding feed catalogue_page_def assms(1) option.sel Let_def
    using follow_down [OF ids assms(2) n] follow_up [OF ids assms(2) n] by (auto simp del: follow_pages.simps)
  show "distinct (map bk_id (catalogue_feed db f sort_by sort_order public))"
    using ids by (auto simp: feed descending_def ascending_def distinct_map)
qed

text \<open>
  C25: The catalogue feed can be read to its end. In every whitelisted order, under any filters
  and page size, a client that follows the cursors gets every matching book (in the order by
  publication date, every one that has such a date) exactly once, in that order, after at most
  one request per book; no page is refused; and the public feed
  consists of books that are published and not deleted.
\<close>

theorem catalogue_paging:
  assumes "map_of SORTABLE sort_by = Some col" and "sort_order \<in> {''asc'', ''desc''}" and "base_query db f public = Inr found"
    and "0 < limit" and "distinct (map bk_id (lb_books db))"
  shows "follow_pages (Suc (length (lb_books db))) (catalogue_fetch db f sort_by sort_order limit public) None
      = Some (catalogue_feed db f sort_by sort_order public)
    \<and> set (catalogue_feed db f sort_by sort_order public)
      = {b \<in> set (lb_books db). matches_filters db f public b \<and> (sort_by = ''published_at'' \<longrightarrow> cb_published_at b \<noteq> None)}
    \<and> distinct (catalogue_feed db f sort_by sort_order public)
    \<and> list_all (\<lambda>b. public \<longrightarrow> bk_status b = BookPublished \<and> bk_deleted_at b = None)
        (catalogue_feed db f sort_by sort_order public)"
proof -
  have fetch: "catalogue_fetch db f sort_by sort_order limit public (map_option (mint_cursor sort_by sort_order) c)
      = (case catalogue_page db f sort_by sort_order limit public c of
           (rows, next_pos, has_more) \<Rightarrow> (rows, map_option (mint_cursor sort_by sort_order) next_pos, has_more))" for c
    unfolding catalogue_fetch_def list_books_page [OF assms(1-3)] by simp
  have "follow_pages (Suc (length (lb_books db))) (catalogue_fetch db f sort_by sort_order limit public)
      (map_option (mint_cursor sort_by sort_order) None)
      = follow_pages (Suc (length (lb_books db))) (catalogue_page db f sort_by sort_order limit public) None"
    by (rule follow_pages_wrapped) (rule fetch)
  then show ?thesis
    using catalogue_follow [OF assms(1,4,5), of f sort_order public]
      catalogue_feed_members [OF assms(1), of db f sort_order public]
    by (auto simp: list_all_iff matches_filters_def distinct_map simp del: follow_pages.simps)
qed

subsection \<open>The state of the catalogue\<close>

text \<open>
  What every staff route keeps: unique ids, the constraints of the books table, a publication
  date on every published book, and edition numbers that never run ahead of the book's version.
\<close>

definition catalogue_ok :: "library_db \<Rightarrow> bool" where
  "catalogue_ok db \<longleftrightarrow>
     distinct (map bk_id (lb_books db)) \<and> books_ok db (lb_books db)
     \<and> list_all (\<lambda>b. bk_status b = BookPublished \<longrightarrow> cb_published_at b \<noteq> None) (lb_books db)
     \<and> list_all (\<lambda>v. \<forall>b \<in> set (lb_books db). bk_id b = bv_book_id v \<longrightarrow> bv_version v \<le> cb_version b) (lb_versions db)"

lemma catalogue_ok_update:
  assumes ok: "catalogue_ok db" and b: "b \<in> set (lb_books db)" and b': "bk_id b' = bk_id b"
    and keep: "constrained b' = constrained b" "cb_version b \<le> cb_version b'"
      "bk_status b' = BookPublished \<Longrightarrow> cb_published_at b' \<noteq> None"
  shows "catalogue_ok (save_book db b')"
proof -
  have ids: "distinct (map bk_id (lb_books db))" using ok by (simp add: catalogue_ok_def)
  have only: "r = b" if "r \<in> set (lb_books db)" "bk_id r = bk_id b" for r
    using ids b that by (auto simp: distinct_map dest: inj_onD)
  let ?t = "update_rows (\<lambda>r. bk_id r = bk_id b) (\<lambda>_. b') (lb_books db)"
  have save: "save_book db b' = db\<lparr>lb_books := ?t\<rparr>" by (simp add: save_book_def b')
  have "map constrained ?t = map constrained (lb_books db)" using only keep(1) by (auto intro!: map_update_same)
  moreover have "map bk_id ?t = map bk_id (lb_books db)" using b' by (auto intro!: map_update_same)
  moreover have "list_all (\<lambda>v. \<forall>r \<in> set ?t. bk_id r = bv_book_id v \<longrightarrow> bv_version v \<le> cb_version r) (lb_versions db)"
    using ok b b' keep(2) by (fastforce simp: catalogue_ok_def list_all_iff set_update_rows)
  moreover have "list_all (\<lambda>r. bk_status r = BookPublished \<longrightarrow> cb_published_at r \<noteq> None) ?t"
    using ok keep(3) by (auto simp: catalogue_ok_def list_all_iff set_update_rows)
  ultimately show ?thesis
    using ok books_ok_columns [of db "lb_books db" ?t "db\<lparr>lb_books := ?t\<rparr>"] by (simp add: save catalogue_ok_def)
qed

lemma replace_links_tables:
  "replace_contributors db i cs = Inr db1 \<Longrightarrow> lb_books db1 = lb_books db \<and> lb_versions db1 = lb_versions db \<and> lb_publishers db1 = lb_publishers db"
  "replace_categories db i ks = Inr db1 \<Longrightarrow> lb_books db1 = lb_books db \<and> lb_versions db1 = lb_versions db \<and> lb_publishers db1 = lb_publishers db"
  by (auto simp: replace_contributors_def replace_categories_def Let_def split: if_splits)

lemma as_conflict_Inr [simp]: "as_conflict r = Inr x \<longleftrightarrow> r = Inr x"
  by (auto simp: as_conflict_def split: sum.splits)

lemma map_sum_Inr: "map_sum id f r = Inr y \<longleftrightarrow> (\<exists>x. r = Inr x \<and> y = f x)"
  by (cases r) auto

lemma create_book_effect:
  assumes "create_catalogue_book db i now p actor = Inr (db', b)"
  shows "lb_books db' = lb_books db @ [new_book i now p actor]" and "books_ok db (lb_books db')"
    and "lb_versions db' = lb_versions db" and "lb_publishers db' = lb_publishers db"
  using assms
  by (auto simp: create_catalogue_book_def flush_books_def map_sum_Inr split: if_splits sum.splits dest!: replace_links_tables)

lemma update_book_effect:
  assumes "update_catalogue_book db book u actor = Inr (db', b)"
  shows "lb_books db' = update_rows (\<lambda>r. bk_id r = bk_id book) (\<lambda>_. patch_book u actor book) (lb_books db)"
    and "books_ok db (lb_books db')"
    and "lb_versions db' = lb_versions db" and "lb_publishers db' = lb_publishers db"
proof -
  obtain db1 db2 where 1: "optionally (replace_contributors db (bk_id book)) db (bu_author_ids u) = Inr db1"
      and 2: "optionally (replace_categories db1 (bk_id book)) db1 (bu_category_ids u) = Inr db2"
      and 3: "flush_update db2 u (patch_book u actor book) = Inr db'"
    using assms by (auto simp: update_catalogue_book_def Let_def map_sum_Inr split: if_splits sum.splits)
  have t: "lb_books db2 = lb_books db \<and> lb_versions db2 = lb_versions db \<and> lb_publishers db2 = lb_publishers db"
    using 1 2 by (auto simp: optionally_def split: option.splits dest!: replace_links_tables)
  have "bk_id (patch_book u actor book) = bk_id book" by (simp add: patch_book_def)
  with 3 t show "lb_books db' = update_rows (\<lambda>r. bk_id r = bk_id book) (\<lambda>_. patch_book u actor book) (lb_books db)"
      "lb_versions db' = lb_versions db" "lb_publishers db' = lb_publishers db"
    by (auto simp: flush_update_def flush_books_def split: if_splits)
  have "books_ok db2 (lb_books db')"
    using 3 by (auto simp: flush_update_def flush_books_def split: if_splits)
  then show "books_ok db (lb_books db')" using t by (metis books_ok_columns)
qed

text \<open>One request of the staff, the pipeline or a reader that changes the catalogue.\<close>

inductive catalogue_step :: "library_db \<Rightarrow> library_db \<Rightarrow> bool" where
  step_create: "create_book_route db i now p actor = Inr (db', b, m) \<Longrightarrow> i \<notin> bk_id ` set (lb_books db)
    \<Longrightarrow> i \<notin> bv_book_id ` set (lb_versions db) \<Longrightarrow> catalogue_step db db'"
| step_update: "update_book_route db i u actor = Inr (db', b, m) \<Longrightarrow> catalogue_step db db'"
| step_publish: "publish_book_route db now i actor = Inr (db', b, m) \<Longrightarrow> catalogue_step db db'"
| step_unpublish: "unpublish_book_route db i actor = Inr (db', b, m) \<Longrightarrow> catalogue_step db db'"
| step_delete: "delete_book_route db now i actor = Inr (db', b, m) \<Longrightarrow> catalogue_step db db'"
| step_version: "add_version_route db vid i p actor = Inr (db', v) \<Longrightarrow> catalogue_step db db'"
| step_download: "download_book sign db st now user i fmt = Inr (db', t) \<Longrightarrow> catalogue_step db db'"

lemma on_book_Inr:
  "on_book db i ty act = Inr (db', b', m) \<longleftrightarrow>
     (\<exists>b. get_book_by_id db i True = Inr b \<and> act b = Inr (db', b') \<and> m = announce_book ty b')"
  by (auto simp: on_book_def split: sum.splits)

lemma fresh_version:
  assumes "catalogue_ok db" and "b \<in> set (lb_books db)" and "bv_book_id v = bk_id b" and "bv_version v = cb_version b + 1"
  shows "insert_unique version_clash v (lb_versions db) = Some (lb_versions db @ [v])"
  using assms by (fastforce simp: insert_unique_Some version_clash_def catalogue_ok_def list_all_iff)

lemma add_version_ok:
  assumes "add_book_version db vid b p actor = Inr (db', v)" and "catalogue_ok db" and "b \<in> set (lb_books db)"
  shows "catalogue_ok db'"
proof -
  obtain b' where b': "db' = (save_book db b')\<lparr>lb_versions := lb_versions db @ [v]\<rparr>" "bk_id b' = bk_id b"
      "constrained b' = constrained b" "cb_version b' = cb_version b + 1" "bk_status b' = bk_status b"
      "cb_published_at b' = cb_published_at b" and v: "bv_book_id v = bk_id b" "bv_version v = cb_version b + 1"
    using assms(1) by (fastforce simp: add_book_version_def Let_def constrained_def insert_unique_Some split: option.splits)
  have "catalogue_ok (save_book db b')"
    using assms(2,3) b' by (intro catalogue_ok_update [of db b]) (auto simp: catalogue_ok_def list_all_iff)
  moreover have "bv_version v \<le> cb_version r" if "r \<in> set (lb_books (save_book db b'))" "bk_id r = bv_book_id v" for r
    using that b'(2,4) v by (auto simp: save_book_def set_update_rows split: if_splits)
  moreover have "books_ok db' (lb_books (save_book db b'))" if "books_ok (save_book db b') (lb_books (save_book db b'))"
    using that by (rule books_ok_columns) (simp_all add: b'(1))
  ultimately show ?thesis by (auto simp: b'(1) catalogue_ok_def save_book_def)
qed

lemma increment_ok: "catalogue_ok db \<Longrightarrow> catalogue_ok (increment_download_count db i)"
proof -
  assume ok: "catalogue_ok db"
  let ?t = "lb_books (increment_download_count db i)"
  have m: "map constrained ?t = map constrained (lb_books db)" "map bk_id ?t = map bk_id (lb_books db)"
    by (auto simp: increment_download_count_def constrained_def intro!: map_update_same)
  have "books_ok (increment_download_count db i) ?t"
    using ok by (intro books_ok_columns [OF _ m(1)]) (auto simp: catalogue_ok_def increment_download_count_def)
  then show ?thesis
    using ok m(2) by (auto simp: catalogue_ok_def list_all_iff increment_download_count_def set_update_rows)
qed

lemma catalogue_step_ok:
  assumes "catalogue_step db db'" and "catalogue_ok db"
  shows "catalogue_ok db'"
  using assms
proof (induction rule: catalogue_step.induct)
  case (step_create db i now p actor db' b m)
  then obtain q where c: "create_catalogue_book db i now q actor = Inr (db', b)"
    by (auto simp: create_book_route_def map_sum_Inr split: sum.splits)
  note e = create_book_effect [OF c]
  have "books_ok db' (lb_books db')" using e(2,4) by (metis books_ok_columns)
  with e step_create.prems step_create.hyps(2,3) show ?case
    by (auto simp: catalogue_ok_def new_book_def list_all_iff)
next
  case (step_update db i u actor db' b m)
  then obtain book where g: "get_book_by_id db i True = Inr book" and c: "update_catalogue_book db book u actor = Inr (db', b)"
    by (auto simp: update_book_route_def on_book_Inr split: if_splits)
  note e = update_book_effect [OF c] and b = get_book_by_id_found [OF g]
  have "books_ok db' (lb_books db')" using e(2,4) by (metis books_ok_columns)
  moreover have p: "bk_id (patch_book u actor book) = bk_id book" "cb_version (patch_book u actor book) = cb_version book"
      "bk_status (patch_book u actor book) = bk_status book" "cb_published_at (patch_book u actor book) = cb_published_at book"
    by (simp_all add: patch_book_def)
  moreover have "map bk_id (lb_books db') = map bk_id (lb_books db)"
    unfolding e(1) using p(1) by (auto intro!: map_update_same)
  ultimately show ?case
    using step_update.prems b(1)
    by (auto simp: catalogue_ok_def list_all_iff e(1,3) set_update_rows)
next
  case (step_publish db now i actor db' b m)
  then obtain book where g: "get_book_by_id db i True = Inr book" and c: "publish_catalogue_book db now book actor None = Inr (db', b)"
    by (auto simp: publish_book_route_def on_book_Inr)
  have "catalogue_ok (save_book db b)"
    by (rule catalogue_ok_update [OF step_publish.prems get_book_by_id_found(1) [OF g]])
       (use c in \<open>auto simp: publish_catalogue_book_def Let_def constrained_def split: if_splits\<close>)
  moreover have "db' = save_book db b" using c by (auto simp: publish_catalogue_book_def Let_def split: if_splits)
  ultimately show ?case by simp
next
  case (step_unpublish db i actor db' b m)
  then obtain book where g: "get_book_by_id db i True = Inr book" and c: "unpublish_catalogue_book db book actor = (db', b)"
    by (auto simp: unpublish_book_route_def on_book_Inr)
  have "catalogue_ok (save_book db b)"
    by (rule catalogue_ok_update [OF step_unpublish.prems get_book_by_id_found(1) [OF g]])
       (use c in \<open>auto simp: unpublish_catalogue_book_def Let_def constrained_def\<close>)
  then show ?case using c by (auto simp: unpublish_catalogue_book_def Let_def)
next
  case (step_delete db now i actor db' b m)
  then obtain book where g: "get_book_by_id db i True = Inr book" and c: "soft_delete_book db now book actor = (db', b)"
    by (auto simp: delete_book_route_def on_book_Inr)
  have "catalogue_ok (save_book db b)"
    by (rule catalogue_ok_update [OF step_delete.prems get_book_by_id_found(1) [OF g]])
       (use c in \<open>auto simp: soft_delete_book_def Let_def constrained_def\<close>)
  then show ?case using c by (auto simp: soft_delete_book_def Let_def)
next
  case (step_version db vid i p actor db' v)
  then show ?case by (auto simp: add_version_route_def add_version_ok split: sum.splits dest: get_book_by_id_found(1))
next
  case (step_download sign db st now user i fmt db' t)
  then have "db' = increment_download_count db (bk_id b)" if "get_book_by_id db i False = Inr b" for b
    using that by (auto simp: download_book_def Let_def split: sum.splits option.splits if_splits)
  then show ?case
    using step_download increment_ok by (cases "get_book_by_id db i False") (auto simp: download_book_def)
qed

text \<open>
  C26: Over any sequence of requests to the catalogue its ids, slugs and ISBNs stay unique, prices
  and discounts stay within their constraints, every published book has a publication date (so
  the default feed shows it), and recording a new edition of a book that exists never fails.
\<close>

theorem catalogue_stays_consistent:
  assumes "catalogue_step\<^sup>*\<^sup>* db db'" and "catalogue_ok db"
  shows "catalogue_ok db'
    \<and> set (catalogue_feed db' no_filters ''published_at'' ''desc'' True)
        = {b \<in> set (lb_books db'). bk_status b = BookPublished \<and> bk_deleted_at b = None}
    \<and> (get_book_by_id db' i True = Inr b \<longrightarrow> (\<exists>db2 v. add_version_route db' vid i p actor = Inr (db2, v) \<and> bv_version v = cb_version b + 1))"
proof -
  have ok: "catalogue_ok db'" using assms by (induction rule: rtranclp_induct) (auto intro: catalogue_step_ok)
  have "set (catalogue_feed db' no_filters ''published_at'' ''desc'' True)
      = {b \<in> set (lb_books db'). matches_filters db' no_filters True b \<and> cb_published_at b \<noteq> None}"
    using catalogue_feed_members [of "''published_at''"] by (simp add: SORTABLE_def)
  also have "\<dots> = {b \<in> set (lb_books db'). bk_status b = BookPublished \<and> bk_deleted_at b = None}"
    using ok by (auto simp: matches_filters_def no_filters_def truthy_def catalogue_ok_def list_all_iff)
  finally have feed: "set (catalogue_feed db' no_filters ''published_at'' ''desc'' True)
      = {b \<in> set (lb_books db'). bk_status b = BookPublished \<and> bk_deleted_at b = None}" .
  have "\<exists>db2 v. add_version_route db' vid i p actor = Inr (db2, v) \<and> bv_version v = cb_version b + 1"
    if "get_book_by_id db' i True = Inr b"
    using fresh_version [OF ok get_book_by_id_found(1) [OF that]] that
    by (simp add: add_version_route_def add_book_version_def Let_def)
  with ok feed show ?thesis by blast
qed

text \<open>
  C32: A download link is issued only for a published book that the reader may download: by an
  active grant that includes downloads, or because the book is free and free books are
  readable. The link is signed for a file of that very book in the requested format, or in its
  first available one, and nothing but the download counter changes.
\<close>

theorem download_needs_right:
  assumes "download_book sign db st now user i fmt = Inr (db', t)"
  shows "\<exists>b \<in> set (lb_books db). bk_id b = i \<and> bk_status b = BookPublished \<and> bk_deleted_at b = None
    \<and> ((\<exists>e \<in> set (lb_entitlements db). en_user_id e = user \<and> en_book_id e = i \<and> active_grant now e
          \<and> en_can_read e \<and> en_can_download e)
       \<or> (bs_free_books_readable st \<and> is_free (book_row.truncate b)))
    \<and> (fmt = None \<or> fmt = Some (dt_format t)) \<and> truthy (file_key_for b (dt_format t))
    \<and> sign (or_str (file_key_for b (dt_format t)) '''') (bs_download_url_ttl st) (dt_filename t) = Inr (dt_url t)
    \<and> db' = increment_download_count db i"
proof -
  obtain b a where g: "get_book_by_id db i False = Inr b"
      and r: "require_download (access_view db) (bs_free_books_readable st) now user (book_row.truncate b) = Inr a"
      and rest: "fmt = None \<or> fmt = Some (dt_format t)" "truthy (file_key_for b (dt_format t))"
        "sign (or_str (file_key_for b (dt_format t)) '''') (bs_download_url_ttl st) (dt_filename t) = Inr (dt_url t)"
        "db' = increment_download_count db (bk_id b)"
    using assms by (auto simp: download_book_def Let_def split: sum.splits option.splits if_splits)
  note b = get_book_by_id_found [OF g]
  have row: "bk_id (book_row.truncate b) = i" using b(2) by (simp add: book_row.truncate_def)
  have acc: "ao_has_access (book_access (access_view db) (bs_free_books_readable st) now user (book_row.truncate b))"
    "ao_can_download (book_access (access_view db) (bs_free_books_readable st) now user (book_row.truncate b))"
    using r by (auto simp: require_download_def require_read_def Let_def split: if_splits)
  have "(\<exists>e \<in> set (lb_entitlements db). en_user_id e = user \<and> en_book_id e = i \<and> active_grant now e
          \<and> en_can_read e \<and> en_can_download e) \<or> (bs_free_books_readable st \<and> is_free (book_row.truncate b))"
  proof (cases "find_active (access_view db) now user i")
    case None
    with acc row show ?thesis
      by (auto simp: book_access_def free_access_def split: if_splits)
  next
    case (Some e)
    then have "e \<in> set (filter (\<lambda>e. en_user_id e = user \<and> en_book_id e = i \<and> active_grant now e) (lb_entitlements db))"
      using max_row_Some by (fastforce simp: find_active_def access_view_def)
    with Some acc row show ?thesis by (auto simp: book_access_def)
  qed
  with b rest show ?thesis by (intro bexI [of _ b]) (auto simp: visible_book_def)
qed

text \<open>
  Unpublishing a book takes it away from the readers who bought it. The route says that
  existing entitlements are unaffected and that whoever bought the book keeps it; but after it, as after
  a deletion, every download and every access check of the book answers that it does not
  exist, whatever grants the reader holds.
\<close>

lemma unpublished_book_lost_to_buyers:
  assumes "unpublish_book_route db i actor = Inr (db', b, m) \<or> delete_book_route db now i actor = Inr (db', b, m)"
    and "catalogue_ok db"
  shows "download_book sign db' st later user i fmt = Inl (raise_default NotFoundError)
    \<and> check_access db' st later user i = Inl (raise_default NotFoundError)
    \<and> lb_entitlements db' = lb_entitlements db"
proof -
  obtain b0 where g: "get_book_by_id db i True = Inr b0" and s: "db' = save_book db b"
      and b: "bk_id b = bk_id b0" "bk_status b \<noteq> BookPublished"
    using assms(1)
    by (auto simp: unpublish_book_route_def delete_book_route_def on_book_Inr unpublish_catalogue_book_def
        soft_delete_book_def Let_def)
  note b0 = get_book_by_id_found [OF g]
  have "distinct (map bk_id (lb_books db'))"
    using assms(2) b(1) map_update_same [of "lb_books db" "\<lambda>r. bk_id r = bk_id b" bk_id "\<lambda>_. b"]
    by (simp add: catalogue_ok_def s save_book_def)
  moreover have "b \<in> set (lb_books db')" using b0 b(1) by (force simp: s save_book_def set_update_rows)
  ultimately have "get_book_by_id db' i False = Inl (raise_default NotFoundError)"
    using get_by_id_row [of db' b i False] b b0(2) by (simp add: visible_book_def)
  then show ?thesis by (simp add: download_book_def check_access_def s save_book_def)
qed

subsection \<open>Facets, and an update that is misreported\<close>

text \<open>Every book of a result falls into exactly one price range.\<close>

lemma price_ranges_partition:
  assumes "facets db f public = Inr fc" and "base_query db f public = Inr found" and "list_all book_checks (lb_books db)"
  shows "sum_list (map (\<lambda>(key, label, n). n) (fc_price_ranges fc)) = length found"
proof -
  have "list_all (\<lambda>b. 0 \<le> bk_price_minor b) found"
    using assms(2,3) by (auto simp: base_query_def list_all_iff book_checks_def split: if_splits)
  then have "count_rows (in_bucket 0 (Some 0)) found + count_rows (in_bucket 1 (Some 20000)) found
      + count_rows (in_bucket 20001 (Some 50000)) found + count_rows (in_bucket 50001 None) found = length found"
    by (induction found) (auto simp: in_bucket_def)
  with assms(1,2) show ?thesis by (auto simp: facets_def PRICE_BUCKETS_def Let_def)
qed

text \<open>
  Lowering a price below the stored discount violates a constraint of the table; the update
  answers with the conflict of a taken slug, although no slug was sent.
\<close>

lemma price_below_discount_conflicts:
  assumes "get_book_by_id db i True = Inr b" and "bk_discount_price_minor b = Some d" and "p < d"
    and "bu_slug u = None" and "bu_price_minor u = Some (Some p)" and "bu_discount_price_minor u = None"
    and "bu_author_ids u = None" and "bu_category_ids u = None" and "valid_update u"
  shows "update_book_route db i u actor = Inl (raise_default ConflictError)"
proof -
  have row: "patch_book u actor b \<in> set (update_rows (\<lambda>r. bk_id r = bk_id b) (\<lambda>_. patch_book u actor b) (lb_books db))"
    using get_book_by_id_found(1) [OF assms(1)] by (force simp: set_update_rows)
  have "\<not> book_checks (patch_book u actor b)"
    using assms by (simp add: book_checks_def patch_book_def patched_def patched_opt_def)
  with row have "\<not> books_ok db (update_rows (\<lambda>r. bk_id r = bk_id b) (\<lambda>_. patch_book u actor b) (lb_books db))"
    by (auto simp: books_ok_def list_all_iff)
  moreover have "bk_id (patch_book u actor b) = bk_id b" by (simp add: patch_book_def)
  ultimately show ?thesis
    using assms by (simp add: update_book_route_def on_book_def update_catalogue_book_def Let_def optionally_def
        as_conflict_def flush_update_def flush_books_def)
qed

subsection \<open>Witnesses\<close>

definition sample_book_create :: BookCreate where
  "sample_book_create = \<lparr>bc_title = ''T'', bc_slug = ''t'', bc_subtitle = None, bc_isbn10 = None, bc_isbn13 = None,
     bc_language = ''en'', bc_price_minor = 499, bc_discount_price_minor = None, bc_formats = [], bc_pdf_key = Some ''k.pdf'',
     bc_epub_key = None, bc_mobi_key = None, bc_sample_key = None, bc_cover_key = None, bc_columns = [],
     bc_publisher_id = None, bc_author_ids = [], bc_category_ids = []\<rparr>"

definition sample_shop_book :: catalogue_book where
  "sample_shop_book = (new_book 7 0 sample_book_create None)\<lparr>bk_status := BookPublished, cb_published_at := Some 1\<rparr>"

definition sample_shop :: library_db where
  "sample_shop = empty_library\<lparr>lb_books := [sample_shop_book],
     lb_entitlements := [\<lparr>en_id = 1, en_user_id = 9, en_book_id = 7, en_source = SrcPurchase, en_external_ref = ''o'',
       en_order_id = None, en_can_read = True, en_can_download = True, en_granted_at = 0, en_expires_at = None,
       en_revoked_at = None, en_note = None\<rparr>]\<rparr>"

definition sample_books_settings :: books_settings where
  "sample_books_settings = \<lparr>bs_free_books_readable = True, bs_reviews_require_moderation = False, bs_download_url_ttl = 3\<rparr>"

lemma sample_shop_ok: "catalogue_ok sample_shop"
  by (simp add: catalogue_ok_def sample_shop_def empty_library_def sample_shop_book_def new_book_def sample_book_create_def
      books_ok_def book_checks_def publisher_known_def)

theorem catalogue_paging_witness:
  "follow_pages 2 (catalogue_fetch sample_shop no_filters ''title'' ''asc'' 5 True) None = Some [sample_shop_book]"
proof -
  have "map_of SORTABLE ''title'' = Some (\<lambda>b. Some (SvText (cb_title b)))" "distinct (map bk_id (lb_books sample_shop))"
      "base_query sample_shop no_filters True = Inr (filter (matches_filters sample_shop no_filters True) (lb_books sample_shop))"
    by (simp_all add: SORTABLE_def sample_shop_def base_query_def no_filters_def truthy_def)
  from catalogue_paging [OF this(1) _ this(3) _ this(2), of "''asc''" 5]
  have "follow_pages (Suc (length (lb_books sample_shop))) (catalogue_fetch sample_shop no_filters ''title'' ''asc'' 5 True) None
      = Some (catalogue_feed sample_shop no_filters ''title'' ''asc'' True)" by (simp del: follow_pages.simps)
  moreover have "catalogue_feed sample_shop no_filters ''title'' ''asc'' True = [sample_shop_book]" by code_simp
  moreover have "Suc (length (lb_books sample_shop)) = 2" by (simp add: sample_shop_def)
  ultimately show ?thesis by simp
qed

lemma sample_unpublished:
  "\<exists>b m. unpublish_book_route sample_shop 7 None = Inr (fst (unpublish_catalogue_book sample_shop sample_shop_book None), b, m)"
proof -
  have "get_book_by_id sample_shop 7 True = Inr sample_shop_book" by code_simp
  then show ?thesis by (simp add: unpublish_book_route_def on_book_def case_prod_beta)
qed

theorem catalogue_stays_consistent_witness:
  "catalogue_step\<^sup>*\<^sup>* sample_shop (fst (unpublish_catalogue_book sample_shop sample_shop_book None))
   \<and> catalogue_ok (fst (unpublish_catalogue_book sample_shop sample_shop_book None))"
proof -
  have run: "catalogue_step\<^sup>*\<^sup>* sample_shop (fst (unpublish_catalogue_book sample_shop sample_shop_book None))"
    using sample_unpublished by (blast intro: step_unpublish)
  from catalogue_stays_consistent [OF run sample_shop_ok] run show ?thesis by blast
qed

definition sample_ticket :: "(library_db \<times> DownloadTicket) result" where
  "sample_ticket = download_book (\<lambda>k n f. Inr k) sample_shop sample_books_settings 5 9 7 None"

lemma sample_ticket_issued: "\<exists>db t. sample_ticket = Inr (db, t)"
proof -
  have "(case sample_ticket of Inl _ \<Rightarrow> False | Inr _ \<Rightarrow> True)" by code_simp
  then show ?thesis by (auto split: sum.splits)
qed

theorem download_needs_right_witness:
  "\<exists>db t. sample_ticket = Inr (db, t) \<and> db = increment_download_count sample_shop 7"
proof -
  obtain db t where t: "sample_ticket = Inr (db, t)" using sample_ticket_issued by blast
  from download_needs_right [OF t [unfolded sample_ticket_def]] t show ?thesis by blast
qed

end
