(* ===== verification/Books_Reviews.thy ===== *)
theory Books_Reviews
  imports Books_Catalogue
begin

section \<open>Reviews and ratings\<close>

text \<open>
  \<open>apps/books/services/reviews.py\<close> and the review routes of \<open>routers/engagement.py\<close> and
  \<open>routers/admin.py\<close>: one review per reader and book, moderation, votes, and the sum and count of
  ratings kept on the book. Python's \<open>round(rating_sum / rating_count, 3)\<close> is the parameter
  \<open>avg\<close>, in thousandths; binary floats are not modelled.

  A route that calls a service with arguments its signature does not have raises \<open>TypeError\<close>
  when it reaches the call; it is modelled as such.
\<close>

subsection \<open>Rows\<close>

definition review_clash :: "Review \<Rightarrow> Review \<Rightarrow> bool" where
  "review_clash a b \<longleftrightarrow> rv_book_id a = rv_book_id b \<and> rv_user_id a = rv_user_id b"

interpretation reviews_tbl: keyed_table "\<lambda>r. (rv_book_id r, rv_user_id r)" "\<lambda>_. True" review_clash
  by unfold_locales (auto simp: review_clash_def)

record ReviewCreate =
  vr_rating :: int
  vr_title :: "string option"
  vr_body :: "string option"

record ReviewUpdate =
  vu_rating :: "int patch"
  vu_title :: "string patch"
  vu_body :: "string patch"

record ReviewModerate =
  vm_status :: ReviewStatus
  vm_moderation_note :: "string option"

definition valid_review_create :: "ReviewCreate \<Rightarrow> bool" where
  "valid_review_create p \<longleftrightarrow> 1 \<le> vr_rating p \<and> vr_rating p \<le> 5"

definition valid_review_update :: "ReviewUpdate \<Rightarrow> bool" where
  "valid_review_update u \<longleftrightarrow> (case vu_rating u of Some (Some r) \<Rightarrow> 1 \<le> r \<and> r \<le> 5 | _ \<Rightarrow> True)"

definition save_review :: "library_db \<Rightarrow> Review \<Rightarrow> library_db" where
  "save_review db r = db\<lparr>lb_reviews := update_rows (\<lambda>x. rv_id x = rv_id r) (\<lambda>_. r) (lb_reviews db)\<rparr>"

subsection \<open>The aggregate\<close>

definition recalculate :: "(int \<Rightarrow> int \<Rightarrow> int) \<Rightarrow> catalogue_book \<Rightarrow> catalogue_book" where
  "recalculate avg b =
     b\<lparr>cb_rating_average := (if cb_rating_count b \<noteq> 0 then avg (cb_rating_sum b) (cb_rating_count b) else 0)\<rparr>"

definition apply_rating_delta :: "(int \<Rightarrow> int \<Rightarrow> int) \<Rightarrow> catalogue_book \<Rightarrow> int \<Rightarrow> int \<Rightarrow> catalogue_book" where
  "apply_rating_delta avg b sum_delta count_delta =
     recalculate avg (b\<lparr>cb_rating_sum := max 0 (cb_rating_sum b + sum_delta),
       cb_rating_count := max 0 (cb_rating_count b + count_delta)\<rparr>)"

subsection \<open>Reads\<close>

definition get_review :: "library_db \<Rightarrow> uuid \<Rightarrow> Review result" where
  "get_review db review_id =
     (case first_row (\<lambda>r. rv_id r = review_id) (lb_reviews db) of
        None \<Rightarrow> Inl (raise_default NotFoundError)
      | Some r \<Rightarrow> if rv_deleted_at r \<noteq> None then Inl (raise_default NotFoundError) else Inr r)"

definition get_own_review :: "library_db \<Rightarrow> uuid \<Rightarrow> uuid \<Rightarrow> Review result" where
  "get_own_review db review_id user_id =
     (case get_review db review_id of Inl e \<Rightarrow> Inl e
      | Inr r \<Rightarrow> if rv_user_id r \<noteq> user_id then Inl (raise_default ForbiddenError) else Inr r)"

definition review_for_user :: "library_db \<Rightarrow> uuid \<Rightarrow> uuid \<Rightarrow> Review option result" where
  "review_for_user db book_id user_id =
     one_or_none (\<lambda>r. rv_book_id r = book_id \<and> rv_user_id r = user_id) (lb_reviews db)"

definition REVIEW_SORTABLE :: "(string \<times> (Review \<Rightarrow> int)) list" where
  "REVIEW_SORTABLE = [(''created_at'', rv_created_at), (''helpful_count'', rv_helpful_count)]"

record review_cursor =
  rc_s :: string
  rc_v :: int
  rc_id :: uuid

definition review_visible :: "uuid option \<Rightarrow> bool \<Rightarrow> Review \<Rightarrow> bool" where
  "review_visible viewer_id include_all r \<longleftrightarrow>
     rv_deleted_at r = None \<and> (include_all \<or> rv_status r = ReviewApproved \<or> viewer_id = Some (rv_user_id r))"

definition list_for_book ::
  "library_db \<Rightarrow> uuid \<Rightarrow> review_cursor option option \<Rightarrow> nat \<Rightarrow> string \<Rightarrow> uuid option \<Rightarrow> bool
     \<Rightarrow> (Review list \<times> review_cursor option \<times> bool) result" where
  "list_for_book db book_id cursor limit sort_by viewer_id include_all =
     (case map_of REVIEW_SORTABLE sort_by of
        None \<Rightarrow> Inl (raise_default BadRequestError)
      | Some col \<Rightarrow>
          let hits = filter (\<lambda>r. rv_book_id r = book_id \<and> review_visible viewer_id include_all r) (lb_reviews db) in
          (case (case cursor of None \<Rightarrow> Inr None
                 | Some None \<Rightarrow> Inl (raise_default BadRequestError)
                 | Some (Some c) \<Rightarrow> if rc_s c \<noteq> sort_by then Inl (raise_default BadRequestError)
                                   else Inr (Some (rc_v c, rc_id c))) of
             Inl e \<Rightarrow> Inl e
           | Inr pos \<Rightarrow>
               (case page_down col rv_id limit hits pos of
                  (rows, next_pos, has_more) \<Rightarrow>
                    Inr (rows, map_option (\<lambda>(v, i). \<lparr>rc_s = sort_by, rc_v = v, rc_id = i\<rparr>) next_pos, has_more))))"

definition moderation_queue ::
  "library_db \<Rightarrow> nat \<Rightarrow> nat \<Rightarrow> ReviewStatus option \<Rightarrow> uuid option \<Rightarrow> Review list \<times> nat" where
  "moderation_queue db limit offset status book_id =
     (let hits = filter (\<lambda>r. rv_deleted_at r = None \<and> rv_status r = opt_default status ReviewPending
                           \<and> (book_id = None \<or> book_id = Some (rv_book_id r))) (lb_reviews db)
      in (page_rows limit offset (ascending rv_created_at rv_id hits), length hits))"

definition moderation_counts :: "library_db \<Rightarrow> (ReviewStatus \<times> nat) list" where
  "moderation_counts db =
     map (\<lambda>s. (s, count_rows (\<lambda>r. rv_deleted_at r = None \<and> rv_status r = s) (lb_reviews db)))
       [ReviewPending, ReviewApproved, ReviewRejected, ReviewFlagged]"

subsection \<open>Writes\<close>

definition first_status :: "books_settings \<Rightarrow> ReviewStatus" where
  "first_status st = (if bs_reviews_require_moderation st then ReviewPending else ReviewApproved)"

definition create_review ::
  "(int \<Rightarrow> int \<Rightarrow> int) \<Rightarrow> books_settings \<Rightarrow> library_db \<Rightarrow> uuid \<Rightarrow> timestamp \<Rightarrow> catalogue_book \<Rightarrow> uuid \<Rightarrow> ReviewCreate \<Rightarrow> bool
     \<Rightarrow> (library_db \<times> Review) result" where
  "create_review avg st db review_id now book user_id p verified =
     (let status = first_status st;
          counted = (\<lambda>db. if status = ReviewApproved
                         then save_book db (apply_rating_delta avg book (vr_rating p) 1) else db)
      in case review_for_user db (bk_id book) user_id of
           Inl e \<Rightarrow> Inl e
         | Inr (Some existing) \<Rightarrow>
             if rv_deleted_at existing = None then Inl (raise_default ConflictError)
             else
               let r = existing\<lparr>rv_deleted_at := None, rv_rating := vr_rating p, rv_title := vr_title p, rv_body := vr_body p,
                         rv_status := status, rv_verified_purchase := verified, rv_helpful_count := 0\<rparr>
               in Inr (counted (save_review db r), r)
         | Inr None \<Rightarrow>
             let r = \<lparr>rv_id = review_id, rv_book_id = bk_id book, rv_user_id = user_id, rv_rating = vr_rating p,
                      rv_title = vr_title p, rv_body = vr_body p, rv_verified_purchase = verified, rv_status = status,
                      rv_helpful_count = 0, rv_moderated_by = None, rv_moderated_at = None, rv_moderation_note = None,
                      rv_deleted_at = None, rv_created_at = now\<rparr>
             in (case insert_unique review_clash r (lb_reviews db) of
                   None \<Rightarrow> Inl (raise_default ConflictError)
                 | Some t \<Rightarrow> Inr (counted (db\<lparr>lb_reviews := t\<rparr>), r)))"

definition update_review ::
  "(int \<Rightarrow> int \<Rightarrow> int) \<Rightarrow> books_settings \<Rightarrow> library_db \<Rightarrow> Review \<Rightarrow> catalogue_book \<Rightarrow> ReviewUpdate \<Rightarrow> library_db \<times> Review" where
  "update_review avg st db review book u =
     (let (review1, book1) =
            (case vu_rating u of
               Some (Some n) \<Rightarrow>
                 if n \<noteq> rv_rating review
                 then (review\<lparr>rv_rating := n\<rparr>,
                       if rv_status review = ReviewApproved then apply_rating_delta avg book (n - rv_rating review) 0 else book)
                 else (review, book)
             | _ \<Rightarrow> (review, book));
          review2 = review1\<lparr>rv_title := patched_opt (vu_title u) (rv_title review1),
                      rv_body := patched_opt (vu_body u) (rv_body review1)\<rparr>;
          back = bs_reviews_require_moderation st \<and> rv_status review2 = ReviewApproved;
          book2 = (if back then apply_rating_delta avg book1 (- rv_rating review2) (- 1) else book1);
          review3 = (if back then review2\<lparr>rv_status := ReviewPending\<rparr> else review2)
      in (save_book (save_review db review3) book2, review3))"

definition delete_review ::
  "(int \<Rightarrow> int \<Rightarrow> int) \<Rightarrow> library_db \<Rightarrow> timestamp \<Rightarrow> Review \<Rightarrow> catalogue_book \<Rightarrow> library_db" where
  "delete_review avg db now review book =
     save_book (save_review db (review\<lparr>rv_deleted_at := Some now\<rparr>))
       (if rv_status review = ReviewApproved then apply_rating_delta avg book (- rv_rating review) (- 1) else book)"

definition moderate_review ::
  "(int \<Rightarrow> int \<Rightarrow> int) \<Rightarrow> library_db \<Rightarrow> timestamp \<Rightarrow> Review \<Rightarrow> catalogue_book \<Rightarrow> ReviewStatus \<Rightarrow> string option \<Rightarrow> uuid
     \<Rightarrow> library_db \<times> Review" where
  "moderate_review avg db now review book status note moderator_id =
     (let was_counted = rv_status review = ReviewApproved;
          will_count = status = ReviewApproved;
          book' = (if was_counted \<and> \<not> will_count then apply_rating_delta avg book (- rv_rating review) (- 1)
                   else if will_count \<and> \<not> was_counted then apply_rating_delta avg book (rv_rating review) 1 else book);
          review' = review\<lparr>rv_status := status, rv_moderation_note := note, rv_moderated_by := Some moderator_id,
                      rv_moderated_at := Some now\<rparr>
      in (save_book (save_review db review') book', review'))"

definition vote_review :: "library_db \<Rightarrow> Review \<Rightarrow> uuid \<Rightarrow> bool \<Rightarrow> (library_db \<times> Review) result" where
  "vote_review db review user_id is_helpful =
     (if rv_user_id review = user_id then Inl (raise_default ForbiddenError)
      else
        let mine = (\<lambda>v. vt_review_id v = rv_id review \<and> vt_user_id v = user_id) in
        case first_row mine (lb_votes db) of
          None \<Rightarrow>
            let r = review\<lparr>rv_helpful_count := max 0 (rv_helpful_count review + (if is_helpful then 1 else - 1))\<rparr>;
                v = \<lparr>vt_review_id = rv_id review, vt_user_id = user_id, vt_is_helpful = is_helpful\<rparr>
            in Inr (save_review (db\<lparr>lb_votes := lb_votes db @ [v]\<rparr>) r, r)
        | Some existing \<Rightarrow>
            if vt_is_helpful existing \<noteq> is_helpful
            then
              let r = review\<lparr>rv_helpful_count := max 0 (rv_helpful_count review + (if is_helpful then 2 else - 2))\<rparr>
              in Inr (save_review (db\<lparr>lb_votes := update_rows mine (\<lambda>v. v\<lparr>vt_is_helpful := is_helpful\<rparr>) (lb_votes db)\<rparr>) r, r)
            else Inr (db, review))"

subsection \<open>Routes\<close>

definition list_reviews_route ::
  "library_db \<Rightarrow> uuid \<Rightarrow> review_cursor option option \<Rightarrow> nat \<Rightarrow> string \<Rightarrow> uuid option \<Rightarrow> (Review list \<times> nat) result" where
  "list_reviews_route db book_id cursor limit sort_by viewer =
     map_sum id (\<lambda>(rows, _, _). (rows, length rows)) (list_for_book db book_id cursor limit sort_by viewer False)"

definition create_review_route ::
  "(int \<Rightarrow> int \<Rightarrow> int) \<Rightarrow> books_settings \<Rightarrow> library_db \<Rightarrow> uuid \<Rightarrow> timestamp \<Rightarrow> uuid \<Rightarrow> uuid \<Rightarrow> ReviewCreate
     \<Rightarrow> (library_db \<times> Review) result" where
  "create_review_route avg st db review_id now book_id user_id p =
     (if \<not> valid_review_create p then Inl RequestValidationExn
      else case get_book_by_id db book_id False of
        Inl e \<Rightarrow> Inl e
      | Inr book \<Rightarrow>
          let access = book_access (access_view db) (bs_free_books_readable st) now user_id (book_row.truncate book)
          in create_review avg st db review_id now book user_id p (ao_has_access access))"

definition update_review_route ::
  "(int \<Rightarrow> int \<Rightarrow> int) \<Rightarrow> books_settings \<Rightarrow> library_db \<Rightarrow> uuid \<Rightarrow> uuid \<Rightarrow> ReviewUpdate \<Rightarrow> (library_db \<times> Review) result" where
  "update_review_route avg st db review_id user_id u =
     (if \<not> valid_review_update u then Inl RequestValidationExn
      else case get_own_review db review_id user_id of
        Inl e \<Rightarrow> Inl e
      | Inr review \<Rightarrow>
          (case get_book_by_id db (rv_book_id review) True of
             Inl e \<Rightarrow> Inl e | Inr book \<Rightarrow> Inr (update_review avg st db review book u)))"

definition delete_review_route ::
  "(int \<Rightarrow> int \<Rightarrow> int) \<Rightarrow> library_db \<Rightarrow> timestamp \<Rightarrow> uuid \<Rightarrow> uuid \<Rightarrow> library_db result" where
  "delete_review_route avg db now review_id user_id =
     (case get_own_review db review_id user_id of
        Inl e \<Rightarrow> Inl e
      | Inr review \<Rightarrow>
          (case get_book_by_id db (rv_book_id review) True of
             Inl e \<Rightarrow> Inl e | Inr book \<Rightarrow> Inr (delete_review avg db now review book)))"

definition vote_review_route :: "library_db \<Rightarrow> uuid \<Rightarrow> uuid \<Rightarrow> bool \<Rightarrow> (library_db \<times> Review) result" where
  "vote_review_route db review_id user_id is_helpful =
     (case get_review db review_id of Inl e \<Rightarrow> Inl e | Inr review \<Rightarrow> vote_review db review user_id is_helpful)"

text \<open>
  The route passes \<open>payload\<close> and \<open>actor_id\<close> to a service that takes \<open>status\<close>, \<open>note\<close> and
  \<open>moderator_id\<close>.
\<close>

definition moderate_review_route :: "library_db \<Rightarrow> uuid \<Rightarrow> ReviewModerate \<Rightarrow> uuid \<Rightarrow> (library_db \<times> Review) result" where
  "moderate_review_route db review_id payload actor_id =
     (case get_review db review_id of
        Inl e \<Rightarrow> Inl e
      | Inr review \<Rightarrow>
          (case get_book_by_id db (rv_book_id review) True of
             Inl e \<Rightarrow> Inl e | Inr book \<Rightarrow> Inl (PyExn ''TypeError'')))"

subsection \<open>What the aggregate should be\<close>

definition counts_for :: "uuid \<Rightarrow> Review \<Rightarrow> bool" where
  "counts_for i r \<longleftrightarrow> rv_book_id r = i \<and> rv_deleted_at r = None \<and> rv_status r = ReviewApproved"

definition weight :: "uuid \<Rightarrow> Review \<Rightarrow> int" where
  "weight i r = (if counts_for i r then rv_rating r else 0)"

definition one_if :: "uuid \<Rightarrow> Review \<Rightarrow> int" where
  "one_if i r = (if counts_for i r then 1 else 0)"

definition rating_of :: "catalogue_book \<Rightarrow> uuid \<times> int \<times> int \<times> int" where
  "rating_of b = (bk_id b, cb_rating_sum b, cb_rating_count b, cb_rating_average b)"

definition true_rating :: "(int \<Rightarrow> int \<Rightarrow> int) \<Rightarrow> Review list \<Rightarrow> uuid \<Rightarrow> uuid \<times> int \<times> int \<times> int" where
  "true_rating avg t i =
     (let s = sum_list (map (weight i) t); n = sum_list (map (one_if i) t)
      in (i, s, n, if n \<noteq> 0 then avg s n else 0))"

definition reviews_ok :: "Review list \<Rightarrow> bool" where
  "reviews_ok t \<longleftrightarrow> distinct (map rv_id t) \<and> reviews_tbl.unique_keys t \<and> list_all (\<lambda>r. 1 \<le> rv_rating r \<and> rv_rating r \<le> 5) t"

definition ratings_ok :: "(int \<Rightarrow> int \<Rightarrow> int) \<Rightarrow> library_db \<Rightarrow> bool" where
  "ratings_ok avg db \<longleftrightarrow>
     distinct (map bk_id (lb_books db)) \<and> reviews_ok (lb_reviews db)
     \<and> rv_book_id ` set (lb_reviews db) \<subseteq> bk_id ` set (lb_books db)
     \<and> map rating_of (lb_books db) = map (true_rating avg (lb_reviews db)) (map bk_id (lb_books db))"

lemma weight_nonneg: "reviews_ok t \<Longrightarrow> r \<in> set t \<Longrightarrow> 0 \<le> weight i r"
  by (auto simp: reviews_ok_def list_all_iff weight_def)

lemma sums_nonneg:
  assumes "reviews_ok t"
  shows "0 \<le> sum_list (map (weight i) t)" and "0 \<le> sum_list (map (one_if i) t)"
  by (rule sum_list_nonneg; use weight_nonneg [OF assms] in \<open>auto simp: one_if_def\<close>)+

lemma update_rows_absent: "i \<notin> k ` set t \<Longrightarrow> update_rows (\<lambda>x. k x = i) f t = t"
  by (induction t) auto

lemma sum_replace:
  fixes w :: "'r \<Rightarrow> int"
  assumes "distinct (map k t)" and "r \<in> set t"
  shows "sum_list (map w (update_rows (\<lambda>x. k x = k r) (\<lambda>_. r') t)) = sum_list (map w t) - w r + w r'"
proof -
  obtain xs ys where t: "t = xs @ r # ys" using assms(2) by (meson split_list)
  with assms(1) have "k r \<notin> k ` set xs" "k r \<notin> k ` set ys" by auto
  then have "update_rows (\<lambda>x. k x = k r) (\<lambda>_. r') xs = xs" "update_rows (\<lambda>x. k x = k r) (\<lambda>_. r') ys = ys"
    by (simp_all add: update_rows_absent)
  then show ?thesis by (simp add: t update_rows_append)
qed

lemma sum_remove_nonneg:
  fixes w :: "'r \<Rightarrow> int"
  assumes "\<And>x. x \<in> set t \<Longrightarrow> 0 \<le> w x" and "r \<in> set t"
  shows "w r \<le> sum_list (map w t)"
proof -
  obtain xs ys where t: "t = xs @ r # ys" using assms(2) by (meson split_list)
  have "0 \<le> sum_list (map w xs)" "0 \<le> sum_list (map w ys)" by (rule sum_list_nonneg; use assms(1) t in auto)+
  then show ?thesis by (simp add: t)
qed

subsection \<open>Deltas keep the aggregate\<close>

lemma delta_rating:
  assumes "0 \<le> cb_rating_sum b + x" and "0 \<le> cb_rating_count b + c"
  shows "rating_of (apply_rating_delta avg b x c) =
    (bk_id b, cb_rating_sum b + x, cb_rating_count b + c,
     if cb_rating_count b + c \<noteq> 0 then avg (cb_rating_sum b + x) (cb_rating_count b + c) else 0)"
  using assms by (simp add: rating_of_def apply_rating_delta_def recalculate_def)

lemma delta_id [simp]: "bk_id (apply_rating_delta avg b x c) = bk_id b"
  by (simp add: apply_rating_delta_def recalculate_def)

lemma delta_twice:
  assumes "0 \<le> cb_rating_sum b + x" and "0 \<le> cb_rating_count b + c"
  shows "apply_rating_delta avg (apply_rating_delta avg b x c) y d = apply_rating_delta avg b (x + y) (c + d)"
  using assms by (simp add: apply_rating_delta_def recalculate_def add.assoc)

lemma book_rating:
  assumes "ratings_ok avg db" and "b \<in> set (lb_books db)"
  shows "rating_of b = true_rating avg (lb_reviews db) (bk_id b)"
  using assms by (simp add: ratings_ok_def)

text \<open>
  The common step: a review is added or replaced and the book moves by the difference it makes.
\<close>

definition moves_by :: "(int \<Rightarrow> int \<Rightarrow> int) \<Rightarrow> catalogue_book \<Rightarrow> int \<Rightarrow> int \<Rightarrow> catalogue_book \<Rightarrow> bool" where
  "moves_by avg b x c b' \<longleftrightarrow> b' = apply_rating_delta avg b x c \<or> (b' = b \<and> x = 0 \<and> c = 0)"

lemma ratings_ok_step:
  assumes ok: "ratings_ok avg db" and b: "b \<in> set (lb_books db)"
    and t: "reviews_ok t" "rv_book_id ` set t \<subseteq> bk_id ` set (lb_books db)"
    and x: "\<And>i. sum_list (map (weight i) t) = sum_list (map (weight i) (lb_reviews db)) + (if i = bk_id b then x else 0)"
    and c: "\<And>i. sum_list (map (one_if i) t) = sum_list (map (one_if i) (lb_reviews db)) + (if i = bk_id b then c else 0)"
    and b': "moves_by avg b x c b'"
  shows "ratings_ok avg (save_book (db\<lparr>lb_reviews := t\<rparr>) b')"
proof -
  have ids: "distinct (map bk_id (lb_books db))" using ok by (simp add: ratings_ok_def)
  have id': "bk_id b' = bk_id b" using b' by (auto simp: moves_by_def)
  have "rating_of b' = true_rating avg t (bk_id b)"
  proof (cases "x = 0 \<and> c = 0 \<and> b' = b")
    case True
    then show ?thesis using book_rating [OF ok b] x [of "bk_id b"] c [of "bk_id b"] by (simp add: true_rating_def)
  next
    case False
    then have "b' = apply_rating_delta avg b x c" using b' by (auto simp: moves_by_def)
    moreover have "cb_rating_sum b = sum_list (map (weight (bk_id b)) (lb_reviews db))"
        "cb_rating_count b = sum_list (map (one_if (bk_id b)) (lb_reviews db))"
      using book_rating [OF ok b] by (simp_all add: rating_of_def true_rating_def Let_def)
    ultimately show ?thesis
      using sums_nonneg [OF t(1), of "bk_id b"] x [of "bk_id b"] c [of "bk_id b"]
      by (simp add: delta_rating true_rating_def Let_def)
  qed
  moreover have "true_rating avg t (bk_id r) = true_rating avg (lb_reviews db) (bk_id r)" if "bk_id r \<noteq> bk_id b" for r :: catalogue_book
    using that x [of "bk_id r"] c [of "bk_id r"] by (simp add: true_rating_def)
  ultimately have "map rating_of (update_rows (\<lambda>r. bk_id r = bk_id b) (\<lambda>_. b') (lb_books db))
      = map (true_rating avg t) (map bk_id (lb_books db))"
    using book_rating [OF ok] by (auto simp: update_rows_def)
  moreover have "map bk_id (update_rows (\<lambda>r. bk_id r = bk_id b) (\<lambda>_. b') (lb_books db)) = map bk_id (lb_books db)"
    using id' by (auto intro!: map_update_same)
  ultimately show ?thesis
    using ids t id' by (simp add: ratings_ok_def save_book_def flip: set_map)
qed

lemma weight_other: "rv_book_id r \<noteq> i \<Longrightarrow> weight i r = 0 \<and> one_if i r = 0"
  by (simp add: weight_def one_if_def counts_for_def)

lemma replace_review_ok:
  assumes ok: "ratings_ok avg db" and b: "b \<in> set (lb_books db)" and r: "r \<in> set (lb_reviews db)" "rv_book_id r = bk_id b"
    and r': "rv_id r' = rv_id r" "rv_book_id r' = rv_book_id r" "rv_user_id r' = rv_user_id r" "1 \<le> rv_rating r'" "rv_rating r' \<le> 5"
    and b': "moves_by avg b (weight (bk_id b) r' - weight (bk_id b) r) (one_if (bk_id b) r' - one_if (bk_id b) r) b'"
  shows "ratings_ok avg (save_book (save_review db r') b')"
proof -
  let ?t = "update_rows (\<lambda>x. rv_id x = rv_id r) (\<lambda>_. r') (lb_reviews db)"
  have t: "reviews_ok (lb_reviews db)" using ok by (simp add: ratings_ok_def)
  then have ids: "distinct (map rv_id (lb_reviews db))" by (simp add: reviews_ok_def)
  have only: "x = r" if "x \<in> set (lb_reviews db)" "rv_id x = rv_id r" for x
    using ids r(1) that by (auto simp: distinct_map dest: inj_onD)
  have "map rv_id ?t = map rv_id (lb_reviews db)" using r'(1) by (auto intro!: map_update_same)
  moreover have "map (\<lambda>r. (rv_book_id r, rv_user_id r)) ?t = map (\<lambda>r. (rv_book_id r, rv_user_id r)) (lb_reviews db)"
    by (rule map_update_same) (use only r'(2,3) in auto)
  ultimately have "reviews_ok ?t"
    using t r'(4,5) by (auto simp: reviews_ok_def reviews_tbl.unique_keys_def list_all_iff set_update_rows)
  moreover have "rv_book_id ` set ?t \<subseteq> bk_id ` set (lb_books db)"
    using ok b r r'(2) by (auto simp: ratings_ok_def set_update_rows)
  moreover have "sum_list (map (weight i) ?t) = sum_list (map (weight i) (lb_reviews db))
      + (if i = bk_id b then weight (bk_id b) r' - weight (bk_id b) r else 0)"
    "sum_list (map (one_if i) ?t) = sum_list (map (one_if i) (lb_reviews db))
      + (if i = bk_id b then one_if (bk_id b) r' - one_if (bk_id b) r else 0)" for i
    using weight_other [of r i] weight_other [of r' i] r(2) r'(2) by (simp_all add: sum_replace [OF ids r(1)])
  ultimately have "ratings_ok avg (save_book (db\<lparr>lb_reviews := ?t\<rparr>) b')"
    by (intro ratings_ok_step [OF ok b _ _ _ _ b'])
  then show ?thesis by (simp add: save_review_def r'(1))
qed

lemma insert_review_ok:
  assumes ok: "ratings_ok avg db" and b: "b \<in> set (lb_books db)" and r: "rv_book_id r = bk_id b" "1 \<le> rv_rating r" "rv_rating r \<le> 5"
    and t: "insert_unique review_clash r (lb_reviews db) = Some t" and new: "rv_id r \<notin> rv_id ` set (lb_reviews db)"
    and b': "moves_by avg b (weight (bk_id b) r) (one_if (bk_id b) r) b'"
  shows "ratings_ok avg (save_book (db\<lparr>lb_reviews := t\<rparr>) b')"
proof (rule ratings_ok_step [OF ok b _ _ _ _ b'])
  have eq: "t = lb_reviews db @ [r]" using t by (simp add: insert_unique_Some)
  have "reviews_tbl.unique_keys t"
    using ok reviews_tbl.insert_keeps_unique [OF _ t] by (simp add: ratings_ok_def reviews_ok_def)
  then show "reviews_ok t" using ok new r by (simp add: ratings_ok_def reviews_ok_def eq)
  show "rv_book_id ` set t \<subseteq> bk_id ` set (lb_books db)" using ok b r(1) by (auto simp: ratings_ok_def eq)
  show "sum_list (map (weight i) t) = sum_list (map (weight i) (lb_reviews db)) + (if i = bk_id b then weight (bk_id b) r else 0)"
    "sum_list (map (one_if i) t) = sum_list (map (one_if i) (lb_reviews db)) + (if i = bk_id b then one_if (bk_id b) r else 0)" for i
    using weight_other [of r i] r(1) by (simp_all add: eq)
qed

lemma get_review_found:
  assumes "get_review db i = Inr r"
  shows "r \<in> set (lb_reviews db)" and "rv_id r = i" and "rv_deleted_at r = None"
  using assms by (auto simp: get_review_def split: option.splits if_splits dest: first_row_Some)

lemma get_own_review_found:
  assumes "get_own_review db i u = Inr r"
  shows "get_review db i = Inr r" and "rv_user_id r = u"
  using assms by (auto simp: get_own_review_def split: sum.splits if_splits)

lemma save_same_book:
  assumes "distinct (map bk_id (lb_books db))" and "b \<in> set (lb_books db)"
  shows "save_book db b = db"
proof -
  have "save_book db b = db\<lparr>lb_books := update_rows (\<lambda>r. bk_id r = bk_id b) (\<lambda>r. r) (lb_books db)\<rparr>"
    by (rule save_book_as_update [OF assms]) auto
  then show ?thesis by (simp add: update_rows_id)
qed

subsection \<open>Every route keeps the aggregate\<close>

lemma create_review_ok:
  assumes ok: "ratings_ok avg db" and b: "b \<in> set (lb_books db)" and p: "valid_review_create p"
    and new: "review_id \<notin> rv_id ` set (lb_reviews db)"
    and c: "create_review avg st db review_id now b user p verified = Inr (db', r)"
  shows "ratings_ok avg db'"
proof -
  have ids: "distinct (map bk_id (lb_books db))" using ok by (simp add: ratings_ok_def)
  let ?b' = "if first_status st = ReviewApproved then apply_rating_delta avg b (vr_rating p) 1 else b"
  consider (again) e where "e \<in> set (lb_reviews db)" "rv_book_id e = bk_id b" "rv_deleted_at e \<noteq> None"
      "rv_id r = rv_id e" "rv_book_id r = rv_book_id e" "rv_user_id r = rv_user_id e" "rv_rating r = vr_rating p"
      "rv_deleted_at r = None" "rv_status r = first_status st" "db' = save_book (save_review db r) ?b'"
    | (first) t where "insert_unique review_clash r (lb_reviews db) = Some t" "rv_id r = review_id" "rv_book_id r = bk_id b"
      "rv_rating r = vr_rating p" "rv_deleted_at r = None" "rv_status r = first_status st"
      "db' = save_book (db\<lparr>lb_reviews := t\<rparr>) ?b'"
  proof -
    have keep: "save_book (save_review db x) b = save_review db x" "save_book (db\<lparr>lb_reviews := t\<rparr>) b = db\<lparr>lb_reviews := t\<rparr>" for x t
      using save_same_book [of "save_review db x" b] save_same_book [of "db\<lparr>lb_reviews := t\<rparr>" b] ids b
      by (simp_all add: save_review_def)
    have "e \<in> set (lb_reviews db) \<and> rv_book_id e = bk_id b" if "review_for_user db (bk_id b) user = Inr (Some e)" for e
    proof -
      have "e \<in> set (filter (\<lambda>r. rv_book_id r = bk_id b \<and> rv_user_id r = user) (lb_reviews db))"
        using one_or_none_Some [OF that [unfolded review_for_user_def]] by simp
      then show ?thesis by simp
    qed
    with c show thesis
      by (auto simp: create_review_def Let_def keep split: sum.splits option.splits if_splits intro: that)
  qed
  then show ?thesis
  proof cases
    case again
    then show ?thesis
      using p by (auto intro!: replace_review_ok [OF ok b again(1,2)]
          simp: moves_by_def weight_def one_if_def counts_for_def valid_review_create_def)
  next
    case first
    then show ?thesis
      using p new by (auto intro!: insert_review_ok [OF ok b]
          simp: moves_by_def weight_def one_if_def counts_for_def valid_review_create_def)
  qed
qed

lemma review_facts:
  assumes ok: "ratings_ok avg db" and r: "r \<in> set (lb_reviews db)" and b: "b \<in> set (lb_books db)" "rv_book_id r = bk_id b"
  shows "1 \<le> rv_rating r" and "rv_rating r \<le> 5"
    and "counts_for (bk_id b) r \<Longrightarrow> rv_rating r \<le> cb_rating_sum b \<and> 1 \<le> cb_rating_count b"
proof -
  have t: "reviews_ok (lb_reviews db)" using ok by (simp add: ratings_ok_def)
  with r show "1 \<le> rv_rating r" "rv_rating r \<le> 5" by (auto simp: reviews_ok_def list_all_iff)
  assume c: "counts_for (bk_id b) r"
  have "weight (bk_id b) r \<le> sum_list (map (weight (bk_id b)) (lb_reviews db))"
    "one_if (bk_id b) r \<le> sum_list (map (one_if (bk_id b)) (lb_reviews db))"
    by (rule sum_remove_nonneg [OF _ r]; use weight_nonneg [OF t] in \<open>auto simp: one_if_def\<close>)+
  with c book_rating [OF ok b(1)] show "rv_rating r \<le> cb_rating_sum b \<and> 1 \<le> cb_rating_count b"
    by (simp add: weight_def one_if_def rating_of_def true_rating_def Let_def)
qed

definition new_rating :: "Review \<Rightarrow> ReviewUpdate \<Rightarrow> int" where
  "new_rating r u = (case vu_rating u of Some (Some n) \<Rightarrow> n | _ \<Rightarrow> rv_rating r)"

lemma update_review_flat:
  "update_review avg st db r b u =
     (let n = new_rating r u;
          b1 = (if n \<noteq> rv_rating r \<and> rv_status r = ReviewApproved then apply_rating_delta avg b (n - rv_rating r) 0 else b);
          back = bs_reviews_require_moderation st \<and> rv_status r = ReviewApproved;
          r2 = r\<lparr>rv_rating := n, rv_title := patched_opt (vu_title u) (rv_title r), rv_body := patched_opt (vu_body u) (rv_body r)\<rparr>;
          r3 = (if back then r2\<lparr>rv_status := ReviewPending\<rparr> else r2)
      in (save_book (save_review db r3) (if back then apply_rating_delta avg b1 (- n) (- 1) else b1), r3))"
proof -
  have same: "r\<lparr>rv_rating := rv_rating r\<rparr> = r" by simp
  show ?thesis
  proof (cases "\<exists>n. vu_rating u = Some (Some n) \<and> n \<noteq> rv_rating r")
    case True
    then obtain n where n: "vu_rating u = Some (Some n)" "n \<noteq> rv_rating r" by blast
    then have "new_rating r u = n" by (simp add: new_rating_def)
    with n show ?thesis by (simp add: update_review_def Let_def)
  next
    case False
    then have "new_rating r u = rv_rating r" by (auto simp: new_rating_def split: option.splits)
    moreover from False have "(case vu_rating u of
        Some (Some n) \<Rightarrow> if n \<noteq> rv_rating r
          then (r\<lparr>rv_rating := n\<rparr>, if rv_status r = ReviewApproved then apply_rating_delta avg b (n - rv_rating r) 0 else b)
          else (r, b) | _ \<Rightarrow> (r, b)) = (r, b)"
      by (auto split: option.splits)
    ultimately show ?thesis unfolding update_review_def by (simp only: Let_def same prod.case simp_thms if_False) simp
  qed
qed

lemma update_review_ok:
  assumes ok: "ratings_ok avg db" and r: "r \<in> set (lb_reviews db)" "rv_deleted_at r = None"
    and b: "b \<in> set (lb_books db)" "rv_book_id r = bk_id b" and u: "valid_review_update u"
  shows "ratings_ok avg (fst (update_review avg st db r b u))"
proof -
  note f = review_facts [OF ok r(1) b]
  have n: "1 \<le> new_rating r u" "new_rating r u \<le> 5"
    using f(1,2) u by (auto simp: new_rating_def valid_review_update_def split: option.splits)
  have live: "counts_for (bk_id b) r \<longleftrightarrow> rv_status r = ReviewApproved" using r(2) b(2) by (simp add: counts_for_def)
  have twice: "apply_rating_delta avg (apply_rating_delta avg b (new_rating r u - rv_rating r) 0) (- new_rating r u) (- 1)
      = apply_rating_delta avg b (- rv_rating r) (- 1)" if "rv_status r = ReviewApproved"
    using that f(3) live n delta_twice [of b "new_rating r u - rv_rating r" 0 avg "- new_rating r u" "- 1"] by simp
  show ?thesis
    unfolding update_review_flat Let_def fst_conv
    by (rule replace_review_ok [OF ok b(1) r(1) b(2)])
       (use n r(2) b(2) twice in \<open>simp_all add: moves_by_def weight_def one_if_def counts_for_def\<close>)
qed

lemma delete_review_ok:
  assumes ok: "ratings_ok avg db" and r: "r \<in> set (lb_reviews db)" "rv_deleted_at r = None"
    and b: "b \<in> set (lb_books db)" "rv_book_id r = bk_id b"
  shows "ratings_ok avg (delete_review avg db now r b)"
  unfolding delete_review_def using review_facts [OF ok r(1) b] r(2) b(2)
  by (intro replace_review_ok [OF ok b(1) r(1) b(2)]) (auto simp: moves_by_def weight_def one_if_def counts_for_def)

lemma moderate_review_ok:
  assumes ok: "ratings_ok avg db" and r: "r \<in> set (lb_reviews db)" "rv_deleted_at r = None"
    and b: "b \<in> set (lb_books db)" "rv_book_id r = bk_id b"
  shows "ratings_ok avg (fst (moderate_review avg db now r b status note moderator))"
  unfolding moderate_review_def Let_def fst_conv using review_facts [OF ok r(1) b] r(2) b(2)
  by (intro replace_review_ok [OF ok b(1) r(1) b(2)]) (auto simp: moves_by_def weight_def one_if_def counts_for_def)

lemma vote_review_ok:
  assumes ok: "ratings_ok avg db" and r: "r \<in> set (lb_reviews db)" and v: "vote_review db r user h = Inr (db', r')"
  shows "ratings_ok avg db'"
proof -
  obtain b where b: "b \<in> set (lb_books db)" "rv_book_id r = bk_id b"
    using ok r by (fastforce simp: ratings_ok_def)
  have ids: "distinct (map bk_id (lb_books db))" using ok by (simp add: ratings_ok_def)
  have "ratings_ok avg (save_book (save_review db (r\<lparr>rv_helpful_count := n\<rparr>)) b)" for n
    using review_facts [OF ok r b]
    by (intro replace_review_ok [OF ok b(1) r b(2)]) (auto simp: moves_by_def weight_def one_if_def counts_for_def)
  moreover have "save_book (save_review db (r\<lparr>rv_helpful_count := n\<rparr>)) b = save_review db (r\<lparr>rv_helpful_count := n\<rparr>)" for n
    using save_same_book [of "save_review db (r\<lparr>rv_helpful_count := n\<rparr>)" b] ids b(1) by (simp add: save_review_def)
  moreover have "ratings_ok avg (d\<lparr>lb_votes := vs\<rparr>) = ratings_ok avg d" for d vs by (simp add: ratings_ok_def)
  moreover have "save_review (d\<lparr>lb_votes := vs\<rparr>) x = (save_review d x)\<lparr>lb_votes := vs\<rparr>" for d vs x
    by (simp add: save_review_def)
  ultimately show ?thesis
    using v ok by (auto simp: vote_review_def Let_def split: option.splits if_splits)
qed

lemma save_book_rating:
  assumes "distinct (map bk_id (lb_books db))" and "b \<in> set (lb_books db)" and "rating_of b' = rating_of b"
  shows "map rating_of (lb_books (save_book db b')) = map rating_of (lb_books db)"
proof -
  have "r = b" if "r \<in> set (lb_books db)" "bk_id r = bk_id b'" for r
    using assms that by (auto simp: distinct_map rating_of_def dest: inj_onD)
  then show ?thesis using assms(3) by (auto simp: save_book_def intro!: map_update_same)
qed

lemma replace_links_reviews:
  "replace_contributors db i cs = Inr db1 \<Longrightarrow> lb_reviews db1 = lb_reviews db"
  "replace_categories db i ks = Inr db1 \<Longrightarrow> lb_reviews db1 = lb_reviews db"
  by (auto simp: replace_contributors_def replace_categories_def Let_def split: if_splits)

lemma create_book_reviews: "create_catalogue_book db i now p actor = Inr (db', b) \<Longrightarrow> lb_reviews db' = lb_reviews db"
  by (auto simp: create_catalogue_book_def flush_books_def map_sum_Inr split: if_splits sum.splits dest!: replace_links_reviews)

lemma update_book_reviews: "update_catalogue_book db book u actor = Inr (db', b) \<Longrightarrow> lb_reviews db' = lb_reviews db"
  by (auto simp: update_catalogue_book_def Let_def map_sum_Inr flush_update_def flush_books_def optionally_def
      split: if_splits sum.splits option.splits dest!: replace_links_reviews)

text \<open>The staff's changes of the catalogue leave ratings alone.\<close>

lemma catalogue_step_ratings:
  assumes "catalogue_step db db'" and "distinct (map bk_id (lb_books db))"
  shows "lb_reviews db' = lb_reviews db \<and>
    (map rating_of (lb_books db') = map rating_of (lb_books db)
     \<or> (\<exists>i. i \<notin> bk_id ` set (lb_books db) \<and> map rating_of (lb_books db') = map rating_of (lb_books db) @ [(i, 0, 0, 0)]))"
  using assms
proof (induction rule: catalogue_step.induct)
  case (step_create db i now p actor db' b m)
  then obtain q where c: "create_catalogue_book db i now q actor = Inr (db', b)"
    by (auto simp: create_book_route_def map_sum_Inr split: sum.splits)
  have "lb_reviews db' = lb_reviews db" using c by (rule create_book_reviews)
  moreover have "map rating_of (lb_books db') = map rating_of (lb_books db) @ [(i, 0, 0, 0)]"
    by (simp add: create_book_effect(1) [OF c] rating_of_def new_book_def)
  ultimately show ?case using step_create.hyps(2) by blast
next
  case (step_update db i u actor db' b m)
  then obtain book where g: "get_book_by_id db i True = Inr book" and c: "update_catalogue_book db book u actor = Inr (db', b)"
    by (auto simp: update_book_route_def on_book_Inr split: if_splits)
  have "lb_reviews db' = lb_reviews db" using c by (rule update_book_reviews)
  moreover have "lb_books db' = lb_books (save_book db (patch_book u actor book))"
    unfolding update_book_effect(1) [OF c] by (simp add: save_book_def patch_book_def)
  moreover have "map rating_of (lb_books (save_book db (patch_book u actor book))) = map rating_of (lb_books db)"
    by (rule save_book_rating [OF step_update.prems get_book_by_id_found(1) [OF g]]) (simp add: rating_of_def patch_book_def)
  ultimately show ?case by simp
next
  case (step_publish db now i actor db' b m)
  then obtain book where g: "get_book_by_id db i True = Inr book" and c: "publish_catalogue_book db now book actor None = Inr (db', b)"
    by (auto simp: publish_book_route_def on_book_Inr)
  then have "db' = save_book db b" "rating_of b = rating_of book"
    by (auto simp: publish_catalogue_book_def Let_def rating_of_def split: if_splits)
  with save_book_rating [OF step_publish.prems get_book_by_id_found(1) [OF g]] show ?case by (simp add: save_book_def)
next
  case (step_unpublish db i actor db' b m)
  then obtain book where g: "get_book_by_id db i True = Inr book" and "db' = save_book db b" "rating_of b = rating_of book"
    by (auto simp: unpublish_book_route_def on_book_Inr unpublish_catalogue_book_def Let_def rating_of_def)
  with save_book_rating [OF step_unpublish.prems get_book_by_id_found(1) [OF g]] show ?case by (simp add: save_book_def)
next
  case (step_delete db now i actor db' b m)
  then obtain book where g: "get_book_by_id db i True = Inr book" and "db' = save_book db b" "rating_of b = rating_of book"
    by (auto simp: delete_book_route_def on_book_Inr soft_delete_book_def Let_def rating_of_def)
  with save_book_rating [OF step_delete.prems get_book_by_id_found(1) [OF g]] show ?case by (simp add: save_book_def)
next
  case (step_version db vid i p actor db' v)
  then obtain book where g: "get_book_by_id db i True = Inr book" and c: "add_book_version db vid book p actor = Inr (db', v)"
    by (auto simp: add_version_route_def split: sum.splits)
  then obtain b vs where "db' = (save_book db b)\<lparr>lb_versions := vs\<rparr>" "rating_of b = rating_of book"
    by (fastforce simp: add_book_version_def Let_def rating_of_def split: option.splits)
  with save_book_rating [OF step_version.prems get_book_by_id_found(1) [OF g]] show ?case by (simp add: save_book_def)
next
  case (step_download sign db st now user i fmt db' t)
  then obtain j where "db' = increment_download_count db j"
    by (auto simp: download_book_def Let_def split: sum.splits option.splits if_splits)
  then show ?case by (auto simp: increment_download_count_def rating_of_def intro!: map_update_same)
qed

text \<open>A request to the review routes or the catalogue; and a moderator's decision in the service.\<close>

inductive review_route :: "(int \<Rightarrow> int \<Rightarrow> int) \<Rightarrow> books_settings \<Rightarrow> library_db \<Rightarrow> library_db \<Rightarrow> bool" for avg st where
  rr_create: "create_review_route avg st db review_id now i user p = Inr (db', r) \<Longrightarrow> review_id \<notin> rv_id ` set (lb_reviews db)
    \<Longrightarrow> review_route avg st db db'"
| rr_update: "update_review_route avg st db i user u = Inr (db', r) \<Longrightarrow> review_route avg st db db'"
| rr_delete: "delete_review_route avg db now i user = Inr db' \<Longrightarrow> review_route avg st db db'"
| rr_vote: "vote_review_route db i user h = Inr (db', r) \<Longrightarrow> review_route avg st db db'"
| rr_moderate: "moderate_review_route db i p actor = Inr (db', r) \<Longrightarrow> review_route avg st db db'"
| rr_catalogue: "catalogue_step db db' \<Longrightarrow> review_route avg st db db'"

inductive review_step :: "(int \<Rightarrow> int \<Rightarrow> int) \<Rightarrow> books_settings \<Rightarrow> library_db \<Rightarrow> library_db \<Rightarrow> bool" for avg st where
  by_route: "review_route avg st db db' \<Longrightarrow> review_step avg st db db'"
| by_moderator: "get_review db i = Inr r \<Longrightarrow> get_book_by_id db (rv_book_id r) True = Inr b
    \<Longrightarrow> moderate_review avg db now r b status note moderator = (db', r') \<Longrightarrow> review_step avg st db db'"

lemma no_moderation: "moderate_review_route db i p actor \<noteq> Inr x"
  by (auto simp: moderate_review_route_def split: sum.splits)

lemma filtered_sums:
  "sum_list (map (weight i) t) = sum_list (map rv_rating (filter (counts_for i) t))"
  "sum_list (map (one_if i) t) = int (length (filter (counts_for i) t))"
  by (induction t) (auto simp: weight_def one_if_def)

lemma catalogue_step_ratings_ok:
  assumes "catalogue_step db db'" and "ratings_ok avg db"
  shows "ratings_ok avg db'"
proof -
  have ids: "distinct (map bk_id (lb_books db))" and fk: "rv_book_id ` set (lb_reviews db) \<subseteq> bk_id ` set (lb_books db)"
    and ok: "map rating_of (lb_books db) = map (true_rating avg (lb_reviews db)) (map bk_id (lb_books db))"
    using assms(2) by (auto simp: ratings_ok_def)
  have bk: "map bk_id t = map fst (map rating_of t)" for t by (simp add: rating_of_def)
  note e = catalogue_step_ratings [OF assms(1) ids]
  from e show ?thesis
  proof (elim conjE disjE exE)
    assume "lb_reviews db' = lb_reviews db" and m: "map rating_of (lb_books db') = map rating_of (lb_books db)"
    moreover have "map bk_id (lb_books db') = map bk_id (lb_books db)" by (simp only: bk m)
    ultimately show ?thesis using assms(2) by (simp only: ratings_ok_def set_map [symmetric])
  next
    fix i assume r: "lb_reviews db' = lb_reviews db" and i: "i \<notin> bk_id ` set (lb_books db)"
      and m: "map rating_of (lb_books db') = map rating_of (lb_books db) @ [(i, 0, 0, 0)]"
    have ids': "map bk_id (lb_books db') = map bk_id (lb_books db) @ [i]" by (simp only: bk m map_append list.map fst_conv)
    have "counts_for i r \<Longrightarrow> r \<notin> set (lb_reviews db)" for r using fk i by (auto simp: counts_for_def)
    then have "filter (counts_for i) (lb_reviews db) = []" by (auto simp: filter_empty_conv)
    then have "true_rating avg (lb_reviews db) i = (i, 0, 0, 0)" by (simp add: true_rating_def filtered_sums)
    moreover have "bk_id ` set (lb_books db) \<subseteq> bk_id ` set (lb_books db')"
      using arg_cong [OF ids', of set] by auto
    with fk have "rv_book_id ` set (lb_reviews db) \<subseteq> bk_id ` set (lb_books db')" by blast
    ultimately show ?thesis
      using assms(2) i by (simp add: ratings_ok_def ids' m r del: map_map)
  qed
qed

lemma review_step_ok:
  assumes "review_step avg st db db'" and "ratings_ok avg db"
  shows "ratings_ok avg db'"
  using assms
proof (induction rule: review_step.induct)
  case (by_route db db')
  then show ?case
  proof (induction rule: review_route.induct)
    case (rr_create db review_id now i user p db' r)
    then show ?case
      by (auto simp: create_review_route_def Let_def split: if_splits sum.splits
          intro: create_review_ok dest: get_book_by_id_found(1))
  next
    case (rr_update db i user u db' r)
    then obtain x b where "get_own_review db i user = Inr x" "get_book_by_id db (rv_book_id x) True = Inr b" "valid_review_update u"
        "db' = fst (update_review avg st db x b u)"
      by (auto simp: update_review_route_def split: if_splits sum.splits)
    then show ?case
      using update_review_ok [OF rr_update.prems] get_own_review_found(1) get_review_found get_book_by_id_found by metis
  next
    case (rr_delete db now i user db')
    then obtain x b where "get_own_review db i user = Inr x" "get_book_by_id db (rv_book_id x) True = Inr b"
        "db' = delete_review avg db now x b"
      by (auto simp: delete_review_route_def split: sum.splits)
    then show ?case
      using delete_review_ok [OF rr_delete.prems] get_own_review_found(1) get_review_found get_book_by_id_found by metis
  next
    case (rr_vote db i user h db' r)
    then show ?case
      by (auto simp: vote_review_route_def split: sum.splits intro: vote_review_ok dest: get_review_found(1))
  next
    case (rr_moderate db i p actor db' r)
    then show ?case using no_moderation by metis
  next
    case (rr_catalogue db db')
    then show ?case by (rule catalogue_step_ratings_ok)
  qed
next
  case (by_moderator db i r b now status remark moderator db' r')
  then show ?case
    using moderate_review_ok [OF by_moderator.prems] get_review_found get_book_by_id_found by (metis fst_conv)
qed

text \<open>
  C24: The rating a book shows is the rating of its reviews. Over any sequence of reviews written,
  edited, withdrawn, rewritten, voted on and moderated, with moderation on or off, and of changes
  to the catalogue, every book's sum and count are those of its approved reviews that are not
  deleted, the average is derived from them, ratings lie between one and five, and each reader
  has at most one review of a book.
\<close>

theorem ratings_match_reviews:
  assumes "(review_step avg st)\<^sup>*\<^sup>* db db'" and "ratings_ok avg db"
  shows "list_all (\<lambda>b.
      let counted = filter (\<lambda>r. rv_book_id r = bk_id b \<and> rv_deleted_at r = None \<and> rv_status r = ReviewApproved) (lb_reviews db')
      in cb_rating_sum b = sum_list (map rv_rating counted) \<and> cb_rating_count b = int (length counted)
         \<and> cb_rating_average b = (if counted = [] then 0 else avg (cb_rating_sum b) (cb_rating_count b))) (lb_books db')
    \<and> list_all (\<lambda>r. 1 \<le> rv_rating r \<and> rv_rating r \<le> 5) (lb_reviews db')
    \<and> distinct (map (\<lambda>r. (rv_book_id r, rv_user_id r)) (lb_reviews db'))"
proof -
  have ok: "ratings_ok avg db'" using assms by (induction rule: rtranclp_induct) (auto intro: review_step_ok)
  have "rating_of b = true_rating avg (lb_reviews db') (bk_id b)" if "b \<in> set (lb_books db')" for b
    using book_rating [OF ok that] .
  then have "list_all (\<lambda>b.
      let counted = filter (counts_for (bk_id b)) (lb_reviews db')
      in cb_rating_sum b = sum_list (map rv_rating counted) \<and> cb_rating_count b = int (length counted)
         \<and> cb_rating_average b = (if counted = [] then 0 else avg (cb_rating_sum b) (cb_rating_count b))) (lb_books db')"
    by (auto simp: list_all_iff rating_of_def true_rating_def Let_def filtered_sums)
  then show ?thesis
    using ok by (simp add: counts_for_def [abs_def] ratings_ok_def reviews_ok_def reviews_tbl.unique_keys_def)
qed

subsection \<open>Moderation cannot be exercised\<close>

definition none_approved :: "library_db \<Rightarrow> bool" where
  "none_approved db \<longleftrightarrow> list_all (\<lambda>r. rv_status r \<noteq> ReviewApproved) (lb_reviews db)"

lemma save_review_status:
  "none_approved db \<Longrightarrow> rv_status r \<noteq> ReviewApproved \<Longrightarrow> none_approved (save_review db r)"
  by (auto simp: none_approved_def save_review_def list_all_iff set_update_rows)

lemma save_book_status [simp]: "none_approved (save_book db b) = none_approved db"
  by (simp add: none_approved_def save_book_def)

lemma moderated_route_keeps:
  assumes "review_route avg st db db'" and "bs_reviews_require_moderation st" and "none_approved db"
    and "distinct (map bk_id (lb_books db))"
  shows "none_approved db'"
  using assms
proof (induction rule: review_route.induct)
  case (rr_create db review_id now i user p db' r)
  have "first_status st = ReviewPending" using rr_create.prems(1) by (simp add: first_status_def)
  with rr_create show ?case
    by (auto simp: create_review_route_def create_review_def Let_def insert_unique_Some none_approved_def
        intro!: save_review_status [unfolded none_approved_def] split: if_splits sum.splits option.splits)
next
  case (rr_update db i user u db' r)
  then obtain x b where "get_own_review db i user = Inr x" and d: "db' = fst (update_review avg st db x b u)"
    by (auto simp: update_review_route_def split: if_splits sum.splits) (metis fst_conv)
  then have "x \<in> set (lb_reviews db)" using get_own_review_found(1) get_review_found(1) by metis
  then have "rv_status x \<noteq> ReviewApproved" using rr_update.prems(2) by (auto simp: none_approved_def list_all_iff)
  then show ?case using rr_update.prems(2) unfolding d update_review_flat Let_def by (simp add: save_review_status)
next
  case (rr_delete db now i user db')
  then obtain x b where "get_own_review db i user = Inr x" and d: "db' = delete_review avg db now x b"
    by (auto simp: delete_review_route_def split: sum.splits)
  then have "x \<in> set (lb_reviews db)" using get_own_review_found(1) get_review_found(1) by metis
  then have "rv_status x \<noteq> ReviewApproved" using rr_delete.prems(2) by (auto simp: none_approved_def list_all_iff)
  then show ?case using rr_delete.prems(2) by (simp add: d delete_review_def save_review_status)
next
  case (rr_vote db i user h db' r)
  then obtain x where x: "get_review db i = Inr x" and v: "vote_review db x user h = Inr (db', r)"
    by (auto simp: vote_review_route_def split: sum.splits)
  then have "rv_status x \<noteq> ReviewApproved"
    using rr_vote.prems(2) get_review_found(1) [OF x] by (auto simp: none_approved_def list_all_iff)
  moreover have "none_approved (d\<lparr>lb_votes := vs\<rparr>) = none_approved d" for d vs by (simp add: none_approved_def)
  ultimately show ?case
    using v rr_vote.prems(2) by (auto simp: vote_review_def Let_def save_review_status split: option.splits if_splits)
next
  case (rr_moderate db i p actor db' r)
  then show ?case using no_moderation by metis
next
  case (rr_catalogue db db')
  then show ?case using catalogue_step_ratings by (simp add: none_approved_def)
qed

lemma list_for_book_rows:
  assumes "list_for_book db i cursor limit sort_by viewer include_all = Inr (rows, next_pos, has_more)"
  shows "set rows \<subseteq> {r \<in> set (lb_reviews db). review_visible viewer include_all r}"
proof -
  obtain col :: "Review \<Rightarrow> int" and pos next_pos' where "page_down col rv_id limit
      (filter (\<lambda>r. rv_book_id r = i \<and> review_visible viewer include_all r) (lb_reviews db)) pos = (rows, next_pos', has_more)"
    using assms unfolding list_for_book_def Let_def by (auto split: option.splits sum.splits prod.splits if_splits)
  from page_down_rows [OF this] show ?thesis by auto
qed

text \<open>
  C38: With moderation switched on, no review is ever published. The moderation route refuses every
  request (it calls the service with arguments that do not exist), so over any sequence of
  requests from a state without approved reviews none is ever approved, visible to another
  reader, or counted in a book's rating.
\<close>

theorem moderation_never_approves:
  assumes "(review_route avg st)\<^sup>*\<^sup>* db db'" and "bs_reviews_require_moderation st"
    and "list_all (\<lambda>r. rv_status r \<noteq> ReviewApproved) (lb_reviews db)" and "ratings_ok avg db"
  shows "moderate_review_route db' i p actor \<noteq> Inr x
    \<and> list_all (\<lambda>r. rv_status r \<noteq> ReviewApproved) (lb_reviews db')
    \<and> list_all (\<lambda>b. cb_rating_count b = 0 \<and> cb_rating_average b = 0) (lb_books db')
    \<and> (list_for_book db' book_id cursor limit sort_by (Some reader) False = Inr (rows, next_pos, has_more)
       \<longrightarrow> list_all (\<lambda>r. rv_user_id r = reader) rows)"
proof -
  have "none_approved db' \<and> ratings_ok avg db'"
    using assms(1)
  proof (induction rule: rtranclp_induct)
    case base
    then show ?case using assms(3,4) by (simp add: none_approved_def)
  next
    case (step db1 db2)
    then show ?case
      using moderated_route_keeps [OF step.hyps(2) assms(2)] review_step_ok [OF by_route [OF step.hyps(2)]]
      by (simp add: ratings_ok_def)
  qed
  then have none: "none_approved db'" and ok: "ratings_ok avg db'" by auto
  have "cb_rating_count b = 0 \<and> cb_rating_average b = 0" if "b \<in> set (lb_books db')" for b
  proof -
    have "filter (counts_for (bk_id b)) (lb_reviews db') = []"
      using none by (auto simp: none_approved_def list_all_iff filter_empty_conv counts_for_def)
    then show ?thesis using book_rating [OF ok that] by (simp add: rating_of_def true_rating_def filtered_sums)
  qed
  moreover have "list_all (\<lambda>r. rv_user_id r = reader) rows"
    if "list_for_book db' book_id cursor limit sort_by (Some reader) False = Inr (rows, next_pos, has_more)"
  proof -
    have "set rows \<subseteq> {r \<in> set (lb_reviews db'). review_visible (Some reader) False r}"
      by (rule list_for_book_rows [OF that])
    then show ?thesis using none by (auto simp: list_all_iff review_visible_def none_approved_def)
  qed
  ultimately show ?thesis using no_moderation none by (simp add: none_approved_def list_all_iff)
qed

text \<open>
  The helpful counter is clamped at zero but moves by two when a vote is changed, so one reader
  who first votes against a fresh review and then for it leaves it with two helpful votes.
\<close>

lemma one_voter_counts_twice:
  assumes "get_review db i = Inr r" and "rv_helpful_count r = 0" and "user \<noteq> rv_user_id r"
    and "\<forall>v \<in> set (lb_votes db). vt_review_id v \<noteq> i \<or> vt_user_id v \<noteq> user" and "distinct (map rv_id (lb_reviews db))"
  shows "\<exists>db1 r1 db2 r2. vote_review_route db i user False = Inr (db1, r1) \<and> vote_review_route db1 i user True = Inr (db2, r2)
    \<and> rv_helpful_count r2 = 2
    \<and> count_rows (\<lambda>v. vt_review_id v = i) (lb_votes db2) = count_rows (\<lambda>v. vt_review_id v = i) (lb_votes db) + 1"
proof -
  note r = get_review_found [OF assms(1)]
  let ?v = "\<lparr>vt_review_id = i, vt_user_id = user, vt_is_helpful = False\<rparr>"
  have none: "first_row (\<lambda>v. vt_review_id v = i \<and> vt_user_id v = user) (lb_votes db) = None"
    using assms(4) by (auto simp: first_row_None)
  let ?r = "r\<lparr>rv_helpful_count := max 0 (rv_helpful_count r + - 1)\<rparr>"
  have r0: "?r = r" using assms(2) by (cases r) simp
  have same: "save_review (db\<lparr>lb_votes := vs\<rparr>) r = db\<lparr>lb_votes := vs\<rparr>" for vs
  proof -
    have "update_rows (\<lambda>x. rv_id x = rv_id r) (\<lambda>_. r) (lb_reviews db) = lb_reviews db"
      using assms(5) r(1) by (intro update_rows_id) (auto simp: distinct_map dest: inj_onD)
    then show ?thesis by (simp add: save_review_def)
  qed
  let ?db1 = "db\<lparr>lb_votes := lb_votes db @ [?v]\<rparr>"
  have one: "vote_review_route db i user False = Inr (?db1, r)"
  proof -
    have "vote_review_route db i user False = Inr (save_review ?db1 ?r, ?r)"
      using assms(1,3) r none by (simp add: vote_review_route_def vote_review_def Let_def)
    then show ?thesis unfolding r0 same .
  qed
  have "get_review ?db1 i = Inr r" using assms(1) by (simp add: get_review_def)
  moreover have "first_row (\<lambda>v. vt_review_id v = i \<and> vt_user_id v = user) (lb_votes ?db1) = Some ?v"
    using none by (simp add: first_row_append)
  ultimately obtain db2 r2 where "vote_review_route ?db1 i user True = Inr (db2, r2)" "rv_helpful_count r2 = 2"
      "lb_votes db2 = update_rows (\<lambda>v. vt_review_id v = i \<and> vt_user_id v = user) (\<lambda>v. v\<lparr>vt_is_helpful := True\<rparr>) (lb_votes ?db1)"
    using assms r by (auto simp: vote_review_route_def vote_review_def Let_def save_review_def)
  moreover have "count_rows (\<lambda>v. vt_review_id v = i) (update_rows P (\<lambda>v. v\<lparr>vt_is_helpful := True\<rparr>) t)
      = count_rows (\<lambda>v. vt_review_id v = i) t" for P and t :: "ReviewVote list" by (induction t) auto
  then have "count_rows (\<lambda>v. vt_review_id v = i) (update_rows P (\<lambda>v. v\<lparr>vt_is_helpful := True\<rparr>) (lb_votes ?db1))
      = count_rows (\<lambda>v. vt_review_id v = i) (lb_votes db) + 1" for P by (simp add: count_rows_append)
  ultimately show ?thesis using one by metis
qed

subsection \<open>Witnesses\<close>

definition sample_avg :: "int \<Rightarrow> int \<Rightarrow> int" where
  "sample_avg s n = (1000 * s) div n"

definition moderated_settings :: books_settings where
  "moderated_settings = sample_books_settings\<lparr>bs_reviews_require_moderation := True\<rparr>"

definition sample_review_result :: "books_settings \<Rightarrow> (library_db \<times> Review) result" where
  "sample_review_result st = create_review_route sample_avg st sample_shop 31 5 7 9 \<lparr>vr_rating = 4, vr_title = None, vr_body = None\<rparr>"

definition sample_reviewed :: "books_settings \<Rightarrow> library_db" where
  "sample_reviewed st = (case sample_review_result st of Inr (db, r) \<Rightarrow> db | _ \<Rightarrow> sample_shop)"

lemma sample_shop_ratings: "ratings_ok sample_avg sample_shop"
  by (simp add: ratings_ok_def sample_shop_def empty_library_def reviews_ok_def rating_of_def true_rating_def
      sample_shop_book_def new_book_def)

lemma sample_review_run:
  assumes "(case sample_review_result st of Inl _ \<Rightarrow> False | Inr _ \<Rightarrow> True)"
  shows "review_route sample_avg st sample_shop (sample_reviewed st)"
proof -
  obtain db r where c: "sample_review_result st = Inr (db, r)" using assms by (auto split: sum.splits)
  then have "sample_reviewed st = db" by (simp add: sample_reviewed_def)
  with c show ?thesis
    by (auto simp: sample_review_result_def sample_shop_def empty_library_def intro!: rr_create)
qed

theorem ratings_match_reviews_witness:
  "map cb_rating_sum (lb_books (sample_reviewed sample_books_settings)) = [4]
   \<and> distinct (map (\<lambda>r. (rv_book_id r, rv_user_id r)) (lb_reviews (sample_reviewed sample_books_settings)))"
proof -
  have "case sample_review_result sample_books_settings of Inl _ \<Rightarrow> False | Inr _ \<Rightarrow> True" by code_simp
  from by_route [OF sample_review_run [OF this]]
  have "(review_step sample_avg sample_books_settings)\<^sup>*\<^sup>* sample_shop (sample_reviewed sample_books_settings)" ..
  from ratings_match_reviews [OF this sample_shop_ratings]
  have "distinct (map (\<lambda>r. (rv_book_id r, rv_user_id r)) (lb_reviews (sample_reviewed sample_books_settings)))" by blast
  moreover have "map cb_rating_sum (lb_books (sample_reviewed sample_books_settings)) = [4]" by code_simp
  ultimately show ?thesis by simp
qed

theorem moderation_never_approves_witness:
  "length (lb_reviews (sample_reviewed moderated_settings)) = 1
   \<and> moderate_review_route (sample_reviewed moderated_settings) 31 \<lparr>vm_status = ReviewApproved, vm_moderation_note = None\<rparr> 2
     \<noteq> Inr (sample_shop, undefined)
   \<and> list_all (\<lambda>r. rv_status r \<noteq> ReviewApproved) (lb_reviews (sample_reviewed moderated_settings))"
proof -
  have "case sample_review_result moderated_settings of Inl _ \<Rightarrow> False | Inr _ \<Rightarrow> True" by code_simp
  from sample_review_run [OF this]
  have run: "(review_route sample_avg moderated_settings)\<^sup>*\<^sup>* sample_shop (sample_reviewed moderated_settings)" ..
  have "bs_reviews_require_moderation moderated_settings" "list_all (\<lambda>r. rv_status r \<noteq> ReviewApproved) (lb_reviews sample_shop)"
    by (simp_all add: moderated_settings_def sample_shop_def empty_library_def)
  from moderation_never_approves [OF run this sample_shop_ratings]
  have "moderate_review_route (sample_reviewed moderated_settings) 31 \<lparr>vm_status = ReviewApproved, vm_moderation_note = None\<rparr> 2
     \<noteq> Inr (sample_shop, undefined)
   \<and> list_all (\<lambda>r. rv_status r \<noteq> ReviewApproved) (lb_reviews (sample_reviewed moderated_settings))" by blast
  moreover have "length (lb_reviews (sample_reviewed moderated_settings)) = 1" by code_simp
  ultimately show ?thesis by simp
qed

end
