(* ===== verification/Books_Shelf.thy ===== *)
theory Books_Shelf
  imports Books_Catalogue
begin

section \<open>The reader's shelf\<close>

text \<open>
  Bookmarks and reading progress (\<open>apps/books/services/reading.py\<close>), wishlist and collections
  (\<open>services/lists.py\<close>) and their routes (\<open>routers/engagement.py\<close>). Every route takes the reader
  from the access token. A cursor of a listing is absent, malformed (\<open>Some None\<close>) or a position.

  The services add a row to the session and then open a savepoint, which flushes the row before
  the savepoint exists: when a constraint refuses it, the transaction is gone and the read that
  is meant to find the competing row raises. A request that raises is rolled back.
\<close>

abbreviation session_lost :: exn where
  "session_lost \<equiv> PyExn ''PendingRollbackError''"

definition known_book :: "library_db \<Rightarrow> uuid \<Rightarrow> bool" where
  "known_book db i \<longleftrightarrow> i \<in> bk_id ` set (lb_books db)"

definition time_page :: "('r \<Rightarrow> timestamp) \<Rightarrow> ('r \<Rightarrow> uuid) \<Rightarrow> nat \<Rightarrow> 'r list \<Rightarrow> (timestamp \<times> uuid) option option
    \<Rightarrow> ('r list \<times> (timestamp \<times> uuid) option \<times> bool) result" where
  "time_page key ident limit rows cursor =
     (case cursor of
        Some None \<Rightarrow> Inl (raise_default BadRequestError)
      | Some (Some c) \<Rightarrow> Inr (page_down key ident limit rows (Some c))
      | None \<Rightarrow> Inr (page_down key ident limit rows None))"

subsection \<open>Bookmarks\<close>

record BookmarkCreate =
  mc_position :: string
  mc_page_number :: "int option"
  mc_note :: "string option"
  mc_colour :: "string option"

record BookmarkUpdate =
  mu_position :: "string patch"
  mu_page_number :: "int patch"
  mu_note :: "string patch"
  mu_colour :: "string patch"

definition create_bookmark :: "library_db \<Rightarrow> uuid \<Rightarrow> timestamp \<Rightarrow> uuid \<Rightarrow> uuid \<Rightarrow> BookmarkCreate \<Rightarrow> (library_db \<times> Bookmark) result" where
  "create_bookmark db i now user_id book_id p =
     (if \<not> known_book db book_id then Inl (PyExn ''IntegrityError'')
      else
        let b = \<lparr>bm_id = i, bm_user_id = user_id, bm_book_id = book_id, bm_position = mc_position p,
                 bm_page_number = mc_page_number p, bm_note = mc_note p, bm_colour = mc_colour p, bm_created_at = now\<rparr>
        in (case insert_unique (\<lambda>x y. bm_id x = bm_id y) b (lb_bookmarks db) of
              None \<Rightarrow> Inl (PyExn ''IntegrityError'')
            | Some t \<Rightarrow> Inr (db\<lparr>lb_bookmarks := t\<rparr>, b)))"

definition get_own_bookmark :: "library_db \<Rightarrow> uuid \<Rightarrow> uuid \<Rightarrow> Bookmark result" where
  "get_own_bookmark db i user_id =
     (case first_row (\<lambda>b. bm_id b = i) (lb_bookmarks db) of
        None \<Rightarrow> Inl (raise_default NotFoundError)
      | Some b \<Rightarrow> if bm_user_id b \<noteq> user_id then Inl (raise_default ForbiddenError) else Inr b)"

definition list_bookmarks ::
  "library_db \<Rightarrow> uuid \<Rightarrow> uuid option \<Rightarrow> (timestamp \<times> uuid) option option \<Rightarrow> nat
     \<Rightarrow> (Bookmark list \<times> (timestamp \<times> uuid) option \<times> bool) result" where
  "list_bookmarks db user_id book_id cursor limit =
     time_page bm_created_at bm_id limit
       (filter (\<lambda>b. bm_user_id b = user_id \<and> (book_id = None \<or> book_id = Some (bm_book_id b))) (lb_bookmarks db)) cursor"

definition update_bookmark :: "library_db \<Rightarrow> Bookmark \<Rightarrow> BookmarkUpdate \<Rightarrow> (library_db \<times> Bookmark) result" where
  "update_bookmark db b u =
     (if mu_position u = Some None then Inl (PyExn ''IntegrityError'')
      else
        let b' = b\<lparr>bm_position := patched (mu_position u) (bm_position b), bm_page_number := patched_opt (mu_page_number u) (bm_page_number b),
                   bm_note := patched_opt (mu_note u) (bm_note b), bm_colour := patched_opt (mu_colour u) (bm_colour b)\<rparr>
        in Inr (db\<lparr>lb_bookmarks := update_rows (\<lambda>x. bm_id x = bm_id b) (\<lambda>_. b') (lb_bookmarks db)\<rparr>, b'))"

definition delete_bookmark :: "library_db \<Rightarrow> Bookmark \<Rightarrow> library_db" where
  "delete_bookmark db b = db\<lparr>lb_bookmarks := delete_rows (\<lambda>x. bm_id x = bm_id b) (lb_bookmarks db)\<rparr>"

text \<open>The route reads the book from a field the request model does not have.\<close>

definition create_bookmark_route :: "library_db \<Rightarrow> BookmarkCreate \<Rightarrow> (library_db \<times> Bookmark) result" where
  "create_bookmark_route db p = Inl (PyExn ''AttributeError'')"

definition update_bookmark_route :: "library_db \<Rightarrow> uuid \<Rightarrow> uuid \<Rightarrow> BookmarkUpdate \<Rightarrow> library_db result" where
  "update_bookmark_route db i user_id u =
     (case get_own_bookmark db i user_id of Inl e \<Rightarrow> Inl e | Inr b \<Rightarrow> map_sum id fst (update_bookmark db b u))"

definition delete_bookmark_route :: "library_db \<Rightarrow> uuid \<Rightarrow> uuid \<Rightarrow> library_db result" where
  "delete_bookmark_route db i user_id =
     (case get_own_bookmark db i user_id of Inl e \<Rightarrow> Inl e | Inr b \<Rightarrow> Inr (delete_bookmark db b))"

subsection \<open>Progress\<close>

definition FINISHED_PERCENT :: rat where
  "FINISHED_PERCENT = 98"

record ProgressUpdate =
  pg_position :: string
  pg_percent :: rat
  pg_page_number :: "int option"
  pg_session_seconds :: int

definition valid_progress_update :: "ProgressUpdate \<Rightarrow> bool" where
  "valid_progress_update p \<longleftrightarrow> 1 \<le> length (pg_position p) \<and> length (pg_position p) \<le> 255
     \<and> 0 \<le> pg_percent p \<and> pg_percent p \<le> 100
     \<and> (case pg_page_number p of None \<Rightarrow> True | Some n \<Rightarrow> 0 \<le> n \<and> n \<le> 1000000)
     \<and> 0 \<le> pg_session_seconds p \<and> pg_session_seconds p \<le> 86400"

definition progress_of :: "uuid \<Rightarrow> uuid \<Rightarrow> ReadingProgress \<Rightarrow> bool" where
  "progress_of user_id book_id r \<longleftrightarrow> rp_user_id r = user_id \<and> rp_book_id r = book_id"

definition get_progress :: "library_db \<Rightarrow> uuid \<Rightarrow> uuid \<Rightarrow> ReadingProgress option result" where
  "get_progress db user_id book_id = one_or_none (progress_of user_id book_id) (lb_progress db)"

definition mark_finished :: "timestamp \<Rightarrow> ReadingProgress \<Rightarrow> ReadingProgress" where
  "mark_finished now r =
     (if rp_percent r \<ge> FINISHED_PERCENT \<and> \<not> rp_is_finished r then r\<lparr>rp_is_finished := True, rp_finished_at := Some now\<rparr> else r)"

definition new_progress :: "uuid \<Rightarrow> timestamp \<Rightarrow> uuid \<Rightarrow> uuid \<Rightarrow> ProgressUpdate \<Rightarrow> ReadingProgress" where
  "new_progress i now user_id book_id p =
     \<lparr>rp_id = i, rp_user_id = user_id, rp_book_id = book_id, rp_position = Some (pg_position p), rp_page_number = pg_page_number p,
      rp_percent = pg_percent p, rp_total_reading_seconds = pg_session_seconds p, rp_is_finished = False, rp_finished_at = None,
      rp_last_read_at = now\<rparr>"

definition advance_progress :: "timestamp \<Rightarrow> ProgressUpdate \<Rightarrow> ReadingProgress \<Rightarrow> ReadingProgress" where
  "advance_progress now p r =
     mark_finished now (r\<lparr>rp_position := Some (pg_position p), rp_page_number := pg_page_number p,
       rp_percent := max (rp_percent r) (pg_percent p),
       rp_total_reading_seconds := rp_total_reading_seconds r + pg_session_seconds p, rp_last_read_at := now\<rparr>)"

definition progress_clash :: "ReadingProgress \<Rightarrow> ReadingProgress \<Rightarrow> bool" where
  "progress_clash x y \<longleftrightarrow> rp_user_id x = rp_user_id y \<and> rp_book_id x = rp_book_id y"

definition sync_progress :: "library_db \<Rightarrow> uuid \<Rightarrow> timestamp \<Rightarrow> uuid \<Rightarrow> uuid \<Rightarrow> ProgressUpdate \<Rightarrow> (library_db \<times> ReadingProgress) result" where
  "sync_progress db i now user_id book_id p =
     (case get_progress db user_id book_id of
        Inl e \<Rightarrow> Inl e
      | Inr None \<Rightarrow>
          let r = mark_finished now (new_progress i now user_id book_id p)
          in if \<not> known_book db book_id then Inl session_lost
             else (case insert_unique progress_clash r (lb_progress db) of
                     None \<Rightarrow> Inl session_lost
                   | Some t \<Rightarrow> Inr (db\<lparr>lb_progress := t\<rparr>, r))
      | Inr (Some r) \<Rightarrow>
          let r' = advance_progress now p r
          in Inr (db\<lparr>lb_progress := update_rows (progress_of user_id book_id) (\<lambda>_. r') (lb_progress db)\<rparr>, r'))"

definition list_progress ::
  "library_db \<Rightarrow> uuid \<Rightarrow> (timestamp \<times> uuid) option option \<Rightarrow> nat \<Rightarrow> (ReadingProgress list \<times> (timestamp \<times> uuid) option \<times> bool) result" where
  "list_progress db user_id cursor limit =
     time_page rp_last_read_at rp_id limit (filter (\<lambda>r. rp_user_id r = user_id) (lb_progress db)) cursor"

definition sync_progress_route ::
  "books_settings \<Rightarrow> library_db \<Rightarrow> uuid \<Rightarrow> timestamp \<Rightarrow> uuid \<Rightarrow> uuid \<Rightarrow> ProgressUpdate \<Rightarrow> library_db result" where
  "sync_progress_route st db i now user_id book_id p =
     (if \<not> valid_progress_update p then Inl RequestValidationExn
      else case get_book_by_id db book_id False of
        Inl e \<Rightarrow> Inl e
      | Inr book \<Rightarrow>
          (case require_read (access_view db) (bs_free_books_readable st) now user_id (book_row.truncate book) of
             Inl e \<Rightarrow> Inl e
           | Inr _ \<Rightarrow> map_sum id fst (sync_progress db i now user_id book_id p)))"

subsection \<open>Wishlist\<close>

record WishlistAdd =
  wa_book_id :: uuid
  wa_note :: "string option"

definition wish_of :: "uuid \<Rightarrow> uuid \<Rightarrow> WishlistItem \<Rightarrow> bool" where
  "wish_of user_id book_id w \<longleftrightarrow> wl_user_id w = user_id \<and> wl_book_id w = book_id"

definition add_to_wishlist :: "library_db \<Rightarrow> timestamp \<Rightarrow> uuid \<Rightarrow> WishlistAdd \<Rightarrow> (library_db \<times> WishlistItem) result" where
  "add_to_wishlist db now user_id p =
     (case first_row (wish_of user_id (wa_book_id p)) (lb_wishlist db) of
        Some w \<Rightarrow>
          let w' = w\<lparr>wl_note := (if truthy (wa_note p) then wa_note p else wl_note w)\<rparr>
          in Inr (db\<lparr>lb_wishlist := update_rows (wish_of user_id (wa_book_id p)) (\<lambda>_. w') (lb_wishlist db)\<rparr>, w')
      | None \<Rightarrow>
          if \<not> known_book db (wa_book_id p) then Inl session_lost
          else let w = \<lparr>wl_user_id = user_id, wl_book_id = wa_book_id p, wl_note = wa_note p, wl_created_at = now\<rparr>
               in Inr (db\<lparr>lb_wishlist := lb_wishlist db @ [w]\<rparr>, w))"

definition list_wishlist ::
  "library_db \<Rightarrow> uuid \<Rightarrow> (timestamp \<times> uuid) option option \<Rightarrow> nat
     \<Rightarrow> ((WishlistItem \<times> catalogue_book) list \<times> (timestamp \<times> uuid) option \<times> bool) result" where
  "list_wishlist db user_id cursor limit =
     time_page (\<lambda>(w, _). wl_created_at w) (\<lambda>(w, _). wl_book_id w) limit
       (List.map_filter (\<lambda>w. map_option (Pair w) (first_row (\<lambda>b. bk_id b = wl_book_id w \<and> bk_deleted_at b = None) (lb_books db)))
          (filter (\<lambda>w. wl_user_id w = user_id) (lb_wishlist db))) cursor"

definition remove_from_wishlist :: "library_db \<Rightarrow> uuid \<Rightarrow> uuid \<Rightarrow> library_db result" where
  "remove_from_wishlist db user_id book_id =
     (case first_row (wish_of user_id book_id) (lb_wishlist db) of
        None \<Rightarrow> Inl (raise_default NotFoundError)
      | Some _ \<Rightarrow> Inr (db\<lparr>lb_wishlist := delete_rows (wish_of user_id book_id) (lb_wishlist db)\<rparr>))"

subsection \<open>Collections\<close>

record CollectionCreate =
  cc_name :: string
  cc_slug :: string
  cc_description :: "string option"
  cc_is_public :: bool
  cc_cover_key :: "string option"

record CollectionUpdate =
  cu_name :: "string patch"
  cu_slug :: "string patch"
  cu_description :: "string patch"
  cu_is_public :: "bool patch"
  cu_cover_key :: "string patch"

record CollectionItemAdd =
  ca_book_id :: uuid
  ca_display_order :: int
  ca_note :: "string option"

definition collection_clash :: "Collection \<Rightarrow> Collection \<Rightarrow> bool" where
  "collection_clash x y \<longleftrightarrow> cl_id x = cl_id y \<or> cl_user_id x = cl_user_id y \<and> cl_slug x = cl_slug y"

definition create_collection :: "library_db \<Rightarrow> uuid \<Rightarrow> timestamp \<Rightarrow> uuid \<Rightarrow> CollectionCreate \<Rightarrow> (library_db \<times> Collection) result" where
  "create_collection db i now user_id p =
     (let c = \<lparr>cl_id = i, cl_user_id = user_id, cl_name = cc_name p, cl_slug = cc_slug p, cl_description = cc_description p,
               cl_is_public = cc_is_public p, cl_cover_key = cc_cover_key p, cl_item_count = 0, cl_deleted_at = None,
               cl_created_at = now\<rparr>
      in case insert_unique collection_clash c (lb_collections db) of
           None \<Rightarrow> Inl (raise_default ConflictError)
         | Some t \<Rightarrow> Inr (db\<lparr>lb_collections := t\<rparr>, c))"

definition get_collection :: "library_db \<Rightarrow> uuid \<Rightarrow> uuid option \<Rightarrow> Collection result" where
  "get_collection db i viewer_id =
     (case first_row (\<lambda>c. cl_id c = i) (lb_collections db) of
        None \<Rightarrow> Inl (raise_default NotFoundError)
      | Some c \<Rightarrow>
          if cl_deleted_at c \<noteq> None \<or> (\<not> cl_is_public c \<and> Some (cl_user_id c) \<noteq> viewer_id)
          then Inl (raise_default NotFoundError) else Inr c)"

definition get_own_collection :: "library_db \<Rightarrow> uuid \<Rightarrow> uuid \<Rightarrow> Collection result" where
  "get_own_collection db i user_id =
     (case first_row (\<lambda>c. cl_id c = i) (lb_collections db) of
        None \<Rightarrow> Inl (raise_default NotFoundError)
      | Some c \<Rightarrow>
          if cl_deleted_at c \<noteq> None then Inl (raise_default NotFoundError)
          else if cl_user_id c \<noteq> user_id then Inl (raise_default ForbiddenError) else Inr c)"

definition list_collections ::
  "library_db \<Rightarrow> uuid option \<Rightarrow> bool \<Rightarrow> (timestamp \<times> uuid) option option \<Rightarrow> nat
     \<Rightarrow> (Collection list \<times> (timestamp \<times> uuid) option \<times> bool) result" where
  "list_collections db user_id public_only cursor limit =
     time_page cl_created_at cl_id limit
       (filter (\<lambda>c. cl_deleted_at c = None \<and> (public_only \<longrightarrow> cl_is_public c) \<and> (user_id = None \<or> user_id = Some (cl_user_id c)))
          (lb_collections db)) cursor"

definition save_collection :: "library_db \<Rightarrow> Collection \<Rightarrow> library_db" where
  "save_collection db c = db\<lparr>lb_collections := update_rows (\<lambda>x. cl_id x = cl_id c) (\<lambda>_. c) (lb_collections db)\<rparr>"

definition patch_collection :: "CollectionUpdate \<Rightarrow> Collection \<Rightarrow> Collection" where
  "patch_collection u c = c\<lparr>cl_name := patched (cu_name u) (cl_name c), cl_slug := patched (cu_slug u) (cl_slug c),
     cl_description := patched_opt (cu_description u) (cl_description c), cl_is_public := patched (cu_is_public u) (cl_is_public c),
     cl_cover_key := patched_opt (cu_cover_key u) (cl_cover_key c)\<rparr>"

definition update_collection :: "library_db \<Rightarrow> Collection \<Rightarrow> CollectionUpdate \<Rightarrow> (library_db \<times> Collection) result" where
  "update_collection db c u =
     (let c' = patch_collection u c; db' = save_collection db c'
      in if cu_name u = Some None \<or> cu_slug u = Some None \<or> cu_is_public u = Some None
            \<or> \<not> distinct (map (\<lambda>x. (cl_user_id x, cl_slug x)) (lb_collections db'))
         then Inl (raise_default ConflictError) else Inr (db', c'))"

definition delete_collection :: "library_db \<Rightarrow> timestamp \<Rightarrow> Collection \<Rightarrow> library_db" where
  "delete_collection db now c = save_collection db (c\<lparr>cl_deleted_at := Some now\<rparr>)"

definition item_of :: "uuid \<Rightarrow> uuid \<Rightarrow> CollectionItem \<Rightarrow> bool" where
  "item_of collection_id book_id x \<longleftrightarrow> ci_collection_id x = collection_id \<and> ci_book_id x = book_id"

definition refresh_count :: "library_db \<Rightarrow> Collection \<Rightarrow> library_db" where
  "refresh_count db c = save_collection db (c\<lparr>cl_item_count := count_rows (\<lambda>x. ci_collection_id x = cl_id c) (lb_items db)\<rparr>)"

definition add_collection_item :: "library_db \<Rightarrow> Collection \<Rightarrow> CollectionItemAdd \<Rightarrow> (library_db \<times> CollectionItem) result" where
  "add_collection_item db c p =
     (case first_row (item_of (cl_id c) (ca_book_id p)) (lb_items db) of
        Some x \<Rightarrow>
          let x' = x\<lparr>ci_display_order := ca_display_order p, ci_note := ca_note p\<rparr>
          in Inr (db\<lparr>lb_items := update_rows (item_of (cl_id c) (ca_book_id p)) (\<lambda>_. x') (lb_items db)\<rparr>, x')
      | None \<Rightarrow>
          if \<not> known_book db (ca_book_id p) then Inl session_lost
          else let x = \<lparr>ci_collection_id = cl_id c, ci_book_id = ca_book_id p, ci_display_order = ca_display_order p, ci_note = ca_note p\<rparr>
               in Inr (refresh_count (db\<lparr>lb_items := lb_items db @ [x]\<rparr>) c, x))"

definition remove_collection_item :: "library_db \<Rightarrow> Collection \<Rightarrow> uuid \<Rightarrow> library_db result" where
  "remove_collection_item db c book_id =
     (case first_row (item_of (cl_id c) book_id) (lb_items db) of
        None \<Rightarrow> Inl (raise_default NotFoundError)
      | Some _ \<Rightarrow> Inr (refresh_count (db\<lparr>lb_items := delete_rows (item_of (cl_id c) book_id) (lb_items db)\<rparr>) c))"

definition collection_books :: "library_db \<Rightarrow> Collection \<Rightarrow> catalogue_book list" where
  "collection_books db c =
     map snd (sort_key (\<lambda>(x, b). (ci_display_order x, cb_title b))
       (List.map_filter (\<lambda>x. map_option (Pair x) (first_row (\<lambda>b. bk_id b = ci_book_id x \<and> bk_deleted_at b = None) (lb_books db)))
          (filter (\<lambda>x. ci_collection_id x = cl_id c) (lb_items db))))"

subsection \<open>Routes of the lists\<close>

definition list_collections_route ::
  "library_db \<Rightarrow> uuid option \<Rightarrow> bool \<Rightarrow> (timestamp \<times> uuid) option option \<Rightarrow> nat \<Rightarrow> (Collection list \<times> nat) result" where
  "list_collections_route db user public_only cursor limit =
     (let owner = (if public_only then None else user)
      in map_sum id (\<lambda>(rows, _). (rows, length rows)) (list_collections db owner (public_only \<or> owner = None) cursor limit))"

text \<open>
  The response model reads the relationship \<open>items\<close>, which may not be loaded lazily, and its
  validation fails: whatever
  collection a reader may see, its page is never shown.
\<close>

definition get_collection_route :: "library_db \<Rightarrow> uuid \<Rightarrow> uuid option \<Rightarrow> (Collection \<times> catalogue_book list) result" where
  "get_collection_route db i viewer_id =
     (case get_collection db i viewer_id of Inl e \<Rightarrow> Inl e | Inr c \<Rightarrow> Inl (PyExn ''ValidationError''))"

definition update_collection_route :: "library_db \<Rightarrow> uuid \<Rightarrow> uuid \<Rightarrow> CollectionUpdate \<Rightarrow> library_db result" where
  "update_collection_route db i user_id u =
     (case get_own_collection db i user_id of Inl e \<Rightarrow> Inl e | Inr c \<Rightarrow> map_sum id fst (update_collection db c u))"

definition delete_collection_route :: "library_db \<Rightarrow> timestamp \<Rightarrow> uuid \<Rightarrow> uuid \<Rightarrow> library_db result" where
  "delete_collection_route db now i user_id =
     (case get_own_collection db i user_id of Inl e \<Rightarrow> Inl e | Inr c \<Rightarrow> Inr (delete_collection db now c))"

definition add_collection_item_route :: "library_db \<Rightarrow> uuid \<Rightarrow> uuid \<Rightarrow> CollectionItemAdd \<Rightarrow> library_db result" where
  "add_collection_item_route db i user_id p =
     (case get_own_collection db i user_id of Inl e \<Rightarrow> Inl e | Inr c \<Rightarrow> map_sum id fst (add_collection_item db c p))"

definition remove_collection_item_route :: "library_db \<Rightarrow> uuid \<Rightarrow> uuid \<Rightarrow> uuid \<Rightarrow> library_db result" where
  "remove_collection_item_route db i user_id book_id =
     (case get_own_collection db i user_id of Inl e \<Rightarrow> Inl e | Inr c \<Rightarrow> remove_collection_item db c book_id)"

subsection \<open>Lemmas: progress is the log of what was synced\<close>

text \<open>Requests to sync, served one after the other; a refused request changes nothing. The log holds the others.\<close>

record sync_request =
  sq_id :: uuid
  sq_now :: timestamp
  sq_user :: uuid
  sq_book :: uuid
  sq_update :: ProgressUpdate

fun run_syncs :: "books_settings \<Rightarrow> library_db \<Rightarrow> sync_request list \<Rightarrow> library_db \<times> sync_request list" where
  "run_syncs st db [] = (db, [])"
| "run_syncs st db (q # qs) =
     (case sync_progress_route st db (sq_id q) (sq_now q) (sq_user q) (sq_book q) (sq_update q) of
        Inl _ \<Rightarrow> run_syncs st db qs
      | Inr db' \<Rightarrow> (case run_syncs st db' qs of (db2, served) \<Rightarrow> (db2, q # served)))"

definition done_reading :: "sync_request \<Rightarrow> bool" where
  "done_reading q \<longleftrightarrow> FINISHED_PERCENT \<le> pg_percent (sq_update q)"

definition tells :: "sync_request list \<Rightarrow> ReadingProgress list \<Rightarrow> bool" where
  "tells l rows \<longleftrightarrow>
     (if l = [] then rows = []
      else \<exists>r. rows = [r] \<and> rp_percent r = Max ((\<lambda>q. pg_percent (sq_update q)) ` set l)
        \<and> rp_total_reading_seconds r = sum_list (map (\<lambda>q. pg_session_seconds (sq_update q)) l)
        \<and> rp_position r = Some (pg_position (sq_update (last l))) \<and> rp_last_read_at r = sq_now (last l)
        \<and> (rp_is_finished r \<longleftrightarrow> list_ex done_reading l) \<and> rp_finished_at r = map_option sq_now (find done_reading l))"

definition next_row :: "sync_request \<Rightarrow> ReadingProgress list \<Rightarrow> ReadingProgress list" where
  "next_row q rows =
     (case rows of [] \<Rightarrow> [mark_finished (sq_now q) (new_progress (sq_id q) (sq_now q) (sq_user q) (sq_book q) (sq_update q))]
      | r # _ \<Rightarrow> [advance_progress (sq_now q) (sq_update q) r])"

lemma find_append: "find P (xs @ ys) = (case find P xs of None \<Rightarrow> find P ys | Some x \<Rightarrow> Some x)"
  by (induction xs) auto

lemma find_done: "find P l = None \<longleftrightarrow> \<not> list_ex P l"
  by (induction l) auto

lemma tells_next: "tells l rows \<Longrightarrow> tells (l @ [q]) (next_row q rows)"
proof (cases "l = []")
  case True
  then show "tells l rows \<Longrightarrow> ?thesis"
    by (auto simp: tells_def next_row_def mark_finished_def new_progress_def done_reading_def)
next
  case False
  assume "tells l rows"
  then obtain r where r: "rows = [r]" "rp_percent r = Max ((\<lambda>q. pg_percent (sq_update q)) ` set l)"
      "rp_total_reading_seconds r = sum_list (map (\<lambda>q. pg_session_seconds (sq_update q)) l)"
      "rp_is_finished r \<longleftrightarrow> list_ex done_reading l" "rp_finished_at r = map_option sq_now (find done_reading l)"
    using False by (auto simp: tells_def)
  have m: "max (rp_percent r) (pg_percent (sq_update q)) = Max ((\<lambda>q. pg_percent (sq_update q)) ` set (l @ [q]))"
    unfolding r(2) using False by (simp add: max.commute)
  have fin: "FINISHED_PERCENT \<le> rp_percent r \<longleftrightarrow> list_ex done_reading l"
    unfolding r(2) using False by (auto simp: Max_ge_iff done_reading_def list_ex_iff)
  have "tells (l @ [q]) [advance_progress (sq_now q) (sq_update q) r]"
    unfolding tells_def using r(3-5) m fin find_done [of done_reading l]
    by (cases "find done_reading l") (auto simp: advance_progress_def mark_finished_def done_reading_def find_append le_max_iff_disj)
  then show ?thesis by (simp add: next_row_def r(1))
qed

lemma filter_update_singleton:
  "filter P t = [r] \<Longrightarrow> P r' \<Longrightarrow> filter P (update_rows P (\<lambda>_. r') t) = [r']"
  by (induction t) (auto simp: update_rows_def filter_empty_conv split: if_splits)

lemma filter_update_other:
  "(\<And>x. x \<in> set t \<Longrightarrow> P x \<Longrightarrow> \<not> Q x \<and> \<not> Q (f x)) \<Longrightarrow> filter Q (update_rows P f t) = filter Q t"
  by (induction t) (auto simp: update_rows_def)

lemma sync_progress_rows:
  assumes "sync_progress db i now u b p = Inr (db', r)" and "q = \<lparr>sq_id = i, sq_now = now, sq_user = u, sq_book = b, sq_update = p\<rparr>"
  shows "filter (progress_of u b) (lb_progress db') = next_row q (filter (progress_of u b) (lb_progress db))"
    and "(u', b') \<noteq> (u, b) \<Longrightarrow> filter (progress_of u' b') (lb_progress db') = filter (progress_of u' b') (lb_progress db)"
proof -
  have keep: "rp_user_id (mark_finished now x) = rp_user_id x" "rp_book_id (mark_finished now x) = rp_book_id x" for x
    by (simp_all add: mark_finished_def)
  obtain found where found: "get_progress db u b = Inr found" using assms(1) by (auto simp: sync_progress_def split: sum.splits)
  have "filter (progress_of u b) (lb_progress db') = next_row q (filter (progress_of u b) (lb_progress db))
    \<and> ((u', b') \<noteq> (u, b) \<longrightarrow> filter (progress_of u' b') (lb_progress db') = filter (progress_of u' b') (lb_progress db))"
  proof (cases found)
    case None
    then have none: "filter (progress_of u b) (lb_progress db) = []"
      using found by (auto simp: get_progress_def one_or_none_def split: list.splits)
    have "lb_progress db' = lb_progress db @ [mark_finished now (new_progress i now u b p)]"
      using assms(1) found None by (auto simp: sync_progress_def Let_def insert_unique_Some split: if_splits option.splits)
    then show ?thesis using none by (auto simp: assms(2) next_row_def progress_of_def keep new_progress_def)
  next
    case (Some r)
    then have one: "filter (progress_of u b) (lb_progress db) = [r]"
      using found by (auto simp: get_progress_def intro: one_or_none_Some)
    then have "progress_of u b r" by (metis filter_eq_ConsD)
    then have adv: "progress_of u b (advance_progress now p r)" by (simp add: progress_of_def advance_progress_def keep)
    have t: "lb_progress db' = update_rows (progress_of u b) (\<lambda>_. advance_progress now p r) (lb_progress db)"
      using assms(1) found Some by (auto simp: sync_progress_def Let_def)
    show ?thesis
      unfolding t filter_update_singleton [of "progress_of u b", OF one adv] using adv
      by (auto simp: one assms(2) next_row_def progress_of_def intro!: filter_update_other)
  qed
  then show "filter (progress_of u b) (lb_progress db') = next_row q (filter (progress_of u b) (lb_progress db))"
    "(u', b') \<noteq> (u, b) \<Longrightarrow> filter (progress_of u' b') (lb_progress db') = filter (progress_of u' b') (lb_progress db)" by auto
qed

definition synced_by :: "uuid \<Rightarrow> uuid \<Rightarrow> sync_request \<Rightarrow> bool" where
  "synced_by u b q \<longleftrightarrow> sq_user q = u \<and> sq_book q = b"

lemma run_syncs_tell:
  assumes "run_syncs st db qs = (db', served)" and "tells (filter (synced_by u b) past) (filter (progress_of u b) (lb_progress db))"
  shows "tells (filter (synced_by u b) (past @ served)) (filter (progress_of u b) (lb_progress db'))"
  using assms
proof (induction qs arbitrary: db past served)
  case (Cons q qs)
  show ?case
  proof (cases "sync_progress_route st db (sq_id q) (sq_now q) (sq_user q) (sq_book q) (sq_update q)")
    case (Inr db1)
    then obtain r where s: "sync_progress db (sq_id q) (sq_now q) (sq_user q) (sq_book q) (sq_update q) = Inr (db1, r)"
      by (auto simp: sync_progress_route_def map_sum_Inr split: if_splits sum.splits)
    obtain served1 where served: "run_syncs st db1 qs = (db', served1)" "served = q # served1"
      using Cons.prems(1) Inr by (auto split: prod.splits)
    have key: "synced_by u b q \<longleftrightarrow> (u, b) = (sq_user q, sq_book q)" by (auto simp: synced_by_def)
    have q: "\<lparr>sq_id = sq_id q, sq_now = sq_now q, sq_user = sq_user q, sq_book = sq_book q, sq_update = sq_update q\<rparr> = q" by simp
    note rows = sync_progress_rows [OF s refl, unfolded q]
    have "tells (filter (synced_by u b) (past @ [q])) (filter (progress_of u b) (lb_progress db1))"
    proof (cases "synced_by u b q")
      case True
      then show ?thesis using tells_next [OF Cons.prems(2), of q] rows(1) key by simp
    next
      case False
      then show ?thesis using Cons.prems(2) rows(2) [of u b] key by auto
    qed
    from Cons.IH [OF served(1) this] show ?thesis by (simp add: served(2))
  qed (use Cons in auto)
qed simp

text \<open>
  C29: Progress is the log of what was synced. However many readers sync whichever books in
  whatever order, each reader has one row for a book that was synced and none otherwise; its
  percentage is the furthest ever reported, its reading time the sum of all sessions, its
  position the last one reported, and it is finished exactly when some report reached the
  threshold, at the time of the first such report.
\<close>

theorem progress_is_log:
  assumes "run_syncs st db reqs = (db', served)" and "lb_progress db = []"
    and "l = filter (synced_by u b) served"
  shows "if l = [] then filter (progress_of u b) (lb_progress db') = []
     else \<exists>r. filter (progress_of u b) (lb_progress db') = [r] \<and> rp_percent r = Max ((\<lambda>q. pg_percent (sq_update q)) ` set l)
        \<and> rp_total_reading_seconds r = sum_list (map (\<lambda>q. pg_session_seconds (sq_update q)) l)
        \<and> rp_position r = Some (pg_position (sq_update (last l))) \<and> rp_last_read_at r = sq_now (last l)
        \<and> (rp_is_finished r \<longleftrightarrow> (\<exists>q \<in> set l. FINISHED_PERCENT \<le> pg_percent (sq_update q)))
        \<and> rp_finished_at r = map_option sq_now (find (\<lambda>q. FINISHED_PERCENT \<le> pg_percent (sq_update q)) l)"
  using run_syncs_tell [OF assms(1), of u b "[]"] assms(2,3)
  by (simp add: tells_def list_ex_iff done_reading_def [abs_def] split: if_splits)

subsection \<open>The shelf as a whole\<close>

text \<open>A successful request of one reader, or any change outside the shelf tables.\<close>

definition shelf_kept :: "library_db \<Rightarrow> library_db \<Rightarrow> bool" where
  "shelf_kept db db' \<longleftrightarrow> lb_bookmarks db' = lb_bookmarks db \<and> lb_progress db' = lb_progress db \<and> lb_wishlist db' = lb_wishlist db
     \<and> lb_collections db' = lb_collections db \<and> lb_items db' = lb_items db"

inductive shelf_step :: "books_settings \<Rightarrow> uuid \<Rightarrow> library_db \<Rightarrow> library_db \<Rightarrow> bool" for st u where
  bookmark_edited: "update_bookmark_route db i u m = Inr db' \<Longrightarrow> shelf_step st u db db'"
| bookmark_removed: "delete_bookmark_route db i u = Inr db' \<Longrightarrow> shelf_step st u db db'"
| progress_synced: "sync_progress_route st db i now u b p = Inr db' \<Longrightarrow> shelf_step st u db db'"
| wished: "add_to_wishlist db now u w = Inr (db', x) \<Longrightarrow> shelf_step st u db db'"
| unwished: "remove_from_wishlist db u b = Inr db' \<Longrightarrow> shelf_step st u db db'"
| collection_made: "create_collection db i now u cc = Inr (db', x) \<Longrightarrow> shelf_step st u db db'"
| collection_edited: "update_collection_route db i u cu = Inr db' \<Longrightarrow> shelf_step st u db db'"
| collection_removed: "delete_collection_route db now i u = Inr db' \<Longrightarrow> shelf_step st u db db'"
| item_added: "add_collection_item_route db i u ca = Inr db' \<Longrightarrow> shelf_step st u db db'"
| item_removed: "remove_collection_item_route db i u b = Inr db' \<Longrightarrow> shelf_step st u db db'"
| elsewhere: "shelf_kept db db' \<Longrightarrow> shelf_step st u db db'"

definition collections_ok :: "Collection list \<Rightarrow> CollectionItem list \<Rightarrow> bool" where
  "collections_ok cs xs \<longleftrightarrow> distinct (map cl_id cs) \<and> distinct (map (\<lambda>c. (cl_user_id c, cl_slug c)) cs)
     \<and> distinct (map (\<lambda>x. (ci_collection_id x, ci_book_id x)) xs)
     \<and> (\<forall>x \<in> set xs. ci_collection_id x \<in> cl_id ` set cs)
     \<and> (\<forall>c \<in> set cs. cl_item_count c = count_rows (\<lambda>x. ci_collection_id x = cl_id c) xs)"

lemma own_collection:
  "get_own_collection db i u = Inr c \<Longrightarrow> c \<in> set (lb_collections db) \<and> cl_id c = i \<and> cl_user_id c = u"
  by (auto simp: get_own_collection_def split: option.splits if_splits dest: first_row_Some)

lemma saved_ids:
  "cl_id c = cl_id c0 \<Longrightarrow> map cl_id (update_rows (\<lambda>x. cl_id x = cl_id c0) (\<lambda>_. c) t) = map cl_id t"
  by (induction t) (auto simp: update_rows_def)

lemma saved_slugs:
  assumes "distinct (map cl_id t)" and "c0 \<in> set t" and "cl_id c = cl_id c0" and "cl_user_id c = cl_user_id c0" and "cl_slug c = cl_slug c0"
  shows "map (\<lambda>x. (cl_user_id x, cl_slug x)) (update_rows (\<lambda>x. cl_id x = cl_id c0) (\<lambda>_. c) t) = map (\<lambda>x. (cl_user_id x, cl_slug x)) t"
proof -
  have "x = c0" if "x \<in> set t" "cl_id x = cl_id c0" for x using assms(1,2) that by (auto simp: distinct_map dest: inj_onD)
  then show ?thesis using assms(4,5) by (auto simp: update_rows_def)
qed

lemma collections_ok_saved:
  assumes "collections_ok cs xs" and "c0 \<in> set cs" and "cl_id c = cl_id c0" and "cl_item_count c = cl_item_count c0"
    and "cs' = update_rows (\<lambda>x. cl_id x = cl_id c0) (\<lambda>_. c) cs" and "distinct (map (\<lambda>x. (cl_user_id x, cl_slug x)) cs')"
  shows "collections_ok cs' xs"
proof -
  have "cl_id ` set cs' = cl_id ` set cs" using arg_cong [OF saved_ids [OF assms(3), of cs], of set] by (simp add: assms(5))
  moreover have "cl_item_count x = count_rows (\<lambda>y. ci_collection_id y = cl_id x) xs" if "x \<in> set cs'" for x
    using that assms(1-4) by (auto simp: assms(5) update_rows_def collections_ok_def split: if_splits)
  ultimately show ?thesis using assms(1,3,6) by (simp add: collections_ok_def saved_ids assms(5))
qed

text \<open>Changing the items of one collection and counting them anew.\<close>

lemma collections_ok_recounted:
  assumes "collections_ok cs xs" and "c \<in> set cs" and "distinct (map (\<lambda>x. (ci_collection_id x, ci_book_id x)) xs')"
    and "filter (\<lambda>x. ci_collection_id x \<noteq> cl_id c) xs' = filter (\<lambda>x. ci_collection_id x \<noteq> cl_id c) xs"
    and "cs' = update_rows (\<lambda>x. cl_id x = cl_id c) (\<lambda>_. c\<lparr>cl_item_count := count_rows (\<lambda>x. ci_collection_id x = cl_id c) xs'\<rparr>) cs"
  shows "collections_ok cs' xs'"
proof -
  have ok: "distinct (map cl_id cs)" "distinct (map (\<lambda>c. (cl_user_id c, cl_slug c)) cs)"
      "\<And>x. x \<in> set xs \<Longrightarrow> ci_collection_id x \<in> cl_id ` set cs"
      "\<And>c. c \<in> set cs \<Longrightarrow> cl_item_count c = count_rows (\<lambda>x. ci_collection_id x = cl_id c) xs"
    using assms(1) by (auto simp: collections_ok_def)
  have ids: "map cl_id cs' = map cl_id cs" and slugs: "map (\<lambda>x. (cl_user_id x, cl_slug x)) cs' = map (\<lambda>x. (cl_user_id x, cl_slug x)) cs"
    unfolding assms(5) by (rule saved_ids, simp) (rule saved_slugs [OF ok(1) assms(2)], simp_all)
  have other: "filter (\<lambda>x. ci_collection_id x = i) xs' = filter (\<lambda>x. ci_collection_id x = i) xs" if "i \<noteq> cl_id c" for i
    using arg_cong [OF assms(4), of "filter (\<lambda>x. ci_collection_id x = i)"] that by (simp add: conj_commute cong: filter_cong conj_cong)
  have "ci_collection_id x \<in> cl_id ` set cs" if "x \<in> set xs'" for x
  proof (cases "ci_collection_id x = cl_id c")
    case False
    then have "x \<in> set (filter (\<lambda>x. ci_collection_id x \<noteq> cl_id c) xs)" using that unfolding assms(4) [symmetric] by simp
    then show ?thesis using ok(3) by simp
  qed (use assms(2) in auto)
  moreover have "cl_item_count x = count_rows (\<lambda>y. ci_collection_id y = cl_id x) xs'" if "x \<in> set cs'" for x
    using that other ok(4) by (auto simp: assms(5) update_rows_def count_rows_def split: if_splits)
  moreover have "cl_id ` set cs' = cl_id ` set cs" using arg_cong [OF ids, of set] by simp
  ultimately show ?thesis unfolding collections_ok_def ids slugs using ok(1,2) assms(3) by simp
qed

lemma items_updated:
  assumes "\<And>x. x \<in> set xs \<Longrightarrow> P x \<Longrightarrow> ci_collection_id (f x) = ci_collection_id x \<and> ci_book_id (f x) = ci_book_id x"
    and "collections_ok cs xs"
  shows "collections_ok cs (update_rows P f xs)"
proof -
  have keys: "map (\<lambda>x. (ci_collection_id x, ci_book_id x)) (update_rows P f xs) = map (\<lambda>x. (ci_collection_id x, ci_book_id x)) xs"
    using assms(1) by (auto simp: update_rows_def)
  have "map ci_collection_id (update_rows P f xs) = map ci_collection_id xs" using arg_cong [OF keys, of "map fst"] by (simp add: o_def)
  then have ids: "ci_collection_id ` set (update_rows P f xs) = ci_collection_id ` set xs"
      "filter (\<lambda>j. j = i) (map ci_collection_id (update_rows P f xs)) = filter (\<lambda>j. j = i) (map ci_collection_id xs)" for i
    by (metis list.set_map, simp)
  have "count_rows (\<lambda>x. ci_collection_id x = i) (update_rows P f xs) = count_rows (\<lambda>x. ci_collection_id x = i) xs" for i
    using ids(2) [of i, THEN arg_cong, of length] by (simp add: count_rows_def filter_map o_def)
  then show ?thesis using assms(2) ids(1) unfolding collections_ok_def keys by (simp add: image_subset_iff [symmetric])
qed

lemma created_collection_ok:
  assumes "create_collection db i now u cc = Inr (db', x)" and "collections_ok (lb_collections db) (lb_items db)"
  shows "collections_ok (lb_collections db') (lb_items db')"
proof -
  have x: "lb_collections db' = lb_collections db @ [x]" "lb_items db' = lb_items db" "cl_item_count x = 0"
      "\<And>y. y \<in> set (lb_collections db) \<Longrightarrow> \<not> collection_clash x y"
    using assms(1) by (auto simp: create_collection_def Let_def insert_unique_Some split: option.splits)
  have new: "cl_id x \<notin> cl_id ` set (lb_collections db)"
      "(cl_user_id x, cl_slug x) \<notin> (\<lambda>c. (cl_user_id c, cl_slug c)) ` set (lb_collections db)"
    using x(4) by (auto simp: collection_clash_def)
  then have "filter (\<lambda>y. ci_collection_id y = cl_id x) (lb_items db) = []"
    using assms(2) new(1) unfolding filter_empty_conv collections_ok_def by metis
  then show ?thesis using assms(2) x(1-3) new by (auto simp: collections_ok_def count_rows_def)
qed

lemma edited_collection_ok:
  assumes "update_collection_route db i u cu = Inr db'" and "collections_ok (lb_collections db) (lb_items db)"
  shows "collections_ok (lb_collections db') (lb_items db')"
proof -
  obtain c where c: "get_own_collection db i u = Inr c" "lb_items db' = lb_items db"
      "lb_collections db' = update_rows (\<lambda>x. cl_id x = cl_id c) (\<lambda>_. patch_collection cu c) (lb_collections db)"
      "distinct (map (\<lambda>x. (cl_user_id x, cl_slug x)) (lb_collections db'))"
    using assms(1) by (auto simp: update_collection_route_def update_collection_def save_collection_def patch_collection_def Let_def map_sum_Inr
        split: sum.splits if_splits)
  from collections_ok_saved [OF assms(2) _ _ _ c(3,4)] own_collection [OF c(1)] c(2) show ?thesis
    by (simp add: patch_collection_def)
qed

lemma removed_collection_ok:
  assumes "delete_collection_route db now i u = Inr db'" and "collections_ok (lb_collections db) (lb_items db)"
  shows "collections_ok (lb_collections db') (lb_items db')"
proof -
  obtain c where c: "get_own_collection db i u = Inr c" "lb_items db' = lb_items db"
      "lb_collections db' = update_rows (\<lambda>x. cl_id x = cl_id c) (\<lambda>_. c\<lparr>cl_deleted_at := Some now\<rparr>) (lb_collections db)"
    using assms(1) by (auto simp: delete_collection_route_def delete_collection_def save_collection_def split: sum.splits)
  have ids: "distinct (map cl_id (lb_collections db))" "distinct (map (\<lambda>x. (cl_user_id x, cl_slug x)) (lb_collections db))"
    using assms(2) by (simp_all add: collections_ok_def)
  have "distinct (map (\<lambda>x. (cl_user_id x, cl_slug x)) (lb_collections db'))"
    unfolding c(3) using saved_slugs [OF ids(1), of c "c\<lparr>cl_deleted_at := Some now\<rparr>"] own_collection [OF c(1)] ids(2) by simp
  from collections_ok_saved [OF assms(2) _ _ _ c(3) this] own_collection [OF c(1)] c(2) show ?thesis by simp
qed

lemma added_item_ok:
  assumes "add_collection_item_route db i u ca = Inr db'" and "collections_ok (lb_collections db) (lb_items db)"
  shows "collections_ok (lb_collections db') (lb_items db')"
proof -
  obtain c x where c: "get_own_collection db i u = Inr c" "add_collection_item db c ca = Inr (db', x)"
    using assms(1) by (auto simp: add_collection_item_route_def map_sum_Inr split: sum.splits)
  show ?thesis
  proof (cases "first_row (item_of (cl_id c) (ca_book_id ca)) (lb_items db)")
    case None
    define y where "y = \<lparr>ci_collection_id = cl_id c, ci_book_id = ca_book_id ca, ci_display_order = ca_display_order ca, ci_note = ca_note ca\<rparr>"
    have db': "db' = refresh_count (db\<lparr>lb_items := lb_items db @ [y]\<rparr>) c"
      using c(2) None by (auto simp: add_collection_item_def Let_def y_def split: if_splits)
    have "distinct (map (\<lambda>x. (ci_collection_id x, ci_book_id x)) (lb_items db @ [y]))"
      using assms(2) None by (auto simp: collections_ok_def y_def first_row_None item_of_def)
    from collections_ok_recounted [OF assms(2) _ this, of c, OF _ _ refl] own_collection [OF c(1)]
    show ?thesis by (simp add: db' refresh_count_def save_collection_def y_def)
  next
    case (Some y)
    then have "item_of (cl_id c) (ca_book_id ca) y" by (auto dest: first_row_Some)
    with items_updated [OF _ assms(2), of "item_of (cl_id c) (ca_book_id ca)"] show ?thesis
      using c(2) Some by (auto simp: add_collection_item_def Let_def item_of_def)
  qed
qed

lemma removed_item_ok:
  assumes "remove_collection_item_route db i u b = Inr db'" and "collections_ok (lb_collections db) (lb_items db)"
  shows "collections_ok (lb_collections db') (lb_items db')"
proof -
  obtain c where c: "get_own_collection db i u = Inr c"
      "db' = refresh_count (db\<lparr>lb_items := delete_rows (item_of (cl_id c) b) (lb_items db)\<rparr>) c"
    using assms(1) by (auto simp: remove_collection_item_route_def remove_collection_item_def split: sum.splits option.splits)
  have "distinct (map (\<lambda>x. (ci_collection_id x, ci_book_id x)) (delete_rows (item_of (cl_id c) b) (lb_items db)))"
    using assms(2) by (simp add: collections_ok_def delete_rows_def distinct_map_filter)
  moreover have "filter (\<lambda>x. ci_collection_id x \<noteq> cl_id c) (delete_rows (item_of (cl_id c) b) (lb_items db))
      = filter (\<lambda>x. ci_collection_id x \<noteq> cl_id c) (lb_items db)"
    by (auto simp: delete_rows_def item_of_def intro: filter_cong)
  ultimately show ?thesis using collections_ok_recounted [OF assms(2), of c, OF _ _ _ refl] own_collection [OF c(1)]
    by (simp add: c(2) refresh_count_def save_collection_def)
qed

text \<open>The other requests leave the collections alone.\<close>

lemma shelf_frames:
  "update_bookmark_route db i u m = Inr db' \<Longrightarrow> shelf_kept db (db'\<lparr>lb_bookmarks := lb_bookmarks db\<rparr>)"
  "delete_bookmark_route db i u = Inr db' \<Longrightarrow> shelf_kept db (db'\<lparr>lb_bookmarks := lb_bookmarks db\<rparr>)"
  "sync_progress_route st db i now u b p = Inr db' \<Longrightarrow> shelf_kept db (db'\<lparr>lb_progress := lb_progress db\<rparr>)"
  "add_to_wishlist db now u w = Inr (db', x) \<Longrightarrow> shelf_kept db (db'\<lparr>lb_wishlist := lb_wishlist db\<rparr>)"
  "remove_from_wishlist db u b = Inr db' \<Longrightarrow> shelf_kept db (db'\<lparr>lb_wishlist := lb_wishlist db\<rparr>)"
  by (auto simp: update_bookmark_route_def update_bookmark_def delete_bookmark_route_def delete_bookmark_def sync_progress_route_def
      sync_progress_def add_to_wishlist_def remove_from_wishlist_def shelf_kept_def Let_def map_sum_Inr
      split: sum.splits option.splits if_splits)

lemma shelf_step_collections:
  assumes "shelf_step st u db db'" and "collections_ok (lb_collections db) (lb_items db)"
  shows "collections_ok (lb_collections db') (lb_items db')"
  using assms
  by cases (auto simp: shelf_kept_def dest!: shelf_frames
      intro: created_collection_ok edited_collection_ok removed_collection_ok added_item_ok removed_item_ok)

lemma shelf_steps_collections:
  "(\<lambda>a b. \<exists>u. shelf_step st u a b)\<^sup>*\<^sup>* db db' \<Longrightarrow> collections_ok (lb_collections db) (lb_items db)
     \<Longrightarrow> collections_ok (lb_collections db') (lb_items db')"
  by (induction rule: rtranclp_induct) (auto intro: shelf_step_collections)

text \<open>
  C31: A collection's counter is the number of its books. Over any sequence of requests of any
  readers, starting from empty shelves, every collection's counter is the number of different
  books in it, no reader has two collections of one slug, and no item is left without its
  collection.
\<close>

theorem collection_counts_exact:
  assumes "(\<lambda>a b. \<exists>u. shelf_step st u a b)\<^sup>*\<^sup>* db0 db" and "lb_collections db0 = []" and "lb_items db0 = []"
  shows "(\<forall>c \<in> set (lb_collections db).
       cl_item_count c = card {b. \<exists>x \<in> set (lb_items db). ci_collection_id x = cl_id c \<and> ci_book_id x = b})
    \<and> distinct (map (\<lambda>c. (cl_user_id c, cl_slug c)) (lb_collections db))
    \<and> (\<forall>x \<in> set (lb_items db). ci_collection_id x \<in> cl_id ` set (lb_collections db))"
proof -
  have ok: "collections_ok (lb_collections db) (lb_items db)"
    using shelf_steps_collections [OF assms(1)] assms(2,3) by (simp add: collections_ok_def)
  have "count_rows (\<lambda>x. ci_collection_id x = i) (lb_items db) = card {b. \<exists>x \<in> set (lb_items db). ci_collection_id x = i \<and> ci_book_id x = b}" for i
  proof -
    let ?own = "filter (\<lambda>x. ci_collection_id x = i) (lb_items db)"
    have "distinct (map (\<lambda>x. (ci_collection_id x, ci_book_id x)) ?own)"
      using ok by (simp add: collections_ok_def distinct_map_filter)
    then have "distinct (map ci_book_id ?own)" by (auto simp: distinct_map inj_on_def)
    then have "length ?own = card (set (map ci_book_id ?own))" by (metis distinct_card length_map)
    moreover have "set (map ci_book_id ?own) = {b. \<exists>x \<in> set (lb_items db). ci_collection_id x = i \<and> ci_book_id x = b}" by auto
    ultimately show ?thesis by (simp add: count_rows_def)
  qed
  then show ?thesis using ok by (simp add: collections_ok_def)
qed

subsection \<open>Nobody writes to another reader's shelf\<close>

definition owners :: "library_db \<Rightarrow> (uuid \<times> uuid) set" where
  "owners db = (\<lambda>c. (cl_id c, cl_user_id c)) ` set (lb_collections db)"

definition shelf_of :: "uuid \<Rightarrow> library_db \<Rightarrow> Bookmark list \<times> ReadingProgress list \<times> WishlistItem list \<times> Collection list \<times> CollectionItem list" where
  "shelf_of v db = (filter (\<lambda>b. bm_user_id b = v) (lb_bookmarks db), filter (\<lambda>r. rp_user_id r = v) (lb_progress db),
     filter (\<lambda>w. wl_user_id w = v) (lb_wishlist db), filter (\<lambda>c. cl_user_id c = v) (lb_collections db),
     filter (\<lambda>x. (ci_collection_id x, v) \<in> owners db) (lb_items db))"

definition shelf_ids :: "library_db \<Rightarrow> bool" where
  "shelf_ids db \<longleftrightarrow> distinct (map bm_id (lb_bookmarks db)) \<and> distinct (map cl_id (lb_collections db))"

lemma same_collection: "shelf_ids db \<Longrightarrow> c \<in> set (lb_collections db) \<Longrightarrow> d \<in> set (lb_collections db) \<Longrightarrow> cl_id c = cl_id d \<Longrightarrow> c = d"
  by (auto simp: shelf_ids_def distinct_map dest: inj_onD)

lemma shelf_kept_of: "shelf_kept db db' \<Longrightarrow> shelf_of v db' = shelf_of v db"
  by (simp add: shelf_kept_def shelf_of_def owners_def)

text \<open>Saving a collection of \<open>u\<close>, with changes to its own items only.\<close>

lemma saved_collection_private:
  assumes "shelf_ids db" and "c \<in> set (lb_collections db)" and "cl_user_id c \<noteq> v"
    and "cl_id c' = cl_id c" and "cl_user_id c' = cl_user_id c"
    and "filter (\<lambda>x. ci_collection_id x \<noteq> cl_id c) xs = filter (\<lambda>x. ci_collection_id x \<noteq> cl_id c) (lb_items db)"
  shows "shelf_of v (save_collection (db\<lparr>lb_items := xs\<rparr>) c') = shelf_of v db"
proof -
  let ?db = "save_collection (db\<lparr>lb_items := xs\<rparr>) c'"
  have one: "x = c" if "x \<in> set (lb_collections db)" "cl_id x = cl_id c" for x
    using same_collection assms(1,2) that by blast
  have "map (\<lambda>c. (cl_id c, cl_user_id c)) (lb_collections ?db) = map (\<lambda>c. (cl_id c, cl_user_id c)) (lb_collections db)"
    using one assms(4,5) by (auto simp: save_collection_def update_rows_def)
  then have own: "owners ?db = owners db" unfolding owners_def by (metis list.set_map)
  have mine: "(cl_id c, v) \<notin> owners db" using one assms(3) by (auto simp: owners_def)
  have "filter (\<lambda>x. (ci_collection_id x, v) \<in> owners db) xs = filter (\<lambda>x. (ci_collection_id x, v) \<in> owners db) (lb_items db)"
  proof -
    have "filter (\<lambda>x. (ci_collection_id x, v) \<in> owners db) ys
        = filter (\<lambda>x. (ci_collection_id x, v) \<in> owners db) (filter (\<lambda>x. ci_collection_id x \<noteq> cl_id c) ys)" for ys
      using mine by (auto intro!: filter_cong)
    then show ?thesis using assms(6) by metis
  qed
  moreover have "filter (\<lambda>c. cl_user_id c = v) (lb_collections ?db) = filter (\<lambda>c. cl_user_id c = v) (lb_collections db)"
    unfolding save_collection_def using one assms(3-5) by (auto intro!: filter_update_other)
  ultimately show ?thesis by (simp add: shelf_of_def own) (simp add: save_collection_def)
qed

lemma filter_delete_other: "(\<And>x. x \<in> set t \<Longrightarrow> P x \<Longrightarrow> \<not> Q x) \<Longrightarrow> filter Q (delete_rows P t) = filter Q t"
  by (induction t) (auto simp: delete_rows_def)

lemma bookmark_routes_private:
  assumes "shelf_ids db" and "u \<noteq> v" and "update_bookmark_route db i u m = Inr db' \<or> delete_bookmark_route db i u = Inr db'"
  shows "shelf_of v db' = shelf_of v db"
proof -
  obtain b where b: "get_own_bookmark db i u = Inr b"
    using assms(3) by (auto simp: update_bookmark_route_def delete_bookmark_route_def split: sum.splits)
  then have row: "b \<in> set (lb_bookmarks db)" "bm_user_id b = u"
    by (auto simp: get_own_bookmark_def split: option.splits if_splits dest: first_row_Some)
  have one: "bm_user_id x \<noteq> v" if "x \<in> set (lb_bookmarks db)" "bm_id x = bm_id b" for x
    using assms(1,2) row that by (auto simp: shelf_ids_def distinct_map dest: inj_onD)
  have "filter (\<lambda>b. bm_user_id b = v) (lb_bookmarks db') = filter (\<lambda>b. bm_user_id b = v) (lb_bookmarks db)"
    using assms(2,3) b row(2)
    by (auto simp: update_bookmark_route_def delete_bookmark_route_def update_bookmark_def delete_bookmark_def Let_def map_sum_Inr
        split: if_splits intro!: filter_update_other filter_delete_other dest: one)
  moreover have "shelf_kept db (db'\<lparr>lb_bookmarks := lb_bookmarks db\<rparr>)" using assms(3) shelf_frames(1,2) by blast
  ultimately show ?thesis by (simp add: shelf_kept_def shelf_of_def owners_def)
qed

lemma list_routes_private:
  assumes "u \<noteq> v"
  shows "sync_progress_route st db i now u b p = Inr db' \<Longrightarrow> shelf_of v db' = shelf_of v db"
    and "add_to_wishlist db now u w = Inr (db', x) \<Longrightarrow> shelf_of v db' = shelf_of v db"
    and "remove_from_wishlist db u b = Inr db' \<Longrightarrow> shelf_of v db' = shelf_of v db"
proof -
  assume r: "sync_progress_route st db i now u b p = Inr db'"
  obtain y where y: "sync_progress db i now u b p = Inr (db', y)"
    using r by (auto simp: sync_progress_route_def map_sum_Inr split: sum.splits if_splits)
  have keep: "rp_user_id (mark_finished now z) = rp_user_id z" for z by (simp add: mark_finished_def)
  have "filter (\<lambda>r. rp_user_id r = v) (lb_progress db') = filter (\<lambda>r. rp_user_id r = v) (lb_progress db)"
  proof (cases "get_progress db u b")
    case (Inr found)
    show ?thesis
    proof (cases found)
      case None
      then show ?thesis using y Inr assms
        by (auto simp: sync_progress_def Let_def insert_unique_Some new_progress_def keep split: option.splits if_splits)
    next
      case (Some z)
      then have "z \<in> set (filter (progress_of u b) (lb_progress db))"
        using Inr one_or_none_Some [of "progress_of u b" "lb_progress db" z] by (simp add: get_progress_def)
      then have "rp_user_id (advance_progress now p z) = u" by (simp add: advance_progress_def keep progress_of_def)
      moreover have "lb_progress db' = update_rows (progress_of u b) (\<lambda>_. advance_progress now p z) (lb_progress db)"
        using y Inr Some by (auto simp: sync_progress_def Let_def)
      ultimately show ?thesis using assms by (auto simp: progress_of_def intro!: filter_update_other)
    qed
  qed (use y in \<open>simp add: sync_progress_def\<close>)
  then show "shelf_of v db' = shelf_of v db" using shelf_frames(3) [OF r] by (simp add: shelf_kept_def shelf_of_def owners_def)
next
  assume r: "add_to_wishlist db now u w = Inr (db', x)"
  have "filter (\<lambda>w. wl_user_id w = v) (lb_wishlist db') = filter (\<lambda>w. wl_user_id w = v) (lb_wishlist db)"
    using r assms by (auto simp: add_to_wishlist_def Let_def wish_of_def split: option.splits if_splits
        intro!: filter_update_other dest!: first_row_Some)
  then show "shelf_of v db' = shelf_of v db" using shelf_frames(4) [OF r] by (simp add: shelf_kept_def shelf_of_def owners_def)
next
  assume r: "remove_from_wishlist db u b = Inr db'"
  have "filter (\<lambda>w. wl_user_id w = v) (lb_wishlist db') = filter (\<lambda>w. wl_user_id w = v) (lb_wishlist db)"
    using r assms by (auto simp: remove_from_wishlist_def wish_of_def split: option.splits intro!: filter_delete_other)
  then show "shelf_of v db' = shelf_of v db" using shelf_frames(5) [OF r] by (simp add: shelf_kept_def shelf_of_def owners_def)
qed

lemma created_collection_private:
  assumes "u \<noteq> v" and "create_collection db i now u cc = Inr (db', y)"
  shows "shelf_of v db' = shelf_of v db"
proof -
  have y: "db' = db\<lparr>lb_collections := lb_collections db @ [y]\<rparr>" "cl_user_id y = u"
    using assms(2) by (auto simp: create_collection_def Let_def insert_unique_Some split: option.splits)
  then have "(j, v) \<in> owners db' \<longleftrightarrow> (j, v) \<in> owners db" for j using assms(1) by (auto simp: owners_def)
  then show ?thesis using assms(1) y by (simp add: shelf_of_def)
qed

lemma added_item_private:
  assumes "shelf_ids db" and "u \<noteq> v" and "add_collection_item_route db i u ca = Inr db'"
  shows "shelf_of v db' = shelf_of v db"
proof -
  have own: "c \<in> set (lb_collections db)" "cl_user_id c \<noteq> v" if "get_own_collection db i u = Inr c" for c
    using own_collection [OF that] assms(2) by auto
  obtain c x where c: "get_own_collection db i u = Inr c" "add_collection_item db c ca = Inr (db', x)"
    using assms(3) by (auto simp: add_collection_item_route_def map_sum_Inr split: sum.splits)
  show ?thesis
  proof (cases "first_row (item_of (cl_id c) (ca_book_id ca)) (lb_items db)")
    case None
    then have x: "ci_collection_id x = cl_id c" "db' = refresh_count (db\<lparr>lb_items := lb_items db @ [x]\<rparr>) c"
      using c(2) by (auto simp: add_collection_item_def Let_def split: if_splits)
    show ?thesis unfolding x(2) refresh_count_def
      by (rule saved_collection_private [OF assms(1) own [OF c(1)]]) (simp_all add: x(1))
  next
    case (Some y)
    then have y: "ci_collection_id y = cl_id c" by (auto simp: item_of_def dest: first_row_Some)
    have db': "db' = db\<lparr>lb_items := update_rows (item_of (cl_id c) (ca_book_id ca))
        (\<lambda>_. y\<lparr>ci_display_order := ca_display_order ca, ci_note := ca_note ca\<rparr>) (lb_items db)\<rparr>"
      using c(2) Some by (auto simp: add_collection_item_def Let_def)
    have "(cl_id c, v) \<notin> owners db"
      using own [OF c(1)] same_collection [OF assms(1)] by (force simp: owners_def)
    then have "filter (\<lambda>x. (ci_collection_id x, v) \<in> owners db) (lb_items db') = filter (\<lambda>x. (ci_collection_id x, v) \<in> owners db) (lb_items db)"
      unfolding db' using y by (auto simp: item_of_def intro!: filter_update_other)
    then show ?thesis by (simp add: shelf_of_def owners_def) (simp add: db')
  qed
qed

lemma collection_routes_private:
  assumes "shelf_ids db" and "u \<noteq> v"
  shows "update_collection_route db i u cu = Inr db' \<Longrightarrow> shelf_of v db' = shelf_of v db"
    and "delete_collection_route db now i u = Inr db' \<Longrightarrow> shelf_of v db' = shelf_of v db"
    and "remove_collection_item_route db i u b = Inr db' \<Longrightarrow> shelf_of v db' = shelf_of v db"
proof -
  have own: "c \<in> set (lb_collections db)" "cl_user_id c \<noteq> v" if "get_own_collection db i u = Inr c" for c
    using own_collection [OF that] assms(2) by auto
  note saved = saved_collection_private [OF assms(1) own]
  show "shelf_of v db' = shelf_of v db" if r: "update_collection_route db i u cu = Inr db'"
  proof -
    obtain c where c: "get_own_collection db i u = Inr c" "db' = save_collection db (patch_collection cu c)"
      using r by (auto simp: update_collection_route_def update_collection_def Let_def map_sum_Inr split: sum.splits if_splits)
    show ?thesis using saved [OF c(1) c(1) _ _ refl, of "patch_collection cu c"] by (simp add: c(2) patch_collection_def)
  qed
  show "shelf_of v db' = shelf_of v db" if r: "delete_collection_route db now i u = Inr db'"
  proof -
    obtain c where c: "get_own_collection db i u = Inr c" "db' = save_collection db (c\<lparr>cl_deleted_at := Some now\<rparr>)"
      using r by (auto simp: delete_collection_route_def delete_collection_def split: sum.splits)
    show ?thesis using saved [OF c(1) c(1) _ _ refl, of "c\<lparr>cl_deleted_at := Some now\<rparr>"] by (simp add: c(2))
  qed
  show "shelf_of v db' = shelf_of v db" if r: "remove_collection_item_route db i u b = Inr db'"
  proof -
    obtain c where c: "get_own_collection db i u = Inr c"
        "db' = refresh_count (db\<lparr>lb_items := delete_rows (item_of (cl_id c) b) (lb_items db)\<rparr>) c"
      using r by (auto simp: remove_collection_item_route_def remove_collection_item_def split: sum.splits option.splits)
    show ?thesis unfolding c(2) refresh_count_def
      by (rule saved [OF c(1) c(1)]) (auto simp: item_of_def intro!: filter_delete_other)
  qed
qed

lemma shelf_step_private: "shelf_step st u db db' \<Longrightarrow> shelf_ids db \<Longrightarrow> u \<noteq> v \<Longrightarrow> shelf_of v db' = shelf_of v db"
  by (induction rule: shelf_step.induct)
     (blast intro: bookmark_routes_private list_routes_private created_collection_private collection_routes_private
        added_item_private shelf_kept_of)+

lemma saved_collection_ids: "shelf_ids (save_collection db c) \<longleftrightarrow> shelf_ids db"
  by (simp add: shelf_ids_def save_collection_def saved_ids)

lemma shelf_step_ids: "shelf_step st u db db' \<Longrightarrow> shelf_ids db \<Longrightarrow> shelf_ids db'"
proof (induction rule: shelf_step.induct)
  case (bookmark_edited db i m db')
  then have "map bm_id (lb_bookmarks db') = map bm_id (lb_bookmarks db)" "lb_collections db' = lb_collections db"
    by (auto simp: update_bookmark_route_def update_bookmark_def update_rows_def Let_def map_sum_Inr split: sum.splits if_splits)
  then show ?case using bookmark_edited by (simp add: shelf_ids_def)
next
  case (bookmark_removed db i db')
  then show ?case by (auto simp: shelf_ids_def delete_bookmark_route_def delete_bookmark_def delete_rows_def distinct_map_filter split: sum.splits)
next
  case (collection_made db i now cc db' x)
  then show ?case
    by (auto simp: shelf_ids_def create_collection_def Let_def insert_unique_Some collection_clash_def split: option.splits)
next
  case (collection_edited db i cu db')
  then show ?case
    by (auto simp: update_collection_route_def update_collection_def Let_def map_sum_Inr saved_collection_ids split: sum.splits if_splits)
next
  case (collection_removed db now i db')
  then show ?case by (auto simp: delete_collection_route_def delete_collection_def saved_collection_ids split: sum.splits)
next
  case (item_added db i ca db')
  have "shelf_ids (db\<lparr>lb_items := xs\<rparr>) = shelf_ids db" for xs by (simp add: shelf_ids_def)
  then show ?case using item_added
    by (auto simp: add_collection_item_route_def add_collection_item_def refresh_count_def saved_collection_ids Let_def map_sum_Inr
        split: sum.splits option.splits if_splits)
next
  case (item_removed db i b db')
  have "shelf_ids (db\<lparr>lb_items := xs\<rparr>) = shelf_ids db" for xs by (simp add: shelf_ids_def)
  then show ?case using item_removed
    by (auto simp: remove_collection_item_route_def remove_collection_item_def refresh_count_def saved_collection_ids
        split: sum.splits option.splits)
qed (auto simp: shelf_ids_def shelf_kept_def dest!: shelf_frames)

text \<open>
  C30: Nobody writes to another reader's shelf. Whatever the other readers do, in any sequence,
  a reader's bookmarks, progress, wishlist, collections and the books in them stay as they
  were; and a collection that is not public is shown to its owner only, in a listing as by its
  id.
\<close>

theorem shelf_is_private:
  assumes "(\<lambda>a b. \<exists>u. u \<noteq> v \<and> shelf_step st u a b)\<^sup>*\<^sup>* db db'" and "shelf_ids db"
  shows "shelf_of v db' = shelf_of v db
    \<and> (\<forall>i viewer c. get_collection db' i viewer = Inr c \<longrightarrow> cl_is_public c \<or> viewer = Some (cl_user_id c))
    \<and> (\<forall>viewer public_only cursor limit rows n. list_collections_route db' viewer public_only cursor limit = Inr (rows, n)
         \<longrightarrow> (\<forall>c \<in> set rows. cl_is_public c \<or> viewer = Some (cl_user_id c)))"
proof -
  have "shelf_ids db' \<and> shelf_of v db' = shelf_of v db" using assms
    by (induction rule: rtranclp_induct) (auto dest: shelf_step_private shelf_step_ids)
  moreover have "cl_is_public c \<or> viewer = Some (cl_user_id c)" if "get_collection db' i viewer = Inr c" for i viewer c
    using that by (auto simp: get_collection_def split: option.splits if_splits)
  moreover have "cl_is_public c \<or> viewer = Some (cl_user_id c)"
    if l: "list_collections_route db' viewer public_only cursor limit = Inr (rows, n)" and c: "c \<in> set rows"
    for viewer public_only cursor limit rows n c
  proof -
    let ?owner = "if public_only then None else viewer"
    obtain pos p m where "page_down cl_created_at cl_id limit (filter (\<lambda>c. cl_deleted_at c = None
        \<and> (public_only \<or> ?owner = None \<longrightarrow> cl_is_public c) \<and> (?owner = None \<or> ?owner = Some (cl_user_id c))) (lb_collections db')) pos = (rows, p, m)"
      using l unfolding list_collections_route_def list_collections_def time_page_def Let_def
      by (auto simp: map_sum_Inr split: option.splits)
    from page_down_rows [OF this] c show ?thesis by (auto split: if_splits)
  qed
  ultimately show ?thesis by blast
qed

subsection \<open>Witnesses\<close>

definition sample_sync :: "timestamp \<Rightarrow> rat \<Rightarrow> int \<Rightarrow> sync_request" where
  "sample_sync now percent seconds = \<lparr>sq_id = 1, sq_now = now, sq_user = 9, sq_book = 7,
     sq_update = \<lparr>pg_position = ''p'', pg_percent = percent, pg_page_number = None, pg_session_seconds = seconds\<rparr>\<rparr>"

definition sample_syncs :: "sync_request list" where
  "sample_syncs = [sample_sync 5 99 20, sample_sync 6 40 10]"

lemma sample_syncs_served: "snd (run_syncs sample_books_settings sample_shop sample_syncs) = sample_syncs"
  by code_simp

theorem progress_is_log_witness:
  "\<exists>r. filter (progress_of 9 7) (lb_progress (fst (run_syncs sample_books_settings sample_shop sample_syncs))) = [r]
     \<and> rp_percent r = 99 \<and> rp_total_reading_seconds r = 30 \<and> rp_finished_at r = Some 5"
proof -
  have "filter (synced_by 9 7) sample_syncs = sample_syncs" "lb_progress sample_shop = []"
    by (simp_all add: sample_syncs_def sample_sync_def synced_by_def sample_shop_def empty_library_def)
  then show ?thesis
    using progress_is_log [where u = 9 and b = 7, OF prod.collapse [symmetric, of "run_syncs sample_books_settings sample_shop sample_syncs"] _ refl]
    unfolding sample_syncs_served by (auto simp: sample_syncs_def sample_sync_def FINISHED_PERCENT_def)
qed

definition sample_collection :: CollectionCreate where
  "sample_collection = \<lparr>cc_name = ''C'', cc_slug = ''c'', cc_description = None, cc_is_public = False, cc_cover_key = None\<rparr>"

definition sample_shelf :: library_db where
  "sample_shelf = (case create_collection sample_shop 3 5 9 sample_collection of Inr (db, _) \<Rightarrow> db | Inl _ \<Rightarrow> sample_shop)"

definition sample_filled :: library_db where
  "sample_filled = (case add_collection_item_route sample_shelf 3 9 \<lparr>ca_book_id = 7, ca_display_order = 0, ca_note = None\<rparr> of
     Inr db \<Rightarrow> db | Inl _ \<Rightarrow> sample_shelf)"

lemma sample_shelf_steps:
  "shelf_step sample_books_settings 9 sample_shop sample_shelf" "shelf_step sample_books_settings 9 sample_shelf sample_filled"
proof -
  have "\<exists>x. create_collection sample_shop 3 5 9 sample_collection = Inr (sample_shelf, x)"
    by (simp add: sample_shelf_def create_collection_def sample_shop_def empty_library_def insert_unique_def Let_def)
  then show "shelf_step sample_books_settings 9 sample_shop sample_shelf" by (blast intro: shelf_step.collection_made)
  have "add_collection_item_route sample_shelf 3 9 \<lparr>ca_book_id = 7, ca_display_order = 0, ca_note = None\<rparr> = Inr sample_filled"
    by (simp add: sample_filled_def sample_shelf_def create_collection_def sample_shop_def empty_library_def insert_unique_def Let_def
        add_collection_item_route_def get_own_collection_def first_row_def add_collection_item_def known_book_def sample_shop_book_def
        new_book_def)
  then show "shelf_step sample_books_settings 9 sample_shelf sample_filled" by (rule shelf_step.item_added)
qed

lemma sample_shelf_run: "(\<lambda>a b. \<exists>u. u \<noteq> 5 \<and> shelf_step sample_books_settings u a b)\<^sup>*\<^sup>* sample_shop sample_filled"
proof -
  have "\<exists>u. u \<noteq> 5 \<and> shelf_step sample_books_settings u sample_shop sample_shelf" "\<exists>u. u \<noteq> 5 \<and> shelf_step sample_books_settings u sample_shelf sample_filled"
    using sample_shelf_steps by (intro exI [of _ 9]; simp)+
  then show ?thesis by (auto intro: rtranclp.rtrancl_into_rtrancl)
qed

theorem collection_counts_exact_witness:
  "\<exists>c. lb_collections sample_filled = [c]
     \<and> cl_item_count c = card {b. \<exists>x \<in> set (lb_items sample_filled). ci_collection_id x = cl_id c \<and> ci_book_id x = b}"
proof -
  have "(\<lambda>a b. \<exists>u. shelf_step sample_books_settings u a b)\<^sup>*\<^sup>* sample_shop sample_filled"
    using sample_shelf_run by (rule rtranclp_mono [THEN predicate2D, rotated]) blast
  note counts = conjunct1 [OF collection_counts_exact [OF this]]
  have "length (lb_collections sample_filled) = 1" by code_simp
  then obtain c where "lb_collections sample_filled = [c]" by (auto simp: length_Suc_conv)
  then show ?thesis using counts by (simp add: sample_shop_def empty_library_def)
qed

theorem shelf_is_private_witness: "shelf_of 5 sample_filled = shelf_of 5 sample_shop"
proof -
  have "shelf_ids sample_shop" by (simp add: shelf_ids_def sample_shop_def empty_library_def)
  from shelf_is_private [OF sample_shelf_run this] show ?thesis by blast
qed

end
