(* ===== verification/Books_Taxonomy.thy ===== *)
theory Books_Taxonomy
  imports Books_Catalogue "HOL-Library.Multiset"
begin

section \<open>Authors, publishers and the category tree\<close>

text \<open>
  \<open>apps/books/services/taxonomy.py\<close> with its routes and the cached category tree of
  \<open>services/cache.py\<close>. The three tables share their helpers, which are polymorphic in the columns
  that extend \<open>taxon\<close>. Columns the code only copies are kept by name in \<open>tx_columns\<close>.

  The nodes of the tree are Python objects linked through their \<open>children\<close> lists: \<open>link_rows\<close> builds
  the links, \<open>read_node\<close> reads the linked structure as the response does. It takes one unit of
  fuel per level; the number of rows is enough, which is proved. The cache is the value last
  stored, if it has not expired; it is switched on or off by configuration.
\<close>

subsection \<open>Shared helpers\<close>

definition get_taxon :: "'z taxon_scheme list \<Rightarrow> uuid \<Rightarrow> 'z taxon_scheme result" where
  "get_taxon t i =
     (case first_row (\<lambda>r. tx_id r = i) t of
        None \<Rightarrow> Inl (raise_default NotFoundError)
      | Some r \<Rightarrow> if tx_deleted_at r \<noteq> None then Inl (raise_default NotFoundError) else Inr r)"

definition taxon_by_slug :: "'z taxon_scheme list \<Rightarrow> string \<Rightarrow> 'z taxon_scheme result" where
  "taxon_by_slug t slug =
     (case one_or_none (\<lambda>r. tx_slug r = slug \<and> tx_deleted_at r = None) t of
        Inl e \<Rightarrow> Inl e
      | Inr None \<Rightarrow> Inl (raise_default NotFoundError)
      | Inr (Some r) \<Rightarrow> Inr r)"

definition assert_slug_free :: "'z taxon_scheme list \<Rightarrow> string \<Rightarrow> uuid option \<Rightarrow> unit result" where
  "assert_slug_free t slug exclude =
     (if \<exists>r \<in> set t. tx_slug r = slug \<and> exclude \<noteq> Some (tx_id r) then Inl (raise_default ConflictError) else Inr ())"

definition taxon_clash :: "'z taxon_scheme \<Rightarrow> 'z taxon_scheme \<Rightarrow> bool" where
  "taxon_clash a b \<longleftrightarrow> tx_slug a = tx_slug b"

interpretation taxa_tbl: keyed_table tx_slug "\<lambda>_. True" taxon_clash
  by unfold_locales (auto simp: taxon_clash_def)

text \<open>\<open>_flush\<close>: the insertion, or the changed row, under the unique slug and the \<open>NOT NULL\<close> columns.\<close>

definition flush_new :: "'z taxon_scheme list \<Rightarrow> 'z taxon_scheme \<Rightarrow> 'z taxon_scheme list result" where
  "flush_new t r = (case insert_unique taxon_clash r t of None \<Rightarrow> Inl (raise_default ConflictError) | Some t' \<Rightarrow> Inr t')"

definition flush_changed :: "'z taxon_scheme list \<Rightarrow> bool \<Rightarrow> 'z taxon_scheme \<Rightarrow> 'z taxon_scheme list result" where
  "flush_changed t null_column r =
     (let t' = update_rows (\<lambda>x. tx_id x = tx_id r) (\<lambda>_. r) t
      in if null_column \<or> \<not> distinct (map tx_slug t') then Inl (raise_default ConflictError) else Inr t')"

record TaxonCreate =
  tn_name :: string
  tn_slug :: string
  tn_columns :: jobj

record TaxonUpdate =
  tu_name :: "string patch"
  tu_slug :: "string patch"
  tu_columns :: jobj

definition slug_change :: "'z taxon_scheme list \<Rightarrow> 'u TaxonUpdate_scheme \<Rightarrow> uuid \<Rightarrow> unit result" where
  "slug_change t u i = (case tu_slug u of Some (Some s) \<Rightarrow> assert_slug_free t s (Some i) | _ \<Rightarrow> Inr ())"

definition patch_taxon :: "'u TaxonUpdate_scheme \<Rightarrow> 'z taxon_scheme \<Rightarrow> 'z taxon_scheme" where
  "patch_taxon u r = r\<lparr>tx_name := patched (tu_name u) (tx_name r), tx_slug := patched (tu_slug u) (tx_slug r),
     tx_columns := dict_update (tx_columns r) (tu_columns u)\<rparr>"

definition null_taxon :: "string list \<Rightarrow> 'u TaxonUpdate_scheme \<Rightarrow> bool" where
  "null_taxon required u \<longleftrightarrow> tu_name u = Some None \<or> tu_slug u = Some None
     \<or> list_ex (\<lambda>k. map_of (tu_columns u) k = Some JNull) required"

definition paged_taxa ::
  "('z taxon_scheme \<Rightarrow> bool) \<Rightarrow> (string \<times> ('z taxon_scheme \<Rightarrow> sort_value)) list \<Rightarrow> 'z taxon_scheme list
     \<Rightarrow> nat \<Rightarrow> nat \<Rightarrow> string option \<Rightarrow> string \<Rightarrow> string \<Rightarrow> ('z taxon_scheme list \<times> nat) result" where
  "paged_taxa extra allowed t page limit search sort_by sort_order =
     (case map_of allowed sort_by of
        None \<Rightarrow> Inl (raise_default BadRequestError)
      | Some col \<Rightarrow>
          let hits = filter (\<lambda>r. tx_deleted_at r = None \<and> extra r
                       \<and> (truthy search \<longrightarrow> ilike (or_str search '''') (Some (tx_name r)))) t;
              ordered = (if sort_order = ''asc'' then ascending col tx_id hits else descending col tx_id hits)
          in if hits = [] then Inr ([], 0) else Inr (page_rows limit ((page - 1) * limit) ordered, length hits))"

definition TAXON_SORTS :: "(string \<times> ('z taxon_scheme \<Rightarrow> sort_value)) list" where
  "TAXON_SORTS = [(''name'', \<lambda>r. SvText (tx_name r)), (''created_at'', \<lambda>r. SvNum (tx_created_at r))]"

definition CATEGORY_SORTS :: "(string \<times> (Category \<Rightarrow> sort_value)) list" where
  "CATEGORY_SORTS = (''display_order'', \<lambda>r. SvNum (ct_display_order r)) # TAXON_SORTS"

subsection \<open>Authors\<close>

definition list_authors ::
  "library_db \<Rightarrow> nat \<Rightarrow> nat \<Rightarrow> string option \<Rightarrow> bool \<Rightarrow> string \<Rightarrow> string \<Rightarrow> (taxon list \<times> nat) result" where
  "list_authors db page limit search featured_only =
     paged_taxa (\<lambda>r. featured_only \<longrightarrow> map_of (tx_columns r) ''is_featured'' = Some (JBool True)) TAXON_SORTS
       (lb_authors db) page limit search"

definition new_taxon :: "uuid \<Rightarrow> timestamp \<Rightarrow> 'u TaxonCreate_scheme \<Rightarrow> taxon" where
  "new_taxon i now p = \<lparr>tx_id = i, tx_name = tn_name p, tx_slug = tn_slug p, tx_columns = tn_columns p,
     tx_deleted_at = None, tx_created_at = now\<rparr>"

definition create_taxon :: "taxon list \<Rightarrow> uuid \<Rightarrow> timestamp \<Rightarrow> TaxonCreate \<Rightarrow> taxon list result" where
  "create_taxon t i now p =
     (case assert_slug_free t (tn_slug p) None of Inl e \<Rightarrow> Inl e | Inr _ \<Rightarrow> flush_new t (new_taxon i now p))"

definition update_taxon :: "string list \<Rightarrow> taxon list \<Rightarrow> taxon \<Rightarrow> TaxonUpdate \<Rightarrow> taxon list result" where
  "update_taxon required t r u =
     (case slug_change t u (tx_id r) of Inl e \<Rightarrow> Inl e
      | Inr _ \<Rightarrow> flush_changed t (null_taxon required u) (patch_taxon u r))"

definition delete_taxon :: "'z taxon_scheme list \<Rightarrow> bool \<Rightarrow> timestamp \<Rightarrow> 'z taxon_scheme \<Rightarrow> 'z taxon_scheme list result" where
  "delete_taxon t linked now r =
     (if linked then Inl (raise_default ConflictError)
      else Inr (update_rows (\<lambda>x. tx_id x = tx_id r) (\<lambda>x. x\<lparr>tx_deleted_at := Some now\<rparr>) t))"

definition create_author :: "library_db \<Rightarrow> uuid \<Rightarrow> timestamp \<Rightarrow> TaxonCreate \<Rightarrow> library_db result" where
  "create_author db i now p = map_sum id (\<lambda>t. db\<lparr>lb_authors := t\<rparr>) (create_taxon (lb_authors db) i now p)"

definition update_author :: "library_db \<Rightarrow> uuid \<Rightarrow> TaxonUpdate \<Rightarrow> library_db result" where
  "update_author db i u =
     (case get_taxon (lb_authors db) i of Inl e \<Rightarrow> Inl e
      | Inr r \<Rightarrow> map_sum id (\<lambda>t. db\<lparr>lb_authors := t\<rparr>) (update_taxon [''is_featured''] (lb_authors db) r u))"

definition delete_author :: "library_db \<Rightarrow> timestamp \<Rightarrow> uuid \<Rightarrow> library_db result" where
  "delete_author db now i =
     (case get_taxon (lb_authors db) i of Inl e \<Rightarrow> Inl e
      | Inr r \<Rightarrow> map_sum id (\<lambda>t. db\<lparr>lb_authors := t\<rparr>)
                   (delete_taxon (lb_authors db) (\<exists>l \<in> set (lb_book_authors db). ba_author_id l = tx_id r) now r))"

subsection \<open>Publishers\<close>

definition list_publishers ::
  "library_db \<Rightarrow> nat \<Rightarrow> nat \<Rightarrow> string option \<Rightarrow> string \<Rightarrow> string \<Rightarrow> (taxon list \<times> nat) result" where
  "list_publishers db = paged_taxa (\<lambda>_. True) TAXON_SORTS (lb_publishers db)"

definition create_publisher :: "library_db \<Rightarrow> uuid \<Rightarrow> timestamp \<Rightarrow> TaxonCreate \<Rightarrow> library_db result" where
  "create_publisher db i now p = map_sum id (\<lambda>t. db\<lparr>lb_publishers := t\<rparr>) (create_taxon (lb_publishers db) i now p)"

definition update_publisher :: "library_db \<Rightarrow> uuid \<Rightarrow> TaxonUpdate \<Rightarrow> library_db result" where
  "update_publisher db i u =
     (case get_taxon (lb_publishers db) i of Inl e \<Rightarrow> Inl e
      | Inr r \<Rightarrow> map_sum id (\<lambda>t. db\<lparr>lb_publishers := t\<rparr>) (update_taxon [] (lb_publishers db) r u))"

definition delete_publisher :: "library_db \<Rightarrow> timestamp \<Rightarrow> uuid \<Rightarrow> library_db result" where
  "delete_publisher db now i =
     (case get_taxon (lb_publishers db) i of Inl e \<Rightarrow> Inl e
      | Inr r \<Rightarrow> map_sum id (\<lambda>t. db\<lparr>lb_publishers := t\<rparr>)
                   (delete_taxon (lb_publishers db) (\<exists>b \<in> set (lb_books db). cb_publisher_id b = Some (tx_id r)) now r))"

subsection \<open>Categories\<close>

record CategoryCreate = TaxonCreate +
  kc_parent_id :: "uuid option"
  kc_display_order :: int
  kc_is_active :: bool

record CategoryUpdate = TaxonUpdate +
  ku_parent_id :: "uuid patch"
  ku_display_order :: "int patch"
  ku_is_active :: "bool patch"

definition list_categories ::
  "library_db \<Rightarrow> nat \<Rightarrow> nat \<Rightarrow> string option \<Rightarrow> string \<Rightarrow> string \<Rightarrow> (Category list \<times> nat) result" where
  "list_categories db = paged_taxa (\<lambda>_. True) CATEGORY_SORTS (lb_categories db)"

definition MAX_CATEGORY_DEPTH :: nat where
  "MAX_CATEGORY_DEPTH = 5"

fun walk_up :: "nat \<Rightarrow> Category list \<Rightarrow> uuid \<Rightarrow> uuid option \<Rightarrow> unit result" where
  "walk_up 0 t category current = Inl (raise_default BadRequestError)"
| "walk_up (Suc n) t category current =
     (case current of
        None \<Rightarrow> Inr ()
      | Some i \<Rightarrow>
          if i = category then Inl (raise_default BadRequestError)
          else case get_taxon t i of Inl e \<Rightarrow> Inl e | Inr parent \<Rightarrow> walk_up n t category (ct_parent_id parent))"

definition assert_no_cycle :: "Category list \<Rightarrow> uuid \<Rightarrow> uuid \<Rightarrow> unit result" where
  "assert_no_cycle t category parent_id =
     (if parent_id = category then Inl (raise_default BadRequestError)
      else walk_up (MAX_CATEGORY_DEPTH + 1) t category (Some parent_id))"

definition new_category :: "uuid \<Rightarrow> timestamp \<Rightarrow> CategoryCreate \<Rightarrow> Category" where
  "new_category i now p = taxon.extend (new_taxon i now p)
     (Category.fields (kc_parent_id p) (kc_display_order p) (kc_is_active p))"

definition patch_category :: "CategoryUpdate \<Rightarrow> Category \<Rightarrow> Category" where
  "patch_category u c = (patch_taxon u c)\<lparr>ct_parent_id := patched_opt (ku_parent_id u) (ct_parent_id c),
     ct_display_order := patched (ku_display_order u) (ct_display_order c),
     ct_is_active := patched (ku_is_active u) (ct_is_active c)\<rparr>"

datatype CategoryNode = CategoryNode (cn_row: Category) (cn_children: "CategoryNode list")

text \<open>The service's database and the cached tree.\<close>

record taxonomy_state =
  ts_db :: library_db
  ts_tree :: "CategoryNode list option"

definition get_category_tree :: "bool \<Rightarrow> taxonomy_state \<Rightarrow> CategoryNode list option" where
  "get_category_tree enabled st = (if enabled then ts_tree st else None)"

definition set_category_tree :: "bool \<Rightarrow> CategoryNode list \<Rightarrow> taxonomy_state \<Rightarrow> taxonomy_state" where
  "set_category_tree enabled tree st = (if enabled then st\<lparr>ts_tree := Some tree\<rparr> else st)"

definition invalidate_category_tree :: "bool \<Rightarrow> taxonomy_state \<Rightarrow> taxonomy_state" where
  "invalidate_category_tree enabled st = (if enabled then st\<lparr>ts_tree := None\<rparr> else st)"

definition store_categories :: "bool \<Rightarrow> taxonomy_state \<Rightarrow> Category list \<Rightarrow> taxonomy_state" where
  "store_categories enabled st t =
     invalidate_category_tree enabled (st\<lparr>ts_db := (ts_db st)\<lparr>lb_categories := t\<rparr>\<rparr>)"

definition create_category ::
  "bool \<Rightarrow> taxonomy_state \<Rightarrow> uuid \<Rightarrow> timestamp \<Rightarrow> CategoryCreate \<Rightarrow> taxonomy_state result" where
  "create_category enabled st i now p =
     (let t = lb_categories (ts_db st) in
      case assert_slug_free t (tn_slug p) None of Inl e \<Rightarrow> Inl e
      | Inr _ \<Rightarrow>
          (case (case kc_parent_id p of None \<Rightarrow> Inr () | Some q \<Rightarrow> map_sum id (\<lambda>_. ()) (get_taxon t q)) of
             Inl e \<Rightarrow> Inl e
           | Inr _ \<Rightarrow> map_sum id (store_categories enabled st) (flush_new t (new_category i now p))))"

definition update_category ::
  "bool \<Rightarrow> taxonomy_state \<Rightarrow> uuid \<Rightarrow> CategoryUpdate \<Rightarrow> taxonomy_state result" where
  "update_category enabled st i u =
     (let t = lb_categories (ts_db st) in
      case get_taxon t i of Inl e \<Rightarrow> Inl e
      | Inr c \<Rightarrow>
          (case slug_change t u (tx_id c) of Inl e \<Rightarrow> Inl e
           | Inr _ \<Rightarrow>
               (case (case ku_parent_id u of Some (Some q) \<Rightarrow> assert_no_cycle t (tx_id c) q | _ \<Rightarrow> Inr ()) of
                  Inl e \<Rightarrow> Inl e
                | Inr _ \<Rightarrow>
                    map_sum id (store_categories enabled st)
                      (flush_changed t (null_taxon [] u \<or> ku_display_order u = Some None \<or> ku_is_active u = Some None)
                         (patch_category u c)))))"

definition delete_category :: "bool \<Rightarrow> taxonomy_state \<Rightarrow> timestamp \<Rightarrow> uuid \<Rightarrow> taxonomy_state result" where
  "delete_category enabled st now i =
     (let t = lb_categories (ts_db st) in
      case get_taxon t i of Inl e \<Rightarrow> Inl e
      | Inr c \<Rightarrow> map_sum id (store_categories enabled st)
                   (delete_taxon t (\<exists>l \<in> set (lb_book_categories (ts_db st)). bg_category_id l = tx_id c) now c))"

subsection \<open>The tree\<close>

definition link_row :: "Category list \<Rightarrow> Category \<Rightarrow> Category list \<times> (uuid \<Rightarrow> Category list)
    \<Rightarrow> Category list \<times> (uuid \<Rightarrow> Category list)" where
  "link_row rows r nodes =
     (case nodes of (roots, children) \<Rightarrow>
        (case ct_parent_id r of
           Some p \<Rightarrow> if p \<in> tx_id ` set rows then (roots, children(p := children p @ [r])) else (roots @ [r], children)
         | None \<Rightarrow> (roots @ [r], children)))"

definition link_rows :: "Category list \<Rightarrow> Category list \<times> (uuid \<Rightarrow> Category list)" where
  "link_rows rows = fold (link_row rows) rows ([], \<lambda>_. [])"

fun all_of :: "'a option list \<Rightarrow> 'a list option" where
  "all_of [] = Some []"
| "all_of (None # xs) = None"
| "all_of (Some x # xs) = map_option (Cons x) (all_of xs)"

fun read_node :: "nat \<Rightarrow> (uuid \<Rightarrow> Category list) \<Rightarrow> Category \<Rightarrow> CategoryNode option" where
  "read_node 0 children r = None"
| "read_node (Suc n) children r = map_option (CategoryNode r) (all_of (map (read_node n children) (children (tx_id r))))"

definition assemble :: "Category list \<Rightarrow> CategoryNode list option" where
  "assemble rows = (case link_rows rows of (roots, children) \<Rightarrow> all_of (map (read_node (length rows) children) roots))"

definition active_rows :: "library_db \<Rightarrow> Category list" where
  "active_rows db = sort_key (\<lambda>c. (ct_display_order c, tx_name c))
     (filter (\<lambda>c. tx_deleted_at c = None \<and> ct_is_active c) (lb_categories db))"

definition category_tree :: "bool \<Rightarrow> taxonomy_state \<Rightarrow> (taxonomy_state \<times> CategoryNode list) result" where
  "category_tree enabled st =
     (case get_category_tree enabled st of
        Some tree \<Rightarrow> Inr (st, tree)
      | None \<Rightarrow>
          (case assemble (active_rows (ts_db st)) of
             None \<Rightarrow> Inl (PyExn ''RecursionError'')
           | Some tree \<Rightarrow> Inr (set_category_tree enabled tree st, tree)))"

subsection \<open>Lemmas: what the links are\<close>

definition root_in :: "Category list \<Rightarrow> Category \<Rightarrow> bool" where
  "root_in rows r \<longleftrightarrow> (case ct_parent_id r of None \<Rightarrow> True | Some p \<Rightarrow> p \<notin> tx_id ` set rows)"

definition subs :: "Category list \<Rightarrow> uuid \<Rightarrow> Category list" where
  "subs rows i = (if i \<in> tx_id ` set rows then filter (\<lambda>r. ct_parent_id r = Some i) rows else [])"

fun preorder :: "CategoryNode \<Rightarrow> Category list" where
  "preorder (CategoryNode r cs) = r # concat (map preorder cs)"

fun well_placed :: "Category list \<Rightarrow> CategoryNode \<Rightarrow> bool" where
  "well_placed rows (CategoryNode r cs) \<longleftrightarrow> map cn_row cs = subs rows (tx_id r) \<and> (\<forall>c \<in> set cs. well_placed rows c)"

lemma link_fold:
  "fold (link_row rows) xs (roots, children) =
     (roots @ filter (root_in rows) xs,
      \<lambda>i. children i @ (if i \<in> tx_id ` set rows then filter (\<lambda>r. ct_parent_id r = Some i) xs else []))"
  by (induction xs arbitrary: roots children)
     (auto simp: link_row_def root_in_def fun_eq_iff split: option.splits)

lemma link_rows_eq: "link_rows rows = (filter (root_in rows) rows, subs rows)"
  by (simp add: link_rows_def link_fold subs_def [abs_def])

lemma all_of_map:
  "(\<And>x. x \<in> set xs \<Longrightarrow> \<exists>y. f x = Some y \<and> P x y) \<Longrightarrow> \<exists>ys. all_of (map f xs) = Some ys \<and> list_all2 P xs ys"
proof (induction xs)
  case (Cons x xs)
  then obtain y ys where "f x = Some y" "P x y" "all_of (map f xs) = Some ys" "list_all2 P xs ys" by force
  then show ?case by simp
qed simp

subsection \<open>Lemmas: chains of parents\<close>

text \<open>\<open>below rows k r c\<close>: following parents within the rows, \<open>c\<close> is \<open>k\<close> levels beneath \<open>r\<close>.\<close>

fun below :: "Category list \<Rightarrow> nat \<Rightarrow> Category \<Rightarrow> Category \<Rightarrow> bool" where
  "below rows 0 r c \<longleftrightarrow> r = c"
| "below rows (Suc k) r c \<longleftrightarrow> (\<exists>d \<in> set rows. ct_parent_id d = Some (tx_id r) \<and> below rows k d c)"

definition no_loops :: "Category list \<Rightarrow> bool" where
  "no_loops rows \<longleftrightarrow> distinct (map tx_id rows) \<and> (\<forall>c \<in> set rows. \<forall>k. \<not> below rows (Suc k) c c)"

lemma same_id: "distinct (map tx_id rows) \<Longrightarrow> a \<in> set rows \<Longrightarrow> b \<in> set rows \<Longrightarrow> tx_id a = tx_id b \<Longrightarrow> a = b"
  by (auto simp: distinct_map dest: inj_onD)

lemma below_in: "below rows k r c \<Longrightarrow> r \<in> set rows \<Longrightarrow> c \<in> set rows"
  by (induction k arbitrary: r) auto

lemma below_unique:
  assumes "distinct (map tx_id rows)"
  shows "below rows k d c \<Longrightarrow> below rows k e c \<Longrightarrow> d \<in> set rows \<Longrightarrow> e \<in> set rows \<Longrightarrow> d = e"
proof (induction k arbitrary: d e)
  case (Suc k)
  then obtain d' e' where "d' \<in> set rows" "ct_parent_id d' = Some (tx_id d)" "below rows k d' c"
      "e' \<in> set rows" "ct_parent_id e' = Some (tx_id e)" "below rows k e' c" by auto
  moreover from this Suc.IH have "d' = e'" by blast
  ultimately show ?case using Suc.prems(3,4) same_id [OF assms] by auto
qed simp

lemma below_trans: "below rows j r m \<Longrightarrow> below rows k m c \<Longrightarrow> below rows (j + k) r c"
  by (induction j arbitrary: r) auto

lemma below_split: "below rows (j + k) r c \<Longrightarrow> r \<in> set rows \<Longrightarrow> \<exists>m \<in> set rows. below rows j r m \<and> below rows k m c"
  by (induction j arbitrary: r) (auto, metis)

lemma below_step: "below rows k r p \<Longrightarrow> c \<in> set rows \<Longrightarrow> ct_parent_id c = Some (tx_id p) \<Longrightarrow> below rows (Suc k) r c"
  using below_trans [of rows k r p 1 c] by simp

definition above :: "Category list \<Rightarrow> Category \<Rightarrow> Category set" where
  "above rows c = {m \<in> set rows. \<exists>k. below rows k m c}"

lemma above_parent:
  assumes "no_loops rows" and "c \<in> set rows" and "p \<in> set rows" and "ct_parent_id c = Some (tx_id p)"
  shows "card (above rows p) < card (above rows c)"
proof (rule psubset_card_mono)
  show "finite (above rows c)" by (simp add: above_def)
  have "c \<in> above rows c" using assms(2) below.simps(1) by (auto simp: above_def intro!: exI [of _ 0])
  moreover have "c \<notin> above rows p" using assms below_step [of rows _ c p c] by (auto simp: above_def no_loops_def)
  moreover have "above rows p \<subseteq> above rows c"
    using below_step [OF _ assms(2,4)] unfolding above_def by blast
  ultimately show "above rows p \<subset> above rows c" by auto
qed

lemma parent_cases:
  assumes "c \<in> set rows"
  obtains "root_in rows c" | p where "p \<in> set rows" "ct_parent_id c = Some (tx_id p)"
  using assms by (cases "ct_parent_id c") (auto simp: root_in_def)

lemma below_bound:
  assumes "no_loops rows"
  shows "below rows k r c \<Longrightarrow> r \<in> set rows \<Longrightarrow> k < length rows"
proof -
  have "below rows k r c \<Longrightarrow> r \<in> set rows \<Longrightarrow> k < card (above rows c)"
  proof (induction k arbitrary: c)
    case 0
    then show ?case by (auto simp: above_def card_gt_0_iff intro!: exI [of _ 0])
  next
    case (Suc k)
    then obtain p where p: "p \<in> set rows" "below rows k r p" "below rows 1 p c"
      using below_split [of rows k 1 r c] by auto
    then have "card (above rows p) < card (above rows c)" using above_parent [OF assms, of c p] by auto
    with Suc.IH p Suc.prems show ?case by fastforce
  qed
  moreover have "card (above rows c) \<le> length rows"
    by (rule order_trans [OF card_mono card_length]) (auto simp: above_def)
  ultimately show "below rows k r c \<Longrightarrow> r \<in> set rows \<Longrightarrow> k < length rows" by linarith
qed

lemma root_above:
  assumes "no_loops rows" and "c \<in> set rows"
  shows "\<exists>k. \<exists>r \<in> set (filter (root_in rows) rows). below rows k r c"
  using assms(2)
proof (induction "card (above rows c)" arbitrary: c rule: less_induct)
  case less
  show ?case
  proof (cases rule: parent_cases [OF less.prems])
    case 1
    then show ?thesis using less.prems by (intro exI [of _ 0]) auto
  next
    case (2 p)
    from less.hyps [OF above_parent [OF assms(1) less.prems 2] 2(1)]
    obtain k r where "r \<in> set (filter (root_in rows) rows)" "below rows k r p" by blast
    then show ?thesis using below_step [OF _ less.prems 2(2)] by blast
  qed
qed

lemma root_not_below: "root_in rows r \<Longrightarrow> m \<in> set rows \<Longrightarrow> below rows (Suc k) m r \<Longrightarrow> False"
  using below_split [of rows k 1 m r] by (auto simp: root_in_def)

lemma root_level_unique:
  assumes "distinct (map tx_id rows)" and "below rows k r c" and "below rows k' r' c"
    and "r \<in> set (filter (root_in rows) rows)" and "r' \<in> set (filter (root_in rows) rows)"
  shows "k \<le> k'"
proof (rule ccontr)
  assume "\<not> k \<le> k'"
  then obtain j where "k = Suc j + k'" by (metis add.commute add_Suc_right less_imp_Suc_add not_le)
  then obtain m where m: "m \<in> set rows" "below rows (Suc j) r m" "below rows k' m c"
    using below_split assms(2,4) by (metis filter_is_subset subsetD)
  then have "m = r'" using below_unique [OF assms(1)] assms(3,5) by auto
  then show False using root_not_below [OF _ _ m(2)] assms(4,5) by simp
qed

subsection \<open>Lemmas: the tree holds every row once\<close>

lemma sum_of_bool_unique:
  assumes "finite S" and "\<And>x y. x \<in> S \<Longrightarrow> y \<in> S \<Longrightarrow> P x \<Longrightarrow> P y \<Longrightarrow> x = y"
  shows "(\<Sum>x\<in>S. of_bool (P x)) = (of_bool (\<exists>x\<in>S. P x) :: nat)"
proof (cases "\<exists>x\<in>S. P x")
  case True
  then obtain x where x: "x \<in> S" "P x" by blast
  then have "{y \<in> S. P y} = {x}" using assms(2) by auto
  then show ?thesis using True assms(1) by (simp add: sum_of_bool_eq Int_def)
qed (simp add: assms(1))

lemma sum_levels:
  assumes "distinct (map tx_id rows)" and "distinct xs" and "set xs \<subseteq> set rows"
  shows "sum_list (map (\<lambda>d. \<Sum>k<n. of_bool (below rows k d c)) xs)
    = (\<Sum>k<n. of_bool (\<exists>d \<in> set xs. below rows k d c) :: nat)"
proof -
  have "sum_list (map (\<lambda>d. \<Sum>k<n. of_bool (below rows k d c)) xs)
      = (\<Sum>k<n. \<Sum>d\<in>set xs. of_bool (below rows k d c) :: nat)"
    unfolding sum_list_distinct_conv_sum_set [OF assms(2)] by (rule sum.swap)
  also have "\<dots> = (\<Sum>k<n. of_bool (\<exists>d \<in> set xs. below rows k d c))"
    using below_unique [OF assms(1)] assms(3) by (intro sum.cong refl sum_of_bool_unique) (simp, blast)
  finally show ?thesis .
qed

definition node_of :: "Category list \<Rightarrow> nat \<Rightarrow> Category \<Rightarrow> CategoryNode \<Rightarrow> bool" where
  "node_of rows n r node \<longleftrightarrow> cn_row node = r \<and> well_placed rows node
     \<and> (\<forall>c. count (mset (preorder node)) c = (\<Sum>k<n. of_bool (below rows k r c)))"

lemma nodes_of_list:
  "list_all2 (node_of rows n) rs ns \<Longrightarrow> map cn_row ns = rs \<and> (\<forall>x \<in> set ns. well_placed rows x)
     \<and> count (mset (concat (map preorder ns))) c = sum_list (map (\<lambda>d. \<Sum>k<n. of_bool (below rows k d c)) rs)"
  by (induction rule: list_all2_induct) (auto simp: node_of_def)

lemma read_node_of:
  assumes "distinct (map tx_id rows)"
  shows "r \<in> set rows \<Longrightarrow> (\<And>k c. below rows k r c \<Longrightarrow> k < n) \<Longrightarrow> \<exists>node. read_node n (subs rows) r = Some node \<and> node_of rows n r node"
proof (induction n arbitrary: r)
  case 0
  then show ?case using below.simps(1) by blast
next
  case (Suc n)
  let ?ds = "subs rows (tx_id r)"
  have ds: "set ?ds = {d \<in> set rows. ct_parent_id d = Some (tx_id r)}" "distinct ?ds" "set ?ds \<subseteq> set rows"
    using Suc.prems(1) assms by (auto simp: subs_def distinct_map)
  have "\<exists>node. read_node n (subs rows) d = Some node \<and> node_of rows n d node" if "d \<in> set ?ds" for d
    using that ds(1) Suc.prems(2) [of "Suc _"] by (intro Suc.IH) auto
  then obtain ns where ns: "all_of (map (read_node n (subs rows)) ?ds) = Some ns" "list_all2 (node_of rows n) ?ds ns"
    using all_of_map [of ?ds "read_node n (subs rows)" "node_of rows n"] by blast
  have "(\<Sum>k<n. of_bool (\<exists>d \<in> set ?ds. below rows k d c)) = (\<Sum>k<n. of_bool (below rows (Suc k) r c) :: nat)" for c
    by (simp add: ds(1) Bex_def conj_ac)
  then have "node_of rows (Suc n) r (CategoryNode r ns)"
    using nodes_of_list [OF ns(2)] sum_levels [OF assms ds(2,3)]
    by (auto simp: node_of_def sum.lessThan_Suc_shift simp del: below.simps(2) sum.lessThan_Suc)
  then show ?case using ns(1) by simp
qed

lemma assemble_complete:
  assumes "no_loops rows"
  shows "\<exists>tree. assemble rows = Some tree \<and> mset (concat (map preorder tree)) = mset rows
    \<and> map cn_row tree = filter (root_in rows) rows \<and> list_all (well_placed rows) tree"
proof -
  let ?L = "length rows" and ?roots = "filter (root_in rows) rows"
  have d: "distinct (map tx_id rows)" "distinct rows" using assms by (auto simp: no_loops_def distinct_map)
  have "\<exists>node. read_node ?L (subs rows) r = Some node \<and> node_of rows ?L r node" if "r \<in> set ?roots" for r
    using that below_bound [OF assms] by (intro read_node_of [OF d(1)]) auto
  then obtain tree where t: "all_of (map (read_node ?L (subs rows)) ?roots) = Some tree"
      "list_all2 (node_of rows ?L) ?roots tree"
    using all_of_map [of ?roots "read_node ?L (subs rows)" "node_of rows ?L"] by blast
  have "count (mset (concat (map preorder tree))) c = count (mset rows) c" for c
  proof -
    have "count (mset (concat (map preorder tree))) c = (\<Sum>k<?L. of_bool (\<exists>r \<in> set ?roots. below rows k r c))"
      using nodes_of_list [OF t(2)] sum_levels [OF d(1), of ?roots] d(2) by simp
    also have "\<dots> = of_bool (\<exists>k \<in> {..<?L}. \<exists>r \<in> set ?roots. below rows k r c)"
      using root_level_unique [OF d(1)] by (intro sum_of_bool_unique) (auto intro: le_antisym)
    also have "(\<exists>k \<in> {..<?L}. \<exists>r \<in> set ?roots. below rows k r c) \<longleftrightarrow> c \<in> set rows"
      using root_above [OF assms, of c] below_bound [OF assms] below_in by fastforce
    finally show ?thesis using d(2) by (simp add: distinct_count_atmost_1)
  qed
  then have "mset (concat (map preorder tree)) = mset rows" by (rule multiset_eqI)
  then show ?thesis using t nodes_of_list [OF t(2)] by (auto simp: assemble_def link_rows_eq list_all_iff)
qed

subsection \<open>The taxonomy stays a forest\<close>

definition parent_pairs :: "Category list \<Rightarrow> (uuid \<times> uuid) set" where
  "parent_pairs t = {(p, tx_id c) | p c. c \<in> set t \<and> ct_parent_id c = Some p}"

definition forest_ok :: "Category list \<Rightarrow> bool" where
  "forest_ok t \<longleftrightarrow> distinct (map tx_id t) \<and> distinct (map tx_slug t) \<and> Domain (parent_pairs t) \<subseteq> tx_id ` set t
     \<and> acyclic (parent_pairs t)"

definition taxonomy_ok :: "bool \<Rightarrow> taxonomy_state \<Rightarrow> bool" where
  "taxonomy_ok enabled st \<longleftrightarrow> forest_ok (lb_categories (ts_db st))
     \<and> (\<forall>tree. get_category_tree enabled st = Some tree \<longrightarrow> assemble (active_rows (ts_db st)) = Some tree)"

text \<open>
  One request of the staff or a reader, the expiry of the cached tree, or any request of the
  other services of the books application, none of which writes the categories.
\<close>

inductive taxonomy_step :: "bool \<Rightarrow> taxonomy_state \<Rightarrow> taxonomy_state \<Rightarrow> bool" for enabled where
  tx_create: "create_category enabled st i now p = Inr st' \<Longrightarrow> i \<notin> tx_id ` set (lb_categories (ts_db st))
    \<Longrightarrow> taxonomy_step enabled st st'"
| tx_update: "update_category enabled st i u = Inr st' \<Longrightarrow> taxonomy_step enabled st st'"
| tx_delete: "delete_category enabled st now i = Inr st' \<Longrightarrow> taxonomy_step enabled st st'"
| tx_read: "category_tree enabled st = Inr (st', tree) \<Longrightarrow> taxonomy_step enabled st st'"
| tx_expire: "taxonomy_step enabled st (st\<lparr>ts_tree := None\<rparr>)"
| tx_other: "lb_categories db' = lb_categories (ts_db st) \<Longrightarrow> taxonomy_step enabled st (st\<lparr>ts_db := db'\<rparr>)"

lemma get_taxon_found: "get_taxon t i = Inr r \<Longrightarrow> r \<in> set t \<and> tx_id r = i \<and> tx_deleted_at r = None"
  by (auto simp: get_taxon_def split: option.splits if_splits dest: first_row_Some)

lemma parent_unique:
  assumes "distinct (map tx_id t)" and "c \<in> set t" and "(a, tx_id c) \<in> parent_pairs t"
  shows "ct_parent_id c = Some a"
  using assms same_id [OF assms(1)] by (auto simp: parent_pairs_def)

lemma walk_up_clear:
  assumes "distinct (map tx_id t)"
  shows "walk_up n t x (Some i) = Inr () \<Longrightarrow> (x, i) \<notin> (parent_pairs t)\<^sup>*"
proof (induction n arbitrary: i)
  case (Suc n)
  then obtain c where ix: "i \<noteq> x" and c: "get_taxon t i = Inr c" and w: "walk_up n t x (ct_parent_id c) = Inr ()"
    by (auto split: if_splits sum.splits)
  note r = get_taxon_found [OF c]
  show ?case
  proof
    assume "(x, i) \<in> (parent_pairs t)\<^sup>*"
    then obtain p where p: "(x, p) \<in> (parent_pairs t)\<^sup>*" "(p, i) \<in> parent_pairs t" using ix by (metis rtranclE)
    then have "ct_parent_id c = Some p" using parent_unique [OF assms] r by blast
    with Suc.IH w p(1) show False by simp
  qed
qed simp

lemma below_trancl:
  "below rows (Suc k) r c \<Longrightarrow> set rows \<subseteq> set t \<Longrightarrow> (tx_id r, tx_id c) \<in> (parent_pairs t)\<^sup>+"
proof (induction k arbitrary: r)
  case 0
  then show ?case by (auto simp: parent_pairs_def intro!: r_into_trancl)
next
  case (Suc k)
  then obtain d where d: "d \<in> set rows" "ct_parent_id d = Some (tx_id r)" "below rows (Suc k) d c" by auto
  then have "(tx_id r, tx_id d) \<in> parent_pairs t" using Suc.prems(2) by (auto simp: parent_pairs_def)
  then show ?case using Suc.IH [OF d(3) Suc.prems(2)] by (rule trancl_into_trancl2)
qed

lemma forest_no_loops:
  assumes "forest_ok (lb_categories db)"
  shows "no_loops (active_rows db)"
proof -
  have "set (active_rows db) \<subseteq> set (lb_categories db)" by (auto simp: active_rows_def)
  then have "\<not> below (active_rows db) (Suc k) c c" for c k
    using below_trancl [of "active_rows db" k c c "lb_categories db"] assms
    by (auto simp: forest_ok_def acyclic_def simp del: below.simps)
  moreover have "distinct (map tx_id (active_rows db))"
    using assms by (simp add: active_rows_def forest_ok_def distinct_map) (auto intro: inj_on_subset)
  ultimately show ?thesis by (auto simp: no_loops_def)
qed

lemma flush_changed_Inr:
  "flush_changed t nulls r = Inr t' \<longleftrightarrow>
     \<not> nulls \<and> distinct (map tx_slug t') \<and> t' = update_rows (\<lambda>x. tx_id x = tx_id r) (\<lambda>_. r) t"
  by (auto simp: flush_changed_def Let_def)

lemma forest_update:
  assumes "forest_ok t" and "c \<in> set t" and "tx_id c' = tx_id c"
    and "t' = update_rows (\<lambda>x. tx_id x = tx_id c) (\<lambda>_. c') t" and "distinct (map tx_slug t')"
    and "\<And>q. ct_parent_id c' = Some q \<Longrightarrow> ct_parent_id c = Some q \<or> (q \<in> tx_id ` set t \<and> (tx_id c, q) \<notin> (parent_pairs t)\<^sup>*)"
  shows "forest_ok t'"
proof -
  have ids: "map tx_id t' = map tx_id t" unfolding assms(4) using assms(3) by (auto intro!: map_update_same)
  have sub: "parent_pairs t' \<subseteq> parent_pairs t \<union> {(q, tx_id c) | q. ct_parent_id c' = Some q}"
    using assms(3) by (auto simp: assms(4) parent_pairs_def set_update_rows)
  have "acyclic (parent_pairs t') \<and> Domain (parent_pairs t') \<subseteq> tx_id ` set t"
  proof (cases "\<exists>q. ct_parent_id c' = Some q \<and> ct_parent_id c \<noteq> Some q")
    case True
    then obtain q where q: "ct_parent_id c' = Some q" "q \<in> tx_id ` set t" "(tx_id c, q) \<notin> (parent_pairs t)\<^sup>*"
      using assms(6) by blast
    then have "parent_pairs t' \<subseteq> insert (q, tx_id c) (parent_pairs t)" using sub by auto
    moreover have "acyclic (insert (q, tx_id c) (parent_pairs t))" using assms(1) q by (simp add: acyclic_insert forest_ok_def)
    ultimately show ?thesis using assms(1) q(2) by (auto simp: forest_ok_def intro: acyclic_subset)
  next
    case False
    then have "{(q, tx_id c) | q. ct_parent_id c' = Some q} \<subseteq> parent_pairs t"
      using assms(2) by (auto simp: parent_pairs_def)
    then have "parent_pairs t' \<subseteq> parent_pairs t" using sub by blast
    then show ?thesis using assms(1) by (auto simp: forest_ok_def intro: acyclic_subset)
  qed
  moreover have "tx_id ` set t' = tx_id ` set t" using ids by (metis list.set_map)
  ultimately show ?thesis using assms(1,5) ids by (simp add: forest_ok_def)
qed

lemma forest_insert:
  assumes "forest_ok t" and "insert_unique taxon_clash c t = Some t'" and "tx_id c \<notin> tx_id ` set t"
    and "\<And>q. ct_parent_id c = Some q \<Longrightarrow> q \<in> tx_id ` set t"
  shows "forest_ok t'"
proof -
  have t': "t' = t @ [c]" "tx_slug c \<notin> tx_slug ` set t" using assms(2) by (auto simp: insert_unique_Some taxon_clash_def)
  have pairs: "parent_pairs t' = parent_pairs t \<union> {(q, tx_id c) | q. ct_parent_id c = Some q}"
    by (auto simp: t'(1) parent_pairs_def)
  have "(tx_id c, q) \<notin> (parent_pairs t)\<^sup>*" if "ct_parent_id c = Some q" for q
  proof
    assume "(tx_id c, q) \<in> (parent_pairs t)\<^sup>*"
    moreover have "tx_id c \<notin> Domain (parent_pairs t)" using assms(1,3) by (auto simp: forest_ok_def)
    ultimately show False using assms(3) assms(4) [OF that] by (metis Domain.DomainI converse_rtranclE)
  qed
  then have "acyclic (parent_pairs t')"
    using assms(1) unfolding pairs by (cases "ct_parent_id c") (simp_all add: forest_ok_def acyclic_insert)
  moreover have "Domain (parent_pairs t') \<subseteq> tx_id ` set t"
    using assms(1,4) unfolding pairs forest_ok_def by fastforce
  ultimately show ?thesis using assms(1,3) t' by (auto simp: forest_ok_def)
qed

lemma store_ok:
  "forest_ok t \<Longrightarrow> taxonomy_ok enabled (store_categories enabled st t)"
  by (simp add: taxonomy_ok_def store_categories_def invalidate_category_tree_def get_category_tree_def)

lemma create_category_forest:
  assumes "create_category enabled st i now p = Inr st'" and "forest_ok (lb_categories (ts_db st))"
    and "i \<notin> tx_id ` set (lb_categories (ts_db st))"
  shows "\<exists>t. st' = store_categories enabled st t \<and> forest_ok t"
proof -
  let ?t = "lb_categories (ts_db st)" and ?c = "new_category i now p"
  obtain t' where st': "st' = store_categories enabled st t'" "insert_unique taxon_clash ?c ?t = Some t'"
    using assms(1) by (auto simp: create_category_def Let_def flush_new_def map_sum_Inr split: sum.splits option.splits)
  have c: "tx_id ?c = i" "ct_parent_id ?c = kc_parent_id p"
    by (simp_all add: new_category_def new_taxon_def taxon.defs Category.defs)
  have "q \<in> tx_id ` set ?t" if "kc_parent_id p = Some q" for q
  proof -
    have "\<exists>r. get_taxon ?t q = Inr r"
      using assms(1) that by (auto simp: create_category_def Let_def map_sum_Inr split: sum.splits option.splits)
    then show ?thesis using get_taxon_found by fastforce
  qed
  then have "forest_ok t'" using forest_insert [OF assms(2) st'(2)] assms(3) c by simp
  with st'(1) show ?thesis by blast
qed

lemma update_category_forest:
  assumes "update_category enabled st i u = Inr st'" and "forest_ok (lb_categories (ts_db st))"
  shows "\<exists>t. st' = store_categories enabled st t \<and> forest_ok t"
proof -
  let ?t = "lb_categories (ts_db st)"
  obtain c t' where c: "get_taxon ?t i = Inr c"
    and p: "(case ku_parent_id u of Some (Some q) \<Rightarrow> assert_no_cycle ?t (tx_id c) q | _ \<Rightarrow> Inr ()) = Inr ()"
    and st': "st' = store_categories enabled st t'" "distinct (map tx_slug t')"
      "t' = update_rows (\<lambda>x. tx_id x = tx_id (patch_category u c)) (\<lambda>_. patch_category u c) ?t"
    using assms(1) by (auto simp: update_category_def Let_def map_sum_Inr flush_changed_Inr split: sum.splits)
  note r = get_taxon_found [OF c]
  have same: "tx_id (patch_category u c) = tx_id c" "ct_parent_id (patch_category u c) = patched_opt (ku_parent_id u) (ct_parent_id c)"
    by (simp_all add: patch_category_def patch_taxon_def)
  have "q \<in> tx_id ` set ?t \<and> (tx_id c, q) \<notin> (parent_pairs ?t)\<^sup>*" if "ku_parent_id u = Some (Some q)" for q
  proof -
    have w: "walk_up (MAX_CATEGORY_DEPTH + 1) ?t (tx_id c) (Some q) = Inr ()"
      using p that by (simp add: assert_no_cycle_def split: if_splits)
    then have "\<exists>r. get_taxon ?t q = Inr r" by (auto split: if_splits sum.splits)
    moreover have "(tx_id c, q) \<notin> (parent_pairs ?t)\<^sup>*"
      using assms(2) by (intro walk_up_clear [OF _ w]) (simp add: forest_ok_def)
    ultimately show ?thesis using get_taxon_found by fastforce
  qed
  then have "forest_ok t'"
    using st' same r by (intro forest_update [OF assms(2), of c "patch_category u c"]) (auto simp: patched_opt_def split: option.splits)
  with st'(1) show ?thesis by blast
qed

lemma delete_category_forest:
  assumes "delete_category enabled st now i = Inr st'" and "forest_ok (lb_categories (ts_db st))"
  shows "\<exists>t. st' = store_categories enabled st t \<and> forest_ok t"
proof -
  let ?t = "lb_categories (ts_db st)" and ?f = "\<lambda>x :: Category. x\<lparr>tx_deleted_at := Some now\<rparr>"
  obtain c :: Category where st': "st' = store_categories enabled st (update_rows (\<lambda>x. tx_id x = tx_id c) ?f ?t)"
    using assms(1) by (auto simp: delete_category_def delete_taxon_def Let_def map_sum_Inr split: sum.splits if_splits)
  have same: "map tx_id (update_rows P ?f ?t) = map tx_id ?t" "map tx_slug (update_rows P ?f ?t) = map tx_slug ?t"
      "map (\<lambda>x. (ct_parent_id x, tx_id x)) (update_rows P ?f ?t) = map (\<lambda>x. (ct_parent_id x, tx_id x)) ?t" for P
    by (auto intro!: map_update_same)
  have pairs: "parent_pairs t = {(q, j). (Some q, j) \<in> set (map (\<lambda>x. (ct_parent_id x, tx_id x)) t)}" for t
    by (force simp: parent_pairs_def)
  have "parent_pairs (update_rows P ?f ?t) = parent_pairs ?t" for P by (simp only: pairs same(3))
  moreover have "tx_id ` set (update_rows P ?f ?t) = tx_id ` set ?t" for P using same(1) by (metis list.set_map)
  ultimately have "forest_ok (update_rows P ?f ?t)" for P using assms(2) same(1,2) by (simp add: forest_ok_def)
  with st' show ?thesis by blast
qed

lemma category_tree_effect:
  assumes "category_tree enabled st = Inr (st', tree)" and "taxonomy_ok enabled st"
  shows "taxonomy_ok enabled st' \<and> ts_db st' = ts_db st \<and> assemble (active_rows (ts_db st)) = Some tree"
  using assms
  by (auto simp: category_tree_def taxonomy_ok_def get_category_tree_def set_category_tree_def split: option.splits if_splits)

lemma taxonomy_step_ok:
  assumes "taxonomy_step enabled st st'" and "taxonomy_ok enabled st"
  shows "taxonomy_ok enabled st'"
  using assms
proof (induction rule: taxonomy_step.induct)
  case (tx_create st i now p st')
  then show ?case using create_category_forest store_ok by (metis taxonomy_ok_def)
next
  case (tx_update st i u st')
  then show ?case using update_category_forest store_ok by (metis taxonomy_ok_def)
next
  case (tx_delete st now i st')
  then show ?case using delete_category_forest store_ok by (metis taxonomy_ok_def)
next
  case (tx_read st st' tree)
  then show ?case using category_tree_effect by blast
next
  case (tx_expire st)
  then show ?case by (simp add: taxonomy_ok_def get_category_tree_def)
next
  case (tx_other db' st)
  then show ?case by (simp add: taxonomy_ok_def get_category_tree_def active_rows_def)
qed

text \<open>
  C28: The category tree shows the taxonomy. After any sequence of category requests, tree reads
  and cache expiries the tree route answers, from the cache or not, with a forest that holds
  every active category that is not deleted exactly once, each under its own parent and in
  order; a category whose parent is hidden becomes a root. The parents never form a cycle and
  slugs stay unique.
\<close>

theorem category_tree_complete:
  assumes "(taxonomy_step enabled)\<^sup>*\<^sup>* st st'" and "taxonomy_ok enabled st"
  shows "\<exists>st'' tree. category_tree enabled st' = Inr (st'', tree)
    \<and> mset (concat (map preorder tree)) = filter_mset (\<lambda>c. tx_deleted_at c = None \<and> ct_is_active c) (mset (lb_categories (ts_db st')))
    \<and> map cn_row tree = filter (root_in (active_rows (ts_db st'))) (active_rows (ts_db st'))
    \<and> list_all (well_placed (active_rows (ts_db st'))) tree
    \<and> acyclic (parent_pairs (lb_categories (ts_db st'))) \<and> distinct (map tx_slug (lb_categories (ts_db st')))"
proof -
  let ?rows = "active_rows (ts_db st')"
  have ok: "taxonomy_ok enabled st'" using assms by (induction rule: rtranclp_induct) (auto intro: taxonomy_step_ok)
  then have f: "forest_ok (lb_categories (ts_db st'))" by (simp add: taxonomy_ok_def)
  from assemble_complete [OF forest_no_loops [OF f]]
  obtain tree where t: "assemble ?rows = Some tree" "mset (concat (map preorder tree)) = mset ?rows"
    "map cn_row tree = filter (root_in ?rows) ?rows" "list_all (well_placed ?rows) tree" by blast
  have "\<exists>st''. category_tree enabled st' = Inr (st'', tree)"
    using ok t(1) by (auto simp: category_tree_def taxonomy_ok_def split: option.splits)
  moreover have "mset ?rows = filter_mset (\<lambda>c. tx_deleted_at c = None \<and> ct_is_active c) (mset (lb_categories (ts_db st')))"
    by (simp add: active_rows_def)
  ultimately show ?thesis using t f by (auto simp: forest_ok_def)
qed

text \<open>
  The check for cycles reads the tree of its own transaction. Two categories moved under each
  other at the same time both pass it; neither is then reachable from a root, and both vanish
  from the tree.
\<close>

definition sample_category :: "uuid \<Rightarrow> string \<Rightarrow> uuid option \<Rightarrow> Category" where
  "sample_category i slug parent = \<lparr>tx_id = i, tx_name = slug, tx_slug = slug, tx_columns = [], tx_deleted_at = None,
     tx_created_at = 0, ct_parent_id = parent, ct_display_order = 0, ct_is_active = True\<rparr>"

lemma concurrent_moves_hide_categories:
  "assert_no_cycle [sample_category 1 ''a'' None, sample_category 2 ''b'' None] 1 2 = Inr ()
   \<and> assert_no_cycle [sample_category 1 ''a'' None, sample_category 2 ''b'' None] 2 1 = Inr ()
   \<and> assemble [sample_category 1 ''a'' (Some 2), sample_category 2 ''b'' (Some 1)] = Some []"
  by code_simp

subsection \<open>Witnesses\<close>

definition sample_taxonomy :: taxonomy_state where
  "sample_taxonomy = \<lparr>ts_db = empty_library\<lparr>lb_categories := [sample_category 1 ''a'' None]\<rparr>, ts_tree = None\<rparr>"

definition sample_new_category :: CategoryCreate where
  "sample_new_category = \<lparr>tn_name = ''b'', tn_slug = ''b'', tn_columns = [], kc_parent_id = Some 1, kc_display_order = 0,
     kc_is_active = True\<rparr>"

definition sample_grown :: taxonomy_state where
  "sample_grown = (case create_category True sample_taxonomy 2 0 sample_new_category of Inr st \<Rightarrow> st | _ \<Rightarrow> sample_taxonomy)"

theorem category_tree_complete_witness:
  "(\<exists>st'' tree. category_tree True sample_grown = Inr (st'', tree)
     \<and> mset (concat (map preorder tree)) = filter_mset (\<lambda>c. tx_deleted_at c = None \<and> ct_is_active c) (mset (lb_categories (ts_db sample_grown))))
   \<and> map tx_id (lb_categories (ts_db sample_grown)) = [1, 2]"
proof -
  have "create_category True sample_taxonomy 2 0 sample_new_category = Inr sample_grown" by code_simp
  then have "taxonomy_step True sample_taxonomy sample_grown"
    by (rule tx_create) (simp add: sample_taxonomy_def sample_category_def)
  then have run: "(taxonomy_step True)\<^sup>*\<^sup>* sample_taxonomy sample_grown" ..
  have "parent_pairs [sample_category 1 ''a'' None] = {}" by (auto simp: parent_pairs_def sample_category_def)
  then have "taxonomy_ok True sample_taxonomy"
    by (simp add: taxonomy_ok_def sample_taxonomy_def forest_ok_def get_category_tree_def acyclic_def)
  from category_tree_complete [OF run this]
  have "\<exists>st'' tree. category_tree True sample_grown = Inr (st'', tree)
     \<and> mset (concat (map preorder tree)) = filter_mset (\<lambda>c. tx_deleted_at c = None \<and> ct_is_active c) (mset (lb_categories (ts_db sample_grown)))"
    by blast
  moreover have "map tx_id (lb_categories (ts_db sample_grown)) = [1, 2]" by code_simp
  ultimately show ?thesis by blast
qed

end
