(* ===== verification/Search_Documents.thy ===== *)
theory Search_Documents
  imports Books_Taxonomy Service_Client
begin

section \<open>Search documents\<close>

text \<open>
  What the books service tells the search service of a book, an author or a category (the
  response models of \<open>apps/books/schemas.py\<close>), and the index document the search service makes
  of it (\<open>apps/search/services/documents.py\<close>).

  Floats and the parsing of ISO dates are parameters: \<open>rd_float\<close> is \<open>float(x)\<close>, \<open>rd_rating\<close> the
  JSON number of a rating kept in thousandths, \<open>rd_iso\<close> the text of a moment, \<open>rd_timestamp\<close> and
  \<open>rd_popularity\<close> the helpers \<open>_timestamp\<close> and \<open>_popularity\<close>. The SHA-256 of the canonical JSON is a
  parameter of the indexer. The column \<open>updated_at\<close>, which no reader uses, is left out.
\<close>

record rendering =
  rd_float :: "json \<Rightarrow> json"
  rd_rating :: "int \<Rightarrow> json"
  rd_iso :: "timestamp \<Rightarrow> string"
  rd_timestamp :: "json \<Rightarrow> json"
  rd_popularity :: "jobj \<Rightarrow> json"

definition jopt :: "('a \<Rightarrow> json) \<Rightarrow> 'a option \<Rightarrow> json" where
  "jopt f x = (case x of None \<Rightarrow> JNull | Some v \<Rightarrow> f v)"

definition json_int :: "json \<Rightarrow> int result" where
  "json_int v =
     (case v of JInt n \<Rightarrow> Inr n | JBool b \<Rightarrow> Inr (if b then 1 else 0)
      | JStr s \<Rightarrow> (case py_int s of None \<Rightarrow> Inl (PyExn ''ValueError'') | Some n \<Rightarrow> Inr n)
      | _ \<Rightarrow> Inl (PyExn ''TypeError''))"

subsection \<open>Response models\<close>

definition taxon_summary :: "string \<Rightarrow> 'z taxon_scheme \<Rightarrow> jobj" where
  "taxon_summary column r =
     [(''id'', JStr (str_uuid (tx_id r))), (''name'', JStr (tx_name r)), (''slug'', JStr (tx_slug r)),
      (column, jget_null (tx_columns r) column)]"

definition author_out :: "rendering \<Rightarrow> taxon \<Rightarrow> jobj" where
  "author_out rd r = taxon_summary ''avatar_key'' r
     @ [(''bio'', jget_null (tx_columns r) ''bio''), (''website'', jget_null (tx_columns r) ''website''),
        (''socials'', get_or (tx_columns r) ''socials'' (JObj [])),
        (''is_featured'', get_or (tx_columns r) ''is_featured'' (JBool False)),
        (''created_at'', JStr (rd_iso rd (tx_created_at r)))]"

definition category_out :: "rendering \<Rightarrow> Category \<Rightarrow> jobj" where
  "category_out rd c = taxon_summary ''icon'' c
     @ [(''description'', jget_null (tx_columns c) ''description''),
        (''parent_id'', jopt (\<lambda>p. JStr (str_uuid p)) (ct_parent_id c)), (''display_order'', JInt (ct_display_order c)),
        (''is_active'', JBool (ct_is_active c)), (''created_at'', JStr (rd_iso rd (tx_created_at c)))]"

definition linked_authors :: "library_db \<Rightarrow> uuid \<Rightarrow> taxon list" where
  "linked_authors db book_id =
     List.map_filter (\<lambda>l. first_row (\<lambda>a. tx_id a = ba_author_id l) (lb_authors db))
       (sort_key ba_display_order (filter (\<lambda>l. ba_book_id l = book_id) (lb_book_authors db)))"

definition linked_categories :: "library_db \<Rightarrow> uuid \<Rightarrow> Category list" where
  "linked_categories db book_id =
     List.map_filter (\<lambda>l. first_row (\<lambda>c. tx_id c = bg_category_id l) (lb_categories db))
       (filter (\<lambda>l. bg_book_id l = book_id) (lb_book_categories db))"

definition book_list_item :: "rendering \<Rightarrow> library_db \<Rightarrow> catalogue_book \<Rightarrow> jobj" where
  "book_list_item rd db b =
     [(''id'', JStr (str_uuid (bk_id b))), (''slug'', JStr (cb_slug b)), (''title'', JStr (cb_title b)),
      (''subtitle'', jopt JStr (cb_subtitle b)), (''status'', JStr (book_status_text (bk_status b))),
      (''language'', JStr (cb_language b)), (''price_minor'', JInt (bk_price_minor b)),
      (''discount_price_minor'', jopt JInt (bk_discount_price_minor b)),
      (''effective_price_minor'', JInt (effective_price_minor (book_row.truncate b))),
      (''currency'', jget_null (cb_columns b) ''currency''), (''cover_key'', jopt JStr (cb_cover_key b)),
      (''thumbnail_key'', jget_null (cb_columns b) ''thumbnail_key''),
      (''available_formats'', JArr (map JStr (available_formats b))), (''rating_average'', rd_rating rd (cb_rating_average b)),
      (''rating_count'', JInt (cb_rating_count b)), (''view_count'', JInt (cb_view_count b)),
      (''published_at'', jopt (\<lambda>t. JStr (rd_iso rd t)) (cb_published_at b)),
      (''authors'', JArr (map (\<lambda>a. JObj (taxon_summary ''avatar_key'' a)) (linked_authors db (bk_id b)))),
      (''categories'', JArr (map (\<lambda>c. JObj (taxon_summary ''icon'' c)) (linked_categories db (bk_id b))))]"

text \<open>
  \<open>BookDetail\<close> of a row whose authors, categories and publisher are loaded, as \<open>get_by_id\<close> loads
  them, or that names no publisher; the listing that does not load it is \<open>listed_detail\<close> of
  \<open>Search_Index\<close>.
\<close>

definition book_detail :: "rendering \<Rightarrow> library_db \<Rightarrow> catalogue_book \<Rightarrow> jobj" where
  "book_detail rd db b = book_list_item rd db b
     @ [(''description'', jget_null (cb_columns b) ''description''), (''isbn10'', jopt JStr (cb_isbn10 b)),
        (''isbn13'', jopt JStr (cb_isbn13 b)), (''page_count'', jget_null (cb_columns b) ''page_count''),
        (''publication_date'', jget_null (cb_columns b) ''publication_date''),
        (''meta_title'', jget_null (cb_columns b) ''meta_title''),
        (''meta_description'', jget_null (cb_columns b) ''meta_description''),
        (''og_image_key'', jget_null (cb_columns b) ''og_image_key''), (''ai_summary'', jget_null (cb_columns b) ''ai_summary''),
        (''ai_tags'', get_or (cb_columns b) ''ai_tags'' (JArr [])), (''download_count'', JInt (cb_download_count b)),
        (''version'', JInt (int (cb_version b))), (''has_sample'', JBool (truthy (cb_sample_key b))),
        (''publisher'', jopt (\<lambda>p. jopt (\<lambda>r. JObj (taxon_summary ''logo_key'' r)) (first_row (\<lambda>r. tx_id r = p) (lb_publishers db)))
           (cb_publisher_id b)),
        (''contributors'', JArr (map (\<lambda>l. JObj [(''author'', jopt (\<lambda>a. JObj (taxon_summary ''avatar_key'' a))
             (first_row (\<lambda>a. tx_id a = ba_author_id l) (lb_authors db))),
           (''role'', JStr (ba_role l)), (''display_order'', JInt (ba_display_order l))])
           (sort_key ba_display_order (filter (\<lambda>l. ba_book_id l = bk_id b) (lb_book_authors db))))),
        (''created_at'', JStr (rd_iso rd (cb_created_at b)))]"

subsection \<open>Index documents\<close>

definition SEARCH_PRICE_BUCKETS :: "(string \<times> int \<times> int option) list" where
  "SEARCH_PRICE_BUCKETS = [(''free'', 0, Some 0), (''under_199'', 1, Some 19900), (''199_499'', 19901, Some 49900),
     (''499_999'', 49901, Some 99900), (''over_999'', 99901, None)]"

definition price_bucket :: "int \<Rightarrow> string" where
  "price_bucket price_minor =
     (case find (\<lambda>(_, low, high). low \<le> price_minor \<and> (case high of None \<Rightarrow> True | Some h \<Rightarrow> price_minor \<le> h)) SEARCH_PRICE_BUCKETS of
        Some (label, _) \<Rightarrow> label | None \<Rightarrow> ''over_999'')"

fun person :: "json \<Rightarrow> jobj list" where
  "person (JObj e) =
     (let name = str_strip (json_str (jor (jor (jget_null e ''name'') (jget_null e ''title'')) (JStr '''')))
      in if name = '''' then []
         else [[(''id'', JStr (json_str (get_or e ''id'' (JStr '''')))), (''slug'', JStr (json_str (get_or e ''slug'' (JStr '''')))),
                (''name'', JStr name)]])"
| "person (JStr s) = (if str_strip s = '''' then [] else [[(''id'', JStr ''''), (''slug'', JStr ''''), (''name'', JStr (str_strip s))]])"
| "person _ = []"

definition people :: "json \<Rightarrow> jobj list" where
  "people raw = (case raw of JArr es \<Rightarrow> concat (map person es) | _ \<Rightarrow> [])"

definition name_of :: "json \<Rightarrow> json" where
  "name_of raw =
     (case raw of JObj d \<Rightarrow> (let n = jget_null d ''name'' in if jtruthy n then JStr (json_str n) else JNull)
      | _ \<Rightarrow> if jtruthy raw then JStr (json_str raw) else JNull)"

definition strings_of :: "json \<Rightarrow> json" where
  "strings_of raw =
     JArr (case raw of JArr es \<Rightarrow> map JStr (filter (\<lambda>s. s \<noteq> '''') (map (\<lambda>e. str_strip (json_str e)) es)) | _ \<Rightarrow> [])"

definition field_list :: "string \<Rightarrow> jobj list \<Rightarrow> json" where
  "field_list k ps = JArr (filter jtruthy (map (\<lambda>p. jget_null p k) ps))"

definition build_book_document :: "rendering \<Rightarrow> jobj \<Rightarrow> jobj result" where
  "build_book_document rd book =
     (let get = jget_null book; authors = people (get ''authors''); categories = people (get ''categories'');
          text = (\<lambda>k d. JStr (json_str (jor (get k) (JStr d))))
      in case json_int (if get ''effective_price_minor'' \<noteq> JNull then get ''effective_price_minor''
                        else jor (get ''price_minor'') (JInt 0)) of
           Inl e \<Rightarrow> Inl e
         | Inr price_minor \<Rightarrow>
             (case json_int (jor (get ''rating_count'') (JInt 0)) of
                Inl e \<Rightarrow> Inl e
              | Inr rating_count \<Rightarrow>
                  (case json_int (jor (get ''review_count'') (JInt rating_count)) of
                     Inl e \<Rightarrow> Inl e
                   | Inr review_count \<Rightarrow>
                       Inr [(''id'', JStr (json_str (get_or book ''id'' (JStr '''')))),
                            (''slug'', JStr (json_str (get_or book ''slug'' (JStr '''')))), (''title'', text ''title'' ''''),
                            (''subtitle'', get ''subtitle''), (''description'', text ''description'' ''''),
                            (''summary'', get ''summary''), (''authors'', JArr (map JObj authors)),
                            (''author_names'', field_list ''name'' authors), (''author_slugs'', field_list ''slug'' authors),
                            (''author_ids'', field_list ''id'' authors), (''categories'', JArr (map JObj categories)),
                            (''category_names'', field_list ''name'' categories),
                            (''category_slugs'', field_list ''slug'' categories), (''category_ids'', field_list ''id'' categories),
                            (''tags'', strings_of (jor (get ''ai_tags'') (get ''tags''))),
                            (''formats'', strings_of (jor (get ''available_formats'') (get ''formats''))),
                            (''language'', text ''language'' ''en''), (''publisher'', name_of (get ''publisher'')),
                            (''isbn'', jor (jor (get ''isbn13'') (get ''isbn10'')) (get ''isbn'')),
                            (''price_minor'', JInt price_minor), (''currency'', text ''currency'' ''INR''),
                            (''compare_at_price_minor'',
                               if get ''discount_price_minor'' \<noteq> JNull then get ''price_minor'' else get ''compare_at_price_minor''),
                            (''is_free'', JBool (price_minor = 0)), (''price_bucket'', JStr (price_bucket price_minor)),
                            (''rating_average'', rd_float rd (if get ''rating_average'' \<noteq> JNull then get ''rating_average'' else JInt 0)),
                            (''rating_count'', JInt rating_count), (''review_count'', JInt review_count),
                            (''cover_url'', get ''cover_url''), (''cover_key'', get ''cover_key''),
                            (''thumbnail_key'', get ''thumbnail_key''), (''page_count'', get ''page_count''),
                            (''reading_minutes'', get ''reading_minutes''), (''status'', text ''status'' ''published''),
                            (''published_at'', get ''published_at''), (''published_at_ts'', rd_timestamp rd (get ''published_at'')),
                            (''created_at_ts'', rd_timestamp rd (get ''created_at'')), (''popularity'', rd_popularity rd book)])))"

definition build_author_document :: "rendering \<Rightarrow> jobj \<Rightarrow> jobj result" where
  "build_author_document rd author =
     (case json_int (jor (jget_null author ''book_count'') (JInt 0)) of Inl e \<Rightarrow> Inl e
      | Inr book_count \<Rightarrow>
          Inr [(''id'', JStr (json_str (get_or author ''id'' (JStr '''')))), (''slug'', JStr (json_str (get_or author ''slug'' (JStr '''')))),
               (''name'', JStr (json_str (jor (jget_null author ''name'') (JStr '''')))), (''bio'', jget_null author ''bio''),
               (''avatar_url'', jget_null author ''avatar_url''), (''book_count'', JInt book_count),
               (''rating_average'', rd_float rd (jor (jget_null author ''rating_average'') (JInt 0))),
               (''is_featured'', JBool (jtruthy (get_or author ''is_featured'' (JBool False))))])"

definition build_category_document :: "jobj \<Rightarrow> jobj result" where
  "build_category_document category =
     (case json_int (jor (jget_null category ''book_count'') (JInt 0)) of Inl e \<Rightarrow> Inl e
      | Inr book_count \<Rightarrow>
          (case json_int (jor (jget_null category ''position'') (JInt 0)) of Inl e \<Rightarrow> Inl e
           | Inr position \<Rightarrow>
               Inr [(''id'', JStr (json_str (get_or category ''id'' (JStr '''')))),
                    (''slug'', JStr (json_str (get_or category ''slug'' (JStr '''')))),
                    (''name'', JStr (json_str (jor (jget_null category ''name'') (JStr '''')))),
                    (''description'', jget_null category ''description''), (''parent_slug'', jget_null category ''parent_slug''),
                    (''icon'', jget_null category ''icon''), (''book_count'', JInt book_count), (''position'', JInt position),
                    (''is_active'', JBool (jtruthy (get_or category ''is_active'' (JBool True))))]))"

definition doc_id :: "jobj \<Rightarrow> string" where
  "doc_id d = json_str (get_or d ''id'' (JStr ''''))"

subsection \<open>Lemmas\<close>

lemma price_bucket_cases:
  assumes "0 \<le> p"
  shows "price_bucket p = (if p = 0 then ''free'' else if p \<le> 19900 then ''under_199'' else if p \<le> 49900 then ''199_499''
    else if p \<le> 99900 then ''499_999'' else ''over_999'')"
  using assms by (auto simp: price_bucket_def SEARCH_PRICE_BUCKETS_def)

lemma build_book_document_ok:
  assumes "jget_null book ''effective_price_minor'' = JInt p" and "jget_null book ''rating_count'' = JInt n"
    and "jget_null book ''review_count'' = JNull"
  shows "\<exists>d. build_book_document rd book = Inr d \<and> doc_id d = doc_id book \<and> jget_null d ''id'' = JStr (doc_id book)
    \<and> map_of d ''status'' = Some (JStr (json_str (jor (jget_null book ''status'') (JStr ''published''))))
    \<and> map_of d ''price_minor'' = Some (JInt p)"
proof -
  have "json_int (jor (JInt n) (JInt 0)) = Inr n" "json_int (jor JNull (JInt n)) = Inr n" by (auto simp: json_int_def jor_def)
  then show ?thesis
    unfolding build_book_document_def Let_def assms by (simp add: json_int_def doc_id_def get_or_def jget_def jget_null_def [of "_ # _"])
qed

lemma book_detail_fields:
  "jget_null (book_detail rd db b) ''effective_price_minor'' = JInt (effective_price_minor (book_row.truncate b))"
  "jget_null (book_detail rd db b) ''rating_count'' = JInt (cb_rating_count b)"
  "jget_null (book_detail rd db b) ''review_count'' = JNull"
  "jget_null (book_detail rd db b) ''status'' = JStr (book_status_text (bk_status b))"
  "doc_id (book_detail rd db b) = str_uuid (bk_id b)"
  by (simp_all add: book_detail_def book_list_item_def jget_null_def doc_id_def get_or_def jget_def)

lemma book_detail_document:
  "\<exists>d. build_book_document rd (book_detail rd db b) = Inr d \<and> doc_id d = str_uuid (bk_id b) \<and> jtruthy (jget_null d ''id'')
     \<and> map_of d ''status'' = Some (JStr (book_status_text (bk_status b)))
     \<and> map_of d ''price_minor'' = Some (JInt (effective_price_minor (book_row.truncate b)))"
proof -
  have "jor (JStr (book_status_text (bk_status b))) (JStr ''published'') = JStr (book_status_text (bk_status b))"
    by (cases "bk_status b") (simp_all add: jor_def)
  then show ?thesis
    using build_book_document_ok [OF book_detail_fields(1-3) [of rd db b], of rd] unfolding book_detail_fields by auto
qed

lemma author_document:
  "\<exists>d. build_author_document rd (author_out rd a) = Inr d \<and> doc_id d = str_uuid (tx_id a) \<and> jtruthy (jget_null d ''id'')"
  by (simp add: build_author_document_def author_out_def taxon_summary_def jget_null_def get_or_def jget_def json_int_def
      jor_def doc_id_def)

end
