(* ===== verification/Search_Index.thy ===== *)
theory Search_Index
  imports Search_Documents Event_Bus
begin

section \<open>The search index\<close>

text \<open>
  \<open>apps/search/services/catalogue.py\<close> (the walk over the books service), \<open>services/indexer.py\<close>
  (ledger, event handler, bulk writes, rebuilds) and the operations of \<open>routers/admin.py\<close> that
  write the index, together with the listings of the books service they read
  (\<open>apps/books/routers/admin.py\<close>).

  The engine is an external service; what is used of it is documented behaviour: a document is
  stored under its primary key and replaces the one stored before, deleting an absent key is
  no error, and each request succeeds or raises. Its answers are the parameter \<open>search_engine\<close>,
  its contents part of the state. The engine applies accepted documents after a while; here it
  applies them at once. The catalogue does not change during one walk.
\<close>

subsection \<open>The listings of the books service\<close>

text \<open>
  \<open>limit\<close> is between 1 and 100 in every listing; other values are refused before the handler runs.
  The book listing then cuts it to \<open>max_cursor_limit\<close>, which is 100 as shipped.
\<close>

definition MAX_PAGE_SIZE :: nat where
  "MAX_PAGE_SIZE = 100"

definition checked_limit :: "nat \<Rightarrow> nat result" where
  "checked_limit limit = (if 1 \<le> limit \<and> limit \<le> MAX_PAGE_SIZE then Inr limit else Inl RequestValidationExn)"

text \<open>A list comprehension over a call that may raise: the first exception ends it.\<close>

fun build_all :: "('a \<Rightarrow> 'b result) \<Rightarrow> 'a list \<Rightarrow> 'b list result" where
  "build_all build [] = Inr []"
| "build_all build (r # rs) =
     (case build r of Inl e \<Rightarrow> Inl e | Inr d \<Rightarrow> map_sum id (Cons d) (build_all build rs))"

text \<open>
  The listing loads authors and categories of its rows but not their publisher, and the
  relationship \<open>Book.publisher\<close> is \<open>raise_on_sql\<close>: reading it emits no query when \<open>publisher_id\<close> is
  null and raises otherwise, which the validation of \<open>BookDetail\<close> reports as its own error.
\<close>

definition listed_detail :: "rendering \<Rightarrow> library_db \<Rightarrow> catalogue_book \<Rightarrow> jobj result" where
  "listed_detail rd db b =
     (if cb_publisher_id b \<noteq> None then Inl (PyExn ''ValidationError'') else Inr (book_detail rd db b))"

definition internal_list_books ::
  "rendering \<Rightarrow> library_db \<Rightarrow> nat \<Rightarrow> catalogue_cursor option \<Rightarrow> (jobj list \<times> catalogue_cursor option) result" where
  "internal_list_books rd db limit cursor =
     (case checked_limit limit of
        Inl e \<Rightarrow> Inl e
      | Inr n \<Rightarrow>
          (case list_books db no_filters ''published_at'' ''desc'' (map_option Some cursor) n True of
             Inl e \<Rightarrow> Inl e
           | Inr (rows, next_cursor, _) \<Rightarrow> map_sum id (\<lambda>items. (items, next_cursor)) (build_all (listed_detail rd db) rows)))"

text \<open>The author and category listings page by number; the cursor of the request is not a parameter of theirs.\<close>

definition offset_cursor :: "nat \<Rightarrow> nat \<Rightarrow> nat \<Rightarrow> nat option" where
  "offset_cursor page limit total_rows = (if page * limit \<ge> total_rows then None else Some (page + 1))"

definition internal_list_authors ::
  "rendering \<Rightarrow> library_db \<Rightarrow> nat \<Rightarrow> nat option \<Rightarrow> (jobj list \<times> nat option) result" where
  "internal_list_authors rd db limit cursor =
     (case checked_limit limit of
        Inl e \<Rightarrow> Inl e
      | Inr n \<Rightarrow>
          (case list_authors db 1 n None False ''name'' ''asc'' of
             Inl e \<Rightarrow> Inl e
           | Inr (rows, total_rows) \<Rightarrow> Inr (map (author_out rd) rows, offset_cursor 1 n total_rows)))"

definition internal_list_categories ::
  "rendering \<Rightarrow> library_db \<Rightarrow> nat \<Rightarrow> nat option \<Rightarrow> (jobj list \<times> nat option) result" where
  "internal_list_categories rd db limit cursor =
     (case checked_limit limit of
        Inl e \<Rightarrow> Inl e
      | Inr n \<Rightarrow>
          (case list_categories db 1 n None ''display_order'' ''asc'' of
             Inl e \<Rightarrow> Inl e
           | Inr (rows, total_rows) \<Rightarrow> Inr (map (category_out rd) rows, offset_cursor 1 n total_rows)))"

text \<open>The client's view of a handler: an answer, or the upstream error its status becomes.\<close>

definition over_http :: "'a result \<Rightarrow> 'a result" where
  "over_http r =
     (case r of Inr x \<Rightarrow> Inr x
      | Inl e \<Rightarrow> (case handle_exception e of
                   (status, code) \<Rightarrow> Inl (app_error UpstreamError (Some code) (Some (if status < 500 then status else 502)))))"

subsection \<open>The walk over the catalogue\<close>

datatype walk_end = WalkDone | WalkRaised exn | WalkRunning

text \<open>
  \<open>_iter_pages\<close>: the pages yielded and how the walk ends. The loop may run as long as the
  server sends cursors; \<open>WalkRunning\<close> is a walk still going after the given number of requests.
\<close>

fun iter_pages ::
  "nat \<Rightarrow> ('c option \<Rightarrow> ('r list \<times> 'c option) result) \<Rightarrow> nat option \<Rightarrow> nat \<Rightarrow> 'c option \<Rightarrow> 'r list list \<times> walk_end" where
  "iter_pages 0 get_page max_documents seen cursor = ([], WalkRunning)"
| "iter_pages (Suc n) get_page max_documents seen cursor =
     (case get_page cursor of
        Inl e \<Rightarrow> ([], WalkRaised e)
      | Inr (items, next_cursor) \<Rightarrow>
          if items = [] then ([], WalkDone)
          else
            let items' = (case max_documents of None \<Rightarrow> items
                          | Some m \<Rightarrow> if seen + length items > m then take (m - seen) items else items);
                seen' = seen + length items'
            in if next_cursor = None \<or> (case max_documents of None \<Rightarrow> False | Some m \<Rightarrow> seen' \<ge> m) then ([items'], WalkDone)
               else (case iter_pages n get_page max_documents seen' next_cursor of (pages, ending) \<Rightarrow> (items' # pages, ending)))"

definition gateway_get_book :: "jobj result \<Rightarrow> jobj option result" where
  "gateway_get_book answer =
     (case answer of
        Inr d \<Rightarrow> Inr (Some d)
      | Inl e \<Rightarrow> (case e of AppExn UpstreamError _ status \<Rightarrow> if status = 404 then Inr None else Inl e | _ \<Rightarrow> Inl e))"

subsection \<open>State and engine\<close>

record IndexedDocument =
  il_index :: string
  il_document_id :: string
  il_checksum :: string
  il_last_event_id :: "string option"
  il_last_event_type :: "string option"
  il_revision :: nat
  il_indexed_at :: timestamp
  il_deleted_at :: "timestamp option"

datatype run_status = RunRunning | RunSucceeded | RunFailed exn

record ReindexRun =
  rr_id :: uuid
  rr_index_name :: string
  rr_mode :: string
  rr_status :: run_status
  rr_seen :: nat
  rr_indexed :: nat
  rr_deleted :: nat
  rr_failed :: nat
  rr_started_at :: timestamp
  rr_finished_at :: "timestamp option"

record search_state =
  ss_ledger :: "IndexedDocument list"
  ss_engine :: "string \<Rightarrow> string \<Rightarrow> jobj option"
  ss_runs :: "ReindexRun list"

record search_engine =
  ge_add :: "string \<Rightarrow> jobj list \<Rightarrow> unit result"
  ge_delete :: "string \<Rightarrow> string list \<Rightarrow> unit result"
  ge_clear :: "string \<Rightarrow> unit result"

definition put_documents :: "jobj list \<Rightarrow> (string \<Rightarrow> jobj option) \<Rightarrow> string \<Rightarrow> jobj option" where
  "put_documents docs contents = fold (\<lambda>d c. c(doc_id d \<mapsto> d)) docs contents"

definition drop_documents :: "string list \<Rightarrow> (string \<Rightarrow> jobj option) \<Rightarrow> string \<Rightarrow> jobj option" where
  "drop_documents ids contents = (\<lambda>i. if i \<in> set ids then None else contents i)"

definition on_index :: "string \<Rightarrow> ((string \<Rightarrow> jobj option) \<Rightarrow> (string \<Rightarrow> jobj option)) \<Rightarrow> search_state \<Rightarrow> search_state" where
  "on_index index f st = st\<lparr>ss_engine := (ss_engine st)(index := f (ss_engine st index))\<rparr>"

subsection \<open>The ledger\<close>

definition ledger_get :: "IndexedDocument list \<Rightarrow> string \<Rightarrow> string \<Rightarrow> IndexedDocument option" where
  "ledger_get t index document_id = first_row (\<lambda>r. il_index r = index \<and> il_document_id r = document_id) t"

definition should_apply ::
  "IndexedDocument list \<Rightarrow> string \<Rightarrow> string \<Rightarrow> string option \<Rightarrow> string option \<Rightarrow> bool \<Rightarrow> bool" where
  "should_apply t index document_id event_id content_hash force =
     (if force then True
      else case ledger_get t index document_id of
        None \<Rightarrow> True
      | Some existing \<Rightarrow>
          if truthy event_id \<and> il_last_event_id existing = event_id then False
          else if truthy content_hash \<and> Some (il_checksum existing) = content_hash \<and> il_deleted_at existing = None then False
          else True)"

text \<open>
  \<open>record\<close> reads the committed rows \<open>t0\<close> of its session (flushing is deferred to the commit) and
  changes the row it finds, or adds one.
\<close>

definition ledger_record ::
  "IndexedDocument list \<Rightarrow> string \<Rightarrow> string \<Rightarrow> string option \<Rightarrow> string option \<Rightarrow> bool \<Rightarrow> timestamp
     \<Rightarrow> string \<Rightarrow> IndexedDocument list \<Rightarrow> IndexedDocument list" where
  "ledger_record t0 index document_id event_id event_type deleted now content_hash t =
     (case ledger_get t0 index document_id of
        None \<Rightarrow> t @ [\<lparr>il_index = index, il_document_id = document_id, il_checksum = content_hash, il_last_event_id = event_id,
                    il_last_event_type = event_type, il_revision = 1, il_indexed_at = now,
                    il_deleted_at = (if deleted then Some now else None)\<rparr>]
      | Some _ \<Rightarrow> update_rows (\<lambda>r. il_index r = index \<and> il_document_id r = document_id)
                   (\<lambda>r. r\<lparr>il_checksum := content_hash, il_last_event_id := event_id, il_last_event_type := event_type,
                          il_revision := il_revision r + 1, il_indexed_at := now,
                          il_deleted_at := (if deleted then Some now else None)\<rparr>) t)"

definition ledger_key :: "IndexedDocument \<Rightarrow> string \<times> string" where
  "ledger_key r = (il_index r, il_document_id r)"

definition commit_ledger :: "IndexedDocument list \<Rightarrow> IndexedDocument list result" where
  "commit_ledger t = (if distinct (map ledger_key t) then Inr t else Inl (PyExn ''IntegrityError''))"

definition live_ids :: "IndexedDocument list \<Rightarrow> string \<Rightarrow> string list" where
  "live_ids t index = map il_document_id (filter (\<lambda>r. il_index r = index \<and> il_deleted_at r = None) t)"

definition mark_missing_deleted ::
  "IndexedDocument list \<Rightarrow> string \<Rightarrow> timestamp \<Rightarrow> string list \<Rightarrow> IndexedDocument list \<times> string list" where
  "mark_missing_deleted t index now keep_ids =
     (let stale = sort (remdups (filter (\<lambda>i. i \<notin> set keep_ids) (live_ids t index)))
      in (update_rows (\<lambda>r. il_index r = index \<and> il_document_id r \<in> set stale) (\<lambda>r. r\<lparr>il_deleted_at := Some now\<rparr>) t, stale))"

subsection \<open>Bulk writes\<close>

fun batches_of :: "nat \<Rightarrow> 'a list \<Rightarrow> 'a list list" where
  "batches_of n [] = []"
| "batches_of n (x # xs) = (x # take (n - 1) xs) # batches_of n (drop (n - 1) xs)"

definition is_unavailable :: "exn \<Rightarrow> bool" where
  "is_unavailable e = (case e of AppExn ServiceUnavailableError _ _ \<Rightarrow> True | _ \<Rightarrow> False)"

text \<open>
  \<open>_push_batches\<close>: the batches are sent concurrently; the ones the engine takes are stored even
  when another finds it unavailable and the whole call raises.
\<close>

definition push_batches ::
  "search_engine \<Rightarrow> nat \<Rightarrow> string \<Rightarrow> jobj list \<Rightarrow> search_state \<Rightarrow> search_state \<times> (jobj list \<times> nat) result" where
  "push_batches eng batch_size index documents st =
     (let batches = batches_of (max 1 batch_size) documents;
          taken = concat (filter (\<lambda>b. ge_add eng index b = Inr ()) batches);
          errors = List.map_filter (\<lambda>b. case ge_add eng index b of Inl e \<Rightarrow> Some (e, length b) | Inr _ \<Rightarrow> None) batches;
          st' = on_index index (put_documents taken) st
      in case find (\<lambda>(e, _). is_unavailable e) errors of
           Some (e, _) \<Rightarrow> (st', Inl e)
         | None \<Rightarrow> (st', Inr (taken, sum_list (map snd errors))))"

definition index_documents ::
  "search_engine \<Rightarrow> nat \<Rightarrow> (jobj \<Rightarrow> string) \<Rightarrow> timestamp \<Rightarrow> string \<Rightarrow> jobj list \<Rightarrow> string option \<Rightarrow> string option \<Rightarrow> bool
     \<Rightarrow> search_state \<Rightarrow> search_state \<times> (nat \<times> nat \<times> nat) result" where
  "index_documents eng batch_size hash now index documents event_id event_type force st =
     (let t = ss_ledger st; named = filter (\<lambda>d. doc_id d \<noteq> '''') documents;
          fresh = (\<lambda>d. should_apply t index (doc_id d) event_id (Some (hash d)) force);
          pending = filter fresh named; skipped = length (filter (\<lambda>d. \<not> fresh d) named)
      in if pending = [] then (st, Inr (0, skipped, 0))
         else case push_batches eng batch_size index pending st of
           (st1, Inl e) \<Rightarrow> (st1, Inl e)
         | (st1, Inr (accepted, failed)) \<Rightarrow>
             (case commit_ledger (fold (\<lambda>d. ledger_record t index (doc_id d) event_id event_type False now (hash d)) accepted t) of
                Inl e \<Rightarrow> (st1, Inl e)
              | Inr t' \<Rightarrow> (st1\<lparr>ss_ledger := t'\<rparr>, Inr (length accepted, skipped, failed))))"

definition search_delete_documents ::
  "search_engine \<Rightarrow> timestamp \<Rightarrow> string \<Rightarrow> string list \<Rightarrow> search_state \<Rightarrow> search_state \<times> nat result" where
  "search_delete_documents eng now index document_ids st =
     (if document_ids = [] then (st, Inr 0)
      else case ge_delete eng index document_ids of
        Inl e \<Rightarrow> (st, Inl e)
      | Inr _ \<Rightarrow>
          (let t = ss_ledger st; st1 = on_index index (drop_documents document_ids) st
           in case commit_ledger (fold (\<lambda>i. ledger_record t index i None (Some ''manual.delete'') True now '''') document_ids t) of
                Inl e \<Rightarrow> (st1, Inl e)
              | Inr t' \<Rightarrow> (st1\<lparr>ss_ledger := t'\<rparr>, Inr (length document_ids))))"

subsection \<open>Events\<close>

definition UPSERT_EVENTS :: "string list" where
  "UPSERT_EVENTS = [''book.published'', ''book.updated'']"

definition REMOVE_EVENTS :: "string list" where
  "REMOVE_EVENTS = [''book.unpublished'', ''book.deleted'']"

text \<open>\<open>_load_book\<close>; \<open>answer k\<close> is what the books service says when asked for the \<open>k\<close>-th time.\<close>

definition load_book :: "(nat \<Rightarrow> jobj result) \<Rightarrow> jobj \<Rightarrow> jobj option result" where
  "load_book answer payload =
     (case gateway_get_book (answer 0) of
        Inr (Some book) \<Rightarrow> Inr (Some book)
      | _ \<Rightarrow> if jtruthy (jget_null payload ''title'') \<and> jtruthy (jget_null payload ''slug'') then Inr (Some payload)
             else gateway_get_book (answer 1))"

definition remove_and_record ::
  "search_engine \<Rightarrow> timestamp \<Rightarrow> string \<Rightarrow> string \<Rightarrow> string option \<Rightarrow> string \<Rightarrow> search_state \<Rightarrow> search_state \<times> string result" where
  "remove_and_record eng now index book_id event_id event_type st =
     (case ge_delete eng index [book_id] of
        Inl e \<Rightarrow> (st, Inl e)
      | Inr _ \<Rightarrow>
          ((on_index index (drop_documents [book_id]) st)
             \<lparr>ss_ledger := ledger_record (ss_ledger st) index book_id event_id (Some event_type) True now '''' (ss_ledger st)\<rparr>,
           Inr ''removed''))"

definition search_book_event ::
  "search_engine \<Rightarrow> rendering \<Rightarrow> (jobj \<Rightarrow> string) \<Rightarrow> timestamp \<Rightarrow> string \<Rightarrow> (nat \<Rightarrow> jobj result) \<Rightarrow> event
     \<Rightarrow> search_state \<Rightarrow> search_state \<times> string result" where
  "search_book_event eng rd hash now index answer ev st =
     (let payload = (case ev_payload ev of JObj d \<Rightarrow> d | _ \<Rightarrow> []);
          book_id = json_str (jor (jor (jget_null payload ''book_id'') (jget_null payload ''id'')) (JStr ''''))
      in if book_id = '''' then (st, Inr ''ignored'')
         else if ev_type ev \<in> set REMOVE_EVENTS then
           (if \<not> should_apply (ss_ledger st) index book_id (Some (ev_id ev)) None False then (st, Inr ''duplicate'')
            else remove_and_record eng now index book_id (Some (ev_id ev)) (ev_type ev) st)
         else if ev_type ev \<notin> set UPSERT_EVENTS then (st, Inr ''ignored'')
         else case load_book answer payload of
           Inl e \<Rightarrow> (st, Inl e)
         | Inr None \<Rightarrow> remove_and_record eng now index book_id (Some (ev_id ev)) (ev_type ev) st
         | Inr (Some book) \<Rightarrow>
             (case build_book_document rd book of
                Inl e \<Rightarrow> (st, Inl e)
              | Inr document \<Rightarrow>
                  if \<not> should_apply (ss_ledger st) index book_id (Some (ev_id ev)) (Some (hash document)) False
                  then (st, Inr ''duplicate'')
                  else case ge_add eng index [document] of
                    Inl e \<Rightarrow> (st, Inl e)
                  | Inr _ \<Rightarrow>
                      ((on_index index (put_documents [document]) st)
                         \<lparr>ss_ledger := ledger_record (ss_ledger st) index book_id (Some (ev_id ev)) (Some (ev_type ev)) False now
                            (hash document) (ss_ledger st)\<rparr>, Inr ''indexed'')))"

text \<open>
  \<open>index_book_ids\<close>: the engine is written book by book, the ledger once at the end; a raise on the
  way keeps the writes to the engine and rolls the ledger back.
\<close>

fun index_each ::
  "search_engine \<Rightarrow> rendering \<Rightarrow> (jobj \<Rightarrow> string) \<Rightarrow> timestamp \<Rightarrow> string \<Rightarrow> (string \<Rightarrow> nat \<Rightarrow> jobj result) \<Rightarrow> IndexedDocument list
     \<Rightarrow> string list \<Rightarrow> IndexedDocument list \<Rightarrow> nat \<Rightarrow> nat \<Rightarrow> search_state \<Rightarrow> search_state \<times> (IndexedDocument list \<times> nat \<times> nat) result" where
  "index_each eng rd hash now index answer t0 [] t indexed missing st = (st, Inr (t, indexed, missing))"
| "index_each eng rd hash now index answer t0 (i # ids) t indexed missing st =
     (case load_book (answer i) [] of
        Inl e \<Rightarrow> (st, Inl e)
      | Inr None \<Rightarrow>
          (case ge_delete eng index [i] of
             Inl e \<Rightarrow> (st, Inl e)
           | Inr _ \<Rightarrow>
               index_each eng rd hash now index answer t0 ids
                 (ledger_record t0 index i None (Some ''automation.index'') True now '''' t) indexed (missing + 1)
                 (on_index index (drop_documents [i]) st))
      | Inr (Some book) \<Rightarrow>
          (case build_book_document rd book of
             Inl e \<Rightarrow> (st, Inl e)
           | Inr document \<Rightarrow>
               (case ge_add eng index [document] of
                  Inl e \<Rightarrow> (st, Inl e)
                | Inr _ \<Rightarrow>
                    index_each eng rd hash now index answer t0 ids
                      (ledger_record t0 index i None (Some ''automation.index'') False now (hash document) t) (indexed + 1) missing
                      (on_index index (put_documents [document]) st))))"

definition index_book_ids ::
  "search_engine \<Rightarrow> rendering \<Rightarrow> (jobj \<Rightarrow> string) \<Rightarrow> timestamp \<Rightarrow> string \<Rightarrow> (string \<Rightarrow> nat \<Rightarrow> jobj result) \<Rightarrow> string list
     \<Rightarrow> search_state \<Rightarrow> search_state \<times> (nat \<times> nat) result" where
  "index_book_ids eng rd hash now index answer book_ids st =
     (case index_each eng rd hash now index answer (ss_ledger st) book_ids (ss_ledger st) 0 0 st of
        (st1, Inl e) \<Rightarrow> (st1, Inl e)
      | (st1, Inr (t, indexed, missing)) \<Rightarrow>
          (case commit_ledger t of Inl e \<Rightarrow> (st1, Inl e) | Inr t' \<Rightarrow> (st1\<lparr>ss_ledger := t'\<rparr>, Inr (indexed, missing))))"

subsection \<open>Rebuilds\<close>

record run_counts =
  rc_seen :: nat
  rc_indexed :: nat
  rc_failed :: nat
  rc_keep :: "string list"

fun index_pages ::
  "search_engine \<Rightarrow> nat \<Rightarrow> (jobj \<Rightarrow> string) \<Rightarrow> timestamp \<Rightarrow> string \<Rightarrow> string \<Rightarrow> bool \<Rightarrow> (jobj \<Rightarrow> jobj result)
     \<Rightarrow> jobj list list \<Rightarrow> run_counts \<Rightarrow> search_state \<Rightarrow> search_state \<times> run_counts result" where
  "index_pages eng batch_size hash now index mode force build [] c st = (st, Inr c)"
| "index_pages eng batch_size hash now index mode force build (p # ps) c st =
     (case build_all build p of
        Inl e \<Rightarrow> (st, Inl e)
      | Inr built \<Rightarrow>
          (let docs = filter (\<lambda>d. jtruthy (jget_null d ''id'')) built in
           case index_documents eng batch_size hash now index docs None (Some (mode @ ''.run'')) (force \<or> mode = ''full'') st of
             (st1, Inl e) \<Rightarrow> (st1, Inl e)
           | (st1, Inr (added, _, batch_failed)) \<Rightarrow>
               index_pages eng batch_size hash now index mode force build ps
                 \<lparr>rc_seen = rc_seen c + length docs, rc_indexed = rc_indexed c + added, rc_failed = rc_failed c + batch_failed,
                  rc_keep = rc_keep c @ map doc_id docs\<rparr> st1))"

definition empty_index :: "timestamp \<Rightarrow> string \<Rightarrow> search_state \<Rightarrow> search_state" where
  "empty_index now index st =
     (on_index index (\<lambda>_. Map.empty) st)
       \<lparr>ss_ledger := update_rows (\<lambda>r. il_index r = index) (\<lambda>r. r\<lparr>il_deleted_at := Some now\<rparr>) (ss_ledger st)\<rparr>"

definition sweep_missing ::
  "search_engine \<Rightarrow> timestamp \<Rightarrow> string \<Rightarrow> string list \<Rightarrow> search_state \<Rightarrow> search_state \<times> nat result" where
  "sweep_missing eng now index keep_ids st =
     (case mark_missing_deleted (ss_ledger st) index now keep_ids of
        (t', stale) \<Rightarrow>
          if stale = [] then (st\<lparr>ss_ledger := t'\<rparr>, Inr 0)
          else case ge_delete eng index stale of
            Inl e \<Rightarrow> (st, Inl e)
          | Inr _ \<Rightarrow> ((on_index index (drop_documents stale) st)\<lparr>ss_ledger := t'\<rparr>, Inr (length stale)))"

text \<open>\<open>_execute\<close>; \<open>walk\<close> is the walk of \<open>_pages_for\<close>, \<open>None\<close> without a configured catalogue.\<close>

definition execute_run ::
  "search_engine \<Rightarrow> nat \<Rightarrow> (jobj \<Rightarrow> string) \<Rightarrow> timestamp \<Rightarrow> string \<Rightarrow> string \<Rightarrow> bool \<Rightarrow> (jobj \<Rightarrow> jobj result)
     \<Rightarrow> (jobj list list \<times> walk_end) option \<Rightarrow> search_state \<Rightarrow> search_state \<times> (nat \<times> nat \<times> nat \<times> nat) result" where
  "execute_run eng batch_size hash now index mode force build walk st =
     (case walk of
        None \<Rightarrow> (st, Inl (raise_code ServiceUnavailableError ''catalogue_unavailable''))
      | Some (pages, walk_end) \<Rightarrow>
          (case (if mode = ''full'' then ge_clear eng index else Inr ()) of
             Inl e \<Rightarrow> (st, Inl e)
           | Inr _ \<Rightarrow>
               (case index_pages eng batch_size hash now index mode force build pages
                       \<lparr>rc_seen = 0, rc_indexed = 0, rc_failed = 0, rc_keep = []\<rparr>
                       (if mode = ''full'' then empty_index now index st else st) of
                  (st1, Inl e) \<Rightarrow> (st1, Inl e)
                | (st1, Inr c) \<Rightarrow>
                    (case walk_end of
                       WalkRaised e \<Rightarrow> (st1, Inl e)
                     | WalkRunning \<Rightarrow> (st1, Inl (PyExn ''still running''))
                     | WalkDone \<Rightarrow>
                         if mode = ''reconcile'' \<and> rc_keep c \<noteq> [] then
                           (case sweep_missing eng now index (rc_keep c) st1 of
                              (st2, Inl e) \<Rightarrow> (st2, Inl e)
                            | (st2, Inr deleted) \<Rightarrow> (st2, Inr (rc_seen c, rc_indexed c, deleted, rc_failed c)))
                         else (st1, Inr (rc_seen c, rc_indexed c, 0, rc_failed c))))))"

definition run_reindex ::
  "search_engine \<Rightarrow> nat \<Rightarrow> (jobj \<Rightarrow> string) \<Rightarrow> timestamp \<Rightarrow> uuid \<Rightarrow> string \<Rightarrow> string \<Rightarrow> bool \<Rightarrow> (jobj \<Rightarrow> jobj result)
     \<Rightarrow> (jobj list list \<times> walk_end) option \<Rightarrow> search_state \<Rightarrow> search_state \<times> ReindexRun" where
  "run_reindex eng batch_size hash now run_id index mode force build walk st =
     (let run = \<lparr>rr_id = run_id, rr_index_name = index, rr_mode = mode, rr_status = RunRunning, rr_seen = 0, rr_indexed = 0,
                 rr_deleted = 0, rr_failed = 0, rr_started_at = now, rr_finished_at = None\<rparr>
      in case execute_run eng batch_size hash now index mode force build walk (st\<lparr>ss_runs := ss_runs st @ [run]\<rparr>) of
           (st1, outcome) \<Rightarrow>
             (let stored = (case outcome of
                     Inr (seen, indexed, deleted, failed) \<Rightarrow>
                       run\<lparr>rr_status := RunSucceeded, rr_seen := seen, rr_indexed := indexed, rr_deleted := deleted,
                           rr_failed := failed, rr_finished_at := Some now\<rparr>
                   | Inl e \<Rightarrow> run\<lparr>rr_status := RunFailed e, rr_finished_at := Some now\<rparr>)
              in (st1\<lparr>ss_runs := update_rows (\<lambda>r. rr_id r = run_id) (\<lambda>_. stored) (ss_runs st1)\<rparr>, stored)))"

text \<open>The three walks of \<open>_pages_for\<close> against the books service, with at most \<open>fuel\<close> requests.\<close>

definition walk_books :: "nat \<Rightarrow> rendering \<Rightarrow> library_db \<Rightarrow> nat \<Rightarrow> nat \<Rightarrow> jobj list list \<times> walk_end" where
  "walk_books fuel rd db page_size max_documents =
     iter_pages fuel (\<lambda>c. over_http (internal_list_books rd db page_size c)) (Some max_documents) 0 None"

definition walk_authors :: "nat \<Rightarrow> rendering \<Rightarrow> library_db \<Rightarrow> nat \<Rightarrow> nat \<Rightarrow> jobj list list \<times> walk_end" where
  "walk_authors fuel rd db page_size max_documents =
     iter_pages fuel (\<lambda>c. over_http (internal_list_authors rd db page_size c)) (Some max_documents) 0 None"

definition walk_categories :: "nat \<Rightarrow> rendering \<Rightarrow> library_db \<Rightarrow> nat \<Rightarrow> nat \<Rightarrow> jobj list list \<times> walk_end" where
  "walk_categories fuel rd db page_size max_documents =
     iter_pages fuel (\<lambda>c. over_http (internal_list_categories rd db page_size c)) (Some max_documents) 0 None"

subsection \<open>Lemmas: the ledger\<close>

lemma ledger_get_append:
  "ledger_get (t @ [r]) ix i = (case ledger_get t ix i of Some x \<Rightarrow> Some x | None \<Rightarrow> if ledger_key r = (ix, i) then Some r else None)"
  by (auto simp: ledger_get_def ledger_key_def first_row_append split: option.splits)

lemma ledger_get_update:
  assumes "\<And>r. ledger_key (f r) = ledger_key r"
  shows "ledger_get (update_rows P f t) ix i = map_option (\<lambda>r. if P r then f r else r) (ledger_get t ix i)"
proof (induction t)
  case (Cons r t)
  then show ?case using assms [of r] by (auto simp: ledger_get_def first_row_def update_rows_def ledger_key_def)
qed (simp add: ledger_get_def first_row_def update_rows_def)

lemma ledger_get_key: "ledger_get t ix i = Some r \<Longrightarrow> r \<in> set t \<and> ledger_key r = (ix, i)"
  by (auto simp: ledger_get_def ledger_key_def dest: first_row_Some)

lemma ledger_get_None: "ledger_get t ix i = None \<longleftrightarrow> (ix, i) \<notin> ledger_key ` set t"
  by (auto simp: ledger_get_def ledger_key_def first_row_None)

lemma ledger_get_member:
  assumes "distinct (map ledger_key t)" and "r \<in> set t"
  shows "ledger_get t (il_index r) (il_document_id r) = Some r"
proof -
  obtain x where x: "ledger_get t (il_index r) (il_document_id r) = Some x"
    using assms(2) ledger_get_None [of t "il_index r" "il_document_id r"] by (force simp: ledger_key_def)
  then have "x \<in> set t" "ledger_key x = ledger_key r" using ledger_get_key by (auto simp: ledger_key_def)
  with assms x show ?thesis by (auto simp: distinct_map dest: inj_onD)
qed

text \<open>What one \<open>record\<close> does, as long as its session has not touched the document before.\<close>

lemma ledger_record_effect:
  assumes "distinct (map ledger_key t)" and "ledger_get t0 ix i = None \<longleftrightarrow> ledger_get t ix i = None"
  shows "\<exists>r. (\<forall>iy j. ledger_get (ledger_record t0 ix i ev ty del now h t) iy j = (if (iy, j) = (ix, i) then Some r else ledger_get t iy j))
      \<and> il_checksum r = h \<and> il_deleted_at r = (if del then Some now else None) \<and> il_last_event_id r = ev
      \<and> distinct (map ledger_key (ledger_record t0 ix i ev ty del now h t))"
proof (cases "ledger_get t0 ix i")
  case None
  then have none: "ledger_get t ix i = None" using assms(2) by simp
  define r where "r = \<lparr>il_index = ix, il_document_id = i, il_checksum = h, il_last_event_id = ev, il_last_event_type = ty,
    il_revision = 1, il_indexed_at = now, il_deleted_at = (if del then Some now else None)\<rparr>"
  have t': "ledger_record t0 ix i ev ty del now h t = t @ [r]" by (simp add: ledger_record_def None r_def)
  have k: "ledger_key r = (ix, i)" "il_checksum r = h" "il_deleted_at r = (if del then Some now else None)" "il_last_event_id r = ev"
    by (simp_all add: ledger_key_def r_def)
  have "ledger_get (t @ [r]) iy j = (if (iy, j) = (ix, i) then Some r else ledger_get t iy j)" for iy j
    using none k(1) by (auto simp: ledger_get_append split: option.splits)
  moreover have "distinct (map ledger_key (t @ [r]))" using assms(1) none k(1) by (simp add: ledger_get_None)
  ultimately show ?thesis unfolding t' using k(2-) by blast
next
  case (Some x)
  then obtain y where y: "ledger_get t ix i = Some y" using assms(2) by fastforce
  define P where "P r \<longleftrightarrow> il_index r = ix \<and> il_document_id r = i" for r :: IndexedDocument
  define f where "f r = r\<lparr>il_checksum := h, il_last_event_id := ev, il_last_event_type := ty, il_revision := il_revision r + 1,
    il_indexed_at := now, il_deleted_at := (if del then Some now else None)\<rparr>" for r :: IndexedDocument
  have t': "ledger_record t0 ix i ev ty del now h t = update_rows P f t"
    by (simp add: ledger_record_def Some P_def [abs_def] f_def [abs_def])
  have f: "ledger_key (f r) = ledger_key r" "il_checksum (f r) = h" "il_deleted_at (f r) = (if del then Some now else None)"
      "il_last_event_id (f r) = ev" for r
    by (simp_all add: ledger_key_def f_def)
  have P: "P r \<longleftrightarrow> ledger_key r = (ix, i)" for r by (simp add: P_def ledger_key_def)
  have "map_option (\<lambda>r. if P r then f r else r) (ledger_get t iy j) = (if (iy, j) = (ix, i) then Some (f y) else ledger_get t iy j)" for iy j
  proof (cases "(iy, j) = (ix, i)")
    case True
    then show ?thesis using y ledger_get_key [OF y] by (simp add: P)
  next
    case False
    then have "\<not> P r" if "ledger_get t iy j = Some r" for r using ledger_get_key [OF that] by (auto simp: P)
    then show ?thesis using False by (cases "ledger_get t iy j") auto
  qed
  moreover have "map ledger_key (update_rows P f t) = map ledger_key t" using f(1) by (auto intro!: map_update_same)
  ultimately have "\<forall>iy j. ledger_get (update_rows P f t) iy j = (if (iy, j) = (ix, i) then Some (f y) else ledger_get t iy j)"
      "distinct (map ledger_key (update_rows P f t))"
    using assms(1) ledger_get_update [of f P t, OF f(1)] by simp_all
  then show ?thesis unfolding t' using f(2-) by blast
qed

lemma ledger_records:
  assumes "distinct (map doc_id ds)" and "distinct (map ledger_key t)"
    and "\<And>d. d \<in> set ds \<Longrightarrow> ledger_get t0 ix (doc_id d) = None \<longleftrightarrow> ledger_get t ix (doc_id d) = None"
  shows "let t' = fold (\<lambda>d. ledger_record t0 ix (doc_id d) ev ty False now (hash d)) ds t
    in distinct (map ledger_key t')
      \<and> (\<forall>iy j. (iy, j) \<notin> (\<lambda>d. (ix, doc_id d)) ` set ds \<longrightarrow> ledger_get t' iy j = ledger_get t iy j)
      \<and> (\<forall>d \<in> set ds. \<exists>r. ledger_get t' ix (doc_id d) = Some r \<and> il_checksum r = hash d \<and> il_deleted_at r = None)"
  using assms
proof (induction ds arbitrary: t)
  case (Cons d ds)
  let ?t1 = "ledger_record t0 ix (doc_id d) ev ty False now (hash d) t"
  obtain r where r: "\<And>iy j. ledger_get ?t1 iy j = (if (iy, j) = (ix, doc_id d) then Some r else ledger_get t iy j)"
      "il_checksum r = hash d" "il_deleted_at r = None" "distinct (map ledger_key ?t1)"
    using ledger_record_effect [OF Cons.prems(2) Cons.prems(3), of d ev ty False now "hash d"] by auto
  have "ledger_get t0 ix (doc_id e) = None \<longleftrightarrow> ledger_get ?t1 ix (doc_id e) = None" if "e \<in> set ds" for e
  proof -
    have "doc_id e \<noteq> doc_id d" using that Cons.prems(1) by (metis distinct.simps(2) image_eqI list.set_map list.simps(9))
    then show ?thesis using Cons.prems(3) [of e] that r(1) by simp
  qed
  from Cons.IH [OF _ r(4) this] Cons.prems(1)
  have ih: "let t' = fold (\<lambda>d. ledger_record t0 ix (doc_id d) ev ty False now (hash d)) ds ?t1
    in distinct (map ledger_key t')
      \<and> (\<forall>iy j. (iy, j) \<notin> (\<lambda>d. (ix, doc_id d)) ` set ds \<longrightarrow> ledger_get t' iy j = ledger_get ?t1 iy j)
      \<and> (\<forall>d \<in> set ds. \<exists>r. ledger_get t' ix (doc_id d) = Some r \<and> il_checksum r = hash d \<and> il_deleted_at r = None)"
    by simp
  moreover have "(ix, doc_id d) \<notin> (\<lambda>d. (ix, doc_id d)) ` set ds" using Cons.prems(1) by auto
  ultimately show ?case using r by (auto simp: Let_def)
qed simp

subsection \<open>Lemmas: ledger and engine agree\<close>

definition entry_ok :: "(jobj \<Rightarrow> string) \<Rightarrow> IndexedDocument option \<Rightarrow> jobj option \<Rightarrow> bool" where
  "entry_ok hash row stored \<longleftrightarrow>
     (case row of None \<Rightarrow> stored = None
      | Some r \<Rightarrow> if il_deleted_at r = None then map_option hash stored = Some (il_checksum r) else stored = None)"

definition truthful :: "(jobj \<Rightarrow> string) \<Rightarrow> string \<Rightarrow> search_state \<Rightarrow> bool" where
  "truthful hash ix st \<longleftrightarrow> distinct (map ledger_key (ss_ledger st))
     \<and> (\<forall>i. entry_ok hash (ledger_get (ss_ledger st) ix i) (ss_engine st ix i))"

definition collision_free :: "(jobj \<Rightarrow> string) \<Rightarrow> (string \<Rightarrow> jobj option) \<Rightarrow> jobj list \<Rightarrow> bool" where
  "collision_free hash contents ds \<longleftrightarrow>
     (\<forall>d \<in> set ds. \<forall>d'. contents (doc_id d) = Some d' \<longrightarrow> hash d' = hash d \<longrightarrow> d' = d)"

lemma truthful_entry: "truthful hash ix st \<Longrightarrow> entry_ok hash (ledger_get (ss_ledger st) ix i) (ss_engine st ix i)"
  by (simp add: truthful_def)

lemma truthfulD:
  "truthful hash ix st \<Longrightarrow> ledger_get (ss_ledger st) ix i = Some r \<Longrightarrow> il_deleted_at r = None
     \<Longrightarrow> map_option hash (ss_engine st ix i) = Some (il_checksum r)"
  using truthful_entry [of hash ix st i] by (simp add: entry_ok_def)

lemma truthful_keys: "truthful hash ix st \<Longrightarrow> distinct (map ledger_key (ss_ledger st))"
  by (simp add: truthful_def)

lemma put_documents_other: "i \<notin> doc_id ` set ds \<Longrightarrow> put_documents ds c i = c i"
  unfolding put_documents_def by (induction ds arbitrary: c) auto

lemma put_documents_member: "distinct (map doc_id ds) \<Longrightarrow> d \<in> set ds \<Longrightarrow> put_documents ds c (doc_id d) = Some d"
proof (induction ds arbitrary: c)
  case (Cons e ds)
  have step: "put_documents (e # ds) c = put_documents ds (c(doc_id e \<mapsto> e))" by (simp add: put_documents_def)
  show ?case
  proof (cases "d = e")
    case True
    then show ?thesis using Cons.prems(1) put_documents_other [of "doc_id e" ds] unfolding step by simp
  next
    case False
    then show ?thesis using Cons unfolding step by simp
  qed
qed simp

lemma concat_batches [simp]: "concat (batches_of n xs) = xs"
  by (induction n xs rule: batches_of.induct) simp_all

lemma push_batches_healthy:
  assumes "\<And>b. ge_add eng ix b = Inr ()"
  shows "push_batches eng n ix ds st = (on_index ix (put_documents ds) st, Inr (ds, 0))"
proof -
  have "List.map_filter (\<lambda>b. case ge_add eng ix b of Inl e \<Rightarrow> Some (e, length b) | Inr _ \<Rightarrow> None) bs = []" for bs
    by (induction bs) (simp_all add: assms List.map_filter_def)
  then show ?thesis by (simp add: push_batches_def assms Let_def)
qed

lemma index_documents_effect:
  assumes "\<And>b. ge_add eng ix b = Inr ()" and "truthful hash ix st" and "distinct (map doc_id ds)"
    and "\<And>d. d \<in> set ds \<Longrightarrow> doc_id d \<noteq> ''''" and "collision_free hash (ss_engine st ix) ds"
  shows "\<exists>st' n k. index_documents eng bs hash now ix ds None ty force st = (st', Inr (n, k, 0)) \<and> truthful hash ix st'
    \<and> (\<forall>d \<in> set ds. ss_engine st' ix (doc_id d) = Some d)
    \<and> (\<forall>i. i \<notin> doc_id ` set ds \<longrightarrow> ss_engine st' ix i = ss_engine st ix i) \<and> ss_runs st' = ss_runs st"
proof -
  let ?t = "ss_ledger st"
  define fresh where "fresh d = should_apply ?t ix (doc_id d) None (Some (hash d)) force" for d
  define pending where "pending = filter fresh ds"
  have named: "filter (\<lambda>d. doc_id d \<noteq> '''') ds = ds" using assms(4) by (simp add: filter_id_conv)
  have old: "ss_engine st ix (doc_id d) = Some d" if d: "d \<in> set ds" and not_fresh: "\<not> fresh d" for d
  proof -
    obtain r where "ledger_get ?t ix (doc_id d) = Some r" "il_checksum r = hash d" "il_deleted_at r = None"
      using not_fresh by (auto simp: fresh_def truthy_def should_apply_def split: if_splits option.splits)
    then have "map_option hash (ss_engine st ix (doc_id d)) = Some (hash d)"
      using truthfulD [OF assms(2)] by metis
    with assms(5) d show ?thesis by (auto simp: collision_free_def)
  qed
  show ?thesis
  proof (cases "pending = []")
    case True
    then have "index_documents eng bs hash now ix ds None ty force st = (st, Inr (0, length (filter (\<lambda>d. \<not> fresh d) ds), 0))"
      unfolding index_documents_def named Let_def fresh_def [symmetric] pending_def [symmetric] by simp
    moreover have "\<not> fresh d" if "d \<in> set ds" for d using True that by (auto simp: pending_def filter_empty_conv)
    ultimately show ?thesis using old assms(2) by blast
  next
    case False
    define t' where "t' = fold (\<lambda>d. ledger_record ?t ix (doc_id d) None ty False now (hash d)) pending ?t"
    define st' where "st' = (on_index ix (put_documents pending) st)\<lparr>ss_ledger := t'\<rparr>"
    have eng: "ss_engine st' ix = put_documents pending (ss_engine st ix)" and led: "ss_ledger st' = t'" and runs: "ss_runs st' = ss_runs st"
      by (simp_all add: st'_def on_index_def)
    have dp: "distinct (map doc_id pending)" "set pending \<subseteq> set ds"
      using assms(3) by (auto simp: pending_def distinct_map inj_on_def)
    have rec: "distinct (map ledger_key t')"
      "\<And>iy j. (iy, j) \<notin> (\<lambda>d. (ix, doc_id d)) ` set pending \<Longrightarrow> ledger_get t' iy j = ledger_get ?t iy j"
      "\<And>d. d \<in> set pending \<Longrightarrow> \<exists>r. ledger_get t' ix (doc_id d) = Some r \<and> il_checksum r = hash d \<and> il_deleted_at r = None"
      using ledger_records [OF dp(1) truthful_keys [OF assms(2)], of ?t ix None ty now hash] unfolding Let_def t'_def by blast+
    have run: "index_documents eng bs hash now ix ds None ty force st
        = (st', Inr (length pending, length (filter (\<lambda>d. \<not> fresh d) ds), 0))"
    proof -
      have "commit_ledger t' = Inr t'" using rec(1) by (simp add: commit_ledger_def)
      then show ?thesis
        using False unfolding index_documents_def named Let_def fresh_def [symmetric] pending_def [symmetric]
        by (simp add: push_batches_healthy [OF assms(1)] t'_def [symmetric] st'_def)
    qed
    have entry: "entry_ok hash (ledger_get t' ix i) (ss_engine st' ix i)" for i
    proof (cases "i \<in> doc_id ` set pending")
      case True
      then obtain d where d: "d \<in> set pending" "i = doc_id d" by auto
      then show ?thesis using rec(3) [OF d(1)] put_documents_member [OF dp(1) d(1)] unfolding eng by (auto simp: entry_ok_def)
    next
      case False
      then have "ledger_get t' ix i = ledger_get ?t ix i" by (intro rec(2)) auto
      then show ?thesis using truthful_entry [OF assms(2)] unfolding eng put_documents_other [OF False] by simp
    qed
    then have ok: "truthful hash ix st'" using rec(1) by (simp add: truthful_def led)
    have all: "ss_engine st' ix (doc_id d) = Some d" if "d \<in> set ds" for d
    proof (cases "fresh d")
      case True
      then show ?thesis using that put_documents_member [OF dp(1)] unfolding eng by (simp add: pending_def)
    next
      case False
      have "doc_id d \<notin> doc_id ` set pending"
        using False that assms(3) by (auto simp: pending_def distinct_map dest: inj_onD)
      then show ?thesis using old [OF that False] unfolding eng by (simp add: put_documents_other)
    qed
    have "ss_engine st' ix i = ss_engine st ix i" if "i \<notin> doc_id ` set ds" for i
    proof -
      have "i \<notin> doc_id ` set pending" using that dp(2) by auto
      then show ?thesis unfolding eng by (rule put_documents_other)
    qed
    then show ?thesis using run ok all runs by blast
  qed
qed

subsection \<open>Lemmas: a run leaves what the walk showed\<close>

text \<open>A page and the documents built of it; the whole run sees one document per identifier.\<close>

definition built_page :: "(jobj \<Rightarrow> jobj result) \<Rightarrow> jobj list \<Rightarrow> jobj list \<Rightarrow> bool" where
  "built_page build p ds \<longleftrightarrow> build_all build p = Inr ds \<and> distinct (map doc_id ds)
     \<and> (\<forall>d \<in> set ds. doc_id d \<noteq> '''' \<and> jtruthy (jget_null d ''id''))"

lemma index_pages_effect:
  assumes "\<And>b. ge_add eng ix b = Inr ()" and "list_all2 (built_page build) ps built" and "truthful hash ix st"
    and "collision_free hash (ss_engine st ix) (concat built)" and "inj_on doc_id (set (concat built))"
  shows "\<exists>st' c'. index_pages eng bs hash now ix mode force build ps c st = (st', Inr c') \<and> truthful hash ix st'
    \<and> rc_keep c' = rc_keep c @ map doc_id (concat built) \<and> rc_failed c' = rc_failed c
    \<and> (\<forall>d \<in> set (concat built). ss_engine st' ix (doc_id d) = Some d)
    \<and> (\<forall>i. i \<notin> doc_id ` set (concat built) \<longrightarrow> ss_engine st' ix i = ss_engine st ix i) \<and> ss_runs st' = ss_runs st"
  using assms(2-)
proof (induction arbitrary: c st rule: list_all2_induct)
  case (Cons p ps ds built)
  have p: "build_all build p = Inr ds" "distinct (map doc_id ds)" "\<And>d. d \<in> set ds \<Longrightarrow> doc_id d \<noteq> ''''"
      "filter (\<lambda>d. jtruthy (jget_null d ''id'')) ds = ds"
    using Cons.hyps(1) by (auto simp: built_page_def filter_id_conv)
  have "collision_free hash (ss_engine st ix) ds" using Cons.prems(2) by (auto simp: collision_free_def)
  then obtain st1 n k where one: "index_documents eng bs hash now ix ds None (Some (mode @ ''.run'')) (force \<or> mode = ''full'') st
        = (st1, Inr (n, k, 0))" "truthful hash ix st1" "\<And>d. d \<in> set ds \<Longrightarrow> ss_engine st1 ix (doc_id d) = Some d"
      "\<And>i. i \<notin> doc_id ` set ds \<Longrightarrow> ss_engine st1 ix i = ss_engine st ix i" "ss_runs st1 = ss_runs st"
    using index_documents_effect [OF assms(1) Cons.prems(1) p(2,3), of bs now "Some (mode @ ''.run'')" "force \<or> mode = ''full''"]
    by blast
  have same: "e = d" if "e \<in> set ds" "d \<in> set (concat built)" "doc_id e = doc_id d" for d e
    using that Cons.prems(3) by (auto dest: inj_onD)
  have "d' = d" if "d \<in> set (concat built)" "ss_engine st1 ix (doc_id d) = Some d'" "hash d' = hash d" for d d'
  proof (cases "doc_id d \<in> doc_id ` set ds")
    case True
    then show ?thesis using that(1,2) one(3) same by fastforce
  next
    case False
    then show ?thesis using that Cons.prems(2) one(4) by (auto simp: collision_free_def)
  qed
  then have cf: "collision_free hash (ss_engine st1 ix) (concat built)" by (auto simp: collision_free_def)
  have inj: "inj_on doc_id (set (concat built))" using Cons.prems(3) by (rule inj_on_subset) auto
  let ?c1 = "\<lparr>rc_seen = rc_seen c + length ds, rc_indexed = rc_indexed c + n, rc_failed = rc_failed c + 0,
     rc_keep = rc_keep c @ map doc_id ds\<rparr>"
  from Cons.IH [OF one(2) cf inj, of ?c1]
  obtain st' c' where r: "index_pages eng bs hash now ix mode force build ps ?c1 st1 = (st', Inr c')" "truthful hash ix st'"
      "rc_keep c' = rc_keep ?c1 @ map doc_id (concat built)" "rc_failed c' = rc_failed ?c1"
      "\<And>d. d \<in> set (concat built) \<Longrightarrow> ss_engine st' ix (doc_id d) = Some d"
      "\<And>i. i \<notin> doc_id ` set (concat built) \<Longrightarrow> ss_engine st' ix i = ss_engine st1 ix i" "ss_runs st' = ss_runs st1"
    by blast
  have run: "index_pages eng bs hash now ix mode force build (p # ps) c st = (st', Inr c')"
    using r(1) by (simp add: p(1,4) one(1))
  have "ss_engine st' ix (doc_id d) = Some d" if "d \<in> set ds" for d
  proof (cases "doc_id d \<in> doc_id ` set (concat built)")
    case True
    then show ?thesis using r(5) same [OF that] by (metis imageE)
  next
    case False
    then show ?thesis using r(6) one(3) [OF that] by simp
  qed
  then have "\<forall>d \<in> set (concat (ds # built)). ss_engine st' ix (doc_id d) = Some d" using r(5) by auto
  moreover have "\<forall>i. i \<notin> doc_id ` set (concat (ds # built)) \<longrightarrow> ss_engine st' ix i = ss_engine st ix i"
    using r(6) one(4) by (simp add: image_Un)
  moreover have "rc_keep c' = rc_keep c @ map doc_id (concat (ds # built))" "rc_failed c' = rc_failed c" "ss_runs st' = ss_runs st"
    using r(3,4,7) one(5) by simp_all
  ultimately show ?case using run r(2) by blast
qed simp

lemma sweep_missing_effect:
  assumes "\<And>s. ge_delete eng ix s = Inr ()" and "truthful hash ix st"
  shows "\<exists>st' n. sweep_missing eng now ix keep st = (st', Inr n) \<and> truthful hash ix st' \<and> ss_runs st' = ss_runs st
    \<and> (\<forall>i. ss_engine st' ix i = (if i \<in> set keep then ss_engine st ix i else None))"
proof -
  let ?t = "ss_ledger st"
  define stale where "stale = sort (remdups (filter (\<lambda>i. i \<notin> set keep) (live_ids ?t ix)))"
  define f where "f r = r\<lparr>il_deleted_at := Some now\<rparr>" for r :: IndexedDocument
  define t' where "t' = update_rows (\<lambda>r. il_index r = ix \<and> il_document_id r \<in> set stale) f ?t"
  have mark: "mark_missing_deleted ?t ix now keep = (t', stale)"
    by (simp add: mark_missing_deleted_def Let_def stale_def t'_def f_def [abs_def])
  have f: "ledger_key (f r) = ledger_key r" "il_deleted_at (f r) \<noteq> None" for r by (simp_all add: f_def ledger_key_def)
  have keys: "distinct (map ledger_key t')"
    using truthful_keys [OF assms(2)] f(1) unfolding t'_def by (subst map_update_same) auto
  have get: "ledger_get t' ix i = map_option (\<lambda>r. if i \<in> set stale then f r else r) (ledger_get ?t ix i)" for i
  proof -
    have "il_index r = ix \<and> il_document_id r = i" if "ledger_get ?t ix i = Some r" for r
      using ledger_get_key [OF that] by (simp add: ledger_key_def)
    then show ?thesis
      unfolding t'_def ledger_get_update [of f, OF f(1)] by (cases "ledger_get ?t ix i") auto
  qed
  define c where "c i = (if i \<in> set stale then None else ss_engine st ix i)" for i
  have "\<exists>st'. sweep_missing eng now ix keep st = (st', Inr (length stale)) \<and> ss_ledger st' = t' \<and> ss_runs st' = ss_runs st
      \<and> ss_engine st' ix = c"
    by (cases "stale = []")
       (simp_all add: sweep_missing_def mark assms(1) on_index_def drop_documents_def c_def [abs_def])
  then obtain st' where st': "sweep_missing eng now ix keep st = (st', Inr (length stale))" "ss_ledger st' = t'"
      "ss_runs st' = ss_runs st" "ss_engine st' ix = c" by blast
  have entry: "entry_ok hash (ledger_get t' ix i) (c i)" for i
  proof (cases "i \<in> set stale")
    case True
    then show ?thesis
      using truthful_entry [OF assms(2), of i] f(2) by (cases "ledger_get ?t ix i") (simp_all add: get c_def entry_ok_def)
  next
    case False
    then show ?thesis using truthful_entry [OF assms(2), of i] by (simp add: get c_def option.map_ident)
  qed
  have "c i = (if i \<in> set keep then ss_engine st ix i else None)" for i
  proof (cases "i \<in> set stale \<or> i \<in> set keep")
    case True
    then show ?thesis by (auto simp: c_def stale_def)
  next
    case False
    have "il_deleted_at r \<noteq> None" if r: "ledger_get ?t ix i = Some r" for r
    proof
      assume "il_deleted_at r = None"
      then have "i \<in> set (live_ids ?t ix)"
        using ledger_get_key [OF r] by (force simp: live_ids_def ledger_key_def)
      then show False using False by (simp add: stale_def)
    qed
    then have "ss_engine st ix i = None"
      using truthful_entry [OF assms(2), of i] by (cases "ledger_get ?t ix i") (auto simp: entry_ok_def)
    then show ?thesis using False by (simp add: c_def)
  qed
  moreover have "truthful hash ix st'" using keys entry st' by (simp add: truthful_def)
  ultimately show ?thesis using st' by auto
qed

lemma reconcile_effect:
  assumes "\<And>b. ge_add eng ix b = Inr ()" and "\<And>s. ge_delete eng ix s = Inr ()" and "truthful hash ix st"
    and "list_all2 (built_page build) ps built" and "concat built \<noteq> []"
    and "collision_free hash (ss_engine st ix) (concat built)" and "inj_on doc_id (set (concat built))"
    and "run_reindex eng bs hash now run_id ix ''reconcile'' force build (Some (ps, WalkDone)) st = (st', run)"
  shows "rr_status run = RunSucceeded \<and> rr_failed run = 0 \<and> truthful hash ix st'
    \<and> (\<forall>d \<in> set (concat built). ss_engine st' ix (doc_id d) = Some d)
    \<and> (\<forall>i. i \<notin> doc_id ` set (concat built) \<longrightarrow> ss_engine st' ix i = None)"
proof -
  define row where "row = \<lparr>rr_id = run_id, rr_index_name = ix, rr_mode = ''reconcile'', rr_status = RunRunning, rr_seen = 0, rr_indexed = 0,
    rr_deleted = 0, rr_failed = 0, rr_started_at = now, rr_finished_at = None\<rparr>"
  define st0 where "st0 = st\<lparr>ss_runs := ss_runs st @ [row]\<rparr>"
  have st0: "truthful hash ix st0" "ss_engine st0 ix = ss_engine st ix"
    using assms(3) by (simp_all add: st0_def truthful_def)
  from index_pages_effect [OF assms(1,4) st0(1), of bs now "''reconcile''" force
      "\<lparr>rc_seen = 0, rc_indexed = 0, rc_failed = 0, rc_keep = []\<rparr>"] assms(6,7)
  obtain st1 c where one: "index_pages eng bs hash now ix ''reconcile'' force build ps
        \<lparr>rc_seen = 0, rc_indexed = 0, rc_failed = 0, rc_keep = []\<rparr> st0 = (st1, Inr c)"
      "truthful hash ix st1" "rc_keep c = map doc_id (concat built)" "rc_failed c = 0"
      "\<And>d. d \<in> set (concat built) \<Longrightarrow> ss_engine st1 ix (doc_id d) = Some d"
    unfolding st0(2) by auto
  obtain st2 n where two: "sweep_missing eng now ix (rc_keep c) st1 = (st2, Inr n)" "truthful hash ix st2"
      "\<And>i. ss_engine st2 ix i = (if i \<in> set (rc_keep c) then ss_engine st1 ix i else None)"
    using sweep_missing_effect [OF assms(2) one(2), of now "rc_keep c"] by blast
  have "rc_keep c \<noteq> []" using assms(5) one(3) by simp
  then have ex: "execute_run eng bs hash now ix ''reconcile'' force build (Some (ps, WalkDone)) st0
      = (st2, Inr (rc_seen c, rc_indexed c, n, 0))"
    using one(4) by (simp add: execute_run_def one(1) two(1))
  then have "rr_status run = RunSucceeded" "rr_failed run = 0" "ss_ledger st' = ss_ledger st2" "ss_engine st' = ss_engine st2"
    using assms(8) unfolding run_reindex_def Let_def row_def [symmetric] st0_def [symmetric] ex by (auto simp: row_def)
  moreover from this have "truthful hash ix st'" using two(2) by (simp add: truthful_def)
  ultimately show ?thesis using two(3) one(3,5) by (auto simp: image_Un)
qed

subsection \<open>Lemmas: what a walk yields\<close>

lemma iter_follow:
  assumes "\<And>c. get_page (map_option wrap c) = Inr (map f (fst (page c)), map_option wrap (fst (snd (page c))))"
    and "\<And>c rows pos has_more. page c = (rows, Some pos, has_more) \<Longrightarrow> rows \<noteq> []"
    and "follow_pages n page c = Some rows" and "seen + length rows \<le> m"
  shows "\<exists>pages. iter_pages n get_page (Some m) seen (map_option wrap c) = (pages, WalkDone) \<and> concat pages = map f rows"
  using assms(3,4)
proof (induction n arbitrary: c seen rows)
  case (Suc n)
  obtain items pos has_more where p: "page c = (items, pos, has_more)" by (cases "page c") auto
  have g: "get_page (map_option wrap c) = Inr (map f items, map_option wrap pos)" using assms(1) [of c] by (simp add: p)
  show ?case
  proof (cases pos)
    case None
    then have "rows = items" using Suc.prems(1) by (simp add: p)
    then show ?thesis using None Suc.prems(2) by (simp add: g)
  next
    case (Some q)
    then obtain rest where rest: "follow_pages n page (Some q) = Some rest" "rows = items @ rest"
      using Suc.prems(1) by (auto simp: p)
    have ne: "items \<noteq> []" using assms(2) p Some by blast
    have fits: "seen + length items \<le> m" "(seen + length items) + length rest \<le> m" using Suc.prems(2) rest(2) by simp_all
    show ?thesis
    proof (cases "seen + length items \<ge> m")
      case True
      then have "rest = []" using fits by (metis add_le_same_cancel1 le_zero_eq length_0_conv order_antisym order_trans)
      then show ?thesis using True ne fits(1) rest(2) by (simp add: g Let_def)
    next
      case False
      from Suc.IH [OF rest(1) fits(2)] obtain pages
        where "iter_pages n get_page (Some m) (seen + length items) (Some (wrap q)) = (pages, WalkDone)" "concat pages = map f rest"
        by auto
      then show ?thesis using False ne fits(1) rest(2) by (simp add: g Some Let_def)
    qed
  qed
qed simp

lemma page_cursor_nonempty: "keyset_page after cursor_of arrange limit rows c = (page, Some pos, has_more) \<Longrightarrow> page \<noteq> []"
  by (auto simp: keyset_page_def Let_def split: if_splits)

definition published_feed :: "library_db \<Rightarrow> catalogue_book list" where
  "published_feed db = catalogue_feed db no_filters ''published_at'' ''desc'' True"

lemma published_feed_members:
  "set (published_feed db) = {b \<in> set (lb_books db). bk_status b = BookPublished \<and> bk_deleted_at b = None \<and> cb_published_at b \<noteq> None}"
proof -
  have "map_of SORTABLE ''published_at'' \<noteq> None" by (simp add: SORTABLE_def)
  then obtain col where "map_of SORTABLE ''published_at'' = Some col" by blast
  from catalogue_feed_members [OF this, of db no_filters "''desc''" True]
  show ?thesis by (auto simp: published_feed_def matches_filters_def no_filters_def truthy_def)
qed

lemma build_all_map:
  "(\<And>x. x \<in> set xs \<Longrightarrow> build x = Inr (g x)) \<Longrightarrow> build_all build xs = Inr (map g xs)"
  by (induction xs) auto

lemma build_all_raises:
  "x \<in> set xs \<Longrightarrow> build x = Inl e \<Longrightarrow> \<exists>e'. build_all build xs = Inl e'"
  by (induction xs) (auto split: sum.splits)

lemma book_rows:
  assumes "catalogue_page db no_filters ''published_at'' ''desc'' limit True c = (rows, next_pos, has_more)" and "b \<in> set rows"
  shows "b \<in> set (lb_books db) \<and> bk_status b = BookPublished \<and> bk_deleted_at b = None"
proof -
  let ?col = "the (map_of SORTABLE ''published_at'')"
  have "page_down (sort_column ?col) bk_id limit (filter (\<lambda>b. matches_filters db no_filters True b
      \<and> (''published_at'' \<in> set NULLABLE_SORTS \<longrightarrow> ?col b \<noteq> None)) (lb_books db)) c = (rows, next_pos, has_more)"
    using assms(1) by (simp add: catalogue_page_def Let_def)
  from subsetD [OF page_down_rows [OF this] assms(2)] show ?thesis by (simp add: matches_filters_def)
qed

lemma walk_books_yields:
  assumes "1 \<le> page_size" and "page_size \<le> MAX_PAGE_SIZE" and "distinct (map bk_id (lb_books db))"
    and "length (published_feed db) \<le> max_documents" and "fuel = Suc (length (lb_books db))"
    and "\<And>b. b \<in> set (lb_books db) \<Longrightarrow> bk_status b = BookPublished \<Longrightarrow> bk_deleted_at b = None \<Longrightarrow> cb_publisher_id b = None"
  shows "\<exists>pages. walk_books fuel rd db page_size max_documents = (pages, WalkDone)
    \<and> concat pages = map (book_detail rd db) (published_feed db)"
    and "distinct (map bk_id (published_feed db))"
proof -
  have "map_of SORTABLE ''published_at'' \<noteq> None" by (simp add: SORTABLE_def)
  then obtain col where col: "map_of SORTABLE ''published_at'' = Some col" by blast
  have base: "base_query db no_filters True = Inr (filter (matches_filters db no_filters True) (lb_books db))"
    by (simp add: base_query_def no_filters_def truthy_def)
  let ?page = "catalogue_page db no_filters ''published_at'' ''desc'' page_size True"
  let ?mint = "mint_cursor ''published_at'' ''desc''"
  have get: "over_http (internal_list_books rd db page_size (map_option ?mint c))
      = Inr (map (book_detail rd db) (fst (?page c)), map_option ?mint (fst (snd (?page c))))" for c
  proof -
    obtain rows next_pos has_more where page: "?page c = (rows, next_pos, has_more)" by (cases "?page c")
    have "build_all (listed_detail rd db) rows = Inr (map (book_detail rd db) rows)"
      using book_rows [OF page] assms(6) by (intro build_all_map) (simp add: listed_detail_def)
    then show ?thesis
      using assms(1,2) page list_books_page [OF col _ base, of "''desc''" c page_size]
      by (simp add: over_http_def internal_list_books_def checked_limit_def)
  qed
  have ne: "rows \<noteq> []" if "?page c = (rows, Some pos, has_more)" for c rows pos has_more
    using that by (auto simp: catalogue_page_def Let_def page_down_def dest: page_cursor_nonempty)
  have limit: "0 < page_size" using assms(1) by simp
  note follow = catalogue_follow [OF col limit assms(3), of no_filters "''desc''" True]
  show "distinct (map bk_id (published_feed db))" unfolding published_feed_def by (rule follow(2))
  show "\<exists>pages. walk_books fuel rd db page_size max_documents = (pages, WalkDone)
      \<and> concat pages = map (book_detail rd db) (published_feed db)"
    unfolding walk_books_def published_feed_def assms(5)
  proof -
    have "length (catalogue_feed db no_filters ''published_at'' ''desc'' True) \<le> max_documents"
      using assms(4) by (simp add: published_feed_def)
    then have "\<exists>pages. iter_pages (Suc (length (lb_books db))) (\<lambda>c. over_http (internal_list_books rd db page_size c)) (Some max_documents) 0
        (map_option ?mint None) = (pages, WalkDone)
        \<and> concat pages = map (book_detail rd db) (catalogue_feed db no_filters ''published_at'' ''desc'' True)"
      by (intro iter_follow [where page = ?page, OF get ne follow(1)]) simp_all
    then show "\<exists>pages. iter_pages (Suc (length (lb_books db))) (\<lambda>c. over_http (internal_list_books rd db page_size c)) (Some max_documents) 0
        None = (pages, WalkDone)
        \<and> concat pages = map (book_detail rd db) (catalogue_feed db no_filters ''published_at'' ''desc'' True)"
      unfolding option.map .
  qed
qed

text \<open>A listing that answers every cursor with the same page keeps the walk going until the ceiling.\<close>

lemma iter_stuck:
  assumes "\<And>c. get_page c = Inr (items, Some k)" and "items \<noteq> []" and "seen < m" and "m - seen < n"
  shows "\<exists>pages. iter_pages n get_page (Some m) seen c = (pages, WalkDone) \<and> pages \<noteq> []
    \<and> (\<forall>p \<in> set pages. \<exists>j > 0. p = take j items)"
  using assms(3,4)
proof (induction n arbitrary: seen c)
  case (Suc n)
  have g: "get_page c = Inr (items, Some k)" by (rule assms(1))
  show ?case
  proof (cases "seen + length items \<ge> m")
    case True
    have "take (m - seen) items = items" if "\<not> m < seen + length items" using that by simp
    then have "iter_pages (Suc n) get_page (Some m) seen c = ([take (m - seen) items], WalkDone)"
      using True assms(2) Suc.prems(1) by (auto simp: g Let_def)
    then show ?thesis using Suc.prems(1) by (auto intro!: exI [of _ "m - seen"])
  next
    case False
    have "0 < length items" using assms(2) by simp
    then have less: "seen + length items < m" "m - (seen + length items) < n"
      using False Suc.prems(2) by linarith+
    from Suc.IH [OF this, of "Some k"] obtain pages where p: "iter_pages n get_page (Some m) (seen + length items) (Some k) = (pages, WalkDone)"
        "\<forall>p \<in> set pages. \<exists>j > 0. p = take j items" by blast
    then have "iter_pages (Suc n) get_page (Some m) seen c = (items # pages, WalkDone)"
      using False less(1) assms(2) by (simp add: g Let_def)
    moreover have "\<exists>j > 0. items = take j items" using assms(2) by (intro exI [of _ "length items"]) simp
    ultimately show ?thesis using p(2) by auto
  qed
qed simp

lemma pages_built:
  assumes "\<And>r. r \<in> set (concat ps) \<Longrightarrow> build r = Inr (g r)"
    and "\<And>p. p \<in> set ps \<Longrightarrow> distinct (map (\<lambda>r. doc_id (g r)) p)"
    and "\<And>r. r \<in> set (concat ps) \<Longrightarrow> doc_id (g r) \<noteq> '''' \<and> jtruthy (jget_null (g r) ''id'')"
  shows "list_all2 (built_page build) ps (map (map g) ps)"
proof -
  have "built_page build p (map g p)" if "p \<in> set ps" for p
    using that assms build_all_map [of p build g] by (auto simp: built_page_def o_def)
  then show ?thesis by (simp add: list_all2_map2 list.rel_refl_strong)
qed

subsection \<open>Reconciliation\<close>

definition book_document :: "rendering \<Rightarrow> library_db \<Rightarrow> catalogue_book \<Rightarrow> jobj" where
  "book_document rd db b = (case build_book_document rd (book_detail rd db b) of Inr d \<Rightarrow> d | Inl _ \<Rightarrow> [])"

lemma book_document_ok:
  "build_book_document rd (book_detail rd db b) = Inr (book_document rd db b)"
  "doc_id (book_document rd db b) = str_uuid (bk_id b)" "jtruthy (jget_null (book_document rd db b) ''id'')"
  using book_detail_document [of rd db b] by (auto simp: book_document_def)

text \<open>
  C27: A reconciliation makes the index the published catalogue. With at least one published
  book and none that names a publisher, a page size the books service accepts, a ceiling the
  catalogue stays under, an engine that answers, a ledger that agrees with the index and no
  hash collision between a stored document and its successor, the walk over the cursors of the
  books service ends, the run succeeds, and afterwards the index holds the current document of
  every published book that is not deleted and nothing else; ledger and index still agree. A
  published book that names a publisher stops the walk (\<open>publisher_stops_walk\<close>).
\<close>

theorem reconcile_matches_catalogue:
  assumes "catalogue_ok db" and "list_all (\<lambda>b. valid_uuid (bk_id b)) (lb_books db)"
    and "1 \<le> page_size" and "page_size \<le> MAX_PAGE_SIZE"
    and "0 < length (published_feed db)" and "length (published_feed db) \<le> max_documents"
    and "\<forall>b. ge_add eng ix b = Inr ()" and "\<forall>s. ge_delete eng ix s = Inr ()"
    and "truthful hash ix st" and "collision_free hash (ss_engine st ix) (map (book_document rd db) (lb_books db))"
    and "run_reindex eng bs hash now run_id ix ''reconcile'' force (build_book_document rd)
           (Some (walk_books (Suc (length (lb_books db))) rd db page_size max_documents)) st = (st', run)"
    and "\<forall>b \<in> set (lb_books db). bk_status b = BookPublished \<and> bk_deleted_at b = None \<longrightarrow> cb_publisher_id b = None"
  shows "rr_status run = RunSucceeded \<and> rr_failed run = 0 \<and> truthful hash ix st'
    \<and> (\<forall>i d. ss_engine st' ix i = Some d \<longleftrightarrow>
         (\<exists>b \<in> set (lb_books db). bk_status b = BookPublished \<and> bk_deleted_at b = None
            \<and> i = str_uuid (bk_id b) \<and> build_book_document rd (book_detail rd db b) = Inr d))"
proof -
  let ?doc = "book_document rd db" and ?feed = "published_feed db"
  have ids: "distinct (map bk_id (lb_books db))" using assms(1) by (simp add: catalogue_ok_def)
  obtain ps where ps: "walk_books (Suc (length (lb_books db))) rd db page_size max_documents = (ps, WalkDone)"
      "concat ps = map (book_detail rd db) ?feed" and dist: "distinct (map bk_id ?feed)"
    using walk_books_yields [OF assms(3,4) ids assms(6) refl] assms(12) by blast
  define g where "g r = (case build_book_document rd r of Inr d \<Rightarrow> d | Inl _ \<Rightarrow> [])" for r
  have g: "g (book_detail rd db b) = ?doc b" for b by (simp add: g_def book_document_def)
  have feed: "set ?feed = {b \<in> set (lb_books db). bk_status b = BookPublished \<and> bk_deleted_at b = None}"
    using published_feed_members [of db] assms(1) by (auto simp: catalogue_ok_def list_all_iff)
  have built: "concat (map (map g) ps) = map ?doc ?feed"
    using arg_cong [OF ps(2), of "map g"] by (simp add: map_concat g)
  have inj: "inj_on str_uuid (bk_id ` set ?feed)"
    using assms(2) feed by (auto simp: inj_on_def list_all_iff intro: str_uuid_inj)
  have "inj_on bk_id (set ?feed)" using dist by (simp add: distinct_map)
  then have inj_doc: "inj_on (\<lambda>b. str_uuid (bk_id b)) (set ?feed)" using inj by (auto simp: inj_on_def)
  have dd: "distinct (map (\<lambda>r. doc_id (g r)) (concat ps))"
    unfolding ps(2) using dist inj by (simp add: o_def g book_document_ok distinct_map [of _ "published_feed db"] inj_doc)
  have pages: "list_all2 (built_page (build_book_document rd)) ps (map (map g) ps)"
  proof (rule pages_built)
    fix r assume "r \<in> set (concat ps)"
    then obtain b where "r = book_detail rd db b" unfolding ps(2) by auto
    then show "build_book_document rd r = Inr (g r)" "doc_id (g r) \<noteq> '''' \<and> jtruthy (jget_null (g r) ''id'')"
      by (simp_all add: g book_document_ok)
  next
    fix p assume "p \<in> set ps"
    then show "distinct (map (\<lambda>r. doc_id (g r)) p)" using dd by (auto simp: map_concat distinct_concat_iff)
  qed
  have "concat (map (map g) ps) \<noteq> []" using assms(5) unfolding built by auto
  moreover have "collision_free hash (ss_engine st ix) (concat (map (map g) ps))"
    using assms(10) feed unfolding built by (auto simp: collision_free_def)
  moreover have "inj_on doc_id (set (concat (map (map g) ps)))"
    unfolding built using inj_doc by (auto simp: inj_on_def book_document_ok)
  ultimately have *: "rr_status run = RunSucceeded \<and> rr_failed run = 0 \<and> truthful hash ix st'
    \<and> (\<forall>d \<in> set (map ?doc ?feed). ss_engine st' ix (doc_id d) = Some d)
    \<and> (\<forall>i. i \<notin> doc_id ` set (map ?doc ?feed) \<longrightarrow> ss_engine st' ix i = None)"
    using reconcile_effect [OF _ _ assms(9) pages, of eng bs now run_id force st' run] assms(7,8,11) unfolding ps(1) built by blast
  have there: "ss_engine st' ix (str_uuid (bk_id b)) = Some (?doc b)" if "b \<in> set ?feed" for b
    using * that by (auto simp: book_document_ok)
  have gone: "ss_engine st' ix i = None" if "i \<notin> (\<lambda>b. str_uuid (bk_id b)) ` set ?feed" for i
    using * that by (auto simp: book_document_ok image_image)
  have "ss_engine st' ix i = Some d \<longleftrightarrow> (\<exists>b \<in> set ?feed. i = str_uuid (bk_id b) \<and> d = ?doc b)" for i d
    using there gone [of i] by (cases "i \<in> (\<lambda>b. str_uuid (bk_id b)) ` set ?feed") auto
  then show ?thesis using * by (auto simp: feed book_document_ok(1))
qed

text \<open>
  C39: The shipped page size empties the index. The search service asks for pages of 200 and
  every listing of the books service refuses more than 100, so with any page size above 100 a
  full rebuild of any of the three indexes fails after it has emptied the index, and a
  reconciliation fails leaving it as it was: what drifted is never repaired.
\<close>

theorem oversized_pages_empty_index:
  assumes "MAX_PAGE_SIZE < page_size" and "0 < fuel" and "ge_clear eng ix = Inr ()"
    and "walk \<in> {walk_books fuel rd db page_size m, walk_authors fuel rd db page_size m, walk_categories fuel rd db page_size m}"
    and "run_reindex eng bs hash now run_id ix ''full'' force build (Some walk) st = (st1, run1)"
    and "run_reindex eng bs hash now run_id ix ''reconcile'' force build (Some walk) st = (st2, run2)"
  shows "(\<exists>e. rr_status run1 = RunFailed e) \<and> (\<forall>i. ss_engine st1 ix i = None)
    \<and> (\<exists>e. rr_status run2 = RunFailed e) \<and> ss_engine st2 = ss_engine st \<and> ss_ledger st2 = ss_ledger st"
proof -
  obtain n where n: "fuel = Suc n" using assms(2) by (cases fuel) auto
  have "\<exists>e. walk = ([], WalkRaised e)"
    using assms(1,4) by (auto simp: n walk_books_def walk_authors_def walk_categories_def internal_list_books_def
        internal_list_authors_def internal_list_categories_def checked_limit_def over_http_def)
  then obtain e where w: "walk = ([], WalkRaised e)" ..
  show ?thesis
    using assms(5,6) by (auto simp: run_reindex_def execute_run_def w assms(3) Let_def empty_index_def on_index_def)
qed

text \<open>
  One published book with a publisher is enough to stop every walk: the page that shows it is
  refused, and the run fails.
\<close>

lemma publisher_stops_walk:
  assumes "b \<in> set (fst (catalogue_page db no_filters ''published_at'' ''desc'' page_size True None))"
    and "cb_publisher_id b \<noteq> None" and "1 \<le> page_size" and "page_size \<le> MAX_PAGE_SIZE"
  shows "\<exists>e. walk_books (Suc fuel) rd db page_size m = ([], WalkRaised e)"
proof -
  have "map_of SORTABLE ''published_at'' \<noteq> None" by (simp add: SORTABLE_def)
  then obtain col where col: "map_of SORTABLE ''published_at'' = Some col" by blast
  have base: "base_query db no_filters True = Inr (filter (matches_filters db no_filters True) (lb_books db))"
    by (simp add: base_query_def no_filters_def truthy_def)
  obtain rows next_pos has_more
    where page: "catalogue_page db no_filters ''published_at'' ''desc'' page_size True None = (rows, next_pos, has_more)"
    by (cases "catalogue_page db no_filters ''published_at'' ''desc'' page_size True None")
  have "listed_detail rd db b = Inl (PyExn ''ValidationError'')" using assms(2) by (simp add: listed_detail_def)
  then obtain e where "build_all (listed_detail rd db) rows = Inl e" using build_all_raises [of b rows] assms(1) page by fastforce
  then have "\<exists>e. over_http (internal_list_books rd db page_size None) = Inl e"
    using assms(3,4) page list_books_page [OF col _ base, of "''desc''" None page_size]
    by (simp add: over_http_def internal_list_books_def checked_limit_def split: prod.splits)
  then show ?thesis by (auto simp: walk_books_def)
qed

text \<open>
  The author listing ignores the cursor and always answers with its first page, and the walk
  stops at the ceiling: every author beyond the first page is taken for deleted.
\<close>

definition live_authors :: "library_db \<Rightarrow> taxon list" where
  "live_authors db = ascending (\<lambda>r. SvText (tx_name r)) tx_id (filter (\<lambda>r. tx_deleted_at r = None) (lb_authors db))"

definition author_document_of :: "rendering \<Rightarrow> taxon \<Rightarrow> jobj" where
  "author_document_of rd a = (case build_author_document rd (author_out rd a) of Inr d \<Rightarrow> d | Inl _ \<Rightarrow> [])"

lemma author_document_ok:
  "build_author_document rd (author_out rd a) = Inr (author_document_of rd a)"
  "doc_id (author_document_of rd a) = str_uuid (tx_id a)" "jtruthy (jget_null (author_document_of rd a) ''id'')"
  using author_document [of rd a] by (auto simp: author_document_of_def)

lemma authors_page:
  assumes "1 \<le> n" and "n \<le> MAX_PAGE_SIZE" and "n < length (live_authors db)"
  shows "over_http (internal_list_authors rd db n c) = Inr (map (author_out rd) (take n (live_authors db)), Some 2)"
proof -
  have hits: "filter (\<lambda>r. tx_deleted_at r = None \<and> (False \<longrightarrow> map_of (tx_columns r) ''is_featured'' = Some (JBool True))
      \<and> (truthy None \<longrightarrow> ilike (or_str None '''') (Some (tx_name r)))) (lb_authors db) = filter (\<lambda>r. tx_deleted_at r = None) (lb_authors db)"
    by (simp add: truthy_def)
  have len: "length (live_authors db) = length (filter (\<lambda>r. tx_deleted_at r = None) (lb_authors db))"
    by (simp add: live_authors_def ascending_def)
  then have "filter (\<lambda>r. tx_deleted_at r = None) (lb_authors db) \<noteq> []" using assms(3) by auto
  then have "list_authors db 1 n None False ''name'' ''asc'' = Inr (take n (live_authors db), length (live_authors db))"
    unfolding list_authors_def paged_taxa_def TAXON_SORTS_def Let_def hits by (simp add: live_authors_def [symmetric] len page_rows_def)
  then show ?thesis
    using assms by (simp add: over_http_def internal_list_authors_def checked_limit_def offset_cursor_def)
qed

lemma live_authors_ids:
  assumes "distinct (map tx_id (lb_authors db))" and "list_all (\<lambda>a. valid_uuid (tx_id a)) (lb_authors db)"
  shows "inj_on (\<lambda>a. str_uuid (tx_id a)) (set (live_authors db))" and "distinct (live_authors db)"
    and "set (live_authors db) \<subseteq> set (lb_authors db)"
proof -
  show sub: "set (live_authors db) \<subseteq> set (lb_authors db)" by (auto simp: live_authors_def ascending_def)
  have d: "distinct (map tx_id (live_authors db))"
    using assms(1) by (auto simp: live_authors_def ascending_def distinct_map inj_on_def)
  then show "distinct (live_authors db)" by (simp add: distinct_map)
  show "inj_on (\<lambda>a. str_uuid (tx_id a)) (set (live_authors db))"
    using d sub assms(2) by (auto simp: inj_on_def list_all_iff distinct_map dest!: str_uuid_inj [rotated 2])
qed

lemma authors_walk_built:
  assumes "1 \<le> page_size" and "page_size \<le> MAX_PAGE_SIZE" and "page_size < length (live_authors db)"
    and "0 < max_documents" and "max_documents < fuel"
    and "distinct (map tx_id (lb_authors db))" and "list_all (\<lambda>a. valid_uuid (tx_id a)) (lb_authors db)"
  shows "\<exists>ps built. walk_authors fuel rd db page_size max_documents = (ps, WalkDone)
    \<and> list_all2 (built_page (build_author_document rd)) ps built \<and> concat built \<noteq> []
    \<and> set (concat built) \<subseteq> author_document_of rd ` set (take page_size (live_authors db))"
proof -
  let ?first = "take page_size (live_authors db)" and ?doc = "author_document_of rd"
  note ids = live_authors_ids [OF assms(6,7)]
  have page: "over_http (internal_list_authors rd db page_size c) = Inr (map (author_out rd) ?first, Some 2)" for c
    by (rule authors_page [OF assms(1-3)])
  have "map (author_out rd) ?first \<noteq> []" using assms(1,3) by auto
  then obtain ps where ps: "walk_authors fuel rd db page_size max_documents = (ps, WalkDone)" "ps \<noteq> []"
      "\<And>p. p \<in> set ps \<Longrightarrow> \<exists>j > 0. p = take j (map (author_out rd) ?first)"
    using iter_stuck [of "\<lambda>c. over_http (internal_list_authors rd db page_size c)", OF page _ assms(4)] assms(5)
    unfolding walk_authors_def by (metis diff_zero)
  define g where "g r = (case build_author_document rd r of Inr d \<Rightarrow> d | Inl _ \<Rightarrow> [])" for r
  have g: "g (author_out rd a) = ?doc a" for a by (simp add: g_def author_document_of_def)
  have src: "\<exists>a \<in> set ?first. r = author_out rd a" if r: "r \<in> set (concat ps)" for r
  proof -
    obtain p where "p \<in> set ps" "r \<in> set p" using r by auto
    then have "r \<in> set (map (author_out rd) ?first)" using ps(3) by (metis in_set_takeD)
    then show ?thesis by auto
  qed
  have "list_all2 (built_page (build_author_document rd)) ps (map (map g) ps)"
  proof (rule pages_built)
    fix r assume "r \<in> set (concat ps)"
    then obtain a where "r = author_out rd a" using src by blast
    then show "build_author_document rd r = Inr (g r)" "doc_id (g r) \<noteq> '''' \<and> jtruthy (jget_null (g r) ''id'')"
      by (simp_all add: g author_document_ok)
  next
    fix p assume "p \<in> set ps"
    then obtain j where "p = map (author_out rd) (take j ?first)" using ps(3) by (metis take_map)
    moreover have "distinct (map (\<lambda>a. str_uuid (tx_id a)) (take j ?first))"
      using ids(1,2) by (auto simp: distinct_map inj_on_def distinct_take dest!: in_set_takeD)
    ultimately show "distinct (map (\<lambda>r. doc_id (g r)) p)" by (simp add: o_def g author_document_ok)
  qed
  moreover have "last ps \<in> set ps" "last ps \<noteq> []"
    using ps(2) ps(3) [of "last ps"] assms(1,3) by (cases "live_authors db", auto)+
  then have "concat (map (map g) ps) \<noteq> []" by auto
  moreover have "set (concat (map (map g) ps)) \<subseteq> ?doc ` set ?first" using src g by fastforce
  ultimately show ?thesis using ps(1) by blast
qed

text \<open>
  C40: Authors beyond the first page are lost to search. With an accepted page size and more
  authors than fit on a page, a reconciliation of the author index ends, reports success, and
  leaves in the index only authors of the first page; every other author is removed, whatever
  the index held before.
\<close>

theorem authors_beyond_page_lost:
  assumes "1 \<le> page_size" and "page_size \<le> MAX_PAGE_SIZE" and "page_size < length (live_authors db)"
    and "0 < max_documents" and "max_documents < fuel"
    and "distinct (map tx_id (lb_authors db))" and "list_all (\<lambda>a. valid_uuid (tx_id a)) (lb_authors db)"
    and "\<forall>b. ge_add eng ix b = Inr ()" and "\<forall>s. ge_delete eng ix s = Inr ()" and "truthful hash ix st"
    and "collision_free hash (ss_engine st ix) (map (author_document_of rd) (lb_authors db))"
    and "run_reindex eng bs hash now run_id ix ''reconcile'' force (build_author_document rd)
           (Some (walk_authors fuel rd db page_size max_documents)) st = (st', run)"
  shows "rr_status run = RunSucceeded
    \<and> (\<forall>i. ss_engine st' ix i \<noteq> None \<longrightarrow> i \<in> (\<lambda>a. str_uuid (tx_id a)) ` set (take page_size (live_authors db)))
    \<and> (\<forall>a \<in> set (drop page_size (live_authors db)). ss_engine st' ix (str_uuid (tx_id a)) = None)"
proof -
  let ?first = "take page_size (live_authors db)" and ?doc = "author_document_of rd"
  note ids = live_authors_ids [OF assms(6,7)]
  obtain ps built where w: "walk_authors fuel rd db page_size max_documents = (ps, WalkDone)"
      "list_all2 (built_page (build_author_document rd)) ps built" "concat built \<noteq> []"
      "set (concat built) \<subseteq> ?doc ` set ?first"
    using authors_walk_built [OF assms(1-7), of rd] by blast
  have first: "set ?first \<subseteq> set (live_authors db)" by (auto dest: in_set_takeD)
  have "collision_free hash (ss_engine st ix) (concat built)"
    using assms(11) w(4) first ids(3) unfolding collision_free_def by (simp add: subset_iff image_iff) blast
  moreover have "inj_on doc_id (?doc ` set ?first)"
    using inj_on_subset [OF ids(1) first] by (auto simp: inj_on_def author_document_ok)
  then have "inj_on doc_id (set (concat built))" using w(4) by (rule inj_on_subset)
  ultimately have *: "rr_status run = RunSucceeded \<and> (\<forall>i. i \<notin> doc_id ` set (concat built) \<longrightarrow> ss_engine st' ix i = None)"
    using reconcile_effect [OF _ _ assms(10) w(2,3), of eng bs now run_id force st' run] assms(8,9,12) unfolding w(1) by blast
  have within: "i \<in> (\<lambda>a. str_uuid (tx_id a)) ` set ?first" if i: "ss_engine st' ix i \<noteq> None" for i
  proof -
    have "i \<in> doc_id ` set (concat built)" using conjunct2 [OF *, rule_format, of i] i by argo
    then have "i \<in> doc_id ` ?doc ` set ?first" using w(4) by (meson image_mono subsetD)
    then show ?thesis by (simp add: image_image author_document_ok)
  qed
  have gone: "ss_engine st' ix (str_uuid (tx_id a)) = None" if a: "a \<in> set (drop page_size (live_authors db))" for a
  proof (rule ccontr)
    assume "ss_engine st' ix (str_uuid (tx_id a)) \<noteq> None"
    then obtain b where b: "b \<in> set ?first" "str_uuid (tx_id a) = str_uuid (tx_id b)" using within by blast
    then have "a = b" using ids(1) a first in_set_dropD inj_onD by fastforce
    then show False using a b(1) set_take_disj_set_drop_if_distinct [OF ids(2) order_refl] by blast
  qed
  show ?thesis using * within gone by blast
qed

subsection \<open>Events\<close>

text \<open>Delivering an event again, with the catalogue's answer unchanged, leaves the index as it is.\<close>

lemma search_event_replay:
  assumes "search_book_event eng rd hash now ix answer ev st = (st', Inr out)" and "out \<in> {''indexed'', ''removed''}"
    and "ev_id ev \<noteq> ''''" and "distinct (map ledger_key (ss_ledger st))" and "\<forall>s. ge_delete eng ix s = Inr ()"
  shows "\<exists>st'' out'. search_book_event eng rd hash now' ix answer ev st' = (st'', Inr out') \<and> ss_engine st'' = ss_engine st'"
proof -
  define payload where "payload = (case ev_payload ev of JObj d \<Rightarrow> d | _ \<Rightarrow> [])"
  define book_id where "book_id = json_str (jor (jor (jget_null payload ''book_id'') (jget_null payload ''id'')) (JStr ''''))"
  note defs = search_book_event_def payload_def [symmetric] book_id_def [symmetric] Let_def
  have id: "book_id \<noteq> ''''" using assms(1,2) by (auto simp: defs split: if_splits)
  have dup: "\<not> should_apply (ledger_record (ss_ledger st) ix book_id (Some (ev_id ev)) ty del now h (ss_ledger st)) ix book_id
      (Some (ev_id ev)) h' False" for ty del h h'
    using ledger_record_effect [OF assms(4) refl, of ix book_id "Some (ev_id ev)" ty del now h] assms(3)
    by (auto simp: should_apply_def truthy_def)
  show ?thesis
  proof (cases "ev_type ev \<in> set REMOVE_EVENTS")
    case True
    then have "\<exists>ty. ss_ledger st' = ledger_record (ss_ledger st) ix book_id (Some (ev_id ev)) ty True now '''' (ss_ledger st)"
      using assms(1,2) id by (auto simp: defs remove_and_record_def split: if_splits sum.splits)
    then show ?thesis using True id dup by (auto simp: defs)
  next
    case False
    then have up: "ev_type ev \<in> set UPSERT_EVENTS" using assms(1,2) id by (auto simp: defs split: if_splits)
    obtain found where load: "load_book answer payload = Inr found"
      using assms(1) False up id by (auto simp: defs split: sum.splits)
    show ?thesis
    proof (cases found)
      case None
      then have "ss_engine st' = (ss_engine st)(ix := drop_documents [book_id] (ss_engine st ix))"
        using assms(1) False up id load by (auto simp: defs remove_and_record_def on_index_def split: sum.splits)
      then show ?thesis
        using None False up id load assms(5) by (auto simp: defs remove_and_record_def on_index_def drop_documents_def fun_eq_iff)
    next
      case (Some book)
      then obtain d where d: "build_book_document rd book = Inr d"
          "ss_ledger st' = ledger_record (ss_ledger st) ix book_id (Some (ev_id ev)) (Some (ev_type ev)) False now (hash d) (ss_ledger st)"
        using assms(1,2) False up id load by (auto simp: defs split: sum.splits if_splits)
      then show ?thesis using Some False up id load dup by (auto simp: defs)
    qed
  qed
qed

text \<open>
  Indexing by id: when it succeeds, each named book is in the index as the catalogue has it, or
  absent when the catalogue has none, nothing else changed, and ledger and index still agree.
\<close>

definition indexed_as :: "rendering \<Rightarrow> (nat \<Rightarrow> jobj result) \<Rightarrow> jobj option \<Rightarrow> bool" where
  "indexed_as rd answer stored \<longleftrightarrow>
     (case load_book answer [] of
        Inl _ \<Rightarrow> False | Inr None \<Rightarrow> stored = None | Inr (Some book) \<Rightarrow> (\<exists>d. build_book_document rd book = Inr d \<and> stored = Some d))"

lemma load_book_source: "load_book answer [] = Inr (Some book) \<Longrightarrow> \<exists>k. answer k = Inr book"
  by (auto simp: load_book_def gateway_get_book_def jget_null_def split: sum.splits exn.splits error_class.splits if_splits)

lemma record_keeps_truth:
  assumes "truthful hash ix (st\<lparr>ss_ledger := t\<rparr>)" and "ledger_get t0 ix i = None \<longleftrightarrow> ledger_get t ix i = None"
    and "del \<and> x = None \<or> \<not> del \<and> map_option hash x = Some h"
  shows "truthful hash ix ((on_index ix (\<lambda>c. c(i := x)) st)\<lparr>ss_ledger := ledger_record t0 ix i ev ty del now h t\<rparr>)"
proof -
  have t: "distinct (map ledger_key t)" "\<And>j. entry_ok hash (ledger_get t ix j) (ss_engine st ix j)"
    using assms(1) by (simp_all add: truthful_def)
  obtain r where r: "\<And>iy j. ledger_get (ledger_record t0 ix i ev ty del now h t) iy j = (if (iy, j) = (ix, i) then Some r else ledger_get t iy j)"
      "il_checksum r = h" "il_deleted_at r = (if del then Some now else None)"
      "distinct (map ledger_key (ledger_record t0 ix i ev ty del now h t))"
    using ledger_record_effect [OF t(1) assms(2), of ev ty del now h] by blast
  have "entry_ok hash (Some r) x" using assms(3) r(2,3) by (auto simp: entry_ok_def)
  then show ?thesis using r(1,4) t(2) by (simp add: truthful_def on_index_def)
qed

lemma index_each_effect:
  assumes "index_each eng rd hash now ix answer t0 ids t n m st = (st', Inr (t', n', m'))"
    and "distinct ids" and "truthful hash ix (st\<lparr>ss_ledger := t\<rparr>)"
    and "\<And>i. i \<in> set ids \<Longrightarrow> ledger_get t0 ix i = None \<longleftrightarrow> ledger_get t ix i = None"
    and named: "\<And>i k b d. answer i k = Inr b \<Longrightarrow> build_book_document rd b = Inr d \<Longrightarrow> doc_id d = i"
  shows "truthful hash ix (st'\<lparr>ss_ledger := t'\<rparr>) \<and> n' + m' = n + m + length ids
    \<and> (\<forall>i. if i \<in> set ids then indexed_as rd (answer i) (ss_engine st' ix i) else ss_engine st' ix i = ss_engine st ix i)"
  using assms(1-4)
proof (induction ids arbitrary: t n m st)
  case (Cons i ids)
  have step: "\<exists>del h x n1 m1. (del \<and> x = None \<or> \<not> del \<and> map_option hash x = Some h) \<and> n1 + m1 = Suc (n + m)
      \<and> indexed_as rd (answer i) x
      \<and> index_each eng rd hash now ix answer t0 ids (ledger_record t0 ix i None (Some ''automation.index'') del now h t) n1 m1
           (on_index ix (\<lambda>c. c(i := x)) st) = (st', Inr (t', n', m'))"
  proof (cases "load_book (answer i) []")
    case (Inr found)
    show ?thesis
    proof (cases found)
      case None
      have "drop_documents [i] = (\<lambda>c. c(i := None))" by (auto simp: drop_documents_def fun_eq_iff)
      then show ?thesis using Cons.prems(1) Inr None
        by (intro exI [of _ True] exI [of _ "''''"] exI [of _ None] exI [of _ n] exI [of _ "m + 1"])
           (auto simp: indexed_as_def split: sum.splits)
    next
      case (Some book)
      then obtain d where d: "build_book_document rd book = Inr d" using Cons.prems(1) Inr by (auto split: sum.splits)
      have "doc_id d = i" using load_book_source Inr Some d named by blast
      then have "put_documents [d] = (\<lambda>c. c(i := Some d))" by (auto simp: put_documents_def fun_eq_iff)
      then show ?thesis using Cons.prems(1) Inr Some d
        by (intro exI [of _ False] exI [of _ "hash d"] exI [of _ "Some d"] exI [of _ "n + 1"] exI [of _ m])
           (auto simp: indexed_as_def split: sum.splits)
    qed
  qed (use Cons.prems(1) in simp)
  then obtain del h x n1 m1 where s: "del \<and> x = None \<or> \<not> del \<and> map_option hash x = Some h" "n1 + m1 = Suc (n + m)"
      "indexed_as rd (answer i) x"
      "index_each eng rd hash now ix answer t0 ids (ledger_record t0 ix i None (Some ''automation.index'') del now h t) n1 m1
         (on_index ix (\<lambda>c. c(i := x)) st) = (st', Inr (t', n', m'))" by blast
  have same: "ledger_get t0 ix i = None \<longleftrightarrow> ledger_get t ix i = None" using Cons.prems(4) by simp
  have keys: "distinct (map ledger_key t)" using Cons.prems(3) by (simp add: truthful_def)
  have other: "ledger_get t0 ix j = None \<longleftrightarrow> ledger_get (ledger_record t0 ix i None (Some ''automation.index'') del now h t) ix j = None"
    if j: "j \<in> set ids" for j
  proof -
    have "j \<noteq> i" using j Cons.prems(2) by auto
    then show ?thesis
      using ledger_record_effect [OF keys same, of None "Some ''automation.index''" del now h] Cons.prems(4) [of j] j by auto
  qed
  note ih = Cons.IH [OF s(4) _ record_keeps_truth [OF Cons.prems(3) same s(1)] other]
  show ?case using ih Cons.prems(2) s(2,3) by (auto simp: on_index_def split: if_splits)
qed simp

lemma index_book_ids_effect:
  assumes "index_book_ids eng rd hash now ix answer ids st = (st', Inr (indexed, missing))"
    and "distinct ids" and "truthful hash ix st"
    and named: "\<And>i k b d. answer i k = Inr b \<Longrightarrow> build_book_document rd b = Inr d \<Longrightarrow> doc_id d = i"
  shows "truthful hash ix st' \<and> indexed + missing = length ids
    \<and> (\<forall>i. if i \<in> set ids then indexed_as rd (answer i) (ss_engine st' ix i) else ss_engine st' ix i = ss_engine st ix i)"
proof -
  obtain st1 t where t: "index_each eng rd hash now ix answer (ss_ledger st) ids (ss_ledger st) 0 0 st = (st1, Inr (t, indexed, missing))"
      "st' = st1\<lparr>ss_ledger := t\<rparr>"
    using assms(1) by (auto simp: index_book_ids_def commit_ledger_def split: prod.splits sum.splits if_splits)
  from index_each_effect [OF t(1) assms(2) _ _ named] assms(3) show ?thesis by (simp add: t(2))
qed

subsection \<open>Witnesses\<close>

definition sample_rendering :: rendering where
  "sample_rendering = \<lparr>rd_float = (\<lambda>v. v), rd_rating = JInt, rd_iso = (\<lambda>_. ''t''), rd_timestamp = (\<lambda>_. JInt 0), rd_popularity = (\<lambda>_. JInt 0)\<rparr>"

definition willing_engine :: search_engine where
  "willing_engine = \<lparr>ge_add = (\<lambda>_ _. Inr ()), ge_delete = (\<lambda>_ _. Inr ()), ge_clear = (\<lambda>_. Inr ())\<rparr>"

definition empty_search :: search_state where
  "empty_search = \<lparr>ss_ledger = [], ss_engine = (\<lambda>_ _. None), ss_runs = []\<rparr>"

definition sample_authors :: library_db where
  "sample_authors = empty_library\<lparr>lb_authors := map (\<lambda>(i, n). \<lparr>tx_id = i, tx_name = n, tx_slug = n, tx_columns = [],
     tx_deleted_at = None, tx_created_at = 0\<rparr>) [(1, ''Ann''), (2, ''Bob'')]\<rparr>"

lemma empty_search_ok: "truthful hash ix empty_search" "collision_free hash (ss_engine empty_search ix) ds"
  by (simp_all add: truthful_def empty_search_def ledger_get_def collision_free_def entry_ok_def)

lemma willing_engine_ok: "\<forall>b. ge_add willing_engine ix b = Inr ()" "\<forall>s. ge_delete willing_engine ix s = Inr ()"
    "ge_clear willing_engine ix = Inr ()"
  by (simp_all add: willing_engine_def)

definition sample_reconcile :: "search_state \<times> ReindexRun" where
  "sample_reconcile = run_reindex willing_engine 10 doc_id 5 1 ''books'' ''reconcile'' False (build_book_document sample_rendering)
     (Some (walk_books (Suc (length (lb_books sample_shop))) sample_rendering sample_shop 50 100)) empty_search"

theorem reconcile_matches_catalogue_witness:
  "rr_status (snd sample_reconcile) = RunSucceeded \<and> ss_engine (fst sample_reconcile) ''books'' (str_uuid 7) \<noteq> None"
proof -
  have ids: "list_all (\<lambda>b. valid_uuid (bk_id b)) (lb_books sample_shop)"
    by (simp add: valid_uuid_def sample_shop_def sample_shop_book_def new_book_def)
  have feed: "0 < length (published_feed sample_shop)" "length (published_feed sample_shop) \<le> 100"
    by (simp_all add: published_feed_def catalogue_feed_def descending_def sample_shop_def sample_shop_book_def SORTABLE_def
        new_book_def no_filters_def matches_filters_def truthy_def)
  have size: "1 \<le> (50 :: nat)" "50 \<le> MAX_PAGE_SIZE" by (simp_all add: MAX_PAGE_SIZE_def)
  have unnamed: "\<forall>b \<in> set (lb_books sample_shop). bk_status b = BookPublished \<and> bk_deleted_at b = None \<longrightarrow> cb_publisher_id b = None"
    by (simp add: sample_shop_def sample_shop_book_def new_book_def sample_book_create_def)
  note * = reconcile_matches_catalogue [OF sample_shop_ok ids size feed willing_engine_ok(1,2) empty_search_ok
      prod.collapse [symmetric] unnamed, of 10 doc_id 5 1 "''books''" False sample_rendering, folded sample_reconcile_def]
  have "sample_shop_book \<in> set (lb_books sample_shop)" "bk_status sample_shop_book = BookPublished" "bk_deleted_at sample_shop_book = None"
      "bk_id sample_shop_book = 7"
    by (simp_all add: sample_shop_def sample_shop_book_def new_book_def)
  then have "ss_engine (fst sample_reconcile) ''books'' (str_uuid 7) = Some (book_document sample_rendering sample_shop sample_shop_book)"
    by (intro iffD2 [OF spec [OF spec [OF conjunct2 [OF conjunct2 [OF conjunct2 [OF *]]]]]] bexI [of _ sample_shop_book])
      (simp_all add: book_document_ok(1))
  then show ?thesis using conjunct1 [OF *] by simp
qed

definition sample_run :: "string \<Rightarrow> search_state \<times> ReindexRun" where
  "sample_run mode = run_reindex willing_engine 10 doc_id 5 1 ''books'' mode False (build_book_document sample_rendering)
     (Some (walk_books 3 sample_rendering sample_shop 200 1000)) (fst sample_reconcile)"

theorem oversized_pages_empty_index_witness:
  "(\<exists>e. rr_status (snd (sample_run ''full'')) = RunFailed e) \<and> ss_engine (fst (sample_run ''full'')) ''books'' (str_uuid 7) = None"
proof -
  have "MAX_PAGE_SIZE < 200" by (simp add: MAX_PAGE_SIZE_def)
  then show ?thesis
    using oversized_pages_empty_index [of 200 3 willing_engine "''books''" "walk_books 3 sample_rendering sample_shop 200 1000" sample_rendering sample_shop 1000
        10 doc_id 5 1 False "build_book_document sample_rendering" "fst sample_reconcile", OF _ _ willing_engine_ok(3) _ prod.collapse [symmetric] prod.collapse [symmetric]]
    by (simp add: sample_run_def)
qed

definition sample_author_run :: "search_state \<times> ReindexRun" where
  "sample_author_run = run_reindex willing_engine 10 doc_id 5 1 ''authors'' ''reconcile'' False (build_author_document sample_rendering)
     (Some (walk_authors 4 sample_rendering sample_authors 1 3)) empty_search"

theorem authors_beyond_page_lost_witness:
  "rr_status (snd sample_author_run) = RunSucceeded \<and> ss_engine (fst sample_author_run) ''authors'' (str_uuid 2) = None"
proof -
  have last_one: "map tx_id (drop 1 (live_authors sample_authors)) = [2]" by code_simp
  have "length (live_authors sample_authors) = 2" by (simp add: live_authors_def ascending_def sample_authors_def)
  moreover have "distinct (map tx_id (lb_authors sample_authors))" "list_all (\<lambda>a. valid_uuid (tx_id a)) (lb_authors sample_authors)"
      "(1 :: nat) \<le> MAX_PAGE_SIZE"
    by (simp_all add: valid_uuid_def sample_authors_def MAX_PAGE_SIZE_def)
  ultimately have "rr_status (snd sample_author_run) = RunSucceeded
      \<and> (\<forall>a \<in> set (drop 1 (live_authors sample_authors)). ss_engine (fst sample_author_run) ''authors'' (str_uuid (tx_id a)) = None)"
    using authors_beyond_page_lost [of 1 sample_authors 3 4, OF _ _ _ _ _ _ _ willing_engine_ok(1,2) empty_search_ok
        prod.collapse [symmetric], of 10 doc_id 5 1 "''authors''" False sample_rendering]
    by (simp add: sample_author_run_def)
  moreover obtain a where "a \<in> set (drop 1 (live_authors sample_authors))" "tx_id a = 2"
    using last_one by (metis ex_map_conv list.set_intros(1) imageE list.set_map)
  ultimately show ?thesis by metis
qed

end
