(* ===== verification/Spec2Isabelle.thy ===== *)
theory Spec2Isabelle
  imports Checkout Reports Entitlements Event_Bus Ratelimit Service_Client Auth_Accounts Automation_Artefacts Automation_Imports
    Books_Reviews Books_Shelf Search_Index
begin

section \<open>Verification of the KnowledgeOS platform\<close>

text \<open>
  KnowledgeOS (\<open>src/apps\<close>, \<open>src/packages/core-py\<close>) sells and serves e-books. It is a set of
  Python services with one database schema each, which call each other over signed HTTP,
  share Redis, and tell each other facts over a Redis stream. This development models the
  payment service nearly completely, the sign-in half of the auth service, the catalogue,
  taxonomy, reviews, shelves and access control of the books service, the pipeline and imports of the
  automation service, the indexing half of the search service, and the shared library they are
  built on.

  \<^bold>\<open>How the parts interact.\<close> The checkout route prices a cart against the catalogue of the
  books service (\<open>Catalogue\<close>, \<open>Coupons\<close>, \<open>Tax\<close>, \<open>Pricing\<close>), creates the order under an
  idempotency key (\<open>Orders\<close>, \<open>Idempotency\<close>, \<open>Checkout\<close>) and opens it at a gateway
  (\<open>Gateways\<close>). The gateway confirms through a signed webhook or the browser (\<open>Webhooks\<close>,
  \<open>Checkout\<close>); settlement marks the order paid, issues the invoice and credits the affiliate
  once (\<open>Payments\<close>, \<open>Invoices\<close>, \<open>Affiliates\<close>); refunds reverse it (\<open>Refunds\<close>). The paid order is
  announced on the bus (\<open>Event_Bus\<close>) and the books service turns the message into
  entitlements (\<open>Entitlements\<close>), which its download route asks for (\<open>Books_Catalogue\<close>).
  Books enter the catalogue through staff routes and through imports (\<open>Automation_Imports\<close>);
  their files go through the stages of a job (\<open>Automation_Jobs\<close>, \<open>Automation_Stages\<close>,
  \<open>Automation_Pipeline\<close>), which write back to the catalogue. The search service follows the
  catalogue through events and by walking its listings (\<open>Search_Documents\<close>, \<open>Search_Index\<close>).
  Every request is made by a caller whose token the auth service minted (\<open>Auth_Tokens\<close>,
  \<open>Auth_Mfa\<close>, \<open>Auth_Accounts\<close>) and the receiving service verified (\<open>Security\<close>), through the
  limiter (\<open>Ratelimit\<close>); services call each other through the client of \<open>Service_Client\<close>.

  \<^bold>\<open>Theories and sources.\<close>
  \<^item> \<open>Prelude\<close>, \<open>Json\<close>, \<open>Uuid\<close>, \<open>Calendar\<close>: Python's strings, truthiness, dictionaries, identifiers
    and dates; tables as lists of rows with the locale \<open>keyed_table\<close>, the contract of a unique
    constraint, interpreted for every table with one.
  \<^item> \<open>Keyset\<close>: cursor paging and its contract, shared by the listings of orders, books, reviews and
    shelves (\<open>knowledgeos_core/pagination.py\<close> and the services that page).
  \<^item> \<open>Core_Errors\<close> (\<open>knowledgeos_core/errors.py\<close>, \<open>schemas.py\<close>): the error hierarchy, results.
  \<^item> \<open>Payment_Models\<close>, \<open>Payment_Settings\<close> (\<open>payment/models.py\<close>, \<open>schemas.py\<close>, \<open>settings.py\<close>).
  \<^item> \<open>Tax\<close>, \<open>Catalogue\<close>, \<open>Coupons\<close>, \<open>Pricing\<close>, \<open>Orders\<close>, \<open>Invoices\<close>, \<open>Affiliates\<close>, \<open>Payments\<close>, \<open>Refunds\<close>,
    \<open>Subscriptions\<close>, \<open>Reports\<close>, \<open>Webhooks\<close> (\<open>payment/services/\<close>, one module each), \<open>Gateways\<close>
    (\<open>payment/services/providers/\<close>), \<open>Checkout\<close> (\<open>payment/routers/checkout.py\<close>, \<open>deps.py\<close>, the
    money-moving routes of \<open>routers/admin.py\<close>).
  \<^item> \<open>Entitlements\<close> (\<open>books/services/entitlements.py\<close>, \<open>events.py\<close>), \<open>Books_Models\<close> (\<open>books/models.py\<close>,
    \<open>schemas.py\<close>), \<open>Books_Catalogue\<close> (\<open>books/services/catalogue.py\<close>, \<open>routers/catalogue.py\<close>,
    \<open>routers/admin.py\<close>), \<open>Books_Reviews\<close> (\<open>books/services/reviews.py\<close>, \<open>routers/engagement.py\<close>),
    \<open>Books_Taxonomy\<close> (\<open>books/services/taxonomy.py\<close>, \<open>cache.py\<close>), \<open>Books_Shelf\<close>
    (\<open>books/services/reading.py\<close>, \<open>lists.py\<close>).
  \<^item> \<open>Documents\<close> (\<open>automation/services/documents.py\<close>, \<open>media.py\<close>), \<open>Automation_Jobs\<close> (\<open>models.py\<close>,
    \<open>services/jobs.py\<close>), \<open>Automation_Stages\<close> (\<open>services/stages.py\<close>, \<open>clients.py\<close>), \<open>Automation_Pipeline\<close>
    (\<open>services/pipeline.py\<close>, \<open>tasks.py\<close>, \<open>routers/\<close>), \<open>Automation_Artefacts\<close> (what the stages leave in
    storage), \<open>Automation_Imports\<close> (\<open>services/imports.py\<close>, \<open>events.py\<close>).
  \<^item> \<open>Search_Documents\<close> (the response models of \<open>books/schemas.py\<close> and
    \<open>search/services/documents.py\<close>), \<open>Search_Index\<close> (\<open>search/services/indexer.py\<close>, \<open>catalogue.py\<close>,
    \<open>models.py\<close> and the internal listings of the books service).
  \<^item> \<open>Auth_Models\<close>, \<open>Auth_Tokens\<close>, \<open>Auth_Mfa\<close>, \<open>Auth_Accounts\<close> (\<open>auth/models.py\<close>, \<open>services/tokens.py\<close>,
    \<open>mfa.py\<close>, \<open>accounts.py\<close> and the routes over them).
  \<^item> \<open>Ratelimit\<close>, \<open>Security\<close>, \<open>Service_Client\<close>, \<open>Idempotency\<close>, \<open>Event_Bus\<close> (\<open>knowledgeos_core/ratelimit.py\<close>,
    \<open>security.py\<close> with \<open>deps.py\<close>, \<open>http.py\<close>, \<open>idempotency.py\<close>, \<open>events.py\<close>).
  \<^item> This theory: the path of a purchase from settlement over the bus to the reader, and what
    the announcements of the catalogue start.

  \<^bold>\<open>State and operations.\<close> A service's database is a record of its tables, a table the list of
  its rows, a row a record with the columns the code uses. An operation takes the database,
  what it reads of the outside (configuration, clock, identifiers and random values it draws,
  gateways, other services) and its arguments, and returns the new database with its result;
  a raise is a value \<open>Inl e\<close> of \<open>exn\<close>. Where the code reads an object and writes it later, the
  object is an argument that may be older than its row. What other transactions commit in a
  window the code leaves open is an argument too (\<open>race\<close>, \<open>others\<close>), so the theorems about
  sequential behaviour say so (\<open>quiet\<close>), and the theorems about interleavings exhibit one.
  Sequences of requests are step relations (\<open>catalogue_step\<close> and its like), and invariants are
  proved over their closure.

  \<^bold>\<open>What the lemmas show.\<close> Money: amounts reconcile and round correctly, a quote is the sum of
  its catalogue prices, coupons are never oversold however checkouts and releases of different
  orders interleave, an order is settled, invoiced, credited and announced once however often
  it is confirmed and refunds stay within the total (when the confirmations or refunds of one
  order follow one another; the lemmas on concurrent ones show otherwise), ledgers balance. Trust: unsigned or forged webhooks, tokens, internal calls and return URLs have no
  effect, a refresh token or a second-factor code works once, changed credentials end every
  session. Delivery: the limiter implements its sliding window, on the bus every delivered
  message is pending, handled or on the dead-letter stream while consumers run, a paid order
  opens its books. Automation: a job stops within its retry budget,
  a finished stage is not redone unless a retry asks for it, success means every required stage is done, a dry run
  predicts the real import, a redelivered event starts nothing. Catalogue: slugs, ISBNs, prices
  and versions stay consistent, ratings are those of the approved reviews, categories form a
  forest the tree shows completely, a listing's cursors reach every row once, a download needs
  a right, reading progress is the log of what was synced, and no reader touches the shelf of
  another. Search: ledger and engine agree, a replayed event changes nothing, and a
  reconciliation that gets through the listing makes the index the published catalogue. The theorems of kind \<open>error\<close> prove
  where the code falls short of what a comment or a document says: the moderation route, the
  page size that empties an index, authors beyond the first page. Lemmas of the same nature
  stand in their theories (concurrent refunds, settlements, releases and moves of categories,
  listed books with a publisher, orders without a gateway order, bans by staff, the lockout
  and the reuse revocation that are rolled back, the manual provider, the half-open breaker,
  lost covers, resumed uploads, unpublished books).

  \<^bold>\<open>Bounds and termination.\<close> All loops are structural recursions or bounded as in the source
  (five attempts for an invoice serial, three for a connection, six steps up the categories).
  Loops that end only because of the data take fuel, and a theorem shows that the fuel given is
  enough: following the cursors of a listing takes one request more than there are rows at
  most, reading the category tree one level per row, walking the catalogue for the index one
  request more than there are books, or than the ceiling of documents. Amounts and times are
  Python's unbounded integers; the widths of the database columns are not modelled.

  \<^bold>\<open>Not modelled.\<close> HTTP framing, most response shapes, logging and metrics; JSON text (values are
  parsed); cryptography, JWT, bcrypt, one-time passwords, gateways, the network, floating-point
  numbers, archive, PDF, XML and image libraries, object storage and the search engine, which
  are parameters; the text of a chapter (\<open>strip_html\<close>), a parameter too; the endless loop of a
  consumer around its ticks; OAuth, key files and retention sweeps of the auth service; upload
  targets of the books service; search queries, suggestions and analytics; the API gateway, the AI, notification, admin and worker
  services, which mostly move data between external systems; database migrations and the web
  front end.
\<close>

section \<open>From a payment to the reader\<close>

text \<open>
  \<open>apps/books/services/events.py\<close> registers one handler for both kinds of message; an event of
  the bus is handed to it with its payload.
\<close>

definition grant_event :: "event \<Rightarrow> bus_event" where
  "grant_event ev = \<lparr>be_id = ev_id ev, be_type = ev_type ev,
     be_payload = (case ev_payload ev of JObj d \<Rightarrow> d | _ \<Rightarrow> [])\<rparr>"

definition books_handlers :: "timestamp \<Rightarrow> (uuid \<Rightarrow> uuid) \<Rightarrow> books_db handlers" where
  "books_handlers now ids =
     map (\<lambda>t. (t, [\<lambda>db ev. consume_grant db now ids (grant_event ev)])) ENTITLEMENT_EVENTS"

text \<open>The event a service's publisher makes of a message: it draws its id, time and correlation.\<close>

definition carries :: "event \<Rightarrow> string \<times> jobj \<Rightarrow> bool" where
  "carries ev m \<longleftrightarrow> ev_type ev = fst m \<and> ev_payload ev = JObj (snd m)
     \<and> ev_id ev \<noteq> [] \<and> ev_occurred_at ev \<noteq> [] \<and> truthy (ev_correlation_id ev)"

subsection \<open>Lemmas: one pass over the bus\<close>

lemma publish_next:
  assumes "map fst (bs_entries b) = [1..<Suc n]" and "bs_last_delivered b = 0"
  shows "publish_event b ev = b\<lparr>bs_entries := bs_entries b @ [(Suc n, to_fields ev)]\<rparr>"
proof -
  have "fst ` set (bs_entries b) = {1..<Suc n}"
    using arg_cong [OF assms(1), of set] by (simp del: upt_Suc)
  moreover have "Max (insert 0 {1..<Suc n}) = n" by (rule Max_eqI) auto
  ultimately show ?thesis using assms(2) by (simp add: publish_event_def)
qed

lemma published_entries:
  "bs_entries (foldl publish_event empty_bus evs) = zip [1..<Suc (length evs)] (map to_fields evs)
   \<and> bs_last_delivered (foldl publish_event empty_bus evs) = 0 \<and> bs_pending (foldl publish_event empty_bus evs) = []"
proof (induction evs rule: rev_induct)
  case (snoc ev evs)
  let ?b = "foldl publish_event empty_bus evs"
  have "map fst (bs_entries ?b) = [1..<Suc (length evs)]" using snoc by (simp del: upt_Suc)
  from publish_next [OF this] snoc
  have "publish_event ?b ev = ?b\<lparr>bs_entries := bs_entries ?b @ [(Suc (length evs), to_fields ev)]\<rparr>" by blast
  moreover have "zip [1..<Suc (Suc n)] (xs @ [x]) = zip [1..<Suc n] xs @ [(Suc n, x)]" if "length xs = n"
    for n xs and x :: event_fields
  proof -
    have "[1..<Suc (Suc n)] = [1..<Suc n] @ [Suc n]" by (rule upt_Suc_append) simp
    with that show ?thesis by (simp add: zip_append1 del: upt_Suc)
  qed
  ultimately show ?case using snoc by (simp del: upt_Suc)
qed (simp add: empty_bus_def)

lemma read_published:
  assumes "length evs \<le> batch"
  shows "\<exists>b. read_group (foldl publish_event empty_bus evs) consumer batch
       = (b, zip [1..<Suc (length evs)] (map to_fields evs))
     \<and> map pe_msg (bs_pending b) = [1..<Suc (length evs)]"
proof -
  let ?ms = "zip [1..<Suc (length evs)] (map to_fields evs)"
  have "filter (\<lambda>(i, f). 0 < i) ?ms = ?ms"
    by (rule filter_True) (auto dest!: set_zip_leftD simp del: upt_Suc)
  moreover have "take batch ?ms = ?ms" using assms by (simp del: upt_Suc)
  moreover have "map fst ?ms = [1..<Suc (length evs)]" by (simp del: upt_Suc)
  ultimately show ?thesis
    using published_entries [of evs]
    by (simp add: read_group_def Let_def case_prod_beta o_def del: upt_Suc)
qed

lemma pending_acked: "bs_pending (foldl ack b is) = filter (\<lambda>p. pe_msg p \<notin> set is) (bs_pending b)"
  by (induction "is" arbitrary: b) (auto simp: ack_def delete_rows_def intro: filter_cong)

lemma handlers_of_grants:
  assumes "ev_type ev \<in> set ENTITLEMENT_EVENTS"
  shows "dispatch_event (books_handlers now ids) db ev =
     (case consume_grant db now ids (grant_event ev) of (db1, Inl e) \<Rightarrow> (db1, Inl e) | (db1, Inr _) \<Rightarrow> (db1, Inr ()))"
proof -
  have "handlers_for (books_handlers now ids) (ev_type ev) = [\<lambda>db ev. consume_grant db now ids (grant_event ev)]"
    using assms by (auto simp: handlers_for_def books_handlers_def ENTITLEMENT_EVENTS_def opt_default_def)
  then show ?thesis by (simp add: dispatch_event_def)
qed

lemma handle_batch_grants:
  assumes "\<forall>ev \<in> set evs. ev_type ev \<in> set ENTITLEMENT_EVENTS \<and> ev_id ev \<noteq> [] \<and> ev_occurred_at ev \<noteq> []
      \<and> truthy (ev_correlation_id ev)"
    and "consume_all db (map (\<lambda>ev. (now, ids, grant_event ev)) evs) = (db', replicate (length evs) (Inr ()))"
    and "length is = length evs"
  shows "handle_batch n (books_handlers now ids) d db b (zip is (map to_fields evs))
     = (db', foldl ack b is, map Handled is)"
  using assms
proof (induction evs arbitrary: "is" db b)
  case (Cons ev evs)
  obtain i js where i: "is = i # js" "length js = length evs" using Cons.prems(3) by (cases "is") auto
  obtain db1 where c: "consume_grant db now ids (grant_event ev) = (db1, Inr ())"
      "consume_all db1 (map (\<lambda>ev. (now, ids, grant_event ev)) evs) = (db', replicate (length evs) (Inr ()))"
    using Cons.prems(2) by (auto split: prod.splits)
  have "handle_message n (books_handlers now ids) d db b (i, to_fields ev) = Inr (db1, ack b i, Handled i)"
    using Cons.prems(1) c(1) by (simp add: handle_message_def fields_readable handlers_of_grants)
  with Cons.IH [OF _ c(2) i(2)] Cons.prems(1) show ?case by (simp add: i(1))
qed simp

lemma announced_kinds: "(t, d) \<in> set (announce_paid pub res) \<Longrightarrow> t \<in> set ENTITLEMENT_EVENTS"
  by (auto simp: announce_paid_def ENTITLEMENT_EVENTS_def Let_def split: option.splits if_splits)

lemma carried_messages: "list_all2 carries evs ms \<Longrightarrow> ev \<in> set evs \<Longrightarrow> \<exists>m \<in> set ms. carries ev m"
  by (induction rule: list_all2_induct) auto

lemma paid_announces:
  "announces_order (ord\<lparr>o_status := s, o_paid_at := t, o_failure_reason := f\<rparr>) d = announces_order ord d"
  by (simp add: announces_order_def order_event_payload_def)

lemma newly_settled_order:
  assumes "settle pdb st env ord cf = Inr (pdb', res)" and "sr_newly_paid res"
  shows "sr_order res = ord\<lparr>o_status := Paid, o_paid_at := Some (se_now env), o_failure_reason := None\<rparr>"
  using assms(1)
proof (cases rule: settle_cases)
  case (duplicate db1 p created)
  with assms(2) show ?thesis by simp
next
  case (first db1 p created db2 ord2 db3 bill)
  with mark_paid_result [OF first(3)] show ?thesis by simp
qed

text \<open>
  C2: A settled payment reaches the reader. When a confirmation settles an order for the first
  time, the messages the payment service sends of it are what the bus holds, they fit into one
  batch, and the books of the order are in the catalogue, neither deleted nor archived
  (\<open>load_grantable_book\<close>), one pass of the books service's consumer handles all of them, leaves
  none pending, and from then on the buyer may read and download every book of the order. This spans settlement, announcement, the stream
  encoding of events, the consumer group and the entitlement service.
\<close>

theorem settled_payment_reaches_reader:
  assumes paid: "settle pdb st env ord cf = Inr (pdb', res)" "sr_newly_paid res"
    and sent: "list_all2 carries evs (announce_paid (Some send) res)" "evs \<noteq> []" "length evs \<le> batch"
    and books: "entitlements_ok bdb" "unclaimed bdb (grant_event (hd evs))"
      "\<forall>b \<in> set (order_book_ids ord). load_grantable_book bdb b \<noteq> None"
    and order: "valid_order_uuids ord" "i \<in> set (o_items ord)" "bk_id bk = oi_book_id i"
    and pass: "read_tick n batch (books_handlers now ids) d consumer bdb (foldl publish_event empty_bus evs)
      = (bdb', b', outcomes)"
  shows "outcomes = map Handled [1..<Suc (length evs)] \<and> bs_pending b' = []
     \<and> (\<exists>a. require_download bdb' free later (o_user_id ord) bk = Inr a)"
proof -
  let ?ds = "map (\<lambda>ev. (now, ids, grant_event ev)) evs"
  note same = newly_settled_order [OF paid]
  have msg: "\<exists>t. (t, be_payload (grant_event ev)) \<in> set (announce_paid (Some send) res)
      \<and> ev_type ev = t \<and> ev_id ev \<noteq> [] \<and> ev_occurred_at ev \<noteq> [] \<and> truthy (ev_correlation_id ev)"
    if ev: "ev \<in> set evs" for ev
  proof -
    obtain m where "m \<in> set (announce_paid (Some send) res)" "carries ev m"
      using carried_messages [OF sent(1) ev] by blast
    then show ?thesis by (cases m) (auto simp: carries_def grant_event_def)
  qed
  have ann: "\<forall>(now, ids, ev) \<in> set ?ds. announces_order ord (be_payload ev)"
  proof -
    have "announces_order ord (be_payload (grant_event ev))" if "ev \<in> set evs" for ev
    proof -
      obtain t where "(t, be_payload (grant_event ev)) \<in> set (announce_paid (Some send) res)"
        using msg [OF \<open>ev \<in> set evs\<close>] by blast
      from announced_messages [OF this] show ?thesis unfolding same by (simp add: paid_announces)
    qed
    then show ?thesis by auto
  qed
  have items: "o_items ord \<noteq> []" using order(2) by auto
  obtain bdb2 where c: "consume_all bdb ?ds = (bdb2, replicate (length ?ds) (Inr ()))" "entitlements_ok bdb2"
      "\<forall>b \<in> set (order_book_ids ord). granted bdb2 (purchase_grant (order_grant ord) b)"
    using consume_all_ok [OF books(1) ann order(1) items books(3)] sent(2) books(2) by (auto simp: hd_map)
  obtain b1 where r: "read_group (foldl publish_event empty_bus evs) consumer batch
       = (b1, zip [1..<Suc (length evs)] (map to_fields evs))" "map pe_msg (bs_pending b1) = [1..<Suc (length evs)]"
    using read_published [OF sent(3)] by blast
  have "handle_batch n (books_handlers now ids) d bdb b1 (zip [1..<Suc (length evs)] (map to_fields evs))
      = (bdb2, foldl ack b1 [1..<Suc (length evs)], map Handled [1..<Suc (length evs)])"
  proof (rule handle_batch_grants)
    show "\<forall>ev \<in> set evs. ev_type ev \<in> set ENTITLEMENT_EVENTS \<and> ev_id ev \<noteq> [] \<and> ev_occurred_at ev \<noteq> []
      \<and> truthy (ev_correlation_id ev)" using msg announced_kinds by blast
    show "consume_all bdb ?ds = (bdb2, replicate (length evs) (Inr ()))" using c(1) by simp
  qed (simp del: upt_Suc)
  with pass r(1) have eq: "bdb' = bdb2" "b' = foldl ack b1 [1..<Suc (length evs)]"
      "outcomes = map Handled [1..<Suc (length evs)]"
    by (simp_all add: read_tick_def del: upt_Suc)
  have "pe_msg ` set (bs_pending b1) = set [1..<Suc (length evs)]" unfolding set_map [symmetric] r(2) ..
  then have "bs_pending b' = []" unfolding eq(2) pending_acked by (auto simp: filter_empty_conv simp del: upt_Suc)
  moreover have "oi_book_id i \<in> set (order_book_ids ord)" using order(2) by (simp add: order_book_ids_def)
  from granted_access(2) [OF c(2) c(3) [rule_format, OF this] order(3), of free later]
  have "\<exists>a. require_download bdb' free later (o_user_id ord) bk = Inr a" by (simp add: order_grant_def eq(1))
  ultimately show ?thesis using eq(3) by simp
qed

definition sample_publication :: "string \<times> jobj \<Rightarrow> event" where
  "sample_publication m = \<lparr>ev_type = fst m, ev_payload = JObj (snd m), ev_id = fst m, ev_source = ''payment'',
     ev_correlation_id = Some ''r1'', ev_occurred_at = ''2026-01-01'', ev_version = 1\<rparr>"

lemma sample_publications:
  assumes "sr_newly_paid res"
  defines "ms \<equiv> announce_paid (Some (\<lambda>_ _. True)) res"
  shows "list_all2 carries (map sample_publication ms) ms" "length ms = 2" "unclaimed sample_books_db ev"
proof -
  have e: "\<exists>d. ms = [(''payment.succeeded'', d), (''order.paid'', d)]"
    using assms(1) by (simp add: ms_def announce_paid_def Let_def)
  show "list_all2 carries (map sample_publication ms) ms" using e
    by (auto simp: carries_def sample_publication_def truthy_def)
  show "length ms = 2" using e by auto
  show "unclaimed sample_books_db ev" by (simp add: unclaimed_def sample_books_db_def)
qed

theorem settled_payment_reaches_reader_witness:
  "\<exists>pdb' res bdb' b' outcomes a.
     settle sample_order_db default_settings sample_settle_env sample_order sample_confirmation = Inr (pdb', res)
   \<and> read_tick 5 20 (books_handlers 1 (\<lambda>b. b)) sample_draws ''c'' sample_books_db
       (foldl publish_event empty_bus (map sample_publication (announce_paid (Some (\<lambda>_ _. True)) res)))
     = (bdb', b', outcomes)
   \<and> bs_pending b' = [] \<and> require_download bdb' True 5 9 sample_book_row = Inr a"
proof -
  obtain pdb' res where s: "settle sample_order_db default_settings sample_settle_env sample_order sample_confirmation
      = Inr (pdb', res)" "sr_newly_paid res"
    using settle_first [OF sample_quiet sample_settle_facts] by blast
  let ?ms = "announce_paid (Some (\<lambda>_ _. True)) res" and ?f = sample_publication
  note p = sample_publications [OF s(2)]
  obtain bdb' b' os where r: "read_tick 5 20 (books_handlers 1 (\<lambda>b. b)) sample_draws ''c'' sample_books_db
       (foldl publish_event empty_bus (map ?f ?ms)) = (bdb', b', os)" by (metis prod_cases3)
  have m: "map ?f ?ms \<noteq> []" "length (map ?f ?ms) \<le> 20" using p(2) by auto
  have i: "hd (o_items sample_order) \<in> set (o_items sample_order)" "bk_id sample_book_row = oi_book_id (hd (o_items sample_order))"
    "o_user_id sample_order = 9" "order_book_ids sample_order = [7]" "valid_order_uuids sample_order"
    by (simp_all add: sample_order_def order_book_ids_def sample_book_row_def valid_order_uuids_def valid_uuid_def)
  have b: "entitlements_ok sample_books_db"
    "\<forall>b \<in> set (order_book_ids sample_order). load_grantable_book sample_books_db b \<noteq> None"
    by (simp_all add: i(4) entitlements_ok_def load_grantable_book_def sample_books_db_def sample_book_row_def)
  from settled_payment_reaches_reader [OF s p(1) m b(1) p(3) b(2) i(5,1,2) r, of True 5] s r show ?thesis
    unfolding i(3) by blast
qed

text \<open>
  The catalogue's announcements never carry a file, so none of the staff routes that change a
  book ever starts an automation job.
\<close>

lemma catalogue_events_start_nothing:
  assumes "ev_payload ev = JObj (snd (announce_book event_type b))"
  shows "consume_book_event db job_id now ev = (db, Inr ())"
  by (rule consume_inert) (simp add: assms starts_job_def announce_book_def jget_null_def jor_def)

end
